(* ===== verification/Prelude.thy ===== *)
theory Prelude
  imports Main "HOL-Library.Word"
begin

text \<open>
  What every component shares: the machine types, the return codes of
  \<^verbatim>\<open>uapkic/include/uapkic-errors.h\<close>, the control macros of
  \<^verbatim>\<open>uapkic/src/macros-internal.h\<close> as combinators on results, the C allocator as a
  parameter, bounds-checked memory access, and the generic lemmas about lists of bytes.
\<close>

unbundle bit_operations_syntax

named_theorems c_simps \<open>unfolding rules of the control macros and of memory access\<close>
named_theorems wf_rules \<open>well-formedness of objects built by the operations\<close>

type_synonym u8 = "8 word"
type_synonym u16 = "16 word"
type_synonym u32 = "32 word"
type_synonym u64 = "64 word"

subsection \<open>Return codes and results\<close>

text \<open>
  The codes of \<^verbatim>\<open>uapkic-errors.h\<close> but \<^verbatim>\<open>RET_OK\<close>, which is the \<^term>\<open>Inr\<close> side of a
  result. Two values are no codes of the library. \<open>UNDEFINED\<close> marks a run to which C gives no
  meaning (a read or write outside an object), so that memory safety is a statement about
  results. \<open>FREED\<close> is \<^verbatim>\<open>RET_MEMORY_ALLOC_ERROR\<close> from a call that has freed the block of the
  array it was given, whose pointer the caller still holds (\<open>REALLOC_CHECKED\<close> below).
\<close>

datatype ret =
    RET_MEMORY_ALLOC_ERROR
  | RET_INVALID_PARAM
  | RET_VERIFY_FAILED
  | RET_CONTEXT_NOT_READY
  | RET_INVALID_CTX
  | RET_INVALID_PRIVATE_KEY
  | RET_INVALID_PUBLIC_KEY
  | RET_OS_PRNG_ERROR
  | RET_JITTER_RNG_ERROR
  | RET_UNSUPPORTED
  | RET_INVALID_KEY_SIZE
  | RET_INVALID_IV_SIZE
  | RET_RSA_DECRYPTION_ERROR
  | RET_INVALID_CTX_MODE
  | RET_INVALID_EC_PARAMS
  | RET_DATA_TOO_LONG
  | RET_INVALID_RSA_N
  | RET_INVALID_RSA_D
  | RET_INVALID_RSA_DMP
  | RET_INVALID_RSA_DMQ
  | RET_INVALID_RSA_IQMP
  | RET_INVALID_HASH_LEN
  | RET_INVALID_MAC
  | RET_CTX_ALREADY_IN_CACHE
  | RET_POINT_NOT_ON_CURVE
  | RET_INVALID_OID
  | RET_INVALID_DATA_LEN
  | RET_INVALID_UTF8_STR
  | RET_INVALID_HEX_STRING
  | RET_INVALID_BASE64_STRING
  | RET_INDEX_OUT_OF_RANGE
  | RET_SELF_TEST_NOT_ALLOWED
  | RET_SELF_TEST_FAIL
  | FREED
  | UNDEFINED

type_synonym 'a res = "ret + 'a"

abbreviation defined :: "'a res \<Rightarrow> bool" where
  "defined r \<equiv> r \<noteq> Inl UNDEFINED"

subsection \<open>The control macros\<close>

text \<open>
  Every function of the library is a straight line of checks that jump to \<^verbatim>\<open>cleanup\<close>.
  The combinators below carry the rest of the function as a continuation. A pointer that
  the code compares with \<^verbatim>\<open>NULL\<close> is an option value; \<open>NOT_NULL\<close> is
  \<^verbatim>\<open>CHECK_PARAM(p != NULL)\<close> followed by the uses of \<^verbatim>\<open>p\<close>.
\<close>

definition DO :: "'a res \<Rightarrow> ('a \<Rightarrow> 'b res) \<Rightarrow> 'b res" where
  "DO r k = (case r of Inl e \<Rightarrow> Inl e | Inr x \<Rightarrow> k x)"

definition CHECK_PARAM :: "bool \<Rightarrow> 'b res \<Rightarrow> 'b res" where
  "CHECK_PARAM c k = (if c then k else Inl RET_INVALID_PARAM)"

definition NOT_NULL :: "'a option \<Rightarrow> ('a \<Rightarrow> 'b res) \<Rightarrow> 'b res" where
  "NOT_NULL p k = (case p of None \<Rightarrow> Inl RET_INVALID_PARAM | Some x \<Rightarrow> k x)"

definition SET_ERROR :: "ret \<Rightarrow> 'b res" where
  "SET_ERROR e = Inl e"

text \<open>
  A function that returns a pointer turns every failed check into \<^verbatim>\<open>NULL\<close>
  (\<open>to_ptr\<close>); its caller tests the pointer with \<^verbatim>\<open>CHECK_NOT_NULL\<close>, which reports
  \<^verbatim>\<open>RET_INVALID_PARAM\<close> whatever the reason was. Undefined behaviour is not a
  value and passes through both.
\<close>

definition to_ptr :: "'a res \<Rightarrow> 'a option res" where
  "to_ptr r = (case r of Inr x \<Rightarrow> Inr (Some x)
     | Inl e \<Rightarrow> if e = UNDEFINED then Inl UNDEFINED else Inr None)"

definition CHECK_NOT_NULL :: "'a option res \<Rightarrow> ('a \<Rightarrow> 'b res) \<Rightarrow> 'b res" where
  "CHECK_NOT_NULL r k = DO r (\<lambda>p. NOT_NULL p k)"

text \<open>
  \<open>DO_ST r s k\<close> is \<^verbatim>\<open>DO(r)\<close> in a function that has changed its context: a failure returns the
  code together with the context \<open>s\<close> the caller is left with.
\<close>

definition DO_ST :: "'a res \<Rightarrow> 's \<Rightarrow> ('a \<Rightarrow> 'b res \<times> 's) \<Rightarrow> 'b res \<times> 's" where
  "DO_ST r s k = (case r of Inl e \<Rightarrow> (Inl e, s) | Inr x \<Rightarrow> k x)"

lemma DO_ST_simps [simp, c_simps]:
  "DO_ST (Inl e) s k = (Inl e, s)" "DO_ST (Inr x) s k = k x"
  by (simp_all add: DO_ST_def)

lemma DO_simps [simp, c_simps]:
  "DO (Inl e) k = Inl e" "DO (Inr x) k = k x"
  by (simp_all add: DO_def)

lemma CHECK_PARAM_simps [simp, c_simps]:
  "CHECK_PARAM True k = k" "CHECK_PARAM False k = Inl RET_INVALID_PARAM"
  by (simp_all add: CHECK_PARAM_def)

lemma NOT_NULL_simps [simp, c_simps]:
  "NOT_NULL None k = Inl RET_INVALID_PARAM" "NOT_NULL (Some x) k = k x"
  by (simp_all add: NOT_NULL_def)

lemma to_ptr_simps [simp, c_simps]:
  "to_ptr (Inr x) = Inr (Some x)"
  "to_ptr (Inl e) = (if e = UNDEFINED then Inl UNDEFINED else Inr None)"
  by (simp_all add: to_ptr_def)

lemma CHECK_NOT_NULL_simps [simp, c_simps]:
  "CHECK_NOT_NULL (Inr (Some x)) k = k x"
  "CHECK_NOT_NULL (Inr None) k = Inl RET_INVALID_PARAM"
  "CHECK_NOT_NULL (Inl e) k = Inl e"
  by (simp_all add: CHECK_NOT_NULL_def)

lemma DO_eq_Inr: "DO r k = Inr y \<longleftrightarrow> (\<exists>x. r = Inr x \<and> k x = Inr y)"
  by (cases r) simp_all

lemma CHECK_PARAM_eq_Inr: "CHECK_PARAM c k = Inr y \<longleftrightarrow> c \<and> k = Inr y"
  by (cases c) simp_all

lemma NOT_NULL_eq_Inr: "NOT_NULL p k = Inr y \<longleftrightarrow> (\<exists>x. p = Some x \<and> k x = Inr y)"
  by (cases p) simp_all

lemma to_ptr_eq_Some: "to_ptr r = Inr (Some y) \<longleftrightarrow> r = Inr y"
  by (cases r) simp_all

lemmas res_inversions = DO_eq_Inr CHECK_PARAM_eq_Inr NOT_NULL_eq_Inr to_ptr_eq_Some

subsection \<open>size_t\<close>

text \<open>
  Lengths and offsets are natural numbers below \<open>2 ^ 64\<close> (\<^verbatim>\<open>size_t\<close> on the 64-bit
  builds the word size of \<^verbatim>\<open>word-internal.h\<close> is modelled for). Sums and differences of
  values the caller chooses wrap, and are written with \<open>sz_add\<close>, \<open>sz_sub\<close> and \<open>sz_mul\<close>; sums of the
  lengths of two live objects cannot reach \<open>2 ^ 64\<close> and are written plainly.
\<close>

definition SIZE_MOD :: nat where "SIZE_MOD = 2 ^ 64"

definition sz_add :: "nat \<Rightarrow> nat \<Rightarrow> nat" where
  "sz_add a b = (a + b) mod SIZE_MOD"

definition sz_sub :: "nat \<Rightarrow> nat \<Rightarrow> nat" where
  "sz_sub a b = (if b \<le> a then a - b else SIZE_MOD - (b - a))"

definition sz_mul :: "nat \<Rightarrow> nat \<Rightarrow> nat" where
  "sz_mul a b = (a * b) mod SIZE_MOD"

lemma sz_mul_small [simp]: "a * b < SIZE_MOD \<Longrightarrow> sz_mul a b = a * b"
  by (simp add: sz_mul_def)

lemma sz_add_small [simp]: "a + b < SIZE_MOD \<Longrightarrow> sz_add a b = a + b"
  by (simp add: sz_add_def)

lemma sz_sub_le [simp]: "b \<le> a \<Longrightarrow> sz_sub a b = a - b"
  by (simp add: sz_sub_def)

subsection \<open>The host\<close>

text \<open>
  The host is a parameter: its byte order, for which sizes \<^verbatim>\<open>malloc\<close> and
  \<^verbatim>\<open>realloc\<close> return a block, and which bytes a fresh block holds before the program
  writes to it. A theorem for every
  \<open>garbage\<close> says that no result depends on uninitialised memory.
\<close>

record mem =
  malloc_ok :: "nat \<Rightarrow> bool"
  realloc_ok :: "nat \<Rightarrow> bool"
  garbage :: "nat \<Rightarrow> u8"
  big_endian :: bool

definition fresh :: "mem \<Rightarrow> nat \<Rightarrow> u8 list" where
  "fresh M n = map (garbage M) [0..<n]"

definition MALLOC_CHECKED :: "mem \<Rightarrow> nat \<Rightarrow> (u8 list \<Rightarrow> 'b res) \<Rightarrow> 'b res" where
  "MALLOC_CHECKED M n k =
     (if malloc_ok M n then k (fresh M n) else Inl RET_MEMORY_ALLOC_ERROR)"

text \<open>
  \<^verbatim>\<open>CALLOC_CHECKED\<close> of a structure: its fields are set by the continuation.
\<close>

definition CALLOC_CHECKED :: "mem \<Rightarrow> nat \<Rightarrow> 'b res \<Rightarrow> 'b res" where
  "CALLOC_CHECKED M n k = (if malloc_ok M n then k else Inl RET_MEMORY_ALLOC_ERROR)"

definition resize :: "mem \<Rightarrow> u8 list \<Rightarrow> nat \<Rightarrow> u8 list" where
  "resize M b n = take n b @ drop (length b) (fresh M n)"

text \<open>
  \<open>REALLOC_CHECKED M p n k\<close> resizes the block of the pointer \<open>p\<close> (\<open>None\<close> for \<^verbatim>\<open>NULL\<close>). When
  \<^verbatim>\<open>realloc\<close> returns \<^verbatim>\<open>NULL\<close> for a positive size, the old block is untouched. For size 0
  C leaves open what happens; hosts that then return \<^verbatim>\<open>NULL\<close> free the block (glibc does), and
  the macro keeps the old pointer to it: this failure is \<open>FREED\<close>.
\<close>

definition pointee :: "'a list option \<Rightarrow> 'a list" where
  "pointee p = (case p of None \<Rightarrow> [] | Some b \<Rightarrow> b)"

lemma pointee_simps [simp]: "pointee None = []" "pointee (Some b) = b"
  by (simp_all add: pointee_def)

definition REALLOC_CHECKED :: "mem \<Rightarrow> u8 list option \<Rightarrow> nat \<Rightarrow> (u8 list \<Rightarrow> 'b res) \<Rightarrow> 'b res" where
  "REALLOC_CHECKED M p n k =
     (if realloc_ok M n then k (resize M (pointee p) n)
      else if n = 0 \<and> p \<noteq> None then Inl FREED
      else Inl RET_MEMORY_ALLOC_ERROR)"

definition mem_ok :: "mem \<Rightarrow> bool" where
  "mem_ok M \<longleftrightarrow> (\<forall>n. malloc_ok M n) \<and> (\<forall>n>0. realloc_ok M n)"

definition ideal_mem :: mem where
  "ideal_mem = \<lparr>malloc_ok = (\<lambda>_. True), realloc_ok = (\<lambda>_. True), garbage = (\<lambda>_. 0),
     big_endian = False\<rparr>"

lemma mem_ok_ideal [simp, intro]: "mem_ok ideal_mem"
  by (simp add: mem_ok_def ideal_mem_def)

lemma length_fresh [simp]: "length (fresh M n) = n"
  by (simp add: fresh_def)

lemma MALLOC_CHECKED_ok [simp, c_simps]: "mem_ok M \<Longrightarrow> MALLOC_CHECKED M n k = k (fresh M n)"
  by (simp add: MALLOC_CHECKED_def mem_ok_def)

lemma CALLOC_CHECKED_ok [simp, c_simps]: "mem_ok M \<Longrightarrow> CALLOC_CHECKED M n k = k"
  by (simp add: CALLOC_CHECKED_def mem_ok_def)

lemma REALLOC_CHECKED_ok [simp, c_simps]:
  "mem_ok M \<Longrightarrow> n > 0 \<Longrightarrow> REALLOC_CHECKED M p n k = k (resize M (pointee p) n)"
  by (simp add: REALLOC_CHECKED_def mem_ok_def)

lemma length_resize [simp]: "length (resize M b n) = n"
  by (simp add: resize_def min_def)

lemma take_resize [simp]: "k \<le> length b \<Longrightarrow> k \<le> n \<Longrightarrow> take k (resize M b n) = take k b"
  by (simp add: resize_def min_def)

lemma resize_shrink: "n \<le> length b \<Longrightarrow> resize M b n = take n b"
  by (simp add: resize_def)

lemma MALLOC_CHECKED_defined: "(\<And>b. length b = n \<Longrightarrow> defined (k b)) \<Longrightarrow> defined (MALLOC_CHECKED M n k)"
  by (simp add: MALLOC_CHECKED_def)

lemma REALLOC_CHECKED_defined:
  "(\<And>b'. length b' = n \<Longrightarrow> defined (k b')) \<Longrightarrow> defined (REALLOC_CHECKED M p n k)"
  by (auto simp: REALLOC_CHECKED_def)

subsection \<open>Memory access\<close>

text \<open>
  \<open>rd b off n\<close> reads \<open>n\<close> bytes from offset \<open>off\<close> of an object, \<open>wr b off xs\<close> writes
  \<open>xs\<close> there (\<^verbatim>\<open>memcpy\<close>, \<^verbatim>\<open>memset\<close> and indexed stores); both are undefined outside the
  object.
\<close>

definition rd :: "'a list \<Rightarrow> nat \<Rightarrow> nat \<Rightarrow> 'a list res" where
  "rd b off n = (if off + n \<le> length b then Inr (take n (drop off b)) else Inl UNDEFINED)"

definition wr :: "'a list \<Rightarrow> nat \<Rightarrow> 'a list \<Rightarrow> 'a list res" where
  "wr b off xs = (if off + length xs \<le> length b
     then Inr (take off b @ xs @ drop (off + length xs) b) else Inl UNDEFINED)"

lemma rd_ok [simp, c_simps]: "off + n \<le> length b \<Longrightarrow> rd b off n = Inr (take n (drop off b))"
  by (simp add: rd_def)

lemma wr_ok [simp, c_simps]:
  "off + length xs \<le> length b \<Longrightarrow> wr b off xs = Inr (take off b @ xs @ drop (off + length xs) b)"
  by (simp add: wr_def)

lemma wr_length: "wr b off xs = Inr b' \<Longrightarrow> length b' = length b"
  by (auto simp: wr_def split: if_splits)

subsection \<open>Runs that C defines\<close>

text \<open>
  \<open>def_simps\<close> pushes definedness through the combinators down to the memory accesses.
\<close>

lemma DO_defined: "defined (DO r k) \<longleftrightarrow> defined r \<and> (\<forall>x. r = Inr x \<longrightarrow> defined (k x))"
  by (cases r) auto

lemma CHECK_PARAM_defined: "defined (CHECK_PARAM c k) \<longleftrightarrow> (c \<longrightarrow> defined k)"
  by (cases c) auto

lemma NOT_NULL_defined: "defined (NOT_NULL p k) \<longleftrightarrow> (\<forall>x. p = Some x \<longrightarrow> defined (k x))"
  by (cases p) auto

lemma to_ptr_defined: "defined (to_ptr r) \<longleftrightarrow> defined r"
  by (cases r) auto

lemma CHECK_NOT_NULL_defined:
  "defined (CHECK_NOT_NULL r k) \<longleftrightarrow> defined r \<and> (\<forall>x. r = Inr (Some x) \<longrightarrow> defined (k x))"
  by (auto simp: CHECK_NOT_NULL_def DO_defined NOT_NULL_defined)

lemma MALLOC_defined: "defined (MALLOC_CHECKED M n k) \<longleftrightarrow> (malloc_ok M n \<longrightarrow> defined (k (fresh M n)))"
  by (simp add: MALLOC_CHECKED_def)

lemma REALLOC_defined: "defined (REALLOC_CHECKED M p n k) \<longleftrightarrow>
    (realloc_ok M n \<longrightarrow> defined (k (resize M (pointee p) n)))"
  by (simp add: REALLOC_CHECKED_def)

lemma rd_defined: "defined (rd b off n) \<longleftrightarrow> off + n \<le> length b"
  by (simp add: rd_def)

lemma wr_defined: "defined (wr b off xs) \<longleftrightarrow> off + length xs \<le> length b"
  by (simp add: wr_def)

lemmas def_simps = DO_defined CHECK_PARAM_defined NOT_NULL_defined to_ptr_defined
  CHECK_NOT_NULL_defined MALLOC_defined REALLOC_defined rd_defined wr_defined

lemma rd_Inr: "rd b off n = Inr xs \<longleftrightarrow> off + n \<le> length b \<and> xs = take n (drop off b)"
  by (auto simp: rd_def)

lemma wr_Inr: "wr b off xs = Inr b' \<longleftrightarrow>
    off + length xs \<le> length b \<and> b' = take off b @ xs @ drop (off + length xs) b"
  by (auto simp: wr_def)

subsection \<open>Lists\<close>

lemma take_drop_all: "n = length xs - k \<Longrightarrow> take n (drop k xs) = drop k xs"
  by simp

lemma map2_take: "n = length xs \<Longrightarrow> map2 f xs (take n ys) = map2 f xs ys"
  by (metis take_zip take_all order_refl length_zip min.cobounded1)

lemma map2_xor_nth:
  "length xs \<le> length ys \<Longrightarrow> i < length xs \<Longrightarrow> map2 (XOR) xs ys ! i = xs ! i XOR ys ! i"
  by simp

lemma map2_xor_self_inverse:
  fixes xs ys :: "'a::len word list"
  assumes "length xs \<le> length ys"
  shows "map2 (XOR) (map2 (XOR) xs ys) ys = xs"
  using assms by (intro nth_equalityI) (simp_all add: xor.assoc)

subsection \<open>Blocks of a list\<close>

text \<open>\<open>chunks k xs\<close> are the complete blocks of \<open>k\<close> elements of \<open>xs\<close>, in order.\<close>

definition chunks :: "nat \<Rightarrow> 'a list \<Rightarrow> 'a list list" where
  "chunks k xs = map (\<lambda>i. take k (drop (k * i) xs)) [0..<length xs div k]"

lemma chunks_Nil [simp]: "chunks k [] = []"
  by (simp add: chunks_def)

lemma length_chunks [simp]: "length (chunks k xs) = length xs div k"
  by (simp add: chunks_def)

lemma nth_chunks: "i < length xs div k \<Longrightarrow> chunks k xs ! i = take k (drop (k * i) xs)"
  by (simp add: chunks_def)

lemma chunks_short: "length xs < k \<Longrightarrow> chunks k xs = []"
  by (simp add: chunks_def)

lemma length_in_chunks:
  assumes "b \<in> set (chunks k xs)"
  shows "length b = k"
proof -
  from assms obtain i where i: "i < length xs div k" and b: "b = take k (drop (k * i) xs)"
    by (auto simp: chunks_def)
  from i have "k * Suc i \<le> k * (length xs div k)" by (intro mult_le_mono) auto
  also have "\<dots> \<le> length xs" by simp
  finally show ?thesis using b by simp
qed

lemma chunks_block:
  assumes "length b = k" and "0 < k"
  shows "chunks k (b @ xs) = b # chunks k xs"
proof (rule nth_equalityI)
  show "length (chunks k (b @ xs)) = length (b # chunks k xs)"
    using assms by (simp add: div_add_self1)
next
  fix i assume "i < length (chunks k (b @ xs))"
  with assms have i: "i < Suc (length xs div k)" by (simp add: div_add_self1)
  have sz: "length (b @ xs) div k = Suc (length xs div k)"
    using assms by (simp add: div_add_self1)
  show "chunks k (b @ xs) ! i = (b # chunks k xs) ! i"
  proof (cases i)
    case 0
    then show ?thesis using assms sz by (simp add: nth_chunks)
  next
    case (Suc j)
    then show ?thesis using assms i sz by (simp add: nth_chunks add.commute)
  qed
qed

lemma chunks_append:
  assumes "k dvd length xs" and "0 < k"
  shows "chunks k (xs @ ys) = chunks k xs @ chunks k ys"
  using assms(1)
proof (induction "length xs div k" arbitrary: xs)
  case 0
  then have "length xs = 0" using assms(2) by (auto elim: dvdE)
  then show ?case by simp
next
  case (Suc n)
  then have len: "k \<le> length xs"
    using assms(2) by (metis Zero_not_Suc div_less linorder_not_le)
  define b where "b = take k xs"
  define r where "r = drop k xs"
  have xs: "xs = b @ r" and b: "length b = k"
    using len by (simp_all add: b_def r_def)
  have "n = length r div k"
    using Suc.hyps(2) assms(2) b by (simp add: xs div_add_self1)
  moreover have "k dvd length r"
    using Suc.prems by (simp add: xs b)
  ultimately have "chunks k (r @ ys) = chunks k r @ chunks k ys"
    using Suc.hyps(1) by simp
  then show ?case
    using b assms(2) by (simp add: xs chunks_block)
qed

lemma concat_chunks:
  assumes "k dvd length xs" and "0 < k"
  shows "concat (chunks k xs) = xs"
  using assms(1)
proof (induction "length xs div k" arbitrary: xs)
  case 0
  then have "length xs = 0" using assms(2) by (auto elim: dvdE)
  then show ?case by simp
next
  case (Suc n)
  then have len: "k \<le> length xs"
    using assms(2) by (metis Zero_not_Suc div_less linorder_not_le)
  define b where "b = take k xs"
  define r where "r = drop k xs"
  have xs: "xs = b @ r" and b: "length b = k"
    using len by (simp_all add: b_def r_def)
  have "n = length r div k" and "k dvd length r"
    using Suc.hyps(2) Suc.prems assms(2) b by (simp_all add: xs div_add_self1)
  with Suc.hyps(1) have "concat (chunks k r) = r" by blast
  then show ?case
    using b assms(2) by (simp add: xs chunks_block)
qed

lemma chunks_concat:
  assumes "\<And>b. b \<in> set bs \<Longrightarrow> length b = k" and "0 < k"
  shows "chunks k (concat bs) = bs"
  using assms(1) by (induction bs) (simp_all add: chunks_block assms(2))

lemma length_concat_blocks:
  "(\<And>b. b \<in> set bs \<Longrightarrow> length b = k) \<Longrightarrow> length (concat bs) = k * length bs"
  by (induction bs) simp_all

subsection \<open>Numbers and little-endian digits\<close>

text \<open>
  \<open>nat_le b xs\<close> is the number with the digits \<open>xs\<close> to base \<open>b\<close>, least significant first;
  \<open>digits_le\<close> is its inverse. They give the values of byte and word arrays.
\<close>

primrec nat_le :: "nat \<Rightarrow> nat list \<Rightarrow> nat" where
  "nat_le b [] = 0"
| "nat_le b (x # xs) = x + b * nat_le b xs"

primrec digits_le :: "nat \<Rightarrow> nat \<Rightarrow> nat \<Rightarrow> nat list" where
  "digits_le b 0 v = []"
| "digits_le b (Suc n) v = v mod b # digits_le b n (v div b)"

lemma length_digits_le [simp]: "length (digits_le b n v) = n"
  by (induction n arbitrary: v) simp_all

lemma digits_le_less: "0 < b \<Longrightarrow> d \<in> set (digits_le b n v) \<Longrightarrow> d < b"
  by (induction n arbitrary: v) auto

lemma nat_le_digits: "0 < b \<Longrightarrow> nat_le b (digits_le b n v) = v mod b ^ n"
proof (induction n arbitrary: v)
  case 0
  then show ?case by simp
next
  case (Suc n)
  then show ?case by (simp add: mod_mult2_eq add.commute)
qed

lemma digits_nat_le:
  "(\<And>x. x \<in> set xs \<Longrightarrow> x < b) \<Longrightarrow> digits_le b (length xs) (nat_le b xs) = xs"
proof (induction xs)
  case Nil
  then show ?case by simp
next
  case (Cons x xs)
  then have "x < b" by simp
  then have "(x + b * nat_le b xs) div b = nat_le b xs" by (simp add: div_mult_self2)
  then show ?case using Cons by simp
qed

lemma nat_le_bound:
  assumes "\<And>x. x \<in> set xs \<Longrightarrow> x < b"
  shows "nat_le b xs < b ^ length xs"
  using assms
proof (induction xs)
  case Nil
  then show ?case by simp
next
  case (Cons x xs)
  then have "x < b" and "nat_le b xs + 1 \<le> b ^ length xs" by (simp_all add: Suc_leI)
  then have "x + b * nat_le b xs < b * (nat_le b xs + 1)" by simp
  also have "\<dots> \<le> b * b ^ length xs"
    using \<open>nat_le b xs + 1 \<le> b ^ length xs\<close> by (intro mult_le_mono) simp_all
  finally show ?case by simp
qed

lemma nat_le_append: "nat_le b (xs @ ys) = nat_le b xs + b ^ length xs * nat_le b ys"
  by (induction xs) (simp_all add: algebra_simps)

lemma nat_le_replicate_0 [simp]: "nat_le b (replicate n 0) = 0"
  by (induction n) simp_all

lemma digits_le_append: "digits_le b (m + n) v = digits_le b m v @ digits_le b n (v div b ^ m)"
  by (induction m arbitrary: v) (simp_all add: div_mult2_eq)

lemma pow_256: "8 dvd n \<Longrightarrow> (256::nat) ^ (n div 8) = 2 ^ n"
proof -
  assume "8 dvd n"
  then have "(2::nat) ^ n = 2 ^ (8 * (n div 8))" by simp
  also have "\<dots> = 256 ^ (n div 8)" by (simp add: power_mult)
  finally show ?thesis by simp
qed

end
