(* ===== verification/ByteUtils.thy ===== *)
theory ByteUtils
  imports Prelude
begin

text \<open>
  \<^verbatim>\<open>uapkic/src/byte-utils-internal.c\<close>: copies between arrays of bytes and arrays of
  32-bit and 64-bit words, and byte reversal. The code copies memory and then, on a
  big-endian host, swaps the bytes of every word in place; the host's byte order is the
  argument \<open>be\<close> of the model (the code tests it at run time), and the main result is that
  no result depends on it.
\<close>

subsection \<open>Words in memory\<close>

text \<open>
  How a host with byte order \<open>be\<close> stores a word of \<open>k\<close> bytes, and arrays of them.
  Reinterpreting a pointer, as \<^verbatim>\<open>memcpy\<close> between arrays of different element types does,
  is \<open>load_words\<close> after \<open>store_words\<close>.
\<close>

definition word_size :: "'a::len word itself \<Rightarrow> nat" where
  "word_size t = LENGTH('a) div 8"

definition bytes_of_word :: "bool \<Rightarrow> 'a::len word \<Rightarrow> u8 list" where
  "bytes_of_word be w =
     (let bs = map of_nat (digits_le 256 (LENGTH('a) div 8) (unat w))
      in if be then rev bs else bs)"

definition word_of_bytes :: "bool \<Rightarrow> u8 list \<Rightarrow> 'a::len word" where
  "word_of_bytes be bs = of_nat (nat_le 256 (map unat (if be then rev bs else bs)))"

definition store_words :: "bool \<Rightarrow> 'a::len word list \<Rightarrow> u8 list" where
  "store_words be ws = concat (map (bytes_of_word be) ws)"

definition load_words :: "bool \<Rightarrow> u8 list \<Rightarrow> 'a::len word list" where
  "load_words be bs = map (word_of_bytes be) (chunks (LENGTH('a) div 8) bs)"

subsection \<open>swap_word32 and swap_word64\<close>

text \<open>
  The macros reverse each group of \<open>k\<close> bytes of the first \<open>n\<close> bytes of a buffer (the
  last group is completed when \<open>n\<close> is not a multiple of \<open>k\<close>, as the loop steps by
  \<open>k\<close>). \<open>k\<close> is 4 or 8.
\<close>

fun swap_word :: "nat \<Rightarrow> nat \<Rightarrow> u8 list \<Rightarrow> u8 list" where
  "swap_word k n bs =
     (if n = 0 \<or> k = 0 then bs
      else rev (take k bs) @ swap_word k (n - k) (drop k bs))"

declare swap_word.simps [simp del]

definition swap_word32 :: "nat \<Rightarrow> u8 list \<Rightarrow> u8 list" where
  "swap_word32 n bs = swap_word 4 n bs"

definition swap_word64 :: "nat \<Rightarrow> u8 list \<Rightarrow> u8 list" where
  "swap_word64 n bs = swap_word 8 n bs"

subsection \<open>The conversions\<close>

text \<open>
  \<open>inp\<close> and \<open>out\<close> are the pointers, \<open>None\<close> for \<^verbatim>\<open>NULL\<close>; \<open>out\<close> carries the old contents of
  the destination, and the result is its new contents.
\<close>

definition uint8_to_uint32 ::
    "bool \<Rightarrow> u8 list option \<Rightarrow> nat \<Rightarrow> u32 list option \<Rightarrow> nat \<Rightarrow> u32 list res" where
  "uint8_to_uint32 be inp in_len out out_len =
     NOT_NULL inp (\<lambda>i. CHECK_PARAM (in_len \<noteq> 0) (NOT_NULL out (\<lambda>out'.
     CHECK_PARAM (out_len * 4 \<ge> in_len) (
     DO (rd i 0 in_len) (\<lambda>src.
       let m = src @ replicate (out_len * 4 - in_len) 0;
           m = (if be then swap_word32 in_len m else m)
       in wr out' 0 (load_words be m))))))"

definition uint32_to_uint8 ::
    "bool \<Rightarrow> u32 list option \<Rightarrow> nat \<Rightarrow> u8 list option \<Rightarrow> nat \<Rightarrow> u8 list res" where
  "uint32_to_uint8 be inp in_len out out_len =
     NOT_NULL inp (\<lambda>i. CHECK_PARAM (in_len \<noteq> 0) (NOT_NULL out (\<lambda>out'.
     CHECK_PARAM (out_len \<ge> in_len * 4) (
     DO (rd i 0 in_len) (\<lambda>src.
       let m = store_words be src @ replicate (out_len - in_len * 4) 0;
           m = (if be then swap_word32 (in_len * 4) m else m)
       in wr out' 0 m)))))"

definition uint8_to_uint64 ::
    "bool \<Rightarrow> u8 list option \<Rightarrow> nat \<Rightarrow> u64 list option \<Rightarrow> nat \<Rightarrow> u64 list res" where
  "uint8_to_uint64 be inp in_len out out_len =
     NOT_NULL inp (\<lambda>i. CHECK_PARAM (in_len \<noteq> 0) (NOT_NULL out (\<lambda>out'.
     CHECK_PARAM (out_len * 8 \<ge> in_len) (
     DO (rd i 0 in_len) (\<lambda>src.
       let m = src @ replicate (out_len * 8 - in_len) 0;
           m = (if be then swap_word64 in_len m else m)
       in wr out' 0 (load_words be m))))))"

definition uint64_to_uint8 ::
    "bool \<Rightarrow> u64 list option \<Rightarrow> nat \<Rightarrow> u8 list option \<Rightarrow> nat \<Rightarrow> u8 list res" where
  "uint64_to_uint8 be inp in_len out out_len =
     NOT_NULL inp (\<lambda>i. CHECK_PARAM (in_len \<noteq> 0) (NOT_NULL out (\<lambda>out'.
     CHECK_PARAM (out_len \<ge> in_len * 8) (
     DO (rd i 0 in_len) (\<lambda>src.
       let m = store_words be src @ replicate (out_len - in_len * 8) 0;
           m = (if be then swap_word64 (in_len * 8) m else m)
       in wr out' 0 m)))))"

text \<open>
  Between word sizes a big-endian host exchanges the halves of every pair; a
  little-endian host copies memory.
\<close>

fun swap_pairs :: "'a list \<Rightarrow> 'a list" where
  "swap_pairs (x # y # xs) = y # x # swap_pairs xs"
| "swap_pairs xs = xs"

definition uint32_to_uint64 ::
    "bool \<Rightarrow> u32 list option \<Rightarrow> nat \<Rightarrow> u64 list option \<Rightarrow> nat \<Rightarrow> u64 list res" where
  "uint32_to_uint64 be inp in_len out out_len =
     NOT_NULL inp (\<lambda>i. CHECK_PARAM (in_len \<noteq> 0) (NOT_NULL out (\<lambda>out'.
     CHECK_PARAM (out_len * 8 = in_len * 4) (
     DO (rd i 0 in_len) (\<lambda>src.
       wr out' 0 (load_words be (store_words be (if be then swap_pairs src else src))))))))"

definition uint64_to_uint32 ::
    "bool \<Rightarrow> u64 list option \<Rightarrow> nat \<Rightarrow> u32 list option \<Rightarrow> nat \<Rightarrow> u32 list res" where
  "uint64_to_uint32 be inp in_len out out_len =
     NOT_NULL inp (\<lambda>i. CHECK_PARAM (in_len \<noteq> 0) (NOT_NULL out (\<lambda>out'.
     CHECK_PARAM (out_len * 4 = in_len * 8) (
     DO (rd i 0 in_len) (\<lambda>src.
       let ws = load_words be (store_words be src)
       in wr out' 0 (if be then swap_pairs ws else ws))))))"

subsection \<open>Reversal and erasure\<close>

text \<open>
  \<^verbatim>\<open>uint8_swap_with_alloc\<close> and the second loop of \<^verbatim>\<open>uint8_swap\<close> store \<^verbatim>\<open>in[i]\<close> at
  \<^verbatim>\<open>out[n - 1 - i]\<close>; the first loop of \<^verbatim>\<open>uint8_swap\<close> (equal pointers) exchanges the ends
  of the buffer, \<open>i\<close> running to the middle.
\<close>

fun rev_copy :: "u8 list \<Rightarrow> nat \<Rightarrow> nat \<Rightarrow> u8 list \<Rightarrow> u8 list" where
  "rev_copy inp i 0 out = out"
| "rev_copy inp i (Suc n) out =
     rev_copy inp (Suc i) n (out[length out - 1 - i := inp ! i])"

fun swap_ends :: "nat \<Rightarrow> nat \<Rightarrow> u8 list \<Rightarrow> u8 list" where
  "swap_ends i 0 out = out"
| "swap_ends i (Suc n) out =
     swap_ends (Suc i) n
       (out[i := out ! (length out - 1 - i), length out - 1 - i := out ! i])"

definition uint8_swap_with_alloc :: "mem \<Rightarrow> u8 list \<Rightarrow> nat \<Rightarrow> u8 list option res" where
  "uint8_swap_with_alloc M inp in_len =
     to_ptr (MALLOC_CHECKED M in_len (\<lambda>out.
       DO (rd inp 0 in_len) (\<lambda>src. Inr (rev_copy src 0 in_len out))))"

text \<open>\<open>same\<close> says that the caller passed one pointer twice; then \<open>out\<close> is that buffer.\<close>

definition uint8_swap ::
    "bool \<Rightarrow> u8 list option \<Rightarrow> nat \<Rightarrow> u8 list option \<Rightarrow> nat \<Rightarrow> u8 list res" where
  "uint8_swap same inp in_len out out_len =
     NOT_NULL inp (\<lambda>i. CHECK_PARAM (in_len \<noteq> 0) (NOT_NULL out (\<lambda>out'.
     CHECK_PARAM (out_len = in_len) (
     DO (rd i 0 in_len) (\<lambda>src. DO (rd out' 0 out_len) (\<lambda>dst.
       wr out' 0 (if same then swap_ends 0 (out_len div 2) dst
                  else rev_copy src 0 out_len dst)))))))"

definition secure_zero :: "u8 list option \<Rightarrow> nat \<Rightarrow> u8 list option res" where
  "secure_zero s n = (case s of None \<Rightarrow> Inr None
     | Some b \<Rightarrow> DO (wr b 0 (replicate n 0)) (\<lambda>b'. Inr (Some b')))"

subsection \<open>Words and their bytes\<close>

lemma length_bytes_of_word [simp]: "length (bytes_of_word be (w::'a::len word)) = LENGTH('a) div 8"
  by (simp add: bytes_of_word_def Let_def)

lemma bytes_of_word_True: "bytes_of_word True w = rev (bytes_of_word False w)"
  by (simp add: bytes_of_word_def Let_def)

lemma word_of_bytes_True: "word_of_bytes True bs = word_of_bytes False (rev bs)"
  by (simp add: word_of_bytes_def rev_map)

lemma unat_of_digits_256: "map (unat \<circ> (of_nat :: nat \<Rightarrow> u8)) (digits_le 256 n v) = digits_le 256 n v"
  by (rule map_idI) (auto simp: unat_of_nat dest!: digits_le_less[rotated])

lemma word_of_bytes_of_word [simp]:
  assumes "8 dvd LENGTH('a)"
  shows "word_of_bytes be (bytes_of_word be (w::'a::len word)) = w"
proof -
  have "(256::nat) ^ (LENGTH('a) div 8) = 2 ^ LENGTH('a)"
    using assms by (rule pow_256)
  then have "nat_le 256 (digits_le 256 (LENGTH('a) div 8) (unat w)) = unat w"
    by (simp add: nat_le_digits)
  then show ?thesis
    by (simp add: word_of_bytes_def bytes_of_word_def Let_def rev_map unat_of_digits_256 del: of_nat_numeral)
qed

lemma bytes_of_word_of_bytes [simp]:
  assumes "length bs = LENGTH('a) div 8" and "8 dvd LENGTH('a)"
  shows "bytes_of_word be (word_of_bytes be bs :: 'a::len word) = bs"
proof -
  have *: "map of_nat (digits_le 256 (LENGTH('a) div 8) (unat (of_nat (nat_le 256 (map unat cs)) :: 'a word))) = cs"
    if "length cs = LENGTH('a) div 8" for cs :: "u8 list"
  proof -
    have "nat_le 256 (map unat cs) < 256 ^ length cs"
      using nat_le_bound[of "map unat cs" 256] unsigned_less[where 'b=8] by force
    also have "(256::nat) ^ length cs = 2 ^ LENGTH('a)"
      using pow_256[OF assms(2)] that by simp
    finally have "unat (of_nat (nat_le 256 (map unat cs)) :: 'a word) = nat_le 256 (map unat cs)"
      by (simp add: unat_of_nat)
    moreover have "digits_le 256 (length (map unat cs)) (nat_le 256 (map unat cs)) = map unat cs"
      by (rule digits_nat_le) (use unsigned_less[where 'b=8] in force)
    ultimately show ?thesis using that by (simp add: comp_def)
  qed
  show ?thesis
    using *[of bs] *[of "rev bs"] assms(1)
    by (cases be) (simp_all add: bytes_of_word_def word_of_bytes_def Let_def rev_map flip: rev_map)
qed

lemma length_store_words: "length (store_words be (ws::'a::len word list)) = (LENGTH('a) div 8) * length ws"
  by (induction ws) (simp_all add: store_words_def)

lemma store_words_Cons: "store_words be (w # ws) = bytes_of_word be w @ store_words be ws"
  by (simp add: store_words_def)

lemma store_words_append: "store_words be (ws @ vs) = store_words be ws @ store_words be vs"
  by (simp add: store_words_def)

lemma load_store_words [simp]:
  assumes "8 dvd LENGTH('a)"
  shows "load_words be (store_words be (ws::'a::len word list)) = ws"
proof -
  have k: "0 < LENGTH('a) div 8"
    using assms dvd_div_eq_0_iff[of 8 "LENGTH('a)"] by auto
  have "chunks (LENGTH('a) div 8) (store_words be ws) = map (bytes_of_word be) ws"
    unfolding store_words_def by (rule chunks_concat) (use k in auto)
  then show ?thesis using assms by (simp add: load_words_def comp_def)
qed

lemma store_load_words [simp]:
  assumes "8 dvd LENGTH('a)" and "(LENGTH('a) div 8) dvd length bs"
  shows "store_words be (load_words be bs :: 'a::len word list) = bs"
proof -
  have k: "0 < LENGTH('a) div 8"
    using assms(1) dvd_div_eq_0_iff[of 8 "LENGTH('a)"] by auto
  have "store_words be (load_words be bs :: 'a word list)
      = concat (map (\<lambda>c. bytes_of_word be (word_of_bytes be c :: 'a word)) (chunks (LENGTH('a) div 8) bs))"
    by (simp add: store_words_def load_words_def comp_def)
  also have "map (\<lambda>c. bytes_of_word be (word_of_bytes be c :: 'a word)) (chunks (LENGTH('a) div 8) bs)
      = chunks (LENGTH('a) div 8) bs"
    by (rule map_idI) (use assms(1) in \<open>simp add: length_in_chunks\<close>)
  finally show ?thesis using assms(2) k by (simp add: concat_chunks)
qed

lemma length_load_words [simp]: "length (load_words be bs :: 'a::len word list) = length bs div (LENGTH('a) div 8)"
  by (simp add: load_words_def)

lemma load_words_block:
  assumes "length b = LENGTH('a) div 8" and "0 < LENGTH('a) div 8"
  shows "load_words be (b @ xs) = (word_of_bytes be b :: 'a::len word) # load_words be xs"
  using assms by (simp add: load_words_def chunks_block)

subsection \<open>No result depends on the byte order of the host\<close>

lemma length_swap_word [simp]: "length (swap_word k n bs) = length bs"
proof (induction k n bs rule: swap_word.induct)
  case (1 k n bs)
  then show ?case by (subst swap_word.simps) auto
qed

lemma swap_word_store:
  assumes "0 < LENGTH('a) div 8"
  shows "swap_word (LENGTH('a) div 8) (LENGTH('a) div 8 * length ws) (store_words True (ws::'a::len word list) @ zs)
       = store_words False ws @ zs"
proof (induction ws)
  case Nil
  then show ?case by (simp add: store_words_def swap_word.simps)
next
  case (Cons w ws)
  then show ?case using assms
    by (subst swap_word.simps) (simp add: store_words_Cons bytes_of_word_True)
qed

lemma load_words_zero: "load_words True (replicate n 0) = load_words False (replicate n 0)"
proof -
  have "rev c = c" if c: "c \<in> set (chunks k (replicate n (0::u8)))" for c k
  proof -
    from c have "set c \<subseteq> {0}" by (auto simp: chunks_def dest: in_set_takeD)
    then have "c = replicate (length c) 0" by (metis replicate_length_same singletonD subsetD)
    then show ?thesis by (metis rev_replicate)
  qed
  then show ?thesis unfolding load_words_def by (intro map_cong) (simp_all add: word_of_bytes_True)
qed

lemma load_words_swap:
  assumes "0 < LENGTH('a) div 8" and "length src \<le> (LENGTH('a) div 8) * m"
  shows "load_words True (swap_word (LENGTH('a) div 8) (length src)
            (src @ replicate (LENGTH('a) div 8 * m - length src) 0))
       = (load_words False (src @ replicate (LENGTH('a) div 8 * m - length src) 0) :: 'a::len word list)"
  using assms(2)
proof (induction m arbitrary: src)
  case 0
  then show ?case by (simp add: load_words_def swap_word.simps)
next
  case (Suc m)
  let ?k = "LENGTH('a) div 8"
  show ?case
  proof (cases "src = []")
    case True
    then show ?thesis by (simp add: swap_word.simps load_words_zero)
  next
    case False
    define full where "full = src @ replicate (?k * Suc m - length src) 0"
    have lf: "length full = ?k * Suc m" using Suc.prems by (simp add: full_def)
    have split: "full = take ?k full @ drop ?k full" by simp
    have rest: "drop ?k full = drop ?k src @ replicate (?k * m - length (drop ?k src)) 0"
      using Suc.prems by (cases "?k \<le> length src") (simp_all add: full_def algebra_simps)
    have lt: "length (take ?k full) = ?k" using lf by simp
    have "swap_word ?k (length src) full = rev (take ?k full) @ swap_word ?k (length (drop ?k src)) (drop ?k full)"
      using False assms(1) by (subst swap_word.simps) simp
    then have "load_words True (swap_word ?k (length src) full)
        = (word_of_bytes True (rev (take ?k full)) :: 'a word) #
          load_words True (swap_word ?k (length (drop ?k src)) (drop ?k full))"
      using assms(1) lt by (simp add: load_words_block)
    also have "\<dots> = word_of_bytes False (take ?k full) # load_words False (drop ?k full)"
      using Suc.IH[of "drop ?k src"] Suc.prems by (simp add: rest word_of_bytes_True)
    also have "\<dots> = load_words False full"
      using assms(1) lt load_words_block[of "take ?k full" False "drop ?k full", where 'a='a] by simp
    finally show ?thesis by (simp add: full_def)
  qed
qed

text \<open>The meaning of each conversion, the same for both byte orders.\<close>

lemma uint8_to_uint32_eq:
  assumes "0 < n" and "n \<le> length i" and "n \<le> 4 * m" and "m \<le> length out'"
  shows "uint8_to_uint32 be (Some i) n (Some out') m
       = Inr (load_words False (take n i @ replicate (4 * m - n) 0) @ drop m out')"
  using assms load_words_swap[of "take n i" m, where 'a=32]
  by (simp add: uint8_to_uint32_def swap_word32_def Let_def mult.commute)

lemma uint8_to_uint64_eq:
  assumes "0 < n" and "n \<le> length i" and "n \<le> 8 * m" and "m \<le> length out'"
  shows "uint8_to_uint64 be (Some i) n (Some out') m
       = Inr (load_words False (take n i @ replicate (8 * m - n) 0) @ drop m out')"
  using assms load_words_swap[of "take n i" m, where 'a=64]
  by (simp add: uint8_to_uint64_def swap_word64_def Let_def mult.commute)

lemma uint32_to_uint8_eq:
  assumes "0 < n" and "n \<le> length i" and "4 * n \<le> m" and "m \<le> length out'"
  shows "uint32_to_uint8 be (Some i) n (Some out') m
       = Inr (store_words False (take n i) @ replicate (m - 4 * n) 0 @ drop m out')"
  using assms swap_word_store[of "take n i"]
  by (simp add: uint32_to_uint8_def swap_word32_def Let_def mult.commute length_store_words)

lemma uint64_to_uint8_eq:
  assumes "0 < n" and "n \<le> length i" and "8 * n \<le> m" and "m \<le> length out'"
  shows "uint64_to_uint8 be (Some i) n (Some out') m
       = Inr (store_words False (take n i) @ replicate (m - 8 * n) 0 @ drop m out')"
  using assms swap_word_store[of "take n i"]
  by (simp add: uint64_to_uint8_def swap_word64_def Let_def mult.commute length_store_words)

subsection \<open>Reversal\<close>

lemma length_rev_copy [simp]: "length (rev_copy inp i n out) = length out"
  by (induction inp i n out rule: rev_copy.induct) simp_all

lemma nth_rev_copy:
  assumes "i + n \<le> length out" and "j < length out"
  shows "rev_copy inp i n out ! j =
     (if i \<le> length out - 1 - j \<and> length out - 1 - j < i + n then inp ! (length out - 1 - j) else out ! j)"
  using assms
proof (induction inp i n out rule: rev_copy.induct)
  case (1 inp i out)
  then show ?case by auto
next
  case (2 inp i n out)
  then show ?case by (auto simp: nth_list_update)
qed

lemma rev_copy_rev: "length inp = length out \<Longrightarrow> rev_copy inp 0 (length out) out = rev inp"
  by (intro nth_equalityI) (auto simp: nth_rev_copy rev_nth)

lemma length_swap_ends [simp]: "length (swap_ends i n out) = length out"
  by (induction i n out rule: swap_ends.induct) simp_all

lemma nth_swap_ends:
  assumes "2 * (i + n) \<le> length out" and "j < length out"
  shows "swap_ends i n out ! j =
     (if i \<le> j \<and> j < i + n \<or> i \<le> length out - 1 - j \<and> length out - 1 - j < i + n
      then out ! (length out - 1 - j) else out ! j)"
  using assms
proof (induction i n out rule: swap_ends.induct)
  case (1 i out)
  then show ?case by auto
next
  case (2 i n out)
  then show ?case by (auto simp: nth_list_update)
qed

lemma swap_ends_rev: "swap_ends 0 (length out div 2) out = rev out"
proof (rule nth_equalityI)
  fix j assume "j < length (swap_ends 0 (length out div 2) out)"
  then have j: "j < length out" by simp
  have "\<not> j < length out div 2 \<Longrightarrow> \<not> length out - 1 - j < length out div 2 \<Longrightarrow> length out - 1 - j = j"
    using j by linarith
  then show "swap_ends 0 (length out div 2) out ! j = rev out ! j"
    using j by (auto simp: nth_swap_ends rev_nth)
qed simp

lemma uint8_swap_with_alloc_eq:
  "mem_ok M \<Longrightarrow> n \<le> length inp \<Longrightarrow> uint8_swap_with_alloc M inp n = Inr (Some (rev (take n inp)))"
  using rev_copy_rev[of "take n inp" "fresh M n"] by (simp add: uint8_swap_with_alloc_def)

lemma uint8_swap_in_place:
  "b \<noteq> [] \<Longrightarrow> uint8_swap True (Some b) (length b) (Some b) (length b) = Inr (rev b)"
  by (simp add: uint8_swap_def swap_ends_rev)

lemma uint8_swap_copy:
  "b \<noteq> [] \<Longrightarrow> length out = length b \<Longrightarrow>
   uint8_swap False (Some b) (length b) (Some out) (length b) = Inr (rev b)"
  using rev_copy_rev[of b out] by (simp add: uint8_swap_def)

end
