(* ===== verification/ByteArray.thy ===== *)
theory ByteArray
  imports ByteUtils
begin

text \<open>
  The byte array of \<^verbatim>\<open>uapkic/src/byte-array.c\<close> and \<^verbatim>\<open>byte-array-internal.c\<close>: the owner
  of every buffer that crosses the library's interface. The text encodings of the same
  file (hexadecimal and base64) are in the theory \<open>Encoding\<close>.

  The value a function stores through an output pointer (\<^verbatim>\<open>uint8_t *value\<close>, \<^verbatim>\<open>uint8_t **buf\<close>, \<^verbatim>\<open>char **str\<close>)
  is part of the result of its definition. Such a pointer is the address of a variable of the caller and is
  taken to be valid: the tests that only compare it with \<^verbatim>\<open>NULL\<close> have no branch in the model. A
  caller's buffer that may be absent is an option.
\<close>

subsection \<open>The structure and its invariant\<close>

text \<open>
  \<^verbatim>\<open>struct ByteArray_st\<close>: a pointer (\<open>None\<close> for \<^verbatim>\<open>NULL\<close>) to a heap block, given by its
  contents, and the length the code believes the block has.
\<close>

record ByteArray =
  ba_buf :: "u8 list option"
  ba_len :: nat

definition data :: "ByteArray \<Rightarrow> u8 list" where
  "data a = (case ba_buf a of None \<Rightarrow> [] | Some b \<Rightarrow> b)"

lemma pointee_ba_buf [simp]: "pointee (ba_buf a) = data a"
  by (simp add: data_def pointee_def)

definition wf_ba :: "ByteArray \<Rightarrow> bool" where
  "wf_ba a \<longleftrightarrow> length (data a) = ba_len a"

definition mk_ba :: "u8 list \<Rightarrow> ByteArray" where
  "mk_ba xs = \<lparr>ba_buf = Some xs, ba_len = length xs\<rparr>"

definition set_data :: "ByteArray \<Rightarrow> u8 list \<Rightarrow> ByteArray" where
  "set_data a xs = (case ba_buf a of None \<Rightarrow> a | Some _ \<Rightarrow> a\<lparr>ba_buf := Some xs\<rparr>)"

definition sizeof_ByteArray :: nat where "sizeof_ByteArray = 16"

text \<open>A C string is the bytes of a buffer up to its first zero.\<close>

definition strlen :: "u8 list \<Rightarrow> nat" where
  "strlen s = length (takeWhile (\<lambda>c. c \<noteq> 0) s)"

subsection \<open>Construction\<close>

definition ba_alloc :: "mem \<Rightarrow> ByteArray option res" where
  "ba_alloc M = to_ptr (MALLOC_CHECKED M sizeof_ByteArray (\<lambda>_.
     Inr \<lparr>ba_buf = None, ba_len = 0\<rparr>))"

definition ba_alloc_by_len :: "mem \<Rightarrow> nat \<Rightarrow> ByteArray option res" where
  "ba_alloc_by_len M l = to_ptr (MALLOC_CHECKED M sizeof_ByteArray (\<lambda>_.
     MALLOC_CHECKED M l (\<lambda>b. Inr \<lparr>ba_buf = Some b, ba_len = l\<rparr>)))"

definition ba_alloc_from_uint8 :: "mem \<Rightarrow> u8 list option \<Rightarrow> nat \<Rightarrow> ByteArray option res" where
  "ba_alloc_from_uint8 M buf buf_len =
     (case buf of None \<Rightarrow> Inr None
      | Some src \<Rightarrow> to_ptr (MALLOC_CHECKED M sizeof_ByteArray (\<lambda>_.
          if buf_len \<noteq> 0
          then MALLOC_CHECKED M buf_len (\<lambda>b. DO (rd src 0 buf_len) (\<lambda>xs. DO (wr b 0 xs) (\<lambda>b'.
                 Inr \<lparr>ba_buf = Some b', ba_len = buf_len\<rparr>)))
          else Inr \<lparr>ba_buf = None, ba_len = buf_len\<rparr>)))"

definition ba_alloc_from_str :: "mem \<Rightarrow> u8 list option \<Rightarrow> ByteArray option res" where
  "ba_alloc_from_str M str =
     (case str of None \<Rightarrow> Inr None
      | Some s \<Rightarrow> to_ptr (CHECK_NOT_NULL (ba_alloc_from_uint8 M (Some s) (strlen s)) Inr))"

definition ba_copy_with_alloc :: "mem \<Rightarrow> ByteArray option \<Rightarrow> nat \<Rightarrow> nat \<Rightarrow> ByteArray option res" where
  "ba_copy_with_alloc M inp off l =
     (case inp of None \<Rightarrow> Inr None
      | Some a \<Rightarrow>
          if ba_len a \<ge> sz_add off l
          then let l' = (if l = 0 then sz_sub (ba_len a) off else l)
               in to_ptr (MALLOC_CHECKED M sizeof_ByteArray (\<lambda>_.
                    MALLOC_CHECKED M l' (\<lambda>b. DO (rd (data a) off l') (\<lambda>xs. DO (wr b 0 xs) (\<lambda>b'.
                      Inr \<lparr>ba_buf = Some b', ba_len = l'\<rparr>)))))
          else Inr None)"

definition ba_join :: "mem \<Rightarrow> ByteArray option \<Rightarrow> ByteArray option \<Rightarrow> ByteArray option res" where
  "ba_join M a b = to_ptr (
     NOT_NULL a (\<lambda>a. NOT_NULL b (\<lambda>b.
     CHECK_NOT_NULL (ba_alloc_by_len M (ba_len a + ba_len b)) (\<lambda>out.
     DO (rd (data a) 0 (ba_len a)) (\<lambda>xs. DO (wr (data out) 0 xs) (\<lambda>o1.
     DO (rd (data b) 0 (ba_len b)) (\<lambda>ys. DO (wr o1 (ba_len a) ys) (\<lambda>o2.
     Inr (out\<lparr>ba_buf := Some o2\<rparr>)))))))))"

subsection \<open>In-place operations\<close>

text \<open>
  An operation that modifies its argument returns the modified array. The arguments are
  distinct objects unless the text says otherwise.
\<close>

definition ba_swap :: "ByteArray option \<Rightarrow> ByteArray res" where
  "ba_swap a = NOT_NULL a (\<lambda>a.
     DO (uint8_swap True (ba_buf a) (ba_len a) (ba_buf a) (ba_len a)) (\<lambda>b.
     Inr (set_data a b)))"

definition ba_xor :: "ByteArray option \<Rightarrow> ByteArray option \<Rightarrow> ByteArray res" where
  "ba_xor a b = NOT_NULL a (\<lambda>a. NOT_NULL b (\<lambda>b. CHECK_PARAM (ba_len b \<ge> ba_len a) (
     DO (rd (data a) 0 (ba_len a)) (\<lambda>xs. DO (rd (data b) 0 (ba_len a)) (\<lambda>ys.
     DO (wr (data a) 0 (map2 (XOR) xs ys)) (\<lambda>d. Inr (set_data a d)))))))"

definition ba_set :: "ByteArray option \<Rightarrow> u8 \<Rightarrow> ByteArray res" where
  "ba_set a value = NOT_NULL a (\<lambda>a.
     DO (wr (data a) 0 (replicate (ba_len a) value)) (\<lambda>d. Inr (set_data a d)))"

definition ba_set_byte :: "ByteArray option \<Rightarrow> nat \<Rightarrow> u8 \<Rightarrow> ByteArray res" where
  "ba_set_byte a index value = NOT_NULL a (\<lambda>a.
     if index < ba_len a
     then DO (wr (data a) index [value]) (\<lambda>d. Inr (set_data a d))
     else Inl RET_INDEX_OUT_OF_RANGE)"

definition ba_copy ::
    "ByteArray option \<Rightarrow> nat \<Rightarrow> nat \<Rightarrow> ByteArray option \<Rightarrow> nat \<Rightarrow> ByteArray res" where
  "ba_copy inp in_off l out out_off = NOT_NULL inp (\<lambda>i. NOT_NULL out (\<lambda>out'.
     let l' = (if l = 0 then sz_sub (ba_len i) in_off else l)
     in CHECK_PARAM (sz_add in_off l' \<le> ba_len i) (CHECK_PARAM (sz_add out_off l' \<le> ba_len out') (
        DO (rd (data i) in_off l') (\<lambda>xs. DO (wr (data out') out_off xs) (\<lambda>d.
        Inr (set_data out' d))))))) "

definition ba_append :: "mem \<Rightarrow> ByteArray option \<Rightarrow> nat \<Rightarrow> nat \<Rightarrow> ByteArray option \<Rightarrow> ByteArray res" where
  "ba_append M inp in_off l out = NOT_NULL inp (\<lambda>i. NOT_NULL out (\<lambda>out'.
     let l' = (if l = 0 then sz_sub (ba_len i) in_off else l)
     in CHECK_PARAM (sz_add in_off l' \<le> ba_len i) (
        REALLOC_CHECKED M (ba_buf out') (sz_add (ba_len out') l') (\<lambda>d.
        DO (rd (data i) in_off l') (\<lambda>xs. DO (wr d (ba_len out') xs) (\<lambda>d'.
        Inr \<lparr>ba_buf = Some d', ba_len = sz_add (ba_len out') l'\<rparr>)))))) "

definition ba_change_len :: "mem \<Rightarrow> ByteArray option \<Rightarrow> nat \<Rightarrow> ByteArray res" where
  "ba_change_len M a l = NOT_NULL a (\<lambda>a.
     REALLOC_CHECKED M (ba_buf a) l (\<lambda>d.
       DO (if ba_len a < l then wr d (ba_len a) (replicate (l - ba_len a) 0) else Inr d) (\<lambda>d'.
       Inr \<lparr>ba_buf = Some d', ba_len = l\<rparr>)))"

definition ba_from_uint8 :: "mem \<Rightarrow> u8 list option \<Rightarrow> nat \<Rightarrow> ByteArray option \<Rightarrow> ByteArray res" where
  "ba_from_uint8 M buf buf_len ba = NOT_NULL buf (\<lambda>src. CHECK_PARAM (buf_len \<noteq> 0) (NOT_NULL ba (\<lambda>a.
     REALLOC_CHECKED M (ba_buf a) buf_len (\<lambda>d.
     DO (rd src 0 buf_len) (\<lambda>xs. DO (wr d 0 xs) (\<lambda>d'.
     Inr \<lparr>ba_buf = Some d', ba_len = buf_len\<rparr>))))))"

text \<open>
  \<^verbatim>\<open>ba_trim_leading_zeros_le\<close> walks down from the last byte and stops at index 1;
  \<^verbatim>\<open>ba_trim_leading_zeros\<close> stops at index 0. On an empty array the start index wraps.
\<close>

fun trim_le_loop :: "u8 list \<Rightarrow> nat \<Rightarrow> nat res" where
  "trim_le_loop b 0 = Inr 0"
| "trim_le_loop b (Suc i) =
     (if Suc i > 1
      then (if Suc i \<ge> length b then Inl UNDEFINED
            else if b ! Suc i \<noteq> 0 then Inr (Suc i)
            else trim_le_loop b i)
      else Inr (Suc i))"

definition ba_trim_leading_zeros_le :: "mem \<Rightarrow> ByteArray option \<Rightarrow> ByteArray res" where
  "ba_trim_leading_zeros_le M ba = NOT_NULL ba (\<lambda>a.
     if ba_len a = 0 then Inl UNDEFINED
     else DO (trim_le_loop (data a) (ba_len a - 1)) (\<lambda>i.
       ba_change_len M (Some a) (i + 1)))"

fun trim_loop :: "u8 list \<Rightarrow> nat \<Rightarrow> nat res" where
  "trim_loop b 0 = (if b = [] then Inl UNDEFINED else Inr 0)"
| "trim_loop b (Suc i) =
     (if Suc i \<ge> length b then Inl UNDEFINED
      else if b ! Suc i = 0 then trim_loop b i
      else Inr (Suc i))"

definition ba_trim_leading_zeros :: "mem \<Rightarrow> ByteArray option \<Rightarrow> ByteArray res" where
  "ba_trim_leading_zeros M ba = NOT_NULL ba (\<lambda>a. NOT_NULL (ba_buf a) (\<lambda>b.
     if ba_len a = 0 then Inl UNDEFINED
     else DO (trim_loop b (ba_len a - 1)) (\<lambda>i.
       REALLOC_CHECKED M (Some b) (i + 1) (\<lambda>d. Inr \<lparr>ba_buf = Some d, ba_len = i + 1\<rparr>))))"

text \<open>The byte at the cut is masked before the code looks whether it is inside the array.\<close>

definition ba_truncate :: "ByteArray option \<Rightarrow> nat \<Rightarrow> ByteArray res" where
  "ba_truncate a bit_len = NOT_NULL a (\<lambda>a.
     let byte_off = bit_len div 8
     in DO (rd (data a) byte_off 1) (\<lambda>c.
        DO (wr (data a) byte_off [hd c AND (push_bit (bit_len mod 8) 1 - 1)]) (\<lambda>d.
        DO (if ba_len a > byte_off
            then wr d (byte_off + 1) (replicate (ba_len a - byte_off - 1) 0) else Inr d) (\<lambda>d'.
        Inr (set_data a d')))))"

subsection \<open>Queries and export\<close>

definition ba_get_len :: "ByteArray option \<Rightarrow> nat" where
  "ba_get_len a = (case a of None \<Rightarrow> 0 | Some a \<Rightarrow> ba_len a)"

definition ba_get_buf :: "ByteArray option \<Rightarrow> u8 list option" where
  "ba_get_buf a = (case a of None \<Rightarrow> None | Some a \<Rightarrow> ba_buf a)"

definition ba_get_buf_const :: "ByteArray option \<Rightarrow> u8 list option" where
  "ba_get_buf_const a = (case a of None \<Rightarrow> None | Some a \<Rightarrow> ba_buf a)"

definition ba_get_byte :: "ByteArray option \<Rightarrow> nat \<Rightarrow> u8 res" where
  "ba_get_byte a index = NOT_NULL a (\<lambda>a.
     if index < ba_len a then DO (rd (data a) index 1) (\<lambda>c. Inr (hd c))
     else Inl RET_INDEX_OUT_OF_RANGE)"

definition ba_to_uint8_with_alloc :: "mem \<Rightarrow> ByteArray option \<Rightarrow> (u8 list \<times> nat) res" where
  "ba_to_uint8_with_alloc M a = NOT_NULL a (\<lambda>a.
     MALLOC_CHECKED M (ba_len a) (\<lambda>b. DO (rd (data a) 0 (ba_len a)) (\<lambda>xs. DO (wr b 0 xs) (\<lambda>b'.
     Inr (b', ba_len a)))))"

definition ba_to_uint8 :: "ByteArray option \<Rightarrow> u8 list option \<Rightarrow> nat \<Rightarrow> u8 list res" where
  "ba_to_uint8 a buf buf_len = NOT_NULL a (\<lambda>a. NOT_NULL buf (\<lambda>b. CHECK_PARAM (ba_len a \<le> buf_len) (
     DO (rd (data a) 0 (ba_len a)) (\<lambda>xs. wr b 0 xs))))"

definition ba_to_str_with_alloc ::
    "mem \<Rightarrow> ByteArray option \<Rightarrow> nat \<Rightarrow> nat \<Rightarrow> u8 list option res" where
  "ba_to_str_with_alloc M ba off l =
     (case ba of None \<Rightarrow> Inr None
      | Some a \<Rightarrow>
          if ba_len a \<ge> sz_add off l
          then let l' = (if l = 0 then sz_sub (ba_len a) off else l)
               in if malloc_ok M (l' + 1)
                  then DO (rd (data a) off l') (\<lambda>xs. DO (wr (replicate (l' + 1) 0) 0 xs) (\<lambda>s.
                         Inr (Some s)))
                  else Inl RET_MEMORY_ALLOC_ERROR
          else Inr None)"

text \<open>
  \<^verbatim>\<open>memcmp\<close> is fixed by the C standard only in sign: the model returns -1, 0 or 1. The
  difference of the lengths is converted from \<^verbatim>\<open>size_t\<close> to \<^verbatim>\<open>int\<close>.
\<close>

fun memcmp :: "u8 list \<Rightarrow> u8 list \<Rightarrow> int" where
  "memcmp (x # xs) (y # ys) = (if x < y then -1 else if y < x then 1 else memcmp xs ys)"
| "memcmp _ _ = 0"

definition int_of_size :: "nat \<Rightarrow> nat \<Rightarrow> int" where
  "int_of_size a b = sint (word_of_int (int a - int b) :: u32)"

definition ba_cmp :: "ByteArray option \<Rightarrow> ByteArray option \<Rightarrow> int res" where
  "ba_cmp a b = (case (a, b) of
       (Some a, Some b) \<Rightarrow>
         if ba_len a \<noteq> ba_len b then Inr (int_of_size (ba_len a) (ba_len b))
         else DO (rd (data a) 0 (ba_len a)) (\<lambda>xs. DO (rd (data b) 0 (ba_len a)) (\<lambda>ys.
           Inr (memcmp xs ys)))
     | _ \<Rightarrow> Inr (-1))"

fun is_zero_loop :: "u8 list \<Rightarrow> bool" where
  "is_zero_loop [] = True"
| "is_zero_loop (x # xs) = (if x \<noteq> 0 then False else is_zero_loop xs)"

definition ba_is_zero :: "ByteArray option \<Rightarrow> bool res" where
  "ba_is_zero a = (case a of None \<Rightarrow> Inr True
     | Some a \<Rightarrow> DO (rd (data a) 0 (ba_len a)) (\<lambda>xs. Inr (is_zero_loop xs)))"

text \<open>What is left in the block that \<^verbatim>\<open>ba_free_private\<close> returns to the heap.\<close>

definition ba_free_private :: "ByteArray option \<Rightarrow> u8 list option res" where
  "ba_free_private a = (case a of None \<Rightarrow> Inr None
     | Some a \<Rightarrow> secure_zero (ba_buf a) (ba_len a))"

subsection \<open>Arrays of words\<close>

definition ba_alloc_from_uint8_be :: "mem \<Rightarrow> u8 list option \<Rightarrow> nat \<Rightarrow> ByteArray option res" where
  "ba_alloc_from_uint8_be M buf buf_len =
     (case buf of None \<Rightarrow> Inr None
      | Some src \<Rightarrow>
          if buf_len = 0 then Inr None
          else to_ptr (MALLOC_CHECKED M sizeof_ByteArray (\<lambda>_.
            CHECK_NOT_NULL (uint8_swap_with_alloc M src buf_len) (\<lambda>b.
            Inr \<lparr>ba_buf = Some b, ba_len = buf_len\<rparr>))))"

definition ba_alloc_from_uint64 :: "mem \<Rightarrow> u64 list option \<Rightarrow> nat \<Rightarrow> ByteArray option res" where
  "ba_alloc_from_uint64 M buf buf_len =
     (case buf of None \<Rightarrow> Inr None
      | Some ws \<Rightarrow>
          if buf_len = 0 then Inr None
          else to_ptr (MALLOC_CHECKED M sizeof_ByteArray (\<lambda>_.
            MALLOC_CHECKED M (buf_len * 8) (\<lambda>b.
            DO (uint64_to_uint8 (big_endian M) (Some ws) buf_len (Some b) (buf_len * 8)) (\<lambda>b'.
            Inr \<lparr>ba_buf = Some b', ba_len = buf_len * 8\<rparr>)))))"

definition ba_alloc_from_uint32 :: "mem \<Rightarrow> u32 list option \<Rightarrow> nat \<Rightarrow> ByteArray option res" where
  "ba_alloc_from_uint32 M buf buf_len =
     (case buf of None \<Rightarrow> Inr None
      | Some ws \<Rightarrow>
          if buf_len = 0 then Inr None
          else to_ptr (MALLOC_CHECKED M sizeof_ByteArray (\<lambda>_.
            MALLOC_CHECKED M (buf_len * 4) (\<lambda>b.
            DO (uint32_to_uint8 (big_endian M) (Some ws) buf_len (Some b) (buf_len * 4)) (\<lambda>b'.
            Inr \<lparr>ba_buf = Some b', ba_len = buf_len * 4\<rparr>)))))"

definition ba_to_uint64_with_alloc :: "mem \<Rightarrow> ByteArray option \<Rightarrow> (u64 list \<times> nat) res" where
  "ba_to_uint64_with_alloc M a = NOT_NULL a (\<lambda>a.
     let buf_len = (ba_len a + 8 - 1) div 8
     in MALLOC_CHECKED M (buf_len * 8) (\<lambda>_.
        DO (uint8_to_uint64 (big_endian M) (ba_buf a) (ba_len a) (Some (replicate buf_len 0)) buf_len) (\<lambda>ws.
        Inr (ws, buf_len))))"

definition ba_to_uint32 :: "mem \<Rightarrow> ByteArray option \<Rightarrow> u32 list option \<Rightarrow> nat \<Rightarrow> u32 list res" where
  "ba_to_uint32 M a buf buf_len = NOT_NULL a (\<lambda>a. NOT_NULL buf (\<lambda>b.
     uint8_to_uint32 (big_endian M) (ba_buf a) (ba_len a) (Some b) buf_len))"

definition ba_to_uint64 :: "mem \<Rightarrow> ByteArray option \<Rightarrow> u64 list option \<Rightarrow> nat \<Rightarrow> u64 list res" where
  "ba_to_uint64 M a buf buf_len = NOT_NULL a (\<lambda>a. NOT_NULL buf (\<lambda>b.
     CHECK_PARAM (buf_len = (ba_len a + 8 - 1) div 8) (
     uint8_to_uint64 (big_endian M) (ba_buf a) (ba_len a) (Some b) buf_len)))"

text \<open>
  These two store the new length before they ask for the memory, so a failed
  \<^verbatim>\<open>realloc\<close> leaves the argument changed: they return the code and the array. The length in
  bytes is a product that wraps around, and the conversion they call forms the same product: what it
  copies is \<open>n\<close> bytes, whatever the count was.
\<close>

definition ba_from_uint64 ::
    "mem \<Rightarrow> u64 list option \<Rightarrow> nat \<Rightarrow> ByteArray option \<Rightarrow> unit res \<times> ByteArray option" where
  "ba_from_uint64 M buf buf_len ba = (case (buf, ba) of
       (Some ws, Some a0) \<Rightarrow>
         if buf_len = 0 then (Inl RET_INVALID_PARAM, ba)
         else let n = sz_mul buf_len 8; a = a0\<lparr>ba_len := n\<rparr>
           in (case REALLOC_CHECKED M (ba_buf a) n Inr of
                 Inl e \<Rightarrow> (Inl e, Some a)
               | Inr d \<Rightarrow>
                   (case if n = 0 then Inr d else uint64_to_uint8 (big_endian M) (Some ws) (n div 8) (Some d) n of
                      Inl e \<Rightarrow> (Inl e, Some (a\<lparr>ba_buf := Some d\<rparr>))
                    | Inr d' \<Rightarrow> (Inr (), Some (a\<lparr>ba_buf := Some d'\<rparr>))))
     | _ \<Rightarrow> (Inl RET_INVALID_PARAM, ba))"

definition ba_from_uint32 ::
    "mem \<Rightarrow> u32 list option \<Rightarrow> nat \<Rightarrow> ByteArray option \<Rightarrow> unit res \<times> ByteArray option" where
  "ba_from_uint32 M buf buf_len ba = (case (buf, ba) of
       (Some ws, Some a0) \<Rightarrow>
         if buf_len = 0 then (Inl RET_INVALID_PARAM, ba)
         else let n = sz_mul buf_len 4; a = a0\<lparr>ba_len := n\<rparr>
           in (case REALLOC_CHECKED M (ba_buf a) n Inr of
                 Inl e \<Rightarrow> (Inl e, Some a)
               | Inr d \<Rightarrow>
                   (case if n = 0 then Inr d else uint32_to_uint8 (big_endian M) (Some ws) (n div 4) (Some d) n of
                      Inl e \<Rightarrow> (Inl e, Some (a\<lparr>ba_buf := Some d\<rparr>))
                    | Inr d' \<Rightarrow> (Inr (), Some (a\<lparr>ba_buf := Some d'\<rparr>))))
     | _ \<Rightarrow> (Inl RET_INVALID_PARAM, ba))"


subsection \<open>The invariant\<close>

lemma mk_ba_simps [simp]:
  "data (mk_ba xs) = xs" "ba_len (mk_ba xs) = length xs" "ba_buf (mk_ba xs) = Some xs"
  "wf_ba (mk_ba xs)"
  by (simp_all add: mk_ba_def data_def wf_ba_def)

lemma mk_ba_inject [simp]: "mk_ba xs = mk_ba ys \<longleftrightarrow> xs = ys"
  by (auto simp: mk_ba_def)

lemma wf_ba_null [simp]: "wf_ba \<lparr>ba_buf = None, ba_len = 0\<rparr>"
  by (simp add: wf_ba_def data_def)

lemma wf_ba_cases:
  assumes "wf_ba a"
  obtains (null) "a = \<lparr>ba_buf = None, ba_len = 0\<rparr>" | (block) xs where "a = mk_ba xs"
  using assms by (cases a; cases "ba_buf a") (auto simp: wf_ba_def data_def mk_ba_def)

lemma set_data_mk_ba [simp]: "length ys = length xs \<Longrightarrow> set_data (mk_ba xs) ys = mk_ba ys"
  by (simp add: set_data_def mk_ba_def)

lemma set_data_wf:
  assumes "wf_ba a" and "length ys = ba_len a"
  shows "wf_ba (set_data a ys)" and "data (set_data a ys) = ys" and "ba_len (set_data a ys) = ba_len a"
  using assms by (cases a rule: wf_ba_cases; simp add: set_data_def wf_ba_def data_def mk_ba_def)+

lemma wf_ba_len [simp]: "wf_ba a \<Longrightarrow> length (data a) = ba_len a"
  by (simp add: wf_ba_def)

lemma mk_ba_upd [simp]: "length ys = length xs \<Longrightarrow> (mk_ba xs)\<lparr>ba_buf := Some ys\<rparr> = mk_ba ys"
  by (simp add: mk_ba_def)

lemma raw_ba [simp]: "length b = n \<Longrightarrow> \<lparr>ba_buf = Some b, ba_len = n\<rparr> = mk_ba b"
  by (simp add: mk_ba_def)

subsection \<open>What the operations compute\<close>

text \<open>
  On well-formed arrays and a host that has memory, each operation is a function of the
  bytes; these equations are what the components above the array use.
\<close>

lemma ba_alloc_eq: "mem_ok M \<Longrightarrow> ba_alloc M = Inr (Some \<lparr>ba_buf = None, ba_len = 0\<rparr>)"
  by (simp add: ba_alloc_def)

lemma ba_alloc_by_len_eq: "mem_ok M \<Longrightarrow> ba_alloc_by_len M n = Inr (Some (mk_ba (fresh M n)))"
  by (simp add: ba_alloc_by_len_def)

lemma ba_alloc_from_uint8_eq:
  "mem_ok M \<Longrightarrow> 0 < n \<Longrightarrow> n \<le> length b \<Longrightarrow>
   ba_alloc_from_uint8 M (Some b) n = Inr (Some (mk_ba (take n b)))"
  by (simp add: ba_alloc_from_uint8_def)

lemma ba_alloc_from_uint8_0:
  "mem_ok M \<Longrightarrow> ba_alloc_from_uint8 M (Some b) 0 = Inr (Some \<lparr>ba_buf = None, ba_len = 0\<rparr>)"
  by (simp add: ba_alloc_from_uint8_def)

lemma ba_copy_with_alloc_eq:
  "mem_ok M \<Longrightarrow> wf_ba a \<Longrightarrow> off + l \<le> ba_len a \<Longrightarrow> ba_len a < SIZE_MOD \<Longrightarrow>
   ba_copy_with_alloc M (Some a) off l
     = Inr (Some (mk_ba (if l = 0 then drop off (data a) else take l (drop off (data a)))))"
  by (simp add: ba_copy_with_alloc_def Let_def)

lemma ba_copy_with_alloc_short:
  "ba_len a < sz_add off l \<Longrightarrow> ba_copy_with_alloc M (Some a) off l = Inr None"
  by (simp add: ba_copy_with_alloc_def)

lemma ba_join_eq:
  "mem_ok M \<Longrightarrow> wf_ba a \<Longrightarrow> wf_ba b \<Longrightarrow>
   ba_join M (Some a) (Some b) = Inr (Some (mk_ba (data a @ data b)))"
  by (simp add: ba_join_def ba_alloc_by_len_eq)

lemma ba_swap_eq:
  "wf_ba a \<Longrightarrow> ba_swap (Some a) = (if data a = [] then Inl RET_INVALID_PARAM else Inr (mk_ba (rev (data a))))"
  by (cases a rule: wf_ba_cases)
    (auto simp: ba_swap_def uint8_swap_in_place, auto simp: uint8_swap_def data_def)

lemma ba_xor_eq:
  "wf_ba a \<Longrightarrow> wf_ba b \<Longrightarrow> ba_len a \<le> ba_len b \<Longrightarrow>
   ba_xor (Some a) (Some b) = Inr (set_data a (map2 (XOR) (data a) (data b)))"
  by (simp add: ba_xor_def map2_take)

lemma ba_set_eq: "wf_ba a \<Longrightarrow> ba_set (Some a) v = Inr (set_data a (replicate (ba_len a) v))"
  by (simp add: ba_set_def)

lemma ba_change_len_eq:
  "mem_ok M \<Longrightarrow> wf_ba a \<Longrightarrow> 0 < l \<Longrightarrow>
   ba_change_len M (Some a) l = Inr (mk_ba (take l (data a) @ replicate (l - ba_len a) 0))"
  by (auto simp: ba_change_len_def resize_shrink)

lemma ba_to_uint8_eq:
  "wf_ba a \<Longrightarrow> ba_len a \<le> n \<Longrightarrow> n \<le> length b \<Longrightarrow>
   ba_to_uint8 (Some a) (Some b) n = Inr (data a @ drop (ba_len a) b)"
  by (simp add: ba_to_uint8_def)

lemma ba_append_eq:
  assumes "mem_ok M" and "wf_ba i" and "wf_ba out" and "off + l \<le> ba_len i"
    and "ba_len out + ba_len i < SIZE_MOD" and "0 < ba_len out + l \<or> off < ba_len i"
  shows "ba_append M (Some i) off l (Some out)
     = Inr (mk_ba (data out @ (if l = 0 then drop off (data i) else take l (drop off (data i)))))"
  using assms by (auto simp: ba_append_def Let_def)

lemma memcmp_0_iff: "length xs = length ys \<Longrightarrow> memcmp xs ys = 0 \<longleftrightarrow> xs = ys"
  by (induction xs ys rule: memcmp.induct) auto

lemma int_of_size_0_iff:
  assumes "a < 2 ^ 32" and "b < 2 ^ 32"
  shows "int_of_size a b = 0 \<longleftrightarrow> a = b"
proof
  assume "int_of_size a b = 0"
  then have "(of_nat a :: u32) = of_nat b" by (simp add: int_of_size_def signed_eq_0_iff)
  then have "unat (of_nat a :: u32) = unat (of_nat b :: u32)" by simp
  with assms show "a = b" by (simp add: unat_of_nat)
qed (simp add: int_of_size_def)

lemma is_zero_loop_iff: "is_zero_loop xs \<longleftrightarrow> (\<forall>x\<in>set xs. x = 0)"
  by (induction xs) auto

subsection \<open>Every operation keeps the invariant\<close>

lemma MALLOC_CHECKED_eq_Inr: "MALLOC_CHECKED M n k = Inr y \<longleftrightarrow> malloc_ok M n \<and> k (fresh M n) = Inr y"
  by (simp add: MALLOC_CHECKED_def)

lemma REALLOC_CHECKED_eq_Inr: "REALLOC_CHECKED M p n k = Inr y \<longleftrightarrow>
    realloc_ok M n \<and> k (resize M (pointee p) n) = Inr y"
  by (simp add: REALLOC_CHECKED_def)

lemma CHECK_NOT_NULL_eq_Inr: "CHECK_NOT_NULL r k = Inr y \<longleftrightarrow> (\<exists>x. r = Inr (Some x) \<and> k x = Inr y)"
  by (cases r) (simp_all add: CHECK_NOT_NULL_def NOT_NULL_eq_Inr)

lemmas ba_inversions = res_inversions MALLOC_CHECKED_eq_Inr REALLOC_CHECKED_eq_Inr
  CHECK_NOT_NULL_eq_Inr

lemma wf_ba_raw [wf_rules]: "length b = n \<Longrightarrow> wf_ba \<lparr>ba_buf = Some b, ba_len = n\<rparr>"
  by simp

lemma wf_ba_upd: "length b = ba_len x \<Longrightarrow> wf_ba (x\<lparr>ba_buf := Some b\<rparr>)"
  by (simp add: wf_ba_def data_def del: wf_ba_len)

lemma ba_alloc_wf [wf_rules]: "ba_alloc M = Inr (Some a) \<Longrightarrow> wf_ba a"
  by (auto simp: ba_alloc_def ba_inversions)

lemma ba_alloc_by_len_wf [wf_rules]: "ba_alloc_by_len M n = Inr (Some a) \<Longrightarrow> wf_ba a \<and> ba_len a = n"
  by (auto simp: ba_alloc_by_len_def ba_inversions)

lemma ba_alloc_from_uint8_wf [wf_rules]:
  "ba_alloc_from_uint8 M b n = Inr (Some a) \<Longrightarrow> wf_ba a \<and> ba_len a = n"
  by (auto simp: ba_alloc_from_uint8_def ba_inversions dest!: wr_length split: option.splits if_splits)

lemma ba_copy_with_alloc_wf [wf_rules]: "ba_copy_with_alloc M inp off l = Inr (Some a) \<Longrightarrow> wf_ba a"
  by (auto simp: ba_copy_with_alloc_def Let_def ba_inversions dest!: wr_length
      split: option.splits if_splits)

lemma ba_join_wf [wf_rules]: "ba_join M x y = Inr (Some a) \<Longrightarrow> wf_ba a"
  by (auto simp: ba_join_def ba_inversions dest!: ba_alloc_by_len_wf wr_length intro!: wf_ba_upd)

lemma ba_change_len_wf [wf_rules]: "ba_change_len M x l = Inr a \<Longrightarrow> wf_ba a"
  by (auto simp: ba_change_len_def ba_inversions dest!: wr_length split: if_splits)

lemma ba_append_wf [wf_rules]: "ba_append M x off l y = Inr a \<Longrightarrow> wf_ba a"
  by (auto simp: ba_append_def Let_def ba_inversions dest!: wr_length)

lemma ba_from_uint8_wf [wf_rules]: "ba_from_uint8 M b n y = Inr a \<Longrightarrow> wf_ba a"
  by (auto simp: ba_from_uint8_def ba_inversions dest!: wr_length)

lemma ba_trim_leading_zeros_wf [wf_rules]: "ba_trim_leading_zeros M x = Inr a \<Longrightarrow> wf_ba a"
  by (auto simp: ba_trim_leading_zeros_def ba_inversions split: if_splits)

lemma ba_trim_leading_zeros_le_wf [wf_rules]: "ba_trim_leading_zeros_le M x = Inr a \<Longrightarrow> wf_ba a"
  by (auto simp: ba_trim_leading_zeros_le_def ba_inversions split: if_splits dest: ba_change_len_wf)

lemma ba_copy_wf [wf_rules]: "wf_ba y \<Longrightarrow> ba_copy x off l (Some y) off' = Inr a \<Longrightarrow> wf_ba a"
  by (auto simp: ba_copy_def Let_def ba_inversions dest!: wr_length intro!: set_data_wf)

lemma ba_xor_wf [wf_rules]: "wf_ba x \<Longrightarrow> ba_xor (Some x) y = Inr a \<Longrightarrow> wf_ba a"
  by (auto simp: ba_xor_def ba_inversions dest!: wr_length intro!: set_data_wf)

lemma ba_set_wf [wf_rules]: "wf_ba x \<Longrightarrow> ba_set (Some x) v = Inr a \<Longrightarrow> wf_ba a"
  by (auto simp: ba_set_def ba_inversions dest!: wr_length intro!: set_data_wf)

lemma ba_set_byte_wf [wf_rules]: "wf_ba x \<Longrightarrow> ba_set_byte (Some x) i v = Inr a \<Longrightarrow> wf_ba a"
  by (auto simp: ba_set_byte_def ba_inversions dest!: wr_length intro!: set_data_wf split: if_splits)

lemma ba_swap_wf [wf_rules]: "wf_ba x \<Longrightarrow> ba_swap (Some x) = Inr a \<Longrightarrow> wf_ba a"
  by (auto simp: ba_swap_eq split: if_splits)

lemma ba_truncate_wf [wf_rules]: "wf_ba x \<Longrightarrow> ba_truncate (Some x) n = Inr a \<Longrightarrow> wf_ba a"
  by (auto simp: ba_truncate_def Let_def ba_inversions dest!: wr_length intro!: set_data_wf
      split: if_splits)

subsection \<open>Which calls stay inside their objects\<close>

text \<open>
  With well-formed arguments most operations are defined whatever the arguments are and
  whatever the allocator does. The ones that take an offset and a length need the sum to
  stay below \<open>2 ^ 64\<close>, and those that take length 0 for "the rest" need the offset to be
  inside the array.
\<close>

lemma ba_alloc_by_len_defined: "defined (ba_alloc_by_len M n)"
  by (simp add: ba_alloc_by_len_def def_simps)

lemma ba_alloc_from_uint8_defined: "n \<le> length b \<Longrightarrow> defined (ba_alloc_from_uint8 M (Some b) n)"
  by (auto simp: ba_alloc_from_uint8_def def_simps rd_Inr)

lemma ba_copy_with_alloc_defined:
  "wf_ba a \<Longrightarrow> off + l < SIZE_MOD \<Longrightarrow> defined (ba_copy_with_alloc M (Some a) off l)"
  by (auto simp: ba_copy_with_alloc_def def_simps rd_Inr Let_def)

lemma ba_join_defined: "wf_ba a \<Longrightarrow> wf_ba b \<Longrightarrow> defined (ba_join M (Some a) (Some b))"
  by (auto simp: ba_join_def def_simps rd_Inr ba_alloc_by_len_defined
      dest!: ba_alloc_by_len_wf wr_length)

lemma ba_swap_defined: "wf_ba a \<Longrightarrow> defined (ba_swap (Some a))"
  by (simp add: ba_swap_eq)

lemma ba_xor_defined: "wf_ba a \<Longrightarrow> wf_ba b \<Longrightarrow> defined (ba_xor (Some a) (Some b))"
  by (auto simp: ba_xor_def def_simps rd_Inr)

lemma ba_set_defined: "wf_ba a \<Longrightarrow> defined (ba_set (Some a) v)"
  by (simp add: ba_set_eq)

lemma ba_byte_defined:
  "wf_ba a \<Longrightarrow> defined (ba_get_byte (Some a) i)"
  "wf_ba a \<Longrightarrow> defined (ba_set_byte (Some a) i v)"
  by (auto simp: ba_get_byte_def ba_set_byte_def def_simps)

lemma ba_copy_defined:
  "wf_ba a \<Longrightarrow> wf_ba b \<Longrightarrow> off + l < SIZE_MOD \<Longrightarrow> off' + ba_len a < SIZE_MOD \<Longrightarrow> off' + l < SIZE_MOD \<Longrightarrow>
   (l = 0 \<Longrightarrow> off \<le> ba_len a) \<Longrightarrow> defined (ba_copy (Some a) off l (Some b) off')"
  by (auto simp: ba_copy_def def_simps rd_Inr Let_def split: if_splits)

lemma ba_append_defined:
  "wf_ba a \<Longrightarrow> wf_ba b \<Longrightarrow> off + l < SIZE_MOD \<Longrightarrow> ba_len a + ba_len b < SIZE_MOD \<Longrightarrow>
   (l = 0 \<Longrightarrow> off \<le> ba_len a) \<Longrightarrow> defined (ba_append M (Some a) off l (Some b))"
  by (auto simp: ba_append_def def_simps rd_Inr Let_def)

lemma ba_change_len_defined: "wf_ba a \<Longrightarrow> defined (ba_change_len M (Some a) l)"
  by (auto simp: ba_change_len_def def_simps)

lemma ba_to_uint8_defined:
  "wf_ba a \<Longrightarrow> n \<le> length b \<Longrightarrow> defined (ba_to_uint8 (Some a) (Some b) n)"
  by (auto simp: ba_to_uint8_def def_simps rd_Inr)

lemma ba_cmp_defined: "wf_ba a \<Longrightarrow> wf_ba b \<Longrightarrow> defined (ba_cmp (Some a) (Some b))"
  by (auto simp: ba_cmp_def def_simps)

subsection \<open>Trimming\<close>

lemma trim_loop_spec:
  "i < length b \<Longrightarrow>
   \<exists>j. trim_loop b i = Inr j \<and> j \<le> i \<and> (\<forall>k. j < k \<and> k \<le> i \<longrightarrow> b ! k = 0) \<and> (j = 0 \<or> b ! j \<noteq> 0)"
proof (induction b i rule: trim_loop.induct)
  case (1 b)
  then show ?case by simp
next
  case (2 b i)
  show ?case
  proof (cases "b ! Suc i = 0")
    case True
    then obtain j where "trim_loop b i = Inr j" "j \<le> i" "\<forall>k. j < k \<and> k \<le> i \<longrightarrow> b ! k = 0" "j = 0 \<or> b ! j \<noteq> 0"
      using 2 by auto
    then show ?thesis using True 2(2) by (auto simp: le_Suc_eq)
  next
    case False
    then show ?thesis using 2(2) by auto
  qed
qed

lemma trim_le_loop_spec:
  "i < length b \<Longrightarrow>
   \<exists>j. trim_le_loop b i = Inr j \<and> j \<le> i \<and> (\<forall>k. j < k \<and> k \<le> i \<longrightarrow> b ! k = 0) \<and> (j \<le> 1 \<or> b ! j \<noteq> 0)"
proof (induction b i rule: trim_le_loop.induct)
  case (1 b)
  then show ?case by simp
next
  case (2 b i)
  show ?case
  proof (cases "i > 0 \<and> b ! Suc i = 0")
    case True
    then obtain j where "trim_le_loop b i = Inr j" "j \<le> i" "\<forall>k. j < k \<and> k \<le> i \<longrightarrow> b ! k = 0" "j \<le> 1 \<or> b ! j \<noteq> 0"
      using 2 by auto
    then show ?thesis using True 2(2) by (auto simp: le_Suc_eq)
  next
    case False
    then show ?thesis using 2(2) by auto
  qed
qed

lemma nat_le_trailing_zeros:
  "j \<le> length b \<Longrightarrow> (\<And>k. j \<le> k \<Longrightarrow> k < length b \<Longrightarrow> b ! k = 0) \<Longrightarrow> nat_le B (take j b) = nat_le B b"
proof -
  assume a: "j \<le> length b" "\<And>k. j \<le> k \<Longrightarrow> k < length b \<Longrightarrow> b ! k = 0"
  have "drop j b = replicate (length b - j) 0"
    using a by (intro nth_equalityI) simp_all
  then have "b = take j b @ replicate (length b - j) 0"
    by (metis append_take_drop_id)
  then have "nat_le B b = nat_le B (take j b @ replicate (length b - j) 0)" by simp
  then show ?thesis by (simp add: nat_le_append)
qed

subsection \<open>Numbers in arrays\<close>

text \<open>The number a list of machine words stands for, least significant word first.\<close>

definition word_val :: "'a::len word list \<Rightarrow> nat" where
  "word_val ws = nat_le (2 ^ LENGTH('a)) (map unat ws)"

lemma word_val_simps [simp]:
  "word_val [] = 0"
  "word_val (w # ws) = unat w + 2 ^ LENGTH('a) * word_val (ws :: 'a::len word list)"
  by (simp_all add: word_val_def)

lemma word_val_append:
  "word_val (xs @ ys) = word_val xs + 2 ^ (LENGTH('a) * length xs) * word_val (ys :: 'a::len word list)"
  by (simp add: word_val_def nat_le_append power_mult)

lemma word_val_zeros [simp]: "word_val (replicate n 0) = 0"
  by (simp add: word_val_def)

lemma word_val_bound: "word_val (ws :: 'a::len word list) < 2 ^ (LENGTH('a) * length ws)"
proof -
  have "nat_le (2 ^ LENGTH('a)) (map unat ws) < (2 ^ LENGTH('a)) ^ length (map unat ws)"
    by (rule nat_le_bound) auto
  then show ?thesis by (simp add: word_val_def power_mult)
qed

lemma word_val_bytes_of_word:
  assumes "8 dvd LENGTH('a)"
  shows "word_val (bytes_of_word False (w :: 'a::len word)) = unat w"
proof -
  have "(256::nat) ^ (LENGTH('a) div 8) = 2 ^ LENGTH('a)" using assms by (rule pow_256)
  then show ?thesis
    by (simp add: word_val_def bytes_of_word_def Let_def unat_of_digits_256 nat_le_digits del: of_nat_numeral)
qed

lemma word_val_store_words:
  assumes "8 dvd LENGTH('a)"
  shows "word_val (store_words False (ws :: 'a::len word list)) = word_val ws"
proof (induction ws)
  case Nil
  then show ?case by (simp add: store_words_def)
next
  case (Cons w ws)
  have "8 * (LENGTH('a) div 8) = LENGTH('a)" using assms by simp
  then show ?case
    using assms Cons by (simp add: store_words_Cons word_val_append word_val_bytes_of_word)
qed

lemma word_val_load_words:
  assumes "8 dvd LENGTH('a)" and "(LENGTH('a) div 8) dvd length bs"
  shows "word_val (load_words False bs :: 'a::len word list) = word_val bs"
  using word_val_store_words[OF assms(1), of "load_words False bs"] assms by simp

lemma word_val_take:
  assumes "LENGTH('a) * k = n"
  shows "word_val (take k ws) = word_val (ws :: 'a::len word list) mod 2 ^ n"
proof (cases "k \<le> length ws")
  case True
  have "word_val ws = word_val (take k ws) + 2 ^ n * word_val (drop k ws)"
    using word_val_append[of "take k ws" "drop k ws"] True assms by simp
  moreover have "word_val (take k ws) < 2 ^ n"
    using word_val_bound[of "take k ws"] True assms by simp
  ultimately show ?thesis by simp
next
  case False
  have "word_val ws < 2 ^ (LENGTH('a) * length ws)" by (rule word_val_bound)
  also have "\<dots> \<le> 2 ^ n" using False assms by (intro power_increasing) (auto simp flip: assms)
  finally show ?thesis using False by simp
qed

lemma ba_to_uint64_with_alloc_eq:
  assumes "mem_ok M" and "ba_len a > 0" and "wf_ba a"
  defines "m \<equiv> (ba_len a + 7) div 8"
  shows "ba_to_uint64_with_alloc M (Some a)
     = Inr (load_words False (data a @ replicate (8 * m - ba_len a) 0), m)"
proof -
  have le: "ba_len a \<le> 8 * m" by (simp add: m_def)
  have b: "ba_buf a = Some (data a)"
    using assms(2) by (rule_tac wf_ba_cases[OF assms(3)]) simp_all
  have m: "(ba_len a + 8 - 1) div 8 = m" by (simp add: m_def)
  have l: "length (data a) = ba_len a" using assms(3) by (rule wf_ba_len)
  have w: "uint8_to_uint64 be (Some (data a)) (ba_len a) (Some (replicate m 0)) m
      = Inr (load_words False (data a @ replicate (8 * m - ba_len a) 0))" for be
    using uint8_to_uint64_eq[OF assms(2), of "data a" m "replicate m 0" be] le l by simp
  show ?thesis
    unfolding ba_to_uint64_with_alloc_def NOT_NULL_simps Let_def m b w MALLOC_CHECKED_ok[OF assms(1)] DO_simps ..
qed

lemma ba_alloc_from_uint64_eq:
  "mem_ok M \<Longrightarrow> 0 < n \<Longrightarrow> n \<le> length ws \<Longrightarrow>
   ba_alloc_from_uint64 M (Some ws) n = Inr (Some (mk_ba (store_words False (take n ws))))"
  by (simp add: ba_alloc_from_uint64_def uint64_to_uint8_eq length_store_words)

subsection \<open>The invariant under the word conversions\<close>

lemma ba_alloc_from_str_wf [wf_rules]: "ba_alloc_from_str M s = Inr (Some a) \<Longrightarrow> wf_ba a"
  by (auto simp: ba_alloc_from_str_def ba_inversions split: option.splits dest: wf_rules)

lemma uint8_swap_with_alloc_length: "uint8_swap_with_alloc M b n = Inr (Some x) \<Longrightarrow> length x = n"
  by (auto simp: uint8_swap_with_alloc_def ba_inversions)

lemma uint64_to_uint8_length: "uint64_to_uint8 be i n (Some b) m = Inr b' \<Longrightarrow> length b' = length b"
  by (auto simp: uint64_to_uint8_def ba_inversions Let_def dest: wr_length split: if_splits)

lemma uint32_to_uint8_length: "uint32_to_uint8 be i n (Some b) m = Inr b' \<Longrightarrow> length b' = length b"
  by (auto simp: uint32_to_uint8_def ba_inversions Let_def dest: wr_length split: if_splits)

lemma ba_alloc_from_uint8_be_wf [wf_rules]: "ba_alloc_from_uint8_be M b n = Inr (Some a) \<Longrightarrow> wf_ba a"
  by (auto simp: ba_alloc_from_uint8_be_def ba_inversions split: option.splits if_splits
      dest: uint8_swap_with_alloc_length)

lemma ba_alloc_from_words_wf [wf_rules]:
  "ba_alloc_from_uint64 M ws n = Inr (Some a) \<Longrightarrow> wf_ba a"
  "ba_alloc_from_uint32 M vs n = Inr (Some a) \<Longrightarrow> wf_ba a"
  by (auto simp: ba_alloc_from_uint64_def ba_alloc_from_uint32_def ba_inversions
      split: option.splits if_splits dest!: uint64_to_uint8_length uint32_to_uint8_length)

lemma REALLOC_Inr: "REALLOC_CHECKED M p n Inr = Inr d \<Longrightarrow> length d = n"
  by (auto simp: REALLOC_CHECKED_eq_Inr)

lemma ba_from_words_wf [wf_rules]:
  "ba_from_uint64 M ws n (Some x) = (Inr (), Some a) \<Longrightarrow> wf_ba a"
  "ba_from_uint32 M vs n (Some x) = (Inr (), Some a) \<Longrightarrow> wf_ba a"
  by (auto simp: ba_from_uint64_def ba_from_uint32_def Let_def wf_ba_def data_def
      simp del: wf_ba_len raw_ba REALLOC_CHECKED_ok split: option.splits if_splits sum.splits
      dest!: uint64_to_uint8_length uint32_to_uint8_length REALLOC_Inr)

subsection \<open>Properties\<close>

text \<open>(C3) \<^verbatim>\<open>ba_copy_with_alloc\<close> and \<^verbatim>\<open>ba_to_str_with_alloc\<close> check the sum of offset and
  length after it wrapped around: with an offset near \<open>2 ^ 64\<close> they pass their check and
  read outside the array.\<close>

theorem ba_copy_with_alloc_wraps:
  assumes "mem_ok M" and "wf_ba a" and "off < SIZE_MOD" and "0 < l" and "l \<le> ba_len a"
    and "ba_len a < SIZE_MOD" and "SIZE_MOD \<le> off + l"
  shows "ba_copy_with_alloc M (Some a) off l = Inl UNDEFINED
    \<and> ba_to_str_with_alloc M (Some a) off l = Inl UNDEFINED"
proof -
  have "sz_add off l \<le> ba_len a"
    using assms(3,5,6,7) by (simp add: sz_add_def mod_if) linarith
  moreover have "rd (data a) off l = Inl UNDEFINED"
    using assms(2,6,7) by (simp add: rd_def)
  ultimately show ?thesis
    using assms(1,4) by (simp add: ba_copy_with_alloc_def ba_to_str_with_alloc_def mem_ok_def)
qed

lemma ba_copy_with_alloc_wraps_witness:
  "ba_copy_with_alloc ideal_mem (Some (mk_ba [7, 8, 9])) (SIZE_MOD - 1) 2 = Inl UNDEFINED"
  using ba_copy_with_alloc_wraps[of ideal_mem "mk_ba [7, 8, 9]" "SIZE_MOD - 1" 2]
  by (simp add: SIZE_MOD_def)

text \<open>(C4) \<^verbatim>\<open>ba_from_uint64\<close> stores the new length, the count times 8 modulo \<open>2 ^ 64\<close>, before it asks for the
  memory. When \<^verbatim>\<open>realloc\<close> fails, for any count but 0 (which is refused), the caller is left with the old contents under the new
  length: the array is well formed only if the length was the same, reading it by its own length is undefined
  if it was to grow, and if the length has wrapped to 0 the block may be gone.\<close>

theorem ba_from_uint64_failure:
  assumes "wf_ba a" and "n \<noteq> 0" and "\<not> realloc_ok M (sz_mul n 8)"
  shows "\<exists>a'. ba_from_uint64 M (Some ws) n (Some a)
         = (Inl (if sz_mul n 8 = 0 \<and> ba_buf a \<noteq> None then FREED else RET_MEMORY_ALLOC_ERROR), Some a')
     \<and> ba_buf a' = ba_buf a \<and> ba_len a' = (n * 8) mod 2 ^ 64
     \<and> (wf_ba a' \<longleftrightarrow> ba_len a = (n * 8) mod 2 ^ 64)
     \<and> (ba_len a < (n * 8) mod 2 ^ 64 \<longrightarrow> ba_to_uint8_with_alloc ideal_mem (Some a') = Inl UNDEFINED)"
proof -
  let ?a' = "a\<lparr>ba_len := sz_mul n 8\<rparr>"
  have d: "data ?a' = data a" by (simp add: data_def)
  have m: "(n * 8) mod 2 ^ 64 = sz_mul n 8" by (simp add: sz_mul_def SIZE_MOD_def)
  have "ba_from_uint64 M (Some ws) n (Some a)
      = (Inl (if sz_mul n 8 = 0 \<and> ba_buf a \<noteq> None then FREED else RET_MEMORY_ALLOC_ERROR), Some ?a')"
    using assms by (auto simp: ba_from_uint64_def Let_def REALLOC_CHECKED_def)
  moreover have "wf_ba ?a' \<longleftrightarrow> ba_len a = sz_mul n 8" using assms(1) by (auto simp: wf_ba_def d)
  moreover have "ba_to_uint8_with_alloc ideal_mem (Some ?a') = Inl UNDEFINED" if "ba_len a < sz_mul n 8"
    using that assms(1) by (simp add: ba_to_uint8_with_alloc_def d rd_def)
  ultimately show ?thesis unfolding m by (intro exI[of _ ?a']) simp
qed

lemma ba_from_uint64_failure_witness:
  "\<exists>a'. ba_from_uint64 (ideal_mem\<lparr>realloc_ok := \<lambda>n. n < 16\<rparr>) (Some [1, 2]) 2 (Some (mk_ba [5]))
       = (Inl RET_MEMORY_ALLOC_ERROR, Some a') \<and> \<not> wf_ba a'"
  using ba_from_uint64_failure[of "mk_ba [5]" 2 "ideal_mem\<lparr>realloc_ok := \<lambda>n. n < 16\<rparr>" "[1, 2]"]
  by (auto simp: SIZE_MOD_def)

text \<open>\<^verbatim>\<open>ba_truncate\<close> reduces the number in the array modulo two to the bit length and
  keeps its size; a bit length that is not inside the array makes it write past the end
  before it looks at the size.\<close>

theorem ba_truncate_spec:
  assumes "wf_ba a"
  shows "if n < 8 * ba_len a
     then \<exists>a'. ba_truncate (Some a) n = Inr a' \<and> wf_ba a' \<and> ba_len a' = ba_len a
            \<and> word_val (data a') = word_val (data a) mod 2 ^ n
     else ba_truncate (Some a) n = Inl UNDEFINED"
proof (cases "n < 8 * ba_len a")
  case False
  then have "\<not> n div 8 + 1 \<le> length (data a)"
    using assms by simp
  then show ?thesis using False by (simp add: ba_truncate_def rd_def)
next
  case True
  define k where "k = n div 8"
  define r where "r = n mod 8"
  have n: "n = 8 * k + r" and r: "r < 8" by (simp_all add: k_def r_def)
  have k: "k < ba_len a" using True by (simp add: k_def)
  define xs where "xs = take k (data a)"
  define ys where "ys = drop (Suc k) (data a)"
  define c where "c = data a ! k"
  have xs: "length xs = k" and da: "data a = xs @ c # ys"
    using k assms by (simp_all add: xs_def ys_def c_def id_take_nth_drop)
  have ys: "length ys = ba_len a - k - 1"
    using k assms by (simp add: ys_def)
  have mask: "2 ^ r - 1 = (mask r :: u8)"
    by (simp add: mask_eq_exp_minus_1)
  define d' where "d' = xs @ (c AND mask r) # replicate (length ys) 0"
  have tr: "ba_truncate (Some a) n = Inr (set_data a d')"
    using k ys
    by (simp add: ba_truncate_def da xs d'_def mask flip: k_def r_def)
  have len: "length d' = ba_len a" using xs ys k by (simp add: d'_def)
  have "word_val (take (Suc k) (data a)) = word_val (data a) mod 2 ^ (8 * Suc k)"
    by (rule word_val_take) simp
  then have "word_val (data a) mod 2 ^ n = word_val (xs @ [c]) mod 2 ^ n"
    using xs r by (simp add: da n mod_mod_cancel le_imp_power_dvd)
  also have "\<dots> = (word_val xs + 2 ^ (8 * k) * unat c) mod (2 ^ (8 * k) * 2 ^ r)"
    by (simp add: word_val_append xs n power_add)
  also have "\<dots> = word_val xs + 2 ^ (8 * k) * (unat c mod 2 ^ r)"
  proof -
    have "word_val xs < 2 ^ (8 * k)" using word_val_bound[of xs] xs by simp
    then show ?thesis by (simp add: mod_mult2_eq)
  qed
  also have "\<dots> = word_val d'"
  proof -
    have "unat (c AND mask r) = unat c mod 2 ^ r"
      by (metis take_bit_eq_mask take_bit_eq_mod unsigned_take_bit_eq)
    moreover define c' where "c' = c AND mask r"
    ultimately have "word_val (xs @ c' # replicate (length ys) 0) = word_val xs + 2 ^ (8 * k) * (unat c mod 2 ^ r)"
      by (simp add: word_val_append xs)
    then show ?thesis by (simp only: d'_def c'_def)
  qed
  finally show ?thesis
    using True assms tr len by (auto simp: set_data_wf)
qed

lemma ba_truncate_spec_witness:
  "ba_truncate (Some (mk_ba [0xFF, 0xFF, 0xFF])) 24 = Inl UNDEFINED
   \<and> (\<exists>a'. ba_truncate (Some (mk_ba [0xFF, 0xFF, 0xFF])) 11 = Inr a' \<and> word_val (data a') = 0x7FF)"
  using ba_truncate_spec[of "mk_ba [0xFF, 0xFF, 0xFF]" 24] ba_truncate_spec[of "mk_ba [0xFF, 0xFF, 0xFF]" 11]
  by auto

subsection \<open>Memory safety\<close>

lemma trim_loop_stays: "i < length b \<Longrightarrow> \<exists>j. trim_loop b i = Inr j \<and> j \<le> i"
  using trim_loop_spec by blast

lemma trim_le_loop_stays: "i < length b \<Longrightarrow> \<exists>j. trim_le_loop b i = Inr j \<and> j \<le> i"
  using trim_le_loop_spec by blast

lemma ba_trim_defined:
  assumes "wf_ba a"
  shows "defined (ba_trim_leading_zeros M (Some a)) \<longleftrightarrow> ba_buf a = None \<or> ba_len a \<noteq> 0"
    and "defined (ba_trim_leading_zeros_le M (Some a)) \<longleftrightarrow> ba_len a \<noteq> 0"
proof -
  show "defined (ba_trim_leading_zeros M (Some a)) \<longleftrightarrow> ba_buf a = None \<or> ba_len a \<noteq> 0"
    using assms trim_loop_stays[of "ba_len a - 1" "data a"]
    by (cases a rule: wf_ba_cases) (auto simp: ba_trim_leading_zeros_def REALLOC_CHECKED_def data_def split: if_splits)
  show "defined (ba_trim_leading_zeros_le M (Some a)) \<longleftrightarrow> ba_len a \<noteq> 0"
    using assms trim_le_loop_stays[of "ba_len a - 1" "data a"] ba_change_len_defined[OF assms]
    by (auto simp: ba_trim_leading_zeros_le_def)
qed

lemma ba_truncate_defined: "wf_ba a \<Longrightarrow> defined (ba_truncate (Some a) n) \<longleftrightarrow> n < 8 * ba_len a"
  using ba_truncate_spec[of a n] by (cases "n < 8 * ba_len a") auto

lemma uint8_swap_with_alloc_defined: "n \<le> length s \<Longrightarrow> defined (uint8_swap_with_alloc M s n)"
  by (auto simp: uint8_swap_with_alloc_def def_simps)

lemma ba_bytes_defined:
  assumes "wf_ba a" and "k \<le> length s"
  shows "defined (ba_alloc_from_uint8 M (Some s) k)" "defined (ba_alloc_from_uint8_be M (Some s) k)"
    "defined (ba_from_uint8 M (Some s) k (Some a))" "defined (ba_to_uint8 (Some a) (Some s) k)"
proof -
  show "defined (ba_alloc_from_uint8_be M (Some s) k)"
    using uint8_swap_with_alloc_defined[OF assms(2), of M]
    by (simp add: ba_alloc_from_uint8_be_def def_simps)
  show "defined (ba_from_uint8 M (Some s) k (Some a))"
    using assms(2) by (auto simp: ba_from_uint8_def def_simps rd_Inr)
qed (rule ba_alloc_from_uint8_defined[OF assms(2)] ba_to_uint8_defined[OF assms])+

lemma words_conversions_defined:
  "n \<le> length i \<Longrightarrow> m \<le> length ws \<Longrightarrow> defined (uint8_to_uint64 be (Some i) n (Some ws) m)"
  "n \<le> length i \<Longrightarrow> m \<le> length vs \<Longrightarrow> defined (uint8_to_uint32 be (Some i) n (Some vs) m)"
  "m \<le> length ws \<Longrightarrow> n \<le> length b \<Longrightarrow> defined (uint64_to_uint8 be (Some ws) m (Some b) n)"
  "m \<le> length vs \<Longrightarrow> n \<le> length b \<Longrightarrow> defined (uint32_to_uint8 be (Some vs) m (Some b) n)"
proof -
  show "n \<le> length i \<Longrightarrow> m \<le> length ws \<Longrightarrow> defined (uint8_to_uint64 be (Some i) n (Some ws) m)"
    using uint8_to_uint64_eq[of n i m ws be]
    by (cases "0 < n \<and> n \<le> 8 * m") (auto simp: uint8_to_uint64_def CHECK_PARAM_def mult.commute)
  show "n \<le> length i \<Longrightarrow> m \<le> length vs \<Longrightarrow> defined (uint8_to_uint32 be (Some i) n (Some vs) m)"
    using uint8_to_uint32_eq[of n i m vs be]
    by (cases "0 < n \<and> n \<le> 4 * m") (auto simp: uint8_to_uint32_def CHECK_PARAM_def mult.commute)
  show "m \<le> length ws \<Longrightarrow> n \<le> length b \<Longrightarrow> defined (uint64_to_uint8 be (Some ws) m (Some b) n)"
    using uint64_to_uint8_eq[of m ws n b be]
    by (cases "0 < m \<and> 8 * m \<le> n") (auto simp: uint64_to_uint8_def CHECK_PARAM_def mult.commute)
  show "m \<le> length vs \<Longrightarrow> n \<le> length b \<Longrightarrow> defined (uint32_to_uint8 be (Some vs) m (Some b) n)"
    using uint32_to_uint8_eq[of m vs n b be]
    by (cases "0 < m \<and> 4 * m \<le> n") (auto simp: uint32_to_uint8_def CHECK_PARAM_def mult.commute)
qed

lemma ba_to_words_defined:
  assumes "wf_ba a"
  shows "defined (ba_to_uint64_with_alloc M (Some a))"
    "m \<le> length ws \<Longrightarrow> defined (ba_to_uint64 M (Some a) (Some ws) m)"
    "m \<le> length vs \<Longrightarrow> defined (ba_to_uint32 M (Some a) (Some vs) m)"
proof -
  have n: "uint8_to_uint64 be None k b j = Inl RET_INVALID_PARAM" "uint8_to_uint32 be None k c j = Inl RET_INVALID_PARAM" for be k b c j
    by (simp_all add: uint8_to_uint64_def uint8_to_uint32_def)
  show "defined (ba_to_uint64_with_alloc M (Some a))"
    using assms words_conversions_defined(1)[of "ba_len a" "data a" "(ba_len a + 8 - 1) div 8" "replicate ((ba_len a + 8 - 1) div 8) 0"]
    by (cases a rule: wf_ba_cases) (auto simp: ba_to_uint64_with_alloc_def def_simps n Let_def MALLOC_CHECKED_def split: if_splits)
  show "m \<le> length ws \<Longrightarrow> defined (ba_to_uint64 M (Some a) (Some ws) m)"
    using assms words_conversions_defined(1)[of "ba_len a" "data a" m ws "big_endian M"]
    by (cases a rule: wf_ba_cases) (auto simp: ba_to_uint64_def CHECK_PARAM_def n)
  show "m \<le> length vs \<Longrightarrow> defined (ba_to_uint32 M (Some a) (Some vs) m)"
    using assms words_conversions_defined(2)[of "ba_len a" "data a" m vs "big_endian M"]
    by (cases a rule: wf_ba_cases) (auto simp: ba_to_uint32_def n)
qed

lemma sz_mul_div_le: "sz_mul n k div k \<le> n"
proof -
  have "sz_mul n k div k \<le> n * k div k" unfolding sz_mul_def by (intro div_le_mono mod_less_eq_dividend)
  then show ?thesis by (cases "k = 0") simp_all
qed

lemma ba_from_words_defined:
  "m \<le> length ws \<Longrightarrow> defined (ba_alloc_from_uint64 M (Some ws) m)"
  "m \<le> length vs \<Longrightarrow> defined (ba_alloc_from_uint32 M (Some vs) m)"
  "m \<le> length ws \<Longrightarrow> defined (fst (ba_from_uint64 M (Some ws) m (Some a)))"
  "m \<le> length vs \<Longrightarrow> defined (fst (ba_from_uint32 M (Some vs) m (Some a)))"
proof -
  show "m \<le> length ws \<Longrightarrow> defined (ba_alloc_from_uint64 M (Some ws) m)"
    using words_conversions_defined(3)[of m ws "m * 8" "fresh M (m * 8)" "big_endian M"]
    by (simp add: ba_alloc_from_uint64_def def_simps)
  show "m \<le> length vs \<Longrightarrow> defined (ba_alloc_from_uint32 M (Some vs) m)"
    using words_conversions_defined(4)[of m vs "m * 4" "fresh M (m * 4)" "big_endian M"]
    by (simp add: ba_alloc_from_uint32_def def_simps)
  have r: "REALLOC_CHECKED M p n Inr \<noteq> Inl UNDEFINED" for p n by (simp add: REALLOC_CHECKED_def)
  show "m \<le> length ws \<Longrightarrow> defined (fst (ba_from_uint64 M (Some ws) m (Some a)))"
    using words_conversions_defined(3)[of "sz_mul m 8 div 8" ws "sz_mul m 8" _ "big_endian M"] sz_mul_div_le[of m 8] r
    by (auto simp: ba_from_uint64_def Let_def split: sum.splits dest!: REALLOC_Inr)
  show "m \<le> length vs \<Longrightarrow> defined (fst (ba_from_uint32 M (Some vs) m (Some a)))"
    using words_conversions_defined(4)[of "sz_mul m 4 div 4" vs "sz_mul m 4" _ "big_endian M"] sz_mul_div_le[of m 4] r
    by (auto simp: ba_from_uint32_def Let_def split: sum.splits dest!: REALLOC_Inr)
qed

text \<open>(C2) Memory safety of the operations on byte arrays. On well-formed arrays, with offsets and lengths whose
  sums do not wrap around, a start inside the source, caller's buffers as long as the caller says and strings that
  end in a zero byte, every operation of the interface is defined for every allocator, with three exceptions: \<^verbatim>\<open>ba_truncate\<close> is defined only
  for a bit length inside the array, \<^verbatim>\<open>ba_trim_leading_zeros\<close> only for a non-empty array or a null buffer, and
  \<^verbatim>\<open>ba_trim_leading_zeros_le\<close> only for a non-empty array; outside these they touch memory outside the array.
  (The conversions from and to text are not among the operations here.)\<close>

theorem ba_ops_defined:
  assumes "wf_ba a" and "wf_ba b" and "off + l < SIZE_MOD" and "off \<le> ba_len a"
    and "off' + ba_len a < SIZE_MOD" and "off' + l < SIZE_MOD" and "ba_len a + ba_len b < SIZE_MOD"
    and "ba_len b + l < SIZE_MOD" and "k \<le> length s" and "m \<le> length ws" and "m \<le> length vs"
  shows "defined (ba_copy_with_alloc M (Some a) off l) \<and> defined (ba_join M (Some a) (Some b))
    \<and> defined (ba_swap (Some a)) \<and> defined (ba_xor (Some a) (Some b)) \<and> defined (ba_set (Some a) v)
    \<and> defined (ba_set_byte (Some a) i v) \<and> defined (ba_get_byte (Some a) i)
    \<and> defined (ba_copy (Some a) off l (Some b) off') \<and> defined (ba_append M (Some a) off l (Some b))
    \<and> defined (ba_change_len M (Some a) n) \<and> defined (ba_cmp (Some a) (Some b))
    \<and> defined (ba_is_zero (Some a)) \<and> defined (ba_to_uint8_with_alloc M (Some a))
    \<and> defined (ba_free_private (Some a)) \<and> defined (ba_to_str_with_alloc M (Some a) off l)
    \<and> defined (ba_alloc M) \<and> defined (ba_alloc_by_len M n) \<and> (0 \<in> set s \<longrightarrow> defined (ba_alloc_from_str M (Some s)))
    \<and> defined (ba_alloc_from_uint8 M (Some s) k) \<and> defined (ba_alloc_from_uint8_be M (Some s) k)
    \<and> defined (ba_from_uint8 M (Some s) k (Some a)) \<and> defined (ba_to_uint8 (Some a) (Some s) k)
    \<and> defined (ba_alloc_from_uint64 M (Some ws) m) \<and> defined (ba_alloc_from_uint32 M (Some vs) m)
    \<and> defined (fst (ba_from_uint64 M (Some ws) m (Some a))) \<and> defined (fst (ba_from_uint32 M (Some vs) m (Some a)))
    \<and> defined (ba_to_uint64_with_alloc M (Some a)) \<and> defined (ba_to_uint64 M (Some a) (Some ws) m)
    \<and> defined (ba_to_uint32 M (Some a) (Some vs) m)
    \<and> (defined (ba_truncate (Some a) n) \<longleftrightarrow> n < 8 * ba_len a)
    \<and> (defined (ba_trim_leading_zeros M (Some a)) \<longleftrightarrow> ba_buf a = None \<or> ba_len a \<noteq> 0)
    \<and> (defined (ba_trim_leading_zeros_le M (Some a)) \<longleftrightarrow> ba_len a \<noteq> 0)"
proof -
  have "defined (ba_is_zero (Some a))" "defined (ba_to_uint8_with_alloc M (Some a))"
       "defined (ba_free_private (Some a))"
    using assms(1)
    by (auto simp: ba_is_zero_def ba_to_uint8_with_alloc_def ba_free_private_def secure_zero_def def_simps
        rd_Inr data_def split: option.splits elim: wf_ba_cases)
  moreover have "defined (ba_alloc_from_str M (Some s))" if "0 \<in> set s"
  proof -
    have "strlen s \<le> length s" unfolding strlen_def by (rule length_takeWhile_le)
    then show ?thesis using ba_alloc_from_uint8_defined[of "strlen s" s M] by (simp add: ba_alloc_from_str_def def_simps)
  qed
  moreover have "defined (ba_to_str_with_alloc M (Some a) off l)"
    using assms(1,3,4) by (auto simp: ba_to_str_with_alloc_def Let_def def_simps rd_Inr)
  moreover have "defined (ba_alloc M)" by (simp add: ba_alloc_def def_simps)
  ultimately show ?thesis
    using assms ba_trim_defined[OF assms(1), of M] ba_truncate_defined[OF assms(1), of n] ba_bytes_defined[OF assms(1,9)]
      ba_to_words_defined[OF assms(1)] ba_from_words_defined[of m]
    by (simp add: ba_copy_with_alloc_defined ba_join_defined ba_swap_defined ba_xor_defined ba_set_defined
        ba_byte_defined ba_copy_defined ba_append_defined ba_change_len_defined ba_cmp_defined ba_alloc_by_len_defined)
qed

lemma ba_ops_defined_witness:
  "defined (ba_append ideal_mem (Some (mk_ba [1, 2, 3])) 1 2 (Some (mk_ba [4, 5])))
   \<and> defined (ba_copy (Some (mk_ba [1, 2, 3])) 1 2 (Some (mk_ba [4, 5])) 0)
   \<and> \<not> defined (ba_truncate (Some (mk_ba [1, 2, 3])) 24)"
  using ba_ops_defined[of "mk_ba [1, 2, 3]" "mk_ba [4, 5]" 1 2 0 0 "[]" 0 "[]" "[]" ideal_mem 0 0 24]
  by (simp add: SIZE_MOD_def)

text \<open>Words and bytes: \<^verbatim>\<open>ba_to_uint64_with_alloc\<close> yields, on hosts of either byte order,
  the words of the number in the array, and \<^verbatim>\<open>ba_alloc_from_uint64\<close> of them is the array
  again, padded with zeros to whole words.\<close>

theorem ba_uint64_roundtrip:
  assumes "mem_ok M" and "wf_ba a" and "ba_len a > 0"
  shows "\<exists>ws m. ba_to_uint64_with_alloc M (Some a) = Inr (ws, m) \<and> length ws = m
     \<and> m = (ba_len a + 7) div 8 \<and> word_val ws = word_val (data a)
     \<and> ba_alloc_from_uint64 M (Some ws) m = Inr (Some (mk_ba (data a @ replicate (8 * m - ba_len a) 0)))"
proof -
  define m where "m = (ba_len a + 7) div 8"
  define bs where "bs = data a @ replicate (8 * m - ba_len a) 0"
  define ws :: "u64 list" where "ws = load_words False bs"
  have le: "ba_len a \<le> 8 * m" and m: "0 < m" using assms(3) by (simp_all add: m_def)
  have len: "length bs = 8 * m" using assms(2) le by (simp add: bs_def)
  have "length ws = m" by (simp add: ws_def len)
  moreover have "word_val ws = word_val (data a)"
    using word_val_load_words[of bs, where 'a=64] len by (simp add: ws_def bs_def word_val_append)
  moreover have "store_words False ws = bs"
    using store_load_words[of bs False, where 'a=64] len by (simp add: ws_def)
  ultimately show ?thesis
    using ba_to_uint64_with_alloc_eq[OF assms(1,3,2), folded m_def, folded bs_def, folded ws_def]
      ba_alloc_from_uint64_eq[OF assms(1) m, of ws]
    by (auto simp: m_def bs_def)
qed

lemma ba_uint64_roundtrip_witness:
  "\<exists>ws m. ba_to_uint64_with_alloc (ideal_mem\<lparr>big_endian := True\<rparr>) (Some (mk_ba [1, 2])) = Inr (ws, m)
     \<and> word_val ws = 0x201"
proof -
  have "mem_ok (ideal_mem\<lparr>big_endian := True\<rparr>)" by (simp add: mem_ok_def ideal_mem_def)
  then show ?thesis
    using ba_uint64_roundtrip[of "ideal_mem\<lparr>big_endian := True\<rparr>" "mk_ba [1, 2]"] by auto
qed

text \<open>(C5) \<^verbatim>\<open>ba_cmp\<close> reports equality exactly for equal contents, except that it also does
  for arrays whose lengths differ by a multiple of \<open>2 ^ 32\<close>, because the difference of
  the lengths is cut to an \<^verbatim>\<open>int\<close>.\<close>

theorem ba_cmp_zero_iff:
  assumes "wf_ba a" and "wf_ba b"
  shows "ba_cmp (Some a) (Some b) = Inr 0 \<longleftrightarrow>
     (if ba_len a = ba_len b then data a = data b else ba_len a mod 2 ^ 32 = ba_len b mod 2 ^ 32)"
proof -
  have "int_of_size x y = 0 \<longleftrightarrow> x mod 2 ^ 32 = y mod 2 ^ 32" for x y
  proof -
    have "int_of_size x y = 0 \<longleftrightarrow> (of_nat x :: u32) = of_nat y"
      by (simp add: int_of_size_def signed_eq_0_iff)
    also have "\<dots> \<longleftrightarrow> unat (of_nat x :: u32) = unat (of_nat y :: u32)" by (rule word_unat_eq_iff)
    also have "\<dots> \<longleftrightarrow> x mod 2 ^ 32 = y mod 2 ^ 32" by (simp only: unat_of_nat) simp
    finally show ?thesis .
  qed
  then show ?thesis
    using assms by (simp add: ba_cmp_def memcmp_0_iff)
qed

lemma ba_cmp_zero_iff_witness: "ba_cmp (Some (mk_ba [1, 2])) (Some (mk_ba [1, 3])) \<noteq> Inr 0"
  using ba_cmp_zero_iff[of "mk_ba [1, 2]" "mk_ba [1, 3]"] by simp

end
