(* ===== verification/Encoding.thy ===== *)
theory Encoding
  imports ByteArray
begin

text \<open>
  The text encodings of \<^verbatim>\<open>uapkic/src/byte-array.c\<close>: hexadecimal and base64, both ways.
  Strings are byte buffers with a terminating zero. Where an error return leaves the
  caller's array or buffer changed, the result is a pair of the code and the object.
\<close>

definition ascii :: "string \<Rightarrow> u8 list" where
  "ascii s = map of_char s"

definition c_string :: "string \<Rightarrow> u8 list" where
  "c_string s = ascii s @ [0]"

subsection \<open>Hexadecimal\<close>

definition hexmap :: "u16 list" where
  "hexmap = [
     0x100, 0x100, 0x100, 0x100, 0x100, 0x100, 0x100, 0x100,
     0x100, 0x100, 0x100, 0x100, 0x100, 0x100, 0x100, 0x100,
     0x100, 0x100, 0x100, 0x100, 0x100, 0x100, 0x100, 0x100,
     0x100, 0x100, 0x100, 0x100, 0x100, 0x100, 0x100, 0x100,
     0x100, 0x100, 0x100, 0x100, 0x100, 0x100, 0x100, 0x100,
     0x100, 0x100, 0x100, 0x100, 0x100, 0x100, 0x100, 0x100,
     0x000, 0x001, 0x002, 0x003, 0x004, 0x005, 0x006, 0x007,
     0x008, 0x009, 0x100, 0x100, 0x100, 0x100, 0x100, 0x100,
     0x100, 0x00a, 0x00b, 0x00c, 0x00d, 0x00e, 0x00f, 0x100,
     0x100, 0x100, 0x100, 0x100, 0x100, 0x100, 0x100, 0x100,
     0x100, 0x100, 0x100, 0x100, 0x100, 0x100, 0x100, 0x100,
     0x100, 0x100, 0x100, 0x100, 0x100, 0x100, 0x100, 0x100,
     0x100, 0x00a, 0x00b, 0x00c, 0x00d, 0x00e, 0x00f, 0x100,
     0x100, 0x100, 0x100, 0x100, 0x100, 0x100, 0x100, 0x100,
     0x100, 0x100, 0x100, 0x100, 0x100, 0x100, 0x100, 0x100,
     0x100, 0x100, 0x100, 0x100, 0x100, 0x100, 0x100, 0x100,
     0x100, 0x100, 0x100, 0x100, 0x100, 0x100, 0x100, 0x100,
     0x100, 0x100, 0x100, 0x100, 0x100, 0x100, 0x100, 0x100,
     0x100, 0x100, 0x100, 0x100, 0x100, 0x100, 0x100, 0x100,
     0x100, 0x100, 0x100, 0x100, 0x100, 0x100, 0x100, 0x100,
     0x100, 0x100, 0x100, 0x100, 0x100, 0x100, 0x100, 0x100,
     0x100, 0x100, 0x100, 0x100, 0x100, 0x100, 0x100, 0x100,
     0x100, 0x100, 0x100, 0x100, 0x100, 0x100, 0x100, 0x100,
     0x100, 0x100, 0x100, 0x100, 0x100, 0x100, 0x100, 0x100,
     0x100, 0x100, 0x100, 0x100, 0x100, 0x100, 0x100, 0x100,
     0x100, 0x100, 0x100, 0x100, 0x100, 0x100, 0x100, 0x100,
     0x100, 0x100, 0x100, 0x100, 0x100, 0x100, 0x100, 0x100,
     0x100, 0x100, 0x100, 0x100, 0x100, 0x100, 0x100, 0x100,
     0x100, 0x100, 0x100, 0x100, 0x100, 0x100, 0x100, 0x100,
     0x100, 0x100, 0x100, 0x100, 0x100, 0x100, 0x100, 0x100,
     0x100, 0x100, 0x100, 0x100, 0x100, 0x100, 0x100, 0x100,
     0x100, 0x100, 0x100, 0x100, 0x100, 0x100, 0x100, 0x100]"

definition hex_symbols :: "u8 list" where
  "hex_symbols = ascii ''0123456789ABCDEF''"

text \<open>The loop of \<^verbatim>\<open>uint8_from_hex\<close>, from byte \<open>i\<close> on with \<open>n\<close> bytes to go.\<close>

fun from_hex_loop :: "u8 list \<Rightarrow> nat \<Rightarrow> nat \<Rightarrow> u8 list \<Rightarrow> unit res \<times> u8 list" where
  "from_hex_loop hex i 0 buf = (Inr (), buf)"
| "from_hex_loop hex i (Suc n) buf =
     (case rd hex (i * 2) 2 of Inl e \<Rightarrow> (Inl e, buf)
      | Inr cs \<Rightarrow>
          let val = push_bit 4 (hexmap ! unat (cs ! 0)) OR hexmap ! unat (cs ! 1)
          in if val > 0xFF then (Inl RET_INVALID_HEX_STRING, buf)
             else (case wr buf i [ucast val] of Inl e \<Rightarrow> (Inl e, buf)
                   | Inr buf' \<Rightarrow> from_hex_loop hex (Suc i) n buf'))"

definition uint8_from_hex :: "u8 list \<Rightarrow> nat \<Rightarrow> u8 list \<Rightarrow> unit res \<times> u8 list" where
  "uint8_from_hex hex hexlen buf = from_hex_loop hex 0 (hexlen div 2) buf"

definition ba_alloc_from_hex :: "mem \<Rightarrow> u8 list \<Rightarrow> ByteArray option res" where
  "ba_alloc_from_hex M hex = to_ptr (
     let l = strlen hex
     in if l AND 1 \<noteq> 0 then SET_ERROR RET_INVALID_HEX_STRING
        else CHECK_NOT_NULL (ba_alloc_by_len M (l div 2)) (\<lambda>ba.
          case uint8_from_hex hex l (data ba) of (r, b) \<Rightarrow> DO r (\<lambda>_. Inr (set_data ba b))))"

definition ba_from_hex ::
    "mem \<Rightarrow> u8 list option \<Rightarrow> ByteArray option \<Rightarrow> unit res \<times> ByteArray option" where
  "ba_from_hex M hex ba = (case (hex, ba) of
       (Some h, Some a) \<Rightarrow>
         let l = strlen h
         in if l AND 1 \<noteq> 0 then (Inl RET_INVALID_HEX_STRING, ba)
            else (case REALLOC_CHECKED M (ba_buf a) (l div 2) Inr of
                    Inl e \<Rightarrow> (Inl e, ba)
                  | Inr d \<Rightarrow> (case uint8_from_hex h l d of
                      (r, b) \<Rightarrow> (r, Some \<lparr>ba_buf = Some b, ba_len = l div 2\<rparr>)))
     | _ \<Rightarrow> (Inl RET_INVALID_PARAM, ba))"

fun to_hex_loop :: "u8 list \<Rightarrow> u8 list" where
  "to_hex_loop [] = []"
| "to_hex_loop (b # bs) =
     hex_symbols ! unat (drop_bit 4 b) # hex_symbols ! unat (b AND 0x0F) # to_hex_loop bs"

definition ba_to_hex_with_alloc :: "mem \<Rightarrow> ByteArray option \<Rightarrow> u8 list res" where
  "ba_to_hex_with_alloc M ba = NOT_NULL ba (\<lambda>a.
     MALLOC_CHECKED M (ba_len a * 2 + 1) (\<lambda>buf. DO (rd (data a) 0 (ba_len a)) (\<lambda>bin.
     wr buf 0 (to_hex_loop bin @ [0]))))"

text \<open>The third component is the new value of \<^verbatim>\<open>*buf_len\<close>.\<close>

definition ba_to_hex ::
    "ByteArray option \<Rightarrow> u8 list option \<Rightarrow> nat \<Rightarrow> unit res \<times> u8 list option \<times> nat" where
  "ba_to_hex ba buf buf_len = (case (ba, buf) of
       (Some a, Some b) \<Rightarrow>
         if buf_len < ba_len a * 2 + 1
         then (Inl RET_DATA_TOO_LONG, buf, ba_len a * 2 + 1)
         else (case DO (rd (data a) 0 (ba_len a)) (\<lambda>bin. wr b 0 (to_hex_loop bin @ [0])) of
                 Inl e \<Rightarrow> (Inl e, buf, buf_len)
               | Inr b' \<Rightarrow> (Inr (), Some b', ba_len a * 2 + 1))
     | _ \<Rightarrow> (Inl RET_INVALID_PARAM, buf, buf_len))"

subsection \<open>Base64\<close>

definition base64_codes :: "u8 list" where
  "base64_codes = ascii ''ABCDEFGHIJKLMNOPQRSTUVWXYZabcdefghijklmnopqrstuvwxyz0123456789+/''"

definition base64map :: "u8 list" where
  "base64map = [
     255, 255, 255, 255, 255, 255, 255, 255, 255, 255, 255, 255,
     255, 255, 255, 255, 255, 255, 255, 255, 255, 255, 255, 255,
     255, 255, 255, 255, 255, 255, 255, 255, 255, 255, 255, 255,
     255, 255, 255, 255, 255, 255, 255, 62, 255, 255, 255, 63,
     52, 53, 54, 55, 56, 57, 58, 59, 60, 61, 255, 255,
     255, 254, 255, 255, 255, 0, 1, 2, 3, 4, 5, 6,
     7, 8, 9, 10, 11, 12, 13, 14, 15, 16, 17, 18,
     19, 20, 21, 22, 23, 24, 25, 255, 255, 255, 255, 255,
     255, 26, 27, 28, 29, 30, 31, 32, 33, 34, 35, 36,
     37, 38, 39, 40, 41, 42, 43, 44, 45, 46, 47, 48,
     49, 50, 51, 255, 255, 255, 255, 255, 255, 255, 255, 255,
     255, 255, 255, 255, 255, 255, 255, 255, 255, 255, 255, 255,
     255, 255, 255, 255, 255, 255, 255, 255, 255, 255, 255, 255,
     255, 255, 255, 255, 255, 255, 255, 255, 255, 255, 255, 255,
     255, 255, 255, 255, 255, 255, 255, 255, 255, 255, 255, 255,
     255, 255, 255, 255, 255, 255, 255, 255, 255, 255, 255, 255,
     255, 255, 255, 255, 255, 255, 255, 255, 255, 255, 255, 255,
     255, 255, 255, 255, 255, 255, 255, 255, 255, 255, 255, 255,
     255, 255, 255, 255, 255, 255, 255, 255, 255, 255, 255, 255,
     255, 255, 255, 255, 255, 255, 255, 255, 255, 255, 255, 255,
     255, 255, 255, 255, 255, 255, 255, 255, 255, 255, 255, 255,
     255, 255, 255, 255]"

text \<open>
  The characters \<^verbatim>\<open>base64_encode\<close> produces: the loop over groups of three bytes, then
  the one or two bytes left. All intermediate values fit eight bits.
\<close>

fun base64_groups :: "u8 list \<Rightarrow> u8 list" where
  "base64_groups (a # b # c # xs) =
     base64_codes ! unat (drop_bit 2 a AND 0x3F)
     # base64_codes ! unat ((push_bit 4 (a AND 3) + drop_bit 4 b) AND 0x3F)
     # base64_codes ! unat ((push_bit 2 (b AND 0xF) + drop_bit 6 c) AND 0x3F)
     # base64_codes ! unat (c AND 0x3F)
     # base64_groups xs"
| "base64_groups [a, b] =
     [base64_codes ! unat (drop_bit 2 a AND 0x3F),
      base64_codes ! unat ((push_bit 4 (a AND 3) + drop_bit 4 b) AND 0x3F),
      base64_codes ! unat (push_bit 2 (b AND 0xF) AND 0x3F),
      of_char (CHR ''='')]"
| "base64_groups [a] =
     [base64_codes ! unat (drop_bit 2 a AND 0x3F),
      base64_codes ! unat ((push_bit 4 (a AND 3) + drop_bit 4 0) AND 0x3F),
      of_char (CHR ''=''),
      of_char (CHR ''='')]"
| "base64_groups [] = []"

definition base64_encode ::
    "u8 list \<Rightarrow> nat \<Rightarrow> u8 list \<Rightarrow> nat \<Rightarrow> unit res \<times> u8 list \<times> nat" where
  "base64_encode inp inlen out outlen =
     (let len2 = 4 * ((inlen + 2) div 3)
      in if outlen < len2 + 1 then (Inl RET_DATA_TOO_LONG, out, len2 + 1)
         else (case DO (rd inp 0 inlen) (\<lambda>src. wr out 0 (base64_groups src @ [0])) of
                 Inl e \<Rightarrow> (Inl e, out, outlen)
               | Inr out' \<Rightarrow> (Inr (), out', len2 + 1)))"

definition ba_to_base64 ::
    "ByteArray option \<Rightarrow> u8 list option \<Rightarrow> nat \<Rightarrow> unit res \<times> u8 list option \<times> nat" where
  "ba_to_base64 ba buf buflen = (case (ba, buf) of
       (Some a, Some b) \<Rightarrow> (case base64_encode (data a) (ba_len a) b buflen of
           (r, b', l) \<Rightarrow> (r, Some b', l))
     | _ \<Rightarrow> (Inl RET_INVALID_PARAM, buf, buflen))"

definition ba_to_base64_with_alloc :: "mem \<Rightarrow> ByteArray option \<Rightarrow> u8 list res" where
  "ba_to_base64_with_alloc M ba = NOT_NULL ba (\<lambda>a.
     let buf_len = 4 * ((ba_len a + 2) div 3) + 1
     in MALLOC_CHECKED M buf_len (\<lambda>b.
        case base64_encode (data a) (ba_len a) b buf_len of (r, b', _) \<Rightarrow> DO r (\<lambda>_. Inr b')))"

text \<open>
  The loop of \<^verbatim>\<open>base64_decode\<close>: \<open>t\<close> collects 24 bits from \<open>y\<close> characters, \<open>z\<close> bytes
  are written, \<open>g\<close> counts down from 3 with every \<^verbatim>\<open>=\<close>. Characters outside the alphabet
  are skipped. The result is the code, with the number of bytes written, and the buffer.
\<close>

definition base64_bytes :: "u64 \<Rightarrow> nat \<Rightarrow> u8 list" where
  "base64_bytes t g = ucast (drop_bit 16 t)
     # (if g > 1 then [ucast (drop_bit 8 t)] else [])
     @ (if g > 2 then [ucast t] else [])"

primrec base64_dec_loop ::
    "u8 list \<Rightarrow> u64 \<Rightarrow> nat \<Rightarrow> nat \<Rightarrow> nat \<Rightarrow> u8 list \<Rightarrow> nat \<Rightarrow> nat res \<times> u8 list" where
  "base64_dec_loop [] t y z g out outlen =
     (if y \<noteq> 0 then (Inl RET_INVALID_BASE64_STRING, out) else (Inr z, out))"
| "base64_dec_loop (ch # cs) t y z g out outlen =
     (let c = base64map ! unat ch in
      if c = 255 then base64_dec_loop cs t y z g out outlen
      else if c = 254 \<and> g = 0 then (Inl RET_INVALID_BASE64_STRING, out)
      else if c \<noteq> 254 \<and> g \<noteq> 3 then (Inl RET_INVALID_BASE64_STRING, out)
      else
        let g = (if c = 254 then g - 1 else g);
            c = (if c = 254 then 0 else c);
            t = push_bit 6 t OR ucast c
        in if y + 1 = 4
           then (if z + g > outlen then (Inl RET_DATA_TOO_LONG, out)
                 else case wr out z (base64_bytes t g) of Inl e \<Rightarrow> (Inl e, out)
                      | Inr out' \<Rightarrow>
                          base64_dec_loop cs 0 0 (z + length (base64_bytes t g)) g out' outlen)
           else base64_dec_loop cs t (y + 1) z g out outlen)"

definition base64_decode :: "u8 list \<Rightarrow> nat \<Rightarrow> u8 list \<Rightarrow> nat \<Rightarrow> nat res \<times> u8 list" where
  "base64_decode inp inlen out outlen =
     (case rd inp 0 inlen of Inl e \<Rightarrow> (Inl e, out)
      | Inr cs \<Rightarrow> base64_dec_loop cs 0 0 0 3 out outlen)"

definition ba_alloc_from_base64 :: "mem \<Rightarrow> u8 list \<Rightarrow> ByteArray option res" where
  "ba_alloc_from_base64 M str = to_ptr (
     let l = (strlen str * 3) div 4
     in CHECK_NOT_NULL (ba_alloc_by_len M l) (\<lambda>ba.
        case base64_decode str (strlen str) (data ba) l of (r, b) \<Rightarrow> DO r (\<lambda>z.
          let ba = set_data ba b
          in if z > 0 then ba_change_len M (Some ba) z else Inr ba)))"

definition ba_from_base64 ::
    "mem \<Rightarrow> u8 list option \<Rightarrow> ByteArray option \<Rightarrow> unit res \<times> ByteArray option" where
  "ba_from_base64 M str ba = (case (str, ba) of
       (Some s, Some a) \<Rightarrow>
         let l = (strlen s * 3) div 4
         in (case REALLOC_CHECKED M (ba_buf a) l Inr of
               Inl e \<Rightarrow> (Inl e, ba)
             | Inr d \<Rightarrow>
                 (case base64_decode s (strlen s) d l of
                    (Inl e, b) \<Rightarrow> (Inl e, Some \<lparr>ba_buf = Some b, ba_len = l\<rparr>)
                  | (Inr z, b) \<Rightarrow>
                      (case ba_change_len M (Some \<lparr>ba_buf = Some b, ba_len = l\<rparr>) z of
                         Inl e \<Rightarrow> (Inl e, Some \<lparr>ba_buf = Some b, ba_len = l\<rparr>)
                       | Inr a' \<Rightarrow> (Inr (), Some a'))))
     | _ \<Rightarrow> (Inl RET_INVALID_PARAM, ba))"

subsection \<open>What hexadecimal strings mean\<close>

definition hex_digit :: "u8 \<Rightarrow> nat option" where
  "hex_digit c =
     (if 48 \<le> c \<and> c \<le> 57 then Some (unat c - 48)
      else if 65 \<le> c \<and> c \<le> 70 then Some (unat c - 55)
      else if 97 \<le> c \<and> c \<le> 102 then Some (unat c - 87)
      else None)"

fun hex_decode :: "u8 list \<Rightarrow> u8 list option" where
  "hex_decode (a # b # cs) = (case (hex_digit a, hex_digit b, hex_decode cs) of
       (Some h, Some l, Some bs) \<Rightarrow> Some (of_nat (16 * h + l) # bs)
     | _ \<Rightarrow> None)"
| "hex_decode [] = Some []"
| "hex_decode [x] = None"

lemma all_bytes: "list_all P (map of_nat [0..<256]) \<Longrightarrow> P (b :: u8)"
proof -
  assume a: "list_all P (map of_nat [0..<256])"
  have "unat b < 256" using unsigned_less[of b] by simp
  then have "of_nat (unat b) \<in> set (map of_nat [0..<256] :: u8 list)"
    unfolding set_map by (intro imageI) simp
  with a have "P (of_nat (unat b))" unfolding list_all_iff by blast
  then show "P b" by simp
qed

lemma hexmap_digit: "hexmap ! unat c = (case hex_digit c of None \<Rightarrow> 0x100 | Some v \<Rightarrow> of_nat v)"
  by (rule all_bytes) code_simp

lemma hex_digit_less: "hex_digit c = Some v \<Longrightarrow> v < 16"
  by (auto simp: hex_digit_def word_le_nat_alt split: if_splits)

lemma hex_symbols_digit: "k < 16 \<Longrightarrow> hex_digit (hex_symbols ! k) = Some k"
proof -
  have "list_all (\<lambda>k. hex_digit (hex_symbols ! k) = Some k) [0..<16]" by code_simp
  then show "k < 16 \<Longrightarrow> ?thesis" by (auto simp: list_all_iff)
qed

lemma hex_pair:
  "(let val = push_bit 4 (hexmap ! unat a) OR hexmap ! unat b in
    if val > 0xFF then None else Some (ucast val :: u8))
   = (case (hex_digit a, hex_digit b) of (Some h, Some l) \<Rightarrow> Some (of_nat (16 * h + l)) | _ \<Rightarrow> None)"
proof -
  have ev: "list_all (\<lambda>h. list_all (\<lambda>l.
      (let val = push_bit 4 (case h of None \<Rightarrow> 0x100 | Some v \<Rightarrow> of_nat v)
          OR (case l of None \<Rightarrow> 0x100 | Some v \<Rightarrow> of_nat v) :: u16 in
       if val > 0xFF then None else Some (ucast val :: u8))
      = (case (h, l) of (Some h, Some l) \<Rightarrow> Some (of_nat (16 * h + l)) | _ \<Rightarrow> None))
      (None # map Some [0..<16])) (None # map Some [0..<16])"
    by code_simp
  have m: "hex_digit c \<in> set (None # map Some [0..<16])" for c
    using hex_digit_less[of c] by (cases "hex_digit c") auto
  from ev m[of a] m[of b] show ?thesis
    unfolding hexmap_digit list_all_iff by blast
qed

lemma from_hex_loop_spec:
  assumes "length hex = 2 * n" and "length rest = n" and "length ps = i" and "length pre = 2 * i"
  shows "(\<forall>bs. hex_decode hex = Some bs \<longrightarrow> from_hex_loop (pre @ hex @ z) i n (ps @ rest) = (Inr (), ps @ bs))
     \<and> (hex_decode hex = None \<longrightarrow>
          fst (from_hex_loop (pre @ hex @ z) i n (ps @ rest)) = Inl RET_INVALID_HEX_STRING)"
  using assms
proof (induction n arbitrary: hex rest ps pre i)
  case 0
  then show ?case by simp
next
  case (Suc n)
  then obtain a b hex' r rest' where hex: "hex = a # b # hex'" and rest: "rest = r # rest'"
    by (auto simp: length_Suc_conv)
  have rd2: "rd (pre @ hex @ z) (i * 2) 2 = Inr [a, b]"
    using Suc.prems by (simp add: hex)
  define val where "val = push_bit 4 (hexmap ! unat a) OR hexmap ! unat b"
  have pair: "(if val > 0xFF then None else Some (ucast val :: u8))
      = (case (hex_digit a, hex_digit b) of (Some h, Some l) \<Rightarrow> Some (of_nat (16 * h + l)) | _ \<Rightarrow> None)"
    using hex_pair[of a b] unfolding val_def Let_def .
  show ?case
  proof (cases "val > 0xFF")
    case True
    then have "hex_decode hex = None"
      using pair by (auto simp: hex split: option.splits)
    moreover have "fst (from_hex_loop (pre @ hex @ z) i (Suc n) (ps @ rest)) = Inl RET_INVALID_HEX_STRING"
      using True rd2 by (simp add: val_def Let_def)
    ultimately show ?thesis by simp
  next
    case False
    then obtain h l where hl: "hex_digit a = Some h" "hex_digit b = Some l"
        and v: "(ucast val :: u8) = of_nat (16 * h + l)"
      using pair by (auto split: option.splits)
    have "from_hex_loop (pre @ hex @ z) i (Suc n) (ps @ rest)
        = from_hex_loop ((pre @ [a, b]) @ hex' @ z) (Suc i) n ((ps @ [of_nat (16 * h + l)]) @ rest')"
      using False rd2 Suc.prems v by (simp add: val_def Let_def rest hex)
    moreover have "(\<forall>bs. hex_decode hex' = Some bs \<longrightarrow>
          from_hex_loop ((pre @ [a, b]) @ hex' @ z) (Suc i) n ((ps @ [of_nat (16 * h + l)]) @ rest')
          = (Inr (), (ps @ [of_nat (16 * h + l)]) @ bs))
        \<and> (hex_decode hex' = None \<longrightarrow>
          fst (from_hex_loop ((pre @ [a, b]) @ hex' @ z) (Suc i) n ((ps @ [of_nat (16 * h + l)]) @ rest'))
          = Inl RET_INVALID_HEX_STRING)"
      by (rule Suc.IH) (use Suc.prems hex rest in auto)
    ultimately show ?thesis
      by (auto simp: hex hl split: option.splits)
  qed
qed

lemma length_hex_decode: "hex_decode hex = Some bs \<Longrightarrow> length hex = 2 * length bs"
  by (induction hex arbitrary: bs rule: hex_decode.induct) (auto split: option.splits)

lemma hex_decode_odd: "odd (length hex) \<Longrightarrow> hex_decode hex = None"
  by (induction hex rule: hex_decode.induct) (auto split: option.splits)

lemma strlen_le: "strlen s \<le> length s"
  by (simp add: strlen_def length_takeWhile_le)

lemma ba_alloc_from_hex_eq:
  assumes "mem_ok M"
  shows "ba_alloc_from_hex M s = Inr (map_option mk_ba (hex_decode (take (strlen s) s)))"
proof (cases "even (strlen s)")
  case False
  then have "hex_decode (take (strlen s) s) = None"
    using strlen_le[of s] by (intro hex_decode_odd) simp
  then show ?thesis
    using False by (simp add: ba_alloc_from_hex_def and_one_eq mod_2_eq_odd SET_ERROR_def)
next
  case True
  then obtain n where n: "strlen s = 2 * n" by blast
  let ?h = "take (strlen s) s"
  let ?L = "from_hex_loop s 0 n (fresh M n)"
  have "(\<forall>bs. hex_decode ?h = Some bs \<longrightarrow> ?L = (Inr (), bs))
      \<and> (hex_decode ?h = None \<longrightarrow> fst ?L = Inl RET_INVALID_HEX_STRING)"
    using from_hex_loop_spec[of ?h n "fresh M n" "[]" 0 "[]" "drop (strlen s) s"] strlen_le[of s] n
    by simp
  then have L: "(\<exists>bs. hex_decode ?h = Some bs \<and> ?L = (Inr (), bs))
      \<or> hex_decode ?h = None \<and> fst ?L = Inl RET_INVALID_HEX_STRING"
    by (cases "hex_decode ?h") auto
  then show ?thesis
  proof (elim disjE exE conjE)
    fix bs assume h: "hex_decode ?h = Some bs" and l: "?L = (Inr (), bs)"
    have "length bs = n" using length_hex_decode[OF h] n strlen_le[of s] by simp
    with h l assms n True show ?thesis
      by (simp add: ba_alloc_from_hex_def and_one_eq mod_2_eq_odd ba_alloc_by_len_eq uint8_from_hex_def)
  next
    assume "hex_decode ?h = None" "fst ?L = Inl RET_INVALID_HEX_STRING"
    with assms n True show ?thesis
      by (cases ?L) (simp add: ba_alloc_from_hex_def and_one_eq mod_2_eq_odd ba_alloc_by_len_eq uint8_from_hex_def)
  qed
qed

lemma length_to_hex_loop [simp]: "length (to_hex_loop xs) = 2 * length xs"
  by (induction xs) simp_all

lemma nibbles_less: "unat (drop_bit 4 (b::u8)) < 16" "unat (b AND 15) < 16"
  by (rule all_bytes [where P = "\<lambda>b. unat (drop_bit 4 b) < 16"], code_simp)
    (rule all_bytes [where P = "\<lambda>b. unat (b AND 15) < 16"], code_simp)

lemma nibbles: "of_nat (16 * unat (drop_bit 4 (b::u8)) + unat (b AND 15)) = b"
  by (rule all_bytes [where P = "\<lambda>b. of_nat (16 * unat (drop_bit 4 b) + unat (b AND 15)) = b"])
    code_simp

lemma hex_decode_to_hex: "hex_decode (to_hex_loop xs) = Some xs"
  by (induction xs) (simp_all add: hex_symbols_digit nibbles_less nibbles del: of_nat_add of_nat_mult)

lemma to_hex_nonzero: "c \<in> set (to_hex_loop xs) \<Longrightarrow> c \<noteq> 0"
proof (induction xs)
  case (Cons b xs)
  have "hex_symbols ! k \<noteq> 0" if "k < 16" for k
    using hex_symbols_digit[OF that] by (auto simp: hex_digit_def)
  then show ?case using Cons nibbles_less[of b] by auto
qed simp

lemma strlen_append_0: "(\<And>c. c \<in> set s \<Longrightarrow> c \<noteq> 0) \<Longrightarrow> strlen (s @ 0 # z) = length s"
  by (simp add: strlen_def)

lemma ba_to_hex_with_alloc_eq:
  "mem_ok M \<Longrightarrow> wf_ba a \<Longrightarrow> ba_to_hex_with_alloc M (Some a) = Inr (to_hex_loop (data a) @ [0])"
  by (simp add: ba_to_hex_with_alloc_def)

subsection \<open>Base64 decodes what it encoded\<close>

lemma base64map_codes: "k < 64 \<Longrightarrow> base64map ! unat (base64_codes ! k) = of_nat k"
proof -
  have "list_all (\<lambda>k. base64map ! unat (base64_codes ! k) = of_nat k) [0..<64]" by code_simp
  then show "k < 64 \<Longrightarrow> ?thesis" by (auto simp: list_all_iff)
qed

lemma base64map_pad: "base64map ! unat (of_char CHR ''='' :: u8) = 254"
  by code_simp

lemma sextet_less: "unat (x AND 0x3F :: u8) < 64"
  by (rule all_bytes [where P = "\<lambda>x. unat (x AND 0x3F) < 64"], code_simp)

lemma base64map_sextet [simp]: "base64map ! unat (base64_codes ! unat (x AND 0x3F)) = x AND (0x3F :: u8)"
  by (simp add: base64map_codes sextet_less)

lemma sextet_small [simp]: "x AND (0x3F::u8) \<noteq> 255" "x AND (0x3F::u8) \<noteq> 254"
  using sextet_less[of x] by auto

text \<open>The four six-bit groups put the three bytes back together.\<close>

lemma bit_plus_disjoint:
  "(\<And>n. \<not> (bit (a::'a::len word) n \<and> bit b n)) \<Longrightarrow> a + b = a OR b"
  by (rule disjunctive_add) blast

lemma and_masks:
  "x AND (0x3F :: u8) = take_bit 6 x" "x AND (3 :: u8) = take_bit 2 x" "x AND (0xF :: u8) = take_bit 4 x"
  by (simp_all add: take_bit_eq_mask mask_eq_exp_minus_1)

lemma bit_u8_eqI:
  assumes "list_all (\<lambda>n. bit x n = bit y n) [0, 1, 2, 3, 4, 5, 6, 7]"
  shows "x = (y :: u8)"
proof (rule bit_word_eqI)
  fix n assume "n < LENGTH(8)"
  then have "n \<in> {0, 1, 2, 3, 4, 5, 6, 7}" by auto
  with assms show "bit x n = bit y n" by auto
qed

lemma bit_u8_high: "8 \<le> n \<Longrightarrow> \<not> bit (b :: u8) n"
  by (auto dest: bit_imp_le_length)

lemma base64_join3:
  fixes a b c :: u8
  defines "t \<equiv> push_bit 6 (push_bit 6 (push_bit 6 (push_bit 6 (0::u64)
        OR ucast (drop_bit 2 a AND 0x3F))
        OR ucast ((push_bit 4 (a AND 3) + drop_bit 4 b) AND 0x3F))
        OR ucast ((push_bit 2 (b AND 0xF) + drop_bit 6 c) AND 0x3F))
        OR ucast (c AND 0x3F)"
  shows "ucast (drop_bit 16 t) = a" "ucast (drop_bit 8 t) = b" "ucast t = c"
proof -
  have p1: "push_bit 4 (take_bit 2 a) + drop_bit 4 b = push_bit 4 (take_bit 2 a) OR drop_bit 4 b"
    by (rule bit_plus_disjoint) (auto simp: bit_simps dest: bit_imp_le_length)
  have p2: "push_bit 2 (take_bit 4 b) + drop_bit 6 c = push_bit 2 (take_bit 4 b) OR drop_bit 6 c"
    by (rule bit_plus_disjoint) (auto simp: bit_simps dest: bit_imp_le_length)
  show "ucast (drop_bit 16 t) = a"
    unfolding t_def and_masks p1 p2 by (rule bit_u8_eqI) (simp add: bit_simps bit_u8_high, (simp add: eval_nat_numeral)?)
  show "ucast (drop_bit 8 t) = b"
    unfolding t_def and_masks p1 p2 by (rule bit_u8_eqI) (simp add: bit_simps bit_u8_high, (simp add: eval_nat_numeral)?)
  show "ucast t = c"
    unfolding t_def and_masks p1 p2 by (rule bit_u8_eqI) (simp add: bit_simps bit_u8_high, (simp add: eval_nat_numeral)?)
qed

lemma base64_join2:
  fixes a b :: u8
  defines "t \<equiv> push_bit 6 (push_bit 6 (push_bit 6 (push_bit 6 (0::u64)
        OR ucast (drop_bit 2 a AND 0x3F))
        OR ucast ((push_bit 4 (a AND 3) + drop_bit 4 b) AND 0x3F))
        OR ucast (push_bit 2 (b AND 0xF) AND 0x3F))
        OR ucast (0 :: u8)"
  shows "ucast (drop_bit 16 t) = a" "ucast (drop_bit 8 t) = b"
proof -
  have z: "(0 :: u8) AND 0x3F = 0" "drop_bit 6 (0::u8) = 0" by simp_all
  show "ucast (drop_bit 16 t) = a" "ucast (drop_bit 8 t) = b"
    using base64_join3(1,2)[of a b 0] by (simp_all only: t_def z add_0_right)
qed

lemma base64_join1:
  fixes a :: u8
  defines "t \<equiv> push_bit 6 (push_bit 6 (push_bit 6 (push_bit 6 (0::u64)
        OR ucast (drop_bit 2 a AND 0x3F))
        OR ucast ((push_bit 4 (a AND 3) + drop_bit 4 0) AND 0x3F))
        OR ucast (0 :: u8))
        OR ucast (0 :: u8)"
  shows "ucast (drop_bit 16 t) = a"
proof -
  have z: "push_bit 2 ((0 :: u8) AND 0xF) AND 0x3F = 0" by simp
  show "ucast (drop_bit 16 t) = a"
    using base64_join2(1)[of a 0] by (simp only: t_def z)
qed

text \<open>A round of the loop over four characters with known codes.\<close>

lemma base64_dec_code:
  assumes "base64map ! unat c = v" and "v \<noteq> 255" and "v \<noteq> 254" and "y + 1 \<noteq> 4"
    and "t' = push_bit 6 t OR ucast v"
  shows "base64_dec_loop (c # cs) t y z 3 out ol = base64_dec_loop cs t' (y + 1) z 3 out ol"
  using assms by (simp add: Let_def)

lemma base64_dec_pad:
  assumes "base64map ! unat c = 254" and "g \<noteq> 0" and "y + 1 \<noteq> 4" and "t' = push_bit 6 t OR ucast (0 :: u8)"
  shows "base64_dec_loop (c # cs) t y z g out ol = base64_dec_loop cs t' (y + 1) z (g - 1) out ol"
  using assms by (simp add: Let_def)

lemma length_base64_bytes: "0 < g \<Longrightarrow> g \<le> 3 \<Longrightarrow> length (base64_bytes t g) = g"
  by (auto simp: base64_bytes_def)

lemma base64_dec_end:
  assumes "base64map ! unat c = v" and "v \<noteq> 255" and "v = 254 \<longrightarrow> g \<noteq> 0" and "v \<noteq> 254 \<longrightarrow> g = 3"
    and t': "t' = push_bit 6 t OR ucast (if v = 254 then 0 else v)"
    and k: "k = (if v = 254 then g - 1 else g)" "0 < k" "k \<le> 3"
    and "z + k \<le> ol"
    and "wr out z (base64_bytes t' k) = Inr out'"
  shows "base64_dec_loop (c # cs) t 3 z g out ol = base64_dec_loop cs 0 0 (z + k) k out' ol"
  using assms by (cases "v = 254") (auto simp: Let_def length_base64_bytes)

lemma base64_dec_quad:
  assumes v: "base64map ! unat c0 = v0" "base64map ! unat c1 = v1" "base64map ! unat c2 = v2" "base64map ! unat c3 = v3"
    and n: "v0 \<noteq> 255" "v0 \<noteq> 254" "v1 \<noteq> 255" "v1 \<noteq> 254"
    and t: "t = push_bit 6 (push_bit 6 (push_bit 6 (push_bit 6 (0::u64) OR ucast v0) OR ucast v1)
              OR ucast (if v2 = 254 then 0 else v2)) OR ucast (if v3 = 254 then 0 else v3)"
    and n2: "v2 \<noteq> 255" "v3 \<noteq> 255" "v2 = 254 \<longrightarrow> v3 = 254"
    and k: "k = (if v2 = 254 then 1 else if v3 = 254 then 2 else 3)"
    and sz: "z + k \<le> ol" and w: "wr out z (base64_bytes t k) = Inr out'"
  shows "base64_dec_loop (c0 # c1 # c2 # c3 # cs) 0 0 z 3 out ol = base64_dec_loop cs 0 0 (z + k) k out' ol"
proof -
  define t1 where "t1 = push_bit 6 (0::u64) OR ucast v0"
  define t2 where "t2 = push_bit 6 t1 OR ucast v1"
  define t3 where "t3 = push_bit 6 t2 OR ucast (if v2 = 254 then 0 else v2)"
  define g where "g = (if v2 = 254 then 2 else 3 :: nat)"
  have tt: "t = push_bit 6 t3 OR ucast (if v3 = 254 then 0 else v3)"
    by (simp only: t t3_def t2_def t1_def)
  have "base64_dec_loop (c0 # c1 # c2 # c3 # cs) 0 0 z 3 out ol
      = base64_dec_loop (c1 # c2 # c3 # cs) t1 (0 + 1) z 3 out ol"
    by (rule base64_dec_code [OF v(1) n(1,2) _ t1_def]) simp
  also have "\<dots> = base64_dec_loop (c2 # c3 # cs) t2 (0 + 1 + 1) z 3 out ol"
    by (rule base64_dec_code [OF v(2) n(3,4) _ t2_def]) simp
  also have "\<dots> = base64_dec_loop (c3 # cs) t3 (0 + 1 + 1 + 1) z g out ol"
  proof (cases "v2 = 254")
    case True
    with base64_dec_pad [of c2 3 "0 + 1 + 1" t3 t2 "c3 # cs" z out ol] v(3) show ?thesis
      by (simp add: t3_def g_def del: base64_dec_loop.simps)
  next
    case False
    with base64_dec_code [of c2 v2 "0 + 1 + 1" t3 t2 "c3 # cs" z out ol] v(3) n2(1) show ?thesis
      by (simp add: t3_def g_def del: base64_dec_loop.simps)
  qed
  also have "\<dots> = base64_dec_loop (c3 # cs) t3 3 z g out ol"
    by (simp add: numeral_3_eq_3 del: base64_dec_loop.simps)
  also have "\<dots> = base64_dec_loop cs 0 0 (z + k) k out' ol"
    by (rule base64_dec_end [OF v(4) n2(2) _ _ tt _ _ _ sz w]) (use n2 in \<open>auto simp: g_def k\<close>)
  finally show ?thesis .
qed

lemma base64_dec_groups:
  "length pre + length xs \<le> outlen \<Longrightarrow> length out = length xs \<Longrightarrow>
   base64_dec_loop (base64_groups xs) 0 0 (length pre) 3 (pre @ out @ rest) outlen
      = (Inr (length pre + length xs), pre @ xs @ rest)"
proof (induction xs arbitrary: pre out rule: base64_groups.induct)
  case (1 a b c xs)
  then obtain o1 o2 o3 out' where out: "out = o1 # o2 # o3 # out'" "length out' = length xs"
    by (auto simp: length_Suc_conv)
  have "base64_dec_loop (base64_groups (a # b # c # xs)) 0 0 (length pre) 3 (pre @ out @ rest) outlen
      = base64_dec_loop (base64_groups xs) 0 0 (length pre + 3) 3 ((pre @ [a, b, c]) @ out' @ rest) outlen"
    unfolding base64_groups.simps
    by (rule base64_dec_quad [OF base64map_sextet base64map_sextet base64map_sextet base64map_sextet
          _ _ _ _ refl])
      (use "1.prems" out in \<open>simp_all only: base64_bytes_def sextet_small base64_join3 if_False\<close>, simp_all)
  then show ?case
    using "1.IH"[of "pre @ [a, b, c]" out'] "1.prems" out
    by (simp add: numeral_3_eq_3 del: base64_groups.simps)
next
  case (2 a b)
  then obtain o1 o2 where out: "out = [o1, o2]"
    by (auto simp: length_Suc_conv)
  have "base64_dec_loop (base64_groups [a, b]) 0 0 (length pre) 3 (pre @ out @ rest) outlen
      = base64_dec_loop [] 0 0 (length pre + 2) 2 (pre @ [a, b] @ rest) outlen"
    unfolding base64_groups.simps
    by (rule base64_dec_quad [OF base64map_sextet base64map_sextet base64map_sextet base64map_pad
          _ _ _ _ refl])
      (use "2.prems" out in \<open>simp_all only: base64_bytes_def sextet_small base64_join2 if_False if_True refl\<close>, simp_all)
  then show ?case by (simp del: base64_groups.simps)
next
  case (3 a)
  then obtain o1 where out: "out = [o1]"
    by (auto simp: length_Suc_conv)
  have "base64_dec_loop (base64_groups [a]) 0 0 (length pre) 3 (pre @ out @ rest) outlen
      = base64_dec_loop [] 0 0 (length pre + 1) 1 (pre @ [a] @ rest) outlen"
    unfolding base64_groups.simps
    by (rule base64_dec_quad [OF base64map_sextet base64map_sextet base64map_pad base64map_pad
          _ _ _ _ refl])
      (use "3.prems" out in \<open>simp_all only: base64_bytes_def sextet_small base64_join1 if_False if_True refl\<close>, simp_all)
  then show ?case by (simp del: base64_groups.simps)
next
  case 4
  then show ?case by simp
qed

lemma base64_codes_nonzero: "k < 64 \<Longrightarrow> base64_codes ! k \<noteq> 0"
proof -
  have "list_all (\<lambda>k. base64_codes ! k \<noteq> 0) [0..<64]" by code_simp
  then show "k < 64 \<Longrightarrow> ?thesis" by (auto simp: list_all_iff)
qed

lemma base64_groups_nonzero: "c \<in> set (base64_groups xs) \<Longrightarrow> c \<noteq> 0"
  by (induction xs rule: base64_groups.induct) (auto simp: base64_codes_nonzero sextet_less)

lemma length_base64_groups: "length (base64_groups xs) = 4 * ((length xs + 2) div 3)"
proof (induction xs rule: base64_groups.induct)
  case (1 a b c xs)
  have "(5 + length xs) div 3 = Suc ((2 + length xs) div 3)" by simp
  then show ?case using 1 by simp
qed simp_all

lemma ba_to_base64_with_alloc_eq:
  "mem_ok M \<Longrightarrow> wf_ba a \<Longrightarrow>
   ba_to_base64_with_alloc M (Some a) = Inr (base64_groups (data a) @ [0])"
  by (simp add: ba_to_base64_with_alloc_def base64_encode_def length_base64_groups)

lemma ba_alloc_from_base64_groups:
  assumes M: "mem_ok M" and xs: "xs \<noteq> []"
  shows "ba_alloc_from_base64 M (base64_groups xs @ [0]) = Inr (Some (mk_ba xs))"
proof -
  let ?s = "base64_groups xs @ [0]"
  have sl: "strlen ?s = length (base64_groups xs)"
    by (rule strlen_append_0) (rule base64_groups_nonzero)
  define l where "l = length (base64_groups xs) * 3 div 4"
  have le: "length xs \<le> l"
    by (simp add: l_def length_base64_groups)
  define out where "out = take (length xs) (fresh M l)"
  define rest where "rest = drop (length xs) (fresh M l)"
  have f: "fresh M l = [] @ out @ rest" and lo: "length out = length xs"
    using le by (simp_all add: out_def rest_def)
  have d: "base64_decode ?s (strlen ?s) (fresh M l) l = (Inr (length xs), xs @ rest)"
    using base64_dec_groups[of "[]" xs l out rest] le lo
    by (simp add: base64_decode_def sl f)
  show ?thesis
    using M xs d lo le f
    by (simp add: ba_alloc_from_base64_def Let_def sl ba_alloc_by_len_eq ba_change_len_eq flip: l_def)
qed

lemma hex_symbols_upper: "k < 16 \<Longrightarrow> 48 \<le> hex_symbols ! k \<and> hex_symbols ! k \<le> 57 \<or> 65 \<le> hex_symbols ! k \<and> hex_symbols ! k \<le> 70"
proof -
  have "list_all (\<lambda>k. 48 \<le> hex_symbols ! k \<and> hex_symbols ! k \<le> 57 \<or> 65 \<le> hex_symbols ! k \<and> hex_symbols ! k \<le> 70) [0..<16]"
    by code_simp
  then show "k < 16 \<Longrightarrow> ?thesis" by (simp add: list_all_iff)
qed

lemma to_hex_upper: "c \<in> set (to_hex_loop bs) \<Longrightarrow> 48 \<le> c \<and> c \<le> 57 \<or> 65 \<le> c \<and> c \<le> 70"
proof (induction bs)
  case (Cons b bs)
  have "unat (drop_bit 4 b) < 16" "unat (b AND 0x0F) < 16" by (rule nibbles_less[of b])+
  then show ?case using Cons hex_symbols_upper by auto
qed simp

subsection \<open>What a client can build\<close>

lemma from_hex_loop_length: "from_hex_loop hex i n buf = (r, b) \<Longrightarrow> length b = length buf"
  by (induction n arbitrary: i buf) (auto simp: Let_def split: sum.splits if_splits dest!: wr_length)

lemma base64_dec_loop_length: "base64_dec_loop cs t y z g out outlen = (r, b) \<Longrightarrow> length b = length out"
  by (induction cs arbitrary: t y z g out)
    (auto simp: Let_def split: sum.splits if_splits dest!: wr_length)

lemma base64_decode_length: "base64_decode s n out outlen = (r, b) \<Longrightarrow> length b = length out"
  by (auto simp: base64_decode_def split: sum.splits dest: base64_dec_loop_length)

lemma ba_alloc_from_hex_wf [wf_rules]: "ba_alloc_from_hex M h = Inr (Some a) \<Longrightarrow> wf_ba a"
  using from_hex_loop_length [OF prod.collapse [symmetric], of h 0 "strlen h div 2"]
  by (auto simp: ba_alloc_from_hex_def Let_def SET_ERROR_def uint8_from_hex_def ba_inversions case_prod_beta
      split: if_splits dest!: ba_alloc_by_len_wf intro!: set_data_wf)

lemma ba_alloc_from_base64_wf [wf_rules]: "ba_alloc_from_base64 M s = Inr (Some a) \<Longrightarrow> wf_ba a"
  using base64_decode_length [OF prod.collapse [symmetric], of s "strlen s" _ "strlen s * 3 div 4"]
  by (auto simp: ba_alloc_from_base64_def Let_def ba_inversions case_prod_beta split: if_splits
      dest!: ba_alloc_by_len_wf intro!: set_data_wf dest: ba_change_len_wf)

lemma ba_from_hex_wf [wf_rules]: "wf_ba x \<Longrightarrow> ba_from_hex M h (Some x) = (r, Some a) \<Longrightarrow> wf_ba a"
  by (auto simp: ba_from_hex_def Let_def uint8_from_hex_def split: option.splits sum.splits if_splits prod.splits
      dest!: REALLOC_Inr from_hex_loop_length)

lemma ba_from_base64_wf [wf_rules]: "wf_ba x \<Longrightarrow> ba_from_base64 M s (Some x) = (r, Some a) \<Longrightarrow> wf_ba a"
  by (auto simp: ba_from_base64_def Let_def split: option.splits sum.splits if_splits prod.splits
      dest!: REALLOC_Inr base64_decode_length dest: ba_change_len_wf)

text \<open>
  \<open>ba_reach M a\<close>: on the host \<open>M\<close> a client obtains the array \<open>a\<close> from the constructors and by calls of
  the operations that change an array, with any buffers, strings and numbers of its own. A failed call leaves its
  argument as it was, so it adds nothing, with these exceptions: \<^verbatim>\<open>ba_from_hex\<close> and \<^verbatim>\<open>ba_from_base64\<close> leave
  what they had decoded, and their failures are among the rules; a call that ends with \<open>FREED\<close> leaves no
  array, and \<^verbatim>\<open>ba_from_uint64\<close> and \<^verbatim>\<open>ba_from_uint32\<close>, which only the library itself calls, leave a wrong length when
  the allocator fails: for these the rules cover the calls that succeed.
\<close>

inductive ba_reach :: "mem \<Rightarrow> ByteArray \<Rightarrow> bool" for M where
  alloc: "ba_alloc M = Inr (Some a) \<Longrightarrow> ba_reach M a"
| by_len: "ba_alloc_by_len M n = Inr (Some a) \<Longrightarrow> ba_reach M a"
| uint8: "ba_alloc_from_uint8 M b n = Inr (Some a) \<Longrightarrow> ba_reach M a"
| str: "ba_alloc_from_str M s = Inr (Some a) \<Longrightarrow> ba_reach M a"
| uint8_be: "ba_alloc_from_uint8_be M b n = Inr (Some a) \<Longrightarrow> ba_reach M a"
| uint64: "ba_alloc_from_uint64 M ws n = Inr (Some a) \<Longrightarrow> ba_reach M a"
| uint32: "ba_alloc_from_uint32 M vs n = Inr (Some a) \<Longrightarrow> ba_reach M a"
| hex: "ba_alloc_from_hex M h = Inr (Some a) \<Longrightarrow> ba_reach M a"
| base64: "ba_alloc_from_base64 M h = Inr (Some a) \<Longrightarrow> ba_reach M a"
| copy_alloc: "ba_reach M x \<Longrightarrow> ba_copy_with_alloc M (Some x) off l = Inr (Some a) \<Longrightarrow> ba_reach M a"
| join: "ba_reach M x \<Longrightarrow> ba_reach M y \<Longrightarrow> ba_join M (Some x) (Some y) = Inr (Some a) \<Longrightarrow> ba_reach M a"
| swap: "ba_reach M x \<Longrightarrow> ba_swap (Some x) = Inr a \<Longrightarrow> ba_reach M a"
| xor: "ba_reach M x \<Longrightarrow> ba_reach M y \<Longrightarrow> ba_xor (Some x) (Some y) = Inr a \<Longrightarrow> ba_reach M a"
| set: "ba_reach M x \<Longrightarrow> ba_set (Some x) v = Inr a \<Longrightarrow> ba_reach M a"
| set_byte: "ba_reach M x \<Longrightarrow> ba_set_byte (Some x) i v = Inr a \<Longrightarrow> ba_reach M a"
| copy: "ba_reach M x \<Longrightarrow> ba_reach M y \<Longrightarrow> ba_copy (Some x) off l (Some y) off' = Inr a \<Longrightarrow> ba_reach M a"
| append: "ba_reach M x \<Longrightarrow> ba_reach M y \<Longrightarrow> ba_append M (Some x) off l (Some y) = Inr a \<Longrightarrow> ba_reach M a"
| change_len: "ba_reach M x \<Longrightarrow> ba_change_len M (Some x) l = Inr a \<Longrightarrow> ba_reach M a"
| from_uint8: "ba_reach M x \<Longrightarrow> ba_from_uint8 M b n (Some x) = Inr a \<Longrightarrow> ba_reach M a"
| from_uint64: "ba_reach M x \<Longrightarrow> ba_from_uint64 M ws n (Some x) = (Inr (), Some a) \<Longrightarrow> ba_reach M a"
| from_uint32: "ba_reach M x \<Longrightarrow> ba_from_uint32 M vs n (Some x) = (Inr (), Some a) \<Longrightarrow> ba_reach M a"
| trim: "ba_reach M x \<Longrightarrow> ba_trim_leading_zeros M (Some x) = Inr a \<Longrightarrow> ba_reach M a"
| trim_le: "ba_reach M x \<Longrightarrow> ba_trim_leading_zeros_le M (Some x) = Inr a \<Longrightarrow> ba_reach M a"
| truncate: "ba_reach M x \<Longrightarrow> ba_truncate (Some x) n = Inr a \<Longrightarrow> ba_reach M a"
| from_hex: "ba_reach M x \<Longrightarrow> ba_from_hex M str (Some x) = (r, Some a) \<Longrightarrow> r \<noteq> Inl FREED \<Longrightarrow> ba_reach M a"
| from_base64: "ba_reach M x \<Longrightarrow> ba_from_base64 M str (Some x) = (r, Some a) \<Longrightarrow> r \<noteq> Inl FREED \<Longrightarrow> ba_reach M a"

subsection \<open>Properties\<close>

text \<open>\<^verbatim>\<open>ba_alloc_from_hex\<close> accepts exactly the strings of an even number of
  hexadecimal digits of either case and returns the bytes they denote; on every other
  string it returns \<^verbatim>\<open>NULL\<close>. It reads nothing past the terminator.\<close>

theorem ba_alloc_from_hex_spec:
  assumes "mem_ok M"
  shows "ba_alloc_from_hex M s = Inr (map_option mk_ba (hex_decode (take (strlen s) s)))"
  using assms by (rule ba_alloc_from_hex_eq)

lemma ba_alloc_from_hex_spec_witness:
  "ba_alloc_from_hex ideal_mem (c_string ''0aF'') = Inr None
   \<and> ba_alloc_from_hex ideal_mem (c_string ''0aFf'') = Inr (Some (mk_ba [0x0a, 0xff]))"
proof -
  have "strlen (c_string ''0aF'') = 3" "hex_decode (take 3 (c_string ''0aF'')) = None"
    "strlen (c_string ''0aFf'') = 4" "hex_decode (take 4 (c_string ''0aFf'')) = Some [0x0a, 0xff]"
    by code_simp+
  then show ?thesis
    by (simp add: ba_alloc_from_hex_spec[OF mem_ok_ideal])
qed

text \<open>(C1) Every byte array that comes out of successful calls of the operations that make or change byte arrays
  (in any order, with any arguments), or of calls of \<^verbatim>\<open>ba_from_hex\<close> and \<^verbatim>\<open>ba_from_base64\<close> that fail on their string,
  holds exactly as many bytes as its length field says, whatever the allocator of the host does.\<close>

theorem ba_reach_wf: "ba_reach M a \<Longrightarrow> wf_ba a"
  by (induction rule: ba_reach.induct) (blast dest: wf_rules)+

lemma ba_reach_wf_witness: "wf_ba (mk_ba [2, 1])"
proof -
  have "ba_reach ideal_mem (mk_ba [1, 2])"
    by (rule ba_reach.uint8[of _ "Some [1, 2, 3]" 2]) (simp add: ba_alloc_from_uint8_eq)
  then have "ba_reach ideal_mem (mk_ba [2, 1])"
    by (rule ba_reach.swap) (simp add: ba_swap_eq)
  then show ?thesis by (rule ba_reach_wf)
qed

text \<open>(C6) Hexadecimal round trip: \<^verbatim>\<open>ba_to_hex_with_alloc\<close> prints two characters for every byte, digits or upper-case
  letters from A to F only, and a terminating zero, and the string is read back as the same bytes.\<close>

theorem hex_roundtrip:
  assumes "mem_ok M" and "wf_ba a"
  shows "\<exists>s. ba_to_hex_with_alloc M (Some a) = Inr s \<and> strlen s = 2 * ba_len a
    \<and> length s = 2 * ba_len a + 1 \<and> s ! (2 * ba_len a) = 0
    \<and> (\<forall>c \<in> set (take (2 * ba_len a) s). 48 \<le> c \<and> c \<le> 57 \<or> 65 \<le> c \<and> c \<le> 70)
    \<and> ba_alloc_from_hex M s = Inr (Some (mk_ba (data a)))"
proof -
  have "strlen (to_hex_loop (data a) @ [0]) = length (to_hex_loop (data a))"
    by (rule strlen_append_0) (rule to_hex_nonzero)
  then show ?thesis
    using assms by (simp add: ba_to_hex_with_alloc_eq ba_alloc_from_hex_eq hex_decode_to_hex nth_append to_hex_upper)
qed

lemma hex_roundtrip_witness:
  "\<exists>s. ba_to_hex_with_alloc ideal_mem (Some (mk_ba [0, 254])) = Inr s
     \<and> ba_alloc_from_hex ideal_mem s = Inr (Some (mk_ba [0, 254]))"
  using hex_roundtrip[of ideal_mem "mk_ba [0, 254]"] by auto

text \<open>(C7) Base64 round trip: the string \<^verbatim>\<open>ba_to_base64_with_alloc\<close> produces for a
  non-empty array, padding included, decodes to the same bytes.\<close>

theorem base64_roundtrip:
  assumes "mem_ok M" and "wf_ba a" and "data a \<noteq> []"
  shows "\<exists>s. ba_to_base64_with_alloc M (Some a) = Inr s \<and> strlen s = 4 * ((ba_len a + 2) div 3)
    \<and> ba_alloc_from_base64 M s = Inr (Some (mk_ba (data a)))"
proof -
  have "strlen (base64_groups (data a) @ [0]) = length (base64_groups (data a))"
    by (rule strlen_append_0) (rule base64_groups_nonzero)
  then show ?thesis
    using assms
    by (simp add: ba_to_base64_with_alloc_eq ba_alloc_from_base64_groups length_base64_groups)
qed

lemma base64_roundtrip_witness:
  "\<exists>s. ba_to_base64_with_alloc ideal_mem (Some (mk_ba [0, 254])) = Inr s
     \<and> ba_alloc_from_base64 ideal_mem s = Inr (Some (mk_ba [0, 254]))"
  using base64_roundtrip[of ideal_mem "mk_ba [0, 254]"] by auto

lemma base64_dec_skip:
  "(\<And>c. c \<in> set cs \<Longrightarrow> base64map ! unat c = 255) \<Longrightarrow> base64_dec_loop cs 0 0 0 3 out ol = (Inr 0, out)"
  by (induction cs) (simp_all add: Let_def)

text \<open>A string without any character of the base64 alphabet decodes to no byte, yet
  \<^verbatim>\<open>ba_alloc_from_base64\<close> then keeps the length it guessed and hands out an array of that
  many uninitialised bytes of the heap.\<close>

theorem ba_alloc_from_base64_uninitialised:
  assumes "mem_ok M" and "\<And>c. c \<in> set (take (strlen s) s) \<Longrightarrow> base64map ! unat c = 255"
  shows "ba_alloc_from_base64 M s = Inr (Some (mk_ba (fresh M (strlen s * 3 div 4))))"
  using assms base64_dec_skip[of "take (strlen s) s"] strlen_le[of s]
  by (simp add: ba_alloc_from_base64_def Let_def ba_alloc_by_len_eq base64_decode_def)

lemma ba_alloc_from_base64_uninitialised_witness:
  "ba_alloc_from_base64 (ideal_mem\<lparr>garbage := \<lambda>_. 0x5A\<rparr>) (c_string ''!!!!'')
     = Inr (Some (mk_ba [0x5A, 0x5A, 0x5A]))"
proof -
  have s: "strlen (c_string ''!!!!'') = 4"
    and c: "\<forall>c \<in> set (take (strlen (c_string ''!!!!'')) (c_string ''!!!!'')). base64map ! unat c = 255"
    by code_simp+
  have "mem_ok (ideal_mem\<lparr>garbage := \<lambda>_. 0x5A\<rparr>)" by (simp add: mem_ok_def ideal_mem_def)
  from ba_alloc_from_base64_uninitialised[OF this, of "c_string ''!!!!''"] c
  show ?thesis by (simp add: s fresh_def upt_conv_Cons)
qed

text \<open>A digit followed by three padding characters is accepted and yields one byte.\<close>

lemma base64_three_pads:
  "ba_alloc_from_base64 ideal_mem (c_string ''B==='') = Inr (Some (mk_ba [4]))"
  by code_simp

end
