(* ===== verification/BlockHash.thy ===== *)
theory BlockHash
  imports Encoding
begin

text \<open>
  What the hash functions of \<^verbatim>\<open>uapkic/src\<close> share: the loop over the complete blocks of a
  buffer, the arithmetic of a partly filled block, the big-endian and little-endian
  packing macros, and the interface a hash algorithm offers to its callers.
\<close>

subsection \<open>Loops over blocks\<close>

text \<open>
  \<open>for_blocks k f buf i n s\<close> is the loop \<^verbatim>\<open>for (; i + k <= n; i += k) s = f(s, buf + i)\<close>;
  it returns the state and the index it stopped at.
\<close>

function for_blocks ::
    "nat \<Rightarrow> ('s \<Rightarrow> u8 list \<Rightarrow> 's res) \<Rightarrow> u8 list \<Rightarrow> nat \<Rightarrow> nat \<Rightarrow> 's \<Rightarrow> ('s \<times> nat) res" where
  "for_blocks k f buf i n s =
     (if 0 < k \<and> i + k \<le> n
      then DO (rd buf i k) (\<lambda>b. DO (f s b) (\<lambda>s'. for_blocks k f buf (i + k) n s'))
      else Inr (s, i))"
  by pat_completeness auto
termination by (relation "measure (\<lambda>(k, f, buf, i, n, s). n - i)") auto

declare for_blocks.simps [simp del]

text \<open>\<open>tail_of k m\<close> is what is left of a message after its complete blocks.\<close>

definition tail_of :: "nat \<Rightarrow> 'a list \<Rightarrow> 'a list" where
  "tail_of k m = drop (k * (length m div k)) m"

lemma length_tail_of [simp]: "length (tail_of k m) = length m mod k"
  by (simp add: tail_of_def minus_mult_div_eq_mod)

lemma tail_of_Nil [simp]: "tail_of k [] = []"
  by (simp add: tail_of_def)

lemma tail_of_short: "length m < k \<Longrightarrow> tail_of k m = m"
  by (simp add: tail_of_def)

lemma mod_0_tail_of: "k dvd length m \<Longrightarrow> tail_of k m = []"
  by (simp add: tail_of_def)

lemma chunks_tail_of:
  assumes "0 < k"
  shows "concat (chunks k m) @ tail_of k m = m"
proof -
  let ?n = "k * (length m div k)"
  have le: "?n \<le> length m" by simp
  have "chunks k m = chunks k (take ?n m @ drop ?n m)" by simp
  also have "\<dots> = chunks k (take ?n m) @ chunks k (drop ?n m)"
    using assms le by (subst chunks_append) (simp_all add: min_absorb2)
  also have "chunks k (drop ?n m) = []"
    using assms by (intro chunks_short) (simp add: minus_mult_div_eq_mod)
  finally have "chunks k m = chunks k (take ?n m)" by simp
  moreover have "concat (chunks k (take ?n m)) = take ?n m"
    using assms le by (intro concat_chunks) (simp_all add: min_absorb2)
  ultimately show ?thesis by (simp add: tail_of_def)
qed

lemma chunks_tail_append:
  assumes "0 < k"
  shows "chunks k (m @ d) = chunks k m @ chunks k (tail_of k m @ d)"
    and "tail_of k (m @ d) = tail_of k (tail_of k m @ d)"
proof -
  define c where "c = concat (chunks k m)"
  have c: "k dvd length c" "chunks k c = chunks k m"
    using assms by (simp_all add: c_def length_concat_blocks length_in_chunks chunks_concat)
  have m: "m @ d = c @ (tail_of k m @ d)"
    using chunks_tail_of[OF assms, of m] by (simp add: c_def)
  show "chunks k (m @ d) = chunks k m @ chunks k (tail_of k m @ d)"
    unfolding m using assms c by (subst chunks_append) simp_all
  obtain q where q: "length c = k * q" using c(1) by blast
  show "tail_of k (m @ d) = tail_of k (tail_of k m @ d)"
    unfolding m using assms q
    by (simp add: tail_of_def div_add1_eq[of "k * q"] algebra_simps)
qed

text \<open>A fragment that does not fill the block, and one that does.\<close>

lemma blocks_short:
  assumes "length m mod k + length d < k"
  shows "chunks k (m @ d) = chunks k m" and "tail_of k (m @ d) = tail_of k m @ d"
  using assms chunks_tail_append[of k m d] by (simp_all add: chunks_short tail_of_short)

lemma blocks_full:
  assumes "0 < k" and "k \<le> length m mod k + length d"
  defines "r \<equiv> k - length m mod k"
  shows "chunks k (m @ d) = chunks k m @ (tail_of k m @ take r d) # chunks k (drop r d)"
    and "tail_of k (m @ d) = tail_of k (drop r d)"
proof -
  define b where "b = tail_of k m @ take r d"
  have b: "length b = k" using assms by (simp add: b_def)
  have t: "tail_of k m @ d = b @ drop r d" by (simp add: b_def)
  show "chunks k (m @ d) = chunks k m @ (tail_of k m @ take r d) # chunks k (drop r d)"
    using chunks_tail_append(1)[OF assms(1), of m d] b assms(1)
    by (simp add: t chunks_block flip: b_def)
  have "tail_of k b = []" using b by (simp add: mod_0_tail_of)
  then show "tail_of k (m @ d) = tail_of k (drop r d)"
    using chunks_tail_append(2)[OF assms(1), of m d] chunks_tail_append(2)[OF assms(1), of b "drop r d"]
    by (simp add: t)
qed

lemma for_blocks_eq:
  assumes "0 < k" and "i \<le> n" and "n \<le> length buf"
    and f: "\<And>s b. length b = k \<Longrightarrow> P s \<Longrightarrow> f s b = Inr (g s b) \<and> P (g s b)" and "P s"
  shows "for_blocks k f buf i n s
     = Inr (foldl g s (chunks k (drop i (take n buf))), i + k * ((n - i) div k))"
  using assms(2,3,5)
proof (induction "(n - i) div k" arbitrary: i s)
  case 0
  then have lt: "n < i + k"
    using assms(1) by (metis div_eq_0_iff less_diff_conv2 add.commute gr_implies_not0)
  then have "chunks k (drop i (take n buf)) = []"
    using 0 by (intro chunks_short) simp
  then show ?case using 0 lt by (subst for_blocks.simps) simp
next
  case (Suc j)
  then have le: "i + k \<le> n"
    by (metis div_less less_diff_conv2 linorder_not_le nat.distinct(1) add.commute)
  have jj: "j = (n - (i + k)) div k"
  proof -
    have "n - i = k + (n - (i + k))" using le by simp
    then have "(n - i) div k = (k + (n - (i + k))) div k" by (rule arg_cong)
    also have "\<dots> = Suc ((n - (i + k)) div k)"
      using assms(1) by (simp only: div_add_self1)
    finally show ?thesis using Suc.hyps(2) by simp
  qed
  define b where "b = take k (drop i buf)"
  have b: "length b = k" using le Suc.prems by (simp add: b_def)
  have dr: "drop i (take n buf) = b @ drop (i + k) (take n buf)"
  proof -
    have "take k (drop i (take n buf)) = b"
      using le by (simp add: b_def drop_take min_def)
    then show ?thesis by (metis append_take_drop_id drop_drop add.commute)
  qed
  have r: "rd buf i k = Inr b" using le Suc.prems by (simp add: b_def)
  have g: "f s b = Inr (g s b)" "P (g s b)" using f[OF b Suc.prems(3)] by simp_all
  have "for_blocks k f buf i n s = for_blocks k f buf (i + k) n (g s b)"
    using le assms(1) r g by (subst for_blocks.simps) simp
  also have "\<dots> = Inr (foldl g (g s b) (chunks k (drop (i + k) (take n buf))), i + k + k * ((n - (i + k)) div k))"
    using Suc.hyps(1)[OF jj le Suc.prems(2) g(2)] .
  also have "foldl g (g s b) (chunks k (drop (i + k) (take n buf))) = foldl g s (chunks k (drop i (take n buf)))"
    unfolding dr using b assms(1) by (simp add: chunks_block)
  also have "i + k + k * ((n - (i + k)) div k) = i + k * ((n - i) div k)"
    unfolding jj [symmetric] Suc.hyps(2) [symmetric] by simp
  finally show ?case .
qed

subsection \<open>Absorbing a message\<close>

lemma mod_short: "m mod k + n < k \<Longrightarrow> (m + n) mod k = m mod k + (n :: nat)"
  by (metis mod_add_left_eq mod_less)

text \<open>
  The state after the complete blocks of \<open>m\<close>, and a buffer that holds the rest; this is
  what every context of a block hash keeps.
\<close>

definition absorbed ::
    "nat \<Rightarrow> ('s \<Rightarrow> u8 list \<Rightarrow> 's) \<Rightarrow> 's \<Rightarrow> 's \<Rightarrow> u8 list \<Rightarrow> u8 list \<Rightarrow> bool" where
  "absorbed k f iv st buf m \<longleftrightarrow>
     st = foldl f iv (chunks k m) \<and> take (length m mod k) buf = tail_of k m \<and> k \<le> length buf"

lemma mod_full:
  fixes m n k :: nat
  assumes "r = k - m mod k" and "r \<le> n" and "0 < k"
  shows "(m + n) mod k = (n - r) mod k"
proof -
  have "m mod k < k" using assms(3) by simp
  then have "m + n = (n - r) + k * (m div k + 1)"
    using assms(1,2) mult_div_mod_eq[of k m] by (simp only: distrib_left mult_1_right)
  then have "(m + n) mod k = ((n - r) + k * (m div k + 1)) mod k" by (rule arg_cong)
  then show ?thesis by (simp only: mod_mult_self2)
qed

lemma absorbed_Nil: "k \<le> length buf \<Longrightarrow> absorbed k f iv iv buf []"
  by (simp add: absorbed_def)

lemma absorbed_short:
  assumes a: "absorbed k f iv st buf m" and i: "i = length m mod k" and lt: "i + length d < k"
  shows "absorbed k f iv st (take i buf @ d @ drop (i + length d) buf) (m @ d)"
proof -
  have k: "length m mod k + length d < k" using lt i by simp
  have "(length m + length d) mod k = i + length d"
    using mod_short[OF k] i by simp
  then show ?thesis
    using a i lt blocks_short[OF k] by (simp add: absorbed_def)
qed

lemma absorbed_full:
  assumes a: "absorbed k f iv st buf m" and i: "i = length m mod k" and ge: "k \<le> i + length d"
    and k: "0 < k" and r: "r = k - i"
    and st': "st' = foldl f (f st (take i buf @ take r d)) (chunks k (drop r d))"
    and buf': "take (length (tail_of k (drop r d))) buf' = tail_of k (drop r d)" "k \<le> length buf'"
  shows "absorbed k f iv st' buf' (m @ d)"
proof -
  have ge': "k \<le> length m mod k + length d" using ge i by simp
  note full = blocks_full[OF k ge', folded i, folded r]
  have len: "length (m @ d) mod k = length (tail_of k (drop r d))"
    unfolding full(2) [symmetric] by (rule length_tail_of [symmetric])
  show ?thesis
    unfolding absorbed_def len full
    using a i st' buf' by (simp add: absorbed_def)
qed

text \<open>
  Padding of Merkle and Damgaard: a one bit, zeros, the length field \<open>L\<close>; it adds one
  block or two.
\<close>

definition md_pad :: "nat \<Rightarrow> nat \<Rightarrow> u8 list \<Rightarrow> u8 list" where
  "md_pad k n L = 0x80 # replicate ((2 * k - 1 - length L - n mod k) mod k) 0 @ L"

lemma md_zeros_one:
  assumes "n mod k + 1 + l \<le> k" and "0 < k"
  shows "(2 * k - 1 - l - n mod k) mod k = k - 1 - l - n mod (k :: nat)"
proof -
  have "2 * k - 1 - l - n mod k = (k - 1 - l - n mod k) + k" using assms by linarith
  then have "(2 * k - 1 - l - n mod k) mod k = (k - 1 - l - n mod k) mod k" by (simp only: mod_add_self2)
  also have "\<dots> = k - 1 - l - n mod k" using assms by (intro mod_less) linarith
  finally show ?thesis .
qed

lemma md_zeros_two:
  assumes "k < n mod k + 1 + l" and "l < k"
  shows "(2 * k - 1 - l - n mod k) mod k = 2 * k - 1 - l - n mod (k :: nat)"
  using assms by (intro mod_less) linarith

lemma md_pad_one:
  assumes "length m mod k + 1 + length L \<le> k"
  shows "chunks k (m @ md_pad k (length m) L)
     = chunks k m @ [tail_of k m @ 0x80 # replicate (k - 1 - length L - length m mod k) 0 @ L]"
proof -
  have k: "0 < k" using assms by linarith
  let ?b = "tail_of k m @ 0x80 # replicate (k - 1 - length L - length m mod k) 0 @ L"
  have "length ?b = k" using assms by simp
  then have "chunks k ?b = [?b]" using k chunks_block[of ?b k "[]"] by simp
  then show ?thesis
    using chunks_tail_append(1)[OF k, of m] md_zeros_one[OF assms k] by (simp add: md_pad_def)
qed

lemma md_pad_two:
  assumes "k < length m mod k + 1 + length L" and "length L < k"
  shows "chunks k (m @ md_pad k (length m) L)
     = chunks k m @ [tail_of k m @ 0x80 # replicate (k - 1 - length m mod k) 0,
                     replicate (k - length L) 0 @ L]"
proof -
  have k: "0 < k" using assms by linarith
  have lt: "length m mod k < k" using k by simp
  let ?b = "tail_of k m @ 0x80 # replicate (k - 1 - length m mod k) 0"
  let ?c = "replicate (k - length L) 0 @ L"
  have "Suc (length m mod k) \<le> k" using lt by (rule Suc_leI)
  then have lb: "length ?b = k" and lc: "length ?c = k" using assms by simp_all
  have z: "(2 * k - 1 - length L - length m mod k) mod k = (k - 1 - length m mod k) + (k - length L)"
    unfolding md_zeros_two[OF assms] using assms lt by linarith
  have e: "tail_of k m @ md_pad k (length m) L = ?b @ ?c"
    unfolding md_pad_def z replicate_add by simp
  have "chunks k ?c = [?c]" using k lc chunks_block[of ?c k "[]"] by simp
  then have "chunks k (?b @ ?c) = [?b, ?c]" using chunks_block[OF lb k, of ?c] by simp
  then show ?thesis
    using chunks_tail_append(1)[OF k, of m "md_pad k (length m) L"] e by simp
qed

subsection \<open>Evaluation\<close>

text \<open>
  What test vectors need to run in the kernel: the simplifier does not reduce word
  numerals modulo the word size by itself, so the evaluation rules of the hash functions
  mask every sum.
\<close>

lemma replicate_numeral: "replicate (numeral k) x = x # replicate (pred_numeral k) x"
  by (simp add: numeral_eq_Suc)

lemma chunks_rec: "0 < k \<Longrightarrow> k \<le> length xs \<Longrightarrow> chunks k xs = take k xs # chunks k (drop k xs)"
  using chunks_block[of "take k xs" k "drop k xs"] by simp

lemma u32_norm: "x = x AND (0xFFFFFFFF :: u32)"
proof -
  have "x AND mask 32 = x" by (simp flip: take_bit_eq_mask) (simp add: take_bit_length_eq[where 'a=32, simplified])
  then show ?thesis by (simp add: mask_eq_exp_minus_1)
qed

lemma list_update_numeral: "(x # xs)[numeral k := y] = x # xs[pred_numeral k := y]"
  by (simp add: numeral_eq_Suc)

lemma rd_rest:
  assumes "r \<le> length d"
  shows "rd d (r + k * ((length d - r) div k)) (length d - (r + k * ((length d - r) div k)))
     = Inr (tail_of k (drop r d))"
proof -
  have "k * ((length d - r) div k) \<le> length d - r" by (rule times_div_less_eq_dividend)
  with assms have "r + k * ((length d - r) div k) \<le> length d" by linarith
  then show ?thesis by (simp add: rd_def tail_of_def add.commute)
qed

lemma u64_norm: "x = x AND (0xFFFFFFFFFFFFFFFF :: u64)"
proof -
  have "x AND mask 64 = x" by (simp flip: take_bit_eq_mask) (simp add: take_bit_length_eq[where 'a=64, simplified])
  then show ?thesis by (simp add: mask_eq_exp_minus_1)
qed

subsection \<open>Packing macros\<close>

text \<open>
  \<^verbatim>\<open>PACK32\<close>, \<^verbatim>\<open>UNPACK32\<close>, \<^verbatim>\<open>GET_UINT32_BE\<close>, \<^verbatim>\<open>PUT_UINT32_BE\<close>, \<^verbatim>\<open>PACK64\<close> and \<^verbatim>\<open>UNPACK64\<close>:
  each hash file has its own copy; \<open>le\<close> and \<open>be\<close> is the order of the bytes.
\<close>

definition get_le32 :: "u8 list \<Rightarrow> nat \<Rightarrow> u32" where
  "get_le32 b j = ucast (b ! j) OR push_bit 8 (ucast (b ! (j + 1)))
     OR push_bit 16 (ucast (b ! (j + 2))) OR push_bit 24 (ucast (b ! (j + 3)))"

definition put_le32 :: "u32 \<Rightarrow> u8 list" where
  "put_le32 w = [ucast w, ucast (drop_bit 8 w), ucast (drop_bit 16 w), ucast (drop_bit 24 w)]"

definition get_be32 :: "u8 list \<Rightarrow> nat \<Rightarrow> u32" where
  "get_be32 b j = push_bit 24 (ucast (b ! j)) OR push_bit 16 (ucast (b ! (j + 1)))
     OR push_bit 8 (ucast (b ! (j + 2))) OR ucast (b ! (j + 3))"

definition put_be32 :: "u32 \<Rightarrow> u8 list" where
  "put_be32 w = [ucast (drop_bit 24 w), ucast (drop_bit 16 w), ucast (drop_bit 8 w), ucast w]"

definition get_be64 :: "u8 list \<Rightarrow> nat \<Rightarrow> u64" where
  "get_be64 b j = push_bit 56 (ucast (b ! j)) OR push_bit 48 (ucast (b ! (j + 1)))
     OR push_bit 40 (ucast (b ! (j + 2))) OR push_bit 32 (ucast (b ! (j + 3)))
     OR push_bit 24 (ucast (b ! (j + 4))) OR push_bit 16 (ucast (b ! (j + 5)))
     OR push_bit 8 (ucast (b ! (j + 6))) OR ucast (b ! (j + 7))"

definition put_be64 :: "u64 \<Rightarrow> u8 list" where
  "put_be64 w = [ucast (drop_bit 56 w), ucast (drop_bit 48 w), ucast (drop_bit 40 w), ucast (drop_bit 32 w),
     ucast (drop_bit 24 w), ucast (drop_bit 16 w), ucast (drop_bit 8 w), ucast w]"

lemma length_put [simp]:
  "length (put_le32 w) = 4" "length (put_be32 w) = 4" "length (put_be64 v) = 8"
  by (simp_all add: put_le32_def put_be32_def put_be64_def)

text \<open>Four bytes in little-endian order.\<close>

lemma byte_plus: "ucast (a :: u8) + 256 * y = (ucast a OR push_bit 8 y :: u32)"
proof -
  have "ucast a + push_bit 8 y = (ucast a OR push_bit 8 y :: u32)"
    by (rule disjunctive_add) (auto simp: bit_simps dest: bit_imp_le_length)
  then show ?thesis by (simp add: push_bit_eq_mult mult.commute)
qed

lemma word_of_bytes_le32:
  "word_of_bytes False [a, b, c, d]
     = (ucast a OR push_bit 8 (ucast b) OR push_bit 16 (ucast c) OR push_bit 24 (ucast d) :: u32)"
proof -
  have "word_of_bytes False [a, b, c, d]
      = (ucast a + 256 * (ucast b + 256 * (ucast c + 256 * (ucast d + 256 * 0))) :: u32)"
    by (simp add: word_of_bytes_def)
  then show ?thesis by (simp only: byte_plus) (simp add: push_bit_or or.assoc)
qed

lemma bit_u32_eqI:
  assumes "list_all (\<lambda>n. bit x n = bit y n) [0..<32]"
  shows "x = (y :: u32)"
  using assms by (intro bit_word_eqI) (simp add: list_all_iff)

lemma load_words_le32:
  assumes "length b = 64"
  shows "load_words False b = map (\<lambda>i. get_le32 b (4 * i)) [0..<16]"
proof (rule nth_equalityI)
  show "length (load_words False b :: u32 list) = length (map (\<lambda>i. get_le32 b (4 * i)) [0..<16])"
    using assms by (simp add: load_words_def)
next
  fix i assume "i < length (load_words False b :: u32 list)"
  then have i: "i < 16" using assms by (simp add: load_words_def)
  have "chunks 4 b ! i = take 4 (drop (4 * i) b)"
    using assms i by (simp add: nth_chunks)
  moreover have "\<dots> = [b ! (4 * i), b ! (4 * i + 1), b ! (4 * i + 2), b ! (4 * i + 3)]"
    using assms i by (intro nth_equalityI) (auto simp: less_Suc_eq numeral_eq_Suc nth_Cons' add.commute)
  ultimately show "load_words False b ! i = map (\<lambda>i. get_le32 b (4 * i)) [0..<16] ! i"
    using assms i by (simp add: load_words_def get_le32_def word_of_bytes_le32)
qed

text \<open>The comparison every self-test makes with the digest it expects.\<close>

definition check_digest :: "ByteArray \<Rightarrow> u8 list \<Rightarrow> unit res" where
  "check_digest H expected =
     (if ba_len H \<noteq> length expected then Inl RET_SELF_TEST_FAIL
      else DO (rd (data H) 0 (length expected)) (\<lambda>xs.
        if memcmp xs expected \<noteq> 0 then Inl RET_SELF_TEST_FAIL else Inr ()))"

lemma check_digest_eq: "check_digest (mk_ba xs) xs = Inr ()"
  by (simp add: check_digest_def memcmp_0_iff)

lemma length_ascii: "length (ascii s) = length s"
  by (simp add: ascii_def)

subsection \<open>Counters of bits and bytes\<close>

text \<open>
  A counter of twice the word size kept in two words; the carry is detected by
  comparing the new low word with the increment.
\<close>

lemma add_div_small:
  assumes "x < B" and "y < B"
  shows "(x + y) div B = (if B \<le> x + y then 1 else 0 :: nat)"
proof (cases "B \<le> x + y")
  case True
  have "(x + y) div B = 1" by (rule div_nat_eqI) (use True assms in simp_all)
  with True show ?thesis by simp
qed simp

lemma carry_add:
  assumes "inc < 2 ^ LENGTH('a)"
  shows "(of_nat ((n + inc) div 2 ^ LENGTH('a)) :: 'a::len word)
     = of_nat (n div 2 ^ LENGTH('a)) + (if (of_nat (n + inc) :: 'a word) < of_nat inc then 1 else 0)"
proof -
  let ?B = "2 ^ LENGTH('a) :: nat"
  have lt: "n mod ?B < ?B" by simp
  have "n + inc = (n mod ?B + inc) + ?B * (n div ?B)" by simp
  then have "(n + inc) div ?B = ((n mod ?B + inc) + ?B * (n div ?B)) div ?B" by (rule arg_cong)
  also have "\<dots> = n div ?B + (n mod ?B + inc) div ?B"
    by (rule div_mult_self2) simp
  finally have dv: "(n + inc) div ?B = n div ?B + (n mod ?B + inc) div ?B" .
  have "(of_nat (n + inc) :: 'a word) < of_nat inc \<longleftrightarrow> (n + inc) mod ?B < inc"
    using assms by (simp add: word_less_nat_alt unat_of_nat del: of_nat_add)
  also have "(n + inc) mod ?B = (n mod ?B + inc) mod ?B" by (simp add: mod_simps)
  also have "\<dots> < inc \<longleftrightarrow> ?B \<le> n mod ?B + inc"
  proof (cases "?B \<le> n mod ?B + inc")
    case True
    moreover have "n mod ?B + inc - ?B < ?B" using lt assms by linarith
    ultimately have "(n mod ?B + inc) mod ?B = n mod ?B + inc - ?B"
      by (simp only: le_mod_geq mod_less)
    with True lt show ?thesis by linarith
  next
    case False
    then show ?thesis by simp
  qed
  finally have c: "(of_nat (n + inc) :: 'a word) < of_nat inc \<longleftrightarrow> ?B \<le> n mod ?B + inc" .
  have "(n mod ?B + inc) div ?B = (if ?B \<le> n mod ?B + inc then 1 else 0)"
    using lt assms by (rule add_div_small)
  then show ?thesis unfolding c dv by simp

qed

lemma unat_masked_index:
  fixes w :: "'a::len word"
  assumes "w = of_nat (8 * n)" and "9 \<le> LENGTH('a)"
  shows "unat (drop_bit 3 w AND mask 6) = n mod 64"
proof -
  have "unat (drop_bit 3 w AND mask 6) = unat w div 2 ^ 3 mod 2 ^ 6"
    unfolding take_bit_eq_mask [symmetric] unsigned_take_bit_eq unat_drop_bit_eq
    by (simp only: take_bit_eq_mod drop_bit_eq_div)
  also have "unat w = 8 * n mod 2 ^ LENGTH('a)"
    by (simp only: assms(1) unat_of_nat)
  also have "\<dots> div 2 ^ 3 mod 2 ^ 6 = n mod 64"
  proof -
    define K :: nat where "K = 2 ^ (LENGTH('a) - 9)"
    have "LENGTH('a) = 9 + (LENGTH('a) - 9)" using assms(2) by simp
    then have "(2::nat) ^ LENGTH('a) = 2 ^ 9 * K" unfolding K_def by (metis power_add)
    then have K: "(2::nat) ^ LENGTH('a) = 8 * (64 * K)" by simp
    have "8 * n mod (8 * (64 * K)) div 8 mod 64 = n mod 64"
      unfolding mod_mult_mult1 by (simp add: mod_mod_cancel)
    then show ?thesis unfolding K by simp
  qed
  finally show ?thesis .
qed

subsection \<open>The interface of a hash algorithm\<close>

text \<open>Feeding a list of fragments one by one, as every caller does.\<close>

primrec feed :: "('c \<Rightarrow> ByteArray \<Rightarrow> 'c res) \<Rightarrow> 'c \<Rightarrow> ByteArray list \<Rightarrow> 'c res" where
  "feed upd c [] = Inr c"
| "feed upd c (a # as) = DO (upd c a) (\<lambda>c'. feed upd c' as)"

text \<open>
  A context holds a message; updating appends, finishing yields the digest of the message
  and leaves a context that holds the empty message. \<open>max_frag\<close> is the longest fragment
  the algorithm takes in one call.
\<close>

locale hash_alg =
  fixes start :: 'c
    and upd :: "'c \<Rightarrow> ByteArray \<Rightarrow> 'c res"
    and fin :: "mem \<Rightarrow> 'c \<Rightarrow> ByteArray res \<times> 'c"
    and holds :: "'c \<Rightarrow> u8 list \<Rightarrow> bool"
    and digest :: "u8 list \<Rightarrow> u8 list"
    and max_frag :: nat
  assumes holds_start: "holds start []"
    and upd_holds: "holds c m \<Longrightarrow> wf_ba a \<Longrightarrow> ba_len a \<le> max_frag \<Longrightarrow>
          \<exists>c'. upd c a = Inr c' \<and> holds c' (m @ data a)"
    and fin_holds: "holds c m \<Longrightarrow> mem_ok M \<Longrightarrow>
          \<exists>c'. fin M c = (Inr (mk_ba (digest m)), c') \<and> holds c' []"
begin

lemma feed_holds:
  assumes "holds c m" and "\<forall>a \<in> set as. wf_ba a \<and> ba_len a \<le> max_frag"
  shows "\<exists>c'. feed upd c as = Inr c' \<and> holds c' (m @ concat (map data as))"
  using assms
proof (induction as arbitrary: c m)
  case Nil
  then show ?case by simp
next
  case (Cons a as)
  then obtain c' where c': "upd c a = Inr c'" "holds c' (m @ data a)"
    using upd_holds[of c m a] by auto
  then show ?case using Cons.IH[of c' "m @ data a"] Cons.prems(2) by simp
qed

lemma feed_digest:
  assumes "holds c []" and "\<forall>a \<in> set as. wf_ba a \<and> ba_len a \<le> max_frag" and "mem_ok M"
  shows "\<exists>c' c''. feed upd c as = Inr c' \<and> fin M c' = (Inr (mk_ba (digest (concat (map data as)))), c'')
     \<and> holds c'' []"
  using feed_holds[OF assms(1,2)] fin_holds[OF _ assms(3)] by fastforce

text \<open>How the message is cut into fragments does not matter.\<close>

lemma feed_fragments:
  assumes "holds c []" and "\<forall>a \<in> set as \<union> set bs. wf_ba a \<and> ba_len a \<le> max_frag" and "mem_ok M"
    and "concat (map data as) = concat (map data bs)"
    and "feed upd c as = Inr c1" and "feed upd c bs = Inr c2"
  shows "fst (fin M c1) = fst (fin M c2)"
proof -
  have "\<forall>a \<in> set as. wf_ba a \<and> ba_len a \<le> max_frag" and "\<forall>a \<in> set bs. wf_ba a \<and> ba_len a \<le> max_frag"
    using assms(2) by auto
  with feed_digest[OF assms(1) _ assms(3), of as] feed_digest[OF assms(1) _ assms(3), of bs] assms(4-6)
  show ?thesis by auto
qed

end

end
