(* ===== verification/Md5.thy ===== *)
theory Md5
  imports BlockHash
begin

text \<open>
  MD5: \<^verbatim>\<open>uapkic/src/md5.c\<close>.
\<close>

subsection \<open>The context\<close>

text \<open>\<^verbatim>\<open>struct MD5Ctx_st\<close>: four state words, the bit counter in two words, the buffer.\<close>

record Md5Ctx =
  md5_state :: "u32 list"
  md5_count :: "u32 list"
  md5_buffer :: "u8 list"

definition sizeof_Md5Ctx :: nat where "sizeof_Md5Ctx = 88"

definition md5_PADDING :: "u8 list" where
  "md5_PADDING = 0x80 # replicate 63 0"

subsection \<open>The transform\<close>

definition md5_F :: "u32 \<Rightarrow> u32 \<Rightarrow> u32 \<Rightarrow> u32" where
  "md5_F x y z = (x AND y) OR (NOT x AND z)"

definition md5_G :: "u32 \<Rightarrow> u32 \<Rightarrow> u32 \<Rightarrow> u32" where
  "md5_G x y z = (x AND z) OR (y AND NOT z)"

definition md5_H :: "u32 \<Rightarrow> u32 \<Rightarrow> u32 \<Rightarrow> u32" where
  "md5_H x y z = x XOR y XOR z"

definition md5_I :: "u32 \<Rightarrow> u32 \<Rightarrow> u32 \<Rightarrow> u32" where
  "md5_I x y z = y XOR (x OR NOT z)"

definition md5_ROTATE_LEFT :: "u32 \<Rightarrow> nat \<Rightarrow> u32" where
  "md5_ROTATE_LEFT x n = push_bit n x OR drop_bit (32 - n) x"

text \<open>
  One macro call \<^verbatim>\<open>FF(a, b, c, d, x[k], s, ac)\<close>; the next call of the source names the
  variables rotated by one place, so the step rotates the tuple. The tables list
  \<open>(k, s, ac)\<close> of the sixteen calls of each round.
\<close>

definition md5_step ::
    "(u32 \<Rightarrow> u32 \<Rightarrow> u32 \<Rightarrow> u32) \<Rightarrow> u32 \<Rightarrow> nat \<Rightarrow> u32 \<Rightarrow> u32 \<times> u32 \<times> u32 \<times> u32 \<Rightarrow> u32 \<times> u32 \<times> u32 \<times> u32" where
  "md5_step f x s ac v = (case v of (a, b, c, d) \<Rightarrow>
     (d, md5_ROTATE_LEFT (a + (f b c d + x + ac)) s + b, b, c))"

primrec md5_round ::
    "(u32 \<Rightarrow> u32 \<Rightarrow> u32 \<Rightarrow> u32) \<Rightarrow> u32 list \<Rightarrow> (nat \<times> nat \<times> u32) list
     \<Rightarrow> u32 \<times> u32 \<times> u32 \<times> u32 \<Rightarrow> u32 \<times> u32 \<times> u32 \<times> u32" where
  "md5_round f x [] v = v"
| "md5_round f x (r # rs) v = (case r of (k, s, ac) \<Rightarrow> md5_round f x rs (md5_step f (x ! k) s ac v))"

definition md5_tab_FF :: "(nat \<times> nat \<times> u32) list" where
  "md5_tab_FF =
  [(0, 7, 0xd76aa478), (1, 12, 0xe8c7b756), (2, 17, 0x242070db), (3, 22, 0xc1bdceee),
   (4, 7, 0xf57c0faf), (5, 12, 0x4787c62a), (6, 17, 0xa8304613), (7, 22, 0xfd469501),
   (8, 7, 0x698098d8), (9, 12, 0x8b44f7af), (10, 17, 0xffff5bb1), (11, 22, 0x895cd7be),
   (12, 7, 0x6b901122), (13, 12, 0xfd987193), (14, 17, 0xa679438e), (15, 22, 0x49b40821)]"

definition md5_tab_GG :: "(nat \<times> nat \<times> u32) list" where
  "md5_tab_GG =
  [(1, 5, 0xf61e2562), (6, 9, 0xc040b340), (11, 14, 0x265e5a51), (0, 20, 0xe9b6c7aa),
   (5, 5, 0xd62f105d), (10, 9, 0x2441453), (15, 14, 0xd8a1e681), (4, 20, 0xe7d3fbc8),
   (9, 5, 0x21e1cde6), (14, 9, 0xc33707d6), (3, 14, 0xf4d50d87), (8, 20, 0x455a14ed),
   (13, 5, 0xa9e3e905), (2, 9, 0xfcefa3f8), (7, 14, 0x676f02d9), (12, 20, 0x8d2a4c8a)]"

definition md5_tab_HH :: "(nat \<times> nat \<times> u32) list" where
  "md5_tab_HH =
  [(5, 4, 0xfffa3942), (8, 11, 0x8771f681), (11, 16, 0x6d9d6122), (14, 23, 0xfde5380c),
   (1, 4, 0xa4beea44), (4, 11, 0x4bdecfa9), (7, 16, 0xf6bb4b60), (10, 23, 0xbebfbc70),
   (13, 4, 0x289b7ec6), (0, 11, 0xeaa127fa), (3, 16, 0xd4ef3085), (6, 23, 0x4881d05),
   (9, 4, 0xd9d4d039), (12, 11, 0xe6db99e5), (15, 16, 0x1fa27cf8), (2, 23, 0xc4ac5665)]"

definition md5_tab_II :: "(nat \<times> nat \<times> u32) list" where
  "md5_tab_II =
  [(0, 6, 0xf4292244), (7, 10, 0x432aff97), (14, 15, 0xab9423a7), (5, 21, 0xfc93a039),
   (12, 6, 0x655b59c3), (3, 10, 0x8f0ccc92), (10, 15, 0xffeff47d), (1, 21, 0x85845dd1),
   (8, 6, 0x6fa87e4f), (15, 10, 0xfe2ce6e0), (6, 15, 0xa3014314), (13, 21, 0x4e0811a1),
   (4, 6, 0xf7537e82), (11, 10, 0xbd3af235), (2, 15, 0x2ad7d2bb), (9, 21, 0xeb86d391)]"

definition md5_basic_transform :: "u32 list \<Rightarrow> u8 list \<Rightarrow> u32 list" where
  "md5_basic_transform st block =
     (let x = map (\<lambda>i. get_le32 block (4 * i)) [0..<16];
          v = (st ! 0, st ! 1, st ! 2, st ! 3);
          v = md5_round md5_F x md5_tab_FF v;
          v = md5_round md5_G x md5_tab_GG v;
          v = md5_round md5_H x md5_tab_HH v
      in case md5_round md5_I x md5_tab_II v of (a, b, c, d) \<Rightarrow>
           [st ! 0 + a, st ! 1 + b, st ! 2 + c, st ! 3 + d])"

subsection \<open>Operations\<close>

definition md5_iv :: "u32 list" where
  "md5_iv = [0x67452301, 0xefcdab89, 0x98badcfe, 0x10325476]"

definition md5_init :: "Md5Ctx option \<Rightarrow> Md5Ctx res" where
  "md5_init ctx = NOT_NULL ctx (\<lambda>_.
     Inr \<lparr>md5_state = md5_iv, md5_count = [0, 0], md5_buffer = replicate 64 0\<rparr>)"

definition md5_alloc :: "mem \<Rightarrow> Md5Ctx option res" where
  "md5_alloc M = to_ptr (CALLOC_CHECKED M sizeof_Md5Ctx
     (md5_init (Some \<lparr>md5_state = replicate 4 0, md5_count = [0, 0], md5_buffer = replicate 64 0\<rparr>)))"

definition md5_copy_with_alloc :: "mem \<Rightarrow> Md5Ctx \<Rightarrow> Md5Ctx option res" where
  "md5_copy_with_alloc M ctx = to_ptr (CALLOC_CHECKED M sizeof_Md5Ctx (Inr ctx))"

text \<open>No check of \<^verbatim>\<open>md5_update\<close> fails after it has changed the context.\<close>

definition md5_update :: "Md5Ctx option \<Rightarrow> ByteArray option \<Rightarrow> Md5Ctx res" where
  "md5_update ctx data_ba = NOT_NULL ctx (\<lambda>ctx. NOT_NULL data_ba (\<lambda>ba.
     let data_buf = data ba; data_len = ba_len ba
     in CHECK_PARAM (data_len \<le> 0x1FFFFFFF) (
        let index = unat (drop_bit 3 (md5_count ctx ! 0) AND 0x3F);
            inc = push_bit 3 (of_nat data_len :: u32);
            count0 = md5_count ctx ! 0 + inc;
            count1 = md5_count ctx ! 1 + (if count0 < inc then 1 else 0);
            count1 = count1 + drop_bit 29 (of_nat data_len :: u32);
            part_len = 64 - index
        in DO (if data_len \<ge> part_len
               then DO (rd data_buf 0 part_len) (\<lambda>xs. DO (wr (md5_buffer ctx) index xs) (\<lambda>buffer.
                      DO (for_blocks 64 (\<lambda>st b. Inr (md5_basic_transform st b)) data_buf part_len data_len
                            (md5_basic_transform (md5_state ctx) buffer)) (\<lambda>(st, i).
                      Inr (st, buffer, 0, i))))
               else Inr (md5_state ctx, md5_buffer ctx, index, 0)) (\<lambda>(st, buffer, index, i).
           DO (rd data_buf i (data_len - i)) (\<lambda>xs. DO (wr buffer index xs) (\<lambda>buffer.
           Inr \<lparr>md5_state = st, md5_count = [count0, count1], md5_buffer = buffer\<rparr>))))))"

text \<open>
  \<^verbatim>\<open>md5_final\<close> pads by updating the context; when an allocation fails on the way the
  caller is left with the partly padded context.
\<close>

definition md5_final :: "mem \<Rightarrow> Md5Ctx option \<Rightarrow> ByteArray res \<times> Md5Ctx option" where
  "md5_final M ctx = (case ctx of None \<Rightarrow> (Inl RET_INVALID_PARAM, None)
     | Some c \<Rightarrow>
         let bits = put_le32 (md5_count c ! 0) @ put_le32 (md5_count c ! 1);
             index = unat (drop_bit 3 (md5_count c ! 0) AND 0x3F);
             pad_len = (if index < 56 then 56 - index else 120 - index)
         in DO_ST (CHECK_NOT_NULL (ba_alloc_from_uint8 M (Some md5_PADDING) pad_len) Inr) (Some c) (\<lambda>ba_padding.
            DO_ST (md5_update (Some c) (Some ba_padding)) (Some c) (\<lambda>c1.
            DO_ST (CHECK_NOT_NULL (ba_alloc_from_uint8 M (Some bits) 8) Inr) (Some c1) (\<lambda>ba_bits.
            DO_ST (md5_update (Some c1) (Some ba_bits)) (Some c1) (\<lambda>c2.
            let c3 = c2\<lparr>md5_count := md5_count c\<rparr>;
                digest = put_le32 (md5_state c3 ! 0) @ put_le32 (md5_state c3 ! 1)
                  @ put_le32 (md5_state c3 ! 2) @ put_le32 (md5_state c3 ! 3)
            in DO_ST (CHECK_NOT_NULL (ba_alloc_from_uint8 M (Some digest) 16) Inr) (Some c3) (\<lambda>hash_code.
               DO_ST (md5_init (Some c3)) (Some c3) (\<lambda>c4. (Inr hash_code, Some c4))))))))"

definition md5_get_block_size :: "Md5Ctx option \<Rightarrow> nat" where
  "md5_get_block_size ctx = 64"

subsection \<open>The self-test\<close>

definition md5_self_test :: "mem \<Rightarrow> unit res" where
  "md5_self_test M =
     CHECK_NOT_NULL (md5_alloc M) (\<lambda>ctx.
     DO (md5_update (Some ctx) (Some (mk_ba (ascii ''abc'')))) (\<lambda>ctx.
     case md5_final M (Some ctx) of (r, ctx) \<Rightarrow> DO r (\<lambda>H.
     DO (check_digest H
       [0x90, 0x01, 0x50, 0x98, 0x3C, 0xD2, 0x4F, 0xB0, 0xD6, 0x96, 0x3F, 0x7D, 0x28, 0xE1, 0x7F, 0x72]) (\<lambda>_.
     DO (md5_update ctx (Some (mk_ba (ascii
       ''ABCDEFGHIJKLMNOPQRSTUVWXYZabcdefghijklmnopqrstuvwxyz0123456789'')))) (\<lambda>ctx.
     case md5_final M (Some ctx) of (r, ctx) \<Rightarrow> DO r (\<lambda>H.
     check_digest H
       [0xD1, 0x74, 0xAB, 0x98, 0xD2, 0x77, 0xD9, 0xF5, 0xA5, 0x61, 0x1C, 0x2C, 0x9F, 0x41, 0x9D, 0x9F]))))))"

subsection \<open>What a context stands for\<close>

text \<open>The digest of RFC 1321: one bit, zeros up to 56 modulo 64, the bit length in 64 bits.\<close>

definition md5_length :: "nat \<Rightarrow> u8 list" where
  "md5_length n = put_le32 (of_nat (8 * n)) @ put_le32 (of_nat (8 * n div 2 ^ 32))"

definition md5 :: "u8 list \<Rightarrow> u8 list" where
  "md5 m = concat (map put_le32
     (foldl md5_basic_transform md5_iv (chunks 64 (m @ md_pad 64 (length m) (md5_length (length m))))))"

definition md5_holds :: "Md5Ctx \<Rightarrow> u8 list \<Rightarrow> bool" where
  "md5_holds c m \<longleftrightarrow>
     absorbed 64 md5_basic_transform md5_iv (md5_state c) (md5_buffer c) m \<and> length (md5_buffer c) = 64 \<and>
     md5_count c = [of_nat (8 * length m), of_nat (8 * length m div 2 ^ 32)]"

subsection \<open>Update appends\<close>

lemma md5_transform_blocks:
  "i \<le> n \<Longrightarrow> n \<le> length buf \<Longrightarrow>
   for_blocks 64 (\<lambda>st b. Inr (md5_basic_transform st b)) buf i n st
     = Inr (foldl md5_basic_transform st (chunks 64 (drop i (take n buf))), i + 64 * ((n - i) div 64))"
  by (rule for_blocks_eq[where P = "\<lambda>_. True"]) simp_all

lemma md5_index:
  "unat (drop_bit 3 (of_nat (8 * n) :: u32) AND 0x3F) = n mod 64"
  using unat_masked_index[of "of_nat (8 * n) :: u32" n] by (simp add: mask_eq_exp_minus_1)

lemma md5_count_step:
  assumes "k \<le> 0x1FFFFFFF"
  defines "inc \<equiv> push_bit 3 (of_nat k :: u32)"
  shows "of_nat (8 * n) + inc = of_nat (8 * (n + k))"
    and "of_nat (8 * n div 2 ^ 32) + (if of_nat (8 * n) + inc < inc then 1 else 0) + drop_bit 29 (of_nat k :: u32)
       = of_nat (8 * (n + k) div 2 ^ 32)"
proof -
  have inc: "inc = of_nat (8 * k)" by (simp add: inc_def push_bit_eq_mult)
  show 1: "of_nat (8 * n) + inc = of_nat (8 * (n + k))"
    unfolding inc by (simp only: add_mult_distrib2 of_nat_add)
  have "drop_bit 29 (of_nat k :: u32) = 0"
  proof -
    have "unat (drop_bit 29 (of_nat k :: u32)) = k mod 2 ^ 32 div 2 ^ 29"
      by (simp only: unat_drop_bit_eq unat_of_nat) (simp add: drop_bit_eq_div)
    also have "\<dots> = 0" using assms(1) by simp
    finally show ?thesis by (simp only: unat_eq_zero)
  qed
  moreover have "8 * n + 8 * k = 8 * (n + k)" by simp
  ultimately show "of_nat (8 * n div 2 ^ 32) + (if of_nat (8 * n) + inc < inc then 1 else 0) + drop_bit 29 (of_nat k :: u32)
       = of_nat (8 * (n + k) div 2 ^ 32)"
    using carry_add[of "8 * k" "8 * n", where 'a=32] assms(1) 1
    by (simp add: inc)
qed

lemma md5_update_holds:
  assumes h: "md5_holds c m" and a: "wf_ba a" "ba_len a \<le> 0x1FFFFFFF"
  shows "\<exists>c'. md5_update (Some c) (Some a) = Inr c' \<and> md5_holds c' (m @ data a)"
proof -
  define d where "d = data a"
  define idx where "idx = length m mod 64"
  define n where "n = ba_len a"
  define st where "st = md5_state c"
  define c0 where "c0 = (of_nat (8 * length m) :: u32)"
  define c1 where "c1 = (of_nat (8 * length m div 2 ^ 32) :: u32)"
  define c0' where "c0' = (of_nat (8 * (length m + n)) :: u32)"
  define c1' where "c1' = (of_nat (8 * (length m + n) div 2 ^ 32) :: u32)"
  have d: "length d = n" and n: "n \<le> 0x1FFFFFFF" and ad: "ba_len a = n" "data a = d"
    using a by (simp_all add: d_def n_def)
  have lt: "idx < 64" by (simp add: idx_def)
  from h have ab: "absorbed 64 md5_basic_transform md5_iv st (md5_buffer c) m"
    and lb: "length (md5_buffer c) = 64" and cnt: "md5_count c = [c0, c1]"
    by (simp_all only: md5_holds_def c0_def c1_def st_def)
  have i: "unat (drop_bit 3 c0 AND 0x3F) = idx"
    unfolding c0_def idx_def by (rule md5_index)
  have s0: "c0 + push_bit 3 (of_nat n) = c0'"
    unfolding c0_def c0'_def by (rule md5_count_step(1)[OF n])
  have s1: "c1 + (if c0' < push_bit 3 (of_nat n) then 1 else 0) + drop_bit 29 (of_nat n) = c1'"
    using md5_count_step(2)[OF n, of "length m"] s0 unfolding c0_def c1_def c1'_def by (simp only:)
  have cnt': "[c0', c1'] = [of_nat (8 * length (m @ d)), of_nat (8 * length (m @ d) div 2 ^ 32)]"
    using d by (simp only: c0'_def c1'_def length_append)
  show ?thesis
  proof (cases "64 \<le> idx + n")
    case False
    define buf where "buf = take idx (md5_buffer c) @ d @ drop (idx + n) (md5_buffer c)"
    have ng: "\<not> 64 - idx \<le> n" using False by simp
    have "md5_update (Some c) (Some a) = Inr \<lparr>md5_state = st, md5_count = [c0', c1'], md5_buffer = buf\<rparr>"
      using False lt n lb
      by (simp only: md5_update_def NOT_NULL_simps Let_def ad cnt nth_Cons_0 nth_Cons_Suc One_nat_def i s0 s1)
        (simp add: d ng buf_def st_def)
    moreover have "md5_holds \<lparr>md5_state = st, md5_count = [c0', c1'], md5_buffer = buf\<rparr> (m @ d)"
      unfolding md5_holds_def cnt'
      using absorbed_short[OF ab idx_def, of d] False d lb by (simp add: buf_def)
    ultimately show ?thesis by (simp add: ad)
  next
    case True
    define r where "r = 64 - idx"
    have r: "r \<le> n" "r \<le> 64" "idx + r = 64" using True lt by (simp_all add: r_def)
    define b where "b = take idx (md5_buffer c) @ take r d"
    define st' where "st' = foldl md5_basic_transform (md5_basic_transform st b) (chunks 64 (drop r d))"
    define t where "t = tail_of 64 (drop r d)"
    have w: "wr (md5_buffer c) idx (take r d) = Inr b"
      using r d lb by (simp add: b_def)
    have f: "for_blocks 64 (\<lambda>st b. Inr (md5_basic_transform st b)) d r n (md5_basic_transform st b)
        = Inr (st', r + 64 * ((n - r) div 64))"
      using r d by (simp add: md5_transform_blocks st'_def)
    have rt: "rd d (r + 64 * ((n - r) div 64)) (n - (r + 64 * ((n - r) div 64))) = Inr t"
      unfolding t_def d [symmetric] by (rule rd_rest) (use r d in simp)
    have lb': "length b = 64" using r d lb by (simp add: b_def)
    have lt': "length t \<le> 64" unfolding t_def by simp
    have "md5_update (Some c) (Some a) = Inr \<lparr>md5_state = st', md5_count = [c0', c1'],
        md5_buffer = t @ drop (length t) b\<rparr>"
      using n r d lb' lt'
      by (simp only: md5_update_def NOT_NULL_simps Let_def ad st_def [symmetric] cnt nth_Cons_0 nth_Cons_Suc
          One_nat_def i s0 s1 r_def [symmetric] CHECK_PARAM_simps if_True rd_ok add_0 drop_0 DO_simps w f
          prod.case rt wr_ok take_0 append_Nil)
    moreover have "absorbed 64 md5_basic_transform md5_iv st' (t @ drop (length t) b) (m @ d)"
    proof (rule absorbed_full[OF ab idx_def _ _ r_def])
      show "64 \<le> length (t @ drop (length t) b)" using lb' lt' by simp
    qed (use True d in \<open>simp_all add: st'_def b_def t_def\<close>)
    then have "md5_holds \<lparr>md5_state = st', md5_count = [c0', c1'], md5_buffer = t @ drop (length t) b\<rparr> (m @ d)"
      unfolding md5_holds_def cnt' using lb' lt' by simp
    ultimately show ?thesis by (simp add: ad)
  qed
qed

subsection \<open>Test vectors in the kernel\<close>

lemma md5_step_eval:
  "md5_step f x s ac (a, b, c, d) =
     (d, (md5_ROTATE_LEFT ((a + (f b c d + x + ac)) AND 0xFFFFFFFF) s + b) AND 0xFFFFFFFF, b, c)"
  unfolding md5_step_def prod.case u32_norm [symmetric] ..

lemma md5_round_eval:
  "md5_round f x ((k, s, ac) # rs) v = md5_round f x rs (md5_step f (x ! k) s ac v)"
  by simp

lemma md5_transform_eval:
  "md5_basic_transform [a, b, c, d] block =
     (case md5_round md5_I (map (get_le32 block) [0, 4, 8, 12, 16, 20, 24, 28, 32, 36, 40, 44, 48, 52, 56, 60]) md5_tab_II
          (md5_round md5_H (map (get_le32 block) [0, 4, 8, 12, 16, 20, 24, 28, 32, 36, 40, 44, 48, 52, 56, 60]) md5_tab_HH
          (md5_round md5_G (map (get_le32 block) [0, 4, 8, 12, 16, 20, 24, 28, 32, 36, 40, 44, 48, 52, 56, 60]) md5_tab_GG
          (md5_round md5_F (map (get_le32 block) [0, 4, 8, 12, 16, 20, 24, 28, 32, 36, 40, 44, 48, 52, 56, 60]) md5_tab_FF
            (a, b, c, d)))) of
       (a', b', c', d') \<Rightarrow> [(a + a') AND 0xFFFFFFFF, (b + b') AND 0xFFFFFFFF, (c + c') AND 0xFFFFFFFF, (d + d') AND 0xFFFFFFFF])"
proof -
  have "map (\<lambda>i. get_le32 block (4 * i)) [0..<16]
      = map (get_le32 block) [0, 4, 8, 12, 16, 20, 24, 28, 32, 36, 40, 44, 48, 52, 56, 60]"
    by (simp add: upt_rec)
  then show ?thesis
    unfolding md5_basic_transform_def u32_norm [symmetric] Let_def by simp
qed

lemmas md5_eval = md5_step_eval md5_round_eval md5_transform_eval get_le32_def
  md5_F_def md5_G_def md5_H_def md5_I_def md5_ROTATE_LEFT_def
  md5_tab_FF_def md5_tab_GG_def md5_tab_HH_def md5_tab_II_def md5_iv_def put_le32_def

lemma md5_abc:
  "md5 (ascii ''abc'') =
     [0x90, 0x01, 0x50, 0x98, 0x3C, 0xD2, 0x4F, 0xB0, 0xD6, 0x96, 0x3F, 0x7D, 0x28, 0xE1, 0x7F, 0x72]"
  by (simp add: md5_def md_pad_def md5_length_def ascii_def replicate_numeral chunks_rec chunks_short md5_eval
      del: md5_round.simps(2))

lemma md5_alphabet:
  "md5 (ascii ''ABCDEFGHIJKLMNOPQRSTUVWXYZabcdefghijklmnopqrstuvwxyz0123456789'') =
       [0xD1, 0x74, 0xAB, 0x98, 0xD2, 0x77, 0xD9, 0xF5, 0xA5, 0x61, 0x1C, 0x2C, 0x9F, 0x41, 0x9D, 0x9F]"
  by (simp add: md5_def md_pad_def md5_length_def ascii_def replicate_numeral chunks_rec chunks_short md5_eval
      del: md5_round.simps(2))

subsection \<open>Final computes the digest\<close>

definition md5_start :: Md5Ctx where
  "md5_start = \<lparr>md5_state = md5_iv, md5_count = [0, 0], md5_buffer = replicate 64 0\<rparr>"

lemma md5_init_eq: "md5_init (Some c) = Inr md5_start"
  by (simp add: md5_init_def md5_start_def)

lemma md5_alloc_eq: "mem_ok M \<Longrightarrow> md5_alloc M = Inr (Some md5_start)"
  by (simp add: md5_alloc_def md5_init_eq)

lemma md5_start_holds: "md5_holds md5_start []"
  by (simp add: md5_holds_def md5_start_def absorbed_Nil)

lemma md5_state_length: "length (foldl md5_basic_transform md5_iv bs) = 4"
proof -
  have "length (md5_basic_transform st b) = 4" for st b
    by (simp add: md5_basic_transform_def Let_def split: prod.split)
  then show ?thesis by (cases bs rule: rev_cases) (simp_all add: md5_iv_def)
qed

text \<open>The bytes \<^verbatim>\<open>md5_final\<close> appends are the padding of the specification.\<close>

lemma md5_padding:
  fixes n
  defines "p \<equiv> (if n mod 64 < 56 then 56 - n mod 64 else 120 - n mod 64)"
  shows "0 < p" and "p \<le> 64"
    and "take p md5_PADDING @ md5_length n = md_pad 64 n (md5_length n)"
proof -
  have lt: "n mod 64 < 64" by simp
  show p: "0 < p" "p \<le> 64" unfolding p_def using lt by (auto split: if_split)
  have l: "length (md5_length n) = 8" by (simp add: md5_length_def)
  have "(2 * 64 - 1 - length (md5_length n) - n mod 64) mod 64 = p - 1"
  proof (cases "n mod 64 < 56")
    case True
    then show ?thesis using md_zeros_one[of n 64 8] by (simp add: p_def l)
  next
    case False
    then show ?thesis using md_zeros_two[of 64 n 8] by (simp add: p_def l)
  qed
  moreover have "take p md5_PADDING = 0x80 # replicate (p - 1) 0"
    using p by (cases p) (simp_all add: md5_PADDING_def)
  ultimately show "take p md5_PADDING @ md5_length n = md_pad 64 n (md5_length n)"
    by (simp only: md_pad_def append_Cons append_assoc)
qed

lemma md5_final_holds:
  assumes h: "md5_holds c m" and M: "mem_ok M"
  shows "md5_final M (Some c) = (Inr (mk_ba (md5 m)), Some md5_start)"
proof -
  define n where "n = length m"
  define p where "p = (if n mod 64 < 56 then 56 - n mod 64 else 120 - n mod 64)"
  define bits where "bits = md5_length n"
  note p = md5_padding[of n, folded p_def bits_def]
  have cnt: "md5_count c = [of_nat (8 * n), of_nat (8 * n div 2 ^ 32)]"
    using h by (simp only: md5_holds_def n_def)
  have lp: "length md5_PADDING = 64" by (simp add: md5_PADDING_def)
  have lb: "length bits = 8" by (simp add: bits_def md5_length_def)
  have a1: "ba_alloc_from_uint8 M (Some md5_PADDING) p = Inr (Some (mk_ba (take p md5_PADDING)))"
    using M p(1,2) lp by (simp add: ba_alloc_from_uint8_eq)
  have a2: "ba_alloc_from_uint8 M (Some bits) 8 = Inr (Some (mk_ba bits))"
    using M lb by (simp add: ba_alloc_from_uint8_eq)
  obtain c1 where c1: "md5_update (Some c) (Some (mk_ba (take p md5_PADDING))) = Inr c1"
      "md5_holds c1 (m @ take p md5_PADDING)"
    using md5_update_holds[OF h, of "mk_ba (take p md5_PADDING)"] p(2) lp by auto
  obtain c2 where c2: "md5_update (Some c1) (Some (mk_ba bits)) = Inr c2"
      "md5_holds c2 ((m @ take p md5_PADDING) @ bits)"
    using md5_update_holds[OF c1(2), of "mk_ba bits"] lb by auto
  define st where "st = md5_state c2"
  have st: "st = foldl md5_basic_transform md5_iv (chunks 64 (m @ md_pad 64 n bits))"
    using c2(2) p(3) by (simp add: md5_holds_def absorbed_def st_def)
  then obtain s0 s1 s2 s3 where st4: "st = [s0, s1, s2, s3]"
    using md5_state_length[of "chunks 64 (m @ md_pad 64 n bits)"] by (auto simp: length_Suc_conv numeral_eq_Suc)
  define dg where "dg = put_le32 s0 @ put_le32 s1 @ put_le32 s2 @ put_le32 s3"
  have dg: "dg = md5 m"
    unfolding md5_def dg_def n_def [symmetric] bits_def [symmetric] st [symmetric] st4 by simp
  have a3: "ba_alloc_from_uint8 M (Some dg) 16 = Inr (Some (mk_ba dg))"
    using M by (simp add: ba_alloc_from_uint8_eq dg_def)
  have st': "md5_state (c2\<lparr>md5_count := x\<rparr>) = [s0, s1, s2, s3]" for x
    using st4 by (simp add: st_def)
  have "md5_final M (Some c) = (Inr (mk_ba dg), Some md5_start)"
    unfolding md5_final_def option.case Let_def cnt nth_Cons_0 One_nat_def nth_Cons_Suc md5_index
      md5_length_def [symmetric] bits_def [symmetric] p_def [symmetric] a1 CHECK_NOT_NULL_simps DO_ST_simps c1(1) a2 c2(1)
    by (simp add: st' a3 md5_init_eq flip: dg_def)
  with dg show ?thesis by simp
qed

interpretation md5: hash_alg md5_start "\<lambda>c a. md5_update (Some c) (Some a)"
    "\<lambda>M c. map_prod id the (md5_final M (Some c))" md5_holds md5 "0x1FFFFFFF"
  by unfold_locales
    (simp_all add: md5_start_holds md5_update_holds md5_final_holds)

subsection \<open>Properties\<close>

text \<open>MD5 in fragments: however a message is cut into fragments of at most
  \<open>0x1FFFFFFF\<close> bytes, \<^verbatim>\<open>md5_update\<close> accepts them and \<^verbatim>\<open>md5_final\<close> returns the RFC 1321
  digest of their concatenation and a context that is ready for the next message.\<close>

theorem md5_fragments:
  assumes "\<forall>a \<in> set frs. wf_ba a \<and> ba_len a \<le> 0x1FFFFFFF" and "mem_ok M"
  shows "\<exists>c. feed (\<lambda>c a. md5_update (Some c) (Some a)) md5_start frs = Inr c
     \<and> md5_final M (Some c) = (Inr (mk_ba (md5 (concat (map data frs)))), Some md5_start)"
proof -
  obtain c where "feed (\<lambda>c a. md5_update (Some c) (Some a)) md5_start frs = Inr c"
      "md5_holds c (concat (map data frs))"
    using md5.feed_holds[OF md5_start_holds assms(1)] by auto
  with md5_final_holds[OF _ assms(2)] show ?thesis by blast
qed

lemma md5_fragments_witness:
  "\<exists>c. feed (\<lambda>c a. md5_update (Some c) (Some a)) md5_start [mk_ba (ascii ''a''), mk_ba (ascii ''bc'')] = Inr c
     \<and> fst (md5_final ideal_mem (Some c)) = Inr (mk_ba (md5 (ascii ''abc'')))"
  using md5_fragments[of "[mk_ba (ascii ''a''), mk_ba (ascii ''bc'')]" ideal_mem]
  by (auto simp: ascii_def)

text \<open>The self-test of MD5 succeeds: the model computes the digests of RFC 1321 that
  the source has in its tables.\<close>

theorem md5_self_test_ok: "mem_ok M \<Longrightarrow> md5_self_test M = Inr ()"
proof -
  assume M: "mem_ok M"
  have *: "\<exists>c. md5_update (Some md5_start) (Some (mk_ba xs)) = Inr c
      \<and> md5_final M (Some c) = (Inr (mk_ba (md5 xs)), Some md5_start)" if "length xs \<le> 64" for xs
    using md5_update_holds[OF md5_start_holds, of "mk_ba xs"] md5_final_holds[OF _ M] that
    by fastforce
  have len: "length (ascii ''abc'') \<le> 64"
    "length (ascii ''ABCDEFGHIJKLMNOPQRSTUVWXYZabcdefghijklmnopqrstuvwxyz0123456789'') \<le> 64"
    by (simp_all add: ascii_def)
  from *[OF len(1)] *[OF len(2)] show ?thesis
    unfolding md5_self_test_def md5_alloc_eq[OF M] CHECK_NOT_NULL_simps
    by (auto simp: md5_abc md5_alphabet check_digest_eq)
qed

lemma md5_self_test_ok_witness: "md5_self_test ideal_mem = Inr ()"
  by (rule md5_self_test_ok) simp

end
