(* ===== verification/Sha1.thy ===== *)
theory Sha1
  imports BlockHash
begin

text \<open>
  SHA-1: \<^verbatim>\<open>uapkic/src/sha1.c\<close>. The compression keeps a window of sixteen schedule words;
  it is proved equal to the eighty-word schedule of FIPS 180-4.
\<close>

subsection \<open>The context\<close>

record Sha1Ctx =
  sha1_msg_last_block :: "u8 list"
  sha1_state :: "u32 list"
  sha1_rem :: nat
  sha1_msg_tot_len :: u64
  sha1_k_opad :: "u8 list"

definition sizeof_Sha1Ctx :: nat where "sizeof_Sha1Ctx = 168"

subsection \<open>The compression function\<close>

definition sha1_rotl :: "nat \<Rightarrow> u32 \<Rightarrow> u32" where
  "sha1_rotl n x = push_bit n x OR drop_bit (32 - n) x"

text \<open>\<^verbatim>\<open>ROUND0a\<close> stores word \<open>i\<close> of the block in big-endian order, \<^verbatim>\<open>SCHEDULE\<close> the next word.\<close>

definition sha1_bswap :: "u32 \<Rightarrow> u32" where
  "sha1_bswap w = push_bit 24 w OR push_bit 8 (w AND 0xFF00) OR (drop_bit 8 w AND 0xFF00) OR drop_bit 24 w"

definition sha1_SCHEDULE :: "nat \<Rightarrow> u32 list \<Rightarrow> u32 list" where
  "sha1_SCHEDULE i s =
     s[i mod 16 := sha1_rotl 1 (s ! ((i - 3) mod 16) XOR s ! ((i - 8) mod 16) XOR
                                s ! ((i - 14) mod 16) XOR s ! ((i - 16) mod 16))]"

definition sha1_window :: "u32 list \<Rightarrow> nat \<Rightarrow> u32 list \<Rightarrow> u32 list" where
  "sha1_window block i s = (if i < 16 then s[i := sha1_bswap (block ! i)] else sha1_SCHEDULE i s)"

definition sha1_f :: "nat \<Rightarrow> u32 \<Rightarrow> u32 \<Rightarrow> u32 \<Rightarrow> u32" where
  "sha1_f i b c d =
     (if i < 20 then (b AND c) OR (NOT b AND d)
      else if i < 40 then b XOR c XOR d
      else if i < 60 then (b AND c) XOR (b AND d) XOR (c AND d)
      else b XOR c XOR d)"

definition sha1_k :: "nat \<Rightarrow> u32" where
  "sha1_k i = (if i < 20 then 0x5A827999 else if i < 40 then 0x6ED9EBA1
     else if i < 60 then 0x8F1BBCDC else 0xCA62C1D6)"

text \<open>
  \<^verbatim>\<open>ROUNDTAIL(a, b, e, f, i, k)\<close>; the next macro call names the variables rotated by one
  place, so the step rotates the tuple.
\<close>

definition sha1_ROUNDTAIL ::
    "nat \<Rightarrow> u32 list \<Rightarrow> u32 \<times> u32 \<times> u32 \<times> u32 \<times> u32 \<Rightarrow> u32 \<times> u32 \<times> u32 \<times> u32 \<times> u32" where
  "sha1_ROUNDTAIL i s v = (case v of (a, b, c, d, e) \<Rightarrow>
     (e + (((sha1_rotl 5 a + sha1_f i b c d) + sha1_k i) + s ! (i mod 16)), a, sha1_rotl 30 b, c, d))"

text \<open>The rounds \<open>i, i + 1, \<dots>\<close>, \<open>n\<close> of them.\<close>

primrec sha1_rounds ::
    "u32 list \<Rightarrow> nat \<Rightarrow> nat \<Rightarrow> u32 list \<Rightarrow> u32 \<times> u32 \<times> u32 \<times> u32 \<times> u32 \<Rightarrow> u32 \<times> u32 \<times> u32 \<times> u32 \<times> u32" where
  "sha1_rounds block i 0 s v = v"
| "sha1_rounds block i (Suc n) s v =
     sha1_rounds block (Suc i) n (sha1_window block i s) (sha1_ROUNDTAIL i (sha1_window block i s) v)"

text \<open>
  \<^verbatim>\<open>sha1_compress\<close> unpacks the block, and packs it into the same place afterwards: also into
  the caller's message, which it is given without \<^verbatim>\<open>const\<close>. The return codes of the two
  conversions are ignored in the source; they never fail here. The schedule array is not
  initialised; the first sixteen rounds fill it.
\<close>

definition sha1_compress :: "bool \<Rightarrow> u32 list \<Rightarrow> u8 list \<Rightarrow> (u32 list \<times> u8 list) res" where
  "sha1_compress be st block8 =
     DO (uint8_to_uint32 be (Some block8) 64 (Some (replicate 16 0)) 16) (\<lambda>block.
     case sha1_rounds block 0 80 (replicate 16 0) (st ! 0, st ! 1, st ! 2, st ! 3, st ! 4) of
       (a, b, c, d, e) \<Rightarrow>
         DO (uint32_to_uint8 be (Some block) 16 (Some block8) 64) (\<lambda>block8.
         Inr ([st ! 0 + a, st ! 1 + b, st ! 2 + c, st ! 3 + d, st ! 4 + e], block8)))"

subsection \<open>Operations\<close>

definition sha1_iv :: "u32 list" where
  "sha1_iv = [0x67452301, 0xEFCDAB89, 0x98BADCFE, 0x10325476, 0xC3D2E1F0]"

definition sha1_init :: "Sha1Ctx option \<Rightarrow> Sha1Ctx res" where
  "sha1_init ctx = NOT_NULL ctx (\<lambda>ctx.
     Inr (ctx\<lparr>sha1_msg_last_block := replicate 64 0, sha1_state := sha1_iv,
       sha1_rem := 0, sha1_msg_tot_len := 0\<rparr>))"

definition sha1_alloc :: "mem \<Rightarrow> Sha1Ctx option res" where
  "sha1_alloc M = to_ptr (CALLOC_CHECKED M sizeof_Sha1Ctx
     (sha1_init (Some \<lparr>sha1_msg_last_block = replicate 64 0, sha1_state = replicate 5 0, sha1_rem = 0,
        sha1_msg_tot_len = 0, sha1_k_opad = replicate 64 0\<rparr>)))"

definition sha1_copy_with_alloc :: "mem \<Rightarrow> Sha1Ctx \<Rightarrow> Sha1Ctx option res" where
  "sha1_copy_with_alloc M ctx = to_ptr (CALLOC_CHECKED M sizeof_Sha1Ctx (Inr ctx))"

definition sha1_update :: "bool \<Rightarrow> Sha1Ctx option \<Rightarrow> ByteArray option \<Rightarrow> Sha1Ctx res" where
  "sha1_update be ctx msg_ba = NOT_NULL ctx (\<lambda>ctx. NOT_NULL msg_ba (\<lambda>ba.
     let msg_buf = data ba; msg_buf_size = ba_len ba;
         tot = sha1_msg_tot_len ctx + of_nat msg_buf_size;
         summ = sha1_rem ctx + msg_buf_size
     in if summ < 64
        then DO (rd msg_buf 0 msg_buf_size) (\<lambda>xs.
             DO (wr (sha1_msg_last_block ctx) (sha1_rem ctx) xs) (\<lambda>blk.
             Inr (ctx\<lparr>sha1_msg_last_block := blk, sha1_rem := sha1_rem ctx + msg_buf_size,
                   sha1_msg_tot_len := tot\<rparr>)))
        else
          let fill = 64 - sha1_rem ctx
          in DO (rd msg_buf 0 fill) (\<lambda>xs.
             DO (wr (sha1_msg_last_block ctx) (sha1_rem ctx) xs) (\<lambda>blk.
             DO (sha1_compress be (sha1_state ctx) blk) (\<lambda>(st, _).
             let blk = replicate 64 0; shifted_buf = drop fill msg_buf; msg_buf_size = msg_buf_size - fill
             in DO (for_blocks 64 (\<lambda>st b. DO (sha1_compress be st b) (\<lambda>(st, _). Inr st))
                      shifted_buf 0 msg_buf_size st) (\<lambda>(st, i).
                let rem = msg_buf_size - i
                in DO (if rem \<noteq> 0 then DO (rd shifted_buf i rem) (\<lambda>xs. wr blk 0 xs) else Inr blk) (\<lambda>blk.
                   Inr (ctx\<lparr>sha1_msg_last_block := blk, sha1_state := st, sha1_rem := rem,
                        sha1_msg_tot_len := tot\<rparr>))))))))"

text \<open>
  The loop that stores the bit length is \<open>put_be64\<close>; \<^verbatim>\<open>OUTPUT_TRANSFORM\<close> overwrites the
  first twenty bytes of the buffer. When the allocation of the digest fails, the context
  is not initialised again.
\<close>

definition sha1_final :: "bool \<Rightarrow> mem \<Rightarrow> Sha1Ctx option \<Rightarrow> ByteArray res \<times> Sha1Ctx option" where
  "sha1_final be M ctx = (case ctx of None \<Rightarrow> (Inl RET_INVALID_PARAM, None)
     | Some c \<Rightarrow>
         DO_ST (wr (sha1_msg_last_block c) (sha1_rem c) [0x80]) (Some c) (\<lambda>blk.
         let rem = sha1_rem c + 1 in
         DO_ST (if 64 - rem \<ge> 8
                then DO (wr blk rem (replicate (56 - rem) 0)) (\<lambda>blk. Inr (sha1_state c, blk))
                else DO (wr blk rem (replicate (64 - rem) 0)) (\<lambda>blk.
                     DO (sha1_compress be (sha1_state c) blk) (\<lambda>(st, blk).
                     DO (wr blk 0 (replicate 56 0)) (\<lambda>blk. Inr (st, blk))))) (Some c) (\<lambda>(st, blk).
         DO_ST (wr blk 56 (put_be64 (push_bit 3 (sha1_msg_tot_len c)))) (Some c) (\<lambda>blk.
         DO_ST (sha1_compress be st blk) (Some c) (\<lambda>(st, blk).
         DO_ST (wr blk 0 (put_be32 (st ! 0) @ put_be32 (st ! 1) @ put_be32 (st ! 2) @ put_be32 (st ! 3)
                  @ put_be32 (st ! 4))) (Some c) (\<lambda>blk.
         let c1 = c\<lparr>sha1_msg_last_block := blk, sha1_state := st\<rparr>
         in DO_ST (CHECK_NOT_NULL (ba_alloc_from_uint8 M (Some blk) 20) Inr) (Some c1) (\<lambda>ans.
            let c2 = c1\<lparr>sha1_msg_last_block := replicate 64 0\<rparr>
            in DO_ST (sha1_init (Some c2)) (Some c2) (\<lambda>c3. (Inr ans, Some c3))))))))) "

definition sha1_get_block_size :: "Sha1Ctx option \<Rightarrow> nat" where
  "sha1_get_block_size ctx = 64"

subsection \<open>The self-test\<close>

definition sha1_self_test :: "bool \<Rightarrow> mem \<Rightarrow> unit res" where
  "sha1_self_test be M =
     CHECK_NOT_NULL (sha1_alloc M) (\<lambda>ctx.
     DO (sha1_update be (Some ctx) (Some (mk_ba (ascii ''abc'')))) (\<lambda>ctx.
     case sha1_final be M (Some ctx) of (r, ctx) \<Rightarrow> DO r (\<lambda>H.
     DO (check_digest H
       [0xA9, 0x99, 0x3E, 0x36, 0x47, 0x06, 0x81, 0x6A, 0xBA, 0x3E, 0x25, 0x71, 0x78, 0x50, 0xC2, 0x6C,
        0x9C, 0xD0, 0xD8, 0x9D]) (\<lambda>_.
     DO (sha1_update be ctx (Some (mk_ba (ascii
       ''ABCDEFGHIJKLMNOPQRSTUVWXYZabcdefghijklmnopqrstuvwxyz0123456789'')))) (\<lambda>ctx.
     case sha1_final be M (Some ctx) of (r, ctx) \<Rightarrow> DO r (\<lambda>H.
     check_digest H
       [0x76, 0x1C, 0x45, 0x7B, 0xF7, 0x3B, 0x14, 0xD2, 0x7E, 0x9E, 0x92, 0x65, 0xC4, 0x6F, 0x4B, 0x4D,
        0xDA, 0x11, 0xF9, 0x40]))))))"

subsection \<open>FIPS 180-4\<close>

text \<open>The schedule and the rounds as the standard writes them.\<close>

fun sha1_W :: "u8 list \<Rightarrow> nat \<Rightarrow> u32" where
  "sha1_W b t = (if t < 16 then get_be32 b (4 * t)
     else sha1_rotl 1 (sha1_W b (t - 3) XOR sha1_W b (t - 8) XOR sha1_W b (t - 14) XOR sha1_W b (t - 16)))"

declare sha1_W.simps [simp del]

primrec sha1_ref_rounds ::
    "u8 list \<Rightarrow> nat \<Rightarrow> nat \<Rightarrow> u32 \<times> u32 \<times> u32 \<times> u32 \<times> u32 \<Rightarrow> u32 \<times> u32 \<times> u32 \<times> u32 \<times> u32" where
  "sha1_ref_rounds m t 0 v = v"
| "sha1_ref_rounds m t (Suc n) v = sha1_ref_rounds m (Suc t) n (case v of (a, b, c, d, e) \<Rightarrow>
     (sha1_rotl 5 a + sha1_f t b c d + e + sha1_k t + sha1_W m t, a, sha1_rotl 30 b, c, d))"

definition sha1_block :: "u32 list \<Rightarrow> u8 list \<Rightarrow> u32 list" where
  "sha1_block h m = (case sha1_ref_rounds m 0 80 (h ! 0, h ! 1, h ! 2, h ! 3, h ! 4) of
     (a, b, c, d, e) \<Rightarrow> [h ! 0 + a, h ! 1 + b, h ! 2 + c, h ! 3 + d, h ! 4 + e])"

definition sha1 :: "u8 list \<Rightarrow> u8 list" where
  "sha1 m = concat (map put_be32 (foldl sha1_block sha1_iv
     (chunks 64 (m @ md_pad 64 (length m) (put_be64 (of_nat (8 * length m)))))))"

subsection \<open>The window computes the schedule\<close>

lemma bswap_le32: "sha1_bswap (word_of_bytes False [a, b, c, d]) = get_be32 [a, b, c, d] 0"
  unfolding word_of_bytes_le32 sha1_bswap_def get_be32_def
  by (rule bit_u32_eqI) (simp add: upt_rec bit_simps bit_u8_high, (simp add: eval_nat_numeral)?)

text \<open>The words of a block, in the order \<^verbatim>\<open>ROUND0a\<close> wants them.\<close>

lemma load_words_nth:
  assumes "length b = 64" and "i < 16"
  shows "sha1_bswap ((load_words False b :: u32 list) ! i) = get_be32 b (4 * i)"
proof -
  have "chunks 4 b ! i = take 4 (drop (4 * i) b)"
    using assms by (simp add: nth_chunks)
  moreover have "\<dots> = [b ! (4 * i), b ! (4 * i + 1), b ! (4 * i + 2), b ! (4 * i + 3)]"
    using assms by (intro nth_equalityI) (auto simp: less_Suc_eq numeral_eq_Suc nth_Cons' add.commute)
  ultimately show ?thesis
    using assms bswap_le32 by (simp add: load_words_def get_be32_def)
qed

text \<open>
  Before round \<open>t\<close> the window holds the words \<open>t - 16, \<dots>, t - 1\<close> of the schedule.
\<close>

definition sha1_window_ok :: "u8 list \<Rightarrow> nat \<Rightarrow> u32 list \<Rightarrow> bool" where
  "sha1_window_ok b t s \<longleftrightarrow> length s = 16 \<and> (\<forall>j<t. t \<le> j + 16 \<longrightarrow> s ! (j mod 16) = sha1_W b j)"

lemma sha1_window_step:
  assumes "length b = 64" and ok: "sha1_window_ok b t s"
  shows "sha1_window_ok b (Suc t) (sha1_window (load_words False b) t s)"
    and "sha1_window (load_words False b) t s ! (t mod 16) = sha1_W b t"
proof -
  let ?s = "sha1_window (load_words False b) t s"
  have len: "length s = 16" using ok by (simp add: sha1_window_ok_def)
  have w: "?s = s[t mod 16 := sha1_W b t]"
  proof (cases "t < 16")
    case True
    then show ?thesis
      using assms(1) by (simp add: sha1_window_def load_words_nth sha1_W.simps[of b t])
  next
    case False
    have "s ! ((t - k) mod 16) = sha1_W b (t - k)" if "0 < k" "k \<le> 16" for k
      using ok that False by (auto simp: sha1_window_ok_def)
    then show ?thesis
      using False by (simp add: sha1_window_def sha1_SCHEDULE_def sha1_W.simps[of b t])
  qed
  show "?s ! (t mod 16) = sha1_W b t" using len by (simp add: w)
  have "s[t mod 16 := sha1_W b t] ! (j mod 16) = sha1_W b j" if "j < Suc t" "Suc t \<le> j + 16" for j
  proof (cases "j = t")
    case True
    then show ?thesis using len by simp
  next
    case False
    with that have "j < t" "t \<le> j + 16" by auto
    moreover have "t mod 16 \<noteq> j mod 16"
    proof
      assume "t mod 16 = j mod 16"
      then have "16 dvd t - j" using \<open>j < t\<close> by (metis mod_eq_dvd_iff_nat less_imp_le)
      then show False using \<open>j < t\<close> that by (auto dest: dvd_imp_le)
    qed
    ultimately show ?thesis using ok by (simp add: sha1_window_ok_def)
  qed
  then show "sha1_window_ok b (Suc t) ?s" using len by (simp add: w sha1_window_ok_def)
qed

lemma sha1_rounds_ref:
  assumes "length b = 64" and "sha1_window_ok b t s"
  shows "sha1_rounds (load_words False b) t n s v = sha1_ref_rounds b t n v"
  using assms(2)
proof (induction n arbitrary: t s v)
  case 0
  then show ?case by simp
next
  case (Suc n)
  have "sha1_ROUNDTAIL t (sha1_window (load_words False b) t s) v
      = (case v of (x, y, c, d, e) \<Rightarrow>
          (sha1_rotl 5 x + sha1_f t y c d + e + sha1_k t + sha1_W b t, x, sha1_rotl 30 y, c, d))"
    using sha1_window_step(2)[OF assms(1) Suc.prems]
    by (simp add: sha1_ROUNDTAIL_def ac_simps split: prod.split)
  then show ?case using Suc.IH[OF sha1_window_step(1)[OF assms(1) Suc.prems]] by simp
qed

lemma sha1_compress_eq:
  assumes "length b = 64"
  shows "sha1_compress be st b = Inr (sha1_block st b, b)"
proof -
  have "uint8_to_uint32 be (Some b) 64 (Some (replicate 16 0)) 16 = Inr (load_words False b)"
    using uint8_to_uint32_eq[of 64 b 16 "replicate 16 0" be] assms by simp
  moreover have "uint32_to_uint8 be (Some (load_words False b :: u32 list)) 16 (Some b) 64 = Inr b"
    using uint32_to_uint8_eq[of 16 "load_words False b" 64 b be] assms store_load_words[of b False, where 'a=32]
    by simp
  moreover have "sha1_window_ok b 0 (replicate 16 0)" by (simp add: sha1_window_ok_def)
  ultimately show ?thesis
    using sha1_rounds_ref[OF assms, of 0 "replicate 16 0" 80]
    by (simp add: sha1_compress_def sha1_block_def split: prod.split)
qed

subsection \<open>Update appends\<close>

definition sha1_holds :: "Sha1Ctx \<Rightarrow> u8 list \<Rightarrow> bool" where
  "sha1_holds c m \<longleftrightarrow>
     absorbed 64 sha1_block sha1_iv (sha1_state c) (sha1_msg_last_block c) m \<and>
     length (sha1_msg_last_block c) = 64 \<and> sha1_rem c = length m mod 64 \<and>
     sha1_msg_tot_len c = of_nat (length m)"

lemma sha1_compress_blocks:
  "n \<le> length buf \<Longrightarrow>
   for_blocks 64 (\<lambda>st b. DO (sha1_compress be st b) (\<lambda>(st, _). Inr st)) buf 0 n st
     = Inr (foldl sha1_block st (chunks 64 (take n buf)), 64 * (n div 64))"
  using for_blocks_eq[of 64 0 n buf "\<lambda>_. True" "\<lambda>st b. DO (sha1_compress be st b) (\<lambda>(st, _). Inr st)" sha1_block st]
  by (simp add: sha1_compress_eq)

lemma sha1_update_holds:
  assumes h: "sha1_holds c m" and a: "wf_ba a"
  shows "\<exists>c'. sha1_update be (Some c) (Some a) = Inr c' \<and> sha1_holds c' (m @ data a)"
proof -
  define d where "d = data a"
  define idx where "idx = length m mod 64"
  define n where "n = ba_len a"
  define st where "st = sha1_state c"
  define blk where "blk = sha1_msg_last_block c"
  have d: "length d = n" and ad: "ba_len a = n" "data a = d"
    using a by (simp_all add: d_def n_def)
  have lt: "idx < 64" by (simp add: idx_def)
  from h have ab: "absorbed 64 sha1_block sha1_iv st blk m"
    and lb: "length blk = 64" and rem: "sha1_rem c = idx" and tot: "sha1_msg_tot_len c = of_nat (length m)"
    by (simp_all add: sha1_holds_def st_def blk_def idx_def)
  have tot': "sha1_msg_tot_len c + of_nat n = of_nat (length (m @ d))"
    using d tot by simp
  show ?thesis
  proof (cases "64 \<le> idx + n")
    case False
    then have "sha1_update be (Some c) (Some a) = Inr (c\<lparr>
        sha1_msg_last_block := take idx blk @ d @ drop (idx + n) blk, sha1_rem := idx + n,
        sha1_msg_tot_len := of_nat (length (m @ d))\<rparr>)"
      using d lb tot' by (simp add: sha1_update_def Let_def ad rem blk_def)
    moreover have "length (m @ d) mod 64 = idx + n"
      using False mod_short[of "length m" 64 n] by (simp add: d idx_def)
    ultimately show ?thesis
      using absorbed_short[OF ab idx_def, of d] False d lb
      by (simp add: sha1_holds_def ad st_def)
  next
    case True
    define r where "r = 64 - idx"
    have r: "r \<le> n" "r \<le> 64" "idx + r = 64" using True lt by (simp_all add: r_def)
    define b where "b = take idx blk @ take r d"
    define st' where "st' = foldl sha1_block (sha1_block st b) (chunks 64 (drop r d))"
    define t where "t = tail_of 64 (drop r d)"
    have w: "wr blk idx (take r d) = Inr b" and lb': "length b = 64"
      using r d lb by (simp_all add: b_def)
    have f: "for_blocks 64 (\<lambda>st b. DO (sha1_compress be st b) (\<lambda>(st, _). Inr st)) (drop r d) 0 (n - r) (sha1_block st b)
        = Inr (st', 64 * ((n - r) div 64))"
      using r d by (simp add: sha1_compress_blocks st'_def)
    have nlt: "(idx + n < 64) = False" using True by simp
    have rd0: "rd d 0 r = Inr (take r d)" using r d by simp
    have lt': "length t = (n - r) mod 64" using d by (simp add: t_def)
    have rem': "n - r - 64 * ((n - r) div 64) = (n - r) mod 64" by (simp add: minus_mult_div_eq_mod)
    have rt: "rd (drop r d) (64 * ((n - r) div 64)) ((n - r) mod 64) = Inr t"
      using rd_rest[of 0 "drop r d" 64] d by (simp add: t_def minus_mult_div_eq_mod)
    have lt64: "length t \<le> 64" by (simp add: t_def)
    have wt: "(if (n - r) mod 64 \<noteq> 0 then wr (replicate 64 0) 0 t else Inr (replicate 64 0))
        = Inr (t @ replicate (64 - length t) 0)"
      using lt' lt64 by (auto simp del: length_0_conv)
    have "sha1_update be (Some c) (Some a) = Inr (c\<lparr>sha1_msg_last_block := t @ replicate (64 - length t) 0,
        sha1_state := st', sha1_rem := (n - r) mod 64, sha1_msg_tot_len := of_nat (length (m @ d))\<rparr>)"
      using lb'
      by (simp only: sha1_update_def NOT_NULL_simps Let_def ad rem tot' nlt if_False
          r_def [symmetric] blk_def [symmetric] st_def [symmetric] rd0 DO_simps w
          sha1_compress_eq prod.case f rem' rt wt)
    moreover have "absorbed 64 sha1_block sha1_iv st' (t @ replicate (64 - length t) 0) (m @ d)"
    proof (rule absorbed_full[OF ab idx_def _ _ r_def])
      show "64 \<le> length (t @ replicate (64 - length t) 0)" using lt64 by simp
    qed (use True d in \<open>simp_all add: st'_def b_def t_def\<close>)
    moreover have "length (m @ d) mod 64 = (n - r) mod 64"
      using mod_full[of r 64 "length m" n] r d by (simp add: r_def idx_def)
    ultimately show ?thesis
      using lt64 by (simp add: sha1_holds_def ad)
  qed
qed

subsection \<open>Final computes the digest\<close>

definition sha1_start :: Sha1Ctx where
  "sha1_start = \<lparr>sha1_msg_last_block = replicate 64 0, sha1_state = sha1_iv, sha1_rem = 0,
     sha1_msg_tot_len = 0, sha1_k_opad = replicate 64 0\<rparr>"

lemma sha1_alloc_eq: "mem_ok M \<Longrightarrow> sha1_alloc M = Inr (Some sha1_start)"
  by (simp add: sha1_alloc_def sha1_init_def sha1_start_def)

lemma sha1_start_holds: "sha1_holds sha1_start []"
  by (simp add: sha1_holds_def sha1_start_def absorbed_Nil)

lemma sha1_state_length: "length (foldl sha1_block sha1_iv bs) = 5"
  by (cases bs rule: rev_cases) (simp_all add: sha1_iv_def sha1_block_def split: prod.split)

text \<open>The two ways \<^verbatim>\<open>sha1_final\<close> fills the last block or the last two.\<close>

definition sha1_pad_step :: "bool \<Rightarrow> u32 list \<Rightarrow> u8 list \<Rightarrow> nat \<Rightarrow> (u32 list \<times> u8 list) res" where
  "sha1_pad_step be st blk rem =
     (if 64 - rem \<ge> 8
      then DO (wr blk rem (replicate (56 - rem) 0)) (\<lambda>blk. Inr (st, blk))
      else DO (wr blk rem (replicate (64 - rem) 0)) (\<lambda>blk.
           DO (sha1_compress be st blk) (\<lambda>(st, blk).
           DO (wr blk 0 (replicate 56 0)) (\<lambda>blk. Inr (st, blk)))))"

lemma sha1_pad_step_eq:
  assumes ab: "absorbed 64 sha1_block sha1_iv st blk m" and lb: "length blk = 64"
    and i: "i = length m mod 64" and L: "length L = 8"
  shows "\<exists>st' blk'. sha1_pad_step be st (take i blk @ [0x80] @ drop (Suc i) blk) (Suc i) = Inr (st', blk') \<and>
    length blk' = 64 \<and>
    sha1_block st' (take 56 blk' @ L) = foldl sha1_block sha1_iv (chunks 64 (m @ md_pad 64 (length m) L))"
proof -
  have i64: "i < 64" using i by simp
  have t: "take i blk = tail_of 64 m" and st: "st = foldl sha1_block sha1_iv (chunks 64 m)"
    using ab i by (simp_all add: absorbed_def)
  let ?b = "take i blk @ [0x80] @ drop (Suc i) blk"
  have lb': "length ?b = 64" using lb i64 by simp
  show ?thesis
  proof (cases "i + 1 + 8 \<le> 64")
    case True
    define b' where "b' = take i blk @ 0x80 # replicate (55 - i) 0 @ drop 56 blk"
    have "sha1_pad_step be st ?b (Suc i) = Inr (st, b')"
    proof -
      have "56 - i = Suc (55 - i)" "8 \<le> 63 - i" using True by simp_all
      then show ?thesis using True lb by (simp add: sha1_pad_step_def b'_def)
    qed
    moreover have "chunks 64 (m @ md_pad 64 (length m) L) = chunks 64 m @ [take 56 b' @ L]"
    proof -
      have "56 - i = Suc (55 - i)" using True by simp
      then have "take 56 b' = take i blk @ 0x80 # replicate (55 - i) 0"
        using True lb by (simp add: b'_def)
      then show ?thesis using md_pad_one[of m 64 L] True L i t by simp
    qed
    moreover have "length b' = 64" using True lb by (simp add: b'_def)
    ultimately show ?thesis by (simp add: st)
  next
    case False
    define b1 where "b1 = take i blk @ 0x80 # replicate (63 - i) 0"
    have lb1: "length b1 = 64" using lb i64 by (simp add: b1_def)
    have "sha1_pad_step be st ?b (Suc i)
        = Inr (sha1_block st b1, replicate 56 0 @ drop 56 b1)"
    proof -
      have "\<not> 8 \<le> 63 - i" using False by simp
      then show ?thesis using lb i64 lb1 by (simp add: sha1_pad_step_def sha1_compress_eq flip: b1_def)
    qed
    moreover have "chunks 64 (m @ md_pad 64 (length m) L) = chunks 64 m @ [b1, replicate 56 0 @ L]"
      using md_pad_two[of 64 m L] False L i t by (simp add: b1_def)
    ultimately show ?thesis using lb1 by (simp add: st)
  qed
qed

lemma sha1_final_holds:
  assumes h: "sha1_holds c m" and M: "mem_ok M"
  shows "\<exists>c'. sha1_final be M (Some c) = (Inr (mk_ba (sha1 m)), Some c') \<and> sha1_holds c' []"
proof -
  define i where "i = length m mod 64"
  define blk where "blk = sha1_msg_last_block c"
  define L where "L = put_be64 (of_nat (8 * length m))"
  have i64: "i < 64" by (simp add: i_def)
  from h have ab: "absorbed 64 sha1_block sha1_iv (sha1_state c) blk m"
    and lb: "length blk = 64" and rem: "sha1_rem c = i" and tot: "sha1_msg_tot_len c = of_nat (length m)"
    by (simp_all add: sha1_holds_def blk_def i_def)
  have L: "put_be64 (push_bit 3 (sha1_msg_tot_len c)) = L" "length L = 8"
    by (simp_all add: L_def tot push_bit_eq_mult mult.commute)
  have w: "wr blk i [0x80] = Inr (take i blk @ [0x80] @ drop (Suc i) blk)"
    using lb i64 by simp
  obtain st' blk' where p: "sha1_pad_step be (sha1_state c) (take i blk @ [0x80] @ drop (Suc i) blk) (Suc i) = Inr (st', blk')"
    and lb': "length blk' = 64"
    and fin: "sha1_block st' (take 56 blk' @ L) = foldl sha1_block sha1_iv (chunks 64 (m @ md_pad 64 (length m) L))"
    using sha1_pad_step_eq[OF ab lb i_def L(2)] by blast
  define h5 where "h5 = sha1_block st' (take 56 blk' @ L)"
  have w2: "wr blk' 56 L = Inr (take 56 blk' @ L)" using lb' L(2) by simp
  have lw: "length (take 56 blk' @ L) = 64" using lb' L(2) by simp
  obtain s0 s1 s2 s3 s4 where h: "h5 = [s0, s1, s2, s3, s4]"
    using sha1_state_length[of "chunks 64 (m @ md_pad 64 (length m) L)"] fin
    by (auto simp: h5_def length_Suc_conv numeral_eq_Suc)
  define dg where "dg = put_be32 s0 @ put_be32 s1 @ put_be32 s2 @ put_be32 s3 @ put_be32 s4"
  have dg: "dg = sha1 m"
    unfolding sha1_def dg_def L_def [symmetric] fin [symmetric] h5_def [symmetric] h by simp
  have ldg: "length dg = 20" by (simp add: dg_def)
  define blk2 where "blk2 = dg @ drop 20 (take 56 blk' @ L)"
  have w3: "wr (take 56 blk' @ L) 0 dg = Inr blk2"
    using lw ldg by (simp only: wr_ok) (simp add: blk2_def)
  have al: "ba_alloc_from_uint8 M (Some blk2) 20 = Inr (Some (mk_ba dg))"
    using M ldg by (simp add: ba_alloc_from_uint8_eq blk2_def)
  have "sha1_final be M (Some c) = (Inr (mk_ba dg),
      Some (c\<lparr>sha1_msg_last_block := replicate 64 0, sha1_state := sha1_iv, sha1_rem := 0, sha1_msg_tot_len := 0\<rparr>))"
    unfolding sha1_final_def option.case blk_def [symmetric] rem w DO_ST_simps Let_def Suc_eq_plus1 [symmetric]
      sha1_pad_step_def [symmetric] p L(1) prod.case w2 sha1_compress_eq[OF lw] h5_def [symmetric]
    unfolding h nth_Cons_0
    by (simp add: w3 al sha1_init_def flip: dg_def)
  then show ?thesis
    by (auto simp: dg sha1_holds_def absorbed_Nil)
qed

interpretation sha1: hash_alg sha1_start "\<lambda>c a. sha1_update be (Some c) (Some a)"
    "\<lambda>M c. map_prod id the (sha1_final be M (Some c))" sha1_holds sha1 "SIZE_MOD"
  for be
proof unfold_locales
  show "sha1_holds sha1_start []" by (rule sha1_start_holds)
  show "\<exists>c'. sha1_update be (Some c) (Some a) = Inr c' \<and> sha1_holds c' (m @ data a)"
    if "sha1_holds c m" "wf_ba a" for c m a
    using that by (rule sha1_update_holds)
  show "\<exists>c'. map_prod id the (sha1_final be M (Some c)) = (Inr (mk_ba (sha1 m)), c') \<and> sha1_holds c' []"
    if "sha1_holds c m" "mem_ok M" for c m M
    using sha1_final_holds[OF that, of be] by auto
qed

subsection \<open>Test vectors in the kernel\<close>

definition sha1_next ::
    "u32 list \<Rightarrow> nat \<Rightarrow> nat \<Rightarrow> u32 list \<Rightarrow> u32 \<times> u32 \<times> u32 \<times> u32 \<times> u32 \<Rightarrow> u32 \<times> u32 \<times> u32 \<times> u32 \<times> u32" where
  "sha1_next w i n s v = sha1_rounds w (Suc i) n s (sha1_ROUNDTAIL i s v)"

lemma sha1_rounds_eval:
  "sha1_rounds w i (numeral n) s v = sha1_next w i (pred_numeral n) (sha1_window w i s) v"
  "sha1_rounds w i 1 s v = sha1_next w i 0 (sha1_window w i s) v"
  by (simp_all add: sha1_next_def numeral_eq_Suc)

lemma sha1_rotl_eval: "sha1_rotl n x = (push_bit n x OR drop_bit (32 - n) x) AND 0xFFFFFFFF"
  unfolding u32_norm [symmetric] sha1_rotl_def ..

lemma sha1_bswap_eval: "sha1_bswap w =
    (push_bit 24 w OR push_bit 8 (w AND 0xFF00) OR (drop_bit 8 w AND 0xFF00) OR drop_bit 24 w) AND 0xFFFFFFFF"
  unfolding u32_norm [symmetric] sha1_bswap_def ..

lemma sha1_ROUNDTAIL_eval:
  "sha1_ROUNDTAIL i s (a, b, c, d, e) =
     ((e + (((sha1_rotl 5 a + sha1_f i b c d) + sha1_k i) + s ! (i mod 16))) AND 0xFFFFFFFF,
      a, sha1_rotl 30 b, c, d)"
  unfolding u32_norm [symmetric] sha1_ROUNDTAIL_def prod.case ..

lemma sha1_block_eval:
  "length b = 64 \<Longrightarrow> sha1_block [h0, h1, h2, h3, h4] b =
     (case sha1_rounds (load_words False b) 0 80 (replicate 16 0) (h0, h1, h2, h3, h4) of
       (a, b, c, d, e) \<Rightarrow> [(h0 + a) AND 0xFFFFFFFF, (h1 + b) AND 0xFFFFFFFF, (h2 + c) AND 0xFFFFFFFF,
          (h3 + d) AND 0xFFFFFFFF, (h4 + e) AND 0xFFFFFFFF])"
  using sha1_rounds_ref[of b 0 "replicate 16 0" 80]
  unfolding u32_norm [symmetric] by (simp add: sha1_block_def sha1_window_ok_def)

lemmas sha1_eval = sha1_rounds_eval sha1_next_def sha1_rotl_eval sha1_bswap_eval sha1_ROUNDTAIL_eval
  sha1_block_eval sha1_window_def sha1_SCHEDULE_def sha1_f_def sha1_k_def sha1_iv_def
  load_words_def word_of_bytes_def list_update_numeral replicate_numeral chunks_rec chunks_short
  put_be32_def put_be64_def md_pad_def ascii_def

lemma sha1_abc:
  "sha1 (ascii ''abc'') =
       [0xA9, 0x99, 0x3E, 0x36, 0x47, 0x06, 0x81, 0x6A, 0xBA, 0x3E, 0x25, 0x71, 0x78, 0x50, 0xC2, 0x6C,
        0x9C, 0xD0, 0xD8, 0x9D]"
  by (simp add: sha1_def sha1_eval)

lemma sha1_alphabet:
  "sha1 (ascii ''ABCDEFGHIJKLMNOPQRSTUVWXYZabcdefghijklmnopqrstuvwxyz0123456789'') =
       [0x76, 0x1C, 0x45, 0x7B, 0xF7, 0x3B, 0x14, 0xD2, 0x7E, 0x9E, 0x92, 0x65, 0xC4, 0x6F, 0x4B, 0x4D,
        0xDA, 0x11, 0xF9, 0x40]"
  by (simp add: sha1_def sha1_eval)

subsection \<open>Properties\<close>

text \<open>(C8) \<^verbatim>\<open>sha1_compress\<close>, with its window of sixteen schedule words and its unrolled
  rounds, computes the compression function of FIPS 180-4 on hosts of either byte order,
  and leaves the bytes of the block, which may be the caller's message, as they were.\<close>

theorem sha1_compress_fips:
  "length b = 64 \<Longrightarrow> sha1_compress be st b = Inr (sha1_block st b, b)"
  by (rule sha1_compress_eq)

lemma sha1_compress_fips_witness:
  "sha1_compress True sha1_iv (replicate 64 0) = Inr (sha1_block sha1_iv (replicate 64 0), replicate 64 0)"
  by (rule sha1_compress_fips) simp

text \<open>SHA-1 in fragments: \<^verbatim>\<open>sha1_update\<close> accepts any fragments, and \<^verbatim>\<open>sha1_final\<close>
  returns the FIPS 180-4 digest of their concatenation and a context that holds the empty
  message.\<close>

theorem sha1_fragments:
  assumes "\<forall>a \<in> set frs. wf_ba a \<and> ba_len a \<le> SIZE_MOD" and "mem_ok M"
  shows "\<exists>c c'. feed (\<lambda>c a. sha1_update be (Some c) (Some a)) sha1_start frs = Inr c
     \<and> sha1_final be M (Some c) = (Inr (mk_ba (sha1 (concat (map data frs)))), Some c')
     \<and> sha1_holds c' []"
proof -
  obtain c where "feed (\<lambda>c a. sha1_update be (Some c) (Some a)) sha1_start frs = Inr c"
      "sha1_holds c (concat (map data frs))"
    using sha1.feed_holds[OF sha1_start_holds assms(1)] by auto
  with sha1_final_holds[OF _ assms(2), of c _ be] show ?thesis by blast
qed

lemma sha1_fragments_witness:
  "\<exists>c. feed (\<lambda>c a. sha1_update True (Some c) (Some a)) sha1_start [mk_ba (ascii ''a''), mk_ba (ascii ''bc'')] = Inr c
     \<and> fst (sha1_final True ideal_mem (Some c)) = Inr (mk_ba (sha1 (ascii ''abc'')))"
  using sha1_fragments[of "[mk_ba (ascii ''a''), mk_ba (ascii ''bc'')]" ideal_mem True]
  by (auto simp: ascii_def SIZE_MOD_def)

text \<open>The self-test of SHA-1 succeeds on every host with memory: the model computes
  the digests of the standard that the source has in its tables.\<close>

theorem sha1_self_test_ok: "mem_ok M \<Longrightarrow> sha1_self_test be M = Inr ()"
proof -
  assume M: "mem_ok M"
  have *: "\<exists>c c'. sha1_update be (Some c0) (Some (mk_ba xs)) = Inr c
      \<and> sha1_final be M (Some c) = (Inr (mk_ba (sha1 xs)), Some c') \<and> sha1_holds c' []"
    if "sha1_holds c0 []" for xs c0
    using sha1_update_holds[OF that, of "mk_ba xs" be] sha1_final_holds[OF _ M, of _ _ be]
    by fastforce
  from *[OF sha1_start_holds, of "ascii ''abc''"] obtain c c' where
      1: "sha1_update be (Some sha1_start) (Some (mk_ba (ascii ''abc''))) = Inr c"
      "sha1_final be M (Some c) = (Inr (mk_ba (sha1 (ascii ''abc''))), Some c')" "sha1_holds c' []"
    by blast
  from *[OF 1(3), of "ascii ''ABCDEFGHIJKLMNOPQRSTUVWXYZabcdefghijklmnopqrstuvwxyz0123456789''"]
  show ?thesis
    unfolding sha1_self_test_def sha1_alloc_eq[OF M] CHECK_NOT_NULL_simps 1(1,2) DO_simps prod.case
    by (auto simp: sha1_abc sha1_alphabet check_digest_eq)
qed

lemma sha1_self_test_ok_witness: "sha1_self_test False ideal_mem = Inr ()"
  by (rule sha1_self_test_ok) simp

end
