(* ===== verification/Fips180.thy ===== *)
theory Fips180
  imports BlockHash
begin

text \<open>
  FIPS 180-4 as the standard states it, without reference to the code: SHA-224, SHA-256, SHA-384 and
  SHA-512 with the constants taken from the roots of the primes, the message schedule as the recurrence for
  \<open>W\<close>, the rounds by their number, and the padding. The theory \<open>Sha2\<close> relates \<^verbatim>\<open>uapkic/src/sha2.c\<close> to it.
\<close>

subsection \<open>Functions\<close>

definition fips_Ch :: "'a::len word \<Rightarrow> 'a word \<Rightarrow> 'a word \<Rightarrow> 'a word" where
  "fips_Ch x y z = (x AND y) XOR (NOT x AND z)"

definition fips_Maj :: "'a::len word \<Rightarrow> 'a word \<Rightarrow> 'a word \<Rightarrow> 'a word" where
  "fips_Maj x y z = (x AND y) XOR (x AND z) XOR (y AND z)"

text \<open>\<open>\<Sigma>\<close> with its three rotations, \<open>\<sigma>\<close> with two rotations and a shift.\<close>

definition fips_Sigma :: "nat \<times> nat \<times> nat \<Rightarrow> 'a::len word \<Rightarrow> 'a word" where
  "fips_Sigma rs x = (case rs of (r1, r2, r3) \<Rightarrow> word_rotr r1 x XOR word_rotr r2 x XOR word_rotr r3 x)"

definition fips_sigma :: "nat \<times> nat \<times> nat \<Rightarrow> 'a::len word \<Rightarrow> 'a word" where
  "fips_sigma rs x = (case rs of (r1, r2, s) \<Rightarrow> word_rotr r1 x XOR word_rotr r2 x XOR drop_bit s x)"

subsection \<open>Constants\<close>

text \<open>The largest \<open>r\<close> with \<open>r\<^sup>k \<le> n\<close>, and the first eighty primes.\<close>

definition fips_root :: "nat \<Rightarrow> nat \<Rightarrow> nat" where
  "fips_root k n = (GREATEST r. r ^ k \<le> n)"

definition fips_primes :: "nat list" where
  "fips_primes =
    [2, 3, 5, 7, 11, 13, 17, 19, 23, 29, 31, 37, 41, 43, 47, 53, 59, 61, 67, 71, 73, 79, 83, 89, 97, 101,
     103, 107, 109, 113, 127, 131, 137, 139, 149, 151, 157, 163, 167, 173, 179, 181, 191, 193, 197, 199,
     211, 223, 227, 229, 233, 239, 241, 251, 257, 263, 269, 271, 277, 281, 283, 293, 307, 311, 313, 317,
     331, 337, 347, 349, 353, 359, 367, 373, 379, 383, 389, 397, 401, 409]"

text \<open>
  The first \<open>w\<close> bits of the fractional part of the \<open>k\<close>-th root of \<open>p\<close>, for words of \<open>w\<close> bits: the integer
  part leaves the word.
\<close>

definition fips_frac :: "nat \<Rightarrow> nat \<Rightarrow> 'a::len word" where
  "fips_frac k p = of_nat (fips_root k (p * 2 ^ (k * LENGTH('a))))"

definition fips_K :: "nat \<Rightarrow> 'a::len word" where
  "fips_K t = fips_frac 3 (fips_primes ! t)"

definition fips_H0_224 :: "u32 list" where
  "fips_H0_224 = map (\<lambda>p. ucast (fips_frac 2 p :: u64)) (take 8 (drop 8 fips_primes))"

definition fips_H0_256 :: "u32 list" where
  "fips_H0_256 = map (fips_frac 2) (take 8 fips_primes)"

definition fips_H0_384 :: "u64 list" where
  "fips_H0_384 = map (fips_frac 2) (take 8 (drop 8 fips_primes))"

definition fips_H0_512 :: "u64 list" where
  "fips_H0_512 = map (fips_frac 2) (take 8 fips_primes)"

subsection \<open>The compression function\<close>

text \<open>
  What the two word sizes differ in: the rotations of \<open>\<Sigma>\<^sub>0\<close>, \<open>\<Sigma>\<^sub>1\<close>, \<open>\<sigma>\<^sub>0\<close>, \<open>\<sigma>\<^sub>1\<close> and the number of rounds.
\<close>

record fips_params =
  fips_S0 :: "nat \<times> nat \<times> nat"
  fips_S1 :: "nat \<times> nat \<times> nat"
  fips_s0 :: "nat \<times> nat \<times> nat"
  fips_s1 :: "nat \<times> nat \<times> nat"
  fips_rounds :: nat

definition fips_P256 :: fips_params where
  "fips_P256 = \<lparr>fips_S0 = (2, 13, 22), fips_S1 = (6, 11, 25), fips_s0 = (7, 18, 3), fips_s1 = (17, 19, 10),
     fips_rounds = 64\<rparr>"

definition fips_P512 :: fips_params where
  "fips_P512 = \<lparr>fips_S0 = (28, 34, 39), fips_S1 = (14, 18, 41), fips_s0 = (1, 8, 7), fips_s1 = (19, 61, 6),
     fips_rounds = 80\<rparr>"

text \<open>The word of its bytes, most significant first, and the bytes of a number.\<close>

definition fips_word :: "u8 list \<Rightarrow> 'a::len word" where
  "fips_word bs = of_nat (foldl (\<lambda>n b. 256 * n + unat b) 0 bs)"

definition fips_bytes :: "nat \<Rightarrow> nat \<Rightarrow> u8 list" where
  "fips_bytes k n = map (\<lambda>i. of_nat (n div 256 ^ i)) (rev [0..<k])"

fun fips_W :: "fips_params \<Rightarrow> u8 list \<Rightarrow> nat \<Rightarrow> 'a::len word" where
  "fips_W P M t =
     (if t < 16 then fips_word (take (LENGTH('a) div 8) (drop (LENGTH('a) div 8 * t) M))
      else fips_sigma (fips_s1 P) (fips_W P M (t - 2)) + fips_W P M (t - 7)
         + fips_sigma (fips_s0 P) (fips_W P M (t - 15)) + fips_W P M (t - 16))"

declare fips_W.simps [simp del]

type_synonym 'a fips_vars =
  "'a word \<times> 'a word \<times> 'a word \<times> 'a word \<times> 'a word \<times> 'a word \<times> 'a word \<times> 'a word"

text \<open>The working variables after \<open>t\<close> rounds.\<close>

primrec fips_after :: "fips_params \<Rightarrow> u8 list \<Rightarrow> nat \<Rightarrow> 'a::len fips_vars \<Rightarrow> 'a fips_vars" where
  "fips_after P M 0 v = v"
| "fips_after P M (Suc t) v = (case fips_after P M t v of (a, b, c, d, e, f, g, h) \<Rightarrow>
     let T1 = h + fips_Sigma (fips_S1 P) e + fips_Ch e f g + fips_K t + fips_W P M t;
         T2 = fips_Sigma (fips_S0 P) a + fips_Maj a b c
     in (T1 + T2, a, b, c, d + T1, e, f, g))"

definition fips_block :: "fips_params \<Rightarrow> 'a::len word list \<Rightarrow> u8 list \<Rightarrow> 'a word list" where
  "fips_block P H M =
     (case fips_after P M (fips_rounds P) (H ! 0, H ! 1, H ! 2, H ! 3, H ! 4, H ! 5, H ! 6, H ! 7) of
        (a, b, c, d, e, f, g, h) \<Rightarrow> map2 (+) H [a, b, c, d, e, f, g, h])"

subsection \<open>The hash functions\<close>

text \<open>
  A one bit, the fewest zeros that make the length a multiple of the block size \<open>B\<close>, and the number of bits of
  the message in \<open>l\<close> bytes.
\<close>

definition fips_pad :: "nat \<Rightarrow> nat \<Rightarrow> u8 list \<Rightarrow> u8 list" where
  "fips_pad B l m =
     m @ [0x80] @ replicate (LEAST z. B dvd length m + 1 + z + l) 0 @ fips_bytes l (8 * length m)"

definition fips_hash :: "fips_params \<Rightarrow> 'a::len word list \<Rightarrow> nat \<Rightarrow> u8 list \<Rightarrow> u8 list" where
  "fips_hash P H0 n m =
     (let w = LENGTH('a) div 8
      in take n (concat (map (\<lambda>x. fips_bytes w (unat x))
           (foldl (fips_block P) H0 (chunks (16 * w) (fips_pad (16 * w) (2 * w) m))))))"

text \<open>SHA-224, SHA-256, SHA-384 and SHA-512 under the numbers the code gives the variants.\<close>

definition sha2 :: "nat \<Rightarrow> u8 list \<Rightarrow> u8 list" where
  "sha2 v = (if v = 0 then fips_hash fips_P256 fips_H0_224 28
     else if v = 1 then fips_hash fips_P256 fips_H0_256 32
     else if v = 2 then fips_hash fips_P512 fips_H0_384 48
     else fips_hash fips_P512 fips_H0_512 64)"

subsection \<open>The constants are what they are\<close>

lemma fips_root_eq:
  assumes "r ^ k \<le> n" and "n < Suc r ^ k"
  shows "fips_root k n = r"
  unfolding fips_root_def
proof (rule Greatest_equality)
  fix y assume "y ^ k \<le> n"
  then have "y ^ k < Suc r ^ k" using assms(2) by simp
  then show "y \<le> r" by (metis less_Suc_eq_le power_less_imp_less_base le0)
qed (rule assms(1))

text \<open>
  A table of such constants is checked entry by entry: with the integer part of the root in front, an entry and its
  successor enclose the root.
\<close>

definition frac_ok :: "nat \<Rightarrow> nat \<Rightarrow> nat \<Rightarrow> nat \<Rightarrow> bool" where
  "frac_ok k w p c = (let r = length (filter (\<lambda>q. q ^ k \<le> p) [1, 2, 3, 4, 5, 6, 7, 8, 9]) * 2 ^ w + c
     in r ^ k \<le> p * 2 ^ (k * w) \<and> p * 2 ^ (k * w) < Suc r ^ k)"

lemma fips_frac_ok:
  assumes "frac_ok k LENGTH('a) p (unat c)"
  shows "fips_frac k p = (c :: 'a::len word)"
  using fips_root_eq[of _ k "p * 2 ^ (k * LENGTH('a))"] assms
  by (fastforce simp: fips_frac_def frac_ok_def Let_def)

lemma map_fips_frac:
  "list_all2 (frac_ok k LENGTH('a)) ps (map unat cs) \<Longrightarrow> map (fips_frac k) ps = (cs :: 'a::len word list)"
  by (induction ps arbitrary: cs) (auto simp: list_all2_Cons1 map_eq_Cons_conv fips_frac_ok)

subsection \<open>The standard's notation and the usual operations on words\<close>

lemma fips_rotr:
  assumes "0 < n" "n < LENGTH('a)"
  shows "word_rotr n x = drop_bit n x OR push_bit (LENGTH('a) - n) (x :: 'a::len word)"
proof (rule bit_word_eqI)
  fix i assume "i < LENGTH('a)"
  with assms show "bit (word_rotr n x) i = bit (drop_bit n x OR push_bit (LENGTH('a) - n) x) i"
    by (cases "i + n < LENGTH('a)") (auto simp: bit_simps mod_if not_less add.commute dest: bit_imp_le_length)
qed

lemma byte_shift_in: "256 * y + ucast (b :: u8) = (push_bit 8 y OR ucast b :: 'a::len word)"
proof -
  have "push_bit 8 y + ucast b = (push_bit 8 y OR ucast b :: 'a word)"
    by (rule disjunctive_add) (auto simp: bit_simps dest: bit_imp_le_length)
  then show ?thesis by (simp add: push_bit_eq_mult mult.commute)
qed

lemma fips_word_foldl: "(fips_word bs :: 'a::len word) = foldl (\<lambda>w b. push_bit 8 w OR ucast b) 0 bs"
proof -
  have "of_nat (foldl (\<lambda>n b. 256 * n + unat b) n bs) = foldl (\<lambda>w b. push_bit 8 w OR ucast (b :: u8)) (of_nat n :: 'a word) bs" for n
  proof (induction bs arbitrary: n)
    case (Cons b bs)
    have "of_nat (256 * n + unat b) = (push_bit 8 (of_nat n) OR ucast b :: 'a word)"
      by (simp flip: byte_shift_in)
    then show ?case using Cons[of "256 * n + unat b"] by simp
  qed simp
  from this[of 0] show ?thesis by (simp add: fips_word_def)
qed

lemma upts: "[0..<4] = [0, 1, 2, 3]" "[0..<8] = [0, 1, 2, 3, 4, 5, 6, 7]"
  "[0..<16] = [0, 1, 2, 3, 4, 5, 6, 7, 8, 9, 10, 11, 12, 13, 14, 15]"
  by (simp_all add: upt_rec)

lemma take_drop_nth: "j + k \<le> length b \<Longrightarrow> take k (drop j b) = map (\<lambda>i. b ! (j + i)) [0..<k]"
  by (intro nth_equalityI) simp_all

lemma fips_word_be:
  "j + 4 \<le> length b \<Longrightarrow> fips_word (take 4 (drop j b)) = get_be32 b j"
  "j + 8 \<le> length b \<Longrightarrow> fips_word (take 8 (drop j b)) = get_be64 b j"
  by (simp_all add: take_drop_nth fips_word_foldl get_be32_def get_be64_def upts push_bit_or or.assoc)

lemma fips_bytes_of_nat:
  assumes "8 * i + 8 \<le> LENGTH('a)"
  shows "of_nat (x div 256 ^ i) = (ucast (drop_bit (8 * i) (of_nat x :: 'a::len word)) :: u8)"
proof -
  have "x div 256 ^ i = drop_bit (8 * i) x" by (simp add: drop_bit_eq_div power_mult)
  then show ?thesis using assms
    by (intro bit_word_eqI) (auto simp: bit_simps)
qed

lemma fips_bytes_put:
  "fips_bytes 4 x = put_be32 (of_nat x)"
  "fips_bytes 8 x = put_be64 (of_nat x)"
  "fips_bytes 16 x = put_be64 (of_nat (x div 2 ^ 64)) @ put_be64 (of_nat x)"
proof -
  note e = fips_bytes_of_nat[where 'a=64, of _ x] fips_bytes_of_nat[where 'a=64, of _ "x div 2 ^ 64"]
  show "fips_bytes 4 x = put_be32 (of_nat x)"
    using fips_bytes_of_nat[where 'a=32, of 0 x] fips_bytes_of_nat[where 'a=32, of 1 x]
     fips_bytes_of_nat[where 'a=32, of 2 x] fips_bytes_of_nat[where 'a=32, of 3 x]
    by (simp add: fips_bytes_def put_be32_def upts)
  show "fips_bytes 8 x = put_be64 (of_nat x)"
    using e(1)[of 0] e(1)[of 1] e(1)[of 2] e(1)[of 3] e(1)[of 4] e(1)[of 5] e(1)[of 6] e(1)[of 7]
    by (simp add: fips_bytes_def put_be64_def upts)
  show "fips_bytes 16 x = put_be64 (of_nat (x div 2 ^ 64)) @ put_be64 (of_nat x)"
    using e(1)[of 0] e(1)[of 1] e(1)[of 2] e(1)[of 3] e(1)[of 4] e(1)[of 5] e(1)[of 6] e(1)[of 7]
     e(2)[of 0] e(2)[of 1] e(2)[of 2] e(2)[of 3] e(2)[of 4] e(2)[of 5] e(2)[of 6] e(2)[of 7]
    by (simp add: fips_bytes_def put_be64_def upts flip: div_mult2_eq)
qed

lemma fips_pad_md:
  assumes "l < B" and L: "fips_bytes l (8 * length m) = L"
  shows "fips_pad B l m = m @ md_pad B (length m) L"
proof -
  define n where "n = length m"
  define q where "q = n div B"
  define r where "r = n mod B"
  define z where "z = (2 * B - 1 - l - r) mod B"
  have B: "0 < B" using assms by simp
  have r: "r < B" using B by (simp add: r_def)
  have n: "n = B * q + r" by (simp add: q_def r_def)
  have lL: "length L = l" using L by (auto simp: fips_bytes_def)
  have s: "n + 1 + (2 * B - 1 - l - r) + l = B * (q + 2)" using r assms(1) by (simp add: n algebra_simps)
  have ok: "B dvd n + 1 + z + l"
  proof -
    have "(n + 1 + z + l) mod B = (n + 1 + (2 * B - 1 - l - r) + l) mod B"
      unfolding z_def using mod_add_right_eq[of "n + 1 + l" "2 * B - 1 - l - r" B] by (simp only: ac_simps)
    then show ?thesis by (simp only: s) (simp add: mod_eq_0_iff_dvd)
  qed
  have "z \<le> y" if y: "B dvd n + 1 + y + l" for y
  proof -
    obtain k where "n + 1 + y + l = B * k" using y by blast
    then have "y + B * (q + 2) = (2 * B - 1 - l - r) + B * k" using s by linarith
    then have "y mod B = (2 * B - 1 - l - r) mod B" by (metis mod_mult_self2)
    then show ?thesis unfolding z_def by (metis mod_less_eq_dividend)
  qed
  then have "(LEAST z. B dvd n + 1 + z + l) = z" using ok by (intro Least_equality)
  then show ?thesis using L by (simp add: fips_pad_def md_pad_def lL n_def z_def r_def)
qed

end
