(* ===== verification/BitEval.thy ===== *)
theory BitEval
  imports BlockHash
begin

text \<open>
  Evaluation of word programs on lists of bits. Test vectors run in the kernel; the
  simplifier handles an operation on two lists of truth values several times faster than
  the same operation on two numerals, because every step is one rewrite with one of a few
  rules. A word is \<open>of_bits bs\<close>, least significant bit first; the collection \<open>bit_eval\<close> has
  the rules, and is meant for \<open>simp only\<close>.
\<close>

named_theorems bit_eval

definition of_bits :: "bool list \<Rightarrow> 'a::len word" where
  "of_bits bs = horner_sum of_bool 2 bs"

lemma bit_of_bits: "bit (of_bits bs :: 'a::len word) n \<longleftrightarrow> n < LENGTH('a) \<and> n < length bs \<and> bs ! n"
  by (auto simp: of_bits_def bit_horner_sum_bit_iff possible_bit_word)

lemma of_bits_eqI:
  assumes "\<And>n. n < LENGTH('a) \<Longrightarrow> bit w n \<longleftrightarrow> n < length bs \<and> bs ! n"
  shows "w = (of_bits bs :: 'a::len word)"
  by (rule bit_word_eqI) (simp add: bit_of_bits assms)

subsection \<open>Bitwise operations\<close>

fun xor_bl :: "bool list \<Rightarrow> bool list \<Rightarrow> bool list" where
  "xor_bl (x # xs) (y # ys) = (x \<noteq> y) # xor_bl xs ys"
| "xor_bl [] ys = ys"
| "xor_bl xs [] = xs"

fun or_bl :: "bool list \<Rightarrow> bool list \<Rightarrow> bool list" where
  "or_bl (x # xs) (y # ys) = (x \<or> y) # or_bl xs ys"
| "or_bl [] ys = ys"
| "or_bl xs [] = xs"

fun and_bl :: "bool list \<Rightarrow> bool list \<Rightarrow> bool list" where
  "and_bl (x # xs) (y # ys) = (x \<and> y) # and_bl xs ys"
| "and_bl xs ys = []"

primrec not_bl :: "bool list \<Rightarrow> bool list" where
  "not_bl [] = []"
| "not_bl (x # xs) = (\<not> x) # not_bl xs"

lemma xor_bl_nth:
  "length (xor_bl xs ys) = max (length xs) (length ys)"
  "n < max (length xs) (length ys) \<Longrightarrow>
     xor_bl xs ys ! n \<longleftrightarrow> (n < length xs \<and> xs ! n) \<noteq> (n < length ys \<and> ys ! n)"
  by (induction xs ys arbitrary: n rule: xor_bl.induct) (auto simp: nth_Cons split: nat.splits)

lemma or_bl_nth:
  "length (or_bl xs ys) = max (length xs) (length ys)"
  "n < max (length xs) (length ys) \<Longrightarrow>
     or_bl xs ys ! n \<longleftrightarrow> (n < length xs \<and> xs ! n) \<or> (n < length ys \<and> ys ! n)"
  by (induction xs ys arbitrary: n rule: or_bl.induct) (auto simp: nth_Cons split: nat.splits)

lemma and_bl_nth:
  "length (and_bl xs ys) = min (length xs) (length ys)"
  "n < min (length xs) (length ys) \<Longrightarrow> and_bl xs ys ! n \<longleftrightarrow> xs ! n \<and> ys ! n"
  by (induction xs ys arbitrary: n rule: and_bl.induct) (auto simp: nth_Cons split: nat.splits)

lemma not_bl_eq: "not_bl xs = map Not xs"
  by (induction xs) simp_all

lemma of_bits_xor [bit_eval]: "of_bits xs XOR of_bits ys = of_bits (xor_bl xs ys)"
  by (rule of_bits_eqI) (auto simp: bit_xor_iff bit_of_bits xor_bl_nth)

lemma of_bits_or [bit_eval]: "of_bits xs OR of_bits ys = of_bits (or_bl xs ys)"
  by (rule of_bits_eqI) (auto simp: bit_or_iff bit_of_bits or_bl_nth)

lemma of_bits_and [bit_eval]: "of_bits xs AND of_bits ys = of_bits (and_bl xs ys)"
  by (rule of_bits_eqI) (auto simp: bit_and_iff bit_of_bits and_bl_nth)

lemma xor_bl_eval [bit_eval]:
  "xor_bl (True # xs) (True # ys) = False # xor_bl xs ys"
  "xor_bl (True # xs) (False # ys) = True # xor_bl xs ys"
  "xor_bl (False # xs) (True # ys) = True # xor_bl xs ys"
  "xor_bl (False # xs) (False # ys) = False # xor_bl xs ys"
  "xor_bl [] ys = ys"
  by simp_all

lemma or_bl_eval [bit_eval]:
  "or_bl (True # xs) (y # ys) = True # or_bl xs ys"
  "or_bl (False # xs) (y # ys) = y # or_bl xs ys"
  "or_bl [] ys = ys"
  by simp_all

lemma and_bl_eval [bit_eval]:
  "and_bl (True # xs) (y # ys) = y # and_bl xs ys"
  "and_bl (False # xs) (y # ys) = False # and_bl xs ys"
  "and_bl [] ys = []"
  by simp_all

lemma not_bl_eval [bit_eval]:
  "not_bl (True # xs) = False # not_bl xs" "not_bl (False # xs) = True # not_bl xs" "not_bl [] = []"
  by simp_all

subsection \<open>Operations that depend on the length\<close>

text \<open>The length of a list of literals is known in one step.\<close>

definition len32 :: "'a list \<Rightarrow> bool" where "len32 bs \<longleftrightarrow> length bs = 32"
definition len64 :: "'a list \<Rightarrow> bool" where "len64 bs \<longleftrightarrow> length bs = 64"

lemma len32_eval [bit_eval]:
  "len32 [x0, x1, x2, x3, x4, x5, x6, x7, x8, x9, x10, x11, x12, x13, x14, x15,
     x16, x17, x18, x19, x20, x21, x22, x23, x24, x25, x26, x27, x28, x29, x30, x31] \<longleftrightarrow> True"
  by (simp add: len32_def)

lemma len64_eval [bit_eval]:
  "len64 [x0, x1, x2, x3, x4, x5, x6, x7, x8, x9, x10, x11, x12, x13, x14, x15,
     x16, x17, x18, x19, x20, x21, x22, x23, x24, x25, x26, x27, x28, x29, x30, x31,
     y0, y1, y2, y3, y4, y5, y6, y7, y8, y9, y10, y11, y12, y13, y14, y15,
     y16, y17, y18, y19, y20, y21, y22, y23, y24, y25, y26, y27, y28, y29, y30, y31] \<longleftrightarrow> True"
  by (simp add: len64_def)

lemma of_bits_not:
  "length xs = LENGTH('a) \<Longrightarrow> NOT (of_bits xs :: 'a::len word) = of_bits (not_bl xs)"
  by (rule of_bits_eqI) (auto simp: bit_not_iff bit_of_bits not_bl_eq)

fun add_bl :: "bool \<Rightarrow> bool list \<Rightarrow> bool list \<Rightarrow> bool list" where
  "add_bl c (x # xs) (y # ys) = (x \<noteq> (y \<noteq> c)) # add_bl ((x \<and> y) \<or> (x \<and> c) \<or> (y \<and> c)) xs ys"
| "add_bl c xs ys = []"

lemma add_bl_eval [bit_eval]:
  "add_bl False (False # xs) (False # ys) = False # add_bl False xs ys"
  "add_bl False (False # xs) (True # ys) = True # add_bl False xs ys"
  "add_bl False (True # xs) (False # ys) = True # add_bl False xs ys"
  "add_bl False (True # xs) (True # ys) = False # add_bl True xs ys"
  "add_bl True (False # xs) (False # ys) = True # add_bl False xs ys"
  "add_bl True (False # xs) (True # ys) = False # add_bl True xs ys"
  "add_bl True (True # xs) (False # ys) = False # add_bl True xs ys"
  "add_bl True (True # xs) (True # ys) = True # add_bl True xs ys"
  "add_bl c [] [] = []"
  by simp_all

lemma add_bl_value:
  assumes "length xs = length ys"
  shows "\<exists>k. horner_sum of_bool 2 xs + horner_sum of_bool 2 ys + of_bool c
     = horner_sum of_bool 2 (add_bl c xs ys) + 2 ^ length xs * (k :: 'a::comm_semiring_1)"
  using assms
proof (induction xs ys arbitrary: c rule: list_induct2)
  case Nil
  show ?case by (intro exI[of _ "of_bool c"]) simp
next
  case (Cons x xs y ys)
  define d where "d = ((x \<and> y) \<or> (x \<and> c) \<or> (y \<and> c))"
  from Cons.IH[of d] obtain k :: 'a where
    k: "horner_sum of_bool 2 xs + horner_sum of_bool 2 ys + of_bool d
        = horner_sum of_bool 2 (add_bl d xs ys) + 2 ^ length xs * k" by blast
  have "of_bool x + of_bool y + of_bool c = (of_bool (x \<noteq> (y \<noteq> c)) + 2 * of_bool d :: 'a)"
    by (cases x; cases y; cases c) (simp_all add: d_def)
  moreover have "horner_sum of_bool 2 (x # xs) + horner_sum of_bool 2 (y # ys) + of_bool c
      = (of_bool x + of_bool y + of_bool c) + 2 * (horner_sum of_bool 2 xs + horner_sum of_bool 2 ys :: 'a)"
    by (simp only: horner_sum_simps distrib_left) (simp only: ac_simps)
  ultimately have "horner_sum of_bool 2 (x # xs) + horner_sum of_bool 2 (y # ys) + of_bool c
      = of_bool (x \<noteq> (y \<noteq> c)) + 2 * (horner_sum of_bool 2 xs + horner_sum of_bool 2 ys + of_bool d :: 'a)"
    by (simp only: distrib_left ac_simps)
  also have "\<dots> = horner_sum of_bool 2 (add_bl c (x # xs) (y # ys)) + 2 ^ length (x # xs) * k"
    unfolding k by (simp add: d_def distrib_left ac_simps)
  finally show ?case by blast
qed

lemma of_bits_add:
  assumes "length xs = LENGTH('a)" and "length ys = LENGTH('a)"
  shows "(of_bits xs + of_bits ys :: 'a::len word) = of_bits (add_bl False xs ys)"
proof -
  have "length xs = length ys" using assms by simp
  from add_bl_value[OF this, of False, where 'a="'a word"] obtain k :: "'a word" where
    "horner_sum of_bool 2 xs + horner_sum of_bool 2 ys + of_bool False
        = horner_sum of_bool 2 (add_bl False xs ys) + 2 ^ length xs * k" by blast
  moreover have "(2 :: 'a word) ^ length xs = 0" using assms by simp
  ultimately show ?thesis by (simp add: of_bits_def)
qed

text \<open>\<open>rot_bl n xs acc\<close> moves \<open>n\<close> elements to the end.\<close>

fun rot_bl :: "nat \<Rightarrow> bool list \<Rightarrow> bool list \<Rightarrow> bool list" where
  "rot_bl (Suc n) (x # xs) acc = rot_bl n xs (x # acc)"
| "rot_bl n xs acc = xs @ rev acc"

lemma rot_bl_eq: "n \<le> length xs \<Longrightarrow> rot_bl n xs acc = drop n xs @ rev acc @ take n xs"
  by (induction n xs acc rule: rot_bl.induct) auto

definition app_rev :: "bool list \<Rightarrow> bool list \<Rightarrow> bool list" where "app_rev xs acc = xs @ rev acc"
definition rev_app :: "'a list \<Rightarrow> 'a list \<Rightarrow> 'a list" where "rev_app acc zs = rev acc @ zs"

lemma rot_bl_eval [bit_eval]:
  "rot_bl (numeral n) (x # xs) acc = rot_bl (pred_numeral n) xs (x # acc)"
  "rot_bl (Suc 0) (x # xs) acc = app_rev xs (x # acc)"
  "rot_bl 1 (x # xs) acc = app_rev xs (x # acc)"
  "rot_bl 0 xs acc = app_rev xs acc"
  "app_rev (y # ys) acc = y # app_rev ys acc"
  "app_rev [] acc = rev_app acc []"
  by (simp_all add: app_rev_def rev_app_def numeral_eq_Suc)

lemma rev_app_eval [bit_eval]:
  "rev vs = rev_app vs []"
  "rev_app (z # zs) ws = rev_app zs (z # ws)"
  "rev_app [] ws = ws"
  by (simp_all add: app_rev_def rev_app_def numeral_eq_Suc)

lemma of_bits_rotr:
  assumes "length xs = LENGTH('a)" and "n \<le> LENGTH('a)"
  shows "drop_bit n (of_bits xs) OR push_bit (LENGTH('a) - n) (of_bits xs :: 'a::len word) = of_bits (rot_bl n xs [])"
proof (rule of_bits_eqI)
  fix i assume i: "i < LENGTH('a)"
  show "bit (drop_bit n (of_bits xs) OR push_bit (LENGTH('a) - n) (of_bits xs :: 'a word)) i
      \<longleftrightarrow> i < length (rot_bl n xs []) \<and> rot_bl n xs [] ! i"
  proof (cases "i < LENGTH('a) - n")
    case True
    then show ?thesis using i assms
      by (auto simp: rot_bl_eq bit_or_iff bit_drop_bit_eq bit_push_bit_iff bit_of_bits nth_append add.commute)
  next
    case False
    then show ?thesis using i assms
      by (auto simp: rot_bl_eq bit_or_iff bit_drop_bit_eq bit_push_bit_iff bit_of_bits nth_append)
  qed
qed

text \<open>\<open>shr_bl n xs\<close> drops \<open>n\<close> bits and fills up with zeros.\<close>

fun shr_bl :: "nat \<Rightarrow> bool list \<Rightarrow> bool list \<Rightarrow> bool list" where
  "shr_bl (Suc n) (x # xs) acc = shr_bl n xs (False # acc)"
| "shr_bl n xs acc = xs @ rev acc"

lemma shr_bl_eq: "n \<le> length xs \<Longrightarrow> shr_bl n xs acc = drop n xs @ rev acc @ replicate n False"
  by (induction n xs acc rule: shr_bl.induct) (auto simp: replicate_append_same)

lemma shr_bl_eval [bit_eval]:
  "shr_bl (numeral n) (x # xs) acc = shr_bl (pred_numeral n) xs (False # acc)"
  "shr_bl (Suc 0) (x # xs) acc = app_rev xs (False # acc)"
  "shr_bl 1 (x # xs) acc = app_rev xs (False # acc)"
  "shr_bl 0 xs acc = app_rev xs acc"
  by (simp_all add: app_rev_def numeral_eq_Suc)

lemma of_bits_shr:
  assumes "length xs = LENGTH('a)" and "n \<le> LENGTH('a)"
  shows "drop_bit n (of_bits xs :: 'a::len word) = of_bits (shr_bl n xs [])"
proof (rule of_bits_eqI)
  fix i assume i: "i < LENGTH('a)"
  show "bit (drop_bit n (of_bits xs :: 'a word)) i \<longleftrightarrow> i < length (shr_bl n xs []) \<and> shr_bl n xs [] ! i"
    using i assms
    by (auto simp: shr_bl_eq bit_drop_bit_eq bit_of_bits nth_append add.commute)
qed

lemma of_bits_eval32 [bit_eval]:
  "len32 xs \<Longrightarrow> NOT (of_bits xs :: u32) = of_bits (not_bl xs)"
  "len32 xs \<Longrightarrow> len32 ys \<Longrightarrow> of_bits xs + of_bits ys = (of_bits (add_bl False xs ys) :: u32)"
  by (simp_all add: len32_def of_bits_not of_bits_add)

lemma of_bits_eval64 [bit_eval]:
  "len64 xs \<Longrightarrow> NOT (of_bits xs :: u64) = of_bits (not_bl xs)"
  "len64 xs \<Longrightarrow> len64 ys \<Longrightarrow> of_bits xs + of_bits ys = (of_bits (add_bl False xs ys) :: u64)"
  by (simp_all add: len64_def of_bits_not of_bits_add)

lemmas [bit_eval] = pred_numeral_simps BitM.simps

subsection \<open>Literals\<close>

text \<open>\<open>num_bits zs n\<close> writes the number over the zeros \<open>zs\<close>.\<close>

fun num_bits :: "bool list \<Rightarrow> num \<Rightarrow> bool list" where
  "num_bits [] n = []"
| "num_bits (z # zs) num.One = True # zs"
| "num_bits (z # zs) (num.Bit0 n) = False # num_bits zs n"
| "num_bits (z # zs) (num.Bit1 n) = True # num_bits zs n"

lemma num_bits_nth:
  assumes "\<forall>z \<in> set zs. \<not> z"
  shows "length (num_bits zs n) = length zs"
    and "i < length zs \<Longrightarrow> num_bits zs n ! i \<longleftrightarrow> bit (numeral n :: nat) i"
  using assms
  by (induction zs n arbitrary: i rule: num_bits.induct)
    (auto simp: nth_Cons bit_0 bit_Suc dest: nth_mem split: nat.splits)

lemma bit_word_of_nat: "bit (of_nat m :: 'a::len word) i \<longleftrightarrow> i < LENGTH('a) \<and> bit m i"
  by (simp add: bit_simps)

lemma of_bits_numeral:
  assumes "\<forall>z \<in> set zs. \<not> z" and "length zs = LENGTH('a)"
  shows "(numeral n :: 'a::len word) = of_bits (num_bits zs n)"
proof (rule of_bits_eqI)
  fix i assume "i < LENGTH('a)"
  moreover have "bit (numeral n :: 'a word) i \<longleftrightarrow> i < LENGTH('a) \<and> bit (numeral n :: nat) i"
    unfolding of_nat_numeral [symmetric, where 'a="'a word"]
    by (simp only: bit_word_of_nat)
  ultimately show "bit (numeral n :: 'a word) i \<longleftrightarrow> i < length (num_bits zs n) \<and> num_bits zs n ! i"
    using assms num_bits_nth[OF assms(1)] by simp
qed

text \<open>A literal that is to be turned into bits.\<close>

definition lit :: "'a::len word \<Rightarrow> 'a word" where "lit w = w"

lemma lit_eval [bit_eval]: "lit (of_bits bs) = of_bits bs"
  by (simp add: lit_def)

lemma lit_u8_eval [bit_eval]:
  "lit (numeral n :: u8) = of_bits (num_bits [False, False, False, False, False, False, False, False] n)"
  "lit (0 :: u8) = of_bits [False, False, False, False, False, False, False, False]"
  "lit (1 :: u8) = of_bits [True, False, False, False, False, False, False, False]"
  unfolding lit_def by (rule of_bits_numeral, simp_all)+ (simp_all add: of_bits_def)

lemma lit_u32_eval [bit_eval]:
  "lit (numeral n :: u32) = of_bits (num_bits
     [False, False, False, False, False, False, False, False, False, False, False, False, False, False, False, False,
      False, False, False, False, False, False, False, False, False, False, False, False, False, False, False, False] n)"
  "lit (0 :: u32) = of_bits
     [False, False, False, False, False, False, False, False, False, False, False, False, False, False, False, False,
      False, False, False, False, False, False, False, False, False, False, False, False, False, False, False, False]"
  unfolding lit_def by (rule of_bits_numeral, simp_all)+ (simp_all add: of_bits_def)

lemma lit_u64_eval [bit_eval]:
  "lit (numeral n :: u64) = of_bits (num_bits
     [False, False, False, False, False, False, False, False, False, False, False, False, False, False, False, False,
      False, False, False, False, False, False, False, False, False, False, False, False, False, False, False, False,
      False, False, False, False, False, False, False, False, False, False, False, False, False, False, False, False,
      False, False, False, False, False, False, False, False, False, False, False, False, False, False, False, False] n)"
  unfolding lit_def by (rule of_bits_numeral) simp_all

lemmas [bit_eval] = num_bits.simps

subsection \<open>Bytes to words and back\<close>

text \<open>Four or eight bytes, most significant first.\<close>

definition be4 :: "u8 \<Rightarrow> u8 \<Rightarrow> u8 \<Rightarrow> u8 \<Rightarrow> u32" where
  "be4 a b c d = push_bit 24 (ucast a) OR push_bit 16 (ucast b) OR push_bit 8 (ucast c) OR ucast d"

definition be8 :: "u8 \<Rightarrow> u8 \<Rightarrow> u8 \<Rightarrow> u8 \<Rightarrow> u8 \<Rightarrow> u8 \<Rightarrow> u8 \<Rightarrow> u8 \<Rightarrow> u64" where
  "be8 a b c d e f g h = push_bit 56 (ucast a) OR push_bit 48 (ucast b) OR push_bit 40 (ucast c)
     OR push_bit 32 (ucast d) OR push_bit 24 (ucast e) OR push_bit 16 (ucast f) OR push_bit 8 (ucast g) OR ucast h"

lemma of_bits_push: "push_bit n (of_bits xs :: 'a::len word) = of_bits (replicate n False @ xs)"
  by (rule of_bits_eqI) (auto simp: bit_push_bit_iff bit_of_bits nth_append)

lemma of_bits_ucast:
  "length xs \<le> LENGTH('a) \<Longrightarrow> ucast (of_bits xs :: 'a::len word) = (of_bits xs :: 'b::len word)"
  by (rule of_bits_eqI) (auto simp: bit_unsigned_iff bit_of_bits possible_bit_word)

lemma of_bits_ucast_take: "ucast (of_bits xs :: u32) = (of_bits (take 8 xs) :: u8)"
  "ucast (of_bits xs :: u64) = (of_bits (take 8 xs) :: u8)"
  by (rule of_bits_eqI; auto simp: bit_unsigned_iff bit_of_bits possible_bit_word)+

lemma be4_eval [bit_eval]:
  "be4 (of_bits [a0, a1, a2, a3, a4, a5, a6, a7]) (of_bits [b0, b1, b2, b3, b4, b5, b6, b7])
     (of_bits [c0, c1, c2, c3, c4, c5, c6, c7]) (of_bits [d0, d1, d2, d3, d4, d5, d6, d7])
     = of_bits [d0, d1, d2, d3, d4, d5, d6, d7, c0, c1, c2, c3, c4, c5, c6, c7,
         b0, b1, b2, b3, b4, b5, b6, b7, a0, a1, a2, a3, a4, a5, a6, a7]"
  by (simp add: be4_def of_bits_ucast of_bits_push of_bits_or replicate_numeral)

lemma be8_eval [bit_eval]:
  "be8 (of_bits [a0, a1, a2, a3, a4, a5, a6, a7]) (of_bits [b0, b1, b2, b3, b4, b5, b6, b7])
     (of_bits [c0, c1, c2, c3, c4, c5, c6, c7]) (of_bits [d0, d1, d2, d3, d4, d5, d6, d7])
     (of_bits [e0, e1, e2, e3, e4, e5, e6, e7]) (of_bits [f0, f1, f2, f3, f4, f5, f6, f7])
     (of_bits [g0, g1, g2, g3, g4, g5, g6, g7]) (of_bits [h0, h1, h2, h3, h4, h5, h6, h7])
     = of_bits [h0, h1, h2, h3, h4, h5, h6, h7, g0, g1, g2, g3, g4, g5, g6, g7,
         f0, f1, f2, f3, f4, f5, f6, f7, e0, e1, e2, e3, e4, e5, e6, e7, d0, d1, d2, d3, d4, d5, d6, d7, c0, c1, c2, c3, c4, c5, c6, c7,
         b0, b1, b2, b3, b4, b5, b6, b7, a0, a1, a2, a3, a4, a5, a6, a7]"
  by (simp add: be8_def of_bits_ucast of_bits_push of_bits_or replicate_numeral)

lemma put_be32_eval [bit_eval]:
  "put_be32 (of_bits [d0, d1, d2, d3, d4, d5, d6, d7, c0, c1, c2, c3, c4, c5, c6, c7,
      b0, b1, b2, b3, b4, b5, b6, b7, a0, a1, a2, a3, a4, a5, a6, a7])
     = [of_bits [a0, a1, a2, a3, a4, a5, a6, a7], of_bits [b0, b1, b2, b3, b4, b5, b6, b7],
        of_bits [c0, c1, c2, c3, c4, c5, c6, c7], of_bits [d0, d1, d2, d3, d4, d5, d6, d7]]"
  by (simp add: put_be32_def of_bits_shr of_bits_ucast_take shr_bl_eq replicate_numeral)

lemma put_le32_eval [bit_eval]:
  "put_le32 (of_bits [d0, d1, d2, d3, d4, d5, d6, d7, c0, c1, c2, c3, c4, c5, c6, c7,
      b0, b1, b2, b3, b4, b5, b6, b7, a0, a1, a2, a3, a4, a5, a6, a7])
     = [of_bits [d0, d1, d2, d3, d4, d5, d6, d7], of_bits [c0, c1, c2, c3, c4, c5, c6, c7],
        of_bits [b0, b1, b2, b3, b4, b5, b6, b7], of_bits [a0, a1, a2, a3, a4, a5, a6, a7]]"
  by (simp add: put_le32_def of_bits_shr of_bits_ucast_take shr_bl_eq replicate_numeral)

lemma put_be64_eval [bit_eval]:
  "put_be64 (of_bits [h0, h1, h2, h3, h4, h5, h6, h7, g0, g1, g2, g3, g4, g5, g6, g7,
      f0, f1, f2, f3, f4, f5, f6, f7, e0, e1, e2, e3, e4, e5, e6, e7,
      d0, d1, d2, d3, d4, d5, d6, d7, c0, c1, c2, c3, c4, c5, c6, c7, b0, b1, b2, b3, b4, b5, b6, b7, a0, a1, a2, a3, a4, a5, a6, a7])
     = [of_bits [a0, a1, a2, a3, a4, a5, a6, a7], of_bits [b0, b1, b2, b3, b4, b5, b6, b7],
        of_bits [c0, c1, c2, c3, c4, c5, c6, c7], of_bits [d0, d1, d2, d3, d4, d5, d6, d7],
        of_bits [e0, e1, e2, e3, e4, e5, e6, e7], of_bits [f0, f1, f2, f3, f4, f5, f6, f7],
        of_bits [g0, g1, g2, g3, g4, g5, g6, g7], of_bits [h0, h1, h2, h3, h4, h5, h6, h7]]"
  by (simp add: put_be64_def of_bits_shr of_bits_ucast_take shr_bl_eq replicate_numeral)

text \<open>The words of a block.\<close>

fun be32_words :: "u8 list \<Rightarrow> u32 list" where
  "be32_words (a # b # c # d # r) = be4 (lit a) (lit b) (lit c) (lit d) # be32_words r"
| "be32_words _ = []"

fun be64_words :: "u8 list \<Rightarrow> u64 list" where
  "be64_words (a # b # c # d # e # f # g # h # r) =
     be8 (lit a) (lit b) (lit c) (lit d) (lit e) (lit f) (lit g) (lit h) # be64_words r"
| "be64_words _ = []"

fun le32_words :: "u8 list \<Rightarrow> u32 list" where
  "le32_words (a # b # c # d # r) = be4 (lit d) (lit c) (lit b) (lit a) # le32_words r"
| "le32_words _ = []"

lemmas [bit_eval] = be32_words.simps be64_words.simps le32_words.simps

lemma get_be32_shift: "get_be32 (a # b # c # d # r) (4 + j) = get_be32 r j"
  by (simp add: get_be32_def add.commute)

lemma get_le32_shift: "get_le32 (a # b # c # d # r) (4 + j) = get_le32 r j"
  by (simp add: get_le32_def add.commute)

lemma get_be64_shift: "get_be64 (a # b # c # d # e # f # g # h # r) (8 + j) = get_be64 r j"
  by (simp add: get_be64_def add.commute)

lemma be32_words_eq: "length b = 4 * n \<Longrightarrow> map (\<lambda>i. get_be32 b (4 * i)) [0..<n] = be32_words b"
proof (induction n arbitrary: b)
  case (Suc n)
  then obtain w x y z r where b: "b = w # x # y # z # r" "length r = 4 * n"
    by (auto simp: length_Suc_conv numeral_eq_Suc)
  have "map (\<lambda>i. get_be32 b (4 * i)) [0..<Suc n] = get_be32 b 0 # map (\<lambda>i. get_be32 b (4 + 4 * i)) [0..<n]"
    by (simp add: upt_conv_Cons map_Suc_upt [symmetric] comp_def del: upt_Suc)
  moreover have "get_be32 b 0 = be4 (lit w) (lit x) (lit y) (lit z)"
    by (simp add: b get_be32_def be4_def lit_def)
  moreover have "map (\<lambda>i. get_be32 b (4 + 4 * i)) [0..<n] = be32_words r"
    unfolding b get_be32_shift using b(2) by (rule Suc.IH)
  ultimately show ?case by (simp only: b be32_words.simps)
qed simp

lemma le32_words_eq: "length b = 4 * n \<Longrightarrow> map (\<lambda>i. get_le32 b (4 * i)) [0..<n] = le32_words b"
proof (induction n arbitrary: b)
  case (Suc n)
  then obtain w x y z r where b: "b = w # x # y # z # r" "length r = 4 * n"
    by (auto simp: length_Suc_conv numeral_eq_Suc)
  have "map (\<lambda>i. get_le32 b (4 * i)) [0..<Suc n] = get_le32 b 0 # map (\<lambda>i. get_le32 b (4 + 4 * i)) [0..<n]"
    by (simp add: upt_conv_Cons map_Suc_upt [symmetric] comp_def del: upt_Suc)
  moreover have "get_le32 b 0 = be4 (lit z) (lit y) (lit x) (lit w)"
    by (simp add: b get_le32_def be4_def lit_def ac_simps)
  moreover have "map (\<lambda>i. get_le32 b (4 + 4 * i)) [0..<n] = le32_words r"
    unfolding b get_le32_shift using b(2) by (rule Suc.IH)
  ultimately show ?case by (simp only: b le32_words.simps)
qed simp

lemma be64_words_eq: "length b = 8 * n \<Longrightarrow> map (\<lambda>i. get_be64 b (8 * i)) [0..<n] = be64_words b"
proof (induction n arbitrary: b)
  case (Suc n)
  then obtain p q s t w x y z r where b: "b = p # q # s # t # w # x # y # z # r" "length r = 8 * n"
    by (auto simp: length_Suc_conv numeral_eq_Suc)
  have "map (\<lambda>i. get_be64 b (8 * i)) [0..<Suc n] = get_be64 b 0 # map (\<lambda>i. get_be64 b (8 + 8 * i)) [0..<n]"
    by (simp add: upt_conv_Cons map_Suc_upt [symmetric] comp_def del: upt_Suc)
  moreover have "get_be64 b 0 = be8 (lit p) (lit q) (lit s) (lit t) (lit w) (lit x) (lit y) (lit z)"
    by (simp add: b get_be64_def be8_def lit_def)
  moreover have "map (\<lambda>i. get_be64 b (8 + 8 * i)) [0..<n] = be64_words r"
    unfolding b get_be64_shift using b(2) by (rule Suc.IH)
  ultimately show ?case by (simp only: b be64_words.simps)
qed simp

text \<open>Bytes of a digest as numerals.\<close>

lemmas of_bits_numerals = of_bits_def horner_sum_simps

lemma take_eval: "take (numeral n) (x # xs) = x # take (pred_numeral n) xs" "take 0 xs = []"
  by (simp_all add: numeral_eq_Suc)

lemma nth_eval:
  "(x # xs) ! numeral n = xs ! pred_numeral n" "(x # xs) ! 0 = x" "(x # xs) ! 1 = xs ! 0"
  by simp_all

lemma drop_eval: "drop (numeral n) (x # xs) = drop (pred_numeral n) xs" "drop 0 xs = xs"
  by (simp_all add: numeral_eq_Suc)

lemmas list_eval = nth_eval drop_eval list.map take_eval concat.simps append.simps foldl.simps

end
