(* ===== verification/Sha2.thy ===== *)
theory Sha2
  imports BitEval Fips180
begin

text \<open>
  SHA-224, SHA-256, SHA-384 and SHA-512: \<^verbatim>\<open>uapkic/src/sha2.c\<close>. The macros for 32-bit and
  64-bit words differ in their shift amounts only and are modelled once, for words of any
  length.
\<close>

subsection \<open>Contexts\<close>

record Sha256Ctx =
  sha256_tot_len :: u64
  sha256_len :: nat
  sha256_block :: "u8 list"
  sha256_h :: "u32 list"

record Sha512Ctx =
  sha512_tot_len :: "u64 list"
  sha512_len :: nat
  sha512_block :: "u8 list"
  sha512_h :: "u64 list"

text \<open>
  The union of \<^verbatim>\<open>struct Sha2Ctx_st\<close> holds one of the two structures; reading the member
  that was not stored last is outside the model (\<open>UNDEFINED\<close>).
\<close>

datatype Sha2Union = U256 Sha256Ctx | U512 Sha512Ctx

record Sha2Ctx =
  sha2_variant :: nat
  sha2_k_opad :: "u8 list"
  sha2_type :: Sha2Union

definition SHA2_VARIANT_224 :: nat where "SHA2_VARIANT_224 = 0"
definition SHA2_VARIANT_256 :: nat where "SHA2_VARIANT_256 = 1"
definition SHA2_VARIANT_384 :: nat where "SHA2_VARIANT_384 = 2"
definition SHA2_VARIANT_512 :: nat where "SHA2_VARIANT_512 = 3"

definition sizeof_Sha2Ctx :: nat where "sizeof_Sha2Ctx = 480"

definition ctx256 :: "Sha2Ctx \<Rightarrow> Sha256Ctx res" where
  "ctx256 ctx = (case sha2_type ctx of U256 c \<Rightarrow> Inr c | U512 _ \<Rightarrow> Inl UNDEFINED)"

definition ctx512 :: "Sha2Ctx \<Rightarrow> Sha512Ctx res" where
  "ctx512 ctx = (case sha2_type ctx of U512 c \<Rightarrow> Inr c | U256 _ \<Rightarrow> Inl UNDEFINED)"

subsection \<open>The macros\<close>

definition ROTR :: "'a::len word \<Rightarrow> nat \<Rightarrow> 'a word" where
  "ROTR x n = drop_bit n x OR push_bit (LENGTH('a) - n) x"

definition CH :: "'a::len word \<Rightarrow> 'a word \<Rightarrow> 'a word \<Rightarrow> 'a word" where
  "CH x y z = (x AND y) XOR (NOT x AND z)"

definition MAJ :: "'a::len word \<Rightarrow> 'a word \<Rightarrow> 'a word \<Rightarrow> 'a word" where
  "MAJ x y z = (x AND y) XOR (x AND z) XOR (y AND z)"

definition SHA256_F1 :: "u32 \<Rightarrow> u32" where "SHA256_F1 x = ROTR x 2 XOR ROTR x 13 XOR ROTR x 22"
definition SHA256_F2 :: "u32 \<Rightarrow> u32" where "SHA256_F2 x = ROTR x 6 XOR ROTR x 11 XOR ROTR x 25"
definition SHA256_F3 :: "u32 \<Rightarrow> u32" where "SHA256_F3 x = ROTR x 7 XOR ROTR x 18 XOR drop_bit 3 x"
definition SHA256_F4 :: "u32 \<Rightarrow> u32" where "SHA256_F4 x = ROTR x 17 XOR ROTR x 19 XOR drop_bit 10 x"

definition SHA512_F1 :: "u64 \<Rightarrow> u64" where "SHA512_F1 x = ROTR x 28 XOR ROTR x 34 XOR ROTR x 39"
definition SHA512_F2 :: "u64 \<Rightarrow> u64" where "SHA512_F2 x = ROTR x 14 XOR ROTR x 18 XOR ROTR x 41"
definition SHA512_F3 :: "u64 \<Rightarrow> u64" where "SHA512_F3 x = ROTR x 1 XOR ROTR x 8 XOR drop_bit 7 x"
definition SHA512_F4 :: "u64 \<Rightarrow> u64" where "SHA512_F4 x = ROTR x 19 XOR ROTR x 61 XOR drop_bit 6 x"

text \<open>\<^verbatim>\<open>SCR(i)\<close> for \<open>i = 16, 17, \<dots>\<close>: the array \<^verbatim>\<open>w\<close> grows by one word.\<close>

primrec sha2_SCR ::
    "('a::len word \<Rightarrow> 'a word) \<Rightarrow> ('a word \<Rightarrow> 'a word) \<Rightarrow> nat \<Rightarrow> 'a word list \<Rightarrow> 'a word list" where
  "sha2_SCR F3 F4 0 w = w"
| "sha2_SCR F3 F4 (Suc n) w = sha2_SCR F3 F4 n
     (w @ [F4 (w ! (length w - 2)) + w ! (length w - 7) + F3 (w ! (length w - 15)) + w ! (length w - 16)])"

text \<open>
  \<^verbatim>\<open>EXP(a, b, c, d, e, f, g, h, j)\<close>; the next macro call names the variables rotated by one
  place. \<open>kw\<close> lists the pairs \<^verbatim>\<open>k[j], w[j]\<close>.
\<close>

type_synonym 'a wv = "'a word \<times> 'a word \<times> 'a word \<times> 'a word \<times> 'a word \<times> 'a word \<times> 'a word \<times> 'a word"

definition sha2_EXP ::
    "('a::len word \<Rightarrow> 'a word) \<Rightarrow> ('a word \<Rightarrow> 'a word) \<Rightarrow> 'a word \<Rightarrow> 'a word \<Rightarrow> 'a wv \<Rightarrow> 'a wv" where
  "sha2_EXP F1 F2 k w v = (case v of (a, b, c, d, e, f, g, h) \<Rightarrow>
     let t1 = h + F2 e + CH e f g + k + w;
         t2 = F1 a + MAJ a b c
     in (t1 + t2, a, b, c, d + t1, e, f, g))"

primrec sha2_rounds ::
    "('a::len word \<Rightarrow> 'a word) \<Rightarrow> ('a word \<Rightarrow> 'a word) \<Rightarrow> ('a word \<times> 'a word) list \<Rightarrow> 'a wv \<Rightarrow> 'a wv" where
  "sha2_rounds F1 F2 [] v = v"
| "sha2_rounds F1 F2 (kw # kws) v = sha2_rounds F1 F2 kws (sha2_EXP F1 F2 (fst kw) (snd kw) v)"

subsection \<open>Constants\<close>

text \<open>The tables have four words to a row, as in the source.\<close>

definition sha224_h0 :: "u32 list" where
  "sha224_h0 = [0xc1059ed8, 0x367cd507, 0x3070dd17, 0xf70e5939,
     0xffc00b31, 0x68581511, 0x64f98fa7, 0xbefa4fa4]"

definition sha256_h0 :: "u32 list" where
  "sha256_h0 = [0x6a09e667, 0xbb67ae85, 0x3c6ef372, 0xa54ff53a,
     0x510e527f, 0x9b05688c, 0x1f83d9ab, 0x5be0cd19]"

definition sha384_h0 :: "u64 list" where
  "sha384_h0 = [0xcbbb9d5dc1059ed8, 0x629a292a367cd507, 0x9159015a3070dd17, 0x152fecd8f70e5939,
     0x67332667ffc00b31, 0x8eb44a8768581511, 0xdb0c2e0d64f98fa7, 0x47b5481dbefa4fa4]"

definition sha512_h0 :: "u64 list" where
  "sha512_h0 = [0x6a09e667f3bcc908, 0xbb67ae8584caa73b, 0x3c6ef372fe94f82b, 0xa54ff53a5f1d36f1,
     0x510e527fade682d1, 0x9b05688c2b3e6c1f, 0x1f83d9abfb41bd6b, 0x5be0cd19137e2179]"

definition sha256_k :: "u32 list" where
  "sha256_k = concat [
     [0x428a2f98, 0x71374491, 0xb5c0fbcf, 0xe9b5dba5],
     [0x3956c25b, 0x59f111f1, 0x923f82a4, 0xab1c5ed5],
     [0xd807aa98, 0x12835b01, 0x243185be, 0x550c7dc3],
     [0x72be5d74, 0x80deb1fe, 0x9bdc06a7, 0xc19bf174],
     [0xe49b69c1, 0xefbe4786, 0x0fc19dc6, 0x240ca1cc],
     [0x2de92c6f, 0x4a7484aa, 0x5cb0a9dc, 0x76f988da],
     [0x983e5152, 0xa831c66d, 0xb00327c8, 0xbf597fc7],
     [0xc6e00bf3, 0xd5a79147, 0x06ca6351, 0x14292967],
     [0x27b70a85, 0x2e1b2138, 0x4d2c6dfc, 0x53380d13],
     [0x650a7354, 0x766a0abb, 0x81c2c92e, 0x92722c85],
     [0xa2bfe8a1, 0xa81a664b, 0xc24b8b70, 0xc76c51a3],
     [0xd192e819, 0xd6990624, 0xf40e3585, 0x106aa070],
     [0x19a4c116, 0x1e376c08, 0x2748774c, 0x34b0bcb5],
     [0x391c0cb3, 0x4ed8aa4a, 0x5b9cca4f, 0x682e6ff3],
     [0x748f82ee, 0x78a5636f, 0x84c87814, 0x8cc70208],
     [0x90befffa, 0xa4506ceb, 0xbef9a3f7, 0xc67178f2]]"

definition sha512_k :: "u64 list" where
  "sha512_k = concat [
     [0x428a2f98d728ae22, 0x7137449123ef65cd, 0xb5c0fbcfec4d3b2f, 0xe9b5dba58189dbbc],
     [0x3956c25bf348b538, 0x59f111f1b605d019, 0x923f82a4af194f9b, 0xab1c5ed5da6d8118],
     [0xd807aa98a3030242, 0x12835b0145706fbe, 0x243185be4ee4b28c, 0x550c7dc3d5ffb4e2],
     [0x72be5d74f27b896f, 0x80deb1fe3b1696b1, 0x9bdc06a725c71235, 0xc19bf174cf692694],
     [0xe49b69c19ef14ad2, 0xefbe4786384f25e3, 0x0fc19dc68b8cd5b5, 0x240ca1cc77ac9c65],
     [0x2de92c6f592b0275, 0x4a7484aa6ea6e483, 0x5cb0a9dcbd41fbd4, 0x76f988da831153b5],
     [0x983e5152ee66dfab, 0xa831c66d2db43210, 0xb00327c898fb213f, 0xbf597fc7beef0ee4],
     [0xc6e00bf33da88fc2, 0xd5a79147930aa725, 0x06ca6351e003826f, 0x142929670a0e6e70],
     [0x27b70a8546d22ffc, 0x2e1b21385c26c926, 0x4d2c6dfc5ac42aed, 0x53380d139d95b3df],
     [0x650a73548baf63de, 0x766a0abb3c77b2a8, 0x81c2c92e47edaee6, 0x92722c851482353b],
     [0xa2bfe8a14cf10364, 0xa81a664bbc423001, 0xc24b8b70d0f89791, 0xc76c51a30654be30],
     [0xd192e819d6ef5218, 0xd69906245565a910, 0xf40e35855771202a, 0x106aa07032bbd1b8],
     [0x19a4c116b8d2d0c8, 0x1e376c085141ab53, 0x2748774cdf8eeb99, 0x34b0bcb5e19b48a8],
     [0x391c0cb3c5c95a63, 0x4ed8aa4ae3418acb, 0x5b9cca4f7763e373, 0x682e6ff3d6b2b8a3],
     [0x748f82ee5defb2fc, 0x78a5636f43172f60, 0x84c87814a1f0ab72, 0x8cc702081a6439ec],
     [0x90befffa23631e28, 0xa4506cebde82bde9, 0xbef9a3f7b2c67915, 0xc67178f2e372532b],
     [0xca273eceea26619c, 0xd186b8c721c0c207, 0xeada7dd6cde0eb1e, 0xf57d4f7fee6ed178],
     [0x06f067aa72176fba, 0x0a637dc5a2c898a6, 0x113f9804bef90dae, 0x1b710b35131c471b],
     [0x28db77f523047d84, 0x32caab7b40c72493, 0x3c9ebe0a15c9bebc, 0x431d67c49c100d4c],
     [0x4cc5d4becb3e42b6, 0x597f299cfc657e2a, 0x5fcb6fab3ad6faec, 0x6c44198c4a475817]]"

subsection \<open>The compression functions\<close>

definition sha2_state :: "'a::len word list \<Rightarrow> 'a wv \<Rightarrow> 'a word list" where
  "sha2_state H v = (case v of (a, b, c, d, e, f, g, h) \<Rightarrow>
     [H ! 0 + a, H ! 1 + b, H ! 2 + c, H ! 3 + d, H ! 4 + e, H ! 5 + f, H ! 6 + g, H ! 7 + h])"

text \<open>The body of the loop of \<^verbatim>\<open>sha256_transf\<close> and of \<^verbatim>\<open>sha512_transf\<close>.\<close>

definition sha256_comp :: "u32 list \<Rightarrow> u8 list \<Rightarrow> u32 list" where
  "sha256_comp H sub_block =
     (let w = sha2_SCR SHA256_F3 SHA256_F4 48 (map (\<lambda>i. get_be32 sub_block (4 * i)) [0..<16])
      in sha2_state H (sha2_rounds SHA256_F1 SHA256_F2 (zip sha256_k w)
           (H ! 0, H ! 1, H ! 2, H ! 3, H ! 4, H ! 5, H ! 6, H ! 7)))"

definition sha512_comp :: "u64 list \<Rightarrow> u8 list \<Rightarrow> u64 list" where
  "sha512_comp H sub_block =
     (let w = sha2_SCR SHA512_F3 SHA512_F4 64 (map (\<lambda>i. get_be64 sub_block (8 * i)) [0..<16])
      in sha2_state H (sha2_rounds SHA512_F1 SHA512_F2 (zip sha512_k w)
           (H ! 0, H ! 1, H ! 2, H ! 3, H ! 4, H ! 5, H ! 6, H ! 7)))"

definition sha256_transf :: "u32 list \<Rightarrow> u8 list \<Rightarrow> nat \<Rightarrow> u32 list res" where
  "sha256_transf H d block_len =
     DO (for_blocks 64 (\<lambda>H b. Inr (sha256_comp H b)) d 0 (block_len * 64) H) (\<lambda>(H, _). Inr H)"

definition sha512_transf :: "u64 list \<Rightarrow> u8 list \<Rightarrow> nat \<Rightarrow> u64 list res" where
  "sha512_transf H msg block_nb =
     DO (for_blocks 128 (\<lambda>H b. Inr (sha512_comp H b)) msg 0 (block_nb * 128) H) (\<lambda>(H, _). Inr H)"

subsection \<open>Initialisation\<close>

text \<open>
  \<^verbatim>\<open>memset(&ctx->block[0], 0, BLOCK_SIZE >> 1)\<close> clears a quarter of the buffer, which has
  twice the block size.
\<close>

definition sha256_reset :: "u32 list \<Rightarrow> nat \<Rightarrow> Sha2Ctx \<Rightarrow> Sha2Ctx res" where
  "sha256_reset h0 variant ctx =
     DO (ctx256 ctx) (\<lambda>c. DO (wr (sha256_block c) 0 (replicate 32 0)) (\<lambda>block.
     Inr (ctx\<lparr>sha2_type := U256 \<lparr>sha256_tot_len = 0, sha256_len = 0, sha256_block = block, sha256_h = h0\<rparr>,
       sha2_variant := variant\<rparr>)))"

definition sha512_reset :: "u64 list \<Rightarrow> nat \<Rightarrow> Sha2Ctx \<Rightarrow> Sha2Ctx res" where
  "sha512_reset h0 variant ctx =
     DO (ctx512 ctx) (\<lambda>c. DO (wr (sha512_block c) 0 (replicate 64 0)) (\<lambda>block.
     Inr (ctx\<lparr>sha2_type := U512 \<lparr>sha512_tot_len = [0, 0], sha512_len = 0, sha512_block = block, sha512_h = h0\<rparr>,
       sha2_variant := variant\<rparr>)))"

definition sha224_init :: "Sha2Ctx \<Rightarrow> Sha2Ctx res" where
  "sha224_init = sha256_reset sha224_h0 SHA2_VARIANT_224"

definition sha256_init :: "Sha2Ctx \<Rightarrow> Sha2Ctx res" where
  "sha256_init = sha256_reset sha256_h0 SHA2_VARIANT_256"

definition sha384_init :: "Sha2Ctx \<Rightarrow> Sha2Ctx res" where
  "sha384_init = sha512_reset sha384_h0 SHA2_VARIANT_384"

definition sha512_init :: "Sha2Ctx \<Rightarrow> Sha2Ctx res" where
  "sha512_init = sha512_reset sha512_h0 SHA2_VARIANT_512"

subsection \<open>Update\<close>

text \<open>
  The text the four update functions share: fill the block, return if it is not full,
  transform it and the complete blocks of the rest, keep what is left. \<open>B\<close> is the block
  size; \<open>clear\<close> is set in \<^verbatim>\<open>sha224_update\<close>, which zeroes the block after the first transform
  and skips the second one when there is nothing left. The sum \<^verbatim>\<open>ctx->len + msg_len\<close> wraps.
\<close>

definition sha2_feed ::
    "nat \<Rightarrow> bool \<Rightarrow> ('h \<Rightarrow> u8 list \<Rightarrow> nat \<Rightarrow> 'h res) \<Rightarrow> 'h \<Rightarrow> u8 list \<Rightarrow> nat \<Rightarrow> u8 list \<Rightarrow> nat
     \<Rightarrow> ('h \<times> u8 list \<times> nat) res" where
  "sha2_feed B clear transf H block len msg msg_len =
     (let tmp_len = B - len;
          rem_len = (if msg_len < tmp_len then msg_len else tmp_len)
      in DO (rd msg 0 rem_len) (\<lambda>xs. DO (wr block len xs) (\<lambda>block.
         if sz_add len msg_len < B then Inr (H, block, sz_add len msg_len)
         else
           let new_len = msg_len - rem_len; block_nb = new_len div B; shifted = drop rem_len msg
           in DO (transf H block 1) (\<lambda>H.
              DO (if clear then wr block 0 (replicate B 0) else Inr block) (\<lambda>block.
              DO (if \<not> clear \<or> sz_add len msg_len \<noteq> B then transf H shifted block_nb else Inr H) (\<lambda>H.
              let rem_len = new_len mod B
              in DO (rd shifted (block_nb * B) rem_len) (\<lambda>xs. DO (wr block 0 xs) (\<lambda>block.
                 Inr (H, block, rem_len)))))))))"

definition sha224_update :: "Sha256Ctx \<Rightarrow> ByteArray \<Rightarrow> Sha256Ctx res" where
  "sha224_update c ba =
     DO (sha2_feed 64 True sha256_transf (sha256_h c) (sha256_block c) (sha256_len c) (data ba) (ba_len ba)) (\<lambda>(H, block, len).
     Inr \<lparr>sha256_tot_len = sha256_tot_len c + of_nat (ba_len ba), sha256_len = len, sha256_block = block, sha256_h = H\<rparr>)"

definition sha256_update :: "Sha256Ctx \<Rightarrow> ByteArray \<Rightarrow> Sha256Ctx res" where
  "sha256_update c ba =
     DO (sha2_feed 64 False sha256_transf (sha256_h c) (sha256_block c) (sha256_len c) (data ba) (ba_len ba)) (\<lambda>(H, block, len).
     Inr \<lparr>sha256_tot_len = sha256_tot_len c + of_nat (ba_len ba), sha256_len = len, sha256_block = block, sha256_h = H\<rparr>)"

definition sha512_count :: "u64 list \<Rightarrow> nat \<Rightarrow> u64 list" where
  "sha512_count tot msg_len =
     (let lo = tot ! 0 + of_nat msg_len
      in [lo, tot ! 1 + (if lo < of_nat msg_len then 1 else 0)])"

definition sha384_update :: "Sha512Ctx \<Rightarrow> ByteArray \<Rightarrow> Sha512Ctx res" where
  "sha384_update c ba =
     DO (sha2_feed 128 False sha512_transf (sha512_h c) (sha512_block c) (sha512_len c) (data ba) (ba_len ba)) (\<lambda>(H, block, len).
     Inr \<lparr>sha512_tot_len = sha512_count (sha512_tot_len c) (ba_len ba), sha512_len = len, sha512_block = block, sha512_h = H\<rparr>)"

definition sha512_update :: "Sha512Ctx \<Rightarrow> ByteArray \<Rightarrow> Sha512Ctx res" where
  "sha512_update c ba =
     DO (sha2_feed 128 False sha512_transf (sha512_h c) (sha512_block c) (sha512_len c) (data ba) (ba_len ba)) (\<lambda>(H, block, len).
     Inr \<lparr>sha512_tot_len = sha512_count (sha512_tot_len c) (ba_len ba), sha512_len = len, sha512_block = block, sha512_h = H\<rparr>)"

subsection \<open>Final\<close>

text \<open>
  The last blocks: zeros from the end of the message, the one bit, the length field \<open>L\<close>
  at the end of the first or of the second block.
\<close>

definition sha2_last ::
    "nat \<Rightarrow> ('h \<Rightarrow> u8 list \<Rightarrow> nat \<Rightarrow> 'h res) \<Rightarrow> 'h \<Rightarrow> u8 list \<Rightarrow> nat \<Rightarrow> u8 list \<Rightarrow> ('h \<times> u8 list) res" where
  "sha2_last B transf H block len L =
     (let block_nb = 1 + (if B - (1 + length L) < len mod B then 1 else 0);
          pm_len = block_nb * B
      in DO (wr block len (replicate (pm_len - len) 0)) (\<lambda>block.
         DO (wr block len [0x80]) (\<lambda>block.
         DO (wr block (pm_len - length L) L) (\<lambda>block.
         DO (transf H block block_nb) (\<lambda>H. Inr (H, block))))))"

text \<open>
  \<open>n\<close> is the number of words of the digest; when its allocation fails the context keeps
  the padded block.
\<close>

definition sha256_finish ::
    "nat \<Rightarrow> (Sha2Ctx \<Rightarrow> Sha2Ctx res) \<Rightarrow> mem \<Rightarrow> Sha2Ctx \<Rightarrow> ByteArray res \<times> Sha2Ctx" where
  "sha256_finish n init M ctx =
     DO_ST (ctx256 ctx) ctx (\<lambda>c.
     DO_ST (sha2_last 64 sha256_transf (sha256_h c) (sha256_block c) (sha256_len c)
              (put_be64 (push_bit 3 (sha256_tot_len c)))) ctx (\<lambda>(H, block).
     let ctx1 = ctx\<lparr>sha2_type := U256 (c\<lparr>sha256_h := H, sha256_block := block\<rparr>)\<rparr>;
         digest = concat (map (\<lambda>i. put_be32 (H ! i)) [0..<n])
     in DO_ST (CHECK_NOT_NULL (ba_alloc_from_uint8 M (Some digest) (4 * n)) Inr) ctx1 (\<lambda>hash_code.
        DO_ST (init ctx1) ctx1 (\<lambda>ctx2. (Inr hash_code, ctx2)))))"

definition sha512_finish ::
    "nat \<Rightarrow> (Sha2Ctx \<Rightarrow> Sha2Ctx res) \<Rightarrow> mem \<Rightarrow> Sha2Ctx \<Rightarrow> ByteArray res \<times> Sha2Ctx" where
  "sha512_finish n init M ctx =
     DO_ST (ctx512 ctx) ctx (\<lambda>c.
     DO_ST (sha2_last 128 sha512_transf (sha512_h c) (sha512_block c) (sha512_len c)
              (put_be64 (push_bit 3 (sha512_tot_len c ! 1) OR drop_bit (64 - 3) (sha512_tot_len c ! 0))
               @ put_be64 (push_bit 3 (sha512_tot_len c ! 0)))) ctx (\<lambda>(H, block).
     let ctx1 = ctx\<lparr>sha2_type := U512 (c\<lparr>sha512_h := H, sha512_block := block\<rparr>)\<rparr>;
         digest = concat (map (\<lambda>i. put_be64 (H ! i)) [0..<n])
     in DO_ST (CHECK_NOT_NULL (ba_alloc_from_uint8 M (Some digest) (8 * n)) Inr) ctx1 (\<lambda>hash_code.
        DO_ST (init ctx1) ctx1 (\<lambda>ctx2. (Inr hash_code, ctx2)))))"

definition sha224_final :: "mem \<Rightarrow> Sha2Ctx \<Rightarrow> ByteArray res \<times> Sha2Ctx" where
  "sha224_final = sha256_finish 7 sha224_init"

definition sha256_final :: "mem \<Rightarrow> Sha2Ctx \<Rightarrow> ByteArray res \<times> Sha2Ctx" where
  "sha256_final = sha256_finish 8 sha256_init"

definition sha384_final :: "mem \<Rightarrow> Sha2Ctx \<Rightarrow> ByteArray res \<times> Sha2Ctx" where
  "sha384_final = sha512_finish 6 sha384_init"

definition sha512_final :: "mem \<Rightarrow> Sha2Ctx \<Rightarrow> ByteArray res \<times> Sha2Ctx" where
  "sha512_final = sha512_finish 8 sha512_init"

subsection \<open>The interface\<close>

text \<open>The zero bytes of \<^verbatim>\<open>calloc\<close>, read as the member the variant uses.\<close>

definition sha2_zero :: "nat \<Rightarrow> Sha2Ctx" where
  "sha2_zero variant = \<lparr>sha2_variant = 0, sha2_k_opad = replicate 128 0, sha2_type =
     (if variant = SHA2_VARIANT_224 \<or> variant = SHA2_VARIANT_256
      then U256 \<lparr>sha256_tot_len = 0, sha256_len = 0, sha256_block = replicate 128 0, sha256_h = replicate 8 0\<rparr>
      else U512 \<lparr>sha512_tot_len = [0, 0], sha512_len = 0, sha512_block = replicate 256 0, sha512_h = replicate 8 0\<rparr>)\<rparr>"

definition sha2_alloc :: "mem \<Rightarrow> nat \<Rightarrow> Sha2Ctx option res" where
  "sha2_alloc M variant = to_ptr (CALLOC_CHECKED M sizeof_Sha2Ctx (
     if variant = SHA2_VARIANT_224 then sha224_init (sha2_zero variant)
     else if variant = SHA2_VARIANT_256 then sha256_init (sha2_zero variant)
     else if variant = SHA2_VARIANT_384 then sha384_init (sha2_zero variant)
     else if variant = SHA2_VARIANT_512 then sha512_init (sha2_zero variant)
     else SET_ERROR RET_INVALID_PARAM))"

definition sha2_copy_with_alloc :: "mem \<Rightarrow> Sha2Ctx option \<Rightarrow> Sha2Ctx option res" where
  "sha2_copy_with_alloc M ctx = to_ptr (NOT_NULL ctx (\<lambda>ctx. CALLOC_CHECKED M sizeof_Sha2Ctx (Inr ctx)))"

definition sha2_update :: "Sha2Ctx option \<Rightarrow> ByteArray option \<Rightarrow> Sha2Ctx res" where
  "sha2_update ctx data_ba = NOT_NULL ctx (\<lambda>ctx. NOT_NULL data_ba (\<lambda>ba.
     if sha2_variant ctx = SHA2_VARIANT_224 then
       DO (ctx256 ctx) (\<lambda>c. DO (sha224_update c ba) (\<lambda>c. Inr (ctx\<lparr>sha2_type := U256 c\<rparr>)))
     else if sha2_variant ctx = SHA2_VARIANT_256 then
       DO (ctx256 ctx) (\<lambda>c. DO (sha256_update c ba) (\<lambda>c. Inr (ctx\<lparr>sha2_type := U256 c\<rparr>)))
     else if sha2_variant ctx = SHA2_VARIANT_384 then
       DO (ctx512 ctx) (\<lambda>c. DO (sha384_update c ba) (\<lambda>c. Inr (ctx\<lparr>sha2_type := U512 c\<rparr>)))
     else if sha2_variant ctx = SHA2_VARIANT_512 then
       DO (ctx512 ctx) (\<lambda>c. DO (sha512_update c ba) (\<lambda>c. Inr (ctx\<lparr>sha2_type := U512 c\<rparr>)))
     else SET_ERROR RET_INVALID_CTX_MODE))"

definition sha2_final :: "mem \<Rightarrow> Sha2Ctx option \<Rightarrow> ByteArray res \<times> Sha2Ctx option" where
  "sha2_final M ctx = (case ctx of None \<Rightarrow> (Inl RET_INVALID_PARAM, None)
     | Some c \<Rightarrow> map_prod id Some (
         if sha2_variant c = SHA2_VARIANT_224 then sha224_final M c
         else if sha2_variant c = SHA2_VARIANT_256 then sha256_final M c
         else if sha2_variant c = SHA2_VARIANT_384 then sha384_final M c
         else if sha2_variant c = SHA2_VARIANT_512 then sha512_final M c
         else (SET_ERROR RET_INVALID_CTX_MODE, c)))"

definition sha2_get_block_size :: "Sha2Ctx option \<Rightarrow> nat" where
  "sha2_get_block_size ctx = (case ctx of None \<Rightarrow> 0 | Some c \<Rightarrow>
     if sha2_variant c = SHA2_VARIANT_224 \<or> sha2_variant c = SHA2_VARIANT_256 then 64
     else if sha2_variant c = SHA2_VARIANT_384 \<or> sha2_variant c = SHA2_VARIANT_512 then 128
     else 0)"

subsection \<open>Self-tests\<close>

text \<open>The four self-tests have one text with two messages and two digests each.\<close>

definition sha2_vectors :: "nat \<Rightarrow> mem \<Rightarrow> u8 list \<Rightarrow> u8 list \<Rightarrow> u8 list \<Rightarrow> u8 list \<Rightarrow> unit res" where
  "sha2_vectors variant M M1 H1 M2 H2 =
     CHECK_NOT_NULL (sha2_alloc M variant) (\<lambda>ctx.
     DO (sha2_update (Some ctx) (Some (mk_ba M1))) (\<lambda>ctx.
     case sha2_final M (Some ctx) of (r, ctx) \<Rightarrow> DO r (\<lambda>H.
     DO (check_digest H H1) (\<lambda>_.
     DO (sha2_update ctx (Some (mk_ba M2))) (\<lambda>ctx.
     case sha2_final M (Some ctx) of (r, ctx) \<Rightarrow> DO r (\<lambda>H. check_digest H H2))))))"

definition sha224_self_test :: "mem \<Rightarrow> unit res" where
  "sha224_self_test M = sha2_vectors SHA2_VARIANT_224 M (ascii ''abc'')
       [0x23, 0x09, 0x7D, 0x22, 0x34, 0x05, 0xD8, 0x22, 0x86, 0x42, 0xA4, 0x77, 0xBD, 0xA2, 0x55, 0xB3,
        0x2A, 0xAD, 0xBC, 0xE4, 0xBD, 0xA0, 0xB3, 0xF7, 0xE3, 0x6C, 0x9D, 0xA7]
     (ascii ''abcdbcdecdefdefgefghfghighijhijkijkljklmklmnlmnomnopnopq'')
       [0x75, 0x38, 0x8B, 0x16, 0x51, 0x27, 0x76, 0xCC, 0x5D, 0xBA, 0x5D, 0xA1, 0xFD, 0x89, 0x01, 0x50,
        0xB0, 0xC6, 0x45, 0x5C, 0xB4, 0xF5, 0x8B, 0x19, 0x52, 0x52, 0x25, 0x25]"

definition sha256_self_test :: "mem \<Rightarrow> unit res" where
  "sha256_self_test M = sha2_vectors SHA2_VARIANT_256 M (ascii ''abc'')
       [0xBA, 0x78, 0x16, 0xBF, 0x8F, 0x01, 0xCF, 0xEA, 0x41, 0x41, 0x40, 0xDE, 0x5D, 0xAE, 0x22, 0x23,
        0xB0, 0x03, 0x61, 0xA3, 0x96, 0x17, 0x7A, 0x9C, 0xB4, 0x10, 0xFF, 0x61, 0xF2, 0x00, 0x15, 0xAD]
     (ascii ''ABCDEFGHIJKLMNOPQRSTUVWXYZabcdefghijklmnopqrstuvwxyz0123456789'')
       [0xDB, 0x4B, 0xFC, 0xBD, 0x4D, 0xA0, 0xCD, 0x85, 0xA6, 0x0C, 0x3C, 0x37, 0xD3, 0xFB, 0xD8, 0x80,
        0x5C, 0x77, 0xF1, 0x5F, 0xC6, 0xB1, 0xFD, 0xFE, 0x61, 0x4E, 0xE0, 0xA7, 0xC8, 0xFD, 0xB4, 0xC0]"

definition sha384_self_test :: "mem \<Rightarrow> unit res" where
  "sha384_self_test M = sha2_vectors SHA2_VARIANT_384 M (ascii ''abc'')
       [0xCB, 0x00, 0x75, 0x3F, 0x45, 0xA3, 0x5E, 0x8B, 0xB5, 0xA0, 0x3D, 0x69, 0x9A, 0xC6, 0x50, 0x07,
        0x27, 0x2C, 0x32, 0xAB, 0x0E, 0xDE, 0xD1, 0x63, 0x1A, 0x8B, 0x60, 0x5A, 0x43, 0xFF, 0x5B, 0xED,
        0x80, 0x86, 0x07, 0x2B, 0xA1, 0xE7, 0xCC, 0x23, 0x58, 0xBA, 0xEC, 0xA1, 0x34, 0xC8, 0x25, 0xA7]
     (ascii ''ABCDEFGHIJKLMNOPQRSTUVWXYZabcdefghijklmnopqrstuvwxyz0123456789'')
       [0x17, 0x61, 0x33, 0x6E, 0x3F, 0x7C, 0xBF, 0xE5, 0x1D, 0xEB, 0x13, 0x7F, 0x02, 0x6F, 0x89, 0xE0,
        0x1A, 0x44, 0x8E, 0x3B, 0x1F, 0xAF, 0xA6, 0x40, 0x39, 0xC1, 0x46, 0x4E, 0xE8, 0x73, 0x2F, 0x11,
        0xA5, 0x34, 0x1A, 0x6F, 0x41, 0xE0, 0xC2, 0x02, 0x29, 0x47, 0x36, 0xED, 0x64, 0xDB, 0x1A, 0x84]"

definition sha512_self_test :: "mem \<Rightarrow> unit res" where
  "sha512_self_test M = sha2_vectors SHA2_VARIANT_512 M (ascii ''abc'')
       [0xDD, 0xAF, 0x35, 0xA1, 0x93, 0x61, 0x7A, 0xBA, 0xCC, 0x41, 0x73, 0x49, 0xAE, 0x20, 0x41, 0x31,
        0x12, 0xE6, 0xFA, 0x4E, 0x89, 0xA9, 0x7E, 0xA2, 0x0A, 0x9E, 0xEE, 0xE6, 0x4B, 0x55, 0xD3, 0x9A,
        0x21, 0x92, 0x99, 0x2A, 0x27, 0x4F, 0xC1, 0xA8, 0x36, 0xBA, 0x3C, 0x23, 0xA3, 0xFE, 0xEB, 0xBD,
        0x45, 0x4D, 0x44, 0x23, 0x64, 0x3C, 0xE8, 0x0E, 0x2A, 0x9A, 0xC9, 0x4F, 0xA5, 0x4C, 0xA4, 0x9F]
     (ascii ''ABCDEFGHIJKLMNOPQRSTUVWXYZabcdefghijklmnopqrstuvwxyz0123456789'')
       [0x1E, 0x07, 0xBE, 0x23, 0xC2, 0x6A, 0x86, 0xEA, 0x37, 0xEA, 0x81, 0x0C, 0x8E, 0xC7, 0x80, 0x93,
        0x52, 0x51, 0x5A, 0x97, 0x0E, 0x92, 0x53, 0xC2, 0x6F, 0x53, 0x6C, 0xFC, 0x7A, 0x99, 0x96, 0xC4,
        0x5C, 0x83, 0x70, 0x58, 0x3E, 0x0A, 0x78, 0xFA, 0x4A, 0x90, 0x04, 0x1D, 0x71, 0xA4, 0xCE, 0xAB,
        0x74, 0x23, 0xF1, 0x9C, 0x71, 0xB9, 0xD5, 0xA3, 0xE0, 0x12, 0x49, 0xF0, 0xBE, 0xBD, 0x58, 0x94]"

definition sha2_self_test :: "mem \<Rightarrow> unit res" where
  "sha2_self_test M = DO (sha224_self_test M) (\<lambda>_. DO (sha256_self_test M) (\<lambda>_.
     DO (sha384_self_test M) (\<lambda>_. sha512_self_test M)))"

subsection \<open>Blocks and padding\<close>

lemma chunks_take:
  assumes "0 < k"
  shows "chunks k (take (k * (length m div k)) m) = chunks k m"
proof -
  have "concat (chunks k m) @ tail_of k m = take (k * (length m div k)) m @ tail_of k m"
    using chunks_tail_of[OF assms] by (simp add: tail_of_def)
  then have "take (k * (length m div k)) m = concat (chunks k m)" by simp
  then show ?thesis using assms by (simp add: chunks_concat length_in_chunks)
qed

lemma chunks_one: "length b = k \<Longrightarrow> 0 < k \<Longrightarrow> chunks k b = [b]"
  using chunks_block[of b k "[]"] by simp

lemma wr_mid: "length x = length y \<Longrightarrow> wr (a @ x @ b) (length a) y = Inr (a @ y @ b)"
  by simp

lemma foldl_length:
  assumes "\<And>s b. length s = n \<Longrightarrow> length (f s b) = n" and "length s = n"
  shows "length (foldl f s bs) = n"
  using assms(2) by (induction bs arbitrary: s) (simp_all add: assms(1))

text \<open>
  What the two widths share: \<open>transf\<close> compresses as many blocks as it is told to. The laws
  of the update and of the padding follow from this alone.
\<close>

locale sha2_core =
  fixes B :: nat
    and comp :: "'h \<Rightarrow> u8 list \<Rightarrow> 'h"
    and transf :: "'h \<Rightarrow> u8 list \<Rightarrow> nat \<Rightarrow> 'h res"
  assumes B: "0 < B"
    and transf: "n * B \<le> length d \<Longrightarrow> transf H d n = Inr (foldl comp H (chunks B (take (n * B) d)))"
begin

lemma sha2_feed_short:
  assumes "len + length d < B" and "length block = 2 * B" and "len + length d < SIZE_MOD"
  shows "sha2_feed B clear transf H block len d (length d)
     = Inr (H, take len block @ d @ drop (len + length d) block, len + length d)"
proof -
  have "length d < B - len" using assms(1) by simp
  with assms show ?thesis by (simp add: sha2_feed_def)
qed

lemma sha2_feed_full:
  assumes len: "len < B" and ge: "B \<le> len + length d" and lb: "length block = 2 * B"
    and sz: "len + length d < SIZE_MOD"
  defines "r \<equiv> B - len"
  shows "\<exists>block'. sha2_feed B clear transf H block len d (length d)
     = Inr (foldl comp (comp H (take len block @ take r d)) (chunks B (drop r d)), block', (length d - r) mod B)
     \<and> length block' = 2 * B \<and> take ((length d - r) mod B) block' = tail_of B (drop r d)"
proof -
  define n where "n = length d"
  define x where "x = drop r d"
  define b where "b = take len block @ take r d"
  define b1 where "b1 = b @ drop B block"
  define b2 where "b2 = (if clear then replicate B 0 @ drop B b1 else b1)"
  define t where "t = tail_of B x"
  have r: "r \<le> n" "0 < r" "len + r = B" using len ge by (simp_all add: r_def n_def)
  have lx: "length x = n - r" by (simp add: x_def n_def)
  have lenb: "length b = B" using r lb by (simp add: b_def n_def)
  have lb1: "length b1 = 2 * B" using lenb lb by (simp add: b1_def)
  have lb2: "length b2 = 2 * B" using lb1 by (simp add: b2_def)
  have lt: "length t = (n - r) mod B" by (simp add: t_def lx)
  have tB: "(n - r) mod B < B" using B by simp
  have m: "(if n < r then n else r) = r" using r by simp
  have rd0: "rd d 0 r = Inr (take r d)" using r by (simp add: n_def)
  have w0: "wr block len (take r d) = Inr b1"
    using r lb by (simp add: b1_def b_def n_def)
  have t1: "transf H b1 1 = Inr (comp H b)"
    using transf[of 1 b1 H] lb1 lenb B by (simp add: b1_def chunks_one)
  have c: "(if clear then wr b1 0 (replicate B 0) else Inr b1) = Inr b2"
    using lb1 by (simp add: b2_def)
  have full: "chunks B (take ((n - r) div B * B) x) = chunks B x"
    using chunks_take[OF B, of x] by (simp add: lx mult.commute)
  have t2: "transf H' x ((n - r) div B) = Inr (foldl comp H' (chunks B x))" for H'
    using transf[of "(n - r) div B" x H'] full lx by simp
  have z: "x = []" if "len + n = B" using that r lx by simp
  have t2': "(if \<not> clear \<or> len + n \<noteq> B then transf H' x ((n - r) div B) else Inr H')
      = Inr (foldl comp H' (chunks B x))" for H'
    using t2 z by auto
  have rt: "rd x ((n - r) div B * B) ((n - r) mod B) = Inr t"
    using rd_rest[of 0 x B] by (simp add: lx t_def mult.commute minus_mult_div_eq_mod)
  have w2: "wr b2 0 t = Inr (t @ drop (length t) b2)"
    using lb2 lt tB by simp
  have sn: "sz_add len n = len + n" using sz by (simp add: n_def)
  have "\<not> len + n < B" using ge by (simp add: n_def)
  then have "sha2_feed B clear transf H block len d n
      = Inr (foldl comp (comp H b) (chunks B x), t @ drop (length t) b2, (n - r) mod B)"
    by (simp only: sha2_feed_def Let_def r_def [symmetric] sn m rd0 DO_simps w0 if_False t1 c
        x_def [symmetric] t2' rt w2)
  then show ?thesis
    using lb2 lt tB by (intro exI[of _ "t @ drop (length t) b2"]) (simp flip: n_def x_def b_def t_def)
qed

lemma sha2_feed_absorbed:
  assumes ab: "absorbed B comp iv H block m" and lb: "length block = 2 * B" and sz: "B + length d \<le> SIZE_MOD"
  shows "\<exists>H' block'. sha2_feed B clear transf H block (length m mod B) d (length d)
      = Inr (H', block', length (m @ d) mod B) \<and> absorbed B comp iv H' block' (m @ d) \<and> length block' = 2 * B"
proof (cases "length m mod B + length d < B")
  case True
  then show ?thesis
    using sha2_feed_short[OF True lb] sz absorbed_short[OF ab refl True] mod_short[OF True] lb by simp
next
  case False
  define r where "r = B - length m mod B"
  have len: "length m mod B < B" using B by simp
  have r: "r \<le> length d" using False by (simp add: r_def)
  have ge: "B \<le> length m mod B + length d" using False by simp
  have sum: "length m mod B + length d < SIZE_MOD" using len sz by linarith
  from sha2_feed_full[OF len ge lb sum, of clear H] obtain block' where
    f: "sha2_feed B clear transf H block (length m mod B) d (length d)
        = Inr (foldl comp (comp H (take (length m mod B) block @ take r d)) (chunks B (drop r d)), block',
               (length d - r) mod B)"
      "length block' = 2 * B" "take ((length d - r) mod B) block' = tail_of B (drop r d)"
    unfolding r_def by blast
  moreover have "length (m @ d) mod B = (length d - r) mod B"
    using mod_full[OF r_def r B] by simp
  ultimately show ?thesis
    using absorbed_full[OF ab refl ge B r_def refl, of block'] by auto
qed

text \<open>The padding: one block or two.\<close>

lemma sha2_last_eq:
  assumes ab: "absorbed B comp iv H block m" and lb: "length block = 2 * B" and L: "1 + length L < B"
  shows "\<exists>block'. sha2_last B transf H block (length m mod B) L
      = Inr (foldl comp iv (chunks B (m @ md_pad B (length m) L)), block') \<and> length block' = 2 * B"
proof -
  define i where "i = length m mod B"
  define l where "l = length L"
  define nb :: nat where "nb = 1 + (if B - (1 + l) < i then 1 else 0)"
  define pm where "pm = nb * B"
  define b3 where "b3 = take i block @ 0x80 # replicate (pm - 1 - l - i) 0 @ L @ drop pm block"
  have i: "i < B" using B by (simp add: i_def)
  have nb: "B \<le> pm" "pm \<le> 2 * B" "nb * B \<le> 2 * B" by (simp_all add: pm_def nb_def)
  have fit: "i + 1 + l \<le> pm" using i L by (auto simp: pm_def nb_def l_def)
  have t: "take i block = tail_of B m" and H: "H = foldl comp iv (chunks B m)"
    using ab by (simp_all add: absorbed_def i_def)
  have w1: "wr block i (replicate (pm - i) 0) = Inr (take i block @ replicate (pm - i) 0 @ drop pm block)"
    using i nb lb by simp
  have e: "replicate (pm - i) (0 :: u8) = 0 # replicate (pm - 1 - l - i) 0 @ replicate l 0"
  proof -
    have "pm - i = Suc ((pm - 1 - l - i) + l)" using fit by simp
    then show ?thesis by (simp only: replicate_Suc replicate_add)
  qed
  have w2: "wr (take i block @ replicate (pm - i) 0 @ drop pm block) i [0x80]
      = Inr (take i block @ 0x80 # replicate (pm - 1 - l - i) 0 @ replicate l 0 @ drop pm block)"
    using i lb fit unfolding e by simp
  have w3: "wr (take i block @ 0x80 # replicate (pm - 1 - l - i) 0 @ replicate l 0 @ drop pm block) (pm - l) L
      = Inr b3"
  proof -
    define a where "a = take i block @ 0x80 # replicate (pm - 1 - l - i) 0"
    have "length a = pm - l" using fit i lb by (simp add: a_def)
    then show ?thesis using wr_mid[of "replicate l 0" L a "drop pm block"] by (simp add: a_def b3_def l_def)
  qed
  have lb3: "length b3 = 2 * B" using fit i lb nb by (simp add: b3_def l_def)
  have tk: "take pm b3 = take i block @ 0x80 # replicate (pm - 1 - l - i) 0 @ L"
  proof -
    define a where "a = take i block @ 0x80 # replicate (pm - 1 - l - i) 0 @ L"
    have "length a = pm" using fit i lb by (simp add: a_def l_def)
    moreover have "b3 = a @ drop pm block" by (simp add: a_def b3_def)
    ultimately have "take pm b3 = a" by simp
    then show ?thesis by (simp only: a_def)
  qed
  have ch: "chunks B m @ chunks B (take pm b3) = chunks B (m @ md_pad B (length m) L)"
  proof (cases "B - (1 + l) < i")
    case False
    then have pm: "pm = B" by (simp add: pm_def nb_def)
    have "length (take pm b3) = B" using lb3 pm by simp
    then have "chunks B (take pm b3) = [take pm b3]" using B by (rule chunks_one)
    moreover have "length m mod B + 1 + length L \<le> B" using False L by (simp add: i_def l_def)
    ultimately show ?thesis using md_pad_one[of m B L] t tk pm by (simp add: i_def l_def)
  next
    case True
    then have pm: "pm = 2 * B" by (simp add: pm_def nb_def)
    have two: "B < length m mod B + 1 + length L" "length L < B" using True L by (simp_all add: i_def l_def)
    have z: "replicate (pm - 1 - l - i) (0 :: u8) = replicate (B - 1 - i) 0 @ replicate (B - l) 0"
      unfolding replicate_add [symmetric] using pm i two by (simp add: l_def)
    have "chunks B (take pm b3) = [tail_of B m @ 0x80 # replicate (B - 1 - i) 0, replicate (B - l) 0 @ L]"
    proof -
      have "take pm b3 = (tail_of B m @ 0x80 # replicate (B - 1 - i) 0) @ (replicate (B - l) 0 @ L)"
        unfolding tk z t [symmetric] by simp
      moreover have "length (tail_of B m @ 0x80 # replicate (B - 1 - i) 0) = B" using i by (simp add: i_def)
      moreover have "length (replicate (B - l) 0 @ L) = B" using two by (simp add: l_def)
      ultimately show ?thesis using B by (simp only: chunks_block chunks_one)
    qed
    then show ?thesis using md_pad_two[OF two] by (simp add: i_def l_def)
  qed
  have tr: "transf H b3 nb = Inr (foldl comp iv (chunks B (m @ md_pad B (length m) L)))"
  proof -
    have "nb * B \<le> length b3" using nb lb3 by simp
    then have "transf H b3 nb = Inr (foldl comp H (chunks B (take pm b3)))"
      unfolding pm_def by (rule transf)
    then show ?thesis unfolding H ch [symmetric] foldl_append .
  qed
  have md: "i mod B = i" using i by simp
  have "sha2_last B transf H block i L = Inr (foldl comp iv (chunks B (m @ md_pad B (length m) L)), b3)"
    unfolding sha2_last_def l_def [symmetric] md nb_def [symmetric] Let_def pm_def [symmetric]
    by (simp only: w1 w2 w3 DO_simps tr)
  then show ?thesis using lb3 by (auto simp: i_def)
qed

end

lemma sha256_transf_eq:
  "n * 64 \<le> length d \<Longrightarrow> sha256_transf H d n = Inr (foldl sha256_comp H (chunks 64 (take (n * 64) d)))"
  using for_blocks_eq[of 64 0 "n * 64" d "\<lambda>_. True" "\<lambda>H b. Inr (sha256_comp H b)" sha256_comp H]
  by (simp add: sha256_transf_def)

lemma sha512_transf_eq:
  "n * 128 \<le> length d \<Longrightarrow> sha512_transf H d n = Inr (foldl sha512_comp H (chunks 128 (take (n * 128) d)))"
  using for_blocks_eq[of 128 0 "n * 128" d "\<lambda>_. True" "\<lambda>H b. Inr (sha512_comp H b)" sha512_comp H]
  by (simp add: sha512_transf_def)

interpretation core256: sha2_core 64 sha256_comp sha256_transf
  by unfold_locales (simp_all add: sha256_transf_eq)

interpretation core512: sha2_core 128 sha512_comp sha512_transf
  by unfold_locales (simp_all add: sha512_transf_eq)

subsection \<open>The digest of a message, by blocks\<close>

text \<open>
  What a context computes from the complete message: initial value, block function, length field and the
  number of words that are returned. That this is the digest of the standard is \<open>sha2_eq\<close> below.
\<close>

definition sha2_len64 :: "nat \<Rightarrow> u8 list" where
  "sha2_len64 n = put_be64 (of_nat (8 * n))"

definition sha2_len128 :: "nat \<Rightarrow> u8 list" where
  "sha2_len128 n = put_be64 (of_nat (8 * n div 2 ^ 64)) @ put_be64 (of_nat (8 * n))"

definition sha256_digest :: "u32 list \<Rightarrow> nat \<Rightarrow> u8 list \<Rightarrow> u8 list" where
  "sha256_digest h0 n m = concat (map put_be32 (take n
     (foldl sha256_comp h0 (chunks 64 (m @ md_pad 64 (length m) (sha2_len64 (length m)))))))"

definition sha512_digest :: "u64 list \<Rightarrow> nat \<Rightarrow> u8 list \<Rightarrow> u8 list" where
  "sha512_digest h0 n m = concat (map put_be64 (take n
     (foldl sha512_comp h0 (chunks 128 (m @ md_pad 128 (length m) (sha2_len128 (length m)))))))"

lemma length_sha2_state: "length (sha2_state H v) = 8"
  by (simp add: sha2_state_def split: prod.split)

lemma length_foldl_comp:
  "length h0 = 8 \<Longrightarrow> length (foldl sha256_comp h0 bs) = 8"
  "length k0 = 8 \<Longrightarrow> length (foldl sha512_comp k0 bs) = 8"
  by (rule foldl_length; simp add: sha256_comp_def sha512_comp_def length_sha2_state Let_def)+

lemma length_concat_put:
  "length (concat (map put_be32 ws)) = 4 * length ws"
  "length (concat (map put_be64 vs)) = 8 * length vs"
  by (induction ws) (auto, induction vs, auto)

lemmas sha2_variants = SHA2_VARIANT_224_def SHA2_VARIANT_256_def SHA2_VARIANT_384_def SHA2_VARIANT_512_def

subsection \<open>The code computes FIPS 180-4\<close>

lemma sha2_functions_fips:
  "SHA256_F1 = fips_Sigma (fips_S0 fips_P256)" "SHA256_F2 = fips_Sigma (fips_S1 fips_P256)"
  "SHA256_F3 = fips_sigma (fips_s0 fips_P256)" "SHA256_F4 = fips_sigma (fips_s1 fips_P256)"
  "SHA512_F1 = fips_Sigma (fips_S0 fips_P512)" "SHA512_F2 = fips_Sigma (fips_S1 fips_P512)"
  "SHA512_F3 = fips_sigma (fips_s0 fips_P512)" "SHA512_F4 = fips_sigma (fips_s1 fips_P512)"
  by (simp_all add: fun_eq_iff fips_P256_def fips_P512_def fips_Sigma_def fips_sigma_def fips_rotr ROTR_def
    SHA256_F1_def SHA256_F2_def SHA256_F3_def SHA256_F4_def SHA512_F1_def SHA512_F2_def SHA512_F3_def SHA512_F4_def)

text \<open>The tables of the source hold the constants of the standard.\<close>

lemma sha2_h0_fips:
  "sha224_h0 = fips_H0_224" "sha256_h0 = fips_H0_256" "sha384_h0 = fips_H0_384" "sha512_h0 = fips_H0_512"
proof -
  have "map (fips_frac 2) (take 8 fips_primes) = sha256_h0"
    by (rule map_fips_frac) (simp add: fips_primes_def sha256_h0_def frac_ok_def)
  then show "sha256_h0 = fips_H0_256" by (simp add: fips_H0_256_def)
  have h384: "map (fips_frac 2) (take 8 (drop 8 fips_primes)) = sha384_h0"
    by (rule map_fips_frac) (simp add: fips_primes_def sha384_h0_def frac_ok_def)
  then show "sha384_h0 = fips_H0_384" by (simp add: fips_H0_384_def)
  have "map ucast sha384_h0 = sha224_h0" by (simp add: sha384_h0_def sha224_h0_def)
  then show "sha224_h0 = fips_H0_224" unfolding h384 [symmetric] fips_H0_224_def by (simp add: comp_def)
  have "map (fips_frac 2) (take 8 fips_primes) = sha512_h0"
    by (rule map_fips_frac) (simp add: fips_primes_def sha512_h0_def frac_ok_def)
  then show "sha512_h0 = fips_H0_512" by (simp add: fips_H0_512_def)
qed

lemma sha2_k_fips: "sha256_k = map fips_K [0..<64]" "sha512_k = map fips_K [0..<80]"
proof -
  have k: "map fips_K [0..<n] = map (fips_frac 3) (take n fips_primes)" if "n \<le> 80" for n
    using that by (intro nth_equalityI) (simp_all add: fips_K_def fips_primes_def)
  have "map (fips_frac 3) (take 64 fips_primes) = sha256_k"
    by (rule map_fips_frac) (simp add: fips_primes_def sha256_k_def frac_ok_def)
  then show "sha256_k = map fips_K [0..<64]" by (simp add: k)
  have "map (fips_frac 3) (take 80 fips_primes) = sha512_k"
    by (rule map_fips_frac) (simp add: fips_primes_def sha512_k_def frac_ok_def)
  then show "sha512_k = map fips_K [0..<80]" by (simp add: k)
qed

text \<open>The array of the schedule and the recurrence; the macro calls and the numbered rounds.\<close>

lemma sha2_SCR_fips:
  assumes "16 \<le> k"
  shows "sha2_SCR (fips_sigma (fips_s0 P)) (fips_sigma (fips_s1 P)) n (map (fips_W P M) [0..<k]) = map (fips_W P M) [0..<k + n]"
  using assms
proof (induction n arbitrary: k)
  case (Suc n)
  have W: "fips_W P M k = fips_sigma (fips_s1 P) (fips_W P M (k - 2)) + fips_W P M (k - 7)
      + fips_sigma (fips_s0 P) (fips_W P M (k - 15)) + fips_W P M (k - 16)"
    using Suc.prems by (subst fips_W.simps) simp
  show ?case using Suc.IH[of "Suc k"] Suc.prems by (simp add: W)
qed simp

lemma sha2_rounds_snoc: "sha2_rounds F1 F2 (kws @ [kw]) v = sha2_EXP F1 F2 (fst kw) (snd kw) (sha2_rounds F1 F2 kws v)"
  by (induction kws arbitrary: v) simp_all

lemma sha2_rounds_fips:
  "sha2_rounds (fips_Sigma (fips_S0 P)) (fips_Sigma (fips_S1 P)) (map (\<lambda>t. (fips_K t, fips_W P M t)) [0..<n]) v = fips_after P M n v"
  by (induction n) (simp_all add: sha2_rounds_snoc sha2_EXP_def fips_Ch_def fips_Maj_def CH_def MAJ_def split: prod.splits)

lemma fips_W_block:
  "length M = 64 \<Longrightarrow> map (\<lambda>i. get_be32 M (4 * i)) [0..<16] = map (fips_W P M) [0..<16]"
  "length M = 128 \<Longrightarrow> map (\<lambda>i. get_be64 M (8 * i)) [0..<16] = map (fips_W P M) [0..<16]"
  by (simp_all add: fips_W.simps fips_word_be del: upt_Suc)

lemma sha2_state_fips: "length H = 8 \<Longrightarrow> sha2_state H v = (case v of (a, b, c, d, e, f, g, h) \<Rightarrow> map2 (+) H [a, b, c, d, e, f, g, h])"
  by (auto simp: sha2_state_def length_Suc_conv numeral_eq_Suc split: prod.split)

lemma sha256_comp_fips:
  assumes "length H = 8" "length M = 64"
  shows "sha256_comp H M = fips_block fips_P256 H M"
proof -
  have n: "fips_rounds fips_P256 = 64" by (simp add: fips_P256_def)
  have w: "sha2_SCR SHA256_F3 SHA256_F4 48 (map (\<lambda>i. get_be32 M (4 * i)) [0..<16]) = map (fips_W fips_P256 M) [0..<64]"
    unfolding fips_W_block(1)[OF assms(2), of fips_P256] sha2_functions_fips by (subst sha2_SCR_fips) simp_all
  show ?thesis
    unfolding sha256_comp_def Let_def unfolding w unfolding sha2_k_fips(1) zip_map_map zip_same_conv_map map_map comp_def case_prod_conv
      sha2_functions_fips sha2_rounds_fips sha2_state_fips[OF assms(1)] fips_block_def n ..
qed

lemma sha512_comp_fips:
  assumes "length H = 8" "length M = 128"
  shows "sha512_comp H M = fips_block fips_P512 H M"
proof -
  have n: "fips_rounds fips_P512 = 80" by (simp add: fips_P512_def)
  have w: "sha2_SCR SHA512_F3 SHA512_F4 64 (map (\<lambda>i. get_be64 M (8 * i)) [0..<16]) = map (fips_W fips_P512 M) [0..<80]"
    unfolding fips_W_block(2)[OF assms(2), of fips_P512] sha2_functions_fips by (subst sha2_SCR_fips) simp_all
  show ?thesis
    unfolding sha512_comp_def Let_def unfolding w unfolding sha2_k_fips(2) zip_map_map zip_same_conv_map map_map comp_def case_prod_conv
      sha2_functions_fips sha2_rounds_fips sha2_state_fips[OF assms(1)] fips_block_def n ..
qed

lemma foldl_fips:
  assumes "\<And>H b. length H = n \<Longrightarrow> length b = k \<Longrightarrow> f H b = g H b \<and> length (f H b) = n"
    and "length H = n" and "\<forall>b \<in> set bs. length b = k"
  shows "foldl f H bs = foldl g H bs"
  using assms(2,3)
proof (induction bs arbitrary: H)
  case (Cons b bs)
  have fg: "f H b = g H b \<and> length (f H b) = n" using Cons.prems by (intro assms(1)) simp_all
  have l: "length (f H b) = n" using fg by (rule conjunct2)
  have e: "g H b = f H b" using fg by (elim conjE) (rule sym)
  show ?case using Cons.IH[OF l] Cons.prems(2) by (simp add: e)
qed simp

lemma take_concat_map: "(\<And>x. length (f x) = k) \<Longrightarrow> take (k * n) (concat (map f xs)) = concat (map f (take n xs))"
proof (induction xs arbitrary: n)
  case (Cons x xs)
  then show ?case by (cases n) simp_all
qed simp

lemma sha256_digest_fips:
  assumes "length H0 = 8"
  shows "sha256_digest H0 n m = fips_hash fips_P256 H0 (4 * n) m"
proof -
  define bs where "bs = chunks 64 (m @ md_pad 64 (length m) (sha2_len64 (length m)))"
  have "fips_bytes 8 (8 * length m) = sha2_len64 (length m)" by (simp add: fips_bytes_put sha2_len64_def)
  then have p: "fips_pad 64 8 m = m @ md_pad 64 (length m) (sha2_len64 (length m))" by (intro fips_pad_md) simp_all
  have f: "foldl sha256_comp H0 bs = foldl (fips_block fips_P256) H0 bs"
    by (rule foldl_fips[where n = 8 and k = 64])
      (simp_all add: assms sha256_comp_fips bs_def length_in_chunks fips_block_def split: prod.split)
  have t: "take (4 * n) (concat (map put_be32 xs)) = concat (map put_be32 (take n xs))" for xs
    by (rule take_concat_map) simp
  show ?thesis
    by (simp add: sha256_digest_def fips_hash_def Let_def fips_bytes_put p t flip: bs_def f)
qed

lemma sha512_digest_fips:
  assumes "length H0 = 8"
  shows "sha512_digest H0 n m = fips_hash fips_P512 H0 (8 * n) m"
proof -
  define bs where "bs = chunks 128 (m @ md_pad 128 (length m) (sha2_len128 (length m)))"
  have "fips_bytes 16 (8 * length m) = sha2_len128 (length m)" by (simp add: fips_bytes_put sha2_len128_def)
  then have p: "fips_pad 128 16 m = m @ md_pad 128 (length m) (sha2_len128 (length m))" by (intro fips_pad_md) simp_all
  have f: "foldl sha512_comp H0 bs = foldl (fips_block fips_P512) H0 bs"
    by (rule foldl_fips[where n = 8 and k = 128])
      (simp_all add: assms sha512_comp_fips bs_def length_in_chunks fips_block_def split: prod.split)
  have t: "take (8 * n) (concat (map put_be64 xs)) = concat (map put_be64 (take n xs))" for xs
    by (rule take_concat_map) simp
  show ?thesis
    by (simp add: sha512_digest_def fips_hash_def Let_def fips_bytes_put p t flip: bs_def f)
qed

lemma length_sha2_h0: "length sha224_h0 = 8" "length sha256_h0 = 8" "length sha384_h0 = 8" "length sha512_h0 = 8"
  by (simp_all add: sha224_h0_def sha256_h0_def sha384_h0_def sha512_h0_def)

lemma sha2_eq:
  "sha2 v = (if v = SHA2_VARIANT_224 then sha256_digest sha224_h0 7
     else if v = SHA2_VARIANT_256 then sha256_digest sha256_h0 8
     else if v = SHA2_VARIANT_384 then sha512_digest sha384_h0 6
     else sha512_digest sha512_h0 8)"
  by (simp add: fun_eq_iff sha2_def sha2_variants sha256_digest_fips sha512_digest_fips length_sha2_h0 sha2_h0_fips [symmetric])

subsection \<open>A context holds a message\<close>

definition holds256 :: "u32 list \<Rightarrow> Sha256Ctx \<Rightarrow> u8 list \<Rightarrow> bool" where
  "holds256 h0 c m \<longleftrightarrow> absorbed 64 sha256_comp h0 (sha256_h c) (sha256_block c) m
     \<and> length (sha256_block c) = 128 \<and> sha256_len c = length m mod 64
     \<and> sha256_tot_len c = of_nat (length m)"

definition holds512 :: "u64 list \<Rightarrow> Sha512Ctx \<Rightarrow> u8 list \<Rightarrow> bool" where
  "holds512 h0 c m \<longleftrightarrow> absorbed 128 sha512_comp h0 (sha512_h c) (sha512_block c) m
     \<and> length (sha512_block c) = 256 \<and> sha512_len c = length m mod 128
     \<and> sha512_tot_len c = [of_nat (length m), of_nat (length m div 2 ^ 64)]"

fun sha2_holds :: "nat \<Rightarrow> Sha2Ctx \<Rightarrow> u8 list \<Rightarrow> bool" where
  "sha2_holds v ctx m \<longleftrightarrow> sha2_variant ctx = v \<and> v \<le> 3 \<and> (case sha2_type ctx of
     U256 c \<Rightarrow> v \<le> 1 \<and> holds256 (if v = SHA2_VARIANT_224 then sha224_h0 else sha256_h0) c m
   | U512 c \<Rightarrow> 2 \<le> v \<and> holds512 (if v = SHA2_VARIANT_384 then sha384_h0 else sha512_h0) c m)"

declare sha2_holds.simps [simp del]

lemma sha256_feed_holds:
  assumes h: "holds256 h0 c m" and a: "wf_ba a" and small: "ba_len a < SIZE_MOD - 128"
  shows "\<exists>H block len. sha2_feed 64 clear sha256_transf (sha256_h c) (sha256_block c) (sha256_len c) (data a) (ba_len a)
      = Inr (H, block, len)
    \<and> holds256 h0 \<lparr>sha256_tot_len = sha256_tot_len c + of_nat (ba_len a), sha256_len = len,
        sha256_block = block, sha256_h = H\<rparr> (m @ data a)"
  using core256.sha2_feed_absorbed[of h0 "sha256_h c" "sha256_block c" m "data a" clear] h a small
  by (auto simp: holds256_def)

lemma sha512_count_eq:
  assumes "k < SIZE_MOD"
  shows "sha512_count [of_nat n, of_nat (n div 2 ^ 64)] k = [of_nat (n + k), of_nat ((n + k) div 2 ^ 64)]"
proof -
  have "k < 2 ^ LENGTH(64)" using assms by (simp add: SIZE_MOD_def)
  from carry_add[where 'a=64, OF this, of n] show ?thesis
    by (simp add: sha512_count_def Let_def)
qed

lemma sha512_feed_holds:
  assumes h: "holds512 h0 c m" and a: "wf_ba a" and small: "ba_len a < SIZE_MOD - 128"
  shows "\<exists>H block len. sha2_feed 128 clear sha512_transf (sha512_h c) (sha512_block c) (sha512_len c) (data a) (ba_len a)
      = Inr (H, block, len)
    \<and> holds512 h0 \<lparr>sha512_tot_len = sha512_count (sha512_tot_len c) (ba_len a), sha512_len = len,
        sha512_block = block, sha512_h = H\<rparr> (m @ data a)"
  using core512.sha2_feed_absorbed[of h0 "sha512_h c" "sha512_block c" m "data a" clear] h a small
    sha512_count_eq[of "ba_len a" "length m"]
  by (auto simp: holds512_def)

subsection \<open>Final computes the digest\<close>

lemma map_nth_take: "n \<le> length H \<Longrightarrow> map (\<lambda>i. f (H ! i)) [0..<n] = map f (take n H)"
  by (intro nth_equalityI) simp_all

lemma sha256_finish_holds:
  assumes ty: "sha2_type ctx = U256 c" and h: "holds256 h0 c m" and M: "mem_ok M"
    and init: "init = sha256_reset h0 v" and n: "n \<le> 8" "length h0 = 8" "0 < n"
  shows "\<exists>c'. sha256_finish n init M ctx
      = (Inr (mk_ba (sha256_digest h0 n m)), ctx\<lparr>sha2_type := U256 c', sha2_variant := v\<rparr>) \<and> holds256 h0 c' []"
proof -
  define L where "L = sha2_len64 (length m)"
  define H where "H = foldl sha256_comp h0 (chunks 64 (m @ md_pad 64 (length m) L))"
  have ab: "absorbed 64 sha256_comp h0 (sha256_h c) (sha256_block c) m"
    and lb: "length (sha256_block c) = 2 * 64" and len: "sha256_len c = length m mod 64"
    and tot: "sha256_tot_len c = of_nat (length m)"
    using h by (simp_all add: holds256_def)
  have L: "put_be64 (push_bit 3 (sha256_tot_len c)) = L" "1 + length L < 64"
    by (simp_all add: L_def sha2_len64_def tot push_bit_eq_mult mult.commute)
  from core256.sha2_last_eq[OF ab lb L(2)] obtain blk where
    l: "sha2_last 64 sha256_transf (sha256_h c) (sha256_block c) (length m mod 64) L = Inr (H, blk)"
      "length blk = 2 * 64"
    unfolding H_def by blast
  have lH: "length H = 8" unfolding H_def using n(2) by (rule length_foldl_comp)
  have dg: "concat (map (\<lambda>i. put_be32 (H ! i)) [0..<n]) = sha256_digest h0 n m"
    using map_nth_take[of n H put_be32] n lH by (simp add: sha256_digest_def H_def L_def)
  have ld: "length (sha256_digest h0 n m) = 4 * n"
    using n lH by (simp add: sha256_digest_def length_concat_put flip: L_def H_def)
  have al: "ba_alloc_from_uint8 M (Some (sha256_digest h0 n m)) (4 * n) = Inr (Some (mk_ba (sha256_digest h0 n m)))"
    using ba_alloc_from_uint8_eq[OF M, of "4 * n" "sha256_digest h0 n m"] ld n by simp
  have "sha256_finish n init M ctx = (Inr (mk_ba (sha256_digest h0 n m)),
      ctx\<lparr>sha2_type := U256 \<lparr>sha256_tot_len = 0, sha256_len = 0,
            sha256_block = replicate 32 0 @ drop 32 blk, sha256_h = h0\<rparr>, sha2_variant := v\<rparr>)"
    using l(2) by (simp add: sha256_finish_def ctx256_def ty len L l(1) dg al init sha256_reset_def)
  moreover have "holds256 h0 \<lparr>sha256_tot_len = 0, sha256_len = 0,
            sha256_block = replicate 32 0 @ drop 32 blk, sha256_h = h0\<rparr> []"
    using l(2) by (simp add: holds256_def absorbed_Nil)
  ultimately show ?thesis by blast
qed

lemma bit_length_high:
  "push_bit 3 (of_nat (n div 2 ^ 64)) OR drop_bit (64 - 3) (of_nat n) = (of_nat (8 * n div 2 ^ 64) :: u64)"
proof -
  have "8 * n div 2 ^ 64 = drop_bit 64 (push_bit 3 n)" "n div 2 ^ 64 = drop_bit 64 n"
    by (simp_all add: drop_bit_eq_div push_bit_eq_mult mult.commute)
  then show ?thesis
    by (intro bit_word_eqI) (auto simp: bit_simps)
qed

lemma sha512_finish_holds:
  assumes ty: "sha2_type ctx = U512 c" and h: "holds512 h0 c m" and M: "mem_ok M"
    and init: "init = sha512_reset h0 v" and n: "n \<le> 8" "length h0 = 8" "0 < n"
  shows "\<exists>c'. sha512_finish n init M ctx
      = (Inr (mk_ba (sha512_digest h0 n m)), ctx\<lparr>sha2_type := U512 c', sha2_variant := v\<rparr>) \<and> holds512 h0 c' []"
proof -
  define L where "L = sha2_len128 (length m)"
  define H where "H = foldl sha512_comp h0 (chunks 128 (m @ md_pad 128 (length m) L))"
  have ab: "absorbed 128 sha512_comp h0 (sha512_h c) (sha512_block c) m"
    and lb: "length (sha512_block c) = 2 * 128" and len: "sha512_len c = length m mod 128"
    and tot: "sha512_tot_len c = [of_nat (length m), of_nat (length m div 2 ^ 64)]"
    using h by (simp_all add: holds512_def)
  have hi: "push_bit 3 (sha512_tot_len c ! 1) OR drop_bit (64 - 3) (sha512_tot_len c ! 0)
      = of_nat (8 * length m div 2 ^ 64)"
    unfolding tot using bit_length_high[of "length m"] by simp
  have lo: "push_bit 3 (sha512_tot_len c ! 0) = of_nat (8 * length m)"
    by (simp add: tot push_bit_eq_mult mult.commute)
  have L: "put_be64 (push_bit 3 (sha512_tot_len c ! 1) OR drop_bit (64 - 3) (sha512_tot_len c ! 0))
      @ put_be64 (push_bit 3 (sha512_tot_len c ! 0)) = L" "1 + length L < 128"
    by (simp only: hi lo L_def sha2_len128_def) (simp add: L_def sha2_len128_def)
  from core512.sha2_last_eq[OF ab lb L(2)] obtain blk where
    l: "sha2_last 128 sha512_transf (sha512_h c) (sha512_block c) (length m mod 128) L = Inr (H, blk)"
      "length blk = 2 * 128"
    unfolding H_def by blast
  have lH: "length H = 8" unfolding H_def using n(2) by (rule length_foldl_comp)
  have dg: "concat (map (\<lambda>i. put_be64 (H ! i)) [0..<n]) = sha512_digest h0 n m"
    using map_nth_take[of n H put_be64] n lH by (simp add: sha512_digest_def H_def L_def)
  have ld: "length (sha512_digest h0 n m) = 8 * n"
    using n lH by (simp add: sha512_digest_def length_concat_put flip: L_def H_def)
  have al: "ba_alloc_from_uint8 M (Some (sha512_digest h0 n m)) (8 * n) = Inr (Some (mk_ba (sha512_digest h0 n m)))"
    using ba_alloc_from_uint8_eq[OF M, of "8 * n" "sha512_digest h0 n m"] ld n by simp
  have "sha512_finish n init M ctx = (Inr (mk_ba (sha512_digest h0 n m)),
      ctx\<lparr>sha2_type := U512 \<lparr>sha512_tot_len = [0, 0], sha512_len = 0,
            sha512_block = replicate 64 0 @ drop 64 blk, sha512_h = h0\<rparr>, sha2_variant := v\<rparr>)"
    unfolding sha512_finish_def ctx512_def ty L len Sha2Union.case DO_ST_simps l(1) prod.case Let_def dg
    using l(2) by (simp add: ctx512_def al init sha512_reset_def)
  moreover have "holds512 h0 \<lparr>sha512_tot_len = [0, 0], sha512_len = 0,
            sha512_block = replicate 64 0 @ drop 64 blk, sha512_h = h0\<rparr> []"
    using l(2) by (simp add: holds512_def absorbed_Nil)
  ultimately show ?thesis by blast
qed

subsection \<open>The interface\<close>

definition sha2_start :: "nat \<Rightarrow> Sha2Ctx" where
  "sha2_start v = \<lparr>sha2_variant = v, sha2_k_opad = replicate 128 0, sha2_type =
     (if v \<le> 1
      then U256 \<lparr>sha256_tot_len = 0, sha256_len = 0, sha256_block = replicate 128 0,
             sha256_h = if v = SHA2_VARIANT_224 then sha224_h0 else sha256_h0\<rparr>
      else U512 \<lparr>sha512_tot_len = [0, 0], sha512_len = 0, sha512_block = replicate 256 0,
             sha512_h = if v = SHA2_VARIANT_384 then sha384_h0 else sha512_h0\<rparr>)\<rparr>"

lemma variant_cases:
  assumes "v \<le> 3"
  obtains "v = SHA2_VARIANT_224" | "v = SHA2_VARIANT_256" | "v = SHA2_VARIANT_384" | "v = SHA2_VARIANT_512"
  using assms by (auto simp: sha2_variants le_Suc_eq numeral_eq_Suc)

lemma sha2_alloc_eq:
  assumes "v \<le> 3" and "mem_ok M"
  shows "sha2_alloc M v = Inr (Some (sha2_start v))"
proof -
  have "replicate 32 0 @ drop 32 (replicate 128 (0 :: u8)) = replicate 128 0"
    and "replicate 64 0 @ drop 64 (replicate 256 (0 :: u8)) = replicate 256 0"
    by (simp_all flip: replicate_add)
  then show ?thesis
    using assms(2)
    by (cases rule: variant_cases[OF assms(1)])
      (simp_all add: sha2_alloc_def sha2_start_def sha2_zero_def sha2_variants sha224_init_def sha256_init_def
        sha384_init_def sha512_init_def sha256_reset_def sha512_reset_def ctx256_def ctx512_def)
qed

lemma sha2_alloc_invalid: "3 < v \<Longrightarrow> mem_ok M \<Longrightarrow> sha2_alloc M v = Inr None"
  by (simp add: sha2_alloc_def sha2_variants SET_ERROR_def)

lemma sha2_start_holds: "v \<le> 3 \<Longrightarrow> sha2_holds v (sha2_start v) []"
  by (simp add: sha2_start_def sha2_holds.simps holds256_def holds512_def absorbed_Nil)

lemma sha2_update_holds:
  assumes h: "sha2_holds v ctx m" and a: "wf_ba a" and small: "ba_len a < SIZE_MOD - 128"
  shows "\<exists>ctx'. sha2_update (Some ctx) (Some a) = Inr ctx' \<and> sha2_holds v ctx' (m @ data a)"
proof -
  have v: "sha2_variant ctx = v" "v \<le> 3" using h by (simp_all add: sha2_holds.simps)
  show ?thesis
  proof (cases "sha2_type ctx")
    case (U256 c)
    with h have v1: "v \<le> 1"
      and hc: "holds256 (if v = SHA2_VARIANT_224 then sha224_h0 else sha256_h0) c m"
      by (simp_all add: sha2_holds.simps)
    from sha256_feed_holds[OF hc a small, of "v = 0"] obtain H block len where
      "sha2_feed 64 (v = 0) sha256_transf (sha256_h c) (sha256_block c) (sha256_len c) (data a) (ba_len a) = Inr (H, block, len)"
      "holds256 (if v = SHA2_VARIANT_224 then sha224_h0 else sha256_h0)
         \<lparr>sha256_tot_len = sha256_tot_len c + of_nat (ba_len a), sha256_len = len, sha256_block = block, sha256_h = H\<rparr>
         (m @ data a)" by blast
    then show ?thesis
      using v v1 U256
      by (cases "v = 0") (simp_all add: sha2_update_def sha2_variants ctx256_def sha224_update_def
        sha256_update_def sha2_holds.simps le_Suc_eq)
  next
    case (U512 c)
    with h have v1: "2 \<le> v"
      and hc: "holds512 (if v = SHA2_VARIANT_384 then sha384_h0 else sha512_h0) c m"
      by (simp_all add: sha2_holds.simps)
    from sha512_feed_holds[OF hc a small, of False] obtain H block len where
      "sha2_feed 128 False sha512_transf (sha512_h c) (sha512_block c) (sha512_len c) (data a) (ba_len a) = Inr (H, block, len)"
      "holds512 (if v = SHA2_VARIANT_384 then sha384_h0 else sha512_h0)
         \<lparr>sha512_tot_len = sha512_count (sha512_tot_len c) (ba_len a), sha512_len = len, sha512_block = block, sha512_h = H\<rparr>
         (m @ data a)" by blast
    then show ?thesis
      using v v1 U512
      by (cases "v = 2") (simp_all add: sha2_update_def sha2_variants ctx512_def sha384_update_def
        sha512_update_def sha2_holds.simps)
  qed
qed

lemma sha2_final_holds:
  assumes h: "sha2_holds v ctx m" and M: "mem_ok M"
  shows "\<exists>ctx'. sha2_final M (Some ctx) = (Inr (mk_ba (sha2 v m)), Some ctx') \<and> sha2_holds v ctx' []"
proof -
  have v: "sha2_variant ctx = v" "v \<le> 3" using h by (simp_all add: sha2_holds.simps)
  note h0 = length_sha2_h0
  show ?thesis
  proof (cases "sha2_type ctx")
    case (U256 c)
    define h0 where "h0 = (if v = SHA2_VARIANT_224 then sha224_h0 else sha256_h0)"
    define n :: nat where "n = (if v = SHA2_VARIANT_224 then 7 else 8)"
    from U256 h have v1: "v \<le> 1" and hc: "holds256 h0 c m"
      by (simp_all add: sha2_holds.simps h0_def)
    have "n \<le> 8" "length h0 = 8" "0 < n" by (simp_all add: n_def h0_def h0)
    from sha256_finish_holds[OF U256 hc M refl this, of v] obtain c' where
      f: "sha256_finish n (sha256_reset h0 v) M ctx = (Inr (mk_ba (sha256_digest h0 n m)),
            ctx\<lparr>sha2_type := U256 c', sha2_variant := v\<rparr>)" "holds256 h0 c' []" by blast
    have "sha2_final M (Some ctx) = map_prod id Some (sha256_finish n (sha256_reset h0 v) M ctx)"
      using v v1 by (cases "v = 0") (simp_all add: sha2_final_def sha2_variants sha224_final_def sha256_final_def
        sha224_init_def sha256_init_def n_def h0_def le_Suc_eq)
    moreover have "sha256_digest h0 n m = sha2 v m"
      using v1 by (cases "v = 0") (simp_all add: sha2_eq sha2_variants n_def h0_def le_Suc_eq)
    ultimately show ?thesis using f v v1 by (simp add: sha2_holds.simps h0_def)
  next
    case (U512 c)
    define h0 where "h0 = (if v = SHA2_VARIANT_384 then sha384_h0 else sha512_h0)"
    define n :: nat where "n = (if v = SHA2_VARIANT_384 then 6 else 8)"
    from U512 h have v1: "2 \<le> v" and hc: "holds512 h0 c m"
      by (simp_all add: sha2_holds.simps h0_def)
    have "n \<le> 8" "length h0 = 8" "0 < n" by (simp_all add: n_def h0_def h0)
    from sha512_finish_holds[OF U512 hc M refl this, of v] obtain c' where
      f: "sha512_finish n (sha512_reset h0 v) M ctx = (Inr (mk_ba (sha512_digest h0 n m)),
            ctx\<lparr>sha2_type := U512 c', sha2_variant := v\<rparr>)" "holds512 h0 c' []" by blast
    have v3: "v = 2 \<or> v = 3" using v v1 by auto
    have "sha2_final M (Some ctx) = map_prod id Some (sha512_finish n (sha512_reset h0 v) M ctx)"
      using v v3 by (auto simp: sha2_final_def sha2_variants sha384_final_def sha512_final_def
        sha384_init_def sha512_init_def n_def h0_def)
    moreover have "sha512_digest h0 n m = sha2 v m"
      using v3 by (auto simp: sha2_eq sha2_variants n_def h0_def)
    ultimately show ?thesis using f v v1 by (simp add: sha2_holds.simps h0_def)
  qed
qed

subsection \<open>Test vectors in the kernel\<close>

text \<open>The compression on lists of bits.\<close>

lemma ROTR_bits: "length xs = LENGTH('a) \<Longrightarrow> n \<le> LENGTH('a) \<Longrightarrow>
    ROTR (of_bits xs :: 'a::len word) n = of_bits (rot_bl n xs [])"
  by (simp add: ROTR_def of_bits_rotr)

lemma sha2_F_eval [bit_eval]:
  "len32 xs \<Longrightarrow> SHA256_F1 (of_bits xs) = of_bits (xor_bl (rot_bl 2 xs []) (xor_bl (rot_bl 13 xs []) (rot_bl 22 xs [])))"
  "len32 xs \<Longrightarrow> SHA256_F2 (of_bits xs) = of_bits (xor_bl (rot_bl 6 xs []) (xor_bl (rot_bl 11 xs []) (rot_bl 25 xs [])))"
  "len32 xs \<Longrightarrow> SHA256_F3 (of_bits xs) = of_bits (xor_bl (rot_bl 7 xs []) (xor_bl (rot_bl 18 xs []) (shr_bl 3 xs [])))"
  "len32 xs \<Longrightarrow> SHA256_F4 (of_bits xs) = of_bits (xor_bl (rot_bl 17 xs []) (xor_bl (rot_bl 19 xs []) (shr_bl 10 xs [])))"
  "len64 ys \<Longrightarrow> SHA512_F1 (of_bits ys) = of_bits (xor_bl (rot_bl 28 ys []) (xor_bl (rot_bl 34 ys []) (rot_bl 39 ys [])))"
  "len64 ys \<Longrightarrow> SHA512_F2 (of_bits ys) = of_bits (xor_bl (rot_bl 14 ys []) (xor_bl (rot_bl 18 ys []) (rot_bl 41 ys [])))"
  "len64 ys \<Longrightarrow> SHA512_F3 (of_bits ys) = of_bits (xor_bl (rot_bl 1 ys []) (xor_bl (rot_bl 8 ys []) (shr_bl 7 ys [])))"
  "len64 ys \<Longrightarrow> SHA512_F4 (of_bits ys) = of_bits (xor_bl (rot_bl 19 ys []) (xor_bl (rot_bl 61 ys []) (shr_bl 6 ys [])))"
  by (simp_all add: SHA256_F1_def SHA256_F2_def SHA256_F3_def SHA256_F4_def SHA512_F1_def SHA512_F2_def
    SHA512_F3_def SHA512_F4_def len32_def len64_def ROTR_bits of_bits_shr of_bits_xor xor.assoc)

definition sha2_mix ::
    "'a::len word \<Rightarrow> 'a word \<Rightarrow> 'a word \<Rightarrow> 'a word \<Rightarrow> 'a word \<Rightarrow> 'a word \<Rightarrow> 'a word \<Rightarrow> 'a word \<Rightarrow> 'a word \<Rightarrow> 'a wv" where
  "sha2_mix t1 t2 a b c d e f g = (t1 + t2, a, b, c, d + t1, e, f, g)"

definition sha2_run where "sha2_run F1 F2 K w v = sha2_rounds F1 F2 (zip K w) v"

lemma sha2_run_eval [bit_eval]:
  "sha2_run F1 F2 (k # K) (x # w) (a, b, c, d, e, f, g, h) = sha2_run F1 F2 K w
     (sha2_mix (h + F2 e + CH e f g + lit k + x) (F1 a + MAJ a b c) a b c d e f g)"
  "sha2_run F1 F2 [] [] v = v"
  by (simp_all add: sha2_run_def sha2_mix_def sha2_EXP_def lit_def Let_def)

text \<open>The schedule, last word first.\<close>

definition sha2_extend where "sha2_extend F3 F4 n rw = sha2_SCR F3 F4 n (rev rw)"

lemma sha2_extend_Suc:
  "sha2_extend F3 F4 (Suc n) (x1 # x2 # x3 # x4 # x5 # x6 # x7 # x8 # x9 # x10 # x11 # x12 # x13 # x14 # x15 # x16 # r)
    = sha2_extend F3 F4 n ((F4 x2 + x7 + F3 x15 + x16) #
        x1 # x2 # x3 # x4 # x5 # x6 # x7 # x8 # x9 # x10 # x11 # x12 # x13 # x14 # x15 # x16 # r)"
  by (simp add: sha2_extend_def nth_append)

lemma sha2_extend_eval [bit_eval]:
  "sha2_extend F3 F4 (numeral n) (x1 # x2 # x3 # x4 # x5 # x6 # x7 # x8 # x9 # x10 # x11 # x12 # x13 # x14 # x15 # x16 # r)
    = sha2_extend F3 F4 (pred_numeral n) ((F4 x2 + x7 + F3 x15 + x16) #
        x1 # x2 # x3 # x4 # x5 # x6 # x7 # x8 # x9 # x10 # x11 # x12 # x13 # x14 # x15 # x16 # r)"
  "sha2_extend F3 F4 0 r = rev r"
  by (simp_all only: numeral_eq_Suc sha2_extend_Suc) (simp add: sha2_extend_def)

definition sha2_add :: "'a::len word list \<Rightarrow> 'a wv \<Rightarrow> 'a word list" where
  "sha2_add H v = sha2_state H v"

lemma sha2_add_eval [bit_eval]:
  "sha2_add [h0, h1, h2, h3, h4, h5, h6, h7] (a, b, c, d, e, f, g, h) =
     [h0 + a, h1 + b, h2 + c, h3 + d, h4 + e, h5 + f, h6 + g, h7 + h]"
  by (simp add: sha2_add_def sha2_state_def)

text \<open>The block as a list of its words keeps the simplifier from reading it twice.\<close>

lemma sha256_comp_eval:
  assumes "len64 b"
  shows "sha256_comp [h0, h1, h2, h3, h4, h5, h6, h7] b =
     sha2_add [lit h0, lit h1, lit h2, lit h3, lit h4, lit h5, lit h6, lit h7]
       (sha2_run SHA256_F1 SHA256_F2 sha256_k
         (sha2_extend SHA256_F3 SHA256_F4 48 (rev (be32_words b)))
         (lit h0, lit h1, lit h2, lit h3, lit h4, lit h5, lit h6, lit h7))"
  using assms by (simp add: sha256_comp_def sha2_add_def sha2_run_def sha2_extend_def be32_words_eq lit_def Let_def len64_def del: upt_Suc)

lemma sha512_comp_eval:
  assumes "length b = 128"
  shows "sha512_comp [h0, h1, h2, h3, h4, h5, h6, h7] b =
     sha2_add [lit h0, lit h1, lit h2, lit h3, lit h4, lit h5, lit h6, lit h7]
       (sha2_run SHA512_F1 SHA512_F2 sha512_k
         (sha2_extend SHA512_F3 SHA512_F4 64 (rev (be64_words b)))
         (lit h0, lit h1, lit h2, lit h3, lit h4, lit h5, lit h6, lit h7))"
  using assms by (simp add: sha512_comp_def sha2_add_def sha2_run_def sha2_extend_def be64_words_eq lit_def Let_def del: upt_Suc)

lemmas sha2_pad_eval = sha256_digest_def sha512_digest_def sha2_len64_def sha2_len128_def md_pad_def
  put_be64_def replicate_numeral chunks_rec chunks_short ascii_def
  sha224_h0_def sha256_h0_def sha384_h0_def sha512_h0_def

lemmas sha2_eval = bit_eval list_eval sha256_comp_eval CH_def MAJ_def sha2_mix_def sha256_k_def sha512_k_def

lemma sha224_vector1: "sha256_digest sha224_h0 7 (ascii ''abc'') =
       [0x23, 0x09, 0x7D, 0x22, 0x34, 0x05, 0xD8, 0x22, 0x86, 0x42, 0xA4, 0x77, 0xBD, 0xA2, 0x55, 0xB3,
        0x2A, 0xAD, 0xBC, 0xE4, 0xBD, 0xA0, 0xB3, 0xF7, 0xE3, 0x6C, 0x9D, 0xA7]"
  by (simp add: sha2_pad_eval sha512_comp_eval) (simp only: sha2_eval, simp add: of_bits_numerals)

lemma sha224_vector2: "sha256_digest sha224_h0 7 (ascii ''abcdbcdecdefdefgefghfghighijhijkijkljklmklmnlmnomnopnopq'') =
       [0x75, 0x38, 0x8B, 0x16, 0x51, 0x27, 0x76, 0xCC, 0x5D, 0xBA, 0x5D, 0xA1, 0xFD, 0x89, 0x01, 0x50,
        0xB0, 0xC6, 0x45, 0x5C, 0xB4, 0xF5, 0x8B, 0x19, 0x52, 0x52, 0x25, 0x25]"
  by (simp add: sha2_pad_eval sha512_comp_eval) (simp only: sha2_eval, simp add: of_bits_numerals)

lemma sha256_vector1: "sha256_digest sha256_h0 8 (ascii ''abc'') =
       [0xBA, 0x78, 0x16, 0xBF, 0x8F, 0x01, 0xCF, 0xEA, 0x41, 0x41, 0x40, 0xDE, 0x5D, 0xAE, 0x22, 0x23,
        0xB0, 0x03, 0x61, 0xA3, 0x96, 0x17, 0x7A, 0x9C, 0xB4, 0x10, 0xFF, 0x61, 0xF2, 0x00, 0x15, 0xAD]"
  by (simp add: sha2_pad_eval sha512_comp_eval) (simp only: sha2_eval, simp add: of_bits_numerals)

lemma sha256_vector2: "sha256_digest sha256_h0 8 (ascii ''ABCDEFGHIJKLMNOPQRSTUVWXYZabcdefghijklmnopqrstuvwxyz0123456789'') =
       [0xDB, 0x4B, 0xFC, 0xBD, 0x4D, 0xA0, 0xCD, 0x85, 0xA6, 0x0C, 0x3C, 0x37, 0xD3, 0xFB, 0xD8, 0x80,
        0x5C, 0x77, 0xF1, 0x5F, 0xC6, 0xB1, 0xFD, 0xFE, 0x61, 0x4E, 0xE0, 0xA7, 0xC8, 0xFD, 0xB4, 0xC0]"
  by (simp add: sha2_pad_eval sha512_comp_eval) (simp only: sha2_eval, simp add: of_bits_numerals)

lemma sha384_vector1: "sha512_digest sha384_h0 6 (ascii ''abc'') =
       [0xCB, 0x00, 0x75, 0x3F, 0x45, 0xA3, 0x5E, 0x8B, 0xB5, 0xA0, 0x3D, 0x69, 0x9A, 0xC6, 0x50, 0x07,
        0x27, 0x2C, 0x32, 0xAB, 0x0E, 0xDE, 0xD1, 0x63, 0x1A, 0x8B, 0x60, 0x5A, 0x43, 0xFF, 0x5B, 0xED,
        0x80, 0x86, 0x07, 0x2B, 0xA1, 0xE7, 0xCC, 0x23, 0x58, 0xBA, 0xEC, 0xA1, 0x34, 0xC8, 0x25, 0xA7]"
  by (simp add: sha2_pad_eval sha512_comp_eval) (simp only: sha2_eval, simp add: of_bits_numerals)

lemma sha384_vector2: "sha512_digest sha384_h0 6 (ascii ''ABCDEFGHIJKLMNOPQRSTUVWXYZabcdefghijklmnopqrstuvwxyz0123456789'') =
       [0x17, 0x61, 0x33, 0x6E, 0x3F, 0x7C, 0xBF, 0xE5, 0x1D, 0xEB, 0x13, 0x7F, 0x02, 0x6F, 0x89, 0xE0,
        0x1A, 0x44, 0x8E, 0x3B, 0x1F, 0xAF, 0xA6, 0x40, 0x39, 0xC1, 0x46, 0x4E, 0xE8, 0x73, 0x2F, 0x11,
        0xA5, 0x34, 0x1A, 0x6F, 0x41, 0xE0, 0xC2, 0x02, 0x29, 0x47, 0x36, 0xED, 0x64, 0xDB, 0x1A, 0x84]"
  by (simp add: sha2_pad_eval sha512_comp_eval) (simp only: sha2_eval, simp add: of_bits_numerals)

lemma sha512_vector1: "sha512_digest sha512_h0 8 (ascii ''abc'') =
       [0xDD, 0xAF, 0x35, 0xA1, 0x93, 0x61, 0x7A, 0xBA, 0xCC, 0x41, 0x73, 0x49, 0xAE, 0x20, 0x41, 0x31,
        0x12, 0xE6, 0xFA, 0x4E, 0x89, 0xA9, 0x7E, 0xA2, 0x0A, 0x9E, 0xEE, 0xE6, 0x4B, 0x55, 0xD3, 0x9A,
        0x21, 0x92, 0x99, 0x2A, 0x27, 0x4F, 0xC1, 0xA8, 0x36, 0xBA, 0x3C, 0x23, 0xA3, 0xFE, 0xEB, 0xBD,
        0x45, 0x4D, 0x44, 0x23, 0x64, 0x3C, 0xE8, 0x0E, 0x2A, 0x9A, 0xC9, 0x4F, 0xA5, 0x4C, 0xA4, 0x9F]"
  by (simp add: sha2_pad_eval sha512_comp_eval) (simp only: sha2_eval, simp add: of_bits_numerals)

lemma sha512_vector2: "sha512_digest sha512_h0 8 (ascii ''ABCDEFGHIJKLMNOPQRSTUVWXYZabcdefghijklmnopqrstuvwxyz0123456789'') =
       [0x1E, 0x07, 0xBE, 0x23, 0xC2, 0x6A, 0x86, 0xEA, 0x37, 0xEA, 0x81, 0x0C, 0x8E, 0xC7, 0x80, 0x93,
        0x52, 0x51, 0x5A, 0x97, 0x0E, 0x92, 0x53, 0xC2, 0x6F, 0x53, 0x6C, 0xFC, 0x7A, 0x99, 0x96, 0xC4,
        0x5C, 0x83, 0x70, 0x58, 0x3E, 0x0A, 0x78, 0xFA, 0x4A, 0x90, 0x04, 0x1D, 0x71, 0xA4, 0xCE, 0xAB,
        0x74, 0x23, 0xF1, 0x9C, 0x71, 0xB9, 0xD5, 0xA3, 0xE0, 0x12, 0x49, 0xF0, 0xBE, 0xBD, 0x58, 0x94]"
  by (simp add: sha2_pad_eval sha512_comp_eval) (simp only: sha2_eval, simp add: of_bits_numerals)

subsection \<open>The interface\<close>

lemma sha2_hash_alg:
  assumes "v \<le> 3"
  shows "hash_alg (sha2_start v) (\<lambda>c a. sha2_update (Some c) (Some a))
    (\<lambda>M c. map_prod id the (sha2_final M (Some c))) (sha2_holds v) (sha2 v) (SIZE_MOD - 129)"
proof
  show "sha2_holds v (sha2_start v) []" using assms by (rule sha2_start_holds)
  show "\<exists>c'. sha2_update (Some c) (Some a) = Inr c' \<and> sha2_holds v c' (m @ data a)"
    if "sha2_holds v c m" "wf_ba a" "ba_len a \<le> SIZE_MOD - 129" for c m a
    using that sha2_update_holds[of v c m a] by (simp add: SIZE_MOD_def)
  show "\<exists>c'. map_prod id the (sha2_final M (Some c)) = (Inr (mk_ba (sha2 v m)), c') \<and> sha2_holds v c' []"
    if "sha2_holds v c m" "mem_ok M" for c m M
    using sha2_final_holds[OF that] by auto
qed

interpretation sha224: hash_alg "sha2_start 0" "\<lambda>c a. sha2_update (Some c) (Some a)"
    "\<lambda>M c. map_prod id the (sha2_final M (Some c))" "sha2_holds 0" "sha2 0" "SIZE_MOD - 129"
  by (rule sha2_hash_alg) simp

interpretation sha256: hash_alg "sha2_start 1" "\<lambda>c a. sha2_update (Some c) (Some a)"
    "\<lambda>M c. map_prod id the (sha2_final M (Some c))" "sha2_holds 1" "sha2 1" "SIZE_MOD - 129"
  by (rule sha2_hash_alg) simp

interpretation sha384: hash_alg "sha2_start 2" "\<lambda>c a. sha2_update (Some c) (Some a)"
    "\<lambda>M c. map_prod id the (sha2_final M (Some c))" "sha2_holds 2" "sha2 2" "SIZE_MOD - 129"
  by (rule sha2_hash_alg) simp

interpretation sha512: hash_alg "sha2_start 3" "\<lambda>c a. sha2_update (Some c) (Some a)"
    "\<lambda>M c. map_prod id the (sha2_final M (Some c))" "sha2_holds 3" "sha2 3" "SIZE_MOD - 129"
  by (rule sha2_hash_alg) simp

lemma sha2_vectors_eq:
  assumes v: "v \<le> 3" and M: "mem_ok M" and 1: "sha2 v M1 = H1" and 2: "sha2 v M2 = H2"
    and len: "length M1 < SIZE_MOD - 128" "length M2 < SIZE_MOD - 128"
  shows "sha2_vectors v M M1 H1 M2 H2 = Inr ()"
proof -
  have *: "\<exists>c c'. sha2_update (Some c0) (Some (mk_ba xs)) = Inr c
      \<and> sha2_final M (Some c) = (Inr (mk_ba (sha2 v xs)), Some c') \<and> sha2_holds v c' []"
    if "sha2_holds v c0 []" "length xs < SIZE_MOD - 128" for xs c0
    using sha2_update_holds[OF that(1), of "mk_ba xs"] that(2) sha2_final_holds[OF _ M, of v] by fastforce
  from *[OF sha2_start_holds[OF v] len(1)] obtain c c' where
    a: "sha2_update (Some (sha2_start v)) (Some (mk_ba M1)) = Inr c"
      "sha2_final M (Some c) = (Inr (mk_ba (sha2 v M1)), Some c')" "sha2_holds v c' []" by blast
  from *[OF a(3) len(2)] show ?thesis
    unfolding sha2_vectors_def sha2_alloc_eq[OF v M] CHECK_NOT_NULL_simps a(1,2) DO_simps prod.case
    by (auto simp: 1 2 check_digest_eq)
qed

subsection \<open>Properties\<close>

text \<open>(C9) SHA-224, SHA-256, SHA-384 and SHA-512 in fragments: \<^verbatim>\<open>sha2_update\<close> accepts any
  fragments of fewer than \<open>2\<^sup>6\<^sup>4 - 128\<close> bytes, across block boundaries and across the wrap of the 64-bit
  byte counters, and \<^verbatim>\<open>sha2_final\<close> returns the digest of their concatenation that FIPS 180-4 defines (schedule, rounds,
  constants and padding as the theory \<open>Fips180\<close> states them) and a context that holds the empty message.\<close>

theorem sha2_fragments:
  assumes "v \<le> 3" and "\<forall>a \<in> set frs. wf_ba a \<and> ba_len a < SIZE_MOD - 128" and "mem_ok M"
  shows "\<exists>ctx c c'. sha2_alloc M v = Inr (Some ctx)
     \<and> feed (\<lambda>c a. sha2_update (Some c) (Some a)) ctx frs = Inr c
     \<and> sha2_final M (Some c) = (Inr (mk_ba (sha2 v (concat (map data frs)))), Some c')
     \<and> sha2_holds v c' []"
proof -
  have "\<forall>a \<in> set frs. wf_ba a \<and> ba_len a \<le> SIZE_MOD - 129" using assms(2) by auto
  from hash_alg.feed_holds[OF sha2_hash_alg[OF assms(1)] sha2_start_holds[OF assms(1)] this]
  obtain c where "feed (\<lambda>c a. sha2_update (Some c) (Some a)) (sha2_start v) frs = Inr c"
      "sha2_holds v c (concat (map data frs))" by auto
  with sha2_final_holds[OF _ assms(3)] sha2_alloc_eq[OF assms(1,3)] show ?thesis by blast
qed

lemma sha2_fragments_witness:
  "\<exists>ctx c. sha2_alloc ideal_mem 3 = Inr (Some ctx)
     \<and> feed (\<lambda>c a. sha2_update (Some c) (Some a)) ctx [mk_ba (ascii ''a''), mk_ba (ascii ''bc'')] = Inr c
     \<and> fst (sha2_final ideal_mem (Some c)) = Inr (mk_ba (sha2 3 (ascii ''abc'')))"
  using sha2_fragments[of 3 "[mk_ba (ascii ''a''), mk_ba (ascii ''bc'')]" ideal_mem]
  by (auto simp: ascii_def SIZE_MOD_def)

text \<open>The self-test of the four SHA-2 variants succeeds on every host with memory: the
  model computes the eight digests that the source has in its tables.\<close>

theorem sha2_self_test_ok: "mem_ok M \<Longrightarrow> sha2_self_test M = Inr ()"
  unfolding sha2_self_test_def sha224_self_test_def sha256_self_test_def sha384_self_test_def sha512_self_test_def
  by (simp add: sha2_vectors_eq sha2_eq sha2_variants SIZE_MOD_def length_ascii
    sha224_vector1 sha224_vector2 sha256_vector1 sha256_vector2
    sha384_vector1 sha384_vector2 sha512_vector1 sha512_vector2)

lemma sha2_self_test_ok_witness: "sha2_self_test ideal_mem = Inr ()"
  by (rule sha2_self_test_ok) simp

end
