(* ===== verification/Sm3.thy ===== *)
theory Sm3
  imports BitEval
begin

text \<open>SM3: \<^verbatim>\<open>uapkic/src/sm3.c\<close>, against GB/T 32905-2016.\<close>

subsection \<open>The context\<close>

record Sm3Ctx =
  sm3_total :: "u32 list"
  sm3_state :: "u32 list"
  sm3_buffer :: "u8 list"

definition sizeof_Sm3Ctx :: nat where "sizeof_Sm3Ctx = 104"

subsection \<open>The macros\<close>

definition FF0 :: "u32 \<Rightarrow> u32 \<Rightarrow> u32 \<Rightarrow> u32" where "FF0 x y z = x XOR y XOR z"
definition FF1 :: "u32 \<Rightarrow> u32 \<Rightarrow> u32 \<Rightarrow> u32" where "FF1 x y z = (x AND y) OR (x AND z) OR (y AND z)"
definition GG0 :: "u32 \<Rightarrow> u32 \<Rightarrow> u32 \<Rightarrow> u32" where "GG0 x y z = x XOR y XOR z"
definition GG1 :: "u32 \<Rightarrow> u32 \<Rightarrow> u32 \<Rightarrow> u32" where "GG1 x y z = (x AND y) OR (NOT x AND z)"

text \<open>
  \<^verbatim>\<open>ROTL(x, n)\<close>; the round loops call it with \<open>n = 0\<close> once or twice, where C leaves
  \<^verbatim>\<open>x >> 32\<close> undefined. The model shifts out all bits there, which gives \<open>x\<close>. A machine that takes
  the count modulo 32 computes \<open>x >> 0 = x\<close>, and the result of the macro is \<open>x\<close> as well.
\<close>

definition sm3_ROTL :: "u32 \<Rightarrow> nat \<Rightarrow> u32" where
  "sm3_ROTL x n = push_bit n x OR drop_bit (32 - n) x"

definition P0 :: "u32 \<Rightarrow> u32" where "P0 x = x XOR sm3_ROTL x 9 XOR sm3_ROTL x 17"
definition P1 :: "u32 \<Rightarrow> u32" where "P1 x = x XOR sm3_ROTL x 15 XOR sm3_ROTL x 23"

subsection \<open>The compression function\<close>

text \<open>The table \<^verbatim>\<open>T\<close>, and the message expansion: \<^verbatim>\<open>W\<close> grows by one word per step.\<close>

definition sm3_T :: "u32 list" where
  "sm3_T = replicate 16 0x79CC4519 @ replicate 48 0x7A879D8A"

primrec sm3_expand :: "nat \<Rightarrow> u32 list \<Rightarrow> u32 list" where
  "sm3_expand 0 W = W"
| "sm3_expand (Suc n) W = sm3_expand n
     (let j = length W;
          Temp3 = (W ! (j - 16) XOR W ! (j - 9)) XOR sm3_ROTL (W ! (j - 3)) 15
      in W @ [P1 Temp3 XOR (sm3_ROTL (W ! (j - 13)) 7 XOR W ! (j - 6))])"

definition sm3_W1 :: "u32 list \<Rightarrow> u32 list" where
  "sm3_W1 W = map (\<lambda>j. W ! j XOR W ! (j + 4)) [0..<64]"

type_synonym sm3_vars = "u32 \<times> u32 \<times> u32 \<times> u32 \<times> u32 \<times> u32 \<times> u32 \<times> u32"

text \<open>The bodies of the two round loops differ in the Boolean functions only.\<close>

definition sm3_round ::
    "(u32 \<Rightarrow> u32 \<Rightarrow> u32 \<Rightarrow> u32) \<Rightarrow> (u32 \<Rightarrow> u32 \<Rightarrow> u32 \<Rightarrow> u32) \<Rightarrow> u32 \<Rightarrow> u32 \<Rightarrow> u32 \<Rightarrow> sm3_vars \<Rightarrow> sm3_vars" where
  "sm3_round FF GG Tj w w1 v = (case v of (A, B, C, D, E, F, G, H) \<Rightarrow>
     let SS1 = sm3_ROTL (sm3_ROTL A 12 + E + Tj) 7;
         SS2 = SS1 XOR sm3_ROTL A 12;
         TT1 = FF A B C + D + SS2 + w1;
         TT2 = GG E F G + H + SS1 + w
     in (TT1, A, sm3_ROTL B 9, C, P0 TT2, E, sm3_ROTL F 19, G))"

definition sm3_rounds ::
    "u32 list \<Rightarrow> u32 list \<Rightarrow> sm3_vars \<Rightarrow> sm3_vars" where
  "sm3_rounds W W1 v =
     foldl (\<lambda>v j. sm3_round FF1 GG1 (sm3_ROTL (sm3_T ! j) (j mod 32)) (W ! j) (W1 ! j) v)
       (foldl (\<lambda>v j. sm3_round FF0 GG0 (sm3_ROTL (sm3_T ! j) j) (W ! j) (W1 ! j) v) v [0..<16])
       [16..<64]"

definition sm3_process :: "u32 list \<Rightarrow> u8 list \<Rightarrow> u32 list" where
  "sm3_process st b =
     (let W = sm3_expand 52 (map (\<lambda>i. get_be32 b (4 * i)) [0..<16])
      in case sm3_rounds W (sm3_W1 W) (st ! 0, st ! 1, st ! 2, st ! 3, st ! 4, st ! 5, st ! 6, st ! 7) of
        (A, B, C, D, E, F, G, H) \<Rightarrow>
          [st ! 0 XOR A, st ! 1 XOR B, st ! 2 XOR C, st ! 3 XOR D,
           st ! 4 XOR E, st ! 5 XOR F, st ! 6 XOR G, st ! 7 XOR H])"

subsection \<open>Operations\<close>

definition sm3_iv :: "u32 list" where
  "sm3_iv = [0x7380166F, 0x4914B2B9, 0x172442D7, 0xDA8A0600, 0xA96F30BC, 0x163138AA, 0xE38DEE4D, 0xB0FB0E4E]"

text \<open>\<^verbatim>\<open>sm3_init\<close> clears the whole context.\<close>

definition sm3_init :: Sm3Ctx where
  "sm3_init = \<lparr>sm3_total = [0, 0], sm3_state = sm3_iv, sm3_buffer = replicate 64 0\<rparr>"

definition sm3_alloc :: "mem \<Rightarrow> Sm3Ctx option res" where
  "sm3_alloc M = to_ptr (CALLOC_CHECKED M sizeof_Sm3Ctx (Inr sm3_init))"

definition sm3_copy_with_alloc :: "mem \<Rightarrow> Sm3Ctx option \<Rightarrow> Sm3Ctx option res" where
  "sm3_copy_with_alloc M ctx = to_ptr (NOT_NULL ctx (\<lambda>ctx. CALLOC_CHECKED M sizeof_Sm3Ctx (Inr ctx)))"

text \<open>The two counters; \<^verbatim>\<open>ilen\<close> is cut to 32 bits.\<close>

definition sm3_count :: "u32 list \<Rightarrow> nat \<Rightarrow> u32 list" where
  "sm3_count tot ilen =
     (let lo = tot ! 0 + of_nat ilen
      in [lo, tot ! 1 + (if lo < of_nat ilen then 1 else 0)])"

definition sm3_update :: "Sm3Ctx option \<Rightarrow> ByteArray option \<Rightarrow> Sm3Ctx res" where
  "sm3_update ctx msg = NOT_NULL ctx (\<lambda>ctx. NOT_NULL msg (\<lambda>msg.
     let input = data msg; ilen = ba_len msg
     in if ilen = 0 then Inr ctx
        else
          let left = unat (sm3_total ctx ! 0 AND 0x3F); fill = 64 - left;
              tot = sm3_count (sm3_total ctx) ilen
          in DO (if left \<noteq> 0 \<and> ilen \<ge> fill
                 then DO (rd input 0 fill) (\<lambda>xs. DO (wr (sm3_buffer ctx) left xs) (\<lambda>buffer.
                      Inr (sm3_process (sm3_state ctx) buffer, buffer, drop fill input, ilen - fill, 0)))
                 else Inr (sm3_state ctx, sm3_buffer ctx, input, ilen, left)) (\<lambda>(st, buffer, input, ilen, left).
             DO (for_blocks 64 (\<lambda>st b. Inr (sm3_process st b)) input 0 ilen st) (\<lambda>(st, i).
             DO (if ilen - i > 0
                 then DO (rd input i (ilen - i)) (\<lambda>xs. wr buffer left xs) else Inr buffer) (\<lambda>buffer.
             Inr \<lparr>sm3_total = tot, sm3_state = st, sm3_buffer = buffer\<rparr>)))))"

text \<open>The digest is allocated before the context is touched: a failure leaves it as it was.\<close>

definition sm3_final :: "mem \<Rightarrow> Sm3Ctx option \<Rightarrow> ByteArray res \<times> Sm3Ctx option" where
  "sm3_final M ctx = (case ctx of None \<Rightarrow> (Inl RET_INVALID_PARAM, None)
     | Some c \<Rightarrow>
         DO_ST (CHECK_NOT_NULL (ba_alloc_by_len M 32) Inr) (Some c) (\<lambda>H.
         let last = unat (sm3_total c ! 0 AND 0x3F);
             high = drop_bit 29 (sm3_total c ! 0) OR push_bit 3 (sm3_total c ! 1);
             low = push_bit 3 (sm3_total c ! 0)
         in DO_ST (wr (sm3_buffer c) last [0x80]) (Some c) (\<lambda>buffer.
            let last = last + 1
            in DO_ST (wr buffer last (replicate (64 - last) 0)) (Some c) (\<lambda>buffer.
               DO_ST (if last > 56
                      then DO (wr buffer 0 (replicate 56 0)) (\<lambda>b. Inr (sm3_process (sm3_state c) buffer, b))
                      else Inr (sm3_state c, buffer)) (Some c) (\<lambda>(st, buffer).
               DO_ST (wr buffer 56 (put_be32 high @ put_be32 low)) (Some c) (\<lambda>buffer.
               let st = sm3_process st buffer
               in DO_ST (wr (data H) 0 (put_be32 (st ! 0) @ put_be32 (st ! 1) @ put_be32 (st ! 2)
                     @ put_be32 (st ! 3) @ put_be32 (st ! 4) @ put_be32 (st ! 5) @ put_be32 (st ! 6)
                     @ put_be32 (st ! 7))) (Some c) (\<lambda>xs.
                  (Inr (set_data H xs), Some sm3_init))))))))"

definition sm3_get_block_size :: "Sm3Ctx option \<Rightarrow> nat" where
  "sm3_get_block_size ctx = 64"

definition sm3_self_test :: "mem \<Rightarrow> unit res" where
  "sm3_self_test M =
     CHECK_NOT_NULL (sm3_alloc M) (\<lambda>ctx.
     DO (sm3_update (Some ctx) (Some (mk_ba (ascii ''abc'')))) (\<lambda>ctx.
     case sm3_final M (Some ctx) of (r, ctx) \<Rightarrow> DO r (\<lambda>H.
     DO (check_digest H
       [0x66, 0xC7, 0xF0, 0xF4, 0x62, 0xEE, 0xED, 0xD9, 0xD1, 0xF2, 0xD4, 0x6B, 0xDC, 0x10, 0xE4, 0xE2,
        0x41, 0x67, 0xC4, 0x87, 0x5C, 0xF2, 0xF7, 0xA2, 0x29, 0x7D, 0xA0, 0x2B, 0x8F, 0x4B, 0xA8, 0xE0]) (\<lambda>_.
     DO (sm3_update ctx (Some (mk_ba (ascii
       ''abcdabcdabcdabcdabcdabcdabcdabcdabcdabcdabcdabcdabcdabcdabcdabcd'')))) (\<lambda>ctx.
     case sm3_final M (Some ctx) of (r, ctx) \<Rightarrow> DO r (\<lambda>H.
     check_digest H
       [0xDE, 0xBE, 0x9F, 0xF9, 0x22, 0x75, 0xB8, 0xA1, 0x38, 0x60, 0x48, 0x89, 0xC1, 0x8E, 0x5A, 0x4D,
        0x6F, 0xDB, 0x70, 0xE5, 0x38, 0x7E, 0x57, 0x65, 0x29, 0x3D, 0xCB, 0xA3, 0x9C, 0x0C, 0x57, 0x32]))))))"

subsection \<open>GB/T 32905-2016\<close>

text \<open>The message words and the rounds as the standard writes them.\<close>

fun sm3_W :: "u8 list \<Rightarrow> nat \<Rightarrow> u32" where
  "sm3_W b j = (if j < 16 then get_be32 b (4 * j)
     else P1 (sm3_W b (j - 16) XOR sm3_W b (j - 9) XOR sm3_ROTL (sm3_W b (j - 3)) 15)
       XOR sm3_ROTL (sm3_W b (j - 13)) 7 XOR sm3_W b (j - 6))"

declare sm3_W.simps [simp del]

definition sm3_ref_round :: "u8 list \<Rightarrow> sm3_vars \<Rightarrow> nat \<Rightarrow> sm3_vars" where
  "sm3_ref_round b v j = (case v of (A, B, C, D, E, F, G, H) \<Rightarrow>
     let T = (if j < 16 then 0x79CC4519 else 0x7A879D8A);
         FF = (if j < 16 then FF0 else FF1);
         GG = (if j < 16 then GG0 else GG1);
         SS1 = sm3_ROTL (sm3_ROTL A 12 + E + sm3_ROTL T (j mod 32)) 7;
         SS2 = SS1 XOR sm3_ROTL A 12;
         TT1 = FF A B C + D + SS2 + (sm3_W b j XOR sm3_W b (j + 4));
         TT2 = GG E F G + H + SS1 + sm3_W b j
     in (TT1, A, sm3_ROTL B 9, C, P0 TT2, E, sm3_ROTL F 19, G))"

definition sm3_CF :: "u32 list \<Rightarrow> u8 list \<Rightarrow> u32 list" where
  "sm3_CF V b = (case foldl (sm3_ref_round b) (V ! 0, V ! 1, V ! 2, V ! 3, V ! 4, V ! 5, V ! 6, V ! 7) [0..<64] of
     (A, B, C, D, E, F, G, H) \<Rightarrow>
       [V ! 0 XOR A, V ! 1 XOR B, V ! 2 XOR C, V ! 3 XOR D, V ! 4 XOR E, V ! 5 XOR F, V ! 6 XOR G, V ! 7 XOR H])"

definition sm3 :: "u8 list \<Rightarrow> u8 list" where
  "sm3 m = concat (map put_be32 (foldl sm3_CF sm3_iv
     (chunks 64 (m @ md_pad 64 (length m) (put_be64 (of_nat (8 * length m)))))))"

subsection \<open>The compression is the one of the standard\<close>

lemma sm3_expand_eq:
  assumes "16 \<le> k"
  shows "sm3_expand n (map (sm3_W b) [0..<k]) = map (sm3_W b) [0..<k + n]"
  using assms
proof (induction n arbitrary: k)
  case (Suc n)
  let ?W = "map (sm3_W b) [0..<k]"
  have "(let j = length ?W; Temp3 = (?W ! (j - 16) XOR ?W ! (j - 9)) XOR sm3_ROTL (?W ! (j - 3)) 15
      in ?W @ [P1 Temp3 XOR (sm3_ROTL (?W ! (j - 13)) 7 XOR ?W ! (j - 6))]) = map (sm3_W b) [0..<Suc k]"
    using Suc.prems sm3_W.simps[of b k] by (simp add: Let_def xor.assoc)
  then have "sm3_expand (Suc n) ?W = sm3_expand n (map (sm3_W b) [0..<Suc k])"
    by (simp only: sm3_expand.simps)
  also have "\<dots> = map (sm3_W b) [0..<Suc k + n]" using Suc.prems by (intro Suc.IH) simp
  finally show ?case by simp
qed simp

lemma sm3_words_eq: "sm3_expand 52 (map (\<lambda>i. get_be32 b (4 * i)) [0..<16]) = map (sm3_W b) [0..<68]"
proof -
  have "map (\<lambda>i. get_be32 b (4 * i)) [0..<16] = map (sm3_W b) [0..<16]"
    by (rule map_cong) (simp_all add: sm3_W.simps)
  then show ?thesis using sm3_expand_eq[of 16 52 b] by (simp only: order_refl) simp
qed

lemma foldl_cong_in:
  "(\<And>v j. j \<in> set js \<Longrightarrow> f v j = g v j) \<Longrightarrow> foldl f v js = foldl g v js"
  by (induction js arbitrary: v) simp_all

lemma sm3_process_CF: "sm3_process st b = sm3_CF st b"
proof -
  define W where "W = map (sm3_W b) [0..<68]"
  have w: "W ! j = sm3_W b j" "sm3_W1 W ! j = sm3_W b j XOR sm3_W b (j + 4)" if "j < 64" for j
    using that by (simp_all add: W_def sm3_W1_def)
  have a: "sm3_round FF0 GG0 (sm3_ROTL (sm3_T ! j) j) (W ! j) (sm3_W1 W ! j) v = sm3_ref_round b v j"
    if "j < 16" for v j
    using that w[of j] by (simp add: sm3_round_def sm3_ref_round_def sm3_T_def nth_append split: prod.split)
  have c: "sm3_round FF1 GG1 (sm3_ROTL (sm3_T ! j) (j mod 32)) (W ! j) (sm3_W1 W ! j) v = sm3_ref_round b v j"
    if "16 \<le> j" "j < 64" for v j
    using that w[of j] by (simp add: sm3_round_def sm3_ref_round_def sm3_T_def nth_append split: prod.split)
  have "sm3_rounds W (sm3_W1 W) v = foldl (sm3_ref_round b) (foldl (sm3_ref_round b) v [0..<16]) [16..<64]" for v
  proof -
    have "foldl (\<lambda>v j. sm3_round FF0 GG0 (sm3_ROTL (sm3_T ! j) j) (W ! j) (sm3_W1 W ! j) v) v [0..<16]
        = foldl (sm3_ref_round b) v [0..<16]"
      by (rule foldl_cong_in, rule a) (simp only: set_upt atLeastLessThan_iff)
    moreover have "foldl (\<lambda>v j. sm3_round FF1 GG1 (sm3_ROTL (sm3_T ! j) (j mod 32)) (W ! j) (sm3_W1 W ! j) v) u [16..<64]
        = foldl (sm3_ref_round b) u [16..<64]" for u
      by (rule foldl_cong_in, rule c) (simp_all only: set_upt atLeastLessThan_iff)
    ultimately show ?thesis by (simp only: sm3_rounds_def)
  qed
  moreover have "[0..<64] = [0..<16] @ [16..<(64::nat)]"
    using upt_add_eq_append[of 0 16 48] by simp
  ultimately have "sm3_rounds W (sm3_W1 W) v = foldl (sm3_ref_round b) v [0..<64]" for v
    by (simp only: foldl_append)
  then show ?thesis
    by (simp only: sm3_process_def sm3_words_eq Let_def sm3_CF_def flip: W_def)
qed

subsection \<open>Update appends\<close>

definition sm3_holds :: "Sm3Ctx \<Rightarrow> u8 list \<Rightarrow> bool" where
  "sm3_holds c m \<longleftrightarrow>
     absorbed 64 sm3_process sm3_iv (sm3_state c) (sm3_buffer c) m \<and> length (sm3_buffer c) = 64 \<and>
     sm3_total c = [of_nat (length m), of_nat (length m div 2 ^ 32)]"

lemma sm3_left: "unat (of_nat n AND 0x3F :: u32) = n mod 64"
proof -
  have "(of_nat n AND 0x3F :: u32) = take_bit 6 (of_nat n)"
    by (simp add: take_bit_eq_mask mask_eq_exp_minus_1)
  moreover have "unat (take_bit 6 (of_nat n :: u32)) = take_bit 6 (take_bit 32 n)"
    by (simp only: unsigned_take_bit_eq unat_of_nat) (simp add: take_bit_eq_mod)
  ultimately show ?thesis by (simp add: take_bit_eq_mod mod_mod_cancel)
qed

lemma sm3_count_eq:
  assumes "k < 2 ^ 32"
  shows "sm3_count [of_nat n, of_nat (n div 2 ^ 32)] k = [of_nat (n + k), of_nat ((n + k) div 2 ^ 32)]"
proof -
  have "k < 2 ^ LENGTH(32)" using assms by simp
  from carry_add[where 'a=32, OF this, of n] show ?thesis by (simp add: sm3_count_def Let_def)
qed

text \<open>The part of the update after the block that was waiting has been completed.\<close>

lemma sm3_rest:
  assumes ab: "absorbed 64 sm3_process sm3_iv st buf m" and lb: "length buf = 64"
    and left: "left = length m mod 64" and d: "left = 0 \<or> left + length d < 64"
  shows "\<exists>st' i. for_blocks 64 (\<lambda>st b. Inr (sm3_process st b)) d 0 (length d) st = Inr (st', i) \<and>
    (\<exists>buf'. (if length d - i > 0 then DO (rd d i (length d - i)) (\<lambda>xs. wr buf left xs) else Inr buf) = Inr buf'
      \<and> length buf' = 64 \<and> absorbed 64 sm3_process sm3_iv st' buf' (m @ d))"
proof -
  define i where "i = 64 * (length d div 64)"
  define st' where "st' = foldl sm3_process st (chunks 64 d)"
  define t where "t = tail_of 64 d"
  have f: "for_blocks 64 (\<lambda>st b. Inr (sm3_process st b)) d 0 (length d) st = Inr (st', i)"
    using for_blocks_eq[of 64 0 "length d" d "\<lambda>_. True" "\<lambda>st b. Inr (sm3_process st b)" sm3_process st]
    by (simp add: st'_def i_def)
  have t: "length t = length d - i" "rd d i (length d - i) = Inr t"
    using rd_rest[of 0 d 64] by (simp_all add: t_def i_def minus_mult_div_eq_mod)
  have fit: "left + length t \<le> 64"
    using d by (auto simp: t_def intro: less_imp_le)
  define buf' where "buf' = take left buf @ t @ drop (left + length t) buf"
  have b: "(if length d - i > 0 then DO (rd d i (length d - i)) (\<lambda>xs. wr buf left xs) else Inr buf) = Inr buf'"
    using fit lb t by (auto simp: buf'_def)
  have "absorbed 64 sm3_process sm3_iv st' buf' (m @ d)"
  proof (cases "left = 0")
    case True
    then have "64 dvd length m" using left by (simp add: mod_eq_0_iff_dvd)
    then have "tail_of 64 m = []" by (rule mod_0_tail_of)
    then have "chunks 64 (m @ d) = chunks 64 m @ chunks 64 d" "tail_of 64 (m @ d) = t"
      using chunks_tail_append[of 64 m d] by (simp_all add: t_def)
    moreover have "length (m @ d) mod 64 = length t"
      using calculation(2) length_tail_of[of 64 "m @ d"] by simp
    moreover have "length buf' = 64" using fit lb by (simp add: buf'_def)
    ultimately show ?thesis using ab True by (simp add: absorbed_def st'_def buf'_def)
  next
    case False
    then have lt: "left + length d < 64" using d by simp
    then have "t = d" "st' = st" by (simp_all add: t_def st'_def tail_of_short chunks_short)
    then show ?thesis using absorbed_short[OF ab left lt] by (simp add: buf'_def)
  qed
  moreover have "length buf' = 64" using fit lb by (simp add: buf'_def)
  ultimately show ?thesis using f b by blast
qed

lemma sm3_update_holds:
  assumes h: "sm3_holds c m" and a: "wf_ba a" and small: "ba_len a < 2 ^ 32"
  shows "\<exists>c'. sm3_update (Some c) (Some a) = Inr c' \<and> sm3_holds c' (m @ data a)"
proof (cases "ba_len a = 0")
  case True
  then have "data a = []" using a by (simp add: wf_ba_def)
  then show ?thesis using h True by (simp add: sm3_update_def)
next
  case False
  define d where "d = data a"
  define n where "n = ba_len a"
  define left where "left = length m mod 64"
  define st where "st = sm3_state c"
  define buf where "buf = sm3_buffer c"
  have ad: "ba_len a = n" "data a = d" "length d = n" using a by (simp_all add: d_def n_def)
  from h have ab: "absorbed 64 sm3_process sm3_iv st buf m" and lb: "length buf = 64"
    and tot: "sm3_total c = [of_nat (length m), of_nat (length m div 2 ^ 32)]"
    by (simp_all add: sm3_holds_def st_def buf_def)
  have l: "unat (sm3_total c ! 0 AND 0x3F) = left" using sm3_left by (simp add: tot left_def)
  have cnt: "sm3_count (sm3_total c) n = [of_nat (length (m @ d)), of_nat (length (m @ d) div 2 ^ 32)]"
    using sm3_count_eq[OF small, of "length m"] ad by (simp add: tot)
  have lt: "left < 64" by (simp add: left_def)
  define head where "head = (if left \<noteq> 0 \<and> n \<ge> 64 - left
      then DO (rd d 0 (64 - left)) (\<lambda>xs. DO (wr buf left xs) (\<lambda>buffer.
             Inr (sm3_process st buffer, buffer, drop (64 - left) d, n - (64 - left), 0)))
      else Inr (st, buf, d, n, left))"
  obtain st1 buf1 d1 left1 m1 where hd: "head = Inr (st1, buf1, d1, length d1, left1)"
    and ab1: "absorbed 64 sm3_process sm3_iv st1 buf1 m1" and lb1: "length buf1 = 64"
    and left1: "left1 = length m1 mod 64" "left1 = 0 \<or> left1 + length d1 < 64" and md: "m1 @ d1 = m @ d"
  proof (cases "left \<noteq> 0 \<and> n \<ge> 64 - left")
    case True
    define r where "r = 64 - left"
    define b where "b = take left buf @ take r d"
    have r: "r \<le> n" "left + r = 64" using True lt by (simp_all add: r_def)
    have lb': "length b = 64" using r ad lb by (simp add: b_def)
    have "head = Inr (sm3_process st b, b, drop r d, length (drop r d), 0)"
      using True r ad lb by (simp add: head_def b_def flip: r_def)
    moreover have "absorbed 64 sm3_process sm3_iv (sm3_process st b) b (m @ take r d)"
      by (rule absorbed_full[OF ab left_def _ _ r_def]) (use r ad lb' in \<open>simp_all add: b_def\<close>)
    moreover have "length (m @ take r d) mod 64 = 0"
      using mod_full[of r 64 "length m" r] r ad by (simp add: r_def left_def)
    ultimately show ?thesis using that[of "sm3_process st b" b "drop r d" 0 "m @ take r d"] lb' by simp
  next
    case False
    then have "head = Inr (st, buf, d, length d, left)" by (simp only: head_def False if_False ad)
    moreover have "left = 0 \<or> left + length d < 64" using False ad lt by auto
    ultimately show ?thesis using that[OF _ ab lb left_def] by blast
  qed
  from sm3_rest[OF ab1 lb1 left1] obtain st' i buf' where
    f: "for_blocks 64 (\<lambda>st b. Inr (sm3_process st b)) d1 0 (length d1) st1 = Inr (st', i)"
      "(if length d1 - i > 0 then DO (rd d1 i (length d1 - i)) (\<lambda>xs. wr buf1 left1 xs) else Inr buf1) = Inr buf'"
      "length buf' = 64" "absorbed 64 sm3_process sm3_iv st' buf' (m1 @ d1)" by blast
  have "sm3_update (Some c) (Some a) = Inr \<lparr>sm3_total = sm3_count (sm3_total c) n, sm3_state = st', sm3_buffer = buf'\<rparr>"
    using False
    unfolding sm3_update_def NOT_NULL_simps Let_def l ad st_def [symmetric] buf_def [symmetric]
      head_def [symmetric] hd DO_simps prod.case f
    by simp
  then show ?thesis using f(3,4) by (simp add: sm3_holds_def cnt md ad)
qed

subsection \<open>Final computes the digest\<close>

lemma sm3_init_holds: "sm3_holds sm3_init []"
  by (simp add: sm3_holds_def sm3_init_def absorbed_Nil)

lemma sm3_alloc_eq: "mem_ok M \<Longrightarrow> sm3_alloc M = Inr (Some sm3_init)"
  by (simp add: sm3_alloc_def)

lemma length_sm3_process: "length (sm3_process st b) = 8"
  by (simp add: sm3_process_def Let_def split: prod.split)

lemma sm3_pad_step:
  assumes ab: "absorbed 64 sm3_process sm3_iv st buf m" and lb: "length buf = 64"
    and i: "i = length m mod 64" and L: "length L = 8"
  shows "\<exists>st' buf'. (if Suc i > 56
        then DO (wr (take i buf @ 0x80 # replicate (63 - i) 0) 0 (replicate 56 0))
          (\<lambda>b. Inr (sm3_process st (take i buf @ 0x80 # replicate (63 - i) 0), b))
        else Inr (st, take i buf @ 0x80 # replicate (63 - i) 0)) = Inr (st', buf') \<and>
    length buf' = 64 \<and>
    sm3_process st' (take 56 buf' @ L) = foldl sm3_process sm3_iv (chunks 64 (m @ md_pad 64 (length m) L))"
proof -
  define b where "b = take i buf @ 0x80 # replicate (63 - i) 0"
  have i64: "i < 64" using i by simp
  have t: "take i buf = tail_of 64 m" and st: "st = foldl sm3_process sm3_iv (chunks 64 m)"
    using ab i by (simp_all add: absorbed_def)
  have lb': "length b = 64" using lb i64 by (simp add: b_def)
  show ?thesis unfolding b_def [symmetric]
  proof (cases "Suc i > 56")
    case True
    have "chunks 64 (m @ md_pad 64 (length m) L) = chunks 64 m @ [b, replicate 56 0 @ L]"
      using md_pad_two[of 64 m L] True L i t by (simp add: b_def)
    then show "\<exists>st' buf'. (if Suc i > 56 then DO (wr b 0 (replicate 56 0)) (\<lambda>c. Inr (sm3_process st b, c))
        else Inr (st, b)) = Inr (st', buf') \<and> length buf' = 64 \<and>
      sm3_process st' (take 56 buf' @ L) = foldl sm3_process sm3_iv (chunks 64 (m @ md_pad 64 (length m) L))"
      using True lb' by (simp add: st)
  next
    case False
    have "take 56 b = take i buf @ 0x80 # replicate (55 - i) 0"
    proof -
      have "56 - i = Suc (55 - i)" "min (55 - i) (63 - i) = 55 - i" using False by simp_all
      then show ?thesis using False lb by (simp add: b_def)
    qed
    then have "chunks 64 (m @ md_pad 64 (length m) L) = chunks 64 m @ [take 56 b @ L]"
      using md_pad_one[of m 64 L] False L i t by simp
    then show "\<exists>st' buf'. (if Suc i > 56 then DO (wr b 0 (replicate 56 0)) (\<lambda>c. Inr (sm3_process st b, c))
        else Inr (st, b)) = Inr (st', buf') \<and> length buf' = 64 \<and>
      sm3_process st' (take 56 buf' @ L) = foldl sm3_process sm3_iv (chunks 64 (m @ md_pad 64 (length m) L))"
      using False lb' by (simp add: st)
  qed
qed

text \<open>The two length words are the eight bytes of the bit length.\<close>

lemma sm3_length_field:
  "put_be32 (drop_bit 29 (of_nat n) OR push_bit 3 (of_nat (n div 2 ^ 32))) @ put_be32 (push_bit 3 (of_nat n))
     = put_be64 (of_nat (8 * n))"
proof -
  have a: "push_bit 3 (of_nat n) = (of_nat (8 * n) :: u32)"
    by (simp add: push_bit_eq_mult mult.commute)
  have b: "drop_bit 29 (of_nat n) OR push_bit 3 (of_nat (n div 2 ^ 32)) = (of_nat (8 * n div 2 ^ 32) :: u32)"
  proof -
    have "8 * n div 2 ^ 32 = drop_bit 32 (push_bit 3 n)" "n div 2 ^ 32 = drop_bit 32 n"
      by (simp_all add: drop_bit_eq_div push_bit_eq_mult mult.commute)
    then show ?thesis by (intro bit_word_eqI) (auto simp: bit_simps)
  qed
  have c: "put_be32 (of_nat (k div 2 ^ 32)) @ put_be32 (of_nat k) = put_be64 (of_nat k)" for k
  proof -
    have "k div 2 ^ 32 = drop_bit 32 k" by (simp add: drop_bit_eq_div)
    then show ?thesis
      unfolding put_be32_def put_be64_def
      by (simp, intro conjI bit_word_eqI) (auto simp: bit_simps)
  qed
  show ?thesis unfolding a b by (rule c)
qed

lemma sm3_final_holds:
  assumes h: "sm3_holds c m" and M: "mem_ok M"
  shows "sm3_final M (Some c) = (Inr (mk_ba (sm3 m)), Some sm3_init)"
proof -
  define i where "i = length m mod 64"
  define st where "st = sm3_state c"
  define buf where "buf = sm3_buffer c"
  define L where "L = put_be64 (of_nat (8 * length m))"
  have i64: "i < 64" by (simp add: i_def)
  from h have ab: "absorbed 64 sm3_process sm3_iv st buf m" and lb: "length buf = 64"
    and tot: "sm3_total c = [of_nat (length m), of_nat (length m div 2 ^ 32)]"
    by (simp_all add: sm3_holds_def st_def buf_def)
  have l: "unat (sm3_total c ! 0 AND 0x3F) = i" using sm3_left by (simp add: tot i_def)
  have L: "put_be32 (drop_bit 29 (sm3_total c ! 0) OR push_bit 3 (sm3_total c ! 1)) @ put_be32 (push_bit 3 (sm3_total c ! 0)) = L"
    "length L = 8" using sm3_length_field[of "length m"] by (simp_all add: tot L_def)
  have w1: "wr buf i [0x80] = Inr (take i buf @ [0x80] @ drop (Suc i) buf)"
    using lb i64 by simp
  have w2: "wr (take i buf @ [0x80] @ drop (Suc i) buf) (i + 1) (replicate (64 - (i + 1)) 0)
      = Inr (take i buf @ 0x80 # replicate (63 - i) 0)"
    using lb i64 by simp
  from sm3_pad_step[OF ab lb i_def L(2)] obtain st' buf' where
    p: "(if i + 1 > 56
        then DO (wr (take i buf @ 0x80 # replicate (63 - i) 0) 0 (replicate 56 0))
          (\<lambda>b. Inr (sm3_process st (take i buf @ 0x80 # replicate (63 - i) 0), b))
        else Inr (st, take i buf @ 0x80 # replicate (63 - i) 0)) = Inr (st', buf')"
      "length buf' = 64"
      "sm3_process st' (take 56 buf' @ L) = foldl sm3_process sm3_iv (chunks 64 (m @ md_pad 64 (length m) L))"
    by auto
  have w3: "wr buf' 56 L = Inr (take 56 buf' @ L)" using p(2) L(2) by simp
  define s8 where "s8 = sm3_process st' (take 56 buf' @ L)"
  obtain s0 s1 s2 s3 s4 s5 s6 s7 where s8: "s8 = [s0, s1, s2, s3, s4, s5, s6, s7]"
    using length_sm3_process[of st' "take 56 buf' @ L"] by (auto simp: s8_def length_Suc_conv numeral_eq_Suc)
  define dg where "dg = put_be32 s0 @ put_be32 s1 @ put_be32 s2 @ put_be32 s3 @ put_be32 s4 @ put_be32 s5
    @ put_be32 s6 @ put_be32 s7"
  have "sm3_CF = sm3_process" by (intro ext) (rule sm3_process_CF [symmetric])
  then have dg: "dg = sm3 m"
    unfolding sm3_def L_def [symmetric] by (simp only: p(3) [symmetric] s8_def [symmetric] s8) (simp add: dg_def)
  have ldg: "length dg = 32" by (simp add: dg_def)
  have nth: "s8 ! 0 = s0" "s8 ! 1 = s1" "s8 ! 2 = s2" "s8 ! 3 = s3" "s8 ! 4 = s4" "s8 ! 5 = s5" "s8 ! 6 = s6" "s8 ! 7 = s7"
    by (simp_all add: s8)
  have w4: "wr (data (mk_ba (fresh M 32))) 0 dg = Inr dg" using ldg by simp
  have sd: "set_data (mk_ba (fresh M 32)) dg = mk_ba dg" using ldg by (simp add: set_data_def mk_ba_def del: raw_ba)
  have "sm3_final M (Some c) = (Inr (mk_ba dg), Some sm3_init)"
    unfolding sm3_final_def option.case ba_alloc_by_len_eq[OF M] CHECK_NOT_NULL_simps DO_ST_simps Let_def l
      buf_def [symmetric] st_def [symmetric] w1 w2 p(1) prod.case L(1) w3 s8_def [symmetric] nth dg_def [symmetric] w4 sd
    by (rule refl)
  then show ?thesis using dg by simp
qed

interpretation sm3: hash_alg sm3_init "\<lambda>c a. sm3_update (Some c) (Some a)"
    "\<lambda>M c. map_prod id the (sm3_final M (Some c))" sm3_holds sm3 "2 ^ 32 - 1"
proof unfold_locales
  show "sm3_holds sm3_init []" by (rule sm3_init_holds)
  show "\<exists>c'. sm3_update (Some c) (Some a) = Inr c' \<and> sm3_holds c' (m @ data a)"
    if "sm3_holds c m" "wf_ba a" "ba_len a \<le> 2 ^ 32 - 1" for c m a
    using that sm3_update_holds[of c m a] by simp
  show "\<exists>c'. map_prod id the (sm3_final M (Some c)) = (Inr (mk_ba (sm3 m)), c') \<and> sm3_holds c' []"
    if "sm3_holds c m" "mem_ok M" for c m M
    using sm3_final_holds[OF that] sm3_init_holds by auto
qed

subsection \<open>Test vectors in the kernel\<close>

text \<open>The rotated constants \<^verbatim>\<open>ROTL(T[j], j)\<close> of the two loops.\<close>

definition sm3_Tj0 :: "u32 list" where
  "sm3_Tj0 = [0x79CC4519, 0xF3988A32, 0xE7311465, 0xCE6228CB, 0x9CC45197, 0x3988A32F, 0x7311465E, 0xE6228CBC,
     0xCC451979, 0x988A32F3, 0x311465E7, 0x6228CBCE, 0xC451979C, 0x88A32F39, 0x11465E73, 0x228CBCE6]"

definition sm3_Tj1 :: "u32 list" where
  "sm3_Tj1 = [0x9D8A7A87, 0x3B14F50F, 0x7629EA1E, 0xEC53D43C, 0xD8A7A879, 0xB14F50F3, 0x629EA1E7, 0xC53D43CE,
     0x8A7A879D, 0x14F50F3B, 0x29EA1E76, 0x53D43CEC, 0xA7A879D8, 0x4F50F3B1, 0x9EA1E762, 0x3D43CEC5,
     0x7A879D8A, 0xF50F3B14, 0xEA1E7629, 0xD43CEC53, 0xA879D8A7, 0x50F3B14F, 0xA1E7629E, 0x43CEC53D,
     0x879D8A7A, 0x0F3B14F5, 0x1E7629EA, 0x3CEC53D4, 0x79D8A7A8, 0xF3B14F50, 0xE7629EA1, 0xCEC53D43,
     0x9D8A7A87, 0x3B14F50F, 0x7629EA1E, 0xEC53D43C, 0xD8A7A879, 0xB14F50F3, 0x629EA1E7, 0xC53D43CE,
     0x8A7A879D, 0x14F50F3B, 0x29EA1E76, 0x53D43CEC, 0xA7A879D8, 0x4F50F3B1, 0x9EA1E762, 0x3D43CEC5]"

lemma sm3_ROTL_eval: "sm3_ROTL x n = (push_bit n x OR drop_bit (32 - n) x) AND 0xFFFFFFFF"
  unfolding u32_norm [symmetric] sm3_ROTL_def ..

lemma sm3_Tj_eq:
  "map (\<lambda>j. sm3_ROTL (sm3_T ! j) j) [0..<16] = sm3_Tj0"
  "map (\<lambda>j. sm3_ROTL (sm3_T ! (j + 16)) ((j + 16) mod 32)) [0..<48] = sm3_Tj1"
  by (simp_all add: sm3_Tj0_def sm3_Tj1_def sm3_T_def sm3_ROTL_eval upt_rec replicate_numeral)

text \<open>The rounds on lists.\<close>

definition sm3_run where
  "sm3_run FF GG ts ws xs v = foldl (\<lambda>v (t, w, x). sm3_round FF GG t w x v) v (zip ts (zip ws xs))"

lemma foldl_zip3:
  assumes "length ts = n" and "a + n \<le> length ws" and "a + n \<le> length xs"
  shows "foldl (\<lambda>v j. f (ts ! (j - a)) (ws ! j) (xs ! j) v) v [a..<a + n]
    = foldl (\<lambda>v (t, w, x). f t w x v) v (zip ts (zip (drop a ws) (drop a xs)))"
proof -
  have "zip ts (zip (drop a ws) (drop a xs)) = map (\<lambda>j. (ts ! (j - a), ws ! j, xs ! j)) [a..<a + n]"
    using assms by (intro nth_equalityI) (simp_all add: add.commute)
  then show ?thesis by (simp add: foldl_map)
qed

definition sm3_mix :: "u32 \<Rightarrow> u32 \<Rightarrow> u32 \<Rightarrow> u32 \<Rightarrow> u32 \<Rightarrow> u32 \<Rightarrow> u32 \<Rightarrow> u32 \<Rightarrow> sm3_vars" where
  "sm3_mix TT1 TT2 A B C E F G = (TT1, A, sm3_ROTL B 9, C, P0 TT2, E, sm3_ROTL F 19, G)"

definition sm3_mid ::
    "(u32 \<Rightarrow> u32 \<Rightarrow> u32 \<Rightarrow> u32) \<Rightarrow> (u32 \<Rightarrow> u32 \<Rightarrow> u32 \<Rightarrow> u32) \<Rightarrow> u32 \<Rightarrow> u32 \<Rightarrow> u32 \<Rightarrow> u32 \<Rightarrow> sm3_vars \<Rightarrow> sm3_vars" where
  "sm3_mid FF GG SS1 A12 w x v = (case v of (A, B, C, D, E, F, G, H) \<Rightarrow>
     sm3_mix (FF A B C + D + (SS1 XOR A12) + x) (GG E F G + H + SS1 + w) A B C E F G)"

definition sm3_mid2 ::
    "(u32 \<Rightarrow> u32 \<Rightarrow> u32 \<Rightarrow> u32) \<Rightarrow> (u32 \<Rightarrow> u32 \<Rightarrow> u32 \<Rightarrow> u32) \<Rightarrow> u32 \<Rightarrow> u32 \<Rightarrow> u32 \<Rightarrow> u32 \<Rightarrow> sm3_vars \<Rightarrow> sm3_vars" where
  "sm3_mid2 FF GG t A12 w x v = (case v of (A, B, C, D, E, F, G, H) \<Rightarrow>
     sm3_mid FF GG (sm3_ROTL (A12 + E + t) 7) A12 w x v)"

lemma sm3_run_eval [bit_eval]:
  "sm3_run FF GG (t # ts) (w # ws) (x # xs) (A, B, C, D, E, F, G, H) =
     sm3_run FF GG ts ws xs (sm3_mid2 FF GG (lit t) (sm3_ROTL A 12) w x (A, B, C, D, E, F, G, H))"
  "sm3_run FF GG [] ws xs v = v"
  "sm3_mid2 FF GG t A12 w x (A, B, C, D, E, F, G, H) =
     sm3_mid FF GG (sm3_ROTL (A12 + E + t) 7) A12 w x (A, B, C, D, E, F, G, H)"
  "sm3_mid FF GG SS1 A12 w x (A, B, C, D, E, F, G, H) =
     sm3_mix (FF A B C + D + (SS1 XOR A12) + x) (GG E F G + H + SS1 + w) A B C E F G"
  by (simp_all add: sm3_run_def sm3_mid2_def sm3_mid_def sm3_mix_def sm3_round_def lit_def Let_def)

text \<open>The message words, last word first.\<close>

definition sm3_extend where "sm3_extend n rw = sm3_expand n (rev rw)"

lemma sm3_extend_Suc:
  "sm3_extend (Suc n) (x1 # x2 # x3 # x4 # x5 # x6 # x7 # x8 # x9 # x10 # x11 # x12 # x13 # x14 # x15 # x16 # r)
    = sm3_extend n ((P1 (x16 XOR x9 XOR sm3_ROTL x3 15) XOR (sm3_ROTL x13 7 XOR x6)) #
        x1 # x2 # x3 # x4 # x5 # x6 # x7 # x8 # x9 # x10 # x11 # x12 # x13 # x14 # x15 # x16 # r)"
  by (simp add: sm3_extend_def nth_append Let_def xor.assoc)

lemma sm3_extend_eval [bit_eval]:
  "sm3_extend (numeral n) (x1 # x2 # x3 # x4 # x5 # x6 # x7 # x8 # x9 # x10 # x11 # x12 # x13 # x14 # x15 # x16 # r)
    = sm3_extend (pred_numeral n) ((P1 (x16 XOR x9 XOR sm3_ROTL x3 15) XOR (sm3_ROTL x13 7 XOR x6)) #
        x1 # x2 # x3 # x4 # x5 # x6 # x7 # x8 # x9 # x10 # x11 # x12 # x13 # x14 # x15 # x16 # r)"
  "sm3_extend 0 r = rev r"
  by (simp_all only: numeral_eq_Suc sm3_extend_Suc) (simp add: sm3_extend_def)

fun sm3_xor4 :: "u32 list \<Rightarrow> u32 list" where
  "sm3_xor4 (a # b # c # d # e # r) = (a XOR e) # sm3_xor4 (b # c # d # e # r)"
| "sm3_xor4 _ = []"

lemma sm3_xor4_nth:
  "length (sm3_xor4 ws) = length ws - 4"
  "j + 4 < length ws \<Longrightarrow> sm3_xor4 ws ! j = ws ! j XOR ws ! (j + 4)"
  by (induction ws arbitrary: j rule: sm3_xor4.induct) (auto simp: nth_Cons split: nat.splits)

lemma sm3_W1_eq: "length W = 68 \<Longrightarrow> sm3_W1 W = sm3_xor4 W"
  by (intro nth_equalityI) (simp_all add: sm3_W1_def sm3_xor4_nth)

text \<open>The stages of a compression; each takes evaluated lists.\<close>

definition sm3_stage1 :: "u32 list \<Rightarrow> u32 list \<Rightarrow> u32 list \<Rightarrow> sm3_vars \<Rightarrow> sm3_vars" where
  "sm3_stage1 W X ts v = sm3_run FF1 GG1 ts (drop 16 W) (drop 16 X) (sm3_run FF0 GG0 sm3_Tj0 W X v)"

definition sm3_stage2 :: "u32 list \<Rightarrow> sm3_vars \<Rightarrow> sm3_vars" where
  "sm3_stage2 W v = sm3_stage1 W (sm3_xor4 W) sm3_Tj1 v"

definition sm3_combine :: "u32 list \<Rightarrow> sm3_vars \<Rightarrow> u32 list" where
  "sm3_combine V v = (case v of (A, B, C, D, E, F, G, H) \<Rightarrow>
     [V ! 0 XOR A, V ! 1 XOR B, V ! 2 XOR C, V ! 3 XOR D, V ! 4 XOR E, V ! 5 XOR F, V ! 6 XOR G, V ! 7 XOR H])"

lemma length_sm3_expand: "length (sm3_expand n W) = length W + n"
  by (induction n arbitrary: W) (simp_all add: Let_def)

lemma sm3_process_eval:
  assumes "len64 b"
  shows "sm3_process [h0, h1, h2, h3, h4, h5, h6, h7] b =
    sm3_combine [lit h0, lit h1, lit h2, lit h3, lit h4, lit h5, lit h6, lit h7]
      (sm3_stage2 (sm3_extend 52 (rev (be32_words b)))
        (lit h0, lit h1, lit h2, lit h3, lit h4, lit h5, lit h6, lit h7))"
proof -
  define W where "W = sm3_expand 52 (be32_words b)"
  define v where "v = (h0, h1, h2, h3, h4, h5, h6, h7)"
  have b: "length b = 4 * 16" using assms by (simp add: len64_def)
  have W: "sm3_expand 52 (map (\<lambda>i. get_be32 b (4 * i)) [0..<16]) = W"
    by (simp only: W_def be32_words_eq[OF b])
  have "length (be32_words b) = 16"
    unfolding be32_words_eq[OF b, symmetric] by simp
  then have lW: "length W = 68" by (simp add: W_def length_sm3_expand)
  define X where "X = sm3_xor4 W"
  have lX: "length X = 64" by (simp add: X_def sm3_xor4_nth lW)
  have "foldl (\<lambda>v j. sm3_round FF0 GG0 (sm3_ROTL (sm3_T ! j) j) (W ! j) (X ! j) v) v [0..<16]
      = foldl (\<lambda>v j. sm3_round FF0 GG0 (sm3_Tj0 ! (j - 0)) (W ! j) (X ! j) v) v [0..<0 + 16]" for v
    by (rule foldl_cong) (simp_all add: sm3_Tj_eq(1) [symmetric] del: upt_rec_numeral)
  also have "\<dots> v = sm3_run FF0 GG0 sm3_Tj0 (drop 0 W) (drop 0 X) v" for v
    unfolding sm3_run_def by (rule foldl_zip3) (simp_all add: lW lX sm3_Tj0_def)
  finally have r0: "foldl (\<lambda>v j. sm3_round FF0 GG0 (sm3_ROTL (sm3_T ! j) j) (W ! j) (X ! j) v) v [0..<16]
      = sm3_run FF0 GG0 sm3_Tj0 W X v" for v by simp
  have "foldl (\<lambda>v j. sm3_round FF1 GG1 (sm3_ROTL (sm3_T ! j) (j mod 32)) (W ! j) (X ! j) v) v [16..<64]
      = foldl (\<lambda>v j. sm3_round FF1 GG1 (sm3_Tj1 ! (j - 16)) (W ! j) (X ! j) v) v [16..<16 + 48]" for v
    by (rule foldl_cong) (auto simp: sm3_Tj_eq(2) [symmetric] simp del: upt_rec_numeral)
  also have "\<dots> v = sm3_run FF1 GG1 sm3_Tj1 (drop 16 W) (drop 16 X) v" for v
    unfolding sm3_run_def by (rule foldl_zip3) (simp_all add: lW lX sm3_Tj1_def)
  finally have r1: "foldl (\<lambda>v j. sm3_round FF1 GG1 (sm3_ROTL (sm3_T ! j) (j mod 32)) (W ! j) (X ! j) v) v [16..<64]
      = sm3_run FF1 GG1 sm3_Tj1 (drop 16 W) (drop 16 X) v" for v .
  have "sm3_rounds W (sm3_W1 W) v = sm3_stage2 W v"
    by (simp only: sm3_rounds_def sm3_W1_eq[OF lW] X_def [symmetric] r0 r1 sm3_stage2_def sm3_stage1_def)
  then show ?thesis
    unfolding sm3_process_def W
    by (simp add: sm3_combine_def sm3_extend_def lit_def Let_def v_def flip: W_def split: prod.split)
qed

lemma sm3_combine_eval [bit_eval]:
  "sm3_combine [h0, h1, h2, h3, h4, h5, h6, h7] (A, B, C, D, E, F, G, H) =
     [h0 XOR A, h1 XOR B, h2 XOR C, h3 XOR D, h4 XOR E, h5 XOR F, h6 XOR G, h7 XOR H]"
  by (simp add: sm3_combine_def)

lemma sm3_ROTL_bits:
  "len32 xs \<Longrightarrow> n \<le> 32 \<Longrightarrow> sm3_ROTL (of_bits xs) n = of_bits (rot_bl (32 - n) xs [])"
  using of_bits_rotr[of xs "32 - n", where 'a=32] by (simp add: len32_def sm3_ROTL_def or.commute)

lemma sm3_bits [bit_eval]:
  "len32 xs \<Longrightarrow> sm3_ROTL (of_bits xs) 7 = of_bits (rot_bl 25 xs [])"
  "len32 xs \<Longrightarrow> sm3_ROTL (of_bits xs) 9 = of_bits (rot_bl 23 xs [])"
  "len32 xs \<Longrightarrow> sm3_ROTL (of_bits xs) 12 = of_bits (rot_bl 20 xs [])"
  "len32 xs \<Longrightarrow> sm3_ROTL (of_bits xs) 15 = of_bits (rot_bl 17 xs [])"
  "len32 xs \<Longrightarrow> sm3_ROTL (of_bits xs) 19 = of_bits (rot_bl 13 xs [])"
  "len32 xs \<Longrightarrow> P0 (of_bits xs) = of_bits (xor_bl xs (xor_bl (rot_bl 23 xs []) (rot_bl 15 xs [])))"
  "len32 xs \<Longrightarrow> P1 (of_bits xs) = of_bits (xor_bl xs (xor_bl (rot_bl 17 xs []) (rot_bl 9 xs [])))"
  by (simp_all add: sm3_ROTL_bits P0_def P1_def of_bits_xor xor.assoc)

lemmas sm3_eval = bit_eval list_eval sm3_process_eval sm3_stage1_def sm3_stage2_def sm3_mix_def
  sm3_xor4.simps FF0_def FF1_def GG0_def GG1_def sm3_Tj0_def sm3_Tj1_def

lemmas sm3_pad_eval = sm3_def sm3_iv_def md_pad_def put_be64_def replicate_numeral chunks_rec chunks_short ascii_def

lemma sm3_abc: "sm3 (ascii ''abc'') =
       [0x66, 0xC7, 0xF0, 0xF4, 0x62, 0xEE, 0xED, 0xD9, 0xD1, 0xF2, 0xD4, 0x6B, 0xDC, 0x10, 0xE4, 0xE2,
        0x41, 0x67, 0xC4, 0x87, 0x5C, 0xF2, 0xF7, 0xA2, 0x29, 0x7D, 0xA0, 0x2B, 0x8F, 0x4B, 0xA8, 0xE0]"
  by (simp add: sm3_pad_eval sm3_process_CF [symmetric]) (simp only: sm3_eval, simp add: of_bits_numerals)

lemma sm3_abcd16: "sm3 (ascii ''abcdabcdabcdabcdabcdabcdabcdabcdabcdabcdabcdabcdabcdabcdabcdabcd'') =
       [0xDE, 0xBE, 0x9F, 0xF9, 0x22, 0x75, 0xB8, 0xA1, 0x38, 0x60, 0x48, 0x89, 0xC1, 0x8E, 0x5A, 0x4D,
        0x6F, 0xDB, 0x70, 0xE5, 0x38, 0x7E, 0x57, 0x65, 0x29, 0x3D, 0xCB, 0xA3, 0x9C, 0x0C, 0x57, 0x32]"
  by (simp add: sm3_pad_eval sm3_process_CF [symmetric]) (simp only: sm3_eval, simp add: of_bits_numerals)

subsection \<open>Properties\<close>

text \<open>(C12) SM3 in fragments of less than \<open>2 ^ 32\<close> bytes: the unrolled rounds of \<^verbatim>\<open>sm3_process\<close> are the
  compression function of GB/T 32905-2016, \<^verbatim>\<open>sm3_update\<close> accepts any such fragments, and
  \<^verbatim>\<open>sm3_final\<close> returns the digest of their concatenation and a cleared context.\<close>

theorem sm3_fragments:
  assumes "\<forall>a \<in> set frs. wf_ba a \<and> ba_len a < 2 ^ 32" and "mem_ok M"
  shows "\<exists>c. sm3_process = sm3_CF \<and> feed (\<lambda>c a. sm3_update (Some c) (Some a)) sm3_init frs = Inr c
     \<and> sm3_final M (Some c) = (Inr (mk_ba (sm3 (concat (map data frs)))), Some sm3_init)"
proof -
  have "\<forall>a \<in> set frs. wf_ba a \<and> ba_len a \<le> 2 ^ 32 - 1" using assms(1) by auto
  from sm3.feed_holds[OF sm3_init_holds this] obtain c where
    "feed (\<lambda>c a. sm3_update (Some c) (Some a)) sm3_init frs = Inr c" "sm3_holds c (concat (map data frs))"
    by auto
  with sm3_final_holds[OF _ assms(2)] sm3_process_CF show ?thesis by blast
qed

lemma sm3_fragments_witness:
  "\<exists>c. feed (\<lambda>c a. sm3_update (Some c) (Some a)) sm3_init [mk_ba (ascii ''a''), mk_ba (ascii ''bc'')] = Inr c
     \<and> fst (sm3_final ideal_mem (Some c)) = Inr (mk_ba (sm3 (ascii ''abc'')))"
  using sm3_fragments[of "[mk_ba (ascii ''a''), mk_ba (ascii ''bc'')]" ideal_mem]
  by (auto simp: ascii_def)

text \<open>The self-test of SM3 succeeds on every host with memory: the model computes the two
  digests of the standard.\<close>

theorem sm3_self_test_ok: "mem_ok M \<Longrightarrow> sm3_self_test M = Inr ()"
proof -
  assume M: "mem_ok M"
  have *: "\<exists>c. sm3_update (Some sm3_init) (Some (mk_ba xs)) = Inr c
      \<and> sm3_final M (Some c) = (Inr (mk_ba (sm3 xs)), Some sm3_init)" if "length xs < 2 ^ 32" for xs
    using sm3_update_holds[OF sm3_init_holds, of "mk_ba xs"] that sm3_final_holds[OF _ M] by fastforce
  from *[of "ascii ''abc''"] obtain c where
      1: "sm3_update (Some sm3_init) (Some (mk_ba (ascii ''abc''))) = Inr c"
      "sm3_final M (Some c) = (Inr (mk_ba (sm3 (ascii ''abc''))), Some sm3_init)"
    by (auto simp: length_ascii)
  from *[of "ascii ''abcdabcdabcdabcdabcdabcdabcdabcdabcdabcdabcdabcdabcdabcdabcdabcd''"]
  show ?thesis
    unfolding sm3_self_test_def sm3_alloc_eq[OF M] CHECK_NOT_NULL_simps 1(1,2) DO_simps prod.case
    by (auto simp: sm3_abc sm3_abcd16 check_digest_eq length_ascii)
qed

lemma sm3_self_test_ok_witness: "sm3_self_test ideal_mem = Inr ()"
  by (rule sm3_self_test_ok) simp

end
