(* ===== verification/Ripemd.thy ===== *)
theory Ripemd
  imports BitEval
begin

text \<open>RIPEMD-128 and RIPEMD-160: \<^verbatim>\<open>uapkic/src/ripemd.c\<close>.\<close>

subsection \<open>The context\<close>

text \<open>
  The function pointer \<^verbatim>\<open>compress\<close> takes one of two values; \<open>ripemd_call\<close> below is the call
  through it.
\<close>

datatype ripemd_compress = Compress128 | Compress160

record RipemdCtx =
  ripemd_state :: "u32 list"
  ripemd_last_block :: "u8 list"
  ripemd_last_block_len :: nat
  ripemd_mode_eng :: nat
  ripemd_tot_len :: u64
  ripemd_fn :: ripemd_compress

definition RIPEMD_VARIANT_128 :: nat where "RIPEMD_VARIANT_128 = 0"
definition RIPEMD_VARIANT_160 :: nat where "RIPEMD_VARIANT_160 = 1"

definition sizeof_RipemdCtx :: nat where "sizeof_RipemdCtx = 160"

subsection \<open>The macros\<close>

definition rmd_DWORD :: "u8 list \<Rightarrow> nat \<Rightarrow> u32" where
  "rmd_DWORD b j = push_bit 24 (ucast (b ! (j + 3))) OR push_bit 16 (ucast (b ! (j + 2)))
     OR push_bit 8 (ucast (b ! (j + 1))) OR ucast (b ! j)"

definition rmd_ROL :: "u32 \<Rightarrow> nat \<Rightarrow> u32" where
  "rmd_ROL x n = push_bit n x OR drop_bit (32 - n) x"

definition rmd_F :: "u32 \<Rightarrow> u32 \<Rightarrow> u32 \<Rightarrow> u32" where "rmd_F x y z = x XOR y XOR z"
definition rmd_G :: "u32 \<Rightarrow> u32 \<Rightarrow> u32 \<Rightarrow> u32" where "rmd_G x y z = (x AND y) OR (NOT x AND z)"
definition rmd_H :: "u32 \<Rightarrow> u32 \<Rightarrow> u32 \<Rightarrow> u32" where "rmd_H x y z = (x OR NOT y) XOR z"
definition rmd_I :: "u32 \<Rightarrow> u32 \<Rightarrow> u32 \<Rightarrow> u32" where "rmd_I x y z = (x AND z) OR (y AND NOT z)"
definition rmd_J :: "u32 \<Rightarrow> u32 \<Rightarrow> u32 \<Rightarrow> u32" where "rmd_J x y z = x XOR (y OR NOT z)"

subsection \<open>RIPEMD-160\<close>

text \<open>
  The macros \<^verbatim>\<open>FF(a, b, c, d, e, x, s)\<close> to \<^verbatim>\<open>JJJ\<close> differ in the Boolean function and in the
  constant. The next call names the variables rotated by one place, so the step rotates
  the tuple; a round is sixteen calls, given by its table of word indices and shifts.
\<close>

type_synonym rmd_vars5 = "u32 \<times> u32 \<times> u32 \<times> u32 \<times> u32"

definition rmd160_step ::
    "(u32 \<Rightarrow> u32 \<Rightarrow> u32 \<Rightarrow> u32) \<Rightarrow> u32 \<Rightarrow> u32 \<Rightarrow> nat \<Rightarrow> rmd_vars5 \<Rightarrow> rmd_vars5" where
  "rmd160_step f k x s v = (case v of (a, b, c, d, e) \<Rightarrow>
     (e, rmd_ROL (a + (f b c d + x + k)) s + e, b, rmd_ROL c 10, d))"

primrec rmd160_round ::
    "(u32 \<Rightarrow> u32 \<Rightarrow> u32 \<Rightarrow> u32) \<Rightarrow> u32 \<Rightarrow> u32 list \<Rightarrow> (nat \<times> nat) list \<Rightarrow> rmd_vars5 \<Rightarrow> rmd_vars5" where
  "rmd160_round f k X [] v = v"
| "rmd160_round f k X (r # rs) v = rmd160_round f k X rs (rmd160_step f k (X ! fst r) (snd r) v)"

definition rmd160_FF :: "(nat \<times> nat) list" where
  "rmd160_FF = concat
     [[(0, 11), (1, 14), (2, 15), (3, 12), (4, 5), (5, 8), (6, 7), (7, 9)],
      [(8, 11), (9, 13), (10, 14), (11, 15), (12, 6), (13, 7), (14, 9), (15, 8)]]"

definition rmd160_GG :: "(nat \<times> nat) list" where
  "rmd160_GG = concat
     [[(7, 7), (4, 6), (13, 8), (1, 13), (10, 11), (6, 9), (15, 7), (3, 15)],
      [(12, 7), (0, 12), (9, 15), (5, 9), (2, 11), (14, 7), (11, 13), (8, 12)]]"

definition rmd160_HH :: "(nat \<times> nat) list" where
  "rmd160_HH = concat
     [[(3, 11), (10, 13), (14, 6), (4, 7), (9, 14), (15, 9), (8, 13), (1, 15)],
      [(2, 14), (7, 8), (0, 13), (6, 6), (13, 5), (11, 12), (5, 7), (12, 5)]]"

definition rmd160_II :: "(nat \<times> nat) list" where
  "rmd160_II = concat
     [[(1, 11), (9, 12), (11, 14), (10, 15), (0, 14), (8, 15), (12, 9), (4, 8)],
      [(13, 9), (3, 14), (7, 5), (15, 6), (14, 8), (5, 6), (6, 5), (2, 12)]]"

definition rmd160_JJ :: "(nat \<times> nat) list" where
  "rmd160_JJ = concat
     [[(4, 9), (0, 15), (5, 5), (9, 11), (7, 6), (12, 8), (2, 13), (10, 12)],
      [(14, 5), (1, 12), (3, 13), (8, 14), (11, 11), (6, 8), (15, 5), (13, 6)]]"

definition rmd160_JJJ :: "(nat \<times> nat) list" where
  "rmd160_JJJ = concat
     [[(5, 8), (14, 9), (7, 9), (0, 11), (9, 13), (2, 15), (11, 15), (4, 5)],
      [(13, 7), (6, 7), (15, 8), (8, 11), (1, 14), (10, 14), (3, 12), (12, 6)]]"

definition rmd160_III :: "(nat \<times> nat) list" where
  "rmd160_III = concat
     [[(6, 9), (11, 13), (3, 15), (7, 7), (0, 12), (13, 8), (5, 9), (10, 11)],
      [(14, 7), (15, 7), (8, 12), (12, 7), (4, 6), (9, 15), (1, 13), (2, 11)]]"

definition rmd160_HHH :: "(nat \<times> nat) list" where
  "rmd160_HHH = concat
     [[(15, 9), (5, 7), (1, 15), (3, 11), (7, 8), (14, 6), (6, 6), (9, 14)],
      [(11, 12), (8, 13), (12, 5), (2, 14), (10, 13), (0, 13), (4, 7), (13, 5)]]"

definition rmd160_GGG :: "(nat \<times> nat) list" where
  "rmd160_GGG = concat
     [[(8, 15), (6, 5), (4, 8), (1, 11), (3, 14), (11, 14), (15, 6), (0, 14)],
      [(5, 6), (12, 9), (2, 12), (13, 9), (9, 12), (7, 5), (10, 15), (14, 8)]]"

definition rmd160_FFF :: "(nat \<times> nat) list" where
  "rmd160_FFF = concat
     [[(12, 8), (15, 5), (10, 12), (4, 9), (1, 12), (5, 5), (8, 14), (7, 6)],
      [(6, 8), (2, 13), (13, 6), (14, 5), (0, 15), (3, 13), (9, 11), (11, 11)]]"

definition rmd160_left :: "u32 list \<Rightarrow> rmd_vars5 \<Rightarrow> rmd_vars5" where
  "rmd160_left X v =
     (let v = rmd160_round rmd_F 0 X rmd160_FF v;
          v = rmd160_round rmd_G 0x5a827999 X rmd160_GG v;
          v = rmd160_round rmd_H 0x6ed9eba1 X rmd160_HH v;
          v = rmd160_round rmd_I 0x8f1bbcdc X rmd160_II v
      in rmd160_round rmd_J 0xa953fd4e X rmd160_JJ v)"

definition rmd160_right :: "u32 list \<Rightarrow> rmd_vars5 \<Rightarrow> rmd_vars5" where
  "rmd160_right X v =
     (let v = rmd160_round rmd_J 0x50a28be6 X rmd160_JJJ v;
          v = rmd160_round rmd_I 0x5c4dd124 X rmd160_III v;
          v = rmd160_round rmd_H 0x6d703ef3 X rmd160_HHH v;
          v = rmd160_round rmd_G 0x7a6d76e9 X rmd160_GGG v
      in rmd160_round rmd_F 0 X rmd160_FFF v)"

definition compress_160 :: "u32 list \<Rightarrow> u32 list \<Rightarrow> u32 list" where
  "compress_160 st X =
     (let v = (st ! 0, st ! 1, st ! 2, st ! 3, st ! 4)
      in case (rmd160_left X v, rmd160_right X v) of ((aa, bb, cc, dd, ee), (aaa, bbb, ccc, ddd, eee)) \<Rightarrow>
        st[0 := ddd + (cc + st ! 1), 1 := st ! 2 + dd + eee, 2 := st ! 3 + ee + aaa,
           3 := st ! 4 + aa + bbb, 4 := st ! 0 + bb + ccc])"

subsection \<open>RIPEMD-128\<close>

type_synonym rmd_vars4 = "u32 \<times> u32 \<times> u32 \<times> u32"

definition rmd128_step ::
    "(u32 \<Rightarrow> u32 \<Rightarrow> u32 \<Rightarrow> u32) \<Rightarrow> u32 \<Rightarrow> u32 \<Rightarrow> nat \<Rightarrow> rmd_vars4 \<Rightarrow> rmd_vars4" where
  "rmd128_step f k x s v = (case v of (a, b, c, d) \<Rightarrow> (d, rmd_ROL (a + (f b c d + x + k)) s, b, c))"

primrec rmd128_round ::
    "(u32 \<Rightarrow> u32 \<Rightarrow> u32 \<Rightarrow> u32) \<Rightarrow> u32 \<Rightarrow> u32 list \<Rightarrow> (nat \<times> nat) list \<Rightarrow> rmd_vars4 \<Rightarrow> rmd_vars4" where
  "rmd128_round f k X [] v = v"
| "rmd128_round f k X (r # rs) v = rmd128_round f k X rs (rmd128_step f k (X ! fst r) (snd r) v)"

definition rmd128_FF :: "(nat \<times> nat) list" where
  "rmd128_FF = concat
     [[(0, 11), (1, 14), (2, 15), (3, 12), (4, 5), (5, 8), (6, 7), (7, 9)],
      [(8, 11), (9, 13), (10, 14), (11, 15), (12, 6), (13, 7), (14, 9), (15, 8)]]"

definition rmd128_GG :: "(nat \<times> nat) list" where
  "rmd128_GG = concat
     [[(7, 7), (4, 6), (13, 8), (1, 13), (10, 11), (6, 9), (15, 7), (3, 15)],
      [(12, 7), (0, 12), (9, 15), (5, 9), (2, 11), (14, 7), (11, 13), (8, 12)]]"

definition rmd128_HH :: "(nat \<times> nat) list" where
  "rmd128_HH = concat
     [[(3, 11), (10, 13), (14, 6), (4, 7), (9, 14), (15, 9), (8, 13), (1, 15)],
      [(2, 14), (7, 8), (0, 13), (6, 6), (13, 5), (11, 12), (5, 7), (12, 5)]]"

definition rmd128_II :: "(nat \<times> nat) list" where
  "rmd128_II = concat
     [[(1, 11), (9, 12), (11, 14), (10, 15), (0, 14), (8, 15), (12, 9), (4, 8)],
      [(13, 9), (3, 14), (7, 5), (15, 6), (14, 8), (5, 6), (6, 5), (2, 12)]]"

definition rmd128_III :: "(nat \<times> nat) list" where
  "rmd128_III = concat
     [[(5, 8), (14, 9), (7, 9), (0, 11), (9, 13), (2, 15), (11, 15), (4, 5)],
      [(13, 7), (6, 7), (15, 8), (8, 11), (1, 14), (10, 14), (3, 12), (12, 6)]]"

definition rmd128_HHH :: "(nat \<times> nat) list" where
  "rmd128_HHH = concat
     [[(6, 9), (11, 13), (3, 15), (7, 7), (0, 12), (13, 8), (5, 9), (10, 11)],
      [(14, 7), (15, 7), (8, 12), (12, 7), (4, 6), (9, 15), (1, 13), (2, 11)]]"

definition rmd128_GGG :: "(nat \<times> nat) list" where
  "rmd128_GGG = concat
     [[(15, 9), (5, 7), (1, 15), (3, 11), (7, 8), (14, 6), (6, 6), (9, 14)],
      [(11, 12), (8, 13), (12, 5), (2, 14), (10, 13), (0, 13), (4, 7), (13, 5)]]"

definition rmd128_FFF :: "(nat \<times> nat) list" where
  "rmd128_FFF = concat
     [[(8, 15), (6, 5), (4, 8), (1, 11), (3, 14), (11, 14), (15, 6), (0, 14)],
      [(5, 6), (12, 9), (2, 12), (13, 9), (9, 12), (7, 5), (10, 15), (14, 8)]]"

text \<open>The source interleaves the rounds of the two lines; they share no variable.\<close>

definition rmd128_left :: "u32 list \<Rightarrow> rmd_vars4 \<Rightarrow> rmd_vars4" where
  "rmd128_left X v =
     (let v = rmd128_round rmd_F 0 X rmd128_FF v;
          v = rmd128_round rmd_G 0x5a827999 X rmd128_GG v;
          v = rmd128_round rmd_H 0x6ed9eba1 X rmd128_HH v
      in rmd128_round rmd_I 0x8f1bbcdc X rmd128_II v)"

definition rmd128_right :: "u32 list \<Rightarrow> rmd_vars4 \<Rightarrow> rmd_vars4" where
  "rmd128_right X v =
     (let v = rmd128_round rmd_I 0x50a28be6 X rmd128_III v;
          v = rmd128_round rmd_H 0x5c4dd124 X rmd128_HHH v;
          v = rmd128_round rmd_G 0x6d703ef3 X rmd128_GGG v
      in rmd128_round rmd_F 0 X rmd128_FFF v)"

definition compress_128 :: "u32 list \<Rightarrow> u32 list \<Rightarrow> u32 list" where
  "compress_128 st X =
     (let v = (st ! 0, st ! 1, st ! 2, st ! 3)
      in case (rmd128_left X v, rmd128_right X v) of ((aa, bb, cc, dd), (aaa, bbb, ccc, ddd)) \<Rightarrow>
        st[0 := ddd + (cc + st ! 1), 1 := st ! 2 + dd + aaa, 2 := st ! 3 + aa + bbb, 3 := st ! 0 + bb + ccc])"

definition ripemd_call :: "ripemd_compress \<Rightarrow> u32 list \<Rightarrow> u32 list \<Rightarrow> u32 list" where
  "ripemd_call fn = (case fn of Compress128 \<Rightarrow> compress_128 | Compress160 \<Rightarrow> compress_160)"

subsection \<open>Operations\<close>

definition ripemd_iv160 :: "u32 list" where
  "ripemd_iv160 = [0x67452301, 0xefcdab89, 0x98badcfe, 0x10325476, 0xc3d2e1f0] @ replicate 11 0"

definition ripemd_iv128 :: "u32 list" where
  "ripemd_iv128 = [0x67452301, 0xefcdab89, 0x98badcfe, 0x10325476] @ replicate 12 0"

definition ripemd_init160 :: "RipemdCtx \<Rightarrow> RipemdCtx" where
  "ripemd_init160 ctx = ctx\<lparr>ripemd_state := ripemd_iv160, ripemd_last_block := replicate 64 0,
     ripemd_tot_len := 0, ripemd_last_block_len := 0\<rparr>"

definition ripemd_init128 :: "RipemdCtx \<Rightarrow> RipemdCtx" where
  "ripemd_init128 ctx = ctx\<lparr>ripemd_state := ripemd_iv128, ripemd_last_block := replicate 64 0,
     ripemd_tot_len := 0, ripemd_last_block_len := 0\<rparr>"

text \<open>
  \<open>ripemd_zero\<close> is the cleared memory of \<^verbatim>\<open>calloc\<close>; its null function pointer is
  overwritten before the context is returned.
\<close>

definition ripemd_zero :: RipemdCtx where
  "ripemd_zero = \<lparr>ripemd_state = replicate 16 0, ripemd_last_block = replicate 64 0,
     ripemd_last_block_len = 0, ripemd_mode_eng = 0, ripemd_tot_len = 0, ripemd_fn = Compress128\<rparr>"

definition ripemd_alloc :: "mem \<Rightarrow> nat \<Rightarrow> RipemdCtx option res" where
  "ripemd_alloc M mode = to_ptr (CALLOC_CHECKED M sizeof_RipemdCtx (
     DO (if mode = RIPEMD_VARIANT_128
         then Inr ((ripemd_init128 ripemd_zero)\<lparr>ripemd_mode_eng := 128, ripemd_fn := Compress128\<rparr>)
         else if mode = RIPEMD_VARIANT_160
         then Inr ((ripemd_init160 ripemd_zero)\<lparr>ripemd_mode_eng := 160, ripemd_fn := Compress160\<rparr>)
         else SET_ERROR RET_INVALID_PARAM) (\<lambda>ctx.
     Inr (ctx\<lparr>ripemd_tot_len := 0, ripemd_last_block_len := 0\<rparr>))))"

definition ripemd_copy_with_alloc :: "mem \<Rightarrow> RipemdCtx \<Rightarrow> RipemdCtx option res" where
  "ripemd_copy_with_alloc M ctx = to_ptr (CALLOC_CHECKED M sizeof_RipemdCtx (Inr ctx))"

definition ripemd_update :: "bool \<Rightarrow> RipemdCtx option \<Rightarrow> ByteArray option \<Rightarrow> RipemdCtx res" where
  "ripemd_update be ctx dat = NOT_NULL ctx (\<lambda>ctx. NOT_NULL dat (\<lambda>ba.
     let data_buf = data ba; data_len = ba_len ba;
         tot = ripemd_tot_len ctx + of_nat data_len; len = ripemd_last_block_len ctx
     in if len + data_len < 64
        then DO (rd data_buf 0 data_len) (\<lambda>xs.
             DO (wr (ripemd_last_block ctx) len xs) (\<lambda>blk.
             Inr (ctx\<lparr>ripemd_last_block := blk, ripemd_last_block_len := len + data_len,
                   ripemd_tot_len := tot\<rparr>)))
        else
          let fill = 64 - len
          in DO (rd data_buf 0 fill) (\<lambda>xs.
             DO (wr (ripemd_last_block ctx) len xs) (\<lambda>blk.
             DO (uint8_to_uint32 be (Some blk) 64 (Some (replicate 16 0)) 16) (\<lambda>X.
             let st = ripemd_call (ripemd_fn ctx) (ripemd_state ctx) X;
                 shifted_arr = drop fill data_buf; data_len = data_len - fill
             in DO (for_blocks 64 (\<lambda>st b. Inr (ripemd_call (ripemd_fn ctx) st
                        (map (\<lambda>i. rmd_DWORD b (4 * i)) [0..<16]))) shifted_arr 0 data_len st) (\<lambda>(st, j).
                let rem = data_len - j
                in DO (if rem \<noteq> 0 then DO (rd shifted_arr j rem) (\<lambda>xs. wr blk 0 xs) else Inr blk) (\<lambda>blk.
                   Inr (ctx\<lparr>ripemd_last_block := blk, ripemd_last_block_len := rem, ripemd_state := st,
                         ripemd_tot_len := tot\<rparr>))))))))"

text \<open>
  The loop of \<^verbatim>\<open>ripemd_final\<close> that puts the bytes of the last block into the words of \<^verbatim>\<open>X\<close>:
  byte \<open>i\<close> goes to word \<open>i div 4\<close>.
\<close>

primrec ripemd_put :: "u8 list \<Rightarrow> nat \<Rightarrow> u32 list \<Rightarrow> u32 list" where
  "ripemd_put [] i X = X"
| "ripemd_put (b # bs) i X =
     ripemd_put bs (Suc i) (X[i div 4 := X ! (i div 4) XOR push_bit (8 * (i mod 4)) (ucast b)])"

definition ripemd_final :: "mem \<Rightarrow> RipemdCtx option \<Rightarrow> ByteArray res \<times> RipemdCtx option" where
  "ripemd_final M ctx = (case ctx of None \<Rightarrow> (Inl RET_INVALID_PARAM, None)
     | Some c \<Rightarrow>
         DO_ST (rd (ripemd_last_block c) 0 (ripemd_last_block_len c)) (Some c) (\<lambda>bytes.
         let X = ripemd_put bytes 0 (replicate 16 0);
             j = unat (drop_bit 2 (ripemd_tot_len c) AND 15);
             X = X[j := X ! j XOR push_bit (8 * unat (ripemd_tot_len c AND 3) + 7) 1];
             sX = (if ripemd_last_block_len c > 55
                   then (ripemd_call (ripemd_fn c) (ripemd_state c) X, replicate 16 0)
                   else (ripemd_state c, X));
             X = (snd sX)[14 := ucast (push_bit 3 (ripemd_tot_len c)), 15 := ucast (drop_bit 29 (ripemd_tot_len c))];
             st = ripemd_call (ripemd_fn c) (fst sX) X;
             c1 = c\<lparr>ripemd_state := st\<rparr>;
             n = ripemd_mode_eng c div 8
         in DO_ST (MALLOC_CHECKED M n Inr) (Some c1) (\<lambda>H.
            DO_ST (wr H 0 (concat (map (\<lambda>i. put_le32 (st ! i)) [0..<(n + 3) div 4]))) (Some c1) (\<lambda>H.
            DO_ST (CHECK_NOT_NULL (ba_alloc_from_uint8 M (Some H) n) Inr) (Some c1) (\<lambda>hash_code.
            (Inr hash_code,
             Some (if ripemd_mode_eng c = 160 then ripemd_init160 c1 else ripemd_init128 c1)))))))"

definition ripemd_get_block_size :: "RipemdCtx option \<Rightarrow> nat" where
  "ripemd_get_block_size ctx = 64"

subsection \<open>Self-tests\<close>

text \<open>The two self-tests have one text with two digests each.\<close>

definition ripemd_vectors :: "bool \<Rightarrow> nat \<Rightarrow> mem \<Rightarrow> u8 list \<Rightarrow> u8 list \<Rightarrow> unit res" where
  "ripemd_vectors be mode M H1 H2 =
     CHECK_NOT_NULL (ripemd_alloc M mode) (\<lambda>ctx.
     DO (ripemd_update be (Some ctx) (Some (mk_ba (ascii ''abc'')))) (\<lambda>ctx.
     case ripemd_final M (Some ctx) of (r, ctx) \<Rightarrow> DO r (\<lambda>H.
     DO (check_digest H H1) (\<lambda>_.
     DO (ripemd_update be ctx (Some (mk_ba (ascii
       ''ABCDEFGHIJKLMNOPQRSTUVWXYZabcdefghijklmnopqrstuvwxyz0123456789'')))) (\<lambda>ctx.
     case ripemd_final M (Some ctx) of (r, ctx) \<Rightarrow> DO r (\<lambda>H. check_digest H H2))))))"

definition ripemd128_self_test :: "bool \<Rightarrow> mem \<Rightarrow> unit res" where
  "ripemd128_self_test be M = ripemd_vectors be RIPEMD_VARIANT_128 M
     [0xC1, 0x4A, 0x12, 0x19, 0x9C, 0x66, 0xE4, 0xBA, 0x84, 0x63, 0x6B, 0x0F, 0x69, 0x14, 0x4C, 0x77]
     [0xD1, 0xE9, 0x59, 0xEB, 0x17, 0x9C, 0x91, 0x1F, 0xAE, 0xA4, 0x62, 0x4C, 0x60, 0xC5, 0xC7, 0x02]"

definition ripemd160_self_test :: "bool \<Rightarrow> mem \<Rightarrow> unit res" where
  "ripemd160_self_test be M = ripemd_vectors be RIPEMD_VARIANT_160 M
     [0x8E, 0xB2, 0x08, 0xF7, 0xE0, 0x5D, 0x98, 0x7A, 0x9B, 0x04, 0x4A, 0x8E, 0x98, 0xC6, 0xB0, 0x87,
      0xF1, 0x5A, 0x0B, 0xFC]
     [0xB0, 0xE2, 0x0B, 0x6E, 0x31, 0x16, 0x64, 0x02, 0x86, 0xED, 0x3A, 0x87, 0xA5, 0x71, 0x30, 0x79,
      0xB2, 0x1F, 0x51, 0x89]"

definition ripemd_self_test :: "bool \<Rightarrow> mem \<Rightarrow> unit res" where
  "ripemd_self_test be M = DO (ripemd128_self_test be M) (\<lambda>_. ripemd160_self_test be M)"

subsection \<open>The digest\<close>

text \<open>The words of a block, and the compression of a block of bytes.\<close>

definition rmd_words :: "u8 list \<Rightarrow> u32 list" where
  "rmd_words b = map (\<lambda>i. get_le32 b (4 * i)) [0..<16]"

definition ripemd_block :: "ripemd_compress \<Rightarrow> u32 list \<Rightarrow> u8 list \<Rightarrow> u32 list" where
  "ripemd_block fn st b = ripemd_call fn st (rmd_words b)"

definition ripemd_length :: "nat \<Rightarrow> u8 list" where
  "ripemd_length n = put_le32 (of_nat (8 * n)) @ put_le32 (of_nat (8 * n div 2 ^ 32))"

definition ripemd_iv :: "ripemd_compress \<Rightarrow> u32 list" where
  "ripemd_iv fn = (case fn of Compress128 \<Rightarrow> ripemd_iv128 | Compress160 \<Rightarrow> ripemd_iv160)"

definition ripemd_words :: "ripemd_compress \<Rightarrow> nat" where
  "ripemd_words fn = (case fn of Compress128 \<Rightarrow> 4 | Compress160 \<Rightarrow> 5)"

definition ripemd :: "ripemd_compress \<Rightarrow> u8 list \<Rightarrow> u8 list" where
  "ripemd fn m = concat (map put_le32 (take (ripemd_words fn)
     (foldl (ripemd_block fn) (ripemd_iv fn) (chunks 64 (m @ md_pad 64 (length m) (ripemd_length (length m)))))))"

subsection \<open>Words of a block\<close>

lemma length_rmd_words [simp]: "length (rmd_words b) = 16"
  by (simp add: rmd_words_def)

lemma nth_rmd_words: "j < 16 \<Longrightarrow> rmd_words b ! j = get_le32 b (4 * j)"
  by (simp add: rmd_words_def)

lemma rmd_DWORD_eq: "rmd_DWORD b j = get_le32 b j"
  by (simp add: rmd_DWORD_def get_le32_def ac_simps)

lemma rmd_words_zero: "rmd_words (replicate 64 0) = replicate 16 0"
  by (rule nth_equalityI) (simp_all add: nth_rmd_words get_le32_def)

lemma get_le32_update:
  assumes "length b = 64" and "j < 16" and "b ! (4 * j + r) = 0" and "r < 4"
  shows "get_le32 b (4 * j) XOR push_bit (8 * r) (ucast x) = get_le32 (b[4 * j + r := x]) (4 * j)"
proof -
  have "r = 0 \<or> r = 1 \<or> r = 2 \<or> r = 3" using assms(4) by auto
  then show ?thesis
    using assms(1-3)
    by (elim disjE; intro bit_word_eqI) (auto simp: get_le32_def bit_simps dest: bit_imp_le_length)
qed

lemma rmd_words_put:
  assumes "length b = 64" and "i < 64" and "b ! i = 0"
  shows "(rmd_words b)[i div 4 := rmd_words b ! (i div 4) XOR push_bit (8 * (i mod 4)) (ucast x)] = rmd_words (b[i := x])"
proof (rule nth_equalityI)
  fix k assume "k < length ((rmd_words b)[i div 4 := rmd_words b ! (i div 4) XOR push_bit (8 * (i mod 4)) (ucast x)])"
  then have k: "k < 16" by simp
  show "(rmd_words b)[i div 4 := rmd_words b ! (i div 4) XOR push_bit (8 * (i mod 4)) (ucast x)] ! k = rmd_words (b[i := x]) ! k"
  proof (cases "k = i div 4")
    case True
    then have "i = 4 * k + i mod 4" by simp
    with get_le32_update[OF assms(1) k, of "i mod 4" x] assms(3) True k
    show ?thesis by (simp add: nth_rmd_words)
  next
    case False
    then have "i \<noteq> 4 * k \<and> i \<noteq> Suc (4 * k) \<and> i \<noteq> Suc (Suc (4 * k)) \<and> i \<noteq> 4 * k + 3" by auto
    with False k show ?thesis by (auto simp: nth_rmd_words get_le32_def)
  qed
qed simp

lemma ripemd_put_eq:
  assumes "length pre + length bs \<le> 64"
  shows "ripemd_put bs (length pre) (rmd_words (pre @ replicate (64 - length pre) 0))
     = rmd_words (pre @ bs @ replicate (64 - length pre - length bs) 0)"
  using assms
proof (induction bs arbitrary: pre)
  case (Cons x bs)
  let ?b = "pre @ replicate (64 - length pre) 0"
  have "64 - length pre = Suc (64 - length (pre @ [x]))" using Cons.prems by simp
  then have upd: "?b[length pre := x] = (pre @ [x]) @ replicate (64 - length (pre @ [x])) 0"
    by (simp add: list_update_append)
  have "ripemd_put (x # bs) (length pre) (rmd_words ?b)
      = ripemd_put bs (length (pre @ [x])) (rmd_words (?b[length pre := x]))"
    using rmd_words_put[of ?b "length pre" x] Cons.prems by (simp add: nth_append)
  also have "\<dots> = rmd_words ((pre @ [x]) @ bs @ replicate (64 - length (pre @ [x]) - length bs) 0)"
    unfolding upd using Cons.prems by (intro Cons.IH) simp
  finally show ?case by simp
qed simp

text \<open>The bytes of the message and the one bit.\<close>

lemma ripemd_put_bit:
  assumes "length bs < 64"
  defines "X \<equiv> ripemd_put bs 0 (replicate 16 0)"
  shows "X[length bs div 4 := X ! (length bs div 4) XOR push_bit (8 * (length bs mod 4) + 7) 1]
     = rmd_words (bs @ 0x80 # replicate (63 - length bs) 0)"
proof -
  have X: "X = rmd_words (bs @ replicate (64 - length bs) 0)"
    using ripemd_put_eq[of "[]" bs] assms(1) by (simp add: X_def flip: rmd_words_zero)
  have "push_bit (8 * (length bs mod 4) + 7) 1 = push_bit (8 * (length bs mod 4)) (ucast (0x80 :: u8) :: u32)"
    by (simp add: push_bit_eq_mult power_add)
  moreover have "(bs @ replicate (64 - length bs) 0)[length bs := 0x80] = bs @ 0x80 # replicate (63 - length bs) (0 :: u8)"
  proof -
    have "64 - length bs = Suc (63 - length bs)" using assms(1) by simp
    then show ?thesis by (simp add: list_update_append)
  qed
  ultimately show ?thesis
    unfolding X using rmd_words_put[of "bs @ replicate (64 - length bs) 0" "length bs" "0x80"] assms(1)
    by (simp add: nth_append)
qed

lemma get_le32_put: "get_le32 (pre @ put_le32 w @ post) (length pre) = w"
proof -
  have "get_le32 (pre @ put_le32 w @ post) (length pre) = get_le32 (put_le32 w @ post) 0"
    by (simp add: get_le32_def nth_append add.commute numeral_2_eq_2)
  also have "\<dots> = w"
    unfolding get_le32_def put_le32_def
    by (rule bit_u32_eqI) (simp add: upt_rec bit_simps bit_u8_high, (simp add: eval_nat_numeral)?)
  finally show ?thesis .
qed

lemma get_le32_prefix: "j + 4 \<le> length a \<Longrightarrow> get_le32 (a @ b) j = get_le32 a j"
  by (simp add: get_le32_def nth_append)

lemma rmd_words_length:
  assumes "length b = 64"
  shows "(rmd_words b)[14 := lo, 15 := hi] = rmd_words (take 56 b @ put_le32 lo @ put_le32 hi)"
proof (rule nth_equalityI)
  fix j assume "j < length ((rmd_words b)[14 := lo, 15 := hi])"
  then have j: "j < 16" by simp
  have t: "length (take 56 b) = 56" using assms by simp
  have a: "get_le32 (take 56 b @ put_le32 lo @ put_le32 hi) 56 = lo"
    using get_le32_put[of "take 56 b" lo "put_le32 hi"] t by simp
  have c: "get_le32 (take 56 b @ put_le32 lo @ put_le32 hi) 60 = hi"
    using get_le32_put[of "take 56 b @ put_le32 lo" hi "[]"] t by simp
  consider "j < 14" | "j = 14" | "j = 15" using j by linarith
  then show "(rmd_words b)[14 := lo, 15 := hi] ! j = rmd_words (take 56 b @ put_le32 lo @ put_le32 hi) ! j"
  proof cases
    case 1
    have "get_le32 (take 56 b @ put_le32 lo @ put_le32 hi) (4 * j) = get_le32 (take 56 b) (4 * j)"
      using 1 t by (intro get_le32_prefix) simp
    also have "\<dots> = get_le32 (take 56 b @ drop 56 b) (4 * j)"
      using 1 t by (intro get_le32_prefix [symmetric]) simp
    finally show ?thesis using 1 by (simp add: nth_rmd_words)
  qed (use a c in \<open>simp_all add: nth_rmd_words\<close>)
qed simp

lemma ripemd_length_words:
  "put_le32 (ucast (push_bit 3 (of_nat n :: u64))) @ put_le32 (ucast (drop_bit 29 (of_nat n :: u64))) = ripemd_length n"
proof -
  have "ucast (push_bit 3 (of_nat n :: u64)) = (of_nat (8 * n) :: u32)"
  proof -
    have "of_nat (8 * n) = (push_bit 3 (of_nat n) :: u32)" by (simp add: push_bit_eq_mult mult.commute)
    then show ?thesis by (intro bit_word_eqI) (auto simp: bit_simps)
  qed
  moreover have "ucast (drop_bit 29 (of_nat n :: u64)) = (of_nat (8 * n div 2 ^ 32) :: u32)"
  proof -
    have "8 * n div 2 ^ 32 = drop_bit 32 (push_bit 3 n)"
      by (simp add: drop_bit_eq_div push_bit_eq_mult mult.commute)
    then show ?thesis by (intro bit_word_eqI) (auto simp: bit_simps)
  qed
  ultimately show ?thesis by (simp only: ripemd_length_def)
qed

subsection \<open>Update appends\<close>

definition ripemd_holds :: "ripemd_compress \<Rightarrow> RipemdCtx \<Rightarrow> u8 list \<Rightarrow> bool" where
  "ripemd_holds fn c m \<longleftrightarrow>
     ripemd_fn c = fn \<and> ripemd_mode_eng c = 32 * ripemd_words fn \<and>
     absorbed 64 (ripemd_block fn) (ripemd_iv fn) (ripemd_state c) (ripemd_last_block c) m \<and>
     length (ripemd_last_block c) = 64 \<and> ripemd_last_block_len c = length m mod 64 \<and>
     ripemd_tot_len c = of_nat (length m)"

lemma ripemd_for_blocks:
  "n \<le> length buf \<Longrightarrow>
   for_blocks 64 (\<lambda>st b. Inr (ripemd_call fn st (map (\<lambda>i. rmd_DWORD b (4 * i)) [0..<16]))) buf 0 n st
     = Inr (foldl (ripemd_block fn) st (chunks 64 (take n buf)), 64 * (n div 64))"
  using for_blocks_eq[of 64 0 n buf "\<lambda>_. True"
      "\<lambda>st b. Inr (ripemd_call fn st (map (\<lambda>i. rmd_DWORD b (4 * i)) [0..<16]))" "ripemd_block fn" st]
  by (simp add: ripemd_block_def rmd_words_def rmd_DWORD_eq del: upt_rec_numeral)

lemma ripemd_update_holds:
  assumes h: "ripemd_holds fn c m" and a: "wf_ba a"
  shows "\<exists>c'. ripemd_update be (Some c) (Some a) = Inr c' \<and> ripemd_holds fn c' (m @ data a)"
proof -
  define d where "d = data a"
  define idx where "idx = length m mod 64"
  define n where "n = ba_len a"
  define st where "st = ripemd_state c"
  define blk where "blk = ripemd_last_block c"
  have d: "length d = n" and ad: "ba_len a = n" "data a = d"
    using a by (simp_all add: d_def n_def)
  have lt: "idx < 64" by (simp add: idx_def)
  from h have fn: "ripemd_fn c = fn" and mode: "ripemd_mode_eng c = 32 * ripemd_words fn"
    and ab: "absorbed 64 (ripemd_block fn) (ripemd_iv fn) st blk m"
    and lb: "length blk = 64" and rem: "ripemd_last_block_len c = idx" and tot: "ripemd_tot_len c = of_nat (length m)"
    by (simp_all add: ripemd_holds_def st_def blk_def idx_def)
  have tot': "ripemd_tot_len c + of_nat n = of_nat (length (m @ d))"
    using d tot by simp
  show ?thesis
  proof (cases "64 \<le> idx + n")
    case False
    then have "ripemd_update be (Some c) (Some a) = Inr (c\<lparr>
        ripemd_last_block := take idx blk @ d @ drop (idx + n) blk, ripemd_last_block_len := idx + n,
        ripemd_tot_len := of_nat (length (m @ d))\<rparr>)"
      using d lb tot' by (simp add: ripemd_update_def Let_def ad rem blk_def)
    moreover have "length (m @ d) mod 64 = idx + n"
      using False mod_short[of "length m" 64 n] by (simp add: d idx_def)
    ultimately show ?thesis
      using absorbed_short[OF ab idx_def, of d] False d lb fn mode
      by (simp add: ripemd_holds_def ad st_def)
  next
    case True
    define r where "r = 64 - idx"
    have r: "r \<le> n" "r \<le> 64" "idx + r = 64" using True lt by (simp_all add: r_def)
    define b where "b = take idx blk @ take r d"
    define st' where "st' = foldl (ripemd_block fn) (ripemd_block fn st b) (chunks 64 (drop r d))"
    define t where "t = tail_of 64 (drop r d)"
    have w: "wr blk idx (take r d) = Inr b" and lb': "length b = 64"
      using r d lb by (simp_all add: b_def)
    have u: "uint8_to_uint32 be (Some b) 64 (Some (replicate 16 0)) 16 = Inr (rmd_words b)"
      using uint8_to_uint32_eq[of 64 b 16 "replicate 16 0" be] lb' load_words_le32[OF lb']
      by (simp add: rmd_words_def)
    have f: "for_blocks 64 (\<lambda>st b. Inr (ripemd_call fn st (map (\<lambda>i. rmd_DWORD b (4 * i)) [0..<16])))
          (drop r d) 0 (n - r) (ripemd_block fn st b) = Inr (st', 64 * ((n - r) div 64))"
      using r d ripemd_for_blocks[of "n - r" "drop r d" fn] by (simp add: st'_def del: upt_rec_numeral)
    have nlt: "(idx + n < 64) = False" using True by simp
    have rd0: "rd d 0 r = Inr (take r d)" using r d by simp
    have lt': "length t = (n - r) mod 64" using d by (simp add: t_def)
    have rem': "n - r - 64 * ((n - r) div 64) = (n - r) mod 64" by (simp add: minus_mult_div_eq_mod)
    have rt: "rd (drop r d) (64 * ((n - r) div 64)) ((n - r) mod 64) = Inr t"
      using rd_rest[of 0 "drop r d" 64] d by (simp add: t_def minus_mult_div_eq_mod)
    have lt64: "length t \<le> 64" by (simp add: t_def)
    have wt: "(if (n - r) mod 64 \<noteq> 0 then wr b 0 t else Inr b) = Inr (t @ drop (length t) b)"
      using lt' lt64 lb' by (auto simp del: length_0_conv)
    have "ripemd_update be (Some c) (Some a) = Inr (c\<lparr>ripemd_last_block := t @ drop (length t) b,
        ripemd_last_block_len := (n - r) mod 64, ripemd_state := st', ripemd_tot_len := of_nat (length (m @ d))\<rparr>)"
      by (simp only: ripemd_update_def NOT_NULL_simps Let_def ad rem tot' nlt if_False fn
          r_def [symmetric] blk_def [symmetric] st_def [symmetric] rd0 DO_simps w
          u ripemd_block_def [symmetric] prod.case f rem' rt wt)
    moreover have "absorbed 64 (ripemd_block fn) (ripemd_iv fn) st' (t @ drop (length t) b) (m @ d)"
    proof (rule absorbed_full[OF ab idx_def _ _ r_def])
      show "64 \<le> length (t @ drop (length t) b)" using lt64 lb' by simp
    qed (use True d in \<open>simp_all add: st'_def b_def t_def\<close>)
    moreover have "length (m @ d) mod 64 = (n - r) mod 64"
      using mod_full[of r 64 "length m" n] r d by (simp add: r_def idx_def)
    ultimately show ?thesis
      using lt64 lb' fn mode by (simp add: ripemd_holds_def ad)
  qed
qed

subsection \<open>Final computes the digest\<close>

definition ripemd_start :: "ripemd_compress \<Rightarrow> RipemdCtx" where
  "ripemd_start fn = \<lparr>ripemd_state = ripemd_iv fn, ripemd_last_block = replicate 64 0,
     ripemd_last_block_len = 0, ripemd_mode_eng = 32 * ripemd_words fn, ripemd_tot_len = 0, ripemd_fn = fn\<rparr>"

lemma ripemd_alloc_eq:
  assumes "mem_ok M"
  shows "ripemd_alloc M RIPEMD_VARIANT_128 = Inr (Some (ripemd_start Compress128))"
    and "ripemd_alloc M RIPEMD_VARIANT_160 = Inr (Some (ripemd_start Compress160))"
    and "1 < v \<Longrightarrow> ripemd_alloc M v = Inr None"
  using assms by (simp_all add: ripemd_alloc_def ripemd_start_def ripemd_zero_def ripemd_init128_def ripemd_init160_def
    RIPEMD_VARIANT_128_def RIPEMD_VARIANT_160_def ripemd_words_def ripemd_iv_def SET_ERROR_def)

lemma ripemd_start_holds: "ripemd_holds fn (ripemd_start fn) []"
  by (simp add: ripemd_holds_def ripemd_start_def absorbed_Nil)

lemma length_ripemd_iv [simp]: "length (ripemd_iv fn) = 16"
  by (cases fn) (simp_all add: ripemd_iv_def ripemd_iv128_def ripemd_iv160_def)

lemma length_ripemd_call: "length st = 16 \<Longrightarrow> length (ripemd_call fn st X) = 16"
  by (cases fn) (simp_all add: ripemd_call_def compress_128_def compress_160_def Let_def split: prod.split)

lemma length_foldl_block: "length st = 16 \<Longrightarrow> length (foldl (ripemd_block fn) st bs) = 16"
  by (induction bs arbitrary: st) (simp_all add: ripemd_block_def length_ripemd_call)

lemma concat_put_le32_nth:
  "k \<le> length st \<Longrightarrow> concat (map (\<lambda>i. put_le32 (st ! i)) [0..<k]) = concat (map put_le32 (take k st))"
  by (intro arg_cong[of _ _ concat] nth_equalityI) simp_all

lemma ripemd_pad_step:
  assumes ab: "absorbed 64 (ripemd_block fn) (ripemd_iv fn) st blk m" and lb: "length blk = 64"
    and i: "i = length m mod 64"
  defines "X \<equiv> rmd_words (take i blk @ 0x80 # replicate (63 - i) 0)"
  defines "sX \<equiv> (if i > 55 then (ripemd_call fn st X, replicate 16 0) else (st, X))"
  shows "ripemd_call fn (fst sX) ((snd sX)[14 := lo, 15 := hi])
     = foldl (ripemd_block fn) (ripemd_iv fn) (chunks 64 (m @ md_pad 64 (length m) (put_le32 lo @ put_le32 hi)))"
proof -
  define b where "b = take i blk @ 0x80 # replicate (63 - i) 0"
  define L where "L = put_le32 lo @ put_le32 hi"
  have i64: "i < 64" using i by simp
  have t: "take i blk = tail_of 64 m" and st: "st = foldl (ripemd_block fn) (ripemd_iv fn) (chunks 64 m)"
    using ab i by (simp_all add: absorbed_def)
  have lb': "length b = 64" and L: "length L = 8" using lb i64 by (simp_all add: b_def L_def)
  show ?thesis
  proof (cases "i > 55")
    case True
    have "chunks 64 (m @ md_pad 64 (length m) L) = chunks 64 m @ [b, replicate 56 0 @ L]"
      using md_pad_two[of 64 m L] True L i t by (simp add: b_def)
    moreover have "(replicate 16 0)[14 := lo, 15 := hi] = rmd_words (replicate 56 0 @ L)"
      using rmd_words_length[of "replicate 64 0" lo hi] by (simp add: L_def rmd_words_zero)
    ultimately show ?thesis
      using True by (simp add: sX_def X_def st ripemd_block_def flip: b_def L_def)
  next
    case False
    have "take 56 b = take i blk @ 0x80 # replicate (55 - i) 0"
    proof -
      have "56 - i = Suc (55 - i)" "min (55 - i) (63 - i) = 55 - i" using False by simp_all
      then show ?thesis using False lb by (simp add: b_def)
    qed
    then have "chunks 64 (m @ md_pad 64 (length m) L) = chunks 64 m @ [take 56 b @ L]"
      using md_pad_one[of m 64 L] False L i t by simp
    moreover have "(rmd_words b)[14 := lo, 15 := hi] = rmd_words (take 56 b @ L)"
      using rmd_words_length[OF lb'] by (simp add: L_def)
    ultimately show ?thesis
      using False by (simp add: sX_def X_def st ripemd_block_def flip: b_def L_def)
  qed
qed

lemma unat_tot_fields:
  "unat (drop_bit 2 (of_nat n :: u64) AND 15) = n mod 64 div 4" "unat (of_nat n AND 3 :: u64) = n mod 4"
proof -
  have "drop_bit 2 (of_nat n :: u64) AND 15 = take_bit 4 (drop_bit 2 (of_nat n))"
    by (simp add: take_bit_eq_mask mask_eq_exp_minus_1)
  also have "unat \<dots> = take_bit 4 (drop_bit 2 (take_bit 64 n))"
    by (simp only: unsigned_take_bit_eq unat_drop_bit_eq unat_of_nat) (simp add: take_bit_eq_mod)
  also have "\<dots> = drop_bit 2 (take_bit 6 n)" by (simp add: take_bit_drop_bit)
  finally show "unat (drop_bit 2 (of_nat n :: u64) AND 15) = n mod 64 div 4"
    by (simp add: take_bit_eq_mod drop_bit_eq_div)
  have "(of_nat n AND 3 :: u64) = take_bit 2 (of_nat n)"
    by (simp add: take_bit_eq_mask mask_eq_exp_minus_1)
  also have "unat \<dots> = take_bit 2 (take_bit 64 n)"
    by (simp only: unsigned_take_bit_eq unat_of_nat) (simp add: take_bit_eq_mod)
  finally show "unat (of_nat n AND 3 :: u64) = n mod 4" by (simp add: take_bit_eq_mod mod_mod_cancel)
qed

lemma ripemd_final_holds:
  assumes h: "ripemd_holds fn c m" and M: "mem_ok M"
  shows "\<exists>c'. ripemd_final M (Some c) = (Inr (mk_ba (ripemd fn m)), Some c') \<and> ripemd_holds fn c' []"
proof -
  define i where "i = length m mod 64"
  define st where "st = ripemd_state c"
  define blk where "blk = ripemd_last_block c"
  define n where "n = ripemd_words fn"
  define lo where "lo = (ucast (push_bit 3 (ripemd_tot_len c)) :: u32)"
  define hi where "hi = (ucast (drop_bit 29 (ripemd_tot_len c)) :: u32)"
  define X where "X = rmd_words (take i blk @ 0x80 # replicate (63 - i) 0)"
  define sX where "sX = (if i > 55 then (ripemd_call fn st X, replicate 16 0) else (st, X))"
  define st' where "st' = ripemd_call fn (fst sX) ((snd sX)[14 := lo, 15 := hi])"
  have i64: "i < 64" by (simp add: i_def)
  from h have fn: "ripemd_fn c = fn" and mode: "ripemd_mode_eng c = 32 * n"
    and ab: "absorbed 64 (ripemd_block fn) (ripemd_iv fn) st blk m"
    and lb: "length blk = 64" and rem: "ripemd_last_block_len c = i" and tot: "ripemd_tot_len c = of_nat (length m)"
    by (simp_all add: ripemd_holds_def st_def blk_def i_def n_def)
  have n: "n \<le> 16" "0 < n" by (cases fn; simp add: n_def ripemd_words_def)+
  have r: "rd blk 0 i = Inr (take i blk)" using lb i64 by simp
  have j: "unat (drop_bit 2 (ripemd_tot_len c) AND 15) = i div 4" "unat (ripemd_tot_len c AND 3) = i mod 4"
    unfolding tot unat_tot_fields by (simp_all add: i_def mod_mod_cancel)
  have X: "(ripemd_put (take i blk) 0 (replicate 16 0))[i div 4 :=
      ripemd_put (take i blk) 0 (replicate 16 0) ! (i div 4) XOR push_bit (8 * (i mod 4) + 7) 1] = X"
    using ripemd_put_bit[of "take i blk"] lb i64 by (simp add: X_def)
  have L: "put_le32 lo @ put_le32 hi = ripemd_length (length m)"
    unfolding lo_def hi_def tot by (rule ripemd_length_words)
  have st': "st' = foldl (ripemd_block fn) (ripemd_iv fn) (chunks 64 (m @ md_pad 64 (length m) (ripemd_length (length m))))"
    unfolding st'_def sX_def X_def L [symmetric] by (rule ripemd_pad_step[OF ab lb i_def])
  have lst: "length st' = 16" unfolding st' by (simp add: length_foldl_block)
  have n8: "32 * n div 8 = 4 * n" "(4 * n + 3) div 4 = n" by simp_all
  have dg: "concat (map (\<lambda>i. put_le32 (st' ! i)) [0..<n]) = ripemd fn m"
    using concat_put_le32_nth[of n st'] n lst by (simp add: ripemd_def n_def flip: st')
  have ld: "length (ripemd fn m) = 4 * n"
  proof -
    have "length (concat (map put_le32 ws)) = 4 * length ws" for ws by (induction ws) simp_all
    then show ?thesis using n lst by (simp add: ripemd_def n_def [symmetric] flip: st')
  qed
  have w: "wr (fresh M (4 * n)) 0 (ripemd fn m) = Inr (ripemd fn m)" using ld by simp
  have al: "ba_alloc_from_uint8 M (Some (ripemd fn m)) (4 * n) = Inr (Some (mk_ba (ripemd fn m)))"
    using M ld n by (simp add: ba_alloc_from_uint8_eq)
  define c1 where "c1 = c\<lparr>ripemd_state := st'\<rparr>"
  define c2 where "c2 = (if 32 * n = 160 then ripemd_init160 c1 else ripemd_init128 c1)"
  have "ripemd_final M (Some c) = (Inr (mk_ba (ripemd fn m)), Some c2)"
    unfolding ripemd_final_def option.case blk_def [symmetric] st_def [symmetric] rem r DO_ST_simps Let_def j X fn
      sX_def [symmetric] lo_def [symmetric] hi_def [symmetric] st'_def [symmetric] c1_def [symmetric] mode n8 dg
      MALLOC_CHECKED_ok[OF M] w al CHECK_NOT_NULL_simps c2_def
    by (rule refl)
  moreover have "ripemd_holds fn c2 []"
    using mode by (cases fn) (simp_all add: ripemd_holds_def c2_def c1_def n_def ripemd_words_def fn ripemd_init160_def
      ripemd_init128_def ripemd_iv_def absorbed_Nil)
  ultimately show ?thesis by blast
qed

lemma ripemd_hash_alg:
  "hash_alg (ripemd_start fn) (\<lambda>c a. ripemd_update be (Some c) (Some a))
    (\<lambda>M c. map_prod id the (ripemd_final M (Some c))) (ripemd_holds fn) (ripemd fn) SIZE_MOD"
proof
  show "ripemd_holds fn (ripemd_start fn) []" by (rule ripemd_start_holds)
  show "\<exists>c'. ripemd_update be (Some c) (Some a) = Inr c' \<and> ripemd_holds fn c' (m @ data a)"
    if "ripemd_holds fn c m" "wf_ba a" for c m a
    using that by (rule ripemd_update_holds)
  show "\<exists>c'. map_prod id the (ripemd_final M (Some c)) = (Inr (mk_ba (ripemd fn m)), c') \<and> ripemd_holds fn c' []"
    if "ripemd_holds fn c m" "mem_ok M" for c m M
    using ripemd_final_holds[OF that] by auto
qed

interpretation ripemd: hash_alg "ripemd_start fn" "\<lambda>c a. ripemd_update be (Some c) (Some a)"
    "\<lambda>M c. map_prod id the (ripemd_final M (Some c))" "ripemd_holds fn" "ripemd fn" SIZE_MOD
  for fn be
  by (rule ripemd_hash_alg)

subsection \<open>Test vectors in the kernel\<close>

definition rmd160_mix :: "u32 \<Rightarrow> nat \<Rightarrow> u32 \<Rightarrow> u32 \<Rightarrow> u32 \<Rightarrow> u32 \<Rightarrow> rmd_vars5" where
  "rmd160_mix t s b c d e = (e, rmd_ROL t s + e, b, rmd_ROL c 10, d)"

definition rmd160_run where "rmd160_run = rmd160_round"
definition rmd128_run where "rmd128_run = rmd128_round"

lemma rmd_run_eval [bit_eval]:
  "rmd160_run f k X ((i, s) # rs) (a, b, c, d, e) =
     rmd160_run f k X rs (rmd160_mix (a + (f b c d + X ! i + lit k)) s b c d e)"
  "rmd160_run f k X [] v = v"
  "rmd128_run f k X ((i, s) # rs) (a, b, c, d) =
     rmd128_run f k X rs (d, rmd_ROL (a + (f b c d + X ! i + lit k)) s, b, c)"
  "rmd128_run f k X [] w = w"
  by (simp_all add: rmd160_run_def rmd128_run_def rmd160_step_def rmd128_step_def rmd160_mix_def lit_def)

lemma rmd_ROL_bits: "len32 xs \<Longrightarrow> n \<le> 32 \<Longrightarrow> rmd_ROL (of_bits xs) n = of_bits (rot_bl (32 - n) xs [])"
  using of_bits_rotr[of xs "32 - n", where 'a=32] by (simp add: len32_def rmd_ROL_def or.commute)

lemma rmd_ROL_eval [bit_eval]:
  "len32 xs \<Longrightarrow> rmd_ROL (of_bits xs) 5 = of_bits (rot_bl 27 xs [])"
  "len32 xs \<Longrightarrow> rmd_ROL (of_bits xs) 6 = of_bits (rot_bl 26 xs [])"
  "len32 xs \<Longrightarrow> rmd_ROL (of_bits xs) 7 = of_bits (rot_bl 25 xs [])"
  "len32 xs \<Longrightarrow> rmd_ROL (of_bits xs) 8 = of_bits (rot_bl 24 xs [])"
  "len32 xs \<Longrightarrow> rmd_ROL (of_bits xs) 9 = of_bits (rot_bl 23 xs [])"
  "len32 xs \<Longrightarrow> rmd_ROL (of_bits xs) 10 = of_bits (rot_bl 22 xs [])"
  "len32 xs \<Longrightarrow> rmd_ROL (of_bits xs) 11 = of_bits (rot_bl 21 xs [])"
  "len32 xs \<Longrightarrow> rmd_ROL (of_bits xs) 12 = of_bits (rot_bl 20 xs [])"
  "len32 xs \<Longrightarrow> rmd_ROL (of_bits xs) 13 = of_bits (rot_bl 19 xs [])"
  "len32 xs \<Longrightarrow> rmd_ROL (of_bits xs) 14 = of_bits (rot_bl 18 xs [])"
  "len32 xs \<Longrightarrow> rmd_ROL (of_bits xs) 15 = of_bits (rot_bl 17 xs [])"
  by (simp_all add: rmd_ROL_bits)

text \<open>The two lines, with the words evaluated.\<close>

definition rmd160_combine :: "u32 list \<Rightarrow> rmd_vars5 \<Rightarrow> rmd_vars5 \<Rightarrow> u32 list" where
  "rmd160_combine st v w = (case (v, w) of ((aa, bb, cc, dd, ee), (aaa, bbb, ccc, ddd, eee)) \<Rightarrow>
        st[0 := ddd + (cc + st ! 1), 1 := st ! 2 + dd + eee, 2 := st ! 3 + ee + aaa,
           3 := st ! 4 + aa + bbb, 4 := st ! 0 + bb + ccc])"

definition rmd128_combine :: "u32 list \<Rightarrow> rmd_vars4 \<Rightarrow> rmd_vars4 \<Rightarrow> u32 list" where
  "rmd128_combine st v w = (case (v, w) of ((aa, bb, cc, dd), (aaa, bbb, ccc, ddd)) \<Rightarrow>
        st[0 := ddd + (cc + st ! 1), 1 := st ! 2 + dd + aaa, 2 := st ! 3 + aa + bbb, 3 := st ! 0 + bb + ccc])"

lemma rmd_combine_eval [bit_eval]:
  "rmd160_combine (h0 # h1 # h2 # h3 # h4 # r) (aa, bb, cc, dd, ee) (aaa, bbb, ccc, ddd, eee)
     = (ddd + (cc + h1)) # (h2 + dd + eee) # (h3 + ee + aaa) # (h4 + aa + bbb) # (h0 + bb + ccc) # r"
  "rmd128_combine (h0 # h1 # h2 # h3 # r) (aa, bb, cc, dd) (aaa, bbb, ccc, ddd)
     = (ddd + (cc + h1)) # (h2 + dd + aaa) # (h3 + aa + bbb) # (h0 + bb + ccc) # r"
  by (simp_all add: rmd160_combine_def rmd128_combine_def numeral_eq_Suc)

definition rmd160_lines :: "u32 list \<Rightarrow> u32 list \<Rightarrow> rmd_vars5 \<Rightarrow> u32 list" where
  "rmd160_lines st X v = rmd160_combine st
     (rmd160_run rmd_J 0xa953fd4e X rmd160_JJ (rmd160_run rmd_I 0x8f1bbcdc X rmd160_II
       (rmd160_run rmd_H 0x6ed9eba1 X rmd160_HH (rmd160_run rmd_G 0x5a827999 X rmd160_GG
         (rmd160_run rmd_F 0 X rmd160_FF v)))))
     (rmd160_run rmd_F 0 X rmd160_FFF (rmd160_run rmd_G 0x7a6d76e9 X rmd160_GGG
       (rmd160_run rmd_H 0x6d703ef3 X rmd160_HHH (rmd160_run rmd_I 0x5c4dd124 X rmd160_III
         (rmd160_run rmd_J 0x50a28be6 X rmd160_JJJ v)))))"

definition rmd128_lines :: "u32 list \<Rightarrow> u32 list \<Rightarrow> rmd_vars4 \<Rightarrow> u32 list" where
  "rmd128_lines st X v = rmd128_combine st
     (rmd128_run rmd_I 0x8f1bbcdc X rmd128_II (rmd128_run rmd_H 0x6ed9eba1 X rmd128_HH
       (rmd128_run rmd_G 0x5a827999 X rmd128_GG (rmd128_run rmd_F 0 X rmd128_FF v))))
     (rmd128_run rmd_F 0 X rmd128_FFF (rmd128_run rmd_G 0x6d703ef3 X rmd128_GGG
       (rmd128_run rmd_H 0x5c4dd124 X rmd128_HHH (rmd128_run rmd_I 0x50a28be6 X rmd128_III v))))"

lemma ripemd_block_eval:
  "len64 b \<Longrightarrow> ripemd_block Compress160 (h0 # h1 # h2 # h3 # h4 # r) b =
     rmd160_lines (lit h0 # lit h1 # lit h2 # lit h3 # lit h4 # r) (le32_words b)
       (lit h0, lit h1, lit h2, lit h3, lit h4)"
  "len64 b \<Longrightarrow> ripemd_block Compress128 (h0 # h1 # h2 # h3 # r) b =
     rmd128_lines (lit h0 # lit h1 # lit h2 # lit h3 # r) (le32_words b) (lit h0, lit h1, lit h2, lit h3)"
proof -
  assume "len64 b"
  then have "length b = 4 * 16" by (simp add: len64_def)
  from le32_words_eq[OF this] have w: "rmd_words b = le32_words b" by (simp only: rmd_words_def)
  show "ripemd_block Compress160 (h0 # h1 # h2 # h3 # h4 # r) b =
     rmd160_lines (lit h0 # lit h1 # lit h2 # lit h3 # lit h4 # r) (le32_words b)
       (lit h0, lit h1, lit h2, lit h3, lit h4)"
    by (simp add: ripemd_block_def w ripemd_call_def compress_160_def rmd160_lines_def rmd160_combine_def lit_def
      rmd160_left_def rmd160_right_def Let_def rmd160_run_def numeral_2_eq_2 numeral_3_eq_3)
  show "ripemd_block Compress128 (h0 # h1 # h2 # h3 # r) b =
     rmd128_lines (lit h0 # lit h1 # lit h2 # lit h3 # r) (le32_words b) (lit h0, lit h1, lit h2, lit h3)"
    by (simp add: ripemd_block_def w ripemd_call_def compress_128_def rmd128_lines_def rmd128_combine_def lit_def
      rmd128_left_def rmd128_right_def Let_def rmd128_run_def numeral_2_eq_2 numeral_3_eq_3)
qed

lemmas rmd_eval = bit_eval list_eval ripemd_block_eval rmd160_lines_def rmd128_lines_def rmd160_mix_def
  rmd_F_def rmd_G_def rmd_H_def rmd_I_def rmd_J_def
  rmd160_FF_def rmd160_GG_def rmd160_HH_def rmd160_II_def rmd160_JJ_def
  rmd160_FFF_def rmd160_GGG_def rmd160_HHH_def rmd160_III_def rmd160_JJJ_def
  rmd128_FF_def rmd128_GG_def rmd128_HH_def rmd128_II_def
  rmd128_FFF_def rmd128_GGG_def rmd128_HHH_def rmd128_III_def

lemmas rmd_pad_eval = ripemd_def ripemd_iv_def ripemd_iv160_def ripemd_iv128_def ripemd_words_def ripemd_length_def
  md_pad_def put_le32_def replicate_numeral chunks_rec chunks_short ascii_def

lemma ripemd128_vectors:
  "ripemd Compress128 (ascii ''abc'') =
     [0xC1, 0x4A, 0x12, 0x19, 0x9C, 0x66, 0xE4, 0xBA, 0x84, 0x63, 0x6B, 0x0F, 0x69, 0x14, 0x4C, 0x77]"
  "ripemd Compress128 (ascii ''ABCDEFGHIJKLMNOPQRSTUVWXYZabcdefghijklmnopqrstuvwxyz0123456789'') =
     [0xD1, 0xE9, 0x59, 0xEB, 0x17, 0x9C, 0x91, 0x1F, 0xAE, 0xA4, 0x62, 0x4C, 0x60, 0xC5, 0xC7, 0x02]"
  by (simp_all add: rmd_pad_eval) (simp only: rmd_eval, simp add: of_bits_numerals)+

lemma ripemd160_vectors:
  "ripemd Compress160 (ascii ''abc'') =
     [0x8E, 0xB2, 0x08, 0xF7, 0xE0, 0x5D, 0x98, 0x7A, 0x9B, 0x04, 0x4A, 0x8E, 0x98, 0xC6, 0xB0, 0x87,
      0xF1, 0x5A, 0x0B, 0xFC]"
  "ripemd Compress160 (ascii ''ABCDEFGHIJKLMNOPQRSTUVWXYZabcdefghijklmnopqrstuvwxyz0123456789'') =
     [0xB0, 0xE2, 0x0B, 0x6E, 0x31, 0x16, 0x64, 0x02, 0x86, 0xED, 0x3A, 0x87, 0xA5, 0x71, 0x30, 0x79,
      0xB2, 0x1F, 0x51, 0x89]"
  by (simp_all add: rmd_pad_eval) (simp only: rmd_eval, simp add: of_bits_numerals)+

subsection \<open>Properties\<close>

text \<open>
  The order of the message words in the specification of RIPEMD: the permutation \<open>\<rho>\<close> and
  its powers on the left line, the powers of \<open>\<rho>\<close> after \<open>\<pi>(i) = 9 i + 5 mod 16\<close> on the right.
\<close>

definition rmd_rho :: "nat list" where
  "rmd_rho = [7, 4, 13, 1, 10, 6, 15, 3, 12, 0, 9, 5, 2, 14, 11, 8]"

primrec rmd_rho_pow :: "nat \<Rightarrow> nat \<Rightarrow> nat" where
  "rmd_rho_pow 0 i = i"
| "rmd_rho_pow (Suc k) i = rmd_rho ! rmd_rho_pow k i"

definition rmd_order :: "(nat \<Rightarrow> nat) \<Rightarrow> nat \<Rightarrow> nat list" where
  "rmd_order p k = map (\<lambda>i. rmd_rho_pow k (p i)) [0..<16]"

definition rmd_pi :: "nat \<Rightarrow> nat" where "rmd_pi i = (9 * i + 5) mod 16"

lemma rmd_order_eval:
  "rmd_order p (Suc k) = map ((!) rmd_rho) (rmd_order p k)" "rmd_order p 0 = map p [0..<16]"
  by (simp_all add: rmd_order_def comp_def)

lemma rmd_order_powers:
  "map (rmd_order id) [0..<5] =
     [[0, 1, 2, 3, 4, 5, 6, 7, 8, 9, 10, 11, 12, 13, 14, 15], rmd_rho,
      map ((!) rmd_rho) rmd_rho, map ((!) rmd_rho) (map ((!) rmd_rho) rmd_rho),
      map ((!) rmd_rho) (map ((!) rmd_rho) (map ((!) rmd_rho) rmd_rho))]"
  "map (rmd_order rmd_pi) [0..<5] = (let p = [5, 14, 7, 0, 9, 2, 11, 4, 13, 6, 15, 8, 1, 10, 3, 12] in
     [p, map ((!) rmd_rho) p, map ((!) rmd_rho) (map ((!) rmd_rho) p),
      map ((!) rmd_rho) (map ((!) rmd_rho) (map ((!) rmd_rho) p)),
      map ((!) rmd_rho) (map ((!) rmd_rho) (map ((!) rmd_rho) (map ((!) rmd_rho) p)))])"
proof -
  have 5: "[0..<5] = [0, Suc 0, Suc (Suc 0), Suc (Suc (Suc 0)), Suc (Suc (Suc (Suc 0)))]"
    by (simp add: upt_rec)
  have m: "map f [0..<5] = [f 0, f (Suc 0), f (Suc (Suc 0)), f (Suc (Suc (Suc 0))), f (Suc (Suc (Suc (Suc 0))))]" for f :: "nat \<Rightarrow> nat list"
    unfolding 5 by simp
  have i: "map id [0..<16] = [0, 1, 2, 3, 4, 5, 6, 7, 8, 9, 10, 11, 12, 13, 14, 15 :: nat]"
    and r: "map ((!) rmd_rho) [0, 1, 2, 3, 4, 5, 6, 7, 8, 9, 10, 11, 12, 13, 14, 15] = rmd_rho"
    and p: "map rmd_pi [0..<16] = [5, 14, 7, 0, 9, 2, 11, 4, 13, 6, 15, 8, 1, 10, 3, 12]"
    by (simp_all add: upt_rec rmd_rho_def rmd_pi_def)
  show "map (rmd_order id) [0..<5] =
     [[0, 1, 2, 3, 4, 5, 6, 7, 8, 9, 10, 11, 12, 13, 14, 15], rmd_rho,
      map ((!) rmd_rho) rmd_rho, map ((!) rmd_rho) (map ((!) rmd_rho) rmd_rho),
      map ((!) rmd_rho) (map ((!) rmd_rho) (map ((!) rmd_rho) rmd_rho))]"
    unfolding m rmd_order_eval i r ..
  show "map (rmd_order rmd_pi) [0..<5] = (let p = [5, 14, 7, 0, 9, 2, 11, 4, 13, 6, 15, 8, 1, 10, 3, 12] in
     [p, map ((!) rmd_rho) p, map ((!) rmd_rho) (map ((!) rmd_rho) p),
      map ((!) rmd_rho) (map ((!) rmd_rho) (map ((!) rmd_rho) p)),
      map ((!) rmd_rho) (map ((!) rmd_rho) (map ((!) rmd_rho) (map ((!) rmd_rho) p)))])"
    unfolding m rmd_order_eval p Let_def ..
qed

text \<open>The eighteen tables of word indices in \<^verbatim>\<open>compress_160\<close> and \<^verbatim>\<open>compress_128\<close> are the
  permutations of the RIPEMD specification: round \<open>k\<close> of the left line reads the words in
  the order of the \<open>k\<close>-th power of one permutation, the right line after a second one, and
  the shorter function uses the first four rounds of the longer, shifts included.\<close>

theorem ripemd_word_order:
  "map (map fst) [rmd160_FF, rmd160_GG, rmd160_HH, rmd160_II, rmd160_JJ] = map (rmd_order id) [0..<5] \<and>
   map (map fst) [rmd160_JJJ, rmd160_III, rmd160_HHH, rmd160_GGG, rmd160_FFF] = map (rmd_order rmd_pi) [0..<5] \<and>
   [rmd128_FF, rmd128_GG, rmd128_HH, rmd128_II] = [rmd160_FF, rmd160_GG, rmd160_HH, rmd160_II] \<and>
   [rmd128_III, rmd128_HHH, rmd128_GGG, rmd128_FFF] = [rmd160_JJJ, rmd160_III, rmd160_HHH, rmd160_GGG]"
  by (intro conjI; (simp only: rmd_order_powers Let_def)?; simp add: rmd_rho_def rmd160_FF_def rmd160_GG_def rmd160_HH_def rmd160_II_def rmd160_JJ_def
    rmd160_FFF_def rmd160_GGG_def rmd160_HHH_def rmd160_III_def rmd160_JJJ_def
    rmd128_FF_def rmd128_GG_def rmd128_HH_def rmd128_II_def
    rmd128_FFF_def rmd128_GGG_def rmd128_HHH_def rmd128_III_def)

text \<open>RIPEMD-128 and RIPEMD-160 in fragments: \<^verbatim>\<open>ripemd_update\<close> accepts any fragments on hosts
  of either byte order, \<^verbatim>\<open>ripemd_final\<close>, which fills the words of the last block with shifts
  and exclusive-ors instead of padding a buffer, returns the digest of their concatenation
  padded as the standard says, and the context holds the empty message again.\<close>

theorem ripemd_fragments:
  assumes "\<forall>a \<in> set frs. wf_ba a \<and> ba_len a \<le> SIZE_MOD" and "mem_ok M"
  shows "\<exists>c c'. feed (\<lambda>c a. ripemd_update be (Some c) (Some a)) (ripemd_start fn) frs = Inr c
     \<and> ripemd_final M (Some c) = (Inr (mk_ba (ripemd fn (concat (map data frs)))), Some c')
     \<and> ripemd_holds fn c' []"
proof -
  obtain c where "feed (\<lambda>c a. ripemd_update be (Some c) (Some a)) (ripemd_start fn) frs = Inr c"
      "ripemd_holds fn c (concat (map data frs))"
    using ripemd.feed_holds[OF ripemd_start_holds assms(1)] by auto
  with ripemd_final_holds[OF _ assms(2)] show ?thesis by blast
qed

lemma ripemd_fragments_witness:
  "\<exists>c. feed (\<lambda>c a. ripemd_update True (Some c) (Some a)) (ripemd_start Compress160)
       [mk_ba (ascii ''a''), mk_ba (ascii ''bc'')] = Inr c
     \<and> fst (ripemd_final ideal_mem (Some c)) = Inr (mk_ba (ripemd Compress160 (ascii ''abc'')))"
  using ripemd_fragments[of "[mk_ba (ascii ''a''), mk_ba (ascii ''bc'')]" ideal_mem True Compress160]
  by (auto simp: ascii_def SIZE_MOD_def)

lemma ripemd_vectors_eq:
  assumes M: "mem_ok M" and a: "ripemd_alloc M mode = Inr (Some (ripemd_start fn))"
    and 1: "ripemd fn (ascii ''abc'') = H1"
    and 2: "ripemd fn (ascii ''ABCDEFGHIJKLMNOPQRSTUVWXYZabcdefghijklmnopqrstuvwxyz0123456789'') = H2"
  shows "ripemd_vectors be mode M H1 H2 = Inr ()"
proof -
  have *: "\<exists>c c'. ripemd_update be (Some c0) (Some (mk_ba xs)) = Inr c
      \<and> ripemd_final M (Some c) = (Inr (mk_ba (ripemd fn xs)), Some c') \<and> ripemd_holds fn c' []"
    if "ripemd_holds fn c0 []" for xs c0
    using ripemd_update_holds[OF that, of "mk_ba xs" be] ripemd_final_holds[OF _ M, of fn] by fastforce
  from *[OF ripemd_start_holds, of "ascii ''abc''"] obtain c c' where
    b: "ripemd_update be (Some (ripemd_start fn)) (Some (mk_ba (ascii ''abc''))) = Inr c"
      "ripemd_final M (Some c) = (Inr (mk_ba (ripemd fn (ascii ''abc''))), Some c')" "ripemd_holds fn c' []"
    by blast
  from *[OF b(3), of "ascii ''ABCDEFGHIJKLMNOPQRSTUVWXYZabcdefghijklmnopqrstuvwxyz0123456789''"] show ?thesis
    unfolding ripemd_vectors_def a CHECK_NOT_NULL_simps b(1,2) DO_simps prod.case
    by (auto simp: 1 2 check_digest_eq)
qed

text \<open>The self-tests of RIPEMD-128 and RIPEMD-160 succeed on every host with memory: the
  model computes the four digests that the source has in its tables.\<close>

theorem ripemd_self_test_ok: "mem_ok M \<Longrightarrow> ripemd_self_test be M = Inr ()"
  unfolding ripemd_self_test_def ripemd128_self_test_def ripemd160_self_test_def
  by (simp add: ripemd_vectors_eq[OF _ ripemd_alloc_eq(1)] ripemd_vectors_eq[OF _ ripemd_alloc_eq(2)]
    ripemd128_vectors ripemd160_vectors)

lemma ripemd_self_test_ok_witness: "ripemd_self_test False ideal_mem = Inr ()"
  by (rule ripemd_self_test_ok) simp

end
