(* ===== verification/Paddings.thy ===== *)
theory Paddings
  imports ByteArray
begin

text \<open>
  PKCS#7 and ISO/IEC 7816-4 padding: \<^verbatim>\<open>uapkic/src/paddings.c\<close>. The block length is a byte;
  a block length of zero divides by zero.
\<close>

subsection \<open>Definitions\<close>

text \<open>\<^verbatim>\<open>(uint8_t)(block_len - data->len % block_len)\<close>\<close>

definition padd_length :: "nat \<Rightarrow> u8 \<Rightarrow> u8 res" where
  "padd_length len block_len =
     (if block_len = 0 then Inl UNDEFINED
      else Inr (of_nat (sz_sub (unat block_len) (len mod unat block_len))))"

definition make_pkcs7_padding :: "mem \<Rightarrow> ByteArray option \<Rightarrow> u8 \<Rightarrow> ByteArray res" where
  "make_pkcs7_padding M dat block_len = NOT_NULL dat (\<lambda>a.
     DO (padd_length (ba_len a) block_len) (\<lambda>padd_len.
     CHECK_NOT_NULL (ba_alloc_by_len M (unat padd_len)) (\<lambda>padding.
     DO (ba_set (Some padding) padd_len) (\<lambda>padding.
     CHECK_NOT_NULL (ba_join M (Some a) (Some padding)) Inr))))"

definition make_pkcs7_unpadding :: "mem \<Rightarrow> ByteArray option \<Rightarrow> ByteArray res" where
  "make_pkcs7_unpadding M data_with_padding = NOT_NULL data_with_padding (\<lambda>a.
     DO (rd (data a) (sz_sub (ba_len a) 1) 1) (\<lambda>b.
     CHECK_NOT_NULL (ba_copy_with_alloc M (Some a) 0 (sz_sub (ba_len a) (unat (hd b)))) Inr))"

definition make_iso_7816_4_padding :: "mem \<Rightarrow> ByteArray option \<Rightarrow> u8 \<Rightarrow> ByteArray res" where
  "make_iso_7816_4_padding M dat block_len = NOT_NULL dat (\<lambda>a.
     DO (padd_length (ba_len a) block_len) (\<lambda>padd_len.
     CHECK_NOT_NULL (ba_alloc_by_len M (unat padd_len)) (\<lambda>padding.
     DO (ba_set (Some padding) 0) (\<lambda>padding.
     DO (wr (data padding) 0 [0x80]) (\<lambda>p.
     CHECK_NOT_NULL (ba_join M (Some a) (Some (set_data padding p))) Inr)))))"

text \<open>
  The loop \<^verbatim>\<open>while (buf[i] == 0) --i\<close>; below index zero the unsigned index wraps and the
  next read is out of bounds.
\<close>

primrec iso_scan :: "u8 list \<Rightarrow> nat \<Rightarrow> nat res" where
  "iso_scan b 0 = DO (rd b 0 1) (\<lambda>x. if hd x = 0 then Inl UNDEFINED else Inr 0)"
| "iso_scan b (Suc i) = DO (rd b (Suc i) 1) (\<lambda>x. if hd x = 0 then iso_scan b i else Inr (Suc i))"

definition make_iso_7816_4_unpadding :: "mem \<Rightarrow> ByteArray option \<Rightarrow> ByteArray res" where
  "make_iso_7816_4_unpadding M data_with_padding = NOT_NULL data_with_padding (\<lambda>a.
     if ba_len a = 0 then Inl UNDEFINED
     else DO (iso_scan (data a) (ba_len a - 1)) (\<lambda>i.
          CHECK_NOT_NULL (ba_copy_with_alloc M (Some a) 0 i) Inr))"

subsection \<open>Lemmas\<close>

lemma padd_length_eq:
  assumes "0 < block_len"
  shows "padd_length len block_len = Inr (of_nat (unat block_len - len mod unat block_len))"
    and "unat (of_nat (unat block_len - len mod unat block_len) :: u8) = unat block_len - len mod unat block_len"
    and "0 < unat block_len - len mod unat block_len"
    and "(len + (unat block_len - len mod unat block_len)) mod unat block_len = 0"
proof -
  have b: "0 < unat block_len" using assms by (simp add: word_less_nat_alt)
  then have lt: "len mod unat block_len < unat block_len" by simp
  then show "padd_length len block_len = Inr (of_nat (unat block_len - len mod unat block_len))"
    using assms by (auto simp: padd_length_def)
  have "unat block_len < 2 ^ LENGTH(8)" by (rule unsigned_less)
  then show "unat (of_nat (unat block_len - len mod unat block_len) :: u8) = unat block_len - len mod unat block_len"
    by (simp add: unat_of_nat)
  show "0 < unat block_len - len mod unat block_len" using lt by simp
  have "len + (unat block_len - len mod unat block_len) = unat block_len * (len div unat block_len) + unat block_len"
    using lt mult_div_mod_eq[of "unat block_len" len] by linarith
  then show "(len + (unat block_len - len mod unat block_len)) mod unat block_len = 0" by simp
qed

lemma make_pkcs7_padding_eq:
  assumes "mem_ok M" and "wf_ba a" and "0 < block_len"
  defines "n \<equiv> unat block_len - ba_len a mod unat block_len"
  shows "make_pkcs7_padding M (Some a) block_len = Inr (mk_ba (data a @ replicate n (of_nat n)))"
  using assms padd_length_eq[OF assms(3), of "ba_len a"]
  by (simp add: make_pkcs7_padding_def ba_alloc_by_len_eq ba_set_eq set_data_mk_ba ba_join_eq)

lemma make_iso_7816_4_padding_eq:
  assumes "mem_ok M" and "wf_ba a" and "0 < block_len"
  defines "n \<equiv> unat block_len - ba_len a mod unat block_len"
  shows "make_iso_7816_4_padding M (Some a) block_len = Inr (mk_ba (data a @ 0x80 # replicate (n - 1) 0))"
proof -
  have n: "0 < n" "unat (of_nat n :: u8) = n" "padd_length (ba_len a) block_len = Inr (of_nat n)"
    using padd_length_eq[OF assms(3), of "ba_len a"] by (simp_all add: n_def)
  have "replicate n (0 :: u8) = 0 # replicate (n - 1) 0" using n(1) by (cases n) simp_all
  then show ?thesis
    using assms(1,2) n
    by (simp add: make_iso_7816_4_padding_def ba_alloc_by_len_eq ba_set_eq set_data_mk_ba ba_join_eq)
qed

lemma unat_u8_less: "unat (b :: u8) < 256"
  using unsigned_less[of b] by simp

lemma rd_one: "i < length b \<Longrightarrow> rd b i 1 = Inr [b ! i]"
  by (simp add: rd_def take_Suc_conv_app_nth Cons_nth_drop_Suc [symmetric])

lemma iso_scan_eq:
  assumes "k + n < length b" and "b ! k \<noteq> 0" and "\<forall>j. k < j \<and> j \<le> k + n \<longrightarrow> b ! j = 0"
  shows "iso_scan b (k + n) = Inr k"
  using assms
proof (induction n)
  case 0
  then show ?case by (cases k) (simp_all add: rd_one del: One_nat_def rd_ok)
next
  case (Suc n)
  then have "b ! Suc (k + n) = 0" "iso_scan b (k + n) = Inr k" by simp_all
  then show ?case using Suc.prems(1) by (simp add: rd_one del: One_nat_def rd_ok)
qed

lemma iso_scan_none:
  assumes "i < length b" and "\<forall>j \<le> i. b ! j = 0"
  shows "iso_scan b i = Inl UNDEFINED"
  using assms by (induction i) (simp_all add: rd_one del: One_nat_def rd_ok)

text \<open>Every way \<^verbatim>\<open>make_pkcs7_unpadding\<close> ends.\<close>

lemma make_pkcs7_unpadding_eq:
  assumes "mem_ok M" and "wf_ba a" and "ba_len a < SIZE_MOD" and "data a \<noteq> []"
  defines "n \<equiv> unat (last (data a))"
  shows "make_pkcs7_unpadding M (Some a) =
     (if n = 0 \<or> n = ba_len a then Inr (mk_ba (data a))
      else if n < ba_len a then Inr (mk_ba (take (ba_len a - n) (data a)))
      else Inl RET_INVALID_PARAM)"
proof -
  have len: "length (data a) = ba_len a" "0 < ba_len a"
    using assms(2,4) wf_ba_len[of a] by (simp, metis length_greater_0_conv)
  then have r: "rd (data a) (sz_sub (ba_len a) 1) 1 = Inr [last (data a)]"
    using rd_one[of "ba_len a - 1" "data a"] assms(4) by (simp add: last_conv_nth)
  have n: "n < 256" using unat_u8_less[of "last (data a)"] by (simp add: n_def)
  show ?thesis
  proof (cases "n \<le> ba_len a")
    case True
    then have "ba_copy_with_alloc M (Some a) 0 (sz_sub (ba_len a) n)
        = Inr (Some (mk_ba (if ba_len a - n = 0 then data a else take (ba_len a - n) (data a))))"
      using assms(1-3) by (simp add: ba_copy_with_alloc_eq)
    moreover have "ba_len a - n = 0 \<longleftrightarrow> n = ba_len a" using True by auto
    moreover have "take (ba_len a - n) (data a) = data a" if "n = 0" using that len by simp
    ultimately show ?thesis
      unfolding make_pkcs7_unpadding_def using r True by (simp add: n_def [symmetric])
  next
    case False
    then have "sz_sub (ba_len a) n = SIZE_MOD - (n - ba_len a)"
      using n assms(3) by (simp add: sz_sub_def SIZE_MOD_def)
    then have "ba_len a < sz_add 0 (sz_sub (ba_len a) n)"
      using n False by (simp add: sz_add_def SIZE_MOD_def)
    then have "ba_copy_with_alloc M (Some a) 0 (sz_sub (ba_len a) n) = Inr None"
      by (rule ba_copy_with_alloc_short)
    then show ?thesis
      unfolding make_pkcs7_unpadding_def using r False len by (simp add: n_def [symmetric])
  qed
qed

lemma make_iso_7816_4_unpadding_eq:
  assumes "mem_ok M" and "wf_ba a" and "ba_len a < SIZE_MOD" and "data a = xs @ x # replicate n 0" and "x \<noteq> 0"
  shows "make_iso_7816_4_unpadding M (Some a) = Inr (mk_ba (if xs = [] then data a else xs))"
proof -
  have len: "ba_len a = length xs + Suc n" using assms(2,4) wf_ba_len[of a] by simp
  have "iso_scan (data a) (length xs + n) = Inr (length xs)"
    by (rule iso_scan_eq) (use assms(4,5) in \<open>auto simp: nth_append nth_Cons split: nat.splits\<close>)
  moreover have "ba_copy_with_alloc M (Some a) 0 (length xs)
      = Inr (Some (mk_ba (if xs = [] then data a else xs)))"
    using assms(1-4) len by (simp add: ba_copy_with_alloc_eq)
  ultimately show ?thesis using len by (simp add: make_iso_7816_4_unpadding_def)
qed

subsection \<open>Properties\<close>

text \<open>(C10) PKCS#7 padding: for every block length from 1 to 255 the padded array is a positive
  number of blocks, and the removal of the padding gives the data back when there is any. Of
  empty data the removal returns the padding itself, because \<^verbatim>\<open>ba_copy_with_alloc\<close> takes a
  length of zero for the whole array.\<close>

theorem pkcs7_roundtrip:
  assumes "mem_ok M" and "wf_ba a" and "ba_len a + 255 < SIZE_MOD" and "0 < block_len"
  shows "\<exists>p. make_pkcs7_padding M (Some a) block_len = Inr p \<and> 0 < ba_len p \<and> ba_len p mod unat block_len = 0
     \<and> make_pkcs7_unpadding M (Some p) = Inr (if data a = [] then p else mk_ba (data a))"
proof -
  define n where "n = unat block_len - ba_len a mod unat block_len"
  define p where "p = mk_ba (data a @ replicate n (of_nat n))"
  have n: "unat (of_nat n :: u8) = n" "0 < n" "(ba_len a + n) mod unat block_len = 0"
    using padd_length_eq[OF assms(4), of "ba_len a"] by (simp_all add: n_def)
  have n255: "n \<le> 255"
    using unat_u8_less[of block_len] by (simp add: n_def)
  have len: "length (data a) = ba_len a" using assms(2) by simp
  have d: "data p = data a @ replicate n (of_nat n)" "ba_len p = ba_len a + n" "wf_ba p"
    by (simp_all add: p_def len)
  have l: "last (data p) = of_nat n" "data p \<noteq> []" using n(2) by (simp_all add: d last_append)
  have "make_pkcs7_padding M (Some a) block_len = Inr p"
    using make_pkcs7_padding_eq[OF assms(1,2,4)] by (simp add: p_def n_def)
  moreover have "make_pkcs7_unpadding M (Some p) = Inr (if data a = [] then p else mk_ba (data a))"
  proof -
    have "ba_len p < SIZE_MOD" using d n255 assms(3) by simp
    from make_pkcs7_unpadding_eq[OF assms(1) d(3) this l(2)] show ?thesis
      using n len by (cases "data a = []") (auto simp: l d(2), simp_all add: d p_def)
  qed
  ultimately show ?thesis using d n by auto
qed

lemma pkcs7_roundtrip_witness:
  "\<exists>p. make_pkcs7_padding ideal_mem (Some (mk_ba [1, 2, 3])) 8 = Inr p \<and> 0 < ba_len p \<and> ba_len p mod 8 = 0
     \<and> make_pkcs7_unpadding ideal_mem (Some p) = Inr (mk_ba [1, 2, 3])"
  using pkcs7_roundtrip[of ideal_mem "mk_ba [1, 2, 3]" 8] by (simp add: SIZE_MOD_def)

text \<open>\<^verbatim>\<open>make_pkcs7_unpadding\<close> does not check the padding: an empty array is read at index
  minus one, a last byte of zero or of the whole length leaves the array as it is, a last byte
  beyond the length makes the length wrap and is reported as an invalid parameter, and every
  other last byte removes that many bytes, whatever they are.\<close>

theorem pkcs7_unpadding_unchecked:
  assumes "mem_ok M" and "wf_ba a" and "ba_len a < SIZE_MOD"
  shows "make_pkcs7_unpadding M (Some a) =
     (if data a = [] then Inl UNDEFINED
      else let n = unat (last (data a)) in
        if n = 0 \<or> n = ba_len a then Inr (mk_ba (data a))
        else if n < ba_len a then Inr (mk_ba (take (ba_len a - n) (data a)))
        else Inl RET_INVALID_PARAM)"
proof (cases "data a = []")
  case True
  then have "ba_len a = 0" using assms(2) wf_ba_len[of a] by simp
  then show ?thesis using True by (simp add: make_pkcs7_unpadding_def rd_def)
next
  case False
  then show ?thesis using make_pkcs7_unpadding_eq[OF assms] by (simp add: Let_def)
qed

lemma pkcs7_unpadding_unchecked_witness:
  "make_pkcs7_unpadding ideal_mem (Some (mk_ba [7, 9])) = Inl RET_INVALID_PARAM"
  using pkcs7_unpadding_unchecked[of ideal_mem "mk_ba [7, 9]"] by (simp add: SIZE_MOD_def)

text \<open>(C11) ISO/IEC 7816-4 padding: the padded array is a positive number of blocks and the
  removal gives the data back when there is any; of empty data it returns the padding itself.
  The removal takes the last non-zero byte of any array for the mark, not only \<open>0x80\<close>: it returns what is before
  that byte, or the whole array when there is nothing before it.\<close>

theorem iso_7816_4_roundtrip:
  assumes "mem_ok M" and "wf_ba a" and "ba_len a + 255 < SIZE_MOD" and "0 < block_len"
  shows "\<exists>p. make_iso_7816_4_padding M (Some a) block_len = Inr p \<and> 0 < ba_len p \<and> ba_len p mod unat block_len = 0
     \<and> make_iso_7816_4_unpadding M (Some p) = Inr (if data a = [] then p else mk_ba (data a))
     \<and> (\<forall>b xs c k. wf_ba b \<and> ba_len b < SIZE_MOD \<and> data b = xs @ c # replicate k 0 \<and> c \<noteq> 0
          \<longrightarrow> make_iso_7816_4_unpadding M (Some b) = Inr (mk_ba (if xs = [] then data b else xs)))"
proof -
  define n where "n = unat block_len - ba_len a mod unat block_len"
  define p where "p = mk_ba (data a @ 0x80 # replicate (n - 1) 0)"
  have n: "0 < n" "(ba_len a + n) mod unat block_len = 0" "n \<le> 255"
    using padd_length_eq[OF assms(4), of "ba_len a"] unat_u8_less[of block_len]
    by (simp_all add: n_def)
  have d: "data p = data a @ 0x80 # replicate (n - 1) 0" "ba_len p = ba_len a + n" "wf_ba p"
    using n(1) assms(2) by (simp_all add: p_def)
  have "make_iso_7816_4_padding M (Some a) block_len = Inr p"
    using make_iso_7816_4_padding_eq[OF assms(1,2,4)] by (simp add: p_def n_def)
  moreover have "make_iso_7816_4_unpadding M (Some p) = Inr (if data a = [] then p else mk_ba (data a))"
  proof -
    have "ba_len p < SIZE_MOD" using d n assms(3) by simp
    from make_iso_7816_4_unpadding_eq[OF assms(1) d(3) this d(1)] show ?thesis by (simp add: p_def)
  qed
  moreover have "\<forall>b xs c k. wf_ba b \<and> ba_len b < SIZE_MOD \<and> data b = xs @ c # replicate k 0 \<and> c \<noteq> 0
      \<longrightarrow> make_iso_7816_4_unpadding M (Some b) = Inr (mk_ba (if xs = [] then data b else xs))"
    using make_iso_7816_4_unpadding_eq[OF assms(1)] by blast
  ultimately show ?thesis using d(2) n(1,2) by auto
qed

lemma iso_7816_4_roundtrip_witness:
  "\<exists>p. make_iso_7816_4_padding ideal_mem (Some (mk_ba [1, 2, 0])) 8 = Inr p \<and> 0 < ba_len p \<and> ba_len p mod 8 = 0
     \<and> make_iso_7816_4_unpadding ideal_mem (Some p) = Inr (mk_ba [1, 2, 0])
     \<and> make_iso_7816_4_unpadding ideal_mem (Some (mk_ba [1, 2, 5, 0])) = Inr (mk_ba [1, 2])"
proof -
  have "wf_ba (mk_ba [1, 2, 5, 0]) \<and> ba_len (mk_ba [1, 2, 5, 0]) < SIZE_MOD
      \<and> data (mk_ba [1, 2, 5, 0]) = [1, 2] @ 5 # replicate 1 0 \<and> (5 :: u8) \<noteq> 0"
    by (simp add: SIZE_MOD_def)
  moreover obtain p where "make_iso_7816_4_padding ideal_mem (Some (mk_ba [1, 2, 0])) 8 = Inr p" "0 < ba_len p"
      "ba_len p mod unat (8 :: u8) = 0" "make_iso_7816_4_unpadding ideal_mem (Some p) = Inr (mk_ba [1, 2, 0])"
      "\<forall>b xs c k. wf_ba b \<and> ba_len b < SIZE_MOD \<and> data b = xs @ c # replicate k 0 \<and> c \<noteq> 0
         \<longrightarrow> make_iso_7816_4_unpadding ideal_mem (Some b) = Inr (mk_ba (if xs = [] then data b else xs))"
    using iso_7816_4_roundtrip[of ideal_mem "mk_ba [1, 2, 0]" 8] by (auto simp: SIZE_MOD_def)
  ultimately have "make_iso_7816_4_unpadding ideal_mem (Some (mk_ba [1, 2, 5, 0]))
      = Inr (mk_ba (if [1, 2] = ([] :: u8 list) then data (mk_ba [1, 2, 5, 0]) else [1, 2]))" by blast
  with \<open>make_iso_7816_4_padding ideal_mem (Some (mk_ba [1, 2, 0])) 8 = Inr p\<close> \<open>0 < ba_len p\<close>
    \<open>ba_len p mod unat (8 :: u8) = 0\<close> \<open>make_iso_7816_4_unpadding ideal_mem (Some p) = Inr (mk_ba [1, 2, 0])\<close>
  show ?thesis by simp
qed

end
