(* ===== verification/WordArr.thy ===== *)
theory WordArr
  imports ByteArray
begin

text \<open>
  Word arrays, the representation of big integers (\<^verbatim>\<open>word-internal.c\<close>), for the builds
  with 64-bit words (\<^verbatim>\<open>ARCH64\<close>). A word array holds a number to the base \<open>2 ^ 64\<close>,
  least significant word first.
\<close>

type_synonym word_t = u64

definition WORD_BIT_LENGTH :: nat where "WORD_BIT_LENGTH = 64"
definition WORD_BYTE_LENGTH :: nat where "WORD_BYTE_LENGTH = 8"

record WordArray =
  wa_buf :: "word_t list"
  wa_len :: nat

definition wf_wa :: "WordArray \<Rightarrow> bool" where
  "wf_wa a \<longleftrightarrow> length (wa_buf a) = wa_len a"

definition mk_wa :: "word_t list \<Rightarrow> WordArray" where
  "mk_wa ws = \<lparr>wa_buf = ws, wa_len = length ws\<rparr>"

text \<open>A fresh block of words, and a block that grows or shrinks; \<open>sizeof_WordArray\<close> is the size of the structure.\<close>

definition fresh_words :: "mem \<Rightarrow> nat \<Rightarrow> word_t list" where
  "fresh_words M n = load_words (big_endian M) (fresh M (n * WORD_BYTE_LENGTH))"

definition MALLOC_WORDS :: "mem \<Rightarrow> nat \<Rightarrow> (word_t list \<Rightarrow> 'b res) \<Rightarrow> 'b res" where
  "MALLOC_WORDS M n k = MALLOC_CHECKED M (n * WORD_BYTE_LENGTH) (\<lambda>_. k (fresh_words M n))"

definition resize_words :: "mem \<Rightarrow> word_t list \<Rightarrow> nat \<Rightarrow> word_t list" where
  "resize_words M b n = take n b @ drop (length b) (fresh_words M n)"

definition sizeof_WordArray :: nat where "sizeof_WordArray = 16"

subsection \<open>Allocation\<close>

definition wa_alloc :: "mem \<Rightarrow> nat \<Rightarrow> WordArray option res" where
  "wa_alloc M len = to_ptr (CHECK_PARAM (len \<noteq> 0)
     (CALLOC_CHECKED M sizeof_WordArray (MALLOC_WORDS M len (\<lambda>b.
      Inr \<lparr>wa_buf = b, wa_len = len\<rparr>))))"

definition wa_zero :: "WordArray option \<Rightarrow> WordArray option res" where
  "wa_zero wa = (case wa of None \<Rightarrow> Inr None
     | Some a \<Rightarrow> DO (wr (wa_buf a) 0 (replicate (wa_len a) 0)) (\<lambda>b. Inr (Some (a\<lparr>wa_buf := b\<rparr>))))"

definition wa_alloc_with_zero :: "mem \<Rightarrow> nat \<Rightarrow> WordArray option res" where
  "wa_alloc_with_zero M len = to_ptr (CHECK_PARAM (len \<noteq> 0)
     (CHECK_NOT_NULL (wa_alloc M len) (\<lambda>a.
      DO (wr (wa_buf a) 0 (replicate len 0)) (\<lambda>b. Inr (a\<lparr>wa_buf := b\<rparr>)))))"

definition wa_one :: "WordArray option \<Rightarrow> WordArray option res" where
  "wa_one wa = (case wa of None \<Rightarrow> Inr None
     | Some a \<Rightarrow> DO (wr (wa_buf a) 0 (replicate (wa_len a) 0)) (\<lambda>b.
         DO (wr b 0 [1]) (\<lambda>b. Inr (Some (a\<lparr>wa_buf := b\<rparr>)))))"

definition wa_alloc_with_one :: "mem \<Rightarrow> nat \<Rightarrow> WordArray option res" where
  "wa_alloc_with_one M len = to_ptr (CHECK_PARAM (len \<noteq> 0)
     (CHECK_NOT_NULL (wa_alloc M len) (\<lambda>a.
      DO (wr (wa_buf a) 0 (replicate len 0)) (\<lambda>b.
      DO (wr b 0 [1]) (\<lambda>b. Inr (a\<lparr>wa_buf := b\<rparr>))))))"

subsection \<open>Conversions\<close>

definition wa_alloc_from_le :: "mem \<Rightarrow> u8 list option \<Rightarrow> nat \<Rightarrow> WordArray option res" where
  "wa_alloc_from_le M inp in_len = to_ptr (NOT_NULL inp (\<lambda>i. CHECK_PARAM (in_len \<noteq> 0)
     (MALLOC_CHECKED M sizeof_WordArray (\<lambda>_.
      let n = (in_len + WORD_BYTE_LENGTH - 1) div WORD_BYTE_LENGTH
      in MALLOC_WORDS M n (\<lambda>b.
         DO (uint8_to_uint64 (big_endian M) (Some i) in_len (Some b) n) (\<lambda>b.
         Inr \<lparr>wa_buf = b, wa_len = n\<rparr>))))))"

definition wa_alloc_from_ba :: "mem \<Rightarrow> ByteArray option \<Rightarrow> WordArray option res" where
  "wa_alloc_from_ba M ba = to_ptr (NOT_NULL ba (\<lambda>a.
     CHECK_NOT_NULL (wa_alloc_from_le M (ba_buf a) (ba_len a)) Inr))"

definition wa_alloc_from_be :: "mem \<Rightarrow> u8 list option \<Rightarrow> nat \<Rightarrow> WordArray option res" where
  "wa_alloc_from_be M inp in_len = to_ptr (NOT_NULL inp (\<lambda>i. CHECK_PARAM (in_len \<noteq> 0)
     (MALLOC_CHECKED M sizeof_WordArray (\<lambda>_.
      let n = (in_len + WORD_BYTE_LENGTH - 1) div WORD_BYTE_LENGTH
      in MALLOC_WORDS M n (\<lambda>b.
         CHECK_NOT_NULL (uint8_swap_with_alloc M i in_len) (\<lambda>in_le.
         DO (uint8_to_uint64 (big_endian M) (Some in_le) in_len (Some b) n) (\<lambda>b.
         Inr \<lparr>wa_buf = b, wa_len = n\<rparr>)))))))"

text \<open>
  \<open>wa_from_ba\<close> sets the length before it reallocates; a failure leaves the array with the
  new length over the old block, or over a block that is no longer there (\<open>FREED\<close>, for no bytes
  at all), so the result carries the array in every case.
\<close>

definition wa_from_ba :: "mem \<Rightarrow> ByteArray option \<Rightarrow> WordArray \<Rightarrow> unit res \<times> WordArray" where
  "wa_from_ba M ba wa = (case ba of None \<Rightarrow> (Inl RET_INVALID_PARAM, wa)
     | Some a \<Rightarrow>
         let n = (ba_len a + WORD_BYTE_LENGTH - 1) div WORD_BYTE_LENGTH;
             wa = wa\<lparr>wa_len := n\<rparr>
         in if realloc_ok M (n * WORD_BYTE_LENGTH)
            then (let wa = wa\<lparr>wa_buf := resize_words M (wa_buf wa) n\<rparr>
                  in DO_ST (uint8_to_uint64 (big_endian M) (ba_buf a) (ba_len a) (Some (wa_buf wa)) n) wa (\<lambda>b.
                     (Inr (), wa\<lparr>wa_buf := b\<rparr>)))
            else (Inl (if n = 0 then FREED else RET_MEMORY_ALLOC_ERROR), wa))"

definition wa_to_uint8 :: "mem \<Rightarrow> WordArray option \<Rightarrow> u8 list option \<Rightarrow> nat \<Rightarrow> u8 list res" where
  "wa_to_uint8 M wa inp in_len = NOT_NULL wa (\<lambda>a. NOT_NULL inp (\<lambda>i.
     uint64_to_uint8 (big_endian M) (Some (wa_buf a)) (wa_len a) (Some i) in_len))"

definition wa_alloc_from_uint8 :: "mem \<Rightarrow> u8 list option \<Rightarrow> nat \<Rightarrow> WordArray option res" where
  "wa_alloc_from_uint8 M inp in_len = to_ptr (NOT_NULL inp (\<lambda>i. CHECK_PARAM (in_len \<noteq> 0)
     (MALLOC_CHECKED M sizeof_WordArray (\<lambda>_.
      let n = (in_len + WORD_BYTE_LENGTH - 1) div WORD_BYTE_LENGTH
      in MALLOC_WORDS M n (\<lambda>b.
         DO (uint8_to_uint64 (big_endian M) (Some i) in_len (Some b) n) (\<lambda>b.
         Inr \<lparr>wa_buf = b, wa_len = n\<rparr>))))))"

definition wa_to_ba :: "mem \<Rightarrow> WordArray option \<Rightarrow> ByteArray option res" where
  "wa_to_ba M wa = (case wa of None \<Rightarrow> Inr None
     | Some a \<Rightarrow> to_ptr (CHECK_NOT_NULL (ba_alloc_from_uint64 M (Some (wa_buf a)) (wa_len a)) Inr))"

subsection \<open>Copies and lengths\<close>

text \<open>
  \<open>same\<close> says that both arguments are the same object (\<^verbatim>\<open>in == out\<close> in the code).
\<close>

definition wa_copy :: "bool \<Rightarrow> WordArray option \<Rightarrow> WordArray option \<Rightarrow> WordArray res" where
  "wa_copy same inp out = NOT_NULL inp (\<lambda>i. NOT_NULL out (\<lambda>out. CHECK_PARAM (wa_len i \<le> wa_len out)
     (if same then Inr out
      else DO (rd (wa_buf i) 0 (wa_len i)) (\<lambda>ws. DO (wr (wa_buf out) 0 ws) (\<lambda>b.
           DO (if wa_len i < wa_len out
               then wr b (wa_len i) (replicate (wa_len out - wa_len i) 0) else Inr b) (\<lambda>b.
           Inr (out\<lparr>wa_buf := b\<rparr>)))))))"

definition wa_copy_with_alloc :: "mem \<Rightarrow> WordArray option \<Rightarrow> WordArray option res" where
  "wa_copy_with_alloc M inp = to_ptr (NOT_NULL inp (\<lambda>i.
     CHECK_NOT_NULL (wa_alloc M (wa_len i)) (\<lambda>a. wa_copy False (Some i) (Some a))))"

definition wa_copy_part :: "bool \<Rightarrow> WordArray option \<Rightarrow> nat \<Rightarrow> nat \<Rightarrow> WordArray option \<Rightarrow> WordArray res" where
  "wa_copy_part same inp off len out = NOT_NULL inp (\<lambda>i. NOT_NULL out (\<lambda>out.
     CHECK_PARAM (\<not> (wa_len i < sz_add off len) \<and> wa_len out = len \<and> \<not> same)
     (DO (rd (wa_buf i) off len) (\<lambda>ws. DO (wr (wa_buf out) 0 ws) (\<lambda>b. Inr (out\<lparr>wa_buf := b\<rparr>))))))"

text \<open>
  \<open>wa_change_len\<close> has no result: a failed reallocation leaves the array as it was, but for one to
  no bytes, which frees the block the array points to. The size in bytes wraps.
\<close>

definition wa_change_len :: "mem \<Rightarrow> WordArray \<Rightarrow> nat \<Rightarrow> WordArray res" where
  "wa_change_len M wa len =
     (let size = sz_mul len WORD_BYTE_LENGTH
      in if realloc_ok M size
         then let buf = resize_words M (wa_buf wa) (size div WORD_BYTE_LENGTH)
              in DO (if wa_len wa < len then wr buf (wa_len wa) (replicate (len - wa_len wa) 0) else Inr buf) (\<lambda>b.
                 Inr \<lparr>wa_buf = b, wa_len = len\<rparr>)
         else if size = 0 then Inl FREED
         else Inr wa)"

text \<open>What is left in the block that \<^verbatim>\<open>wa_free_private\<close> returns to the heap.\<close>

definition wa_free_private :: "mem \<Rightarrow> WordArray option \<Rightarrow> u8 list option res" where
  "wa_free_private M wa = (case wa of None \<Rightarrow> Inr None
     | Some a \<Rightarrow>
         let block = Some (store_words (big_endian M) (wa_buf a))
         in if wa_len a > 0 then secure_zero block (wa_len a * WORD_BYTE_LENGTH) else Inr block)"

subsection \<open>Bit length and comparison\<close>

definition word_bit_len :: "word_t \<Rightarrow> nat" where
  "word_bit_len a =
     (if a < 0x100000000 then
       (if a < 0x10000 then
         (if a < 0x100 then
           (if a < 0x10 then
             (if a < 0x4 then
               (if a < 0x2 then (if a < 0x1 then 0 else 1) else 2)
             else
               (if a < 0x8 then 3 else 4))
           else
             (if a < 0x40 then (if a < 0x20 then 5 else 6) else (if a < 0x80 then 7 else 8)))
         else
           (if a < 0x1000 then
             (if a < 0x400 then (if a < 0x200 then 9 else 10) else (if a < 0x800 then 11 else 12))
           else
             (if a < 0x4000 then (if a < 0x2000 then 13 else 14) else (if a < 0x8000 then 15 else 16))))
       else
         (if a < 0x1000000 then
           (if a < 0x100000 then
             (if a < 0x40000 then (if a < 0x20000 then 17 else 18) else (if a < 0x80000 then 19 else 20))
           else
             (if a < 0x400000 then (if a < 0x200000 then 21 else 22) else (if a < 0x800000 then 23 else 24)))
         else
           (if a < 0x10000000 then
             (if a < 0x4000000 then (if a < 0x2000000 then 25 else 26) else (if a < 0x8000000 then 27 else 28))
           else
             (if a < 0x40000000 then (if a < 0x20000000 then 29 else 30) else (if a < 0x80000000 then 31 else 32)))))
     else
       (if a < 0x1000000000000 then
         (if a < 0x10000000000 then
           (if a < 0x1000000000 then
             (if a < 0x400000000 then (if a < 0x200000000 then 33 else 34) else (if a < 0x800000000 then 35 else 36))
           else
             (if a < 0x4000000000 then (if a < 0x2000000000 then 37 else 38) else (if a < 0x8000000000 then 39 else 40)))
         else
           (if a < 0x100000000000 then
             (if a < 0x40000000000 then (if a < 0x20000000000 then 41 else 42) else (if a < 0x80000000000 then 43 else 44))
           else
             (if a < 0x400000000000 then (if a < 0x200000000000 then 45 else 46) else (if a < 0x800000000000 then 47 else 48))))
       else
         (if a < 0x100000000000000 then
           (if a < 0x10000000000000 then
             (if a < 0x4000000000000 then (if a < 0x2000000000000 then 49 else 50) else (if a < 0x8000000000000 then 51 else 52))
           else
             (if a < 0x40000000000000 then (if a < 0x20000000000000 then 53 else 54) else (if a < 0x80000000000000 then 55 else 56)))
         else
           (if a < 0x1000000000000000 then
             (if a < 0x400000000000000 then (if a < 0x200000000000000 then 57 else 58) else (if a < 0x800000000000000 then 59 else 60))
           else
             (if a < 0x4000000000000000 then (if a < 0x2000000000000000 then 61 else 62) else (if a < 0x8000000000000000 then 63 else 64))))))"

text \<open>\<open>wa_cmp\<close> compares lengths and then the bytes of the words as the host stores them.\<close>

definition wa_cmp :: "mem \<Rightarrow> WordArray \<Rightarrow> WordArray \<Rightarrow> int res" where
  "wa_cmp M a b =
     (if wa_len a \<noteq> wa_len b then Inr (int_of_size (wa_len a) (wa_len b))
      else DO (rd (wa_buf a) 0 (wa_len a)) (\<lambda>xs. DO (rd (wa_buf b) 0 (wa_len a)) (\<lambda>ys.
        Inr (memcmp (store_words (big_endian M) xs) (store_words (big_endian M) ys)))))"

subsection \<open>Values\<close>

definition WB :: nat where "WB = 2 ^ 64"

definition wval :: "word_t list \<Rightarrow> nat" where
  "wval ws = nat_le WB (map unat ws)"

lemma WB_gt [simp]: "0 < WB" "Suc 0 < WB" "1 < WB" "2 < WB" "WB \<noteq> 0"
  by (simp_all add: WB_def)

lemma unat_less_WB [simp]: "unat (w::word_t) < WB"
  using unsigned_less[of w] by (simp add: WB_def)

lemma wval_Nil [simp]: "wval [] = 0"
  by (simp add: wval_def)

lemma wval_Cons [simp]: "wval (w # ws) = unat w + WB * wval ws"
  by (simp add: wval_def)

lemma wval_append: "wval (xs @ ys) = wval xs + WB ^ length xs * wval ys"
  by (simp add: wval_def nat_le_append)

lemma wval_replicate_0 [simp]: "wval (replicate n 0) = 0"
  by (induction n) simp_all

lemma wval_less: "wval ws < WB ^ length ws"
  unfolding wval_def using nat_le_bound[of "map unat ws" WB] by fastforce

lemma wval_eq_0_iff: "wval ws = 0 \<longleftrightarrow> (\<forall>w\<in>set ws. w = 0)"
  by (induction ws) (auto simp: unat_eq_0)

lemma wval_inj: "length xs = length ys \<Longrightarrow> wval xs = wval ys \<Longrightarrow> xs = ys"
proof -
  assume l: "length xs = length ys" and v: "wval xs = wval ys"
  have d: "digits_le WB (length ws) (wval ws) = map unat ws" for ws
    unfolding wval_def using digits_nat_le[of "map unat ws" WB] by fastforce
  have "map unat xs = map unat ys" by (metis d l v)
  moreover have "inj (unat :: word_t \<Rightarrow> nat)" by (rule injI) (rule word_unat_eq_iff[THEN iffD2])
  ultimately show ?thesis by (simp only: inj_map_eq_map)
qed

definition bits_of :: "nat \<Rightarrow> nat \<Rightarrow> bool" where
  "bits_of n v \<longleftrightarrow> v < 2 ^ n \<and> (n = 0 \<or> 2 ^ (n - 1) \<le> v)"

lemma bits_of_if:
  fixes a :: word_t
  assumes "a < k \<Longrightarrow> bits_of x (unat a)" and "k \<le> a \<Longrightarrow> bits_of y (unat a)"
  shows "bits_of (if a < k then x else y) (unat a)"
  using assms by (simp add: not_less)

lemma bits_of_word_bit_len: "bits_of (word_bit_len w) (unat w)"
proof -
  have "unat w < 18446744073709551616" using unat_less_WB[of w] by (simp add: WB_def)
  then show ?thesis unfolding word_bit_len_def
    by (intro bits_of_if; simp add: bits_of_def word_less_nat_alt word_le_nat_alt)
qed

lemma WB_bytes: "WB = 256 ^ 8"
  by (simp add: WB_def)

lemma nat_le_bytes_of_word:
  assumes "8 dvd LENGTH('a)"
  shows "nat_le 256 (map unat (bytes_of_word False (w::'a::len word))) = unat w"
proof -
  have "map unat (bytes_of_word False w) = digits_le 256 (LENGTH('a) div 8) (unat w)"
    using unat_of_digits_256[of "LENGTH('a) div 8" "unat w"] by (simp add: bytes_of_word_def Let_def)
  then show ?thesis
    using unsigned_less[of w] by (simp add: nat_le_digits pow_256[OF assms])
qed

lemma wval_bytes: "nat_le 256 (map unat (store_words False (ws::word_t list))) = wval ws"
  by (induction ws)
     (simp_all add: store_words_Cons nat_le_append nat_le_bytes_of_word WB_bytes wval_def store_words_def)

lemma wval_load_words:
  "8 dvd length bs \<Longrightarrow> wval (load_words False bs) = nat_le 256 (map unat bs)"
  using wval_bytes[of "load_words False bs"] by simp

lemma wval_load_padded:
  assumes "k = 8 * m - length bs" and "length bs \<le> 8 * m"
  shows "wval (load_words False (bs @ replicate k 0)) = nat_le 256 (map unat bs)"
  using assms by (simp add: wval_load_words nat_le_append map_replicate_const)

subsection \<open>What the operations compute\<close>

lemma length_fresh_words [simp]: "length (fresh_words M n) = n"
  by (simp add: fresh_words_def WORD_BYTE_LENGTH_def)

lemma length_resize_words [simp]: "length (resize_words M b n) = n"
  by (simp add: resize_words_def min_def)

lemma mk_wa_sel [simp]: "wa_buf (mk_wa ws) = ws" "wa_len (mk_wa ws) = length ws"
  by (simp_all add: mk_wa_def)

lemma wf_mk_wa [simp, wf_rules]: "wf_wa (mk_wa ws)"
  by (simp add: wf_wa_def)

lemma raw_wa [simp]: "length b = n \<Longrightarrow> \<lparr>wa_buf = b, wa_len = n\<rparr> = mk_wa b"
  by (simp add: mk_wa_def)

lemma upd_wa [simp]: "wf_wa a \<Longrightarrow> length b = wa_len a \<Longrightarrow> a\<lparr>wa_buf := b\<rparr> = mk_wa b"
  by (cases a) (simp add: mk_wa_def del: raw_wa)

lemma wf_wa_mk: "wf_wa a \<Longrightarrow> a = mk_wa (wa_buf a)"
  by (cases a) (simp add: mk_wa_def wf_wa_def del: raw_wa)

lemma MALLOC_WORDS_ok [simp]: "mem_ok M \<Longrightarrow> MALLOC_WORDS M n k = k (fresh_words M n)"
  by (simp add: MALLOC_WORDS_def)

lemma wa_alloc_ok [simp]:
  "mem_ok M \<Longrightarrow> 0 < n \<Longrightarrow> wa_alloc M n = Inr (Some (mk_wa (fresh_words M n)))"
  by (simp add: wa_alloc_def)

lemma wa_alloc_with_zero_ok [simp]:
  "mem_ok M \<Longrightarrow> 0 < n \<Longrightarrow> wa_alloc_with_zero M n = Inr (Some (mk_wa (replicate n 0)))"
  by (simp add: wa_alloc_with_zero_def)

lemma wa_zero_ok [simp]: "wf_wa a \<Longrightarrow> wa_zero (Some a) = Inr (Some (mk_wa (replicate (wa_len a) 0)))"
  by (simp add: wa_zero_def wf_wa_def)

lemma wa_copy_with_alloc_ok [simp]:
  "mem_ok M \<Longrightarrow> wf_wa a \<Longrightarrow> 0 < wa_len a \<Longrightarrow> wa_copy_with_alloc M (Some a) = Inr (Some a)"
  using wf_wa_mk[of a] by (simp add: wa_copy_with_alloc_def wa_copy_def wf_wa_def)

lemma wa_copy_ok [simp]:
  "wf_wa a \<Longrightarrow> wf_wa b \<Longrightarrow> wa_len a = wa_len b \<Longrightarrow> wa_copy False (Some a) (Some b) = Inr a"
  using wf_wa_mk[of a] by (simp add: wa_copy_def wf_wa_def)

lemma wa_copy_part_ok [simp]:
  "wf_wa a \<Longrightarrow> wf_wa b \<Longrightarrow> wa_len b = n \<Longrightarrow> off + n \<le> wa_len a \<Longrightarrow> wa_len a < SIZE_MOD \<Longrightarrow>
   wa_copy_part False (Some a) off n (Some b) = Inr (mk_wa (take n (drop off (wa_buf a))))"
  by (simp add: wa_copy_part_def wf_wa_def)

lemma wa_change_len_grow [simp]:
  "mem_ok M \<Longrightarrow> wf_wa a \<Longrightarrow> wa_len a < n \<Longrightarrow> n * 8 < SIZE_MOD \<Longrightarrow>
   wa_change_len M a n = Inr (mk_wa (wa_buf a @ replicate (n - wa_len a) 0))"
  by (simp add: wa_change_len_def wf_wa_def mem_ok_def WORD_BYTE_LENGTH_def resize_words_def Let_def)

lemma wa_alloc_from_le_ok:
  assumes "mem_ok M" and "0 < n" and "n \<le> length i"
  defines "m \<equiv> (n + 7) div 8"
  shows "wa_alloc_from_le M (Some i) n
     = Inr (Some (mk_wa (load_words False (take n i @ replicate (8 * m - n) 0))))"
proof -
  have "n \<le> 8 * m" unfolding m_def by presburger
  then show ?thesis using assms
    by (simp add: wa_alloc_from_le_def WORD_BYTE_LENGTH_def uint8_to_uint64_eq Let_def min_def add.commute)
qed

lemma wa_alloc_from_be_ok:
  assumes "mem_ok M" and "0 < n" and "n \<le> length i"
  defines "m \<equiv> (n + 7) div 8"
  shows "wa_alloc_from_be M (Some i) n
     = Inr (Some (mk_wa (load_words False (rev (take n i) @ replicate (8 * m - n) 0))))"
proof -
  have "n \<le> 8 * m" unfolding m_def by presburger
  then show ?thesis using assms
    by (simp add: wa_alloc_from_be_def WORD_BYTE_LENGTH_def uint8_to_uint64_eq uint8_swap_with_alloc_eq
        Let_def min_def add.commute)
qed

lemma wa_to_ba_ok:
  "mem_ok M \<Longrightarrow> wf_wa a \<Longrightarrow> 0 < wa_len a \<Longrightarrow>
   wa_to_ba M (Some a) = Inr (Some (mk_ba (store_words False (wa_buf a))))"
  by (simp add: wa_to_ba_def ba_alloc_from_uint64_eq wf_wa_def)

text \<open>(C13) Big-endian bytes become the word array of the number they denote, on hosts of both byte
  orders, and writing the words back gives the bytes in little-endian order, filled up with zero
  bytes to whole words.\<close>

theorem wa_bytes_value:
  assumes "mem_ok M" and "bs \<noteq> []"
  shows "\<exists>a. wa_alloc_from_be M (Some bs) (length bs) = Inr (Some a) \<and> wf_wa a
     \<and> wval (wa_buf a) = nat_le 256 (map unat (rev bs))
     \<and> wa_to_ba M (Some a) = Inr (Some (mk_ba (rev bs @ replicate (8 * wa_len a - length bs) 0)))"
proof -
  define m where "m = (length bs + 7) div 8"
  have m: "length bs \<le> 8 * m" "0 < m"
    unfolding m_def using assms(2) length_greater_0_conv[of bs] by presburger+
  let ?ws = "load_words False (rev bs @ replicate (8 * m - length bs) 0) :: word_t list"
  have l: "length ?ws = m" using m by simp
  have "wa_alloc_from_be M (Some bs) (length bs) = Inr (Some (mk_wa ?ws))"
    using assms wa_alloc_from_be_ok[of M "length bs" bs] by (simp add: m_def)
  moreover have "wval ?ws = nat_le 256 (map unat (rev bs))"
    using m by (intro wval_load_padded) simp_all
  moreover have "store_words False ?ws = rev bs @ replicate (8 * m - length bs) 0"
    using m by (intro store_load_words) simp_all
  moreover have "wa_to_ba M (Some (mk_wa ?ws)) = Inr (Some (mk_ba (store_words False ?ws)))"
    using assms m l wa_to_ba_ok[of M "mk_wa ?ws"] by simp
  ultimately show ?thesis using l by auto
qed

lemma wa_bytes_value_witness:
  "\<exists>a. wa_alloc_from_be ideal_mem (Some [1, 0, 0, 0, 0, 0, 0, 0, 2]) (length [1::u8, 0, 0, 0, 0, 0, 0, 0, 2]) = Inr (Some a)
     \<and> wval (wa_buf a) = 2 ^ 64 + 2"
  using wa_bytes_value[of ideal_mem "[1, 0, 0, 0, 0, 0, 0, 0, 2]"] by auto

end
