(* ===== verification/MathDword.thy ===== *)
theory MathDword
  imports WordArr
begin

text \<open>
  The double-word arithmetic of \<^verbatim>\<open>math-int-internal.c\<close> for the builds with 64-bit words:
  sums, differences, shifts and products of words with a carry, and the division of a double word
  by a word. A loop whose end depends on its data is a partial function, and a call that does
  not return is \<open>None\<close>.
\<close>

subsection \<open>Double words\<close>

record Dword =
  lo :: word_t
  hi :: word_t

abbreviation Dw :: "word_t \<Rightarrow> word_t \<Rightarrow> Dword" where
  "Dw h l \<equiv> \<lparr>lo = l, hi = h\<rparr>"

definition word_lshift_64 :: "word_t \<Rightarrow> int \<Rightarrow> Dword" where
  "word_lshift_64 a shift =
     (let low = a; shift = nat (shift AND 127)
      in if shift = 0 then Dw 0 a
         else if shift < WORD_BIT_LENGTH
         then Dw (drop_bit (WORD_BIT_LENGTH - shift) low) (push_bit shift low)
         else Dw (push_bit (shift - WORD_BIT_LENGTH) low) 0)"

definition word_add_word_64 :: "Dword \<Rightarrow> word_t \<Rightarrow> Dword" where
  "word_add_word_64 a b =
     (let out_lo = lo a + b
      in Dw (if out_lo < lo a then hi a + 1 else hi a) out_lo)"

definition word_add_64 :: "Dword \<Rightarrow> Dword \<Rightarrow> Dword" where
  "word_add_64 a b =
     (let out_lo = lo a + lo b; out_hi = hi a + hi b
      in Dw (if out_lo < lo a then out_hi + 1 else out_hi) out_lo)"

definition word_sub_64 :: "Dword \<Rightarrow> Dword \<Rightarrow> Dword" where
  "word_sub_64 a b = Dw (if lo a < lo b then hi a - hi b - 1 else hi a - hi b) (lo a - lo b)"

definition word_sub_word_64 :: "Dword \<Rightarrow> word_t \<Rightarrow> Dword" where
  "word_sub_word_64 a b = Dw (if lo a < b then hi a - 1 else hi a) (lo a - b)"

definition word_cmp_64 :: "Dword \<Rightarrow> Dword \<Rightarrow> int" where
  "word_cmp_64 a b =
     (if hi a > hi b then 1 else if hi a < hi b then -1
      else if lo a < lo b then -1 else if lo a > lo b then 1 else 0)"

definition WORD_LO :: "word_t \<Rightarrow> word_t" where "WORD_LO a = a AND 0xffffffff"
definition WORD_HI :: "word_t \<Rightarrow> word_t" where "WORD_HI a = drop_bit 32 a"

definition word_mul_64 :: "word_t \<Rightarrow> word_t \<Rightarrow> Dword" where
  "word_mul_64 a b =
     (let a_lo = WORD_LO a; a_hi = WORD_HI a; b_lo = WORD_LO b; b_hi = WORD_HI b;
          ab_hi = a_hi * b_hi; ab_mid = a_hi * b_lo; ba_mid = b_hi * a_lo; ab_lo = a_lo * b_lo;
          carry_bit = WORD_HI (WORD_LO ab_mid + WORD_LO ba_mid + WORD_HI ab_lo)
      in Dw (ab_hi + WORD_HI ab_mid + WORD_HI ba_mid + carry_bit)
            (push_bit 32 ab_mid + push_bit 32 ba_mid + ab_lo))"

text \<open>
  \<^verbatim>\<open>word_div\<close> subtracts the largest shifted multiple of the divisor that fits. Its loop
  has no bound of its own: with divisor 0 it never ends.
\<close>

definition word_div_shift :: "Dword \<Rightarrow> word_t \<Rightarrow> int" where
  "word_div_shift rh b =
     (let rshift = word_bit_len (hi rh);
          rshift = int rshift + (if rshift = 0 then int (word_bit_len (lo rh)) else int WORD_BIT_LENGTH);
          rshift = rshift - int (word_bit_len b)
      in if word_cmp_64 rh (word_lshift_64 b rshift) < 0 then rshift - 1 else rshift)"

partial_function (option) word_div_loop :: "word_t \<Rightarrow> Dword \<Rightarrow> Dword \<Rightarrow> (Dword \<times> Dword) option" where
  "word_div_loop b rh qh =
     (if hi rh > 0 \<or> lo rh \<ge> b
      then word_div_loop b (word_sub_64 rh (word_lshift_64 b (word_div_shift rh b)))
             (word_add_64 qh (word_lshift_64 1 (word_div_shift rh b)))
      else Some (rh, qh))"

definition word_div :: "Dword \<Rightarrow> word_t \<Rightarrow> (Dword \<times> word_t) option" where
  "word_div a b = (case word_div_loop b a (Dw 0 0) of None \<Rightarrow> None
     | Some (rh, qh) \<Rightarrow> Some (qh, lo rh))"

subsection \<open>Values of double words\<close>

definition dval :: "Dword \<Rightarrow> nat" where
  "dval d = unat (hi d) * WB + unat (lo d)"

lemma dval_Dw [simp]: "dval (Dw h l) = unat h * WB + unat l"
  by (simp add: dval_def)

lemma dval_less: "dval d < WB * WB"
proof -
  have "dval d < (unat (hi d) + 1) * WB" by (simp add: dval_def)
  also have "\<dots> \<le> WB * WB" by (intro mult_le_mono1) (simp add: Suc_leI)
  finally show ?thesis .
qed

lemma dval_hi_lo: "unat (hi d) = dval d div WB" "unat (lo d) = dval d mod WB"
  by (simp_all add: dval_def)

lemma add_carry:
  fixes a b :: word_t
  shows "unat (a + b) + (if a + b < a then WB else 0) = unat a + unat b"
proof -
  have s: "unat (a + b) = (unat a + unat b) mod WB"
    by (simp add: unat_word_ariths WB_def)
  have a: "unat a < WB" and b: "unat b < WB" by simp_all
  have c: "a + b < a \<longleftrightarrow> (unat a + unat b) mod WB < unat a" by (simp add: word_less_nat_alt s)
  show ?thesis
  proof (cases "unat a + unat b < WB")
    case True
    then show ?thesis unfolding c s by simp
  next
    case False
    then have "(unat a + unat b) mod WB = unat a + unat b - WB"
      using a b by (simp add: le_mod_geq not_less del: unat_less_WB)
    then show ?thesis unfolding c s using False a b by (simp del: unat_less_WB)
  qed
qed

lemma sub_borrow:
  fixes a b :: word_t
  shows "unat (a - b) + unat b = unat a + (if a < b then WB else 0)"
proof -
  have "unat a < WB" "unat b < WB" "unat (a - b) < WB" by simp_all
  with add_carry[of "a - b" b] show ?thesis
    by (simp add: word_less_nat_alt del: unat_less_WB split: if_splits)
qed

lemma dval_add_word:
  assumes "dval a + unat b < WB * WB"
  shows "dval (word_add_word_64 a b) = dval a + unat b"
proof -
  have c: "unat (lo a + b) + (if lo a + b < lo a then WB else 0) = unat (lo a) + unat b" by (rule add_carry)
  show ?thesis
  proof (cases "lo a + b < lo a")
    case True
    have "(unat (hi a) + 1) * WB \<le> dval a + unat b" using c True by (simp add: dval_def)
    then have "unat (hi a) + 1 < WB" using assms by (metis le_less_trans mult_less_cancel2)
    then have "unat (hi a + 1) = unat (hi a) + 1"
      using add_carry[of "hi a" 1] by (auto split: if_splits)
    then show ?thesis using c True by (simp add: word_add_word_64_def Let_def dval_def)
  next
    case False
    then show ?thesis using c by (simp add: word_add_word_64_def Let_def dval_def)
  qed
qed

lemma dval_add:
  assumes "dval a + dval b < WB * WB"
  shows "dval (word_add_64 a b) = dval a + dval b"
proof -
  let ?c = "if lo a + lo b < lo a then 1 else 0 :: nat"
  have c: "unat (lo a + lo b) + ?c * WB = unat (lo a) + unat (lo b)"
    using add_carry[of "lo a" "lo b"] by (auto split: if_splits)
  have s: "dval a + dval b = (unat (hi a) + unat (hi b) + ?c) * WB + unat (lo a + lo b)"
    using c by (simp add: dval_def algebra_simps)
  then have h: "unat (hi a) + unat (hi b) + ?c < WB"
    using assms by (metis add_lessD1 mult_less_cancel2)
  then have "unat (hi a + hi b) = unat (hi a) + unat (hi b)"
    using add_carry[of "hi a" "hi b"] by (auto split: if_splits)
  moreover from this have "unat (hi a + hi b + 1) = unat (hi a + hi b) + 1" if "?c = 1"
    using add_carry[of "hi a + hi b" 1] h that by (auto split: if_splits)
  ultimately show ?thesis
    using s by (auto simp: word_add_64_def Let_def split: if_splits)
qed

lemma dval_sub_word:
  assumes "unat b \<le> dval a"
  shows "dval (word_sub_word_64 a b) = dval a - unat b"
proof -
  have c: "unat (lo a - b) + unat b = unat (lo a) + (if lo a < b then WB else 0)" by (rule sub_borrow)
  show ?thesis
  proof (cases "lo a < b")
    case True
    then have "unat (hi a) \<noteq> 0" using assms by (metis add_0 dval_def mult_0 not_le word_less_nat_alt)
    then have h: "unat (hi a - 1) = unat (hi a) - 1" "0 < unat (hi a)"
      using sub_borrow[of "hi a" 1] by (auto simp: word_less_nat_alt split: if_splits)
    then obtain k where k: "unat (hi a) = Suc k" by (cases "unat (hi a)") auto
    show ?thesis using c True h k by (simp add: word_sub_word_64_def dval_def)
  next
    case False
    then show ?thesis using c by (simp add: word_sub_word_64_def dval_def)
  qed
qed

lemma dval_sub:
  assumes "dval b \<le> dval a"
  shows "dval (word_sub_64 a b) = dval a - dval b"
proof -
  let ?c = "if lo a < lo b then 1 else 0 :: nat"
  have c: "unat (lo a - lo b) + unat (lo b) = unat (lo a) + ?c * WB"
    using sub_borrow[of "lo a" "lo b"] by (auto split: if_splits)
  have "unat (hi b) + ?c \<le> unat (hi a)"
  proof (rule ccontr)
    assume "\<not> unat (hi b) + ?c \<le> unat (hi a)"
    then have "(unat (hi a) + 1) * WB \<le> (unat (hi b) + ?c) * WB" by (intro mult_le_mono1) simp
    then have "dval a + WB \<le> (unat (hi b) + ?c) * WB + unat (lo a)" by (simp add: dval_def)
    also have "\<dots> = dval b + unat (lo a - lo b)"
      using c by (simp add: dval_def algebra_simps)
    finally have "dval a + WB \<le> dval b + unat (lo a - lo b)" .
    moreover have "unat (lo a - lo b) < WB" by simp
    ultimately show False using assms by linarith
  qed
  moreover from this have "unat (hi a - hi b) = unat (hi a) - unat (hi b)"
    using sub_borrow[of "hi a" "hi b"] by (auto simp: word_less_nat_alt split: if_splits)
  moreover from calculation have "unat (hi a - hi b - 1) = unat (hi a) - unat (hi b) - 1" if "?c = 1"
    using sub_borrow[of "hi a - hi b" 1] that by (auto simp: word_less_nat_alt split: if_splits)
  ultimately obtain k where "unat (hi a) = unat (hi b) + ?c + k"
      and "unat (if lo a < lo b then hi a - hi b - 1 else hi a - hi b) = k"
    by (auto simp: le_iff_add split: if_splits)
  then show ?thesis using c by (simp add: word_sub_64_def dval_def algebra_simps)
qed

lemma dval_cmp: "word_cmp_64 a b < 0 \<longleftrightarrow> dval a < dval b" "word_cmp_64 a b > 0 \<longleftrightarrow> dval b < dval a"
proof -
  have less: "x * WB + y < x' * WB + y'" if "x < x'" "y < WB" for x y x' y'
  proof -
    have "x * WB + y < (x + 1) * WB" using that by simp
    also have "\<dots> \<le> x' * WB" using that by (intro mult_le_mono1) simp
    finally show ?thesis by simp
  qed
  consider "hi a < hi b" | "hi b < hi a" | "hi a = hi b" by (rule linorder_cases)
  then have "(word_cmp_64 a b < 0 \<longleftrightarrow> dval a < dval b) \<and> (word_cmp_64 a b > 0 \<longleftrightarrow> dval b < dval a)"
  proof cases
    case 1
    then have "dval a < dval b" unfolding dval_def by (intro less) (simp_all add: word_less_nat_alt)
    then show ?thesis using 1 by (simp add: word_cmp_64_def)
  next
    case 2
    then have "dval b < dval a" unfolding dval_def by (intro less) (simp_all add: word_less_nat_alt)
    then show ?thesis using 2 by (simp add: word_cmp_64_def)
  next
    case 3
    then show ?thesis by (simp add: word_cmp_64_def dval_def word_less_nat_alt)
  qed
  then show "word_cmp_64 a b < 0 \<longleftrightarrow> dval a < dval b" "word_cmp_64 a b > 0 \<longleftrightarrow> dval b < dval a" by auto
qed

lemma unat_drop: "unat (drop_bit n a) = unat a div 2 ^ n" for a :: word_t
proof -
  have "take_bit 64 (unat a) = unat a" using unat_less_WB[of a] unfolding WB_def by (rule take_bit_nat_eq_self)
  then show ?thesis unfolding unsigned_drop_bit_eq by (simp add: drop_bit_eq_div)
qed

lemma half_words:
  "unat (WORD_LO a) = unat a mod 2 ^ 32" "unat (WORD_HI a) = unat a div 2 ^ 32"
proof -
  have "WORD_LO a = take_bit 32 a" by (simp add: WORD_LO_def take_bit_eq_mask mask_eq_exp_minus_1)
  then show "unat (WORD_LO a) = unat a mod 2 ^ 32" by (simp only: unsigned_take_bit_eq) (simp only: take_bit_eq_mod)
  show "unat (WORD_HI a) = unat a div 2 ^ 32"
    unfolding WORD_HI_def by (rule unat_drop)
qed

lemma unat_sum_exact: "unat a + unat b < WB \<Longrightarrow> unat (a + b) = unat a + unat (b::word_t)"
  using add_carry[of a b] by (auto split: if_splits)

lemma unat_prod_exact: "unat a * unat b < WB \<Longrightarrow> unat (a * b) = unat a * unat (b::word_t)"
  by (simp add: unat_word_ariths WB_def)

lemma unat_mod_WB:
  "unat (a + b) = (unat a + unat b) mod WB" "unat (a * b) = (unat a * unat b) mod WB"
  for a b :: word_t
  by (simp_all add: unat_word_ariths WB_def)

lemma unat_push: "unat (push_bit n a) = (unat a * 2 ^ n) mod WB" for a :: word_t
  unfolding unsigned_push_bit_eq by (simp add: take_bit_eq_mod push_bit_eq_mult WB_def)

lemma split_product:
  fixes H :: nat
  assumes "0 < H" "x1 < H" "x2 < H" "y1 < H" "y2 < H"
  defines "m1 \<equiv> x1 * y2" and "m2 \<equiv> y1 * x2" and "l \<equiv> x2 * y2"
  defines "S \<equiv> m1 mod H + m2 mod H + l div H"
  shows "(x1 * H + x2) * (y1 * H + y2)
     = (x1 * y1 + m1 div H + m2 div H + S div H) * (H * H) + ((m1 mod H) * H + (m2 mod H) * H + l) mod (H * H)"
proof -
  have "(m1 mod H) * H + (m2 mod H) * H + l = S * H + l mod H"
    unfolding S_def by (simp add: algebra_simps)
  also have "S * H = (S div H * H + S mod H) * H" by (simp only: div_mult_mod_eq)
  also have "\<dots> + l mod H = (S div H) * (H * H) + ((S mod H) * H + l mod H)"
    by (simp only: algebra_simps)
  finally have e: "(m1 mod H) * H + (m2 mod H) * H + l = (S div H) * (H * H) + ((S mod H) * H + l mod H)" .
  have "(S mod H) * H + l mod H < (S mod H + 1) * H" using assms(1) by simp
  also have "\<dots> \<le> H * H" using assms(1) by (intro mult_le_mono1) (simp add: Suc_leI)
  finally have r: "((m1 mod H) * H + (m2 mod H) * H + l) mod (H * H) = (S mod H) * H + l mod H"
    unfolding e by simp
  have "(x1 * H + x2) * (y1 * H + y2) = x1 * y1 * (H * H) + (m1 + m2) * H + l"
    unfolding m1_def m2_def l_def by (simp add: algebra_simps)
  also have "(m1 + m2) * H = (m1 div H + m2 div H) * (H * H) + ((m1 mod H) * H + (m2 mod H) * H)"
  proof -
    have "(m1 + m2) * H = (m1 div H * H + m1 mod H + (m2 div H * H + m2 mod H)) * H"
      by (simp only: div_mult_mod_eq)
    then show ?thesis by (simp only: algebra_simps)
  qed
  finally show ?thesis unfolding r using e by (simp add: algebra_simps)
qed

lemma dval_mul: "dval (word_mul_64 a b) = unat a * unat b"
proof -
  define H :: nat where "H = 2 ^ 32"
  have H: "0 < H" "H * H = WB" "3 * H < WB" by (simp_all add: H_def WB_def)
  note half = half_words[folded H_def]
  let ?x1 = "unat (WORD_HI a)" and ?x2 = "unat (WORD_LO a)"
  let ?y1 = "unat (WORD_HI b)" and ?y2 = "unat (WORD_LO b)"
  have lt: "x div H < H" if "x < WB" for x
    using that by (simp add: less_mult_imp_div_less H(2))
  have le: "?x1 < H" "?x2 < H" "?y1 < H" "?y2 < H"
    unfolding half using H by (simp_all add: lt)
  have ab: "unat a = ?x1 * H + ?x2" "unat b = ?y1 * H + ?y2"
    by (simp_all only: half div_mult_mod_eq)
  have small: "x * y < WB" if "x < H" "y < H" for x y
    unfolding H(2)[symmetric] using that by (intro mult_strict_mono) simp_all
  define m1 m2 l where "m1 = ?x1 * ?y2" and "m2 = ?y1 * ?x2" and "l = ?x2 * ?y2"
  have ml: "m1 < WB" "m2 < WB" "l < WB" unfolding m1_def m2_def l_def by (intro small le)+
  have u: "unat (WORD_HI a * WORD_LO b) = m1" "unat (WORD_HI b * WORD_LO a) = m2"
      "unat (WORD_LO a * WORD_LO b) = l" "unat (WORD_HI a * WORD_HI b) = ?x1 * ?y1"
    unfolding m1_def m2_def l_def by (intro unat_prod_exact small le)+
  define S where "S = m1 mod H + m2 mod H + l div H"
  have "m1 mod H < H" "m2 mod H < H" "l div H < H" using H ml lt by simp_all
  then have S: "S < WB" "m1 mod H + m2 mod H < WB" using H(3) unfolding S_def by linarith+
  let ?hi = "?x1 * ?y1 + m1 div H + m2 div H + S div H"
  let ?lo = "((m1 mod H) * H + (m2 mod H) * H + l) mod WB"
  have tot: "unat a * unat b = ?hi * WB + ?lo"
    unfolding ab[THEN arg_cong[where f = "\<lambda>x. x"]] m1_def m2_def l_def S_def
    using split_product[OF H(1) le] unfolding H(2) by simp
  have "unat a * unat b < WB * WB" by (intro mult_strict_mono) simp_all
  then have hi: "?hi < WB" unfolding tot by (metis add_lessD1 mult_less_cancel2)
  define m1w m2w lw where "m1w = WORD_HI a * WORD_LO b" and "m2w = WORD_HI b * WORD_LO a"
    and "lw = WORD_LO a * WORD_LO b"
  note uw = u(1-3)[folded m1w_def m2w_def lw_def]
  have "unat (WORD_LO m1w + WORD_LO m2w) = m1 mod H + m2 mod H"
    by (subst unat_sum_exact) (simp_all only: half uw S)
  then have "unat (WORD_LO m1w + WORD_LO m2w + WORD_HI lw) = S"
    by (subst unat_sum_exact) (simp_all only: half uw S S_def[symmetric])
  then have c: "unat (WORD_HI (WORD_LO m1w + WORD_LO m2w + WORD_HI lw)) = S div H"
    by (simp only: half)
  let ?h = "WORD_HI a * WORD_HI b"
  have h1: "unat (?h + WORD_HI m1w) = ?x1 * ?y1 + m1 div H"
    using hi by (subst unat_sum_exact) (simp_all only: half uw u(4))
  have h2: "unat (?h + WORD_HI m1w + WORD_HI m2w) = ?x1 * ?y1 + m1 div H + m2 div H"
    using hi by (subst unat_sum_exact) (simp_all only: half uw h1)
  have h3: "unat (?h + WORD_HI m1w + WORD_HI m2w + WORD_HI (WORD_LO m1w + WORD_LO m2w + WORD_HI lw)) = ?hi"
    using hi by (subst unat_sum_exact) (simp_all only: h2 c)
  have "(m * 2 ^ 32) mod WB = (m mod H) * H" for m
    unfolding H(2)[symmetric] H_def[symmetric] by (rule mod_mult_mult2)
  then have "unat (push_bit 32 m1w + push_bit 32 m2w + lw) = ?lo"
    by (simp only: unat_mod_WB unat_push uw) (simp add: mod_simps)
  then show ?thesis
    using h3 tot unfolding m1w_def m2w_def lw_def by (simp add: word_mul_64_def Let_def)
qed

lemma dval_lshift:
  assumes "0 \<le> s" "s < 128" "unat a * 2 ^ nat s < WB * WB"
  shows "dval (word_lshift_64 a s) = unat a * 2 ^ nat s"
proof -
  define n where "n = nat s"
  have "s AND 127 = s mod 128"
    using take_bit_eq_mask[of 7 s] take_bit_eq_mod[of 7 s] by (simp add: mask_eq_exp_minus_1)
  then have n: "nat (s AND 127) = n" "n < 128" using assms(1,2) by (simp_all add: n_def)
  consider "n = 0" | "0 < n" "n < 64" | "64 \<le> n" by linarith
  then show ?thesis
  proof cases
    case 1
    then show ?thesis using n by (simp add: word_lshift_64_def Let_def n_def)
  next
    case 2
    then have p: "WB = 2 ^ (64 - n) * 2 ^ n" unfolding WB_def power_add[symmetric] by simp
    have "unat a * 2 ^ n div (2 ^ (64 - n) * 2 ^ n) = unat a div 2 ^ (64 - n)" by (rule div_mult_mult2) simp
    then have "unat a * 2 ^ n div WB = unat a div 2 ^ (64 - n)" by (simp only: p)
    then show ?thesis
      using 2 n div_mult_mod_eq[of "unat a * 2 ^ n" WB]
      by (simp add: word_lshift_64_def Let_def WORD_BIT_LENGTH_def unat_push unat_drop flip: n_def)
  next
    case 3
    then have p: "2 ^ n = 2 ^ (n - 64) * WB" unfolding WB_def power_add[symmetric] by simp
    then have "unat a * 2 ^ (n - 64) < WB" using assms(3) unfolding n_def[symmetric]
      by (metis mult.assoc mult_less_cancel2)
    then show ?thesis
      using 3 n p by (simp add: word_lshift_64_def Let_def WORD_BIT_LENGTH_def unat_push flip: n_def)
  qed
qed

subsection \<open>Division of double words\<close>

lemma bits_of_mono: "bits_of k u \<Longrightarrow> bits_of n v \<Longrightarrow> u \<le> v \<Longrightarrow> k \<le> n"
proof (rule ccontr)
  assume a: "bits_of k u" "bits_of n v" "u \<le> v" "\<not> k \<le> n"
  then have "(2::nat) ^ n \<le> 2 ^ (k - 1)" by (intro power_increasing) simp_all
  moreover have "v < 2 ^ n" "2 ^ (k - 1) \<le> u" using a by (auto simp: bits_of_def)
  ultimately show False using a(3) by linarith
qed

lemma bits_of_dword:
  "bits_of (if word_bit_len (hi d) = 0 then word_bit_len (lo d) else word_bit_len (hi d) + 64) (dval d)"
proof (cases "hi d = 0")
  case True
  then have "word_bit_len (hi d) = 0" by (simp add: word_bit_len_def)
  then show ?thesis using True bits_of_word_bit_len[of "lo d"] by (simp add: dval_def)
next
  case False
  let ?k = "word_bit_len (hi d)"
  have b: "bits_of ?k (unat (hi d))" by (rule bits_of_word_bit_len)
  have k: "?k \<noteq> 0"
  proof
    assume "?k = 0"
    then show False using b False by (simp add: bits_of_def unat_eq_0)
  qed
  have "dval d < (unat (hi d) + 1) * WB" by (simp add: dval_def)
  also have "\<dots> \<le> 2 ^ ?k * WB" using b by (intro mult_le_mono1) (simp add: bits_of_def Suc_leI)
  finally have u: "dval d < 2 ^ (?k + 64)" by (simp add: WB_def power_add)
  have "2 ^ (?k - 1) * WB \<le> unat (hi d) * WB" using b k by (intro mult_le_mono1) (simp add: bits_of_def)
  also have "\<dots> \<le> dval d" by (simp add: dval_def)
  finally have "2 ^ (?k - 1 + 64) \<le> dval d" by (simp only: WB_def power_add)
  moreover have "?k - 1 + 64 = ?k + 64 - 1" using k by simp
  ultimately show ?thesis using u k by (simp add: bits_of_def)
qed

lemma word_div_step:
  assumes "b \<noteq> 0" and "unat b \<le> dval rh"
  obtains s where "word_div_shift rh b = int s" "s < 128" "unat b * 2 ^ s \<le> dval rh"
    "dval (word_lshift_64 b (word_div_shift rh b)) = unat b * 2 ^ s"
proof -
  let ?n = "if word_bit_len (hi rh) = 0 then word_bit_len (lo rh) else word_bit_len (hi rh) + 64"
  let ?k = "word_bit_len b"
  have n: "bits_of ?n (dval rh)" and k: "bits_of ?k (unat b)"
    by (rule bits_of_dword bits_of_word_bit_len)+
  have kn: "?k \<le> ?n" using bits_of_mono[OF k n assms(2)] .
  have b0: "0 < unat b" using assms(1) by (simp add: unat_gt_0)
  then have k0: "0 < ?k" using k by (cases ?k) (auto simp: bits_of_def)
  have n128: "?n \<le> 128"
  proof (rule ccontr)
    assume "\<not> ?n \<le> 128"
    then have "(2::nat) ^ 128 \<le> 2 ^ (?n - 1)" by (intro power_increasing) simp_all
    moreover have "2 ^ (?n - 1) \<le> dval rh" using n \<open>\<not> ?n \<le> 128\<close> by (auto simp: bits_of_def)
    moreover have "dval rh < 2 ^ 128" using dval_less[of rh] by (simp add: WB_def)
    ultimately show False by linarith
  qed
  define s0 where "s0 = ?n - ?k"
  have "unat b * 2 ^ s0 < 2 ^ ?k * 2 ^ s0" using k by (simp add: bits_of_def)
  also have "\<dots> = 2 ^ ?n" using kn unfolding s0_def power_add[symmetric] by simp
  also have "\<dots> \<le> 2 ^ 128" using n128 by (intro power_increasing) simp_all
  finally have big: "unat b * 2 ^ s0 < WB * WB" by (simp add: WB_def)
  have s0: "s0 < 128" using n128 k0 kn unfolding s0_def by linarith
  then have sh0: "dval (word_lshift_64 b (int s0)) = unat b * 2 ^ s0"
    using dval_lshift[of "int s0" b] big by simp
  have cmp: "word_cmp_64 rh (word_lshift_64 b (int s0)) < 0 \<longleftrightarrow> dval rh < unat b * 2 ^ s0"
    by (simp add: dval_cmp sh0)
  have sh: "word_div_shift rh b = (if dval rh < unat b * 2 ^ s0 then int s0 - 1 else int s0)"
  proof -
    have "int (word_bit_len (hi rh)) + (if word_bit_len (hi rh) = 0 then int (word_bit_len (lo rh))
        else int WORD_BIT_LENGTH) - int ?k = int s0"
      using kn unfolding s0_def by (simp add: WORD_BIT_LENGTH_def of_nat_diff)
    then show ?thesis using cmp by (simp add: word_div_shift_def Let_def)
  qed
  show thesis
  proof (cases "dval rh < unat b * 2 ^ s0")
    case False
    then show thesis using sh s0 sh0 by (intro that[of s0]) simp_all
  next
    case True
    then have "s0 \<noteq> 0" using assms(2) by (cases s0) simp_all
    then obtain t where t: "s0 = Suc t" by (cases s0) simp_all
    have "unat b * 2 ^ t < 2 ^ ?k * 2 ^ t" using k by (simp add: bits_of_def)
    also have "\<dots> = 2 ^ (?n - 1)"
    proof -
      have "?k + t = ?n - 1" using t kn k0 unfolding s0_def by linarith
      then show ?thesis by (simp only: power_add[symmetric])
    qed
    also have "\<dots> \<le> dval rh" using n k0 kn by (auto simp: bits_of_def)
    finally have le: "unat b * 2 ^ t \<le> dval rh" by simp
    have "unat b * 2 ^ t < WB * WB" using le dval_less[of rh] by linarith
    then show thesis using True sh s0 t le dval_lshift[of "int t" b] by (intro that[of t]) simp_all
  qed
qed

lemma word_div_cond: "hi rh > 0 \<or> lo rh \<ge> b \<longleftrightarrow> unat b \<le> dval rh"
proof (cases "hi rh = 0")
  case True
  then show ?thesis by (simp add: dval_def word_le_nat_alt)
next
  case False
  then have "1 * WB \<le> unat (hi rh) * WB" by (intro mult_le_mono1) (simp add: Suc_leI unat_gt_0)
  then have "WB \<le> dval rh" unfolding dval_def mult_1 by (rule trans_le_add1)
  moreover have "unat b < WB" by simp
  ultimately have "unat b \<le> dval rh" by linarith
  then show ?thesis using False by (simp add: word_gt_0)
qed

lemma word_div_loop_ok:
  assumes "b \<noteq> 0" and "dval qh + dval rh div unat b < WB * WB"
  shows "\<exists>r q. word_div_loop b rh qh = Some (Dw 0 r, q) \<and> unat r = dval rh mod unat b
     \<and> dval q = dval qh + dval rh div unat b"
  using assms(2)
proof (induction "dval rh" arbitrary: rh qh rule: less_induct)
  case less
  have b0: "0 < unat b" using assms(1) by (simp add: unat_gt_0)
  show ?case
  proof (cases "unat b \<le> dval rh")
    case False
    then have h: "hi rh = 0" "dval rh = unat (lo rh)"
      using word_div_cond[of rh b] by (auto simp: dval_def word_gt_0)
    then have rh: "rh = Dw 0 (lo rh)" by simp
    have "word_div_loop b rh qh = Some (rh, qh)"
      using False word_div_cond[of rh b] by (subst word_div_loop.simps) auto
    then show ?thesis using False h rh
      by (intro exI[of _ "lo rh"] exI[of _ qh]) simp
  next
    case True
    from word_div_step[OF assms(1) True] obtain s where
      s: "word_div_shift rh b = int s" "s < 128" "unat b * 2 ^ s \<le> dval rh"
        "dval (word_lshift_64 b (word_div_shift rh b)) = unat b * 2 ^ s" by blast
    define rh' where "rh' = word_sub_64 rh (word_lshift_64 b (word_div_shift rh b))"
    have rh': "dval rh' = dval rh - unat b * 2 ^ s"
      unfolding rh'_def using s(3,4) by (simp add: dval_sub)
    have one: "dval (word_lshift_64 1 (word_div_shift rh b)) = 2 ^ s"
    proof -
      have "(2::nat) ^ s < 2 ^ 128" using s(2) by (intro power_strict_increasing) simp_all
      then show ?thesis using dval_lshift[of "int s" 1] s(1,2) by (simp add: WB_def)
    qed
    have "dval rh = dval rh' + unat b * 2 ^ s" using rh' s(3) by simp
    then have d: "dval rh div unat b = dval rh' div unat b + 2 ^ s" "dval rh mod unat b = dval rh' mod unat b"
      using b0 by simp_all
    define qh' where "qh' = word_add_64 qh (word_lshift_64 1 (word_div_shift rh b))"
    have qh': "dval qh' = dval qh + 2 ^ s"
      unfolding qh'_def using less.prems d(1) by (subst dval_add) (simp_all add: one)
    have "dval rh' < dval rh" 
    proof -
      have "0 < unat b * 2 ^ s" using b0 by simp
      with rh' s(3) show ?thesis by linarith
    qed
    moreover have "dval qh' + dval rh' div unat b < WB * WB" using less.prems qh' d(1) by simp
    ultimately obtain r q where "word_div_loop b rh' qh' = Some (Dw 0 r, q)"
      "unat r = dval rh' mod unat b" "dval q = dval qh' + dval rh' div unat b"
      using less.hyps by blast
    moreover have "word_div_loop b rh qh = word_div_loop b rh' qh'"
      using True word_div_cond[of rh b] unfolding rh'_def qh'_def by (subst word_div_loop.simps) simp
    ultimately show ?thesis using d qh' by auto
  qed
qed

lemma word_div_ok:
  assumes "b \<noteq> 0"
  shows "\<exists>q r. word_div a b = Some (q, r) \<and> unat r = dval a mod unat b \<and> dval q = dval a div unat b"
proof -
  have "dval a div unat b \<le> dval a" by (rule div_le_dividend)
  then have "dval (Dw 0 0) + dval a div unat b < WB * WB" using dval_less[of a] by (simp del: div_le_dividend)
  from word_div_loop_ok[OF assms this] show ?thesis by (auto simp: word_div_def)
qed

lemma word_div_loop_zero: "word_div_loop b rh qh = Some y \<Longrightarrow> b \<noteq> 0"
proof (rule word_div_loop.raw_induct[where P = "\<lambda>b rh qh y. b \<noteq> 0"])
  fix f b rh qh y
  assume IH: "\<And>b rh qh y. f b rh qh = Some y \<Longrightarrow> b \<noteq> (0::word_t)"
    and y: "(if hi rh > 0 \<or> lo rh \<ge> b
      then f b (word_sub_64 rh (word_lshift_64 b (word_div_shift rh b)))
             (word_add_64 qh (word_lshift_64 1 (word_div_shift rh b)))
      else Some (rh, qh)) = Some y"
  show "b \<noteq> 0"
  proof
    assume "b = 0"
    with y have "f 0 (word_sub_64 rh (word_lshift_64 0 (word_div_shift rh 0)))
        (word_add_64 qh (word_lshift_64 1 (word_div_shift rh 0))) = Some y" by simp
    from IH[OF this] show False by simp
  qed
qed

lemma word_div_zero: "word_div a 0 = None"
  using word_div_loop_zero[of 0 a "Dw 0 0"] by (cases "word_div_loop 0 a (Dw 0 0)") (auto simp: word_div_def)

text \<open>(C20) \<^verbatim>\<open>word_div\<close> ends exactly when the divisor is not 0, for every dividend, and then returns the
  quotient and the remainder; with divisor 0 its loop never ends.\<close>

theorem word_div_terminates:
  "case word_div a b of None \<Rightarrow> b = 0
   | Some (q, r) \<Rightarrow> b \<noteq> 0 \<and> dval a = dval q * unat b + unat r \<and> unat r < unat b"
proof (cases "b = 0")
  case True
  then show ?thesis by (simp add: word_div_zero)
next
  case False
  then have "0 < unat b" by (simp add: unat_gt_0)
  then show ?thesis using False word_div_ok[OF False, of a] by auto
qed

end
