(* ===== verification/MathInt.thy ===== *)
theory MathInt
  imports MathDword
begin

text \<open>
  Arithmetic on word arrays (\<^verbatim>\<open>math-int-internal.c\<close>) for the builds with 64-bit words:
  the loops over words (\<^verbatim>\<open>words_*\<close>) and the operations on \<^verbatim>\<open>WordArray\<close>
  (\<^verbatim>\<open>int_*\<close>). \<^verbatim>\<open>ASSERT\<close> is empty in release builds and is not modelled;
  an access outside a block is \<open>UNDEFINED\<close>. The statements read an array as the number
  \<open>wval\<close> it holds.
\<close>

subsection \<open>Loops over words\<close>

text \<open>\<open>c_int w\<close> is the conversion of an unsigned word to the C type \<^verbatim>\<open>int\<close>.\<close>

definition c_int :: "word_t \<Rightarrow> int" where
  "c_int w = sint (ucast w :: u32)"

text \<open>
  \<^verbatim>\<open>words_len\<close> and \<^verbatim>\<open>words_lshift\<close> count with the C type \<^verbatim>\<open>int\<close>: their indices are sizes cut to 32 bits.
  \<open>words_top\<close> is the loop of \<^verbatim>\<open>words_len\<close> from the index below its argument; an index that is negative from the
  start is returned as a size.
\<close>

primrec words_top :: "word_t list \<Rightarrow> nat \<Rightarrow> nat" where
  "words_top a 0 = 0"
| "words_top a (Suc i) = (if i > 0 \<and> a ! i = 0 then words_top a i else Suc i)"

definition words_len :: "word_t list \<Rightarrow> nat \<Rightarrow> nat" where
  "words_len a len =
     (let i = c_int (word_of_int (int len - 1))
      in if i \<ge> 0 then words_top a (nat (i + 1)) else nat ((i + 1) mod 2 ^ 64))"

text \<open>
  The shifts may work in place (\<open>same\<close>): then the source is the block being written. The left
  shift walks down from the top word, the right shift up from the bottom.
\<close>

primrec lshift_loop :: "bool \<Rightarrow> word_t list \<Rightarrow> nat \<Rightarrow> nat \<Rightarrow> nat \<Rightarrow> word_t list \<Rightarrow> word_t list" where
  "lshift_loop same a m k 0 out =
     (let a = (if same then out else a) in out[k := push_bit m (a ! 0)])"
| "lshift_loop same a m k (Suc j) out =
     (let src = (if same then out else a)
      in lshift_loop same a m k j
           (out[Suc j + k := push_bit m (src ! Suc j) OR drop_bit (WORD_BIT_LENGTH - m) (src ! j)]))"

primrec lmove_loop :: "bool \<Rightarrow> word_t list \<Rightarrow> nat \<Rightarrow> nat \<Rightarrow> word_t list \<Rightarrow> word_t list" where
  "lmove_loop same a k 0 out = out"
| "lmove_loop same a k (Suc j) out =
     (let src = (if same then out else a) in lmove_loop same a k j (out[j + k := src ! j]))"

text \<open>
  The loops of \<^verbatim>\<open>words_lshift\<close> write the words \<open>i, i - 1, \<dots>\<close> and read the words \<open>j, j - 1, \<dots>, 0\<close>; the words below
  \<open>i - j\<close> are zeroed. An index that is negative where a word is read or written, or beyond the block, is
  \<open>UNDEFINED\<close>.
\<close>

definition words_lshift :: "bool \<Rightarrow> word_t list \<Rightarrow> nat \<Rightarrow> int \<Rightarrow> word_t list \<Rightarrow> word_t list res" where
  "words_lshift same a len shift out =
     (let m = nat (shift mod int WORD_BIT_LENGTH);
          i = c_int (word_of_int (int len - 1));
          j = c_int (word_of_int (int len - 1 - shift div int WORD_BIT_LENGTH))
      in if m = 0 \<and> j < 0 then wr out 0 (replicate (nat (i + 1)) 0)
         else if j < 0 \<or> i < j \<or> j \<ge> int (length a) \<or> i \<ge> int (length out) then Inl UNDEFINED
         else let out = (if m = 0 then lmove_loop same a (nat (i - j)) (nat (j + 1)) out
                         else lshift_loop same a m (nat (i - j)) (nat j) out)
              in wr out 0 (replicate (nat (i - j)) 0))"

primrec rshift_loop :: "bool \<Rightarrow> word_t list \<Rightarrow> nat \<Rightarrow> nat \<Rightarrow> nat \<Rightarrow> nat \<Rightarrow> word_t list \<Rightarrow> word_t list" where
  "rshift_loop same a m k i 0 out =
     (let a = (if same then out else a) in out[i := drop_bit m (a ! (i + k))])"
| "rshift_loop same a m k i (Suc n) out =
     (let src = (if same then out else a)
      in rshift_loop same a m k (Suc i) n
           (out[i := push_bit (WORD_BIT_LENGTH - m) (src ! (i + k + 1)) OR drop_bit m (src ! (i + k))]))"

primrec rmove_loop :: "bool \<Rightarrow> word_t list \<Rightarrow> nat \<Rightarrow> nat \<Rightarrow> nat \<Rightarrow> word_t list \<Rightarrow> word_t list" where
  "rmove_loop same a k i 0 out = out"
| "rmove_loop same a k i (Suc n) out =
     (let src = (if same then out else a) in rmove_loop same a k (Suc i) n (out[i := src ! (i + k)]))"

text \<open>
  The right shift ends with \<^verbatim>\<open>out[len - 1] |= a_hi << s\<close>. When \<open>m\<close> is 0 the count \<open>s\<close> is the
  word length, which C leaves undefined. For a non-zero \<open>a_hi\<close> the model has no result then; for \<open>a_hi = 0\<close> it has the
  result of every machine, whose shift of 0 is 0 whatever becomes of the count.
\<close>

definition words_rshift :: "bool \<Rightarrow> word_t \<Rightarrow> word_t list \<Rightarrow> nat \<Rightarrow> nat \<Rightarrow> word_t list \<Rightarrow> word_t list res" where
  "words_rshift same a_hi a len shift out =
     (let m = shift mod WORD_BIT_LENGTH; k = shift div WORD_BIT_LENGTH
      in if len = 0 \<or> len > length a \<or> len > length out then Inl UNDEFINED
         else if m = 0
         then if a_hi \<noteq> 0 then Inl UNDEFINED
              else let out = rmove_loop same a k 0 (len - k) out
                   in wr out (len - k) (replicate (min k len) 0)
         else if k \<ge> len then Inl UNDEFINED
         else let out = rshift_loop same a m k 0 (len - 1 - k) out
              in DO (wr out (len - k) (replicate k 0)) (\<lambda>out.
                 Inr (out[len - 1 := out ! (len - 1) OR push_bit (WORD_BIT_LENGTH - m) a_hi])))"

fun words_add_loop :: "Dword \<Rightarrow> word_t list \<Rightarrow> word_t list \<Rightarrow> word_t list \<times> Dword" where
  "words_add_loop acc (a # as) (b # bs) =
     (let acc = Dw 0 (hi acc);
          acc = word_add_word_64 acc a;
          acc = word_add_word_64 acc b;
          (out, s) = words_add_loop acc as bs
      in (lo acc # out, s))"
| "words_add_loop acc _ _ = ([], acc)"

definition words_add_64 :: "word_t list \<Rightarrow> word_t list \<Rightarrow> nat \<Rightarrow> word_t list \<Rightarrow> (word_t list \<times> int) res" where
  "words_add_64 a b len out =
     DO (rd a 0 len) (\<lambda>a. DO (rd b 0 len) (\<lambda>b.
       let (ws, acc) = words_add_loop (Dw 0 0) a b
       in DO (wr out 0 ws) (\<lambda>out. Inr (out, c_int (hi acc)))))"

fun words_sub_loop :: "Dword \<Rightarrow> word_t list \<Rightarrow> word_t list \<Rightarrow> word_t list \<times> Dword" where
  "words_sub_loop sub (a # as) (b # bs) =
     (let sub' = (if hi sub AND push_bit (WORD_BIT_LENGTH - 1) 1 \<noteq> 0
                  then word_sub_word_64 (word_sub_word_64 (Dw 0 a) b) 1
                  else word_sub_word_64 (Dw 0 a) b);
          (out, s) = words_sub_loop sub' as bs
      in (lo sub' # out, s))"
| "words_sub_loop sub _ _ = ([], sub)"

definition words_sub_64 :: "word_t list \<Rightarrow> word_t list \<Rightarrow> nat \<Rightarrow> word_t list \<Rightarrow> (word_t list \<times> int) res" where
  "words_sub_64 a b len out =
     DO (rd a 0 len) (\<lambda>a. DO (rd b 0 len) (\<lambda>b.
       let (ws, sub) = words_sub_loop (Dw 0 0) a b
       in DO (wr out 0 ws) (\<lambda>out. Inr (out, c_int (hi sub)))))"

text \<open>
  \<^verbatim>\<open>words_mul_64\<close>: the inner loop adds \<open>a[i] * b\<close> to the words of \<open>out\<close> from index \<open>i\<close>,
  the outer loop runs over \<open>a\<close>.
\<close>

fun words_mul_row :: "word_t \<Rightarrow> Dword \<Rightarrow> word_t list \<Rightarrow> word_t list \<Rightarrow> word_t list \<times> Dword" where
  "words_mul_row ai c (bj # bs) (oij # os) =
     (let aibj = word_mul_64 ai bj;
          c = word_add_word_64 aibj (hi c);
          c = word_add_word_64 c oij;
          (out, c') = words_mul_row ai c bs os
      in (lo c # out, c'))"
| "words_mul_row ai c _ _ = ([], c)"

primrec words_mul_loop :: "nat \<Rightarrow> word_t list \<Rightarrow> word_t list \<Rightarrow> word_t list \<Rightarrow> word_t list" where
  "words_mul_loop i [] b out = out"
| "words_mul_loop i (ai # as) b out =
     (let len = length b;
          (ws, c) = words_mul_row ai (Dw 0 0) b (take len (drop i out));
          out = take i out @ ws @ drop (i + len) out
      in words_mul_loop (Suc i) as b (out[i + len := hi c]))"

definition words_mul_64 :: "word_t list \<Rightarrow> word_t list \<Rightarrow> nat \<Rightarrow> word_t list \<Rightarrow> word_t list res" where
  "words_mul_64 a b len out =
     DO (rd a 0 len) (\<lambda>a. DO (rd b 0 len) (\<lambda>b.
     DO (wr out 0 (replicate (2 * len) 0)) (\<lambda>out. Inr (words_mul_loop 0 a b out))))"


subsection \<open>Operations on word arrays\<close>

definition int_is_zero :: "WordArray \<Rightarrow> bool res" where
  "int_is_zero a = DO (rd (wa_buf a) 0 (wa_len a)) (\<lambda>ws. Inr (list_all (\<lambda>w. w = 0) ws))"

definition int_is_one :: "WordArray \<Rightarrow> bool res" where
  "int_is_one a = DO (rd (wa_buf a) 0 1) (\<lambda>w. if hd w \<noteq> 1 then Inr False
     else DO (rd (wa_buf a) 1 (wa_len a - 1)) (\<lambda>ws. Inr (list_all (\<lambda>w. w = 0) ws)))"

text \<open>
  \<open>cmp_top\<close> is the last loop of \<^verbatim>\<open>int_cmp\<close>, from the top word down; the arrays may differ
  in length, and then the extra words of the longer one are scanned first. With an empty array the
  loop starts at index -1.
\<close>

fun cmp_top :: "word_t list \<Rightarrow> word_t list \<Rightarrow> int" where
  "cmp_top (x # xs) (y # ys) = (if x \<noteq> y then (if x > y then 1 else -1) else cmp_top xs ys)"
| "cmp_top _ _ = 0"

definition int_cmp :: "WordArray \<Rightarrow> WordArray \<Rightarrow> int res" where
  "int_cmp a b =
     (let len = (if wa_len a > wa_len b then wa_len b else wa_len a)
      in if len = 0 then Inl UNDEFINED
         else DO (rd (wa_buf a) 0 (wa_len a)) (\<lambda>xs. DO (rd (wa_buf b) 0 (wa_len b)) (\<lambda>ys.
           if list_ex (\<lambda>w. w \<noteq> 0) (drop len xs) then Inr 1
           else if list_ex (\<lambda>w. w \<noteq> 0) (drop len ys) then Inr (-1)
           else Inr (cmp_top (rev (take len xs)) (rev (take len ys))))))"

definition int_equals :: "WordArray \<Rightarrow> WordArray \<Rightarrow> bool res" where
  "int_equals a b = DO (int_cmp a b) (\<lambda>c. Inr (c = 0))"

definition int_add :: "WordArray \<Rightarrow> WordArray \<Rightarrow> WordArray \<Rightarrow> (WordArray \<times> word_t) res" where
  "int_add a b out = DO (words_add_64 (wa_buf a) (wa_buf b) (wa_len a) (wa_buf out)) (\<lambda>(ws, c).
     Inr (out\<lparr>wa_buf := ws\<rparr>, word_of_int c))"

definition int_sub :: "WordArray \<Rightarrow> WordArray \<Rightarrow> WordArray \<Rightarrow> (WordArray \<times> int) res" where
  "int_sub a b out = DO (words_sub_64 (wa_buf a) (wa_buf b) (wa_len a) (wa_buf out)) (\<lambda>(ws, c).
     Inr (out\<lparr>wa_buf := ws\<rparr>, c))"

definition int_word_len :: "WordArray \<Rightarrow> nat res" where
  "int_word_len a = DO (rd (wa_buf a) 0 (wa_len a)) (\<lambda>ws. Inr (words_len ws (wa_len a)))"

definition int_bit_len :: "WordArray \<Rightarrow> nat res" where
  "int_bit_len a = DO (int_word_len a) (\<lambda>w_len.
     if w_len = 0 then Inr 0
     else DO (rd (wa_buf a) (w_len - 1) 1) (\<lambda>w.
       Inr ((w_len - 1) * WORD_BIT_LENGTH + word_bit_len (hd w))))"

definition int_truncate :: "WordArray \<Rightarrow> nat \<Rightarrow> WordArray res" where
  "int_truncate a bit_len =
     (let word_off = bit_len div WORD_BIT_LENGTH
      in if word_off < wa_len a
         then DO (rd (wa_buf a) word_off 1) (\<lambda>w.
              DO (wr (wa_buf a) word_off [hd w AND (push_bit (bit_len mod WORD_BIT_LENGTH) 1 - 1)]) (\<lambda>b.
              DO (wr b (word_off + 1) (replicate (wa_len a - word_off - 1) 0)) (\<lambda>b.
              Inr (a\<lparr>wa_buf := b\<rparr>))))
         else Inr a)"

definition int_get_bit :: "WordArray \<Rightarrow> nat \<Rightarrow> int res" where
  "int_get_bit a bit_num =
     (let word_off = bit_num div WORD_BIT_LENGTH
      in if word_off \<ge> wa_len a then Inr 0
         else DO (rd (wa_buf a) word_off 1) (\<lambda>w.
              Inr (c_int (drop_bit (bit_num mod WORD_BIT_LENGTH) (hd w) AND 1))))"

text \<open>
  Shifts and sums may write over an argument; \<open>same\<close> says so for the shifts, whose loops then read
  words of the array they write. \<^verbatim>\<open>int_lshift\<close> casts its count to \<^verbatim>\<open>int\<close>.
\<close>

definition int_lshift :: "bool \<Rightarrow> WordArray \<Rightarrow> nat \<Rightarrow> WordArray \<Rightarrow> WordArray res" where
  "int_lshift same a shift out =
     DO (words_lshift same (wa_buf a) (wa_len a) (c_int (of_nat shift)) (wa_buf out)) (\<lambda>b. Inr (out\<lparr>wa_buf := b\<rparr>))"

definition int_rshift :: "bool \<Rightarrow> word_t \<Rightarrow> WordArray \<Rightarrow> nat \<Rightarrow> WordArray \<Rightarrow> WordArray res" where
  "int_rshift same a_hi a shift out =
     DO (words_rshift same a_hi (wa_buf a) (wa_len a) shift (wa_buf out)) (\<lambda>b. Inr (out\<lparr>wa_buf := b\<rparr>))"

definition int_mul :: "WordArray \<Rightarrow> WordArray \<Rightarrow> WordArray \<Rightarrow> WordArray res" where
  "int_mul a b out =
     DO (words_mul_64 (wa_buf a) (wa_buf b) (wa_len a) (wa_buf out)) (\<lambda>ws. Inr (out\<lparr>wa_buf := ws\<rparr>))"

definition int_sqr :: "WordArray \<Rightarrow> WordArray \<Rightarrow> WordArray res" where
  "int_sqr a out = int_mul a a out"

subsection \<open>Sums, differences and products\<close>

lemma words_add_loop_ok:
  assumes "length as = length bs" and "unat (hi acc) \<le> 1"
  shows "\<exists>ws s. words_add_loop acc as bs = (ws, s) \<and> length ws = length as \<and> unat (hi s) \<le> 1
     \<and> wval ws + WB ^ length as * unat (hi s) = wval as + wval bs + unat (hi acc)"
  using assms
proof (induction acc as bs rule: words_add_loop.induct)
  case (1 acc a as b bs)
  define s1 where "s1 = word_add_word_64 (word_add_word_64 (Dw 0 (hi acc)) a) b"
  have lt: "1 + (WB - 1) + (WB - 1) < WB * WB"
  proof -
    have "2 * WB \<le> WB * WB" by (intro mult_le_mono1) (simp add: WB_def)
    then show ?thesis using WB_gt(1) by linarith
  qed
  have ab: "unat a \<le> WB - 1" "unat b \<le> WB - 1"
    using unat_less_WB[of a] unat_less_WB[of b] by linarith+
  have d1: "dval (word_add_word_64 (Dw 0 (hi acc)) a) = unat (hi acc) + unat a"
  proof -
    have "unat (hi acc) + unat a < WB * WB" using 1(3) lt ab by linarith
    then show ?thesis by (subst dval_add_word) simp_all
  qed
  have d: "dval s1 = unat (hi acc) + unat a + unat b"
  proof -
    have "unat (hi acc) + unat a + unat b < WB * WB" using 1(3) lt ab by linarith
    then show ?thesis unfolding s1_def by (subst dval_add_word) (simp_all only: d1)
  qed
  have h: "unat (hi s1) \<le> 1"
  proof -
    have "dval s1 < 2 * WB" using d ab 1(3) WB_gt(1) by linarith
    then show ?thesis unfolding dval_hi_lo using less_mult_imp_div_less[of "dval s1" 2 WB] by simp
  qed
  obtain ws s where r: "words_add_loop s1 as bs = (ws, s)" "length ws = length as" "unat (hi s) \<le> 1"
      "wval ws + WB ^ length as * unat (hi s) = wval as + wval bs + unat (hi s1)"
    using 1(1)[OF refl refl s1_def _ h] 1(2) by auto
  have "unat (lo s1) + WB * unat (hi s1) = unat (hi acc) + unat a + unat b"
    using d by (simp add: dval_def mult.commute)
  moreover have "WB * wval ws + WB * (WB ^ length as * unat (hi s)) = WB * wval as + WB * wval bs + WB * unat (hi s1)"
    using arg_cong[OF r(4), of "(*) WB"] by (simp add: distrib_left)
  ultimately show ?case using r 1(2) by (simp add: Let_def flip: s1_def)
qed auto

text \<open>The borrow of a step is the top bit of \<open>sub.hi\<close>, which is 0 or all ones.\<close>

definition borrow :: "word_t \<Rightarrow> nat" where
  "borrow h = (if h = -1 then 1 else 0)"

lemma top_bit_borrow:
  fixes h :: word_t
  shows "h = 0 \<or> h = -1 \<Longrightarrow> h AND push_bit (WORD_BIT_LENGTH - 1) 1 \<noteq> 0 \<longleftrightarrow> h = -1"
  by (auto simp: WORD_BIT_LENGTH_def)

lemma words_sub_step:
  fixes a b :: word_t
  assumes "h = 0 \<or> h = -1"
  defines "s \<equiv> (if h AND push_bit (WORD_BIT_LENGTH - 1) 1 \<noteq> 0
     then word_sub_word_64 (word_sub_word_64 (Dw 0 a) b) 1 else word_sub_word_64 (Dw 0 a) b)"
  shows "(hi s = 0 \<or> hi s = -1) \<and> unat (lo s) + unat b + borrow h = unat a + WB * borrow (hi s)"
proof -
  have b1: "unat (a - b) + unat b = unat a + (if a < b then WB else 0)" by (rule sub_borrow)
  have b2: "unat (a - b - 1) + 1 = unat (a - b) + (if a - b < 1 then WB else 0)"
    using sub_borrow[of "a - b" 1] by simp
  have z: "a - b < 1 \<longleftrightarrow> a = b" by (simp add: word_less_1)
  show ?thesis
  proof (cases "h = -1")
    case True
    then have "s = word_sub_word_64 (word_sub_word_64 (Dw 0 a) b) 1"
      using top_bit_borrow[OF assms(1)] by (simp add: s_def)
    then show ?thesis using True b1 b2 z by (auto simp: word_sub_word_64_def borrow_def)
  next
    case False
    then have "s = word_sub_word_64 (Dw 0 a) b"
      using top_bit_borrow[OF assms(1)] by (simp add: s_def)
    then show ?thesis using False b1 by (auto simp: word_sub_word_64_def borrow_def)
  qed
qed

lemma words_sub_loop_ok:
  assumes "length as = length bs" and "hi sub = 0 \<or> hi sub = -1"
  shows "\<exists>ws s. words_sub_loop sub as bs = (ws, s) \<and> length ws = length as \<and> (hi s = 0 \<or> hi s = -1)
     \<and> wval ws + wval bs + borrow (hi sub) = wval as + WB ^ length as * borrow (hi s)"
  using assms
proof (induction sub as bs rule: words_sub_loop.induct)
  case (1 sub a as b bs)
  define s1 where "s1 = (if hi sub AND push_bit (WORD_BIT_LENGTH - 1) 1 \<noteq> 0
     then word_sub_word_64 (word_sub_word_64 (Dw 0 a) b) 1 else word_sub_word_64 (Dw 0 a) b)"
  have st: "hi s1 = 0 \<or> hi s1 = -1" "unat (lo s1) + unat b + borrow (hi sub) = unat a + WB * borrow (hi s1)"
    using words_sub_step[OF 1(3), of a b] unfolding s1_def by blast+
  obtain ws s where r: "words_sub_loop s1 as bs = (ws, s)" "length ws = length as" "hi s = 0 \<or> hi s = -1"
      "wval ws + wval bs + borrow (hi s1) = wval as + WB ^ length as * borrow (hi s)"
    using 1(1)[OF s1_def] 1(2) st(1) by auto
  have "WB * wval ws + WB * wval bs + WB * borrow (hi s1) = WB * wval as + WB * (WB ^ length as * borrow (hi s))"
    using arg_cong[OF r(4), of "(*) WB"] by (simp add: distrib_left)
  moreover have "words_sub_loop sub (a # as) (b # bs) = (lo s1 # ws, s)"
    using r(1) unfolding s1_def by (simp only: words_sub_loop.simps Let_def prod.case)
  ultimately show ?case using r st(2) 1(2) by simp
qed auto

lemma words_mul_step:
  "dval (word_add_word_64 (word_add_word_64 (word_mul_64 a b) h) x) = unat a * unat b + unat h + unat x"
proof -
  obtain k where k: "WB = k + 1" using WB_gt(1) by (metis Suc_eq_plus1 Suc_pred)
  have le: "unat w \<le> k" for w :: word_t using unat_less_WB[of w] k by linarith
  have "unat a * unat b \<le> k * k" by (intro mult_le_mono le)
  then have s: "unat a * unat b + unat h + unat x \<le> k * k + k + k" using le[of h] le[of x] by linarith
  have b: "k * k + k + k < WB * WB" unfolding k by (simp add: algebra_simps)
  show ?thesis using s b by (simp add: dval_add_word dval_mul)
qed

lemma words_mul_row_ok:
  assumes "length bs = length os"
  shows "\<exists>ws c'. words_mul_row ai c bs os = (ws, c') \<and> length ws = length bs
     \<and> wval ws + WB ^ length bs * unat (hi c') = unat ai * wval bs + wval os + unat (hi c)"
  using assms
proof (induction ai c bs os rule: words_mul_row.induct)
  case (1 ai c bj bs oij os)
  define c1 where "c1 = word_add_word_64 (word_add_word_64 (word_mul_64 ai bj) (hi c)) oij"
  have d: "unat (lo c1) + WB * unat (hi c1) = unat ai * unat bj + unat (hi c) + unat oij"
    unfolding c1_def words_mul_step[symmetric] by (simp add: dval_def mult.commute)
  obtain ws c' where r: "words_mul_row ai c1 bs os = (ws, c')" "length ws = length bs"
      "wval ws + WB ^ length bs * unat (hi c') = unat ai * wval bs + wval os + unat (hi c1)"
    using 1(1)[OF refl refl] 1(2) unfolding c1_def by (auto simp: c1_def)
  have "WB * wval ws + WB * (WB ^ length bs * unat (hi c'))
      = unat ai * (WB * wval bs) + WB * wval os + WB * unat (hi c1)"
    using arg_cong[OF r(3), of "(*) WB"] by (simp add: distrib_left mult.left_commute)
  then show ?case using r d by (simp add: Let_def distrib_left flip: c1_def)
qed auto

lemma words_mul_loop_ok:
  assumes "length p = i" and "length q = length b"
  shows "\<exists>r. words_mul_loop i as b (p @ q @ replicate (length as) 0) = p @ r
     \<and> length r = length q + length as \<and> wval r = wval q + wval as * wval b"
  using assms
proof (induction as arbitrary: i p q)
  case Nil
  then show ?case by simp
next
  case (Cons ai as)
  obtain ws c where r: "words_mul_row ai (Dw 0 0) b q = (ws, c)" "length ws = length b"
      "wval ws + WB ^ length b * unat (hi c) = unat ai * wval b + wval q"
    using words_mul_row_ok[of b q ai "Dw 0 0"] Cons.prems by auto
  obtain w0 q' where w: "ws @ [hi c] = w0 # q'" by (cases "ws @ [hi c]") auto
  then have q': "length q' = length b" using r(2) by (metis Suc_inject length_Cons length_append_singleton)
  have "words_mul_loop i (ai # as) b (p @ q @ replicate (length (ai # as)) 0)
      = words_mul_loop (Suc i) as b ((p @ [w0]) @ q' @ replicate (length as) 0)"
  proof -
    have "(p @ ws @ 0 # replicate (length as) 0)[i + length b := hi c] = p @ (ws @ [hi c]) @ replicate (length as) 0"
      using Cons.prems r(2) by (simp add: list_update_append)
    then show ?thesis unfolding w using Cons.prems r(1,2) by (simp add: Let_def)
  qed
  moreover obtain r' where r': "words_mul_loop (Suc i) as b ((p @ [w0]) @ q' @ replicate (length as) 0) = (p @ [w0]) @ r'"
      "length r' = length q' + length as" "wval r' = wval q' + wval as * wval b"
    using Cons.IH[of "p @ [w0]" "Suc i" q'] Cons.prems q' by auto
  moreover have "wval (w0 # r') = wval q + wval (ai # as) * wval b"
  proof -
    have "wval (w0 # q') = unat ai * wval b + wval q"
      using r(2,3) unfolding w[symmetric] by (simp add: wval_append)
    then show ?thesis using r'(3) by (simp add: algebra_simps)
  qed
  ultimately show ?case using Cons.prems q' by (intro exI[of _ "w0 # r'"]) simp
qed

subsection \<open>Shifts\<close>

text \<open>
  \<open>shl m prev ws\<close> and \<open>shr m next ws\<close> shift by \<open>m\<close> bits within a word, taking the bits that enter
  from the neighbouring word.
\<close>

primrec shl :: "nat \<Rightarrow> word_t \<Rightarrow> word_t list \<Rightarrow> word_t list" where
  "shl m prev [] = []"
| "shl m prev (w # ws) = (push_bit m w OR drop_bit (64 - m) prev) # shl m w ws"

primrec shr :: "nat \<Rightarrow> word_t \<Rightarrow> word_t list \<Rightarrow> word_t list" where
  "shr m h [] = []"
| "shr m h (w # ws) = (push_bit (64 - m) (case ws of [] \<Rightarrow> h | v # _ \<Rightarrow> v) OR drop_bit m w) # shr m h ws"

lemma length_shl [simp]: "length (shl m prev ws) = length ws"
  by (induction ws arbitrary: prev) simp_all

lemma length_shr [simp]: "length (shr m h ws) = length ws"
  by (induction ws) simp_all

lemma nth_shl: "i < length ws \<Longrightarrow>
    shl m prev ws ! i = push_bit m (ws ! i) OR drop_bit (64 - m) (if i = 0 then prev else ws ! (i - 1))"
  by (induction ws arbitrary: i prev) (auto simp: nth_Cons split: nat.split)

lemma nth_shr: "i < length ws \<Longrightarrow>
    shr m h ws ! i = push_bit (64 - m) (if Suc i = length ws then h else ws ! Suc i) OR drop_bit m (ws ! i)"
proof (induction ws arbitrary: i)
  case (Cons w ws)
  then show ?case by (cases i; cases ws) auto
qed simp

lemma WB_split: "m \<le> 64 \<Longrightarrow> WB = 2 ^ m * 2 ^ (64 - m)"
  unfolding WB_def power_add[symmetric] by simp

lemma or_plus_shifted:
  fixes w v :: word_t
  assumes "0 < m" and "m < 64"
  shows "unat (push_bit m w OR drop_bit (64 - m) v) = (unat w * 2 ^ m) mod WB + unat v div 2 ^ (64 - m)"
proof -
  have "push_bit m w AND drop_bit (64 - m) v = 0"
    by (rule bit_word_eqI) (use assms in \<open>auto simp: bit_simps dest: bit_imp_le_length\<close>)
  then have s: "push_bit m w OR drop_bit (64 - m) v = push_bit m w + drop_bit (64 - m) v"
    by (rule disjunctive_add_eq_or[symmetric])
  have p: "WB = 2 ^ m * 2 ^ (64 - m)" using assms by (simp add: WB_split)
  have "unat v div 2 ^ (64 - m) < 2 ^ m"
    using unat_less_WB[of v] unfolding p by (rule less_mult_imp_div_less)
  moreover have "(unat w * 2 ^ m) mod WB + 2 ^ m \<le> WB"
  proof -
    have "(unat w * 2 ^ m) mod WB = (unat w mod 2 ^ (64 - m)) * 2 ^ m"
      unfolding p by (simp add: mult.commute)
    also have "\<dots> + 2 ^ m = (unat w mod 2 ^ (64 - m) + 1) * 2 ^ m" by simp
    also have "\<dots> \<le> 2 ^ (64 - m) * 2 ^ m" by (intro mult_le_mono1) (simp add: Suc_leI)
    finally show ?thesis unfolding p by (simp add: mult.commute)
  qed
  ultimately have "(unat w * 2 ^ m) mod WB + unat v div 2 ^ (64 - m) < WB" by linarith
  then show ?thesis unfolding s by (subst unat_sum_exact) (simp_all add: unat_push unat_drop)
qed

lemma mod_split: "x < B \<Longrightarrow> (x + B * y) mod (B * Z) = x + B * (y mod Z)" for B :: nat
  by (simp add: mod_mult2_eq)

lemma wval_shl:
  assumes "0 < m" and "m < 64"
  shows "wval (shl m prev ws) = (wval ws * 2 ^ m + unat prev div 2 ^ (64 - m)) mod WB ^ length ws"
proof (induction ws arbitrary: prev)
  case Nil
  then show ?case by simp
next
  case (Cons w ws)
  have p: "WB = 2 ^ m * 2 ^ (64 - m)" using assms by (simp add: WB_split)
  let ?x = "(unat w * 2 ^ m) mod WB + unat prev div 2 ^ (64 - m)"
  have x: "?x < WB" using unat_less_WB[of "push_bit m w OR drop_bit (64 - m) prev"]
    by (simp only: or_plus_shifted[OF assms])
  have q: "unat w * 2 ^ m div WB = unat w div 2 ^ (64 - m)"
    unfolding p by (simp add: mult.commute)
  have e: "wval (w # ws) * 2 ^ m + unat prev div 2 ^ (64 - m)
      = ?x + WB * (wval ws * 2 ^ m + unat w div 2 ^ (64 - m))"
    using div_mult_mod_eq[of "unat w * 2 ^ m" WB] unfolding q by (simp add: algebra_simps)
  show ?case
    unfolding e shl.simps wval_Cons[of _ "shl m w ws"] or_plus_shifted[OF assms] Cons list.size
      add_Suc_right power_Suc add_0_right
    by (rule mod_split[OF x, symmetric])
qed

lemma wval_shr:
  assumes "0 < m" and "m < 64"
  shows "wval (shr m h ws) = ((wval ws + WB ^ length ws * unat h) div 2 ^ m) mod WB ^ length ws"
proof (induction ws)
  case Nil
  then show ?case by simp
next
  case (Cons w ws)
  have p: "WB = 2 ^ m * 2 ^ (64 - m)" using assms by (simp add: WB_split)
  let ?n = "case ws of [] \<Rightarrow> h | v # _ \<Rightarrow> v"
  define R where "R = wval ws + WB ^ length ws * unat h"
  have Rm: "R mod WB = unat ?n"
    by (cases ws) (simp_all add: R_def mod_mult_self2 mult.assoc flip: add.assoc)
  have o: "unat (push_bit (64 - m) ?n OR drop_bit m w) = (unat ?n * 2 ^ (64 - m)) mod WB + unat w div 2 ^ m"
    using or_plus_shifted[of "64 - m" ?n w] assms by simp
  have "WB * R = 2 ^ m * (R * 2 ^ (64 - m))" using p by simp
  moreover have "wval (w # ws) + WB ^ length (w # ws) * unat h = unat w + WB * R"
    by (simp add: R_def algebra_simps)
  ultimately have "(wval (w # ws) + WB ^ length (w # ws) * unat h) div 2 ^ m = unat w div 2 ^ m + R * 2 ^ (64 - m)"
    by (simp only: div_mult_self2) simp
  moreover have "R * 2 ^ (64 - m) = WB * (R div 2 ^ m) + (unat ?n * 2 ^ (64 - m)) mod WB"
  proof -
    have "R * 2 ^ (64 - m) div WB = R div 2 ^ m" unfolding p by simp
    moreover have "(R * 2 ^ (64 - m)) mod WB = (unat ?n * 2 ^ (64 - m)) mod WB"
      unfolding Rm[symmetric] by (simp add: mod_mult_left_eq)
    ultimately show ?thesis using mult_div_mod_eq[of WB "R * 2 ^ (64 - m)"] by simp
  qed
  ultimately have e: "(wval (w # ws) + WB ^ length (w # ws) * unat h) div 2 ^ m
      = unat (push_bit (64 - m) ?n OR drop_bit m w) + WB * (R div 2 ^ m)"
    unfolding o by simp
  show ?case unfolding e using Cons by (simp add: mod_split R_def)
qed

text \<open>
  The loops compute \<open>shl\<close> and \<open>shr\<close>, also in place: they never read a word they have written.
\<close>

lemma length_loops [simp]:
  "length (lshift_loop same a m k j out) = length out" "length (lmove_loop same a k j out) = length out"
  "length (rshift_loop same a m k i j out) = length out" "length (rmove_loop same a k i j out) = length out"
  by (induction j arbitrary: out i) (simp_all add: Let_def)

lemma nth_lmove_loop:
  assumes "same \<Longrightarrow> out = a" and "j + k \<le> length out"
  shows "lmove_loop same a k j out ! i = (if k \<le> i \<and> i < j + k then a ! (i - k) else out ! i)"
proof -
  have "(\<forall>i<j. same \<longrightarrow> out ! i = a ! i) \<Longrightarrow> j + k \<le> length out \<Longrightarrow>
    lmove_loop same a k j out ! i = (if k \<le> i \<and> i < j + k then a ! (i - k) else out ! i)" for out
  proof (induction j arbitrary: out)
    case (Suc j)
    have r: "(if same then out else a) ! j = a ! j" using Suc.prems(1) by simp
    show ?case using Suc.prems by (auto simp: Let_def r Suc.IH nth_list_update)
  qed auto
  then show ?thesis using assms by blast
qed

lemma nth_lshift_loop:
  assumes "same \<Longrightarrow> out = a" and "j + k < length out"
  shows "lshift_loop same a m k j out ! i =
     (if k \<le> i \<and> i \<le> j + k
      then push_bit m (a ! (i - k)) OR drop_bit (64 - m) (if i = k then 0 else a ! (i - k - 1)) else out ! i)"
proof -
  have "(\<forall>i\<le>j. same \<longrightarrow> out ! i = a ! i) \<Longrightarrow> j + k < length out \<Longrightarrow>
    lshift_loop same a m k j out ! i =
     (if k \<le> i \<and> i \<le> j + k
      then push_bit m (a ! (i - k)) OR drop_bit (64 - m) (if i = k then 0 else a ! (i - k - 1)) else out ! i)" for out
  proof (induction j arbitrary: out)
    case 0
    then have "(if same then out else a) ! 0 = a ! 0" by simp
    then show ?case using 0 by (auto simp: Let_def nth_list_update)
  next
    case (Suc j)
    have r: "(if same then out else a) ! j = a ! j" "(if same then out else a) ! Suc j = a ! Suc j"
      using Suc.prems(1) by simp_all
    show ?case using Suc.prems
      by (auto simp: Let_def r Suc.IH nth_list_update WORD_BIT_LENGTH_def)
  qed
  then show ?thesis using assms by blast
qed

lemma nth_rmove_loop:
  assumes "same \<Longrightarrow> out = a" and "n \<le> length out"
  shows "rmove_loop same a k 0 n out ! i = (if i < n then a ! (i + k) else out ! i)"
proof -
  have "(\<forall>j\<ge>i0. same \<longrightarrow> out ! j = a ! j) \<Longrightarrow> i0 + n \<le> length out \<Longrightarrow>
    rmove_loop same a k i0 n out ! i = (if i0 \<le> i \<and> i < i0 + n then a ! (i + k) else out ! i)" for i0 out
  proof (induction n arbitrary: i0 out)
    case (Suc n)
    have r: "(if same then out else a) ! (i0 + k) = a ! (i0 + k)" using Suc.prems(1) by simp
    show ?case using Suc.prems by (auto simp: Let_def r Suc.IH nth_list_update)
  qed auto
  from this[of 0 out] show ?thesis using assms by simp
qed

lemma nth_rshift_loop:
  assumes "same \<Longrightarrow> out = a" and "n < length out"
  shows "rshift_loop same a m k 0 n out ! i =
     (if i < n then push_bit (64 - m) (a ! (i + k + 1)) OR drop_bit m (a ! (i + k))
      else if i = n then drop_bit m (a ! (n + k)) else out ! i)"
proof -
  have "(\<forall>j\<ge>i0. same \<longrightarrow> out ! j = a ! j) \<Longrightarrow> i0 + n < length out \<Longrightarrow>
    rshift_loop same a m k i0 n out ! i =
     (if i0 \<le> i \<and> i < i0 + n then push_bit (64 - m) (a ! (i + k + 1)) OR drop_bit m (a ! (i + k))
      else if i = i0 + n then drop_bit m (a ! (i + k)) else out ! i)" for i0 out
  proof (induction n arbitrary: i0 out)
    case 0
    then have "(if same then out else a) ! (i0 + k) = a ! (i0 + k)" by simp
    then show ?case using 0 by (auto simp: Let_def nth_list_update)
  next
    case (Suc n)
    have r: "(if same then out else a) ! (i0 + k) = a ! (i0 + k)"
        "(if same then out else a) ! Suc (i0 + k) = a ! Suc (i0 + k)"
      using Suc.prems(1) by simp_all
    show ?case using Suc.prems
      by (auto simp: Let_def r Suc.IH nth_list_update WORD_BIT_LENGTH_def)
  qed
  from this[of 0 out] show ?thesis using assms by simp
qed

lemma c_int_word_of_int: "- (2 ^ 31) \<le> x \<Longrightarrow> x < 2 ^ 31 \<Longrightarrow> c_int (word_of_int x) = x"
proof -
  assume x: "- (2 ^ 31) \<le> x" "x < 2 ^ 31"
  have "(ucast (word_of_int x :: u64) :: u32) = word_of_int x" by (rule bit_word_eqI) (auto simp: bit_simps)
  then have "c_int (word_of_int x) = signed_take_bit 31 x" by (simp add: c_int_def signed_of_int)
  then show ?thesis using x by (simp add: signed_take_bit_int_eq_self_iff)
qed

lemma c_int_of_nat: "n < 2 ^ 31 \<Longrightarrow> c_int (of_nat n) = int n"
  using c_int_word_of_int[of "int n"] by simp

lemma c_int_low: "c_int (of_nat (n mod 2 ^ 32)) = c_int (of_nat n)"
proof -
  have "(ucast (of_nat (n mod 2 ^ 32) :: u64) :: u32) = ucast (of_nat n :: u64)"
    unfolding take_bit_eq_mod [symmetric] by (rule bit_word_eqI) (auto simp: bit_simps)
  then show ?thesis by (simp only: c_int_def)
qed

lemma words_len_eq: "n \<le> 2 ^ 31 \<Longrightarrow> words_len a n = words_top a n"
proof (cases n)
  case (Suc k)
  assume "n \<le> 2 ^ 31"
  then have "c_int (of_nat k) = int k" using Suc by (intro c_int_of_nat) simp
  moreover have "nat (int k + 1) = Suc k" by simp
  ultimately show ?thesis using Suc by (simp add: words_len_def Let_def)
qed (simp add: words_len_def c_int_word_of_int[of "-1", simplified])

text \<open>Without a cut index the left shift is one by \<open>k\<close> words and \<open>m\<close> bits.\<close>

lemma words_lshift_idx:
  assumes "n \<le> 2 ^ 31" "shift < 2 ^ 31" "n \<le> length a" "n \<le> length out"
  shows "words_lshift same a n (int shift) out =
     (let m = shift mod 64; k = shift div 64
      in if m = 0 then Inr (replicate (min k n) 0 @ drop (min k n) (lmove_loop same a k (n - k) out))
         else if k \<ge> n then Inl UNDEFINED
         else Inr (replicate k 0 @ drop k (lshift_loop same a m k (n - 1 - k) out)))"
proof -
  define m k where "m = shift mod 64" and "k = shift div 64"
  have m: "nat (int shift mod int WORD_BIT_LENGTH) = m" and k: "int shift div int WORD_BIT_LENGTH = int k"
    by (simp_all add: WORD_BIT_LENGTH_def m_def k_def nat_mod_distrib zdiv_int)
  have ks: "k \<le> 2 ^ 25" using assms(2) unfolding k_def by simp
  have i: "c_int (word_of_int (int n - 1)) = int n - 1" using assms(1) by (intro c_int_word_of_int) simp_all
  have j: "c_int (word_of_int (int n - 1 - int k)) = int n - 1 - int k"
    using assms(1) ks by (intro c_int_word_of_int) simp_all
  have len: "length (lmove_loop same a k (n - k) out) = length out" "length (lshift_loop same a m k (n - 1 - k) out) = length out"
    by simp_all
  show ?thesis
  proof (cases "k < n")
    case True
    then have "\<not> int n - 1 - int k < 0" "\<not> int n - 1 < int n - 1 - int k" "\<not> int n - 1 - int k \<ge> int (length a)"
      "\<not> int n - 1 \<ge> int (length out)" "nat (int n - 1 - (int n - 1 - int k)) = k" "nat (int n - 1 - int k + 1) = n - k"
      "nat (int n - 1 - int k) = n - 1 - k" "k \<le> length out" "min k n = k" "\<not> n \<le> k"
      using assms(3,4) by simp_all
    then show ?thesis
      unfolding words_lshift_def Let_def m k i j m_def[symmetric] k_def[symmetric] by (simp add: len)
  next
    case False
    then have "int n - 1 - int k < 0" "nat (int n - 1 + 1) = n" "n - k = 0" "min k n = n" "n \<le> k" by simp_all
    then show ?thesis using assms(4)
      unfolding words_lshift_def Let_def m k i j m_def[symmetric] k_def[symmetric] by simp
  qed
qed

lemma words_lshift_eq:
  assumes "length a = n" "length out = n" "same \<Longrightarrow> out = a" "0 < m" "m < 64" "k < n"
    and "n \<le> 2 ^ 31" "64 * k + m < 2 ^ 31"
  shows "words_lshift same a n (int (64 * k + m)) out = Inr (replicate k 0 @ shl m 0 (take (n - k) a))"
proof -
  have "drop k (lshift_loop same a m k (n - 1 - k) out) = shl m 0 (take (n - k) a)"
    by (rule nth_equalityI) (use assms in \<open>auto simp: nth_lshift_loop nth_shl\<close>)
  then show ?thesis using assms words_lshift_idx[of n "64 * k + m" a out same] by (simp add: Let_def del: of_nat_mult of_nat_add)
qed

lemma words_lshift_move:
  assumes "length a = n" "length out = n" "same \<Longrightarrow> out = a" "n \<le> 2 ^ 31" "64 * k < 2 ^ 31"
  shows "words_lshift same a n (int (64 * k)) out = Inr (replicate (min k n) 0 @ take (n - k) a)"
proof -
  have "drop (min k n) (lmove_loop same a k (n - k) out) = take (n - k) a"
    by (rule nth_equalityI) (use assms in \<open>auto simp: nth_lmove_loop\<close>)
  then show ?thesis using assms words_lshift_idx[of n "64 * k" a out same] by (simp add: Let_def del: of_nat_mult)
qed

lemma words_rshift_move:
  assumes "length a = n" "length out = n" "same \<Longrightarrow> out = a" "0 < n"
  shows "words_rshift same 0 a n (64 * k) out = Inr (drop k a @ replicate (min k n) 0)"
proof -
  have "take (n - k) (rmove_loop same a k 0 (n - k) out) = drop k a"
    by (rule nth_equalityI) (use assms in \<open>auto simp: nth_rmove_loop add.commute\<close>)
  then show ?thesis using assms by (simp add: words_rshift_def Let_def WORD_BIT_LENGTH_def)
qed

lemma words_rshift_eq:
  assumes "length a = n" "length out = n" "same \<Longrightarrow> out = a" "0 < m" "m < 64" "k < n"
    and "h = 0 \<or> k = 0"
  shows "words_rshift same h a n (64 * k + m) out = Inr (shr m h (drop k a) @ replicate k 0)"
proof -
  let ?l = "rshift_loop same a m k 0 (n - 1 - k) out"
  let ?w = "take (n - k) ?l @ replicate k 0"
  have "?w[n - 1 := ?w ! (n - 1) OR push_bit (64 - m) h] = shr m h (drop k a) @ replicate k 0"
  proof (rule nth_equalityI)
    show "length (?w[n - 1 := ?w ! (n - 1) OR push_bit (64 - m) h]) = length (shr m h (drop k a) @ replicate k 0)"
      using assms by simp
    fix i assume "i < length (?w[n - 1 := ?w ! (n - 1) OR push_bit (64 - m) h])"
    then have i: "i < n" using assms by simp
    show "?w[n - 1 := ?w ! (n - 1) OR push_bit (64 - m) h] ! i = (shr m h (drop k a) @ replicate k 0) ! i"
      using assms i
      by (auto simp: nth_append nth_rshift_loop nth_shr nth_list_update add.commute or.commute)
  qed
  then show ?thesis using assms by (simp add: words_rshift_def Let_def WORD_BIT_LENGTH_def)
qed

subsection \<open>What the operations compute\<close>

abbreviation wa_val :: "WordArray \<Rightarrow> nat" where
  "wa_val a \<equiv> wval (wa_buf a)"

lemma c_int_simps [simp]: "c_int 0 = 0" "c_int 1 = 1" "c_int (-1) = -1"
proof -
  have "(ucast (-1 :: word_t) :: u32) = -1" by (rule bit_word_eqI) (auto simp: bit_simps)
  then show "c_int (-1) = -1" by (simp add: c_int_def)
qed (simp_all add: c_int_def)

lemma int_add_ok:
  assumes "wf_wa a" "wf_wa b" "wf_wa out" "wa_len b = wa_len a" "wa_len out = wa_len a"
  shows "\<exists>s c. int_add a b out = Inr (mk_wa s, c) \<and> length s = wa_len a \<and> (c = 0 \<or> c = 1)
     \<and> wval s + WB ^ wa_len a * unat c = wa_val a + wa_val b"
proof -
  have l: "length (wa_buf a) = wa_len a" "length (wa_buf b) = wa_len a" "length (wa_buf out) = wa_len a"
    using assms by (simp_all add: wf_wa_def)
  obtain ws s where r: "words_add_loop (Dw 0 0) (wa_buf a) (wa_buf b) = (ws, s)" "length ws = wa_len a"
      "unat (hi s) \<le> 1" "wval ws + WB ^ wa_len a * unat (hi s) = wa_val a + wa_val b"
    using words_add_loop_ok[of "wa_buf a" "wa_buf b" "Dw 0 0"] l by auto
  have "hi s = 0 \<or> hi s = 1" using r(3) word_unat_eq_iff[of "hi s" 0] word_unat_eq_iff[of "hi s" 1] by auto
  then show ?thesis
    using r l assms by (auto simp: int_add_def words_add_64_def wf_wa_def intro!: exI[of _ ws])
qed

lemma int_sub_ok:
  assumes "wf_wa a" "wf_wa b" "wf_wa out" "wa_len b = wa_len a" "wa_len out = wa_len a"
  shows "\<exists>d. int_sub a b out = Inr (mk_wa d, if wa_val a < wa_val b then -1 else 0) \<and> length d = wa_len a
     \<and> wval d + wa_val b = wa_val a + (if wa_val a < wa_val b then WB ^ wa_len a else 0)"
proof -
  have l: "length (wa_buf a) = wa_len a" "length (wa_buf b) = wa_len a" "length (wa_buf out) = wa_len a"
    using assms by (simp_all add: wf_wa_def)
  obtain ws s where r: "words_sub_loop (Dw 0 0) (wa_buf a) (wa_buf b) = (ws, s)" "length ws = wa_len a"
      "hi s = 0 \<or> hi s = -1" "wval ws + wa_val b = wa_val a + WB ^ wa_len a * borrow (hi s)"
    using words_sub_loop_ok[of "wa_buf a" "wa_buf b" "Dw 0 0"] l by (auto simp: borrow_def)
  have lt: "wval ws < WB ^ wa_len a" "wa_val b < WB ^ wa_len a"
    using wval_less[of ws] wval_less[of "wa_buf b"] r(2) l by simp_all
  have h: "hi s = (if wa_val a < wa_val b then -1 else 0)"
    using r(3,4) lt by (auto simp: borrow_def)
  show ?thesis
    using r(1,2,4) h l assms
    by (auto simp: int_sub_def words_sub_64_def wf_wa_def borrow_def intro!: exI[of _ ws])
qed

lemma int_mul_ok:
  assumes "wf_wa a" "wf_wa b" "wf_wa out" "wa_len b = wa_len a" "wa_len out = 2 * wa_len a"
  shows "\<exists>p. int_mul a b out = Inr (mk_wa p) \<and> length p = 2 * wa_len a \<and> wval p = wa_val a * wa_val b"
proof -
  have l: "length (wa_buf a) = wa_len a" "length (wa_buf b) = wa_len a" "length (wa_buf out) = 2 * wa_len a"
    using assms by (simp_all add: wf_wa_def)
  obtain r where r: "words_mul_loop 0 (wa_buf a) (wa_buf b) (replicate (2 * wa_len a) 0) = r"
      "length r = 2 * wa_len a" "wval r = wa_val a * wa_val b"
    using words_mul_loop_ok[of "[]" 0 "replicate (wa_len a) 0" "wa_buf b" "wa_buf a"] l
    by (auto simp: replicate_add[symmetric] mult_2)
  then show ?thesis using l assms by (auto simp: int_mul_def words_mul_64_def intro!: exI[of _ r])
qed

lemma wval_take_mod: "wval (take k ws) = wval ws mod WB ^ k"
proof (cases "k \<le> length ws")
  case True
  have "wval ws = wval (take k ws) + WB ^ k * wval (drop k ws)"
    using wval_append[of "take k ws" "drop k ws"] True by simp
  moreover have "wval (take k ws) < WB ^ k" using wval_less[of "take k ws"] True by simp
  ultimately show ?thesis by simp
next
  case False
  then have "WB ^ length ws \<le> WB ^ k" by (intro power_increasing) (simp_all add: Suc_leI)
  then have "wval ws < WB ^ k" using wval_less[of ws] by linarith
  then show ?thesis using False by simp
qed

lemma wval_drop_div: "wval (drop k ws) = wval ws div WB ^ k"
proof (cases "k \<le> length ws")
  case True
  have "wval ws = wval (take k ws) + WB ^ k * wval (drop k ws)"
    using wval_append[of "take k ws" "drop k ws"] True by simp
  moreover have "wval (take k ws) < WB ^ k" using wval_less[of "take k ws"] True by simp
  ultimately show ?thesis by simp
next
  case False
  then have "WB ^ length ws \<le> WB ^ k" by (intro power_increasing) (simp_all add: Suc_leI)
  then have "wval ws < WB ^ k" using wval_less[of ws] by linarith
  then show ?thesis using False by simp
qed

lemma pow_WB: "2 ^ (64 * k + m) = WB ^ k * 2 ^ m"
  by (simp add: WB_def power_add power_mult)

lemma int_lshift_ok:
  assumes "wf_wa a" "wf_wa out" "wa_len out = wa_len a" "same \<Longrightarrow> out = a"
    and "shift < 64 * wa_len a \<or> 64 dvd shift" and small: "wa_len a \<le> 2 ^ 31" "shift < 2 ^ 31"
  shows "\<exists>r. int_lshift same a shift out = Inr (mk_wa r) \<and> length r = wa_len a
     \<and> wval r = (wa_val a * 2 ^ shift) mod WB ^ wa_len a"
proof -
  define m k n where "m = shift mod 64" and "k = shift div 64" and "n = wa_len a"
  have s: "shift = 64 * k + m" by (simp add: m_def k_def)
  have l: "length (wa_buf a) = n" "length (wa_buf out) = n" "same \<Longrightarrow> wa_buf out = wa_buf a"
    using assms by (simp_all add: wf_wa_def n_def)
  have low: "WB ^ k * (x mod WB ^ (n - k)) = (WB ^ k * x) mod WB ^ n" if "k \<le> n" for x
    using that by (simp add: mult_mod_right flip: power_add)
  show ?thesis
  proof (cases "m = 0")
    case True
    have p: "2 ^ shift = WB ^ k" using pow_WB[of k 0] by (simp only: s True power_0 mult_1_right)
    have e: "words_lshift same (wa_buf a) n (c_int (of_nat shift)) (wa_buf out)
        = Inr (replicate (min k n) 0 @ take (n - k) (wa_buf a))"
      using words_lshift_move[OF l, where same = same and k = k] small unfolding c_int_of_nat[OF small(2)] n_def[symmetric] by (simp add: s True)
    have "wval (replicate (min k n) 0 @ take (n - k) (wa_buf a)) = (wa_val a * 2 ^ shift) mod WB ^ n"
    proof (cases "k \<le> n")
      case True
      then show ?thesis using low[OF True] \<open>m = 0\<close>
        by (simp only: wval_append wval_take_mod p wval_replicate_0 length_replicate min_absorb1 add_0)
           (simp add: mult.commute)
    next
      case False
      then have "WB ^ n dvd 2 ^ shift" unfolding p by (simp add: le_imp_power_dvd)
      then show ?thesis using False by (simp add: wval_append)
    qed
    then show ?thesis using e l assms(2,3) by (auto simp: int_lshift_def n_def[symmetric])
  next
    case False
    then have m: "0 < m" "m < 64" by (simp_all add: m_def)
    have "\<not> 64 dvd shift" using False by (simp add: m_def dvd_eq_mod_eq_0)
    then have k: "k < n" using assms(5) unfolding k_def n_def by (simp add: less_mult_imp_div_less mult.commute)
    have e: "words_lshift same (wa_buf a) n (c_int (of_nat shift)) (wa_buf out)
        = Inr (replicate k 0 @ shl m 0 (take (n - k) (wa_buf a)))"
      using words_lshift_eq[OF l m k, where same = same] small unfolding c_int_of_nat[OF small(2)] n_def[symmetric] unfolding s by blast
    have "wval (replicate k 0 @ shl m 0 (take (n - k) (wa_buf a))) = (wa_val a * 2 ^ shift) mod WB ^ n"
      using k l low[of "wa_val a * 2 ^ m"]
      by (simp add: wval_append wval_shl[OF m] wval_take_mod s pow_WB mod_mult_left_eq mult.left_commute)
    then show ?thesis using e l k assms(2,3) by (auto simp: int_lshift_def n_def[symmetric])
  qed
qed

lemma int_rshift_ok:
  assumes "wf_wa a" "wf_wa out" "wa_len out = wa_len a" "same \<Longrightarrow> out = a" "0 < wa_len a"
    and "h = 0 \<and> (shift < 64 * wa_len a \<or> 64 dvd shift) \<or> 0 < shift \<and> shift < 64"
  shows "\<exists>r. int_rshift same h a shift out = Inr (mk_wa r) \<and> length r = wa_len a
     \<and> wval r = ((wa_val a + WB ^ wa_len a * unat h) div 2 ^ shift) mod WB ^ wa_len a"
proof -
  define m k n where "m = shift mod 64" and "k = shift div 64" and "n = wa_len a"
  have s: "shift = 64 * k + m" by (simp add: m_def k_def)
  have l: "length (wa_buf a) = n" "length (wa_buf out) = n" "same \<Longrightarrow> wa_buf out = wa_buf a"
    using assms by (simp_all add: wf_wa_def n_def)
  have n0: "0 < n" unfolding n_def by (rule assms(5))
  have small: "wa_val a div x < WB ^ n" for x
    using wval_less[of "wa_buf a"] div_le_dividend[of "wa_val a" x] unfolding l(1) by linarith
  show ?thesis
  proof (cases "m = 0")
    case True
    then have h: "h = 0" using assms(6) unfolding m_def by auto
    have p: "2 ^ shift = WB ^ k" using pow_WB[of k 0] by (simp only: s True power_0 mult_1_right)
    have e: "words_rshift same h (wa_buf a) n shift (wa_buf out) = Inr (drop k (wa_buf a) @ replicate (min k n) 0)"
      unfolding s True add_0_right h by (intro words_rshift_move l n0)
    have "wval (drop k (wa_buf a) @ replicate (min k n) 0) = (wa_val a div 2 ^ shift) mod WB ^ n"
      using small[of "WB ^ k"] h by (simp add: wval_append wval_drop_div p)
    then show ?thesis using e l h assms(2,3) by (auto simp: int_rshift_def n_def[symmetric])
  next
    case False
    then have m: "0 < m" "m < 64" by (simp_all add: m_def)
    have "\<not> 64 dvd shift" using False by (simp add: m_def dvd_eq_mod_eq_0)
    then have k: "k < n" and hk: "h = 0 \<or> k = 0"
      using assms(5,6) unfolding k_def n_def by (auto simp: less_mult_imp_div_less mult.commute)
    have e: "words_rshift same h (wa_buf a) n shift (wa_buf out)
        = Inr (shr m h (drop k (wa_buf a)) @ replicate k 0)"
      unfolding s by (intro words_rshift_eq l m k hk)
    have "wval (shr m h (drop k (wa_buf a)) @ replicate k 0)
        = ((wa_val a + WB ^ n * unat h) div 2 ^ shift) mod WB ^ n"
    proof (cases "k = 0")
      case True
      then show ?thesis using l s by (simp add: wval_shr[OF m])
    next
      case False
      then have h: "h = 0" using hk by simp
      have d: "wa_val a div WB ^ k div 2 ^ m = wa_val a div 2 ^ shift"
        by (simp add: s pow_WB div_mult2_eq)
      have "wval (drop k (wa_buf a)) div 2 ^ m < WB ^ (n - k)"
        using wval_less[of "drop k (wa_buf a)"] unfolding length_drop l(1)
        by (rule le_less_trans[OF div_le_dividend])
      then show ?thesis using h l small[of "2 ^ shift"]
        by (simp add: wval_append wval_shr[OF m]) (simp add: wval_drop_div d)
    qed
    then show ?thesis using e l k assms(2,3) by (auto simp: int_rshift_def n_def[symmetric])
  qed
qed

lemma wval_less_step: "x < y \<Longrightarrow> wval xs < WB ^ n \<Longrightarrow> wval xs + WB ^ n * unat x < wval ys + WB ^ n * unat y"
proof -
  assume "x < y" and l: "wval xs < WB ^ n"
  then have "WB ^ n * (unat x + 1) \<le> WB ^ n * unat y"
    by (intro mult_le_mono2) (simp add: word_less_nat_alt Suc_leI)
  with l show ?thesis by (simp add: distrib_left)
qed

lemma cmp_top_ok:
  "length xs = length ys \<Longrightarrow> cmp_top (rev xs) (rev ys) = sgn (int (wval xs) - int (wval ys))"
proof (induction xs arbitrary: ys rule: rev_induct)
  case (snoc x xs)
  then obtain ys' y where ys: "ys = ys' @ [y]" "length ys' = length xs" by (cases ys rule: rev_cases) auto
  consider "x < y" | "x = y" | "y < x" by (rule linorder_cases)
  then show ?case
  proof cases
    case 1
    then have "wval (xs @ [x]) < wval ys"
      unfolding ys(1) wval_append ys(2) using wval_less_step[of x y xs "length xs" ys'] wval_less[of xs] by simp
    then show ?thesis using 1 less_not_sym[OF 1] ys by (auto simp: sgn_if)
  next
    case 2
    then show ?thesis using snoc.IH[OF ys(2)[symmetric]] ys by (simp add: wval_append)
  next
    case 3
    then have "wval ys < wval (xs @ [x])"
      unfolding ys(1) wval_append ys(2) using wval_less_step[of y x ys' "length xs" xs] wval_less[of ys'] ys(2) by simp
    then show ?thesis using 3 less_not_sym[OF 3] ys by (auto simp: sgn_if)
  qed
qed simp

lemma list_ex_wval: "list_ex (\<lambda>w. w \<noteq> 0) ws \<longleftrightarrow> wval ws \<noteq> 0"
  by (simp add: list_ex_iff wval_eq_0_iff)

lemma wval_split: "n \<le> length ws \<Longrightarrow> wval ws = wval (take n ws) + WB ^ n * wval (drop n ws)"
  using wval_append[of "take n ws" "drop n ws"] by simp

lemma int_cmp_ok:
  assumes "wf_wa a" "wf_wa b" "0 < wa_len a" "0 < wa_len b"
  shows "int_cmp a b = Inr (sgn (int (wa_val a) - int (wa_val b)))"
proof -
  define n where "n = min (wa_len a) (wa_len b)"
  have l: "length (wa_buf a) = wa_len a" "length (wa_buf b) = wa_len b" using assms by (simp_all add: wf_wa_def)
  have va: "wa_val a = wval (take n (wa_buf a)) + WB ^ n * wval (drop n (wa_buf a))"
   and vb: "wa_val b = wval (take n (wa_buf b)) + WB ^ n * wval (drop n (wa_buf b))"
    by (intro wval_split; simp add: n_def l)+
  have short: "wval (take n ws) < WB ^ n" if "n \<le> length ws" for ws
    using wval_less[of "take n ws"] that by simp
  have lt: "wval (take n (wa_buf a)) < WB ^ n" "wval (take n (wa_buf b)) < WB ^ n"
    by (intro short; simp add: n_def l)+
  have one: "drop n (wa_buf a) = [] \<or> drop n (wa_buf b) = []" using l by (simp add: n_def min_def)
  have big: "WB ^ n \<le> WB ^ n * k" if "k \<noteq> 0" for k using that by simp
  have len: "(if wa_len a > wa_len b then wa_len b else wa_len a) = n" by (simp add: n_def)
  have e: "int_cmp a b = Inr (if wval (drop n (wa_buf a)) \<noteq> 0 then 1
      else if wval (drop n (wa_buf b)) \<noteq> 0 then -1
      else cmp_top (rev (take n (wa_buf a))) (rev (take n (wa_buf b))))"
    using assms l by (simp add: int_cmp_def Let_def len list_ex_wval) (simp add: n_def)
  consider "wval (drop n (wa_buf a)) \<noteq> 0" | "wval (drop n (wa_buf b)) \<noteq> 0" "wval (drop n (wa_buf a)) = 0"
    | "wval (drop n (wa_buf a)) = 0" "wval (drop n (wa_buf b)) = 0" by blast
  then show ?thesis
  proof cases
    case 1
    then have "wval (drop n (wa_buf b)) = 0" using one by auto
    then have "wa_val b = wval (take n (wa_buf b))" using vb by simp
    then have "wa_val b < wa_val a" using va lt big[OF 1] by linarith
    then show ?thesis using 1 e by (simp add: sgn_if)
  next
    case 2
    then have "wa_val a = wval (take n (wa_buf a))" using va by simp
    then have "wa_val a < wa_val b" using vb lt big[OF 2(1)] by linarith
    then show ?thesis using 2 e by (simp add: sgn_if)
  next
    case 3
    then show ?thesis
      using e va vb cmp_top_ok[of "take n (wa_buf a)" "take n (wa_buf b)"] l by (simp add: n_def)
  qed
qed

lemma int_is_zero_ok: "wf_wa a \<Longrightarrow> int_is_zero a = Inr (wa_val a = 0)"
  by (simp add: int_is_zero_def wf_wa_def wval_eq_0_iff list_all_iff)

lemma int_is_one_ok: "wf_wa a \<Longrightarrow> 0 < wa_len a \<Longrightarrow> int_is_one a = Inr (wa_val a = 1)"
proof -
  assume a: "wf_wa a" "0 < wa_len a"
  then obtain w ws where b: "wa_buf a = w # ws" by (cases "wa_buf a") (auto simp: wf_wa_def)
  have "unat w + WB * wval ws = 1 \<longleftrightarrow> w = 1 \<and> wval ws = 0"
  proof
    assume s: "unat w + WB * wval ws = 1"
    have "wval ws = 0"
    proof (rule ccontr)
      assume "wval ws \<noteq> 0"
      then have "WB * 1 \<le> WB * wval ws" by (intro mult_le_mono2) simp
      with s WB_gt(3) show False by linarith
    qed
    with s show "w = 1 \<and> wval ws = 0" by (simp add: word_unat_eq_iff)
  qed simp
  then show ?thesis using a b
    by (auto simp: int_is_one_def wf_wa_def list_all_iff wval_eq_0_iff)
qed

lemma words_top_bounds:
  "length ws = n \<Longrightarrow> words_top ws n \<le> n \<and> wval (drop (words_top ws n) ws) = 0
     \<and> (n > 0 \<longrightarrow> words_top ws n > 0) \<and> (words_top ws n > 1 \<longrightarrow> ws ! (words_top ws n - 1) \<noteq> 0)"
proof -
  have "k \<le> length ws \<Longrightarrow> wval (drop k ws) = 0 \<Longrightarrow> words_top ws k \<le> k \<and> wval (drop (words_top ws k) ws) = 0
     \<and> (k > 0 \<longrightarrow> words_top ws k > 0) \<and> (words_top ws k > 1 \<longrightarrow> ws ! (words_top ws k - 1) \<noteq> 0)" for k
  proof (induction k)
    case (Suc k)
    show ?case
    proof (cases "k > 0 \<and> ws ! k = 0")
      case True
      have "drop k ws = ws ! k # drop (Suc k) ws" using Suc.prems by (simp add: Cons_nth_drop_Suc)
      then have "wval (drop k ws) = 0" using True Suc.prems(2) by simp
      then show ?thesis using Suc True by auto
    next
      case False
      then show ?thesis using Suc.prems by auto
    qed
  qed simp
  from this[of n] show "length ws = n \<Longrightarrow> ?thesis" by simp
qed

lemma words_len_bounds:
  "length ws = n \<Longrightarrow> n \<le> 2 ^ 31 \<Longrightarrow> words_len ws n \<le> n \<and> wval (drop (words_len ws n) ws) = 0
     \<and> (n > 0 \<longrightarrow> words_len ws n > 0) \<and> (words_len ws n > 1 \<longrightarrow> ws ! (words_len ws n - 1) \<noteq> 0)"
  unfolding words_len_eq by (rule words_top_bounds)

lemma int_bit_len_ok:
  assumes "wf_wa a" "0 < wa_len a" "wa_len a \<le> 2 ^ 31"
  shows "\<exists>n. int_bit_len a = Inr n \<and> bits_of n (wa_val a)"
proof -
  define ws n where "ws = wa_buf a" and "n = words_len ws (wa_len a)"
  have l: "length ws = wa_len a" using assms by (simp add: wf_wa_def ws_def)
  from words_len_bounds[OF l assms(3)] assms(2) have n: "n \<le> wa_len a" "wval (drop n ws) = 0" "0 < n"
      "n > 1 \<Longrightarrow> ws ! (n - 1) \<noteq> 0" by (auto simp: n_def)
  let ?w = "ws ! (n - 1)" and ?k = "word_bit_len (ws ! (n - 1))" and ?lo = "wval (take (n - 1) ws)"
  have t: "take n ws = take (n - 1) ws @ [?w]"
    using n(1,3) l take_Suc_conv_app_nth[of "n - 1" ws] by simp
  have v: "wval ws = ?lo + WB ^ (n - 1) * unat ?w"
    using wval_split[of n ws] n l unfolding t by (simp add: wval_append)
  have lo: "?lo < WB ^ (n - 1)" using wval_less[of "take (n - 1) ws"] n l by simp
  have k: "bits_of ?k (unat ?w)" by (rule bits_of_word_bit_len)
  have "hd (take 1 (drop (n - 1) ws)) = ?w" using n l by (simp add: hd_drop_conv_nth)
  then have e: "int_bit_len a = Inr ((n - 1) * 64 + ?k)"
    using assms n l by (simp add: int_bit_len_def int_word_len_def WORD_BIT_LENGTH_def flip: ws_def n_def)
  have p: "2 ^ ((n - 1) * 64 + x) = WB ^ (n - 1) * 2 ^ x" for x
    using pow_WB[of "n - 1" x] by (simp add: mult.commute)
  have "wval ws < WB ^ (n - 1) * (unat ?w + 1)" using v lo by (simp add: distrib_left)
  also have "\<dots> \<le> WB ^ (n - 1) * 2 ^ ?k" using k by (intro mult_le_mono2) (simp add: bits_of_def Suc_leI)
  finally have u: "wval ws < 2 ^ ((n - 1) * 64 + ?k)" unfolding p .
  have "bits_of ((n - 1) * 64 + ?k) (wval ws)"
  proof (cases "?k = 0")
    case True
    then have "?w = 0" using k by (simp add: bits_of_def unat_eq_0)
    then have "n = 1" using n(3,4) by (cases "n > 1") auto
    then show ?thesis using u True by (simp add: bits_of_def)
  next
    case False
    have "WB ^ (n - 1) * 2 ^ (?k - 1) \<le> WB ^ (n - 1) * unat ?w"
      using k False by (intro mult_le_mono2) (simp add: bits_of_def)
    also have "\<dots> \<le> wval ws" using v by simp
    finally have "2 ^ ((n - 1) * 64 + (?k - 1)) \<le> wval ws" unfolding p .
    then show ?thesis using u False by (simp add: bits_of_def)
  qed
  then show ?thesis using e by (simp add: ws_def)
qed

lemma int_truncate_ok:
  assumes "wf_wa a"
  shows "\<exists>r. int_truncate a n = Inr (mk_wa r) \<and> length r = wa_len a \<and> wval r = wa_val a mod 2 ^ n"
proof -
  define ws k m where "ws = wa_buf a" and "k = n div 64" and "m = n mod 64"
  have l: "length ws = wa_len a" using assms by (simp add: wf_wa_def ws_def)
  have nk: "2 ^ n = WB ^ k * 2 ^ m" using pow_WB[of k m] by (simp add: k_def m_def)
  show ?thesis
  proof (cases "k < wa_len a")
    case False
    then have "WB ^ wa_len a \<le> WB ^ k" by (intro power_increasing) (simp_all add: Suc_leI)
    also have "\<dots> \<le> 2 ^ n" unfolding nk by simp
    finally have "wval ws < 2 ^ n" using wval_less[of ws] unfolding l by linarith
    moreover have "int_truncate a n = Inr (mk_wa ws)"
      using False wf_wa_mk[OF assms] by (simp add: int_truncate_def WORD_BIT_LENGTH_def k_def ws_def)
    ultimately show ?thesis using l by (intro exI[of _ ws]) (simp add: ws_def)
  next
    case True
    define w where "w = ws ! k AND (push_bit m 1 - 1)"
    let ?r = "take k ws @ w # replicate (wa_len a - k - 1) 0"
    have h: "hd (take 1 (drop k ws)) = ws ! k" using True l by (simp add: hd_drop_conv_nth)
    have e: "int_truncate a n = Inr (mk_wa ?r)"
      using True l assms h
      by (simp add: int_truncate_def Let_def WORD_BIT_LENGTH_def w_def flip: k_def m_def ws_def)
    have "w = take_bit m (ws ! k)"
      by (simp add: w_def take_bit_eq_mask mask_eq_exp_minus_1 push_bit_eq_mult)
    then have w: "unat w = unat (ws ! k) mod 2 ^ m" by (simp only: unsigned_take_bit_eq) (simp only: take_bit_eq_mod)
    have d: "wval (drop k ws) = unat (ws ! k) + WB * wval (drop (Suc k) ws)"
      using True l by (simp flip: Cons_nth_drop_Suc)
    have "2 ^ m dvd WB" unfolding WB_def by (intro le_imp_power_dvd) (simp add: m_def)
    then have "wval (drop k ws) mod 2 ^ m = unat (ws ! k) mod 2 ^ m"
      unfolding d by (metis dvd_mult2 mod_add_cong mod_mod_trivial mod_0_imp_dvd add.right_neutral dvd_imp_mod_0)
    moreover have "wval ws mod (WB ^ k * 2 ^ m) = WB ^ k * (wval ws div WB ^ k mod 2 ^ m) + wval ws mod WB ^ k"
      by (rule mod_mult2_eq)
    ultimately have "wval ?r = wval ws mod 2 ^ n"
      using True l unfolding nk by (simp add: wval_append wval_take_mod wval_drop_div w)
    then show ?thesis using e l True by (auto simp: ws_def)
  qed
qed

text \<open>(C14) \<^verbatim>\<open>int_add\<close> and \<^verbatim>\<open>int_sub\<close> on arrays of equal length: the words written and the carry (0 or 1)
  together are the exact sum; the words of the difference are the difference modulo the size of
  the array, and the result is -1 exactly when it is negative.\<close>

theorem int_add_sub_exact:
  assumes "wf_wa a" "wf_wa b" "wf_wa out" "wa_len b = wa_len a" "wa_len out = wa_len a"
  shows "(\<exists>s c. int_add a b out = Inr (s, c) \<and> wf_wa s
           \<and> wa_val s + 2 ^ (64 * wa_len a) * unat c = wa_val a + wa_val b)
       \<and> (\<exists>d. int_sub a b out = Inr (d, if wa_val a < wa_val b then -1 else 0) \<and> wf_wa d
           \<and> int (wa_val d) = (int (wa_val a) - int (wa_val b)) mod 2 ^ (64 * wa_len a))"
proof -
  define P where "P = WB ^ wa_len a"
  have p: "2 ^ (64 * wa_len a) = P" "(2::int) ^ (64 * wa_len a) = int P"
    by (simp_all add: P_def WB_def power_mult)
  obtain d where d: "int_sub a b out = Inr (mk_wa d, if wa_val a < wa_val b then -1 else 0)"
      "length d = wa_len a" "wval d + wa_val b = wa_val a + (if wa_val a < wa_val b then P else 0)"
    using int_sub_ok[OF assms] unfolding P_def by blast
  have "wval d < P" using wval_less[of d] d(2) by (simp add: P_def)
  moreover have "int (wval d) = int (wa_val a) - int (wa_val b) + int P * (if wa_val a < wa_val b then 1 else 0)"
    using arg_cong[OF d(3), of int] by auto
  ultimately have "int (wval d) = (int (wa_val a) - int (wa_val b)) mod int P"
    by (metis mod_mult_self2 mod_pos_pos_trivial of_nat_0_le_iff of_nat_less_iff)
  moreover obtain s c where "int_add a b out = Inr (mk_wa s, c)" "wval s + P * unat c = wa_val a + wa_val b"
    using int_add_ok[OF assms] unfolding P_def by blast
  ultimately show ?thesis unfolding p using d(1) by (intro conjI) (force intro: exI[of _ "mk_wa d"] exI[of _ "mk_wa s"])+
qed

lemma int_add_sub_exact_witness:
  "\<exists>s c. int_add (mk_wa [0xFFFFFFFFFFFFFFFF, 0xFFFFFFFFFFFFFFFF]) (mk_wa [1, 0]) (mk_wa [0, 0]) = Inr (s, c)
     \<and> wa_val s + 2 ^ 128 * unat c = 2 ^ 128"
  using int_add_sub_exact[of "mk_wa [0xFFFFFFFFFFFFFFFF, 0xFFFFFFFFFFFFFFFF]" "mk_wa [1, 0]" "mk_wa [0, 0]"]
  by (auto simp: WB_def)

text \<open>(C15) \<^verbatim>\<open>int_mul\<close> writes the exact product of two arrays of \<open>n\<close> words into \<open>2 * n\<close> words, and
  \<^verbatim>\<open>int_sqr\<close> the exact square, whatever the output array held before.\<close>

theorem int_mul_exact:
  assumes "wf_wa a" "wf_wa b" "wf_wa out" "wa_len b = wa_len a" "wa_len out = 2 * wa_len a"
  shows "\<exists>p s. int_mul a b out = Inr p \<and> wf_wa p \<and> wa_val p = wa_val a * wa_val b
     \<and> int_sqr a out = Inr s \<and> wf_wa s \<and> wa_val s = (wa_val a)\<^sup>2"
  using int_mul_ok[OF assms] int_mul_ok[OF assms(1,1,3) refl assms(5)]
  by (force simp: int_sqr_def power2_eq_square)

lemma int_mul_exact_witness:
  "\<exists>p. int_mul (mk_wa [5, 1]) (mk_wa [7, 0]) (mk_wa [9, 9, 9, 9]) = Inr p \<and> wa_val p = (5 + 2 ^ 64) * 7"
  using int_mul_exact[of "mk_wa [5, 1]" "mk_wa [7, 0]" "mk_wa [9, 9, 9, 9]"] by (auto simp: WB_def)



text \<open>(C17) \<^verbatim>\<open>int_cmp\<close> decides the order of the numbers for any two non-empty arrays, also of different
  lengths, and \<^verbatim>\<open>int_equals\<close>, \<^verbatim>\<open>int_is_zero\<close> and \<^verbatim>\<open>int_is_one\<close> agree with the numbers; \<^verbatim>\<open>int_bit_len\<close> is the
  length of the number in bits, for arrays of at most \<open>2\<^sup>3\<^sup>1\<close> words, and \<^verbatim>\<open>int_truncate\<close> the remainder modulo \<open>2 ^ n\<close>.\<close>

theorem int_cmp_bits_exact:
  assumes "wf_wa a" "wf_wa b" "0 < wa_len a" "0 < wa_len b"
  shows "int_cmp a b = Inr (sgn (int (wa_val a) - int (wa_val b)))
     \<and> int_equals a b = Inr (wa_val a = wa_val b)
     \<and> int_is_zero a = Inr (wa_val a = 0) \<and> int_is_one a = Inr (wa_val a = 1)
     \<and> (wa_len a \<le> 2 ^ 31 \<longrightarrow>
          (\<exists>k. int_bit_len a = Inr k \<and> wa_val a < 2 ^ k \<and> (wa_val a = 0 \<longleftrightarrow> k = 0) \<and> (k = 0 \<or> 2 ^ (k - 1) \<le> wa_val a)))
     \<and> (\<exists>r. int_truncate a n = Inr r \<and> wf_wa r \<and> wa_val r = wa_val a mod 2 ^ n)"
proof -
  have "\<exists>k. int_bit_len a = Inr k \<and> wa_val a < 2 ^ k \<and> (wa_val a = 0 \<longleftrightarrow> k = 0) \<and> (k = 0 \<or> 2 ^ (k - 1) \<le> wa_val a)"
    if small: "wa_len a \<le> 2 ^ 31"
  proof -
    obtain k where k: "int_bit_len a = Inr k" "bits_of k (wa_val a)" using int_bit_len_ok[OF assms(1,3) small] by blast
    have "(0::nat) < 2 ^ (k - 1)" by simp
    with k(2) have "wa_val a = 0 \<longleftrightarrow> k = 0" unfolding bits_of_def by (cases "k = 0") (simp, linarith)
    then show ?thesis using k by (auto simp: bits_of_def)
  qed
  then show ?thesis
    using int_cmp_ok[OF assms] int_is_zero_ok[OF assms(1)] int_is_one_ok[OF assms(1,3)] int_truncate_ok[OF assms(1), of n]
    by (auto simp: int_equals_def sgn_if)
qed

lemma int_cmp_bits_exact_witness: "int_cmp (mk_wa [7]) (mk_wa [7, 0, 1]) = Inr (-1)"
  using int_cmp_bits_exact[of "mk_wa [7]" "mk_wa [7, 0, 1]"] by (simp add: WB_def sgn_if)

end
