(* ===== verification/MathDiv.thy ===== *)
theory MathDiv
  imports MathInt
begin

text \<open>
  Division of word arrays (\<^verbatim>\<open>words_div\<close>, \<^verbatim>\<open>int_div\<close>), which is Knuth's algorithm D with words of
  64 bits, and the functions built on it. A call that does not return is \<open>None\<close>.
\<close>

subsection \<open>words_div\<close>

definition DIV_MAX_A_LEN :: nat where "DIV_MAX_A_LEN = 256"
definition DIV_MAX_B_LEN :: nat where "DIV_MAX_B_LEN = 128"

text \<open>
  The estimate of a quotient digit is corrected at most twice with the second word \<open>v2\<close> of the
  divisor and the third word \<open>u2\<close> of the dividend. \<^verbatim>\<open>edw\<close> and \<^verbatim>\<open>fdw\<close> are read only when they have
  been set.
\<close>

definition div_correct :: "word_t \<Rightarrow> word_t \<Rightarrow> word_t \<Rightarrow> Dword \<Rightarrow> word_t \<Rightarrow> Dword" where
  "div_correct v1 v2 u2 qh rh =
     (if hi qh > 0 \<or> word_cmp_64 (word_mul_64 (lo qh) v2) (Dw rh u2) > 0
      then let qh = word_sub_word_64 qh 1; rhdw = word_add_word_64 (Dw 0 rh) v1
           in if hi rhdw = 0
              then if (hi qh = 1 \<and> lo qh = 0) \<or> word_cmp_64 (word_mul_64 (lo qh) v2) (Dw (lo rhdw) u2) > 0
                   then word_sub_word_64 qh 1 else qh
              else qh
      else qh)"

text \<open>
  The multiple of the divisor is subtracted from a window of \<open>aa\<close>, low word first; when that borrows
  from the word above the window, the divisor is added back.
\<close>

fun div_mulsub :: "word_t \<Rightarrow> Dword \<Rightarrow> word_t list \<Rightarrow> word_t list \<Rightarrow> word_t list \<times> Dword" where
  "div_mulsub q c (b # bs) (w # ws) =
     (let d = word_mul_64 q b;
          d = word_add_64 d c;
          c = Dw 0 (hi d);
          c = (if w < lo d then word_add_word_64 c 1 else c);
          (out, c') = div_mulsub q c bs ws
      in ((w - lo d) # out, c'))"
| "div_mulsub q c _ _ = ([], c)"

fun div_addback :: "Dword \<Rightarrow> word_t list \<Rightarrow> word_t list \<Rightarrow> word_t list \<times> Dword" where
  "div_addback c (b # bs) (w # ws) =
     (let c = word_add_word_64 c w;
          c = word_add_word_64 c b;
          (out, c') = div_addback (Dw 0 (hi c)) bs ws
      in (lo c # out, c'))"
| "div_addback c _ _ = ([], c)"

text \<open>
  A round computes one digit; \<open>off\<close> is \<^verbatim>\<open>aa_last_word_off\<close>, \<open>n\<close> the number of significant words of
  the divisor.
\<close>

definition div_round :: "nat \<Rightarrow> word_t list \<Rightarrow> nat \<Rightarrow> nat \<Rightarrow> word_t list \<Rightarrow> (word_t list \<times> word_t) option" where
  "div_round off bb n j aa =
     (case word_div (Dw (aa ! (off - j)) (aa ! (off - (j + 1)))) (bb ! (n - 1)) of
        None \<Rightarrow> None
      | Some (qh, rhw) \<Rightarrow>
          let qh = (if n > 1 then div_correct (bb ! (n - 1)) (bb ! (n - 2)) (aa ! (off - (2 + j))) qh rhw else qh);
              base = off - (n + j);
              (ws, c) = div_mulsub (lo qh) (Dw 0 0) (take n bb) (take n (drop base aa));
              aa = take base aa @ ws @ drop (base + n) aa;
              top = aa ! (off - j);
              aa = aa[off - j := top - lo c]
          in if top < lo c
             then let (ws, c) = div_addback (Dw 0 0) (take n bb) (take n (drop base aa));
                      aa = take base aa @ ws @ drop (base + n) aa;
                      aa = aa[off - j := aa ! (off - j) + lo c]
                  in Some (aa, lo (word_sub_word_64 qh 1))
             else Some (aa, lo qh))"

text \<open>\<open>k\<close> is \<^verbatim>\<open>rounds - j\<close>, the index of the next digit of the quotient.\<close>

primrec div_rounds :: "nat \<Rightarrow> nat \<Rightarrow> word_t list \<Rightarrow> nat \<Rightarrow> nat \<Rightarrow> word_t list \<Rightarrow> word_t list option
    \<Rightarrow> (word_t list \<times> word_t list option) option" where
  "div_rounds 0 off bb n j aa q = Some (aa, q)"
| "div_rounds (Suc k) off bb n j aa q =
     (case div_round off bb n j aa of None \<Rightarrow> None
      | Some (aa, d) \<Rightarrow> div_rounds k off bb n (j + 1) aa (map_option (\<lambda>q. q[k := d]) q))"

definition zero_words :: "nat \<Rightarrow> word_t list option \<Rightarrow> word_t list option res" where
  "zero_words n p = (case p of None \<Rightarrow> Inr None
     | Some b \<Rightarrow> DO (wr b 0 (replicate n 0)) (\<lambda>b. Inr (Some b)))"

text \<open>
  Longer operands than the fixed buffers hold make \<^verbatim>\<open>words_div\<close> return without a result. The
  part of the buffer \<^verbatim>\<open>aa\<close> beyond \<open>a_len + 1\<close> words is never initialised, so the model leaves it out
  and a read there is undefined.
\<close>

definition words_div :: "word_t list \<Rightarrow> nat \<Rightarrow> word_t list \<Rightarrow> nat \<Rightarrow> word_t list option \<Rightarrow> word_t list option
    \<Rightarrow> (word_t list option \<times> word_t list option) res option" where
  "words_div a a_len b b_len q r =
     (if a_len > DIV_MAX_A_LEN \<or> b_len > DIV_MAX_B_LEN then Some (Inr (q, r))
      else case DO (rd a 0 a_len) (\<lambda>aw. DO (rd b 0 b_len) (\<lambda>bb.
                DO (zero_words a_len q) (\<lambda>q. DO (zero_words b_len r) (\<lambda>r.
                if words_len bb b_len = 0 then Inl UNDEFINED
                else let a_act = words_len aw a_len; b_act = words_len bb b_len;
                         norm_shift = WORD_BIT_LENGTH - word_bit_len (bb ! (b_act - 1));
                         aa = aw @ [0]
                     in DO (words_lshift True aa (a_act + 1) (int norm_shift) aa) (\<lambda>aa.
                        DO (words_lshift True bb b_act (int norm_shift) bb) (\<lambda>bb.
                        Inr (aa, a_act, bb, b_act, norm_shift, q, r))))))) of
             Inl e \<Rightarrow> Some (Inl e)
           | Inr (aa, a_act, bb, b_act, norm_shift, q, r) \<Rightarrow>
               (case div_rounds (a_act + 1 - b_act) a_act bb b_act 0 aa q of None \<Rightarrow> None
                | Some (aa, q) \<Rightarrow>
                    Some (case r of None \<Rightarrow> Inr (q, None)
                      | Some r \<Rightarrow> DO (words_rshift False 0 aa b_act norm_shift r) (\<lambda>r. Inr (q, Some r)))))"

definition int_div :: "WordArray \<Rightarrow> WordArray \<Rightarrow> WordArray option \<Rightarrow> WordArray option
    \<Rightarrow> (WordArray option \<times> WordArray option) res option" where
  "int_div a b q r =
     (case words_div (wa_buf a) (wa_len a) (wa_buf b) (wa_len b) (map_option wa_buf q) (map_option wa_buf r) of
        None \<Rightarrow> None
      | Some res \<Rightarrow> Some (DO res (\<lambda>(qb, rb).
          Inr (map_option (\<lambda>q. q\<lparr>wa_buf := the qb\<rparr>) q, map_option (\<lambda>r. r\<lparr>wa_buf := the rb\<rparr>) r))))"

subsection \<open>The digit estimate\<close>

lemma knuth_upper:
  fixes w :: nat
  assumes "w = X * P + wl" "wl < P" "V = v * P + vl" "X < q * v"
  shows "w div V < q"
proof -
  have "(X + 1) * P \<le> (q * v) * P" using assms(4) by (intro mult_le_mono1) simp
  then have "w < q * V" using assms(1,2,3) by (simp add: distrib_left distrib_right mult.assoc)
  then show ?thesis by (rule less_mult_imp_div_less)
qed

lemma knuth_lower:
  fixes w :: nat
  assumes "w = X * P + wl" "V = v * P + vl" "vl < P" "q * v \<le> X" "q \<le> v + 1" "0 < V"
  shows "q \<le> w div V + 1"
proof (cases q)
  case (Suc k)
  have "k * vl \<le> v * P" using assms(3,5) Suc by (intro mult_le_mono) simp_all
  then have "k * V \<le> (k + 1) * v * P" using assms(2) by (simp add: distrib_left distrib_right)
  also have "\<dots> \<le> X * P" using assms(4) Suc by (intro mult_le_mono1) simp
  finally have "k * V \<le> w" using assms(1) by simp
  then have "k \<le> w div V" using assms(6) by (simp add: less_eq_div_iff_mult_less_eq)
  then show ?thesis using Suc by simp
qed simp

lemma knuth_two:
  fixes w :: nat
  assumes "w = T * P + wl" "V = v * P + vl" "vl < P" "q * v \<le> T" "q \<le> 2 * v + 2" "0 < V"
  shows "q \<le> w div V + 2"
proof (cases "q \<le> 2")
  case False
  then obtain k where q: "q = k + 2" by (metis add.commute le_add_diff_inverse nat_le_linear)
  have "k * vl \<le> 2 * v * P" using assms(3,5) q by (intro mult_le_mono) simp_all
  then have "k * V \<le> (k + 2) * v * P" using assms(2) by (simp add: distrib_left distrib_right)
  also have "\<dots> \<le> T * P" using assms(4) q by (intro mult_le_mono1) simp
  finally have "k * V \<le> w" using assms(1) by simp
  then have "k \<le> w div V" using assms(6) by (simp add: less_eq_div_iff_mult_less_eq)
  then show ?thesis using q by simp
qed simp

lemma cmp_pos: "word_cmp_64 a b > 0 \<longleftrightarrow> dval b < dval a"
  by (rule dval_cmp)

lemma hi_pos_iff: "hi d > 0 \<longleftrightarrow> WB \<le> dval d"
proof -
  have "hi d > 0 \<longleftrightarrow> unat (hi d) \<noteq> 0" by (simp add: word_gt_0 unat_eq_0)
  also have "\<dots> \<longleftrightarrow> WB \<le> dval d" unfolding dval_hi_lo by (simp add: div_eq_0_iff not_less)
  finally show ?thesis .
qed

lemma lo_small: "dval d < WB \<Longrightarrow> unat (lo d) = dval d"
  by (simp add: dval_hi_lo)

lemma hi_zero_iff: "hi d = 0 \<longleftrightarrow> dval d < WB"
  using hi_pos_iff[of d] by (auto simp: word_gt_0)

lemma dval_one_zero: "hi d = 1 \<and> lo d = 0 \<longleftrightarrow> dval d = WB"
proof
  assume d: "dval d = WB"
  then have "unat (hi d) = 1" "unat (lo d) = 0" unfolding dval_hi_lo by simp_all
  then show "hi d = 1 \<and> lo d = 0" by (simp add: word_unat_eq_iff)
qed (simp add: dval_def)

text \<open>
  The test \<^verbatim>\<open>edw > fdw\<close> compares \<open>q * v2\<close> with \<open>r * WB + u2\<close>, which says whether \<open>q\<close> times the first
  two words of the divisor exceeds the first three of the dividend.
\<close>

lemma digit_test:
  fixes q :: nat
  assumes "T = q * v1 + r"
  shows "r * B + u2 < q * v2 \<longleftrightarrow> T * B + u2 < q * (v1 * B + v2)"
  using assms by (simp add: algebra_simps)

lemma div_correct_ok:
  fixes u0 u1 :: word_t
  assumes T: "T = unat u0 * WB + unat u1" and le: "unat u0 \<le> unat v1" and norm: "WB \<le> 2 * unat v1"
    and qh: "dval qh = T div unat v1" and rh: "unat rh = T mod unat v1"
    and X: "X = T * WB + unat u2" and v: "v = unat v1 * WB + unat v2"
    and w: "w = X * P + wl" "wl < P" and V: "V = v * P + vl" "vl < P" and small: "w < WB * V"
  defines "Q \<equiv> dval (div_correct v1 v2 u2 qh rh)"
  shows "w div V \<le> Q \<and> Q \<le> w div V + 1 \<and> Q < WB"
proof -
  define B where "B = WB"
  define qt where "qt = w div V"
  have v10: "0 < unat v1" using norm WB_gt(1) by linarith
  have V0: "0 < V" using small by (cases V) auto
  have qt_B: "qt < B" unfolding qt_def B_def using small by (simp add: less_mult_imp_div_less)
  have "1 * WB \<le> unat v1 * WB" using v10 by (intro mult_le_mono1) simp
  then have vB: "B \<le> v" unfolding v B_def by linarith
  define q0 where "q0 = T div unat v1"
  define r0 where "r0 = T mod unat v1"
  have Tq: "T = q0 * unat v1 + r0" by (simp add: q0_def r0_def)
  have q0B: "q0 \<le> B + 1"
  proof -
    have "T \<le> unat v1 * B + unat u1" unfolding T B_def using le by simp
    also have "\<dots> < unat v1 * B + 2 * unat v1" using norm unat_less_WB[of u1] by linarith
    also have "\<dots> = (B + 2) * unat v1" by simp
    finally have "q0 < B + 2" unfolding q0_def by (rule less_mult_imp_div_less)
    then show ?thesis by simp
  qed
  have up: "X < q * v \<Longrightarrow> qt < q" for q unfolding qt_def by (rule knuth_upper[OF w V(1)])
  have low: "q * v \<le> X \<Longrightarrow> q \<le> B \<Longrightarrow> q \<le> qt + 1" for q
    unfolding qt_def using vB by (intro knuth_lower[OF w(1) V(1,2) _ _ V0]) simp_all
  have q0_ge: "qt \<le> q0"
  proof -
    have "X < (q0 + 1) * v"
    proof -
      have "T + 1 \<le> (q0 + 1) * unat v1" using Tq v10 mod_less_divisor[OF v10, of T] r0_def by simp
      then have le: "(T + 1) * B \<le> (q0 + 1) * unat v1 * B" by (rule mult_le_mono1)
      have "X < (T + 1) * B" unfolding X B_def by simp
      also note le
      also have "(q0 + 1) * unat v1 * B \<le> (q0 + 1) * v" unfolding v B_def
        by (simp only: distrib_left mult.assoc le_add1)
      finally show ?thesis .
    qed
    from up[OF this] show ?thesis by simp
  qed
  have q0_two: "q0 \<le> qt + 2"
  proof -
    have "w = T * (B * P) + (unat u2 * P + wl)" "V = unat v1 * (B * P) + (unat v2 * P + vl)"
      using w V unfolding X v B_def by (simp_all add: algebra_simps)
    moreover have "unat v2 * P + vl < B * P"
    proof -
      have "unat v2 * P + vl < (unat v2 + 1) * P" using V(2) by simp
      also have "\<dots> \<le> B * P" unfolding B_def by (intro mult_le_mono1) (simp add: Suc_leI)
      finally show ?thesis .
    qed
    moreover have "q0 * unat v1 \<le> T" using Tq by simp
    moreover have "q0 \<le> 2 * unat v1 + 2" using q0B norm unfolding B_def by linarith
    ultimately show ?thesis unfolding qt_def using V0 by (intro knuth_two) simp_all
  qed
  have test: "word_cmp_64 (word_mul_64 (lo q) v2) (Dw r u2) > 0 \<longleftrightarrow> X < dval q * v"
    if "dval q < B" "T = dval q * unat v1 + unat r" for q r
    unfolding cmp_pos dval_mul X v dval_Dw using that digit_test[OF that(2), of WB "unat u2" "unat v2"]
    by (simp add: lo_small B_def)
  have e0: "dval qh = q0" "unat rh = r0" using qh rh by (simp_all add: q0_def r0_def)
  have c0: "hi qh > 0 \<or> word_cmp_64 (word_mul_64 (lo qh) v2) (Dw rh u2) > 0 \<longleftrightarrow> B \<le> q0 \<or> X < q0 * v"
    using test[of qh rh] hi_pos_iff[of qh] e0 Tq unfolding B_def by (cases "q0 < WB") auto
  show ?thesis
  proof (cases "B \<le> q0 \<or> X < q0 * v")
    case False
    then have "Q = q0" unfolding Q_def div_correct_def c0 using e0 by simp
    then show ?thesis using False q0_ge low[of q0] unfolding qt_def[symmetric] B_def by simp
  next
    case True
    then have qt0: "qt < q0" using qt_B up[of q0] by auto
    then obtain q1 where q1: "q0 = q1 + 1" by (metis Suc_eq_plus1 lessE)
    define d1 rd where "d1 = word_sub_word_64 qh 1" and "rd = word_add_word_64 (Dw 0 rh) v1"
    have d1: "dval d1 = q1" unfolding d1_def using e0 q1 by (simp add: dval_sub_word)
    have "r0 + unat v1 < WB * WB"
      using unat_less_WB[of rh] unat_less_WB[of v1] mult_le_mono1[of 2 WB WB] e0 by (simp add: WB_def)
    then have rd: "dval rd = r0 + unat v1" unfolding rd_def using e0 by (simp add: dval_add_word)
    have T1: "T = q1 * unat v1 + (r0 + unat v1)" using Tq q1 by simp
    have T2: "T \<le> unat v1 * B + unat u1" unfolding T B_def using le by simp
    have Q: "Q = dval (if hi rd = 0
        then if (hi d1 = 1 \<and> lo d1 = 0) \<or> word_cmp_64 (word_mul_64 (lo d1) v2) (Dw (lo rd) u2) > 0
             then word_sub_word_64 d1 1 else d1
        else d1)"
      unfolding Q_def div_correct_def c0 d1_def rd_def using True by (simp add: Let_def)
    show ?thesis
    proof (cases "hi rd = 0")
      case False
      then have big: "B \<le> r0 + unat v1" unfolding hi_zero_iff B_def rd by simp
      have "q1 \<noteq> B"
      proof
        assume "q1 = B"
        then have "B * unat v1 + (r0 + unat v1) \<le> unat v1 * B + unat u1" using T1 T2 by simp
        then have "r0 + unat v1 \<le> unat u1" by (simp add: mult.commute)
        then show False using big unat_less_WB[of u1] unfolding B_def by linarith
      qed
      then have q1B: "q1 < B" using q0B q1 by simp
      have "q1 * unat v2 \<le> B * B" using q1B unfolding B_def by (intro mult_le_mono less_imp_le) simp_all
      also have "\<dots> \<le> (r0 + unat v1) * B" using big by (rule mult_le_mono1)
      finally have "\<not> (r0 + unat v1) * B + unat u2 < q1 * unat v2" by simp
      then have "q1 * v \<le> X" unfolding digit_test[OF T1] X v B_def by simp
      then have "q1 \<le> qt + 1" using q1B by (intro low) simp_all
      then show ?thesis using Q d1 False qt0 q1 q1B unfolding qt_def[symmetric] B_def by simp
    next
      case True
      have rl: "unat (lo rd) = r0 + unat v1" using True rd unfolding hi_zero_iff by (simp add: lo_small)
      have one: "unat (1::word_t) = 1" by simp
      show ?thesis
      proof (cases "q1 = B \<or> X < q1 * v")
        case c: True
        have "hi d1 = 1 \<and> lo d1 = 0 \<or> word_cmp_64 (word_mul_64 (lo d1) v2) (Dw (lo rd) u2) > 0"
        proof (cases "q1 = B")
          case True
          then show ?thesis using dval_one_zero[of d1] d1 by (simp add: B_def)
        next
          case False
          then have "dval d1 < B" using q0B q1 d1 by simp
          from test[OF this, of "lo rd"] show ?thesis using T1 d1 rl c False by simp
        qed
        then have "Q = dval (word_sub_word_64 d1 1)" unfolding Q using True by simp
        moreover have qt1: "qt < q1" using c qt_B up[of q1] by auto
        ultimately have "Q = q1 - 1" by (simp add: dval_sub_word d1)
        then show ?thesis using qt1 q0_two q0B q1 unfolding qt_def[symmetric] B_def by linarith
      next
        case c: False
        then have q1B: "q1 < B" using q0B q1 by simp
        have "\<not> word_cmp_64 (word_mul_64 (lo d1) v2) (Dw (lo rd) u2) > 0"
          using test[of d1 "lo rd"] q1B d1 T1 rl c by simp
        moreover have "\<not> (hi d1 = 1 \<and> lo d1 = 0)" using dval_one_zero[of d1] d1 c by (simp add: B_def)
        ultimately have "Q = q1" unfolding Q using True d1 by auto
        moreover have "q1 \<le> qt + 1" using c q1B by (intro low) simp_all
        ultimately show ?thesis using qt0 q1 q1B unfolding qt_def[symmetric] B_def by simp
      qed
    qed
  qed
qed

subsection \<open>A round of the division\<close>

lemma div_mulsub_step:
  fixes q b w :: word_t
  assumes c: "hi c = 0"
  defines "d \<equiv> word_add_64 (word_mul_64 q b) c"
  defines "c' \<equiv> (if w < lo d then word_add_word_64 (Dw 0 (hi d)) 1 else Dw 0 (hi d))"
  shows "hi c' = 0 \<and> unat (w - lo d) + unat q * unat b + unat (lo c) = unat w + WB * unat (lo c')"
proof -
  obtain k where k: "WB = k + 1" using WB_gt(1) by (metis Suc_eq_plus1 Suc_pred)
  have le: "unat x \<le> k" for x :: word_t using unat_less_WB[of x] k by linarith
  have dc: "dval c = unat (lo c)" using c by (simp add: dval_def)
  have qb: "unat q * unat b \<le> k * k" by (intro mult_le_mono le)
  moreover have "k * WB = k * k + k" by (simp add: k)
  ultimately have s: "unat q * unat b + unat (lo c) \<le> k * WB" using le[of "lo c"] by linarith
  have "k * WB < WB * WB" using k by simp
  with s have "unat q * unat b + unat (lo c) < WB * WB" by linarith
  then have d: "dval d = unat q * unat b + unat (lo c)"
    unfolding d_def by (subst dval_add) (simp_all add: dval_mul dc)
  have hd: "w < lo d \<Longrightarrow> unat (hi d) < k"
  proof (rule ccontr)
    assume "w < lo d" "\<not> unat (hi d) < k"
    then have "unat (hi d) = k" "0 < unat (lo d)" using le[of "hi d"] by (auto simp: word_less_nat_alt)
    then have "k * WB < dval d" by (simp add: dval_def)
    with d s show False by simp
  qed
  have c': "hi c' = 0 \<and> unat (lo c') = unat (hi d) + (if w < lo d then 1 else 0)"
  proof (cases "w < lo d")
    case True
    have "unat (hi d) + 1 < WB" using hd[OF True] k by linarith
    moreover have "WB * 1 \<le> WB * WB" by (intro mult_le_mono2) (simp add: Suc_leI)
    ultimately have "unat (hi d) + 1 < WB * WB" by linarith
    then have "dval c' = unat (hi d) + 1"
      unfolding c'_def using True by (simp add: dval_add_word)
    moreover have "unat (hi d) + 1 < WB" by fact
    ultimately show ?thesis using True hi_zero_iff[of c'] lo_small[of c'] by simp
  qed (simp add: c'_def)
  have b: "unat (w - lo d) + unat (lo d) = unat w + (if w < lo d then WB else 0)" by (rule sub_borrow)
  have "unat q * unat b + unat (lo c) = unat (hi d) * WB + unat (lo d)" using d by (simp add: dval_def)
  then show ?thesis using c' b by (auto simp: algebra_simps)
qed

lemma div_mulsub_ok:
  assumes "length bs = length ws" and "hi c = 0"
  shows "\<exists>out c'. div_mulsub q c bs ws = (out, c') \<and> length out = length ws \<and> hi c' = 0
     \<and> wval out + unat q * wval bs + unat (lo c) = wval ws + WB ^ length ws * unat (lo c')"
  using assms
proof (induction q c bs ws rule: div_mulsub.induct)
  case (1 q c b bs w ws)
  define d where "d = word_add_64 (word_mul_64 q b) c"
  define c1 where "c1 = (if w < lo d then word_add_word_64 (Dw 0 (hi d)) 1 else Dw 0 (hi d))"
  have st: "hi c1 = 0" "unat (w - lo d) + unat q * unat b + unat (lo c) = unat w + WB * unat (lo c1)"
    using div_mulsub_step[OF 1(3), of w q b] unfolding d_def c1_def by blast+
  obtain out c' where r: "div_mulsub q c1 bs ws = (out, c')" "length out = length ws" "hi c' = 0"
      "wval out + unat q * wval bs + unat (lo c1) = wval ws + WB ^ length ws * unat (lo c')"
    using 1(1)[OF refl d_def refl c1_def] 1(2) st(1) by auto
  have "WB * wval out + unat q * (WB * wval bs) + WB * unat (lo c1)
      = WB * wval ws + WB * (WB ^ length ws * unat (lo c'))"
    using arg_cong[OF r(4), of "(*) WB"] by (simp add: distrib_left mult.left_commute)
  moreover have "div_mulsub q c (b # bs) (w # ws) = ((w - lo d) # out, c')"
    using r(1) unfolding c1_def d_def by (simp only: div_mulsub.simps Let_def prod.case)
  ultimately show ?case using r st(2) 1(2) by (simp add: distrib_left)
qed auto

lemma div_addback_ok:
  assumes "length bs = length ws" and "hi c = 0" "unat (lo c) \<le> 1"
  shows "\<exists>out c'. div_addback c bs ws = (out, c') \<and> length out = length ws \<and> hi c' = 0 \<and> unat (lo c') \<le> 1
     \<and> wval out + WB ^ length ws * unat (lo c') = wval ws + wval bs + unat (lo c)"
  using assms
proof (induction c bs ws rule: div_addback.induct)
  case (1 c b bs w ws)
  define d where "d = word_add_word_64 (word_add_word_64 c w) b"
  have dc: "dval c = unat (lo c)" using 1(3) by (simp add: dval_def)
  have two: "2 * WB < WB * WB" by (simp add: WB_def)
  have lt: "unat (lo c) + unat w + unat b < 2 * WB"
    using 1(4) unat_less_WB[of w] unat_less_WB[of b] by linarith
  then have "unat (lo c) + unat w < WB * WB" "unat (lo c) + unat w + unat b < WB * WB"
    using two by linarith+
  then have d: "dval d = unat (lo c) + unat w + unat b"
    unfolding d_def by (simp add: dval_add_word dc)
  have h: "unat (hi d) \<le> 1"
    unfolding dval_hi_lo using d lt less_mult_imp_div_less[of "dval d" 2 WB] by simp
  obtain out c' where r: "div_addback (Dw 0 (hi d)) bs ws = (out, c')" "length out = length ws" "hi c' = 0"
      "unat (lo c') \<le> 1" "wval out + WB ^ length ws * unat (lo c') = wval ws + wval bs + unat (hi d)"
    using 1(1)[OF refl d_def] 1(2) h by auto
  have "WB * wval out + WB * (WB ^ length ws * unat (lo c')) = WB * wval ws + WB * wval bs + WB * unat (hi d)"
    using arg_cong[OF r(5), of "(*) WB"] by (simp add: distrib_left)
  moreover have "div_addback c (b # bs) (w # ws) = (lo d # out, c')"
    using r(1) unfolding d_def by (simp only: div_addback.simps Let_def prod.case)
  moreover have "unat (lo d) + WB * unat (hi d) = unat (lo c) + unat w + unat b"
    using d by (simp add: dval_def mult.commute)
  ultimately show ?case using r 1(2) by simp
qed auto

lemma wval_snoc: "wval (ws @ [t]) = wval ws + WB ^ length ws * unat t"
  by (simp add: wval_append)

lemma wval_last:
  assumes "length ws = n" "0 < n"
  shows "wval ws = wval (take (n - 1) ws) + WB ^ (n - 1) * unat (ws ! (n - 1))"
    "wval (take (n - 1) ws) < WB ^ (n - 1)"
proof -
  have "ws = take (n - 1) ws @ [ws ! (n - 1)]"
    using assms take_Suc_conv_app_nth[of "n - 1" ws] by simp
  then show "wval ws = wval (take (n - 1) ws) + WB ^ (n - 1) * unat (ws ! (n - 1))"
    using wval_snoc[of "take (n - 1) ws" "ws ! (n - 1)"] assms by simp
  show "wval (take (n - 1) ws) < WB ^ (n - 1)"
    using wval_less[of "take (n - 1) ws"] assms by simp
qed

lemma wval_last2:
  assumes "length ws = n" "1 < n"
  shows "wval ws = wval (take (n - 2) ws) + (unat (ws ! (n - 1)) * WB + unat (ws ! (n - 2))) * WB ^ (n - 2)"
    "wval (take (n - 2) ws) < WB ^ (n - 2)"
proof -
  have a: "length (take (n - 1) ws) = n - 1" "0 < n - 1" using assms by simp_all
  have p: "WB ^ (n - 1) = WB * WB ^ (n - 2)" using assms by (simp flip: power_Suc add: Suc_diff_Suc numeral_2_eq_2)
  have t: "take (n - 1 - 1) (take (n - 1) ws) = take (n - 2) ws" "take (n - 1) ws ! (n - 1 - 1) = ws ! (n - 2)"
    "n - 1 - 1 = n - 2" using assms by (simp_all add: numeral_2_eq_2)
  show "wval ws = wval (take (n - 2) ws) + (unat (ws ! (n - 1)) * WB + unat (ws ! (n - 2))) * WB ^ (n - 2)"
    using wval_last(1)[of ws n] wval_last(1)[OF a] assms unfolding t p by (simp add: algebra_simps)
  show "wval (take (n - 2) ws) < WB ^ (n - 2)"
    using wval_less[of "take (n - 2) ws"] assms by simp
qed

text \<open>The quotient digit before the subtraction is right or one too large.\<close>

lemma div_digit_ok:
  assumes n: "0 < n" "length bs = n" "length ws = n" and norm: "WB \<le> 2 * unat (bs ! (n - 1))"
    and small: "wval (ws @ [t]) < WB * wval bs"
  shows "\<exists>qh rhw. word_div (Dw t (ws ! (n - 1))) (bs ! (n - 1)) = Some (qh, rhw) \<and>
    (let Q = dval (if n > 1 then div_correct (bs ! (n - 1)) (bs ! (n - 2)) (ws ! (n - 2)) qh rhw else qh);
         q = wval (ws @ [t]) div wval bs
     in q \<le> Q \<and> Q \<le> q + 1 \<and> Q < WB)"
proof -
  let ?v1 = "bs ! (n - 1)" and ?u1 = "ws ! (n - 1)"
  have nz: "?v1 \<noteq> 0" using norm WB_gt(1) by auto
  from word_div_ok[OF nz, of "Dw t ?u1"] obtain qh rhw where
    d: "word_div (Dw t ?u1) ?v1 = Some (qh, rhw)" "unat rhw = dval (Dw t ?u1) mod unat ?v1"
      "dval qh = dval (Dw t ?u1) div unat ?v1" by blast
  have W: "wval (ws @ [t]) = wval ws + WB ^ n * unat t" using n by (simp add: wval_snoc)
  have P1: "WB ^ n = WB * WB ^ (n - 1)" using n(1) by (cases n) simp_all
  have vlt: "wval bs < (unat ?v1 + 1) * WB ^ (n - 1)" using wval_last[OF n(2,1)] by simp
  have "unat t * (WB * WB ^ (n - 1)) < WB * ((unat ?v1 + 1) * WB ^ (n - 1))"
  proof -
    have "unat t * (WB * WB ^ (n - 1)) \<le> wval (ws @ [t])" unfolding W P1 by simp
    also note small
    also have "WB * wval bs < WB * ((unat ?v1 + 1) * WB ^ (n - 1))" using vlt by simp
    finally show ?thesis .
  qed
  then have "unat t * (WB * WB ^ (n - 1)) < (unat ?v1 + 1) * (WB * WB ^ (n - 1))"
    by (simp only: mult.left_commute)
  then have le: "unat t \<le> unat ?v1" by (simp only: mult_less_cancel2) simp
  show ?thesis
  proof (cases "n > 1")
    case True
    have P2: "WB ^ n = WB * WB * WB ^ (n - 2)"
    proof -
      have "n = Suc (Suc (n - 2))" using True by simp
      then show ?thesis by (metis mult.assoc power_Suc)
    qed
    have w: "wval (ws @ [t]) = ((unat t * WB + unat ?u1) * WB + unat (ws ! (n - 2))) * WB ^ (n - 2) + wval (take (n - 2) ws)"
      unfolding W P2 wval_last2(1)[OF n(3) True] by (simp add: algebra_simps)
    have v: "wval bs = (unat ?v1 * WB + unat (bs ! (n - 2))) * WB ^ (n - 2) + wval (take (n - 2) bs)"
      using wval_last2(1)[OF n(2) True] by simp
    from div_correct_ok[OF refl le norm d(3,2)[unfolded dval_Dw] refl refl w wval_last2(2)[OF n(3) True]
        v wval_last2(2)[OF n(2) True] small]
    show ?thesis using d(1) True by (simp add: Let_def)
  next
    case False
    then have n1: "n = 1" using n(1) by simp
    obtain b u where bu: "bs = [b]" "ws = [u]" using n n1 by (auto simp: length_Suc_conv)
    have "wval (ws @ [t]) = dval (Dw t ?u1)" "wval bs = unat ?v1" using bu n1 by (simp_all add: mult.commute)
    then show ?thesis using d False small by (simp add: Let_def less_mult_imp_div_less)
  qed
qed

lemma div_round_ok:
  assumes aa: "aa = p @ ws @ t # rest" and p: "length p = k" and ws: "length ws = n" and off: "off = k + n + j"
    and n: "0 < n" and bs: "take n bb = bs" "n \<le> length bb" and norm: "WB \<le> 2 * unat (bb ! (n - 1))"
    and small: "wval (ws @ [t]) < WB * wval bs"
  shows "\<exists>ws' d. div_round off bb n j aa = Some (p @ ws' @ 0 # rest, d) \<and> length ws' = n
     \<and> unat d = wval (ws @ [t]) div wval bs \<and> wval ws' = wval (ws @ [t]) mod wval bs"
proof -
  let ?w = "wval (ws @ [t])" and ?V = "wval bs"
  define qt where "qt = ?w div ?V"
  have lb: "length bs = n" using bs by auto
  have bn: "bb ! i = bs ! i" if "i < n" for i using bs(1) that by (metis nth_take)
  have ix: "off - j = k + n" "off - (j + 1) = k + (n - 1)" "off - (n + j) = k" using off n by simp_all
  have top: "aa ! (k + n) = t" using aa p ws by (simp add: nth_append)
  have wi: "aa ! (k + i) = ws ! i" if "i < n" for i using aa p ws that by (simp add: nth_append)
  have u1: "aa ! (k + (n - 1)) = ws ! (n - 1)" using wi[of "n - 1"] n by simp
  have u2: "n > 1 \<Longrightarrow> aa ! (off - (2 + j)) = ws ! (n - 2)"
  proof -
    assume "n > 1"
    then have "off - (2 + j) = k + (n - 2)" using off by simp
    then show ?thesis using wi[of "n - 2"] \<open>n > 1\<close> by simp
  qed
  have norm': "WB \<le> 2 * unat (bs ! (n - 1))" using norm bn[of "n - 1"] n by simp
  obtain qh rhw where d: "word_div (Dw t (ws ! (n - 1))) (bs ! (n - 1)) = Some (qh, rhw)"
    and q: "let Q = dval (if n > 1 then div_correct (bs ! (n - 1)) (bs ! (n - 2)) (ws ! (n - 2)) qh rhw else qh)
            in qt \<le> Q \<and> Q \<le> qt + 1 \<and> Q < WB"
    using div_digit_ok[OF n lb ws norm' small] unfolding qt_def by (auto simp: Let_def)
  define Qd where "Qd = (if n > 1 then div_correct (bs ! (n - 1)) (bs ! (n - 2)) (ws ! (n - 2)) qh rhw else qh)"
  define Q where "Q = dval Qd"
  have Q: "qt \<le> Q" "Q \<le> qt + 1" "Q < WB" "unat (lo Qd) = Q"
    using q lo_small[of Qd] unfolding Let_def Qd_def[symmetric] Q_def by auto
  obtain ws1 c where ms: "div_mulsub (lo Qd) (Dw 0 0) bs ws = (ws1, c)" "length ws1 = n" "hi c = 0"
      "wval ws1 + Q * ?V = wval ws + WB ^ n * unat (lo c)"
    using div_mulsub_ok[of bs ws "Dw 0 0" "lo Qd"] lb ws Q(4) by auto
  define t1 where "t1 = t - lo c"
  have bw: "unat t1 + unat (lo c) = unat t + (if t < lo c then WB else 0)"
    unfolding t1_def by (rule sub_borrow)
  define N where "N = WB ^ n"
  have wt: "?w = wval ws + N * unat t" using ws by (simp add: wval_snoc N_def)
  have tot: "wval ws1 + N * unat t1 + Q * ?V = ?w + (if t < lo c then N * WB else 0)"
  proof -
    have "N * unat t1 + N * unat (lo c) = N * unat t + (if t < lo c then N * WB else 0)"
      using arg_cong[OF bw, of "(*) N"] by (simp add: distrib_left split: if_splits)
    then show ?thesis using ms(4) wt unfolding N_def[symmetric] by linarith
  qed
  have V0: "0 < ?V" using small by (cases ?V) auto
  have VN: "?V < N" using wval_less[of bs] lb by (simp add: N_def)
  have modV: "?w mod ?V < N" using mod_less_divisor[OF V0, of ?w] VN by linarith
  have w1: "wval ws1 + N * unat t1 < N * WB"
    using wval_less[of "ws1 @ [t1]"] ms(2) by (simp add: wval_snoc N_def mult.commute)
  have split0: "x + N * y = z \<Longrightarrow> z < N \<Longrightarrow> y = 0 \<and> x = z" for x y z :: nat
    by (cases y) auto
  define aa1 where "aa1 = p @ ws1 @ t1 # rest"
  have upd: "(take k aa @ ws1 @ drop (k + n) aa)[k + n := t1] = aa1"
    "(take k aa @ ws1 @ drop (k + n) aa) ! (k + n) = t"
    using aa p ws ms(2) by (simp_all add: aa1_def nth_append list_update_append)
  have e: "div_round off bb n j aa =
     (if t < lo c
      then (let (ws2, c2) = div_addback (Dw 0 0) bs ws1
            in Some (p @ ws2 @ (t1 + lo c2) # rest, lo (word_sub_word_64 Qd 1)))
      else Some (aa1, lo Qd))"
  proof -
    have w0: "take n (drop k aa) = ws" using aa p ws by simp
    have w1: "take n (drop k aa1) = ws1" using p ms(2) by (simp add: aa1_def)
    have a2: "length ws2 = n \<Longrightarrow> (take k aa1 @ ws2 @ drop (k + n) aa1)
        [k + n := (take k aa1 @ ws2 @ drop (k + n) aa1) ! (k + n) + x] = p @ ws2 @ (t1 + x) # rest" for ws2 x
      using p ms(2) by (simp add: aa1_def nth_append list_update_append)
    have l2: "length (fst (div_addback (Dw 0 0) bs ws1)) = n"
      using div_addback_ok[of bs ws1 "Dw 0 0"] lb ms(2) by auto
    have b1: "bb ! (n - 1) = bs ! (n - 1)" using bn[of "n - 1"] n by simp
    have Qe: "(if n > 1 then div_correct (bs ! (n - 1)) (bb ! (n - 2)) (aa ! (off - (2 + j))) qh rhw else qh) = Qd"
      unfolding Qd_def using bn[of "n - 2"] u2 n by simp
    have un: "div_round off bb n j aa =
       (let (ws, c) = div_mulsub (lo Qd) (Dw 0 0) bs ws;
            aa = take k aa @ ws @ drop (k + n) aa;
            top = aa ! (k + n);
            aa = aa[k + n := top - lo c]
        in if top < lo c
           then let (ws, c) = div_addback (Dw 0 0) bs (take n (drop k aa));
                    aa = take k aa @ ws @ drop (k + n) aa;
                    aa = aa[k + n := aa ! (k + n) + lo c]
                in Some (aa, lo (word_sub_word_64 Qd 1))
           else Some (aa, lo Qd))"
      unfolding div_round_def ix top u1 b1 d option.case prod.case Qe bs(1) w0 Let_def by (rule refl)
    obtain ws2 c2 where ab: "div_addback (Dw 0 0) bs ws1 = (ws2, c2)" by fastforce
    have "length ws2 = n" using l2 ab by simp
    from a2[OF this, of "lo c2"] show ?thesis
      unfolding un ms(1) Let_def prod.case upd(2) t1_def[symmetric] upd(1) w1 ab by simp
  qed
  show ?thesis
  proof (cases "t < lo c")
    case False
    then have eq: "wval ws1 + N * unat t1 + Q * ?V = ?w" using tot by simp
    then have "Q * ?V \<le> ?w" by linarith
    then have "Q \<le> qt" unfolding qt_def using V0 by (simp add: less_eq_div_iff_mult_less_eq)
    then have Qq: "Q = qt" using Q(1) by simp
    then have "wval ws1 + N * unat t1 = ?w mod ?V"
    proof -
      have "wval ws1 + N * unat t1 + ?w div ?V * ?V = ?w" using eq unfolding Qq qt_def .
      then show ?thesis using div_mult_mod_eq[of ?w ?V] by linarith
    qed
    from split0[OF this modV] have "unat t1 = 0" "wval ws1 = ?w mod ?V" by simp_all
    moreover from this(1) have "t1 = 0" by (simp add: unat_eq_0)
    ultimately show ?thesis using e False ms(2) Q(4) Qq unfolding aa1_def qt_def by auto
  next
    case True
    then have eq: "wval ws1 + N * unat t1 + Q * ?V = ?w + N * WB" using tot by simp
    have "?w < Q * ?V" using eq w1 by linarith
    then have "qt < Q" unfolding qt_def by (rule less_mult_imp_div_less)
    then have Qq: "Q = qt + 1" using Q(2) by simp
    obtain ws2 c2 where ab: "div_addback (Dw 0 0) bs ws1 = (ws2, c2)" "length ws2 = n" "unat (lo c2) \<le> 1"
        "wval ws2 + N * unat (lo c2) = wval ws1 + ?V"
      using div_addback_ok[of bs ws1 "Dw 0 0"] lb ms(2) unfolding N_def by auto
    define t2 where "t2 = t1 + lo c2"
    have ov: "unat t2 + (if t2 < t1 then WB else 0) = unat t1 + unat (lo c2)"
      unfolding t2_def by (rule add_carry)
    have "N * unat t2 + (if t2 < t1 then N * WB else 0) = N * unat t1 + N * unat (lo c2)"
      using arg_cong[OF ov, of "(*) N"] by (simp add: distrib_left split: if_splits)
    moreover have "Q * ?V = qt * ?V + ?V" using Qq by simp
    ultimately have f: "wval ws2 + N * unat t2 + (if t2 < t1 then N * WB else 0) + qt * ?V = ?w + N * WB"
      using eq ab(4) by linarith
    have "?w = qt * ?V + ?w mod ?V" unfolding qt_def by simp
    then have g: "wval ws2 + N * unat t2 + (if t2 < t1 then N * WB else 0) = ?w mod ?V + N * WB"
      using f by linarith
    have "wval ws2 + N * unat t2 < N * WB"
      using wval_less[of "ws2 @ [t2]"] ab(2) by (simp add: wval_snoc N_def mult.commute)
    then have "wval ws2 + N * unat t2 = ?w mod ?V" using g by (auto split: if_splits)
    from split0[OF this modV] have "unat t2 = 0" "wval ws2 = ?w mod ?V" by simp_all
    moreover from this(1) have "t2 = 0" by (simp add: unat_eq_0)
    moreover have "unat (lo (word_sub_word_64 Qd 1)) = qt"
    proof -
      have "dval (word_sub_word_64 Qd 1) = qt" using Qq by (simp add: dval_sub_word flip: Q_def)
      then show ?thesis using Q(3) Qq lo_small[of "word_sub_word_64 Qd 1"] by simp
    qed
    ultimately show ?thesis using e True ab unfolding t2_def qt_def by (auto simp: Let_def)
  qed
qed

lemma wval_div_add: "0 < V \<Longrightarrow> (c * (d * V + r) + p) div V = c * d + (c * r + p) div V"
  for V :: nat by (simp add: distrib_left mult.assoc[symmetric] add.assoc)

lemma div_rounds_ok:
  assumes n: "0 < n" "take n bb = bs" "n \<le> length bb" and norm: "WB \<le> 2 * unat (bb ! (n - 1))"
    and x: "length x = K + n" "wval (drop K x) < wval bs" and off: "0 < K \<Longrightarrow> off + 1 = K + n + j"
    and q: "\<And>q'. q = Some q' \<Longrightarrow> K \<le> length q'"
  shows "\<exists>y ds. div_rounds K off bb n j (x @ rest) q
      = Some (y @ replicate K 0 @ rest, map_option (\<lambda>q. ds @ drop K q) q)
     \<and> length y = n \<and> wval y = wval x mod wval bs \<and> length ds = K \<and> wval ds = wval x div wval bs"
  using x off q
proof (induction K arbitrary: x rest j q)
  case 0
  then show ?case by (intro exI[of _ x] exI[of _ "[]"]) (simp add: option.map_id[unfolded id_def])
next
  case (Suc K)
  define p ws t where "p = take K x" and "ws = take n (drop K x)" and "t = x ! (K + n)"
  have xe: "x = p @ ws @ [t]"
  proof -
    have "drop K x = take n (drop K x) @ [drop K x ! n]"
      using Suc.prems(1) take_Suc_conv_app_nth[of n "drop K x"] by simp
    then show ?thesis unfolding p_def ws_def t_def using Suc.prems(1) by (metis append_take_drop_id nth_drop le_add1 le_SucI add_Suc)
  qed
  have l: "length p = K" "length ws = n" using Suc.prems(1) by (simp_all add: p_def ws_def)
  have dK: "drop K x = ws @ [t]" using xe l by simp
  have "drop K x = x ! K # drop (Suc K) x" using Suc.prems(1) n(1) by (simp add: Cons_nth_drop_Suc)
  then have "wval (ws @ [t]) = unat (x ! K) + WB * wval (drop (Suc K) x)" unfolding dK by simp
  moreover have "unat (x ! K) + WB * wval (drop (Suc K) x) < WB * (wval (drop (Suc K) x) + 1)" by simp
  moreover have "WB * (wval (drop (Suc K) x) + 1) \<le> WB * wval bs" using Suc.prems(2) by (intro mult_le_mono2) simp
  ultimately have small: "wval (ws @ [t]) < WB * wval bs" by linarith
  have off: "off = K + n + j" using Suc.prems(3) by simp
  obtain ws' d where r: "div_round off bb n j (x @ rest) = Some (p @ ws' @ 0 # rest, d)" "length ws' = n"
      "unat d = wval (ws @ [t]) div wval bs" "wval ws' = wval (ws @ [t]) mod wval bs"
    using div_round_ok[OF _ l off n norm small, of "x @ rest" rest] xe by auto
  have V0: "0 < wval bs" using small by (cases "wval bs") auto
  let ?q = "map_option (\<lambda>q. q[K := d]) q"
  have "length (p @ ws') = K + n" "wval (drop K (p @ ws')) < wval bs" using l r(2,4) V0 by simp_all
  moreover have "0 < K \<Longrightarrow> off + 1 = K + n + (j + 1)" using off by simp
  moreover have "K \<le> length q'" if "?q = Some q'" for q' using Suc.prems(4) that by (cases q) auto
  ultimately obtain y ds where IH: "div_rounds K off bb n (j + 1) ((p @ ws') @ 0 # rest) ?q
      = Some (y @ replicate K 0 @ 0 # rest, map_option (\<lambda>q. ds @ drop K q) ?q)" "length y = n"
      "wval y = wval (p @ ws') mod wval bs" "length ds = K" "wval ds = wval (p @ ws') div wval bs"
    using Suc.IH[of "p @ ws'" "j + 1" ?q "0 # rest"] by blast
  have dm: "wval (ws @ [t]) = unat d * wval bs + wval ws'" using r(3,4) by simp
  have vx: "wval x = WB ^ K * (unat d * wval bs + wval ws') + wval p"
    unfolding xe using wval_append[of p "ws @ [t]"] l(1) dm by simp
  have vp: "wval (p @ ws') = WB ^ K * wval ws' + wval p" using l(1) by (simp add: wval_append)
  have q': "map_option (\<lambda>q. ds @ drop K q) ?q = map_option (\<lambda>q. (ds @ [d]) @ drop (Suc K) q) q"
  proof (cases q)
    case (Some q0)
    then have "K < length q0" using Suc.prems(4) by auto
    then have "drop K q0 = q0 ! K # drop (Suc K) q0" by (rule Cons_nth_drop_Suc[symmetric])
    then show ?thesis using Some by (simp add: drop_update_swap)
  qed simp
  have "div_rounds (Suc K) off bb n j (x @ rest) q
      = Some (y @ replicate (Suc K) 0 @ rest, map_option (\<lambda>q. (ds @ [d]) @ drop (Suc K) q) q)"
    using r(1) IH(1) unfolding q' by (simp add: replicate_append_same)
  moreover have "wval (ds @ [d]) = wval x div wval bs"
    unfolding vx wval_div_add[OF V0] vp[symmetric] IH(5)[symmetric] using IH(4) by (simp add: wval_append)
  moreover have "wval x mod wval bs = wval (p @ ws') mod wval bs"
  proof -
    have "wval x = wval (p @ ws') + WB ^ K * unat d * wval bs" unfolding vx vp by (simp add: algebra_simps)
    then show ?thesis by simp
  qed
  ultimately show ?case using IH(2,3,4) by (intro exI[of _ y] exI[of _ "ds @ [d]"]) simp
qed

subsection \<open>words_div and int_div\<close>

lemma words_lshift_small:
  assumes "s < 64" "0 < n" "n \<le> length a" "n \<le> 2 ^ 31"
  shows "\<exists>ws. words_lshift True a n (int s) a = Inr (ws @ drop n a) \<and> length ws = n
     \<and> wval ws = (wval (take n a) * 2 ^ s) mod WB ^ n"
proof (cases "s = 0")
  case True
  have "lmove_loop True a 0 n a = a"
    using assms by (intro nth_equalityI) (simp_all add: nth_lmove_loop)
  then have "words_lshift True a n (int s) a = Inr (take n a @ drop n a)"
    using assms True words_lshift_idx[of n s a a True] by (simp add: Let_def)
  moreover have "wval (take n a) < WB ^ n" using wval_less[of "take n a"] assms by simp
  ultimately show ?thesis using True assms by (intro exI[of _ "take n a"]) simp
next
  case False
  have "lshift_loop True a s 0 (n - 1) a = shl s 0 (take n a) @ drop n a"
    by (rule nth_equalityI) (use assms False in \<open>auto simp: nth_lshift_loop nth_shl nth_append\<close>)
  then have "words_lshift True a n (int s) a = Inr (shl s 0 (take n a) @ drop n a)"
    using assms False words_lshift_idx[of n s a a True] by (simp add: Let_def)
  then show ?thesis using assms False
    by (intro exI[of _ "shl s 0 (take n a)"]) (simp add: wval_shl)
qed

lemma words_rshift_small:
  assumes "s < 64" "0 < n" "n \<le> length a" "n \<le> length out"
  shows "\<exists>ws. words_rshift False 0 a n s out = Inr (ws @ drop n out) \<and> length ws = n
     \<and> wval ws = wval (take n a) div 2 ^ s"
proof (cases "s = 0")
  case True
  have "rmove_loop False a 0 0 n out = take n a @ drop n out"
    by (rule nth_equalityI) (use assms in \<open>auto simp: nth_rmove_loop nth_append\<close>)
  then show ?thesis
    using assms True by (intro exI[of _ "take n a"]) (simp add: words_rshift_def Let_def WORD_BIT_LENGTH_def)
next
  case False
  let ?l = "rshift_loop False a s 0 0 (n - 1) out"
  have l: "?l = shr s 0 (take n a) @ drop n out"
    by (rule nth_equalityI) (use assms False in \<open>auto simp: nth_rshift_loop nth_shr nth_append\<close>)
  have "?l[n - 1 := ?l ! (n - 1) OR 0] = ?l" by simp
  then have "words_rshift False 0 a n s out = Inr ?l"
    using assms False by (simp add: words_rshift_def Let_def WORD_BIT_LENGTH_def)
  moreover have "wval (shr s 0 (take n a)) = wval (take n a) div 2 ^ s"
  proof -
    have "wval (take n a) div 2 ^ s < WB ^ n"
      using wval_less[of "take n a"] assms by (intro le_less_trans[OF div_le_dividend]) simp
    then show ?thesis using assms False by (simp add: wval_shr)
  qed
  ultimately show ?thesis using assms unfolding l
    by (intro exI[of _ "shr s 0 (take n a)"]) simp
qed

text \<open>Normalising the divisor: its top word gets its top bit, and no bit is lost.\<close>

lemma div_normalise:
  assumes b: "length b = n" "0 < n" "b ! (n - 1) \<noteq> 0"
  defines "s \<equiv> 64 - word_bit_len (b ! (n - 1))"
  shows "s < 64" "wval b * 2 ^ s < WB ^ n" "2 ^ 63 * WB ^ (n - 1) \<le> wval b * 2 ^ s"
proof -
  let ?t = "b ! (n - 1)" and ?k = "word_bit_len (b ! (n - 1))"
  have k: "bits_of ?k (unat ?t)" by (rule bits_of_word_bit_len)
  have t0: "0 < unat ?t" using b(3) by (simp add: unat_gt_0)
  then have k0: "0 < ?k" using k by (cases ?k) (auto simp: bits_of_def)
  have k64: "?k \<le> 64"
  proof (rule ccontr)
    assume "\<not> ?k \<le> 64"
    then have "(2::nat) ^ 64 \<le> 2 ^ (?k - 1)" by (intro power_increasing) simp_all
    also have "\<dots> \<le> unat ?t" using k k0 by (simp add: bits_of_def)
    finally show False using unat_less_WB[of ?t] by (simp add: WB_def)
  qed
  show "s < 64" using k0 k64 by (simp add: s_def)
  have P: "WB ^ n = WB * WB ^ (n - 1)" using b(2) by (cases n) simp_all
  have v: "wval b = wval (take (n - 1) b) + WB ^ (n - 1) * unat ?t" "wval (take (n - 1) b) < WB ^ (n - 1)"
    using wval_last[OF b(1,2)] .
  have "wval b < (unat ?t + 1) * WB ^ (n - 1)" using v by (simp add: mult.commute)
  also have "\<dots> \<le> 2 ^ ?k * WB ^ (n - 1)" using k by (intro mult_le_mono1) (simp add: bits_of_def Suc_leI)
  finally have "wval b * 2 ^ s < 2 ^ ?k * WB ^ (n - 1) * 2 ^ s" by simp
  also have "\<dots> = 2 ^ (?k + s) * WB ^ (n - 1)" by (simp add: power_add)
  also have "2 ^ (?k + s) = WB" using k64 by (simp add: s_def WB_def)
  finally show "wval b * 2 ^ s < WB ^ n" unfolding P .
  have "2 ^ 63 * WB ^ (n - 1) = 2 ^ (?k - 1 + s) * WB ^ (n - 1)" using k0 k64 by (simp add: s_def)
  also have "\<dots> = 2 ^ (?k - 1) * WB ^ (n - 1) * 2 ^ s" by (simp add: power_add)
  also have "\<dots> \<le> unat ?t * WB ^ (n - 1) * 2 ^ s" using k k0 by (intro mult_le_mono1) (simp add: bits_of_def)
  also have "\<dots> \<le> wval b * 2 ^ s" using v(1) by (intro mult_le_mono1) (simp add: mult.commute)
  finally show "2 ^ 63 * WB ^ (n - 1) \<le> wval b * 2 ^ s" .
qed

lemma words_div_ok:
  assumes a: "length a = al" "al \<le> 256" and b: "length b = bl" "bl \<le> 128" "wval b \<noteq> 0" and le: "bl \<le> al + 1"
    and q: "\<And>q'. q = Some q' \<Longrightarrow> length q' = al" and r: "\<And>r'. r = Some r' \<Longrightarrow> length r' = bl"
  shows "\<exists>qw rw. words_div a al b bl q r = Some (Inr (map_option (\<lambda>_. qw) q, map_option (\<lambda>_. rw) r))
     \<and> length qw = al \<and> wval qw = wval a div wval b \<and> length rw = bl \<and> wval rw = wval a mod wval b"
proof -
  define m n where "m = words_len a al" and "n = words_len b bl"
  have bl0: "0 < bl" using b(1,3) by (cases b) auto
  have sm: "al \<le> 2 ^ 31" "bl \<le> 2 ^ 31" using a(2) b(2) by simp_all
  have m: "m \<le> al" "wval (drop m a) = 0" using words_len_bounds[OF a(1) sm(1)] unfolding m_def by blast+
  have n: "n \<le> bl" "wval (drop n b) = 0" "0 < n" "n > 1 \<longrightarrow> b ! (n - 1) \<noteq> 0"
    using words_len_bounds[OF b(1) sm(2)] bl0 unfolding n_def by blast+
  have va: "wval a = wval (take m a)" and vb: "wval b = wval (take n b)"
    using wval_split[of m a] wval_split[of n b] m n a b by simp_all
  have bt: "b ! (n - 1) \<noteq> 0"
  proof (cases "n > 1")
    case False
    then have n1: "n = 1" using n(3) by simp
    then have "take n b = [b ! 0]" using b(1) bl0 by (cases b) simp_all
    then show ?thesis using b(3) vb n1 by (auto simp: unat_eq_0)
  qed (use n in blast)
  define s where "s = 64 - word_bit_len (b ! (n - 1))"
  have tb: "length (take n b) = n" "take n b ! (n - 1) = b ! (n - 1)" using n b by simp_all
  from div_normalise[OF tb(1) n(3)] bt have s: "s < 64" "wval b * 2 ^ s < WB ^ n"
      "2 ^ 63 * WB ^ (n - 1) \<le> wval b * 2 ^ s"
    unfolding tb(2) s_def[symmetric] vb[symmetric] by simp_all
  let ?aa = "a @ [0]"
  obtain aw where aw: "words_lshift True ?aa (m + 1) (int s) ?aa = Inr (aw @ drop (m + 1) ?aa)" "length aw = m + 1"
      "wval aw = (wval (take (m + 1) ?aa) * 2 ^ s) mod WB ^ (m + 1)"
    using words_lshift_small[OF s(1), of "m + 1" ?aa] m a by auto
  obtain bw where bw: "words_lshift True b n (int s) b = Inr (bw @ drop n b)" "length bw = n"
      "wval bw = (wval (take n b) * 2 ^ s) mod WB ^ n"
    using words_lshift_small[OF s(1) n(3), of b] n b by auto
  have V: "wval bw = wval b * 2 ^ s" using bw(3) s(2) vb by simp
  define bb where "bb = bw @ drop n b"
  have norm: "WB \<le> 2 * unat (bb ! (n - 1))"
  proof -
    have "wval bw < (unat (bw ! (n - 1)) + 1) * WB ^ (n - 1)"
      using wval_last[OF bw(2) n(3)] by (simp add: mult.commute)
    with s(3)[folded V] have "2 ^ 63 * WB ^ (n - 1) < (unat (bw ! (n - 1)) + 1) * WB ^ (n - 1)"
      by (rule le_less_trans)
    then have "2 ^ 63 < unat (bw ! (n - 1)) + 1" by (simp only: mult_less_cancel2)
    then show ?thesis using bw(2) n(3) by (simp add: bb_def nth_append WB_def)
  qed
  have zero: "wval (take (m + 1) ?aa) = wval a" "wval (drop (m + 1) ?aa) = 0"
  proof -
    have "wval (drop m ?aa) = 0" using m by (simp add: wval_append a)
    then have z: "x = 0" if "x \<in> set (drop m ?aa)" for x using that by (simp add: wval_eq_0_iff)
    have "set (drop (m + 1) ?aa) \<subseteq> set (drop m ?aa)" by (rule set_drop_subset_set_drop) simp
    then show "wval (drop (m + 1) ?aa) = 0" unfolding wval_eq_0_iff using z by blast
    have "wval ?aa = wval a" by (simp add: wval_append)
    then show "wval (take (m + 1) ?aa) = wval a"
      using wval_split[of "m + 1" ?aa] m a \<open>wval (drop (m + 1) ?aa) = 0\<close> by simp
  qed
  have am: "wval a < WB ^ m" using wval_less[of "take m a"] va m a by simp
  have as: "wval a * 2 ^ s < 2 ^ 63 * WB ^ m"
  proof -
    have "wval a * 2 ^ s < WB ^ m * 2 ^ s" using am by simp
    also have "\<dots> \<le> WB ^ m * 2 ^ 63" using s(1) by (intro mult_le_mono2 power_increasing) simp_all
    finally show ?thesis by (simp add: mult.commute)
  qed
  have "2 ^ 63 * WB ^ m \<le> WB ^ (m + 1)" by (simp add: WB_def)
  with as have "wval a * 2 ^ s < WB ^ (m + 1)" by (rule less_le_trans)
  then have awv: "wval aw = wval a * 2 ^ s" using aw(3) unfolding zero(1) by simp
  define K where "K = m + 1 - n"
  let ?all = "aw @ drop (m + 1) ?aa"
  define x rest where "x = take (K + n) ?all" and "rest = drop (K + n) ?all"
  have lall: "length ?all = al + 1" using aw(2) m a by simp
  have Kn: "K + n \<le> al + 1" "m + 1 \<le> K + n" "n \<le> al + 1" using n(1) m le unfolding K_def by simp_all
  have lx: "length x = K + n" unfolding x_def using lall Kn by simp
  have vx: "wval x = wval a * 2 ^ s"
  proof -
    have "wval ?all = wval a * 2 ^ s" using awv zero(2) by (simp add: wval_append)
    moreover have "wval rest = 0"
    proof -
      have "rest = drop (K + n - (m + 1)) (drop (m + 1) ?aa)" unfolding rest_def using aw(2) Kn by simp
      then have "set rest \<subseteq> set (drop (m + 1) ?aa)" by (metis set_drop_subset)
      then show ?thesis using zero(2) unfolding wval_eq_0_iff by blast
    qed
    ultimately show ?thesis using wval_split[of "K + n" ?all] lall Kn unfolding x_def rest_def by simp
  qed
  have top: "wval (drop K x) < wval bw"
  proof -
    have "wval x < 2 ^ 63 * WB ^ m" using as vx by simp
    also have "\<dots> \<le> 2 ^ 63 * (WB ^ (n - 1) * WB ^ K)"
      unfolding power_add[symmetric] using n(3) by (intro mult_le_mono2 power_increasing) (simp_all add: K_def Suc_leI)
    also have "\<dots> \<le> wval bw * WB ^ K" using mult_le_mono1[OF s(3), of "WB ^ K"] unfolding V by (simp add: mult.assoc)
    finally show ?thesis unfolding wval_drop_div by (rule less_mult_imp_div_less)
  qed
  define z where "z = (\<lambda>k :: nat. map_option (\<lambda>b :: word_t list. replicate k (0 :: word_t)))"
  have zq: "zero_words al q = Inr (z al q)" and zr: "zero_words bl r = Inr (z bl r)"
    using q r unfolding zero_words_def z_def by (auto split: option.splits)
  have tk: "take n bb = bw" "n \<le> length bb" using bw(2) by (simp_all add: bb_def)
  have offK: "0 < K \<Longrightarrow> m + 1 = K + n + 0" by (simp add: K_def)
  have lq: "\<And>q'. z al q = Some q' \<Longrightarrow> K \<le> length q'"
    using Kn n by (auto simp: z_def K_def split: option.splits)
  obtain y ds where R: "div_rounds K m bb n 0 (x @ rest) (z al q)
      = Some (y @ replicate K 0 @ rest, map_option (\<lambda>q. ds @ drop K q) (z al q))" "length y = n"
      "wval y = wval x mod wval bw" "length ds = K" "wval ds = wval x div wval bw"
    using div_rounds_ok[OF n(3) tk norm lx top offK lq, where rest = rest] by blast
  have xr: "x @ rest = ?all" unfolding x_def rest_def by (rule append_take_drop_id)
  define qw where "qw = ds @ replicate (al - K) 0"
  have "K \<le> al" using Kn n by simp
  then have qw: "length qw = al" "wval qw = wval a div wval b"
    using R(4,5) vx V by (simp_all add: qw_def wval_append)
  have qe: "map_option (\<lambda>q. ds @ drop K q) (z al q) = map_option (\<lambda>_. qw) q"
    by (cases q) (simp_all add: z_def qw_def)
  let ?fin = "y @ replicate K 0 @ rest"
  obtain rw0 where rs: "words_rshift False 0 ?fin n s (replicate bl 0) = Inr (rw0 @ drop n (replicate bl 0))"
      "length rw0 = n" "wval rw0 = wval (take n ?fin) div 2 ^ s"
    using words_rshift_small[OF s(1) n(3), of ?fin "replicate bl 0"] R(2) n by auto
  define rw where "rw = rw0 @ replicate (bl - n) 0"
  have "wval y = (wval a mod wval b) * 2 ^ s" using R(3) vx V by (simp add: mod_mult_mult2)
  then have rw: "length rw = bl" "wval rw = wval a mod wval b"
    using rs(2,3) R(2) n by (simp_all add: rw_def wval_append)
  have main: "words_div a al b bl q r = Some (case z bl r of None \<Rightarrow> Inr (map_option (\<lambda>_. qw) q, None)
      | Some r \<Rightarrow> DO (words_rshift False 0 ?fin n s r) (\<lambda>r. Inr (map_option (\<lambda>_. qw) q, Some r)))"
  proof -
    have rd: "rd a 0 al = Inr a" "rd b 0 bl = Inr b" using a b by simp_all
    have c: "\<not> (al > DIV_MAX_A_LEN \<or> bl > DIV_MAX_B_LEN)"
      using a b by (simp add: DIV_MAX_A_LEN_def DIV_MAX_B_LEN_def)
    have K': "Suc m - n = K" by (simp add: K_def)
    show ?thesis
      unfolding words_div_def if_not_P[OF c] rd DO_simps zq zr Let_def m_def[symmetric] n_def[symmetric]
        WORD_BIT_LENGTH_def s_def[symmetric] aw(1) bw(1) bb_def[symmetric] K_def[symmetric]
      using n(3) R(1) unfolding xr qe by (simp add: K')
  qed
  have "words_div a al b bl q r = Some (Inr (map_option (\<lambda>_. qw) q, map_option (\<lambda>_. rw) r))"
    unfolding main using rs(1) by (cases r) (simp_all add: z_def rw_def)
  then show ?thesis using qw rw by blast
qed

lemma int_div_ok:
  assumes "wf_wa a" "wa_len a \<le> 256" "wf_wa b" "wa_len b \<le> 128" "wa_val b \<noteq> 0" "wa_len b \<le> wa_len a + 1"
    and q: "\<And>q'. q = Some q' \<Longrightarrow> wf_wa q' \<and> wa_len q' = wa_len a"
    and r: "\<And>r'. r = Some r' \<Longrightarrow> wf_wa r' \<and> wa_len r' = wa_len b"
  shows "\<exists>qw rw. int_div a b q r = Some (Inr (map_option (\<lambda>_. mk_wa qw) q, map_option (\<lambda>_. mk_wa rw) r))
     \<and> length qw = wa_len a \<and> wval qw = wa_val a div wa_val b
     \<and> length rw = wa_len b \<and> wval rw = wa_val a mod wa_val b"
proof -
  have l: "length (wa_buf a) = wa_len a" "length (wa_buf b) = wa_len b" using assms by (simp_all add: wf_wa_def)
  have lq: "\<And>q'. map_option wa_buf q = Some q' \<Longrightarrow> length q' = wa_len a"
    and lr: "\<And>r'. map_option wa_buf r = Some r' \<Longrightarrow> length r' = wa_len b"
    using q r by (auto simp: wf_wa_def)
  obtain qw rw where d: "words_div (wa_buf a) (wa_len a) (wa_buf b) (wa_len b) (map_option wa_buf q) (map_option wa_buf r)
      = Some (Inr (map_option (\<lambda>_. qw) (map_option wa_buf q), map_option (\<lambda>_. rw) (map_option wa_buf r)))"
      "length qw = wa_len a" "wval qw = wa_val a div wa_val b" "length rw = wa_len b" "wval rw = wa_val a mod wa_val b"
    using words_div_ok[OF l(1) assms(2) l(2) assms(4,5,6) lq lr] by blast
  have up: "map_option (\<lambda>q. q\<lparr>wa_buf := the (map_option (\<lambda>_. v) (map_option wa_buf p))\<rparr>) p = map_option (\<lambda>_. mk_wa v) p"
    if "\<And>p'. p = Some p' \<Longrightarrow> wa_len p' = length v" for p v
    using that by (cases p) simp_all
  have "int_div a b q r = Some (Inr (map_option (\<lambda>_. mk_wa qw) q, map_option (\<lambda>_. mk_wa rw) r))"
    unfolding int_div_def d(1) option.case DO_simps prod.case
    using up[of q qw] up[of r rw] q r d(2,4) by simp
  then show ?thesis using d by blast
qed

text \<open>(C18) \<^verbatim>\<open>int_div\<close> (Knuth's algorithm D) ends and returns the exact quotient and remainder for every
  divisor other than 0, within the sizes of its buffers (256 and 128 words) and for a divisor array at
  most one word longer than the dividend array; quotient and remainder may each be left out.\<close>

theorem int_div_exact:
  assumes "wf_wa a" "wa_len a \<le> 256" "wf_wa b" "wa_len b \<le> 128" "wa_val b \<noteq> 0" "wa_len b \<le> wa_len a + 1"
    and "wf_wa q" "wa_len q = wa_len a" "wf_wa r" "wa_len r = wa_len b"
  shows "\<exists>q' r'. int_div a b (Some q) (Some r) = Some (Inr (Some q', Some r'))
     \<and> int_div a b (Some q) None = Some (Inr (Some q', None))
     \<and> int_div a b None (Some r) = Some (Inr (None, Some r'))
     \<and> wf_wa q' \<and> wf_wa r' \<and> wa_val q' = wa_val a div wa_val b \<and> wa_val r' = wa_val a mod wa_val b"
proof -
  note d = int_div_ok[OF assms(1-6)]
  obtain q1 r1 where 1: "int_div a b (Some q) (Some r) = Some (Inr (Some (mk_wa q1), Some (mk_wa r1)))"
      "length q1 = wa_len a" "wval q1 = wa_val a div wa_val b" "length r1 = wa_len b" "wval r1 = wa_val a mod wa_val b"
    using d[of "Some q" "Some r"] assms(7-) by auto
  obtain q2 where 2: "int_div a b (Some q) None = Some (Inr (Some (mk_wa q2), None))" "length q2 = wa_len a"
      "wval q2 = wa_val a div wa_val b"
    using d[of "Some q" None] assms(7-) by auto
  obtain r3 where 3: "int_div a b None (Some r) = Some (Inr (None, Some (mk_wa r3)))" "length r3 = wa_len b"
      "wval r3 = wa_val a mod wa_val b"
    using d[of None "Some r"] assms(7-) by auto
  have "q2 = q1" "r3 = r1" using 1 2 3 by (auto intro: wval_inj)
  then show ?thesis using 1 2 3 by auto
qed

lemma int_div_exact_witness:
  "\<exists>q r. int_div (mk_wa [0, 0, 1]) (mk_wa [3, 1]) (Some (mk_wa [0, 0, 0])) (Some (mk_wa [0, 0]))
     = Some (Inr (Some q, Some r)) \<and> wa_val q = 2 ^ 64 - 3 \<and> wa_val r = 9"
  using int_div_exact[of "mk_wa [0, 0, 1]" "mk_wa [3, 1]" "mk_wa [0, 0, 0]" "mk_wa [0, 0]"] by (auto simp: WB_def)

text \<open>Dividing by zero never returns: the normalised divisor is 0, and so is the divisor of \<^verbatim>\<open>word_div\<close>.\<close>

lemma words_top_zero: "wval b = 0 \<Longrightarrow> k \<le> length b \<Longrightarrow> words_top b k = min k 1"
  by (induction k) (auto simp: wval_eq_0_iff)

lemma int_div_zero:
  assumes "wf_wa a" "0 < wa_len a" "wa_len a \<le> 256" "wf_wa b" "0 < wa_len b" "wa_len b \<le> 128" "wa_val b = 0"
    and "wf_wa q" "wa_len q = wa_len a"
  shows "int_div a b (Some q) None = None"
proof -
  define aw bw where "aw = wa_buf a" and "bw = wa_buf b"
  have l: "length aw = wa_len a" "length bw = wa_len b" using assms by (simp_all add: wf_wa_def aw_def bw_def)
  have bl: "words_len bw (wa_len b) = 1" using words_top_zero[of bw "wa_len b"] assms l by (simp add: bw_def words_len_eq)
  have b0: "bw ! 0 = 0" using assms l by (cases bw) (auto simp: bw_def unat_eq_0)
  define m where "m = words_len aw (wa_len a)"
  have m: "m \<le> wa_len a" "0 < m" using words_len_bounds[OF l(1)] assms(2,3) by (simp_all add: m_def)
  obtain k where k: "m = Suc k" using m(2) by (cases m) simp_all
  obtain aw' where a': "words_lshift True (aw @ [0]) (m + 1) (int 64) (aw @ [0]) = Inr aw'"
    using m l assms(3) words_lshift_idx[of "m + 1" 64 "aw @ [0]" "aw @ [0]" True] by (simp add: Let_def)
  obtain bw' where b': "words_lshift True bw 1 (int 64) bw = Inr bw'" "bw' ! 0 = 0"
    using l assms(5) words_lshift_idx[of 1 64 bw bw True] by (simp add: Let_def)
  have r: "div_rounds (m + 1 - 1) m bw' 1 0 aw' x = None" for x
    unfolding k using b'(2) by (simp add: div_round_def word_div_zero)
  have wz: "word_bit_len 0 = 0" by (simp add: word_bit_len_def)
  obtain z where z: "zero_words (wa_len a) (Some (wa_buf q)) = Inr z"
    using assms(8,9) by (simp add: zero_words_def wf_wa_def)
  have c: "\<not> (wa_len a > DIV_MAX_A_LEN \<or> wa_len b > DIV_MAX_B_LEN)"
    using assms by (simp add: DIV_MAX_A_LEN_def DIV_MAX_B_LEN_def)
  have rd: "rd aw 0 (wa_len a) = Inr aw" "rd bw 0 (wa_len b) = Inr bw" using l by simp_all
  have "words_div aw (wa_len a) bw (wa_len b) (Some (wa_buf q)) None = None"
    unfolding words_div_def if_not_P[OF c] rd DO_simps z Let_def m_def[symmetric] bl
    using a' b' r by (simp add: zero_words_def b0 wz WORD_BIT_LENGTH_def k)
  then show ?thesis by (simp add: int_div_def aw_def bw_def)
qed

end
