(* ===== verification/MathSqrt.thy ===== *)
theory MathSqrt
  imports MathDiv
begin

text \<open>
  The integer square root of \<^verbatim>\<open>math-int-internal.c\<close> (Newton's iteration on word arrays) and the
  operations on arrays with a word, \<^verbatim>\<open>factorial\<close> and \<^verbatim>\<open>int_mult_and_div\<close>.
\<close>

subsection \<open>int_sqrt\<close>

text \<open>\<open>ignoring r d\<close> is a call whose return code the code drops: a failure leaves the object \<open>d\<close> as it was.\<close>

definition ignoring :: "'a res \<Rightarrow> 'a \<Rightarrow> 'a res" where
  "ignoring r d = (case r of Inr x \<Rightarrow> Inr x | Inl e \<Rightarrow> if e = UNDEFINED then Inl UNDEFINED else Inr d)"

lemma ignoring_Inr [simp]: "ignoring (Inr x) d = Inr x"
  by (simp add: ignoring_def)

type_synonym sqrt_state = "WordArray \<times> WordArray \<times> WordArray \<times> WordArray"

text \<open>One pass of the loop over \<open>(xn_sqrt, pxn_sqrt, t_sqrt, dt_sqrt)\<close>, and whether it goes on.\<close>

definition sqrt_step :: "WordArray \<Rightarrow> nat \<Rightarrow> sqrt_state \<Rightarrow> (bool \<times> sqrt_state) res option" where
  "sqrt_step k len = (\<lambda>(xn, pxn, t, dt).
     case int_div k xn (Some dt) None of None \<Rightarrow> None
     | Some r \<Rightarrow> Some (DO r (\<lambda>(d, _). let dt = the d in
         DO (ignoring (wa_copy_part False (Some dt) 0 len (Some t)) t) (\<lambda>t.
         DO (int_add t xn xn) (\<lambda>(xn, carry).
         DO (int_rshift True carry xn 1 xn) (\<lambda>xn.
         DO (int_cmp pxn xn) (\<lambda>c.
         if c > 0
         then DO (ignoring (wa_copy False (Some xn) (Some pxn)) pxn) (\<lambda>pxn. Inr (True, (xn, pxn, t, dt)))
         else Inr (False, (xn, pxn, t, dt)))))))))"

partial_function (option) sqrt_loop :: "WordArray \<Rightarrow> nat \<Rightarrow> sqrt_state \<Rightarrow> sqrt_state res option" where
  "sqrt_loop k len s = Option.bind (sqrt_step k len s) (\<lambda>r.
     case r of Inl e \<Rightarrow> Some (Inl e)
     | Inr g \<Rightarrow> if fst g then sqrt_loop k len (snd g) else Some (Inr (snd g)))"

text \<open>When an allocation fails the function returns with \<open>out\<close> unchanged, and without a code.\<close>

definition int_sqrt :: "mem \<Rightarrow> WordArray \<Rightarrow> WordArray \<Rightarrow> WordArray res option" where
  "int_sqrt M inp out =
     (let len = wa_len inp; n2 = 2 * len
      in case CHECK_NOT_NULL (wa_alloc_with_zero M len) (\<lambda>t.
              CHECK_NOT_NULL (wa_alloc M len) (\<lambda>xn.
              DO (int_rshift False 0 inp 1 xn) (\<lambda>xn.
              CHECK_NOT_NULL (wa_copy_with_alloc M (Some inp)) (\<lambda>pxn.
              CHECK_NOT_NULL (wa_copy_with_alloc M (Some inp)) (\<lambda>k.
              DO (wa_change_len M k n2) (\<lambda>k.
              CHECK_NOT_NULL (wa_alloc M n2) (\<lambda>dt. Inr (k, (xn, pxn, t, dt))))))))) of
           Inl e \<Rightarrow> Some (if e = UNDEFINED then Inl UNDEFINED else Inr out)
         | Inr (k, s) \<Rightarrow>
             (case sqrt_loop k len s of None \<Rightarrow> None
              | Some r \<Rightarrow> Some (DO r (\<lambda>(xn, pxn, t, dt). ignoring (wa_copy False (Some pxn) (Some out)) out))))"

lemma half_bounds:
  fixes q x :: nat
  shows "q + x < 2 * ((q + x) div 2 + 1)" "x \<le> (q + x) div 2 \<Longrightarrow> x \<le> q"
  by presburger+

lemma newton_lower:
  fixes v x :: nat
  assumes "0 < x"
  shows "v < ((v div x + x) div 2 + 1)\<^sup>2"
proof (rule ccontr)
  define s where "s = (v div x + x) div 2 + 1"
  assume "\<not> v < ((v div x + x) div 2 + 1)\<^sup>2"
  then have sv: "s * s \<le> v" by (simp add: s_def power2_eq_square)
  have "v div x + x < 2 * s" unfolding s_def by (rule half_bounds)
  then have "(v div x + 1) * x + x * x \<le> 2 * s * x"
    using mult_le_mono1[of "v div x + 1 + x" "2 * s" x] by (simp add: distrib_right)
  moreover have "v < (v div x + 1) * x" using assms by (metis Suc_eq_plus1 dividend_less_div_times mult.commute mult_Suc)
  ultimately have "s * s + x * x < 2 * s * x" using sv by linarith
  moreover have "2 * s * x \<le> s * s + x * x"
  proof -
    have "0 \<le> (int s - int x) * (int s - int x)" by simp
    then have "int (2 * s * x) \<le> int (s * s + x * x)" by (simp add: algebra_simps)
    then show ?thesis by (simp only: of_nat_le_iff)
  qed
  ultimately show False by simp
qed

lemma newton_upper:
  fixes v x :: nat
  assumes "x \<le> (v div x + x) div 2" "0 < x"
  shows "x\<^sup>2 \<le> v"
proof -
  have "x \<le> v div x" using assms(1) by (rule half_bounds)
  then have "x * x \<le> v div x * x" by (rule mult_le_mono1)
  also have "\<dots> \<le> v" by (metis div_times_less_eq_dividend)
  finally show ?thesis by (simp add: power2_eq_square)
qed

lemma newton_first:
  fixes v :: nat
  assumes "2 \<le> v"
  shows "(v div (v div 2) + v div 2) div 2 < v"
proof (cases "v = 2")
  case False
  have "v \<le> 2 * (v div 2) + 1" "1 \<le> v div 2" using assms by presburger+
  then have "v < (4 :: nat) * (v div 2)" by linarith
  then have "v div (v div 2) < 4" by (rule less_mult_imp_div_less)
  moreover have "v div 2 + 2 \<le> v" using assms False by presburger
  ultimately show ?thesis by linarith
qed simp

text \<open>One pass replaces \<open>x\<close> by Newton's next value and compares it with the best value so far.\<close>

lemma sqrt_step_ok:
  assumes k: "wf_wa k" "wa_len k = 2 * n" and n: "0 < n" "n \<le> 128" and v: "wa_val k = v" "v < WB ^ n"
    and xn: "wf_wa xn" "wa_len xn = n" "wa_val xn = x" "0 < x"
    and o: "wf_wa pxn" "wa_len pxn = n" "wf_wa t" "wa_len t = n" "wf_wa dt" "wa_len dt = 2 * n"
  defines "x' \<equiv> (v div x + x) div 2"
  shows "\<exists>xn' t' dt'. sqrt_step k n (xn, pxn, t, dt) = Some (Inr (wa_val pxn > x', (xn', if wa_val pxn > x' then xn' else pxn, t', dt')))
     \<and> wf_wa xn' \<and> wa_len xn' = n \<and> wa_val xn' = x' \<and> wf_wa t' \<and> wa_len t' = n \<and> wf_wa dt' \<and> wa_len dt' = 2 * n"
proof -
  obtain q where q: "int_div k xn (Some dt) None = Some (Inr (Some (mk_wa q), None))" "length q = 2 * n"
      "wval q = v div x"
    using int_div_ok[of k xn "Some dt" None] k n v xn o by auto
  have qn: "wval (take n q) = v div x"
  proof -
    have "v div x < WB ^ n" using v(2) by (rule le_less_trans[OF div_le_dividend])
    then show ?thesis using q(3) by (simp add: wval_take_mod)
  qed
  have t: "wa_copy_part False (Some (mk_wa q)) 0 n (Some t) = Inr (mk_wa (take n q))"
    using o q n by (subst wa_copy_part_ok) (simp_all add: SIZE_MOD_def)
  obtain s c where s: "int_add (mk_wa (take n q)) xn xn = Inr (mk_wa s, c)" "length s = n"
      "wval s + WB ^ n * unat c = v div x + x"
    using int_add_ok[of "mk_wa (take n q)" xn xn] xn q(2) qn by auto
  obtain y where y: "int_rshift True c (mk_wa s) 1 (mk_wa s) = Inr (mk_wa y)" "length y = n"
      "wval y = ((v div x + x) div 2) mod WB ^ n"
    using int_rshift_ok[of "mk_wa s" "mk_wa s" True c 1] s n by auto
  have "x < WB ^ n" using wval_less[of "wa_buf xn"] xn by (simp add: wf_wa_def)
  then have "v div x + x < 2 * WB ^ n" using le_less_trans[OF div_le_dividend v(2), of x] by linarith
  then have yv: "wval y = x'" using y(3) unfolding x'_def by simp
  have c: "int_cmp pxn (mk_wa y) = Inr (sgn (int (wa_val pxn) - int x'))"
    using int_cmp_ok[of pxn "mk_wa y"] o n y(2) yv by simp
  have g: "sgn (int (wa_val pxn) - int x') > 0 \<longleftrightarrow> wa_val pxn > x'" by (simp add: sgn_if)
  have cp: "wa_copy False (Some (mk_wa y)) (Some pxn) = Inr (mk_wa y)" using o y(2) by simp
  have "sqrt_step k n (xn, pxn, t, dt) = Some (Inr (wa_val pxn > x', (mk_wa y, if wa_val pxn > x' then mk_wa y else pxn,
      mk_wa (take n q), mk_wa q)))"
    unfolding sqrt_step_def prod.case q(1) option.case DO_simps Let_def option.sel t ignoring_Inr s(1) y(1) c g cp by simp
  then show ?thesis using y(2) yv q(2) by (intro exI[of _ "mk_wa y"] exI[of _ "mk_wa (take n q)"] exI[of _ "mk_wa q"]) simp
qed

lemma sqrt_loop_ok:
  assumes k: "wf_wa k" "wa_len k = 2 * n" and n: "0 < n" "n \<le> 128" and v: "wa_val k = v" "v < WB ^ n"
    and "wf_wa xn" "wa_len xn = n" "wa_val xn = x" "0 < x"
    and "wf_wa pxn" "wa_len pxn = n" "wf_wa t" "wa_len t = n" "wf_wa dt" "wa_len dt = 2 * n"
    and best: "wa_val pxn = x" "v < (x + 1)\<^sup>2" and v1: "1 \<le> v"
  shows "\<exists>xn' pxn' t' dt'. sqrt_loop k n (xn, pxn, t, dt) = Some (Inr (xn', pxn', t', dt')) \<and> wf_wa pxn' \<and> wa_len pxn' = n
     \<and> (wa_val pxn')\<^sup>2 \<le> v \<and> v < (wa_val pxn' + 1)\<^sup>2"
  using assms(7-18)
proof (induction x arbitrary: xn pxn t dt rule: less_induct)
  case (less x)
  define x' where "x' = (v div x + x) div 2"
  obtain xn' t' dt' where s: "sqrt_step k n (xn, pxn, t, dt)
      = Some (Inr (wa_val pxn > x', (xn', if wa_val pxn > x' then xn' else pxn, t', dt')))"
      "wf_wa xn'" "wa_len xn' = n" "wa_val xn' = x'" "wf_wa t'" "wa_len t' = n" "wf_wa dt'" "wa_len dt' = 2 * n"
    using sqrt_step_ok[OF k n v less.prems(1-10)] unfolding x'_def by blast
  show ?case
  proof (cases "x' < x")
    case True
    have lo: "v < (x' + 1)\<^sup>2" unfolding x'_def using less.prems(4) by (rule newton_lower)
    have "x' \<noteq> 0"
    proof
      assume "x' = 0"
      with lo v1 show False by simp
    qed
    then have "0 < x'" by simp
    from less.IH[OF True s(2,3,4) this s(2,3,5-8,4) lo]
    obtain xn2 pxn2 t2 dt2 where r: "sqrt_loop k n (xn', xn', t', dt') = Some (Inr (xn2, pxn2, t2, dt2))" "wf_wa pxn2"
      "wa_len pxn2 = n" "(wa_val pxn2)\<^sup>2 \<le> v" "v < (wa_val pxn2 + 1)\<^sup>2" by blast
    have "sqrt_loop k n (xn, pxn, t, dt) = sqrt_loop k n (xn', xn', t', dt')"
      using s(1) True less.prems(11) by (subst sqrt_loop.simps) simp
    then show ?thesis using r by auto
  next
    case False
    then have "x\<^sup>2 \<le> v" unfolding x'_def using less.prems(4) by (intro newton_upper) simp_all
    moreover have "sqrt_loop k n (xn, pxn, t, dt) = Some (Inr (xn', pxn, t', dt'))"
      using s(1) False less.prems(11) by (subst sqrt_loop.simps) simp
    ultimately show ?thesis using less.prems by auto
  qed
qed

text \<open>(C19) \<^verbatim>\<open>int_sqrt\<close> returns the integer square root of every number from 2 on that fits in 128 words, and it never
  returns for 0 and 1, whose first approximation is 0.\<close>

theorem int_sqrt_exact:
  assumes "mem_ok M" "wf_wa a" "0 < wa_len a" "wa_len a \<le> 128" "wf_wa out" "wa_len out = wa_len a"
  shows "case int_sqrt M a out of None \<Rightarrow> wa_val a < 2
    | Some r \<Rightarrow> wa_val a \<ge> 2 \<and> (\<exists>s. r = Inr s \<and> wf_wa s \<and> (wa_val s)\<^sup>2 \<le> wa_val a \<and> wa_val a < (wa_val s + 1)\<^sup>2)"
proof -
  define n v where "n = wa_len a" and "v = wa_val a"
  have n: "0 < n" "n \<le> 128" using assms by (simp_all add: n_def)
  have vn: "v < WB ^ n" using wval_less[of "wa_buf a"] assms by (simp add: wf_wa_def v_def n_def)
  obtain x where x: "int_rshift False 0 a 1 (mk_wa (fresh_words M n)) = Inr (mk_wa x)" "length x = n" "wval x = v div 2"
  proof -
    have "v div 2 < WB ^ n" using vn by (rule le_less_trans[OF div_le_dividend])
    then show thesis using int_rshift_ok[of a "mk_wa (fresh_words M n)" False 0 1] assms(2,3) that
      by (auto simp: n_def v_def)
  qed
  let ?k = "mk_wa (wa_buf a @ replicate n 0)"
  have k: "wa_change_len M a (2 * n) = Inr ?k"
    using wa_change_len_grow[OF assms(1,2), of "2 * n"] n by (simp add: n_def SIZE_MOD_def)
  let ?s = "(mk_wa x, a, mk_wa (replicate n 0), mk_wa (fresh_words M (2 * n)))"
  have e: "int_sqrt M a out = (case sqrt_loop ?k n ?s of None \<Rightarrow> None
      | Some r \<Rightarrow> Some (DO r (\<lambda>(xn, pxn, t, dt). ignoring (wa_copy False (Some pxn) (Some out)) out)))"
    using assms(1-3) n k x(1) wa_copy_with_alloc_ok[OF assms(1-3)] unfolding int_sqrt_def Let_def n_def[symmetric] by simp
  have wk: "wf_wa ?k" "wa_len ?k = 2 * n" "wa_val ?k = v"
    using assms(2) by (simp_all add: wf_wa_def n_def v_def wval_append)
  show ?thesis
  proof (cases "v < 2")
    case True
    then have "wval x = 0" using x(3) by simp
    then have "int_div ?k (mk_wa x) (Some (mk_wa (fresh_words M (2 * n)))) None = None"
      using wk n x(2) by (intro int_div_zero) simp_all
    then have "sqrt_step ?k n ?s = None" by (simp add: sqrt_step_def)
    then have "int_sqrt M a out = None" unfolding e by (subst sqrt_loop.simps) simp
    then show ?thesis using True by (simp add: v_def)
  next
    case False
    define x1 where "x1 = (v div (v div 2) + v div 2) div 2"
    have x0: "0 < v div 2" using False by simp
    have wx: "wf_wa (mk_wa x)" "wa_len (mk_wa x) = n" "wa_val (mk_wa x) = v div 2" using x by simp_all
    have lt: "x1 < v" unfolding x1_def using False by (intro newton_first) simp
    obtain xn t dt where s: "sqrt_step ?k n ?s = Some (Inr (True, (xn, xn, t, dt)))"
        "wf_wa xn" "wa_len xn = n" "wa_val xn = x1" "wf_wa t" "wa_len t = n" "wf_wa dt" "wa_len dt = 2 * n"
      using sqrt_step_ok[OF wk(1,2) n wk(3) vn wx x0, of a "mk_wa (replicate n 0)" "mk_wa (fresh_words M (2 * n))"]
        assms(2) lt unfolding x1_def[symmetric] by (auto simp: n_def v_def)
    have lo: "v < (x1 + 1)\<^sup>2" unfolding x1_def using x0 by (rule newton_lower)
    have "x1 \<noteq> 0"
    proof
      assume "x1 = 0"
      with lo False show False by simp
    qed
    then have x1: "0 < x1" by simp
    have v1: "1 \<le> v" using False by simp
    from sqrt_loop_ok[OF wk(1,2) n wk(3) vn s(2-4) x1 s(2,3,5-8,4) lo v1]
    obtain xn' p t' dt' where r: "sqrt_loop ?k n (xn, xn, t, dt) = Some (Inr (xn', p, t', dt'))" "wf_wa p" "wa_len p = n"
      "(wa_val p)\<^sup>2 \<le> v" "v < (wa_val p + 1)\<^sup>2" by blast
    have "sqrt_loop ?k n ?s = sqrt_loop ?k n (xn, xn, t, dt)" using s(1) by (subst sqrt_loop.simps) simp
    then have "int_sqrt M a out = Some (Inr p)"
      unfolding e r(1) using r(2,3) assms(5,6) by (simp add: n_def)
    then show ?thesis using False r by (simp add: v_def)
  qed
qed

lemma int_sqrt_exact_witness:
  "\<exists>s. int_sqrt ideal_mem (mk_wa [0, 1]) (mk_wa [0, 0]) = Some (Inr s) \<and> (wa_val s)\<^sup>2 \<le> 2 ^ 64"
  using int_sqrt_exact[of ideal_mem "mk_wa [0, 1]" "mk_wa [0, 0]"]
  by (auto simp: WB_def split: option.splits)

end
