(* ===== verification/Gost28147.thy ===== *)
theory Gost28147
  imports BlockHash
begin

text \<open>
  The block cipher GOST 28147-89 (\<^verbatim>\<open>gost28147.c\<close>): the Feistel network over lookup tables, its modes
  of operation (simple substitution, counter, feedback, authentication code) and the contexts.
\<close>

subsection \<open>Substitution tables\<close>

definition GOST28147_SBOX_1 :: "u8 list" where
  "GOST28147_SBOX_1 = [
     10, 9, 13, 6, 14, 11, 4, 5, 15, 1, 3, 12, 7, 0, 8, 2, 8, 0, 12, 4, 9, 6, 7, 11, 2, 3, 1, 15, 5, 14, 10, 13,
     15, 6, 5, 8, 14, 11, 10, 4, 12, 0, 3, 7, 2, 9, 1, 13, 3, 8, 13, 9, 6, 11, 15, 0, 2, 5, 12, 10, 4, 14, 1, 7,
     15, 8, 14, 9, 7, 2, 0, 13, 12, 6, 1, 5, 11, 4, 3, 10, 2, 8, 9, 7, 5, 15, 0, 11, 12, 1, 13, 14, 10, 3, 6, 4,
     3, 8, 11, 5, 6, 4, 14, 10, 2, 12, 1, 7, 9, 15, 13, 0, 1, 2, 3, 14, 6, 13, 11, 8, 15, 10, 12, 5, 7, 9, 0, 4]"

definition GOST28147_SBOX_2 :: "u8 list" where
  "GOST28147_SBOX_2 = [
     14, 9, 3, 7, 15, 4, 12, 11, 6, 10, 13, 1, 0, 5, 8, 2, 10, 13, 12, 7, 6, 14, 8, 1, 15, 3, 11, 4, 0, 9, 5, 2,
     4, 11, 1, 15, 9, 2, 14, 12, 6, 10, 8, 7, 3, 5, 0, 13, 4, 5, 1, 12, 7, 14, 9, 2, 10, 15, 11, 13, 0, 8, 6, 3,
     12, 11, 3, 9, 15, 0, 4, 5, 7, 2, 14, 13, 1, 10, 8, 6, 8, 7, 3, 10, 9, 6, 14, 5, 13, 0, 4, 12, 1, 2, 15, 11,
     15, 0, 14, 6, 8, 13, 5, 9, 10, 3, 1, 12, 4, 11, 7, 2, 4, 3, 14, 13, 5, 0, 2, 11, 1, 10, 7, 6, 9, 15, 8, 12]"

definition GOST28147_SBOX_3 :: "u8 list" where
  "GOST28147_SBOX_3 = [
     13, 9, 1, 14, 7, 2, 12, 5, 4, 11, 6, 15, 3, 8, 10, 0, 7, 8, 6, 11, 0, 3, 4, 13, 9, 5, 15, 14, 10, 12, 2, 1,
     10, 5, 3, 12, 9, 8, 13, 6, 4, 15, 14, 0, 2, 11, 1, 7, 11, 10, 12, 1, 5, 6, 9, 14, 2, 13, 15, 7, 0, 4, 3, 8,
     5, 11, 3, 0, 15, 9, 14, 4, 1, 12, 8, 6, 2, 10, 7, 13, 4, 3, 11, 13, 1, 15, 8, 2, 7, 14, 12, 9, 10, 0, 6, 5,
     3, 7, 8, 11, 1, 14, 5, 0, 13, 4, 12, 10, 2, 9, 15, 6, 6, 13, 12, 10, 11, 7, 9, 3, 15, 14, 1, 2, 0, 8, 4, 5]"

definition GOST28147_SBOX_4 :: "u8 list" where
  "GOST28147_SBOX_4 = [
     9, 12, 3, 13, 7, 6, 14, 1, 10, 2, 0, 4, 8, 15, 5, 11, 10, 5, 11, 14, 7, 6, 0, 12, 2, 8, 15, 4, 13, 3, 9, 1,
     4, 12, 3, 0, 13, 2, 14, 11, 7, 15, 5, 9, 1, 8, 10, 6, 3, 9, 4, 5, 14, 7, 8, 6, 13, 0, 2, 15, 11, 12, 10, 1,
     2, 9, 12, 15, 13, 11, 4, 1, 7, 5, 3, 14, 6, 8, 10, 0, 14, 5, 13, 11, 1, 9, 4, 2, 15, 8, 7, 0, 3, 12, 10, 6,
     14, 6, 5, 10, 9, 13, 4, 8, 11, 12, 0, 3, 7, 1, 15, 2, 1, 9, 12, 11, 7, 6, 8, 3, 2, 15, 14, 0, 5, 10, 4, 13]"

definition GOST28147_SBOX_5 :: "u8 list" where
  "GOST28147_SBOX_5 = [
     3, 4, 13, 8, 12, 7, 10, 2, 0, 14, 9, 15, 11, 1, 5, 6, 12, 7, 6, 9, 3, 8, 11, 5, 15, 10, 0, 13, 4, 2, 1, 14,
     14, 4, 8, 7, 11, 3, 10, 12, 1, 2, 6, 9, 13, 15, 0, 5, 3, 9, 6, 13, 8, 15, 10, 2, 7, 14, 12, 0, 11, 4, 1, 5,
     5, 12, 10, 7, 2, 1, 15, 13, 14, 3, 11, 4, 0, 8, 9, 6, 1, 8, 11, 14, 7, 4, 10, 0, 12, 3, 5, 13, 9, 15, 6, 2,
     9, 11, 10, 13, 5, 14, 2, 3, 0, 6, 4, 12, 15, 1, 7, 8, 14, 9, 1, 8, 5, 15, 11, 0, 6, 2, 12, 7, 10, 4, 13, 3]"

definition GOST28147_SBOX_6 :: "u8 list" where
  "GOST28147_SBOX_6 = [
     15, 12, 9, 6, 14, 2, 1, 11, 0, 13, 4, 10, 7, 8, 3, 5, 14, 12, 5, 0, 7, 4, 10, 3, 2, 6, 1, 13, 9, 11, 15, 8,
     5, 6, 13, 9, 11, 14, 10, 3, 15, 2, 8, 1, 4, 0, 7, 12, 1, 15, 7, 4, 2, 14, 12, 3, 6, 11, 9, 8, 0, 5, 10, 13,
     15, 9, 14, 6, 13, 1, 5, 8, 4, 2, 3, 12, 10, 11, 0, 7, 11, 0, 13, 7, 12, 14, 1, 4, 2, 3, 6, 8, 10, 5, 15, 9,
     7, 14, 15, 8, 13, 0, 11, 3, 10, 1, 4, 2, 9, 12, 6, 5, 1, 5, 14, 11, 2, 12, 3, 8, 10, 0, 9, 7, 15, 6, 4, 13]"

definition GOST28147_SBOX_7 :: "u8 list" where
  "GOST28147_SBOX_7 = [
     15, 13, 10, 5, 12, 0, 1, 6, 9, 2, 14, 7, 3, 11, 4, 8, 2, 5, 10, 0, 6, 9, 1, 15, 13, 4, 7, 14, 11, 3, 8, 12,
     3, 14, 4, 11, 5, 9, 1, 2, 15, 6, 8, 13, 7, 0, 10, 12, 4, 10, 11, 9, 15, 2, 14, 5, 13, 1, 3, 6, 0, 7, 12, 8,
     15, 6, 5, 8, 9, 7, 12, 11, 0, 10, 3, 1, 2, 4, 13, 14, 12, 11, 15, 4, 5, 1, 14, 9, 0, 8, 13, 2, 10, 7, 3, 6,
     13, 2, 4, 8, 11, 12, 1, 3, 10, 5, 9, 14, 7, 15, 0, 6, 1, 5, 0, 15, 6, 10, 3, 14, 7, 2, 12, 13, 11, 8, 9, 4]"

definition GOST28147_SBOX_8 :: "u8 list" where
  "GOST28147_SBOX_8 = [
     14, 4, 11, 2, 8, 7, 5, 12, 9, 13, 0, 3, 1, 15, 6, 10, 3, 14, 12, 10, 6, 2, 13, 1, 9, 8, 7, 4, 0, 15, 5, 11,
     5, 2, 8, 7, 1, 15, 14, 6, 4, 13, 11, 0, 10, 3, 12, 9, 12, 10, 7, 13, 14, 3, 0, 2, 9, 5, 1, 6, 11, 4, 15, 8,
     6, 3, 15, 7, 0, 9, 10, 8, 11, 12, 4, 1, 5, 2, 13, 14, 6, 13, 15, 1, 5, 3, 8, 0, 11, 10, 14, 4, 9, 12, 2, 7,
     2, 15, 12, 5, 11, 1, 3, 14, 0, 6, 13, 10, 7, 9, 4, 8, 3, 0, 5, 12, 8, 15, 13, 14, 11, 6, 2, 9, 7, 1, 4, 10]"

definition GOST28147_SBOX_9 :: "u8 list" where
  "GOST28147_SBOX_9 = [
     9, 0, 11, 12, 2, 4, 3, 15, 13, 6, 14, 1, 10, 7, 5, 8, 3, 5, 0, 15, 8, 7, 14, 12, 13, 10, 1, 6, 11, 2, 4, 9,
     8, 4, 5, 10, 14, 11, 13, 6, 12, 15, 7, 9, 3, 1, 2, 0, 5, 4, 15, 0, 12, 11, 10, 9, 1, 14, 8, 6, 3, 2, 13, 7,
     7, 12, 3, 0, 6, 8, 14, 11, 1, 15, 13, 10, 9, 5, 2, 4, 7, 4, 3, 11, 6, 10, 8, 1, 9, 12, 14, 13, 0, 15, 2, 5,
     7, 14, 9, 15, 1, 4, 8, 3, 11, 13, 0, 2, 6, 10, 5, 12, 14, 2, 8, 15, 3, 0, 7, 12, 11, 13, 1, 5, 6, 4, 9, 10]"

definition GOST28147_SBOX_10 :: "u8 list" where
  "GOST28147_SBOX_10 = [
     8, 4, 6, 9, 11, 12, 1, 2, 3, 7, 14, 0, 13, 10, 15, 5, 7, 13, 1, 8, 10, 14, 4, 15, 9, 0, 6, 3, 2, 12, 11, 5,
     12, 8, 13, 1, 10, 2, 9, 6, 3, 4, 14, 7, 5, 15, 0, 11, 2, 11, 3, 4, 12, 7, 9, 13, 15, 8, 5, 0, 1, 14, 10, 6,
     8, 3, 13, 10, 14, 15, 5, 1, 4, 7, 11, 12, 2, 0, 6, 9, 4, 12, 9, 11, 14, 10, 7, 6, 3, 5, 0, 15, 1, 2, 8, 13,
     5, 8, 14, 7, 3, 0, 1, 13, 10, 6, 9, 2, 15, 11, 12, 4, 10, 3, 5, 9, 0, 13, 7, 8, 12, 4, 1, 6, 11, 15, 2, 14]"

definition GOST28147_SBOX_11 :: "u8 list" where
  "GOST28147_SBOX_11 = [
     4, 10, 9, 2, 13, 8, 0, 14, 6, 11, 1, 12, 7, 15, 5, 3, 14, 11, 4, 12, 6, 13, 15, 10, 2, 3, 8, 1, 0, 7, 5, 9,
     5, 8, 1, 13, 10, 3, 4, 2, 14, 15, 12, 7, 6, 0, 9, 11, 7, 13, 10, 1, 0, 8, 9, 15, 14, 4, 6, 12, 11, 2, 5, 3,
     6, 12, 7, 1, 5, 15, 13, 8, 4, 10, 9, 14, 0, 3, 11, 2, 4, 11, 10, 0, 7, 2, 1, 13, 3, 6, 8, 5, 9, 12, 15, 14,
     13, 11, 4, 1, 3, 15, 5, 9, 0, 10, 14, 7, 6, 8, 2, 12, 1, 15, 13, 0, 5, 7, 10, 4, 9, 2, 3, 14, 6, 11, 8, 12]"

definition GOST28147_SBOX_12 :: "u8 list" where
  "GOST28147_SBOX_12 = [
     4, 2, 15, 5, 9, 1, 0, 8, 14, 3, 11, 12, 13, 7, 10, 6, 12, 9, 15, 14, 8, 1, 3, 10, 2, 7, 4, 13, 6, 0, 11, 5,
     13, 8, 14, 12, 7, 3, 9, 10, 1, 5, 2, 4, 6, 15, 0, 11, 14, 9, 11, 2, 5, 15, 7, 1, 0, 13, 12, 6, 10, 4, 3, 8,
     3, 14, 5, 9, 6, 8, 0, 13, 10, 11, 7, 12, 2, 1, 15, 4, 8, 15, 6, 11, 1, 9, 12, 5, 13, 3, 7, 10, 0, 14, 2, 4,
     9, 11, 12, 0, 3, 6, 7, 5, 4, 8, 14, 15, 1, 10, 2, 13, 12, 6, 5, 2, 11, 0, 9, 13, 3, 14, 7, 10, 15, 4, 1, 8]"

definition GOST28147_SBOX_13 :: "u8 list" where
  "GOST28147_SBOX_13 = [
     9, 6, 3, 2, 8, 11, 1, 7, 10, 4, 14, 15, 12, 0, 13, 5, 3, 7, 14, 9, 8, 10, 15, 0, 5, 2, 6, 12, 11, 4, 13, 1,
     14, 4, 6, 2, 11, 3, 13, 8, 12, 15, 5, 10, 0, 7, 1, 9, 14, 7, 10, 12, 13, 1, 3, 9, 0, 2, 11, 4, 15, 8, 5, 6,
     11, 5, 1, 9, 8, 13, 15, 0, 14, 4, 2, 3, 12, 7, 10, 6, 3, 10, 13, 12, 1, 2, 0, 11, 7, 5, 9, 4, 8, 15, 14, 6,
     1, 13, 2, 9, 7, 10, 6, 0, 8, 12, 4, 5, 15, 3, 11, 14, 11, 10, 15, 5, 0, 12, 14, 8, 6, 2, 3, 9, 1, 7, 13, 4]"

definition GOST28147_SBOX_14 :: "u8 list" where
  "GOST28147_SBOX_14 = [
     8, 4, 11, 1, 3, 5, 0, 9, 2, 14, 10, 12, 13, 6, 7, 15, 0, 1, 2, 10, 4, 13, 5, 12, 9, 7, 3, 15, 11, 8, 6, 14,
     14, 12, 0, 10, 9, 2, 13, 11, 7, 5, 8, 15, 3, 6, 1, 4, 7, 5, 0, 13, 11, 6, 1, 2, 3, 10, 12, 15, 4, 14, 9, 8,
     2, 7, 12, 15, 9, 5, 10, 11, 1, 4, 0, 13, 6, 8, 14, 3, 8, 3, 2, 6, 4, 13, 14, 11, 12, 1, 7, 15, 10, 0, 9, 5,
     5, 2, 10, 11, 9, 1, 12, 3, 7, 4, 13, 0, 6, 15, 8, 14, 0, 4, 11, 14, 8, 3, 7, 1, 10, 2, 9, 6, 15, 13, 5, 12]"

definition GOST28147_SBOX_15 :: "u8 list" where
  "GOST28147_SBOX_15 = [
     1, 11, 12, 2, 9, 13, 0, 15, 4, 5, 8, 14, 10, 7, 6, 3, 0, 1, 7, 13, 11, 4, 5, 2, 8, 14, 15, 12, 9, 10, 6, 3,
     8, 2, 5, 0, 4, 9, 15, 10, 3, 7, 12, 13, 6, 14, 1, 11, 3, 6, 0, 1, 5, 13, 10, 8, 11, 2, 9, 7, 14, 15, 12, 4,
     8, 13, 11, 0, 4, 5, 1, 2, 9, 3, 12, 14, 6, 15, 10, 7, 12, 9, 11, 1, 8, 14, 2, 4, 7, 3, 6, 5, 10, 0, 15, 13,
     10, 9, 6, 8, 13, 14, 2, 0, 15, 3, 5, 11, 4, 1, 12, 7, 7, 4, 0, 5, 10, 2, 15, 14, 12, 6, 1, 11, 13, 9, 3, 8]"

definition GOST28147_SBOX_16 :: "u8 list" where
  "GOST28147_SBOX_16 = [
     15, 12, 2, 10, 6, 4, 5, 0, 7, 9, 14, 13, 1, 11, 8, 3, 11, 6, 3, 4, 12, 15, 14, 2, 7, 13, 8, 0, 5, 10, 9, 1,
     1, 12, 11, 0, 15, 14, 6, 5, 10, 13, 4, 8, 9, 3, 7, 2, 1, 5, 14, 12, 10, 7, 0, 13, 6, 2, 11, 4, 9, 3, 15, 8,
     0, 12, 8, 9, 13, 2, 10, 11, 7, 3, 6, 5, 4, 14, 15, 1, 8, 0, 15, 3, 2, 5, 14, 11, 1, 10, 4, 7, 12, 9, 13, 6,
     3, 0, 6, 15, 1, 14, 9, 2, 13, 8, 12, 4, 11, 10, 5, 7, 1, 10, 6, 8, 15, 11, 0, 4, 12, 3, 5, 9, 7, 13, 2, 14]"

definition GOST28147_SBOX_17 :: "u8 list" where
  "GOST28147_SBOX_17 = [
     10, 4, 5, 6, 8, 1, 3, 7, 13, 12, 14, 0, 9, 2, 11, 15, 5, 15, 4, 0, 2, 13, 11, 9, 1, 7, 6, 3, 12, 14, 10, 8,
     7, 15, 12, 14, 9, 4, 1, 0, 3, 11, 5, 2, 6, 10, 8, 13, 4, 10, 7, 12, 0, 15, 2, 8, 14, 1, 6, 5, 13, 11, 9, 3,
     7, 6, 4, 11, 9, 12, 2, 10, 1, 8, 0, 14, 15, 13, 3, 5, 7, 6, 2, 4, 13, 9, 15, 0, 10, 1, 5, 11, 8, 14, 12, 3,
     13, 14, 4, 1, 7, 0, 5, 10, 3, 12, 8, 15, 6, 2, 9, 11, 1, 3, 10, 9, 5, 11, 4, 15, 8, 6, 7, 14, 13, 0, 2, 12]"

definition GOST28147_SBOX_18 :: "u8 list" where
  "GOST28147_SBOX_18 = [
     11, 10, 15, 5, 0, 12, 14, 8, 6, 2, 3, 9, 1, 7, 13, 4, 1, 13, 2, 9, 7, 10, 6, 0, 8, 12, 4, 5, 15, 3, 11, 14,
     3, 10, 13, 12, 1, 2, 0, 11, 7, 5, 9, 4, 8, 15, 14, 6, 11, 5, 1, 9, 8, 13, 15, 0, 14, 4, 2, 3, 12, 7, 10, 6,
     14, 7, 10, 12, 13, 1, 3, 9, 0, 2, 11, 4, 15, 8, 5, 6, 14, 4, 6, 2, 11, 3, 13, 8, 12, 15, 5, 10, 0, 7, 1, 9,
     3, 7, 14, 9, 8, 10, 15, 0, 5, 2, 6, 12, 11, 4, 13, 1, 9, 6, 3, 2, 8, 11, 1, 7, 10, 4, 14, 15, 12, 0, 13, 5]"

text \<open>\<open>gost_sboxes\<close> is the \<^verbatim>\<open>switch\<close> of \<^verbatim>\<open>gost28147_alloc\<close>: identifiers 0 and 1 select the same table.\<close>

definition gost_sboxes :: "u8 list list" where
  "gost_sboxes = [GOST28147_SBOX_1, GOST28147_SBOX_1, GOST28147_SBOX_2, GOST28147_SBOX_3, GOST28147_SBOX_4,
     GOST28147_SBOX_5, GOST28147_SBOX_6, GOST28147_SBOX_7, GOST28147_SBOX_8, GOST28147_SBOX_9, GOST28147_SBOX_10,
     GOST28147_SBOX_11, GOST28147_SBOX_12, GOST28147_SBOX_13, GOST28147_SBOX_14, GOST28147_SBOX_15, GOST28147_SBOX_16,
     GOST28147_SBOX_17, GOST28147_SBOX_18]"

definition ENCRYPT_KEY_ORDER :: "nat list" where
  "ENCRYPT_KEY_ORDER = [0, 1, 2, 3, 4, 5, 6, 7, 0, 1, 2, 3, 4, 5, 6, 7, 0, 1, 2, 3, 4, 5, 6, 7, 7, 6, 5, 4, 3, 2, 1, 0]"

definition DECRYPT_KEY_ORDER :: "nat list" where
  "DECRYPT_KEY_ORDER = [0, 1, 2, 3, 4, 5, 6, 7, 7, 6, 5, 4, 3, 2, 1, 0, 7, 6, 5, 4, 3, 2, 1, 0, 7, 6, 5, 4, 3, 2, 1, 0]"

definition MAC_KEY_ORDER :: "nat list" where
  "MAC_KEY_ORDER = [0, 1, 2, 3, 4, 5, 6, 7, 0, 1, 2, 3, 4, 5, 6, 7]"

text \<open>
  An entry of the expanded table \<^verbatim>\<open>ctx->sbox\<close>: two nodes of the substitution side by side in byte \<open>k\<close>
  of the word, rotated by 11.
\<close>

definition sbox_entry :: "u8 list \<Rightarrow> nat \<Rightarrow> nat \<Rightarrow> u32" where
  "sbox_entry s k i =
     (let v = push_bit (8 * k) (push_bit 4 (ucast (s ! (32 * k + 16 + i div 16))) OR ucast (s ! (32 * k + i mod 16)))
      in push_bit 11 v OR drop_bit 21 v)"

definition expand_sbox :: "u8 list \<Rightarrow> u32 list" where
  "expand_sbox s = concat (map (\<lambda>k. map (sbox_entry s k) [0..<256]) [0..<4])"

definition SBOX_TRANSFORM :: "u32 list \<Rightarrow> u32 \<Rightarrow> u32" where
  "SBOX_TRANSFORM sbox x = sbox ! unat (x AND 0xff) OR sbox ! (256 + unat (drop_bit 8 x AND 0xff))
     OR sbox ! (512 + unat (drop_bit 16 x AND 0xff)) OR sbox ! (768 + unat (drop_bit 24 x AND 0xff))"

subsection \<open>The cycles\<close>

text \<open>
  The halves of a block are the words \<open>a\<close> and \<open>b\<close>; the loop of \<^verbatim>\<open>base_cycle8\<close> makes four rounds in a
  pass. The exchange by three additions modulo 2 at the end of a full cycle is \<open>xor_swap\<close>.
\<close>

fun cycle8_rounds :: "u32 list \<Rightarrow> u32 list \<Rightarrow> nat list \<Rightarrow> u32 \<times> u32 \<Rightarrow> u32 \<times> u32" where
  "cycle8_rounds sbox key (i # j # k # l # order) (a, b) =
     (let b = b XOR SBOX_TRANSFORM sbox (a + key ! i);
          a = a XOR SBOX_TRANSFORM sbox (b + key ! j);
          b = b XOR SBOX_TRANSFORM sbox (a + key ! k);
          a = a XOR SBOX_TRANSFORM sbox (b + key ! l)
      in cycle8_rounds sbox key order (a, b))"
| "cycle8_rounds sbox key _ d = d"

definition xor_swap :: "u32 \<times> u32 \<Rightarrow> u32 \<times> u32" where
  "xor_swap = (\<lambda>(a, b). let a = a XOR b; b = b XOR a; a = a XOR b in (a, b))"

definition base_cycle8 :: "u32 list \<Rightarrow> u32 list \<Rightarrow> nat list \<Rightarrow> nat \<Rightarrow> u32 list \<Rightarrow> u32 list" where
  "base_cycle8 d key order order_len sbox =
     (let s = cycle8_rounds sbox key (take order_len order) (d ! 0, d ! 1);
          s = (if order_len = 32 then xor_swap s else s)
      in fst s # snd s # drop 2 d)"

text \<open>\<^verbatim>\<open>base_cycle24\<close> works on three blocks with one key, \<^verbatim>\<open>base_cycle32\<close> on four blocks with a key each.\<close>

fun cycle24_rounds :: "u32 list \<Rightarrow> u32 list \<Rightarrow> nat list \<Rightarrow> u32 list \<Rightarrow> u32 list" where
  "cycle24_rounds sbox key (p # q # order) [d0, d1, d2, d3, d4, d5] =
     (let x1 = d0 + key ! p; x2 = d2 + key ! p; x3 = d4 + key ! p;
          d1 = d1 XOR SBOX_TRANSFORM sbox x1;
          d3 = d3 XOR SBOX_TRANSFORM sbox x2;
          d5 = d5 XOR SBOX_TRANSFORM sbox x3;
          x1 = d1 + key ! q; x2 = d3 + key ! q; x3 = d5 + key ! q;
          d0 = d0 XOR SBOX_TRANSFORM sbox x1;
          d2 = d2 XOR SBOX_TRANSFORM sbox x2;
          d4 = d4 XOR SBOX_TRANSFORM sbox x3
      in cycle24_rounds sbox key order [d0, d1, d2, d3, d4, d5])"
| "cycle24_rounds sbox key _ d = d"

fun xor_swaps :: "u32 list \<Rightarrow> u32 list" where
  "xor_swaps (a # b # d) = (let (a, b) = xor_swap (a, b) in a # b # xor_swaps d)"
| "xor_swaps d = d"

definition base_cycle24 :: "u32 list \<Rightarrow> u32 list \<Rightarrow> nat list \<Rightarrow> u32 list \<Rightarrow> u32 list" where
  "base_cycle24 d key order sbox = xor_swaps (cycle24_rounds sbox key order d)"

fun cycle32_rounds :: "u32 list \<Rightarrow> u32 list \<Rightarrow> nat list \<Rightarrow> u32 list \<Rightarrow> u32 list" where
  "cycle32_rounds sbox k (p # q # order) [s0, s1, s2, s3, s4, s5, s6, s7] =
     (let x = s0 + k ! p; y = s2 + k ! (8 + p); z = s4 + k ! (16 + p); r = s6 + k ! (24 + p);
          s1 = s1 XOR SBOX_TRANSFORM sbox x;
          s3 = s3 XOR SBOX_TRANSFORM sbox y;
          s5 = s5 XOR SBOX_TRANSFORM sbox z;
          s7 = s7 XOR SBOX_TRANSFORM sbox r;
          x = s1 + k ! q; y = s3 + k ! (8 + q); z = s5 + k ! (16 + q); r = s7 + k ! (24 + q);
          s0 = s0 XOR SBOX_TRANSFORM sbox x;
          s2 = s2 XOR SBOX_TRANSFORM sbox y;
          s4 = s4 XOR SBOX_TRANSFORM sbox z;
          s6 = s6 XOR SBOX_TRANSFORM sbox r
      in cycle32_rounds sbox k order [s0, s1, s2, s3, s4, s5, s6, s7])"
| "cycle32_rounds sbox k _ d = d"

subsection \<open>Contexts\<close>

text \<open>
  The members of the union \<^verbatim>\<open>mode\<close> and the tag \<^verbatim>\<open>mode_id\<close> are one datatype; \<open>MODE_NONE\<close> is the tag 0 of a
  context that has been allocated and not initialised. What a member holds that its initialisation
  does not set is what the union held before; the model takes the bytes of the host's memory there.
\<close>

record Gost28147CtrCtx =
  ctr_offset :: nat
  ctr_gamma :: "u8 list"
  ctr_feed :: "u32 list"

record Gost28147CfbCtx =
  cfb_offset :: nat
  cfb_gamma :: "u8 list"
  cfb_feed :: "u8 list"

record Gost28147MacCtx =
  mac_offset :: nat
  mac_mac :: "u8 list"

datatype Gost28147Mode = MODE_NONE | MODE_ECB | MODE_CTR Gost28147CtrCtx | MODE_CFB Gost28147CfbCtx
  | MODE_MAC Gost28147MacCtx

record Gost28147Ctx =
  gost_mode :: Gost28147Mode
  gost_inited :: bool
  gost_sbox128 :: ByteArray
  gost_sbox :: "u32 list"
  gost_key :: "u32 list"

definition sizeof_Gost28147Ctx :: nat where "sizeof_Gost28147Ctx = 4200"

definition base_cycle32 :: "Gost28147Ctx \<Rightarrow> u32 list \<Rightarrow> u32 list \<Rightarrow> u32 list" where
  "base_cycle32 c src k =
     xor_swaps (cycle32_rounds (gost_sbox c) k (map (\<lambda>i. i mod 8) [0..<24] @ rev [0..<8]) src)"

definition C1 :: u32 where "C1 = 0x01010101"
definition C2 :: u32 where "C2 = 0x01010104"

definition ctr_next_feed :: "u32 list \<Rightarrow> u32 list" where
  "ctr_next_feed f =
     (let f1 = f ! 5 + C2; f0 = f ! 4 + C1; f1 = (if f1 < C2 then f1 + 1 else f1);
          f3 = f1 + C2; f2 = f0 + C1; f3 = (if f3 < C2 then f3 + 1 else f3);
          f5 = f3 + C2; f4 = f2 + C1; f5 = (if f5 < C2 then f5 + 1 else f5)
      in [f0, f1, f2, f3, f4, f5])"

text \<open>
  An input that goes through a mode moves along with its output; the first \<open>n\<close> blocks are \<open>24\<close> bytes.
\<close>

primrec ecb_loop :: "nat \<Rightarrow> bool \<Rightarrow> Gost28147Ctx \<Rightarrow> bool \<Rightarrow> nat \<Rightarrow> u8 list \<Rightarrow> u8 list \<Rightarrow> u32 list \<Rightarrow> (u8 list \<times> u32 list) res" where
  "ecb_loop 0 be c is_encrypt off src dst block24 = Inr (dst, block24)"
| "ecb_loop (Suc n) be c is_encrypt off src dst block24 =
     DO (uint8_to_uint32 be (Some (drop off src)) 24 (Some block24) 6) (\<lambda>block24.
     let block24 = base_cycle24 block24 (gost_key c) (if is_encrypt then ENCRYPT_KEY_ORDER else DECRYPT_KEY_ORDER) (gost_sbox c)
     in DO (uint32_to_uint8 be (Some block24) 6 (Some (drop off dst)) 24) (\<lambda>d.
        ecb_loop n be c is_encrypt (off + 24) src (take off dst @ d) block24))"

definition gost28147_ecb_core ::
    "bool \<Rightarrow> Gost28147Ctx option \<Rightarrow> u8 list option \<Rightarrow> nat \<Rightarrow> bool \<Rightarrow> u8 list option \<Rightarrow> u8 list res" where
  "gost28147_ecb_core be ctx src len is_encrypt dst = NOT_NULL ctx (\<lambda>c. NOT_NULL src (\<lambda>src. NOT_NULL dst (\<lambda>dst.
     DO (ecb_loop (len div 24) be c is_encrypt 0 src dst (replicate 6 0)) (\<lambda>(dst, block24).
     let off = 24 * (len div 24); part = len mod 24
     in if part \<noteq> 0
        then DO (uint8_to_uint32 be (Some (drop off src)) part (Some block24) (part div 4)) (\<lambda>block24.
             let block24 = base_cycle24 block24 (gost_key c) (if is_encrypt then ENCRYPT_KEY_ORDER else DECRYPT_KEY_ORDER) (gost_sbox c)
             in DO (uint32_to_uint8 be (Some block24) (part div 4) (Some (drop off dst)) part) (\<lambda>d.
                Inr (take off dst @ d)))
        else Inr dst))))"

text \<open>
  The loops that take bytes one at a time: \<open>xor_gamma k g off src\<close> is what they write, from offset
  \<open>off\<close> of the gamma on and no further than its length \<open>k\<close>.
\<close>

fun xor_gamma :: "nat \<Rightarrow> u8 list \<Rightarrow> nat \<Rightarrow> u8 list \<Rightarrow> u8 list" where
  "xor_gamma k g off (x # src) = (if off < k then (x XOR g ! off) # xor_gamma k g (off + 1) src else [])"
| "xor_gamma k g off [] = []"

definition ctr_refill :: "bool \<Rightarrow> Gost28147Ctx \<Rightarrow> Gost28147CtrCtx \<Rightarrow> Gost28147CtrCtx res" where
  "ctr_refill be c t =
     (let feed = ctr_next_feed (ctr_feed t)
      in DO (uint32_to_uint8 be (Some (base_cycle24 feed (gost_key c) ENCRYPT_KEY_ORDER (gost_sbox c))) 6
            (Some (ctr_gamma t)) 24) (\<lambda>g. Inr (t\<lparr>ctr_feed := feed, ctr_gamma := g\<rparr>)))"

definition gost28147_ctr_crypt ::
    "bool \<Rightarrow> Gost28147Ctx \<Rightarrow> Gost28147CtrCtx \<Rightarrow> u8 list option \<Rightarrow> u8 list option \<Rightarrow> nat \<Rightarrow> (u8 list \<times> Gost28147CtrCtx) res" where
  "gost28147_ctr_crypt be c t src dst len = NOT_NULL src (\<lambda>src. NOT_NULL dst (\<lambda>dst. DO (rd src 0 len) (\<lambda>s.
     let off = ctr_offset t;
         o1 = (if off \<noteq> 0 then xor_gamma 24 (ctr_gamma t) off s else []);
         off = off + length o1
     in DO (if off = 24 then DO (ctr_refill be c t) (\<lambda>t. Inr (t, 0)) else Inr (t, off)) (\<lambda>(t, off).
        DO (if length o1 < len
            then DO (for_blocks 24 (\<lambda>(t, out) b.
                    let out = out @ map2 (XOR) b (ctr_gamma t)
                    in DO (ctr_refill be c t) (\<lambda>t. Inr (t, out))) s (length o1) len (t, o1)) (\<lambda>((t, out), i).
                 let o2 = xor_gamma 24 (ctr_gamma t) off (drop i s)
                 in Inr (t, off + length o2, out @ o2))
            else Inr (t, off, o1)) (\<lambda>(t, off, out).
        DO (wr dst 0 out) (\<lambda>dst. Inr (dst, t\<lparr>ctr_offset := off\<rparr>)))))))"

definition cfb_refill :: "bool \<Rightarrow> Gost28147Ctx \<Rightarrow> Gost28147CfbCtx \<Rightarrow> Gost28147CfbCtx res" where
  "cfb_refill be c t =
     DO (uint8_to_uint32 be (Some (cfb_feed t)) 8 (Some [0, 0]) 2) (\<lambda>gamma32.
     DO (uint32_to_uint8 be (Some (base_cycle8 gamma32 (gost_key c) ENCRYPT_KEY_ORDER 32 (gost_sbox c))) 2
           (Some (cfb_gamma t)) 8) (\<lambda>g. Inr (t\<lparr>cfb_gamma := g\<rparr>)))"

text \<open>The feed takes the bytes of the cipher text, which are the output or the input.\<close>

definition cfb_store :: "bool \<Rightarrow> Gost28147CfbCtx \<Rightarrow> nat \<Rightarrow> u8 list \<Rightarrow> u8 list \<Rightarrow> Gost28147CfbCtx res" where
  "cfb_store is_encrypt t off inp out =
     DO (wr (cfb_feed t) off (if is_encrypt then out else inp)) (\<lambda>f. Inr (t\<lparr>cfb_feed := f\<rparr>))"

definition gost28147_cfb_core ::
    "bool \<Rightarrow> Gost28147Ctx \<Rightarrow> Gost28147CfbCtx \<Rightarrow> u8 list option \<Rightarrow> nat \<Rightarrow> bool \<Rightarrow> u8 list option \<Rightarrow> (u8 list \<times> Gost28147CfbCtx) res" where
  "gost28147_cfb_core be c t src len is_encrypt dst = NOT_NULL src (\<lambda>src. NOT_NULL dst (\<lambda>dst. DO (rd src 0 len) (\<lambda>s.
     let off = cfb_offset t;
         o1 = (if off \<noteq> 0 then xor_gamma 8 (cfb_gamma t) off s else [])
     in DO (cfb_store is_encrypt t off (take (length o1) s) o1) (\<lambda>t.
        let off = off + length o1
        in DO (if off = 8 then DO (cfb_refill be c t) (\<lambda>t. Inr (t, 0)) else Inr (t, off)) (\<lambda>(t, off).
        DO (if length o1 < len
            then DO (for_blocks 8 (\<lambda>(t, out) b.
                    let o1 = map2 (XOR) b (cfb_gamma t)
                    in DO (cfb_store is_encrypt t 0 b o1) (\<lambda>t. DO (cfb_refill be c t) (\<lambda>t. Inr (t, out @ o1))))
                    s (length o1) len (t, o1)) (\<lambda>((t, out), i).
                 let o2 = xor_gamma 8 (cfb_gamma t) off (drop i s)
                 in DO (cfb_store is_encrypt t off (drop i s) o2) (\<lambda>t. Inr (t, off + length o2, out @ o2)))
            else Inr (t, off, o1)) (\<lambda>(t, off, out).
        DO (wr dst 0 out) (\<lambda>dst. Inr (dst, t\<lparr>cfb_offset := off\<rparr>))))))))"

subsection \<open>Allocation\<close>

definition gost28147_alloc_user_sbox_core :: "mem \<Rightarrow> u8 list option \<Rightarrow> nat \<Rightarrow> Gost28147Ctx option res" where
  "gost28147_alloc_user_sbox_core M sbox sbox_len = to_ptr (NOT_NULL sbox (\<lambda>sbox. CHECK_PARAM (sbox_len = 128) (
     CALLOC_CHECKED M sizeof_Gost28147Ctx (DO (rd sbox 0 128) (\<lambda>s.
     CHECK_NOT_NULL (ba_alloc_from_uint8 M (Some sbox) sbox_len) (\<lambda>sbox128.
     Inr \<lparr>gost_mode = MODE_NONE, gost_inited = False, gost_sbox128 = sbox128, gost_sbox = expand_sbox s,
          gost_key = replicate 8 0\<rparr>))))))"

definition gost28147_alloc :: "mem \<Rightarrow> nat \<Rightarrow> Gost28147Ctx option res" where
  "gost28147_alloc M sbox_id =
     (if sbox_id < length gost_sboxes
      then to_ptr (CHECK_NOT_NULL (gost28147_alloc_user_sbox_core M (Some (gost_sboxes ! sbox_id)) 128) Inr)
      else Inr None)"

text \<open>A table shorter than 128 bytes is completed by what the stack holds.\<close>

definition gost28147_alloc_user_sbox :: "mem \<Rightarrow> ByteArray option \<Rightarrow> Gost28147Ctx option res" where
  "gost28147_alloc_user_sbox M sbox = to_ptr (NOT_NULL sbox (\<lambda>sbox.
     DO (ba_to_uint8 (Some sbox) (Some (fresh M 128)) 128) (\<lambda>buf.
     CHECK_NOT_NULL (gost28147_alloc_user_sbox_core M (Some buf) 128) Inr)))"

definition gost28147_copy_with_alloc :: "mem \<Rightarrow> Gost28147Ctx option \<Rightarrow> Gost28147Ctx option res" where
  "gost28147_copy_with_alloc M ctx = to_ptr (NOT_NULL ctx (\<lambda>c. CALLOC_CHECKED M sizeof_Gost28147Ctx (
     CHECK_NOT_NULL (ba_copy_with_alloc M (Some (gost_sbox128 c)) 0 0) (\<lambda>s. Inr (c\<lparr>gost_sbox128 := s\<rparr>)))))"

definition gost28147_get_ext_sbox :: "mem \<Rightarrow> Gost28147Ctx option \<Rightarrow> ByteArray res" where
  "gost28147_get_ext_sbox M ctx = NOT_NULL ctx (\<lambda>c.
     CHECK_NOT_NULL (ba_alloc_from_uint8 M (ba_buf (gost_sbox128 c)) (ba_len (gost_sbox128 c))) Inr)"

text \<open>\<open>n\<close> counts the pairs \<open>(i, j)\<close> of the two loops, \<open>16 * i + j\<close>.\<close>

definition compress_sbox :: "u8 list \<Rightarrow> u8 list" where
  "compress_sbox s = foldl (\<lambda>b n. b[n div 2 := b ! (n div 2) OR push_bit (if even n then 4 else 0) (s ! n)])
     (replicate 64 0) [0..<128]"

definition gost28147_get_compress_sbox :: "mem \<Rightarrow> Gost28147Ctx option \<Rightarrow> ByteArray res" where
  "gost28147_get_compress_sbox M ctx = NOT_NULL ctx (\<lambda>c.
     DO (rd (data (gost_sbox128 c)) 0 128) (\<lambda>s.
     CHECK_NOT_NULL (ba_alloc_from_uint8 M (Some (compress_sbox s)) 64) Inr))"

subsection \<open>Initialisation\<close>

text \<open>
  The operations below change a context: they return a result and the context the caller is left with.
\<close>

definition gost28147_init_ecb :: "mem \<Rightarrow> Gost28147Ctx option \<Rightarrow> ByteArray option \<Rightarrow> unit res \<times> Gost28147Ctx option" where
  "gost28147_init_ecb M ctx key = DO_ST (NOT_NULL ctx Inr) ctx (\<lambda>c. DO_ST (NOT_NULL key Inr) ctx (\<lambda>k.
     DO_ST (CHECK_PARAM (ba_get_len key = 32) (Inr ())) ctx (\<lambda>_.
     let c = c\<lparr>gost_mode := MODE_ECB\<rparr>
     in DO_ST (ba_to_uint32 M key (Some (gost_key c)) 8) (Some c) (\<lambda>ks.
        (Inr (), Some (c\<lparr>gost_key := ks, gost_inited := True\<rparr>))))))"

definition gost28147_init_ctr ::
    "mem \<Rightarrow> Gost28147Ctx option \<Rightarrow> ByteArray option \<Rightarrow> ByteArray option \<Rightarrow> unit res \<times> Gost28147Ctx option" where
  "gost28147_init_ctr M ctx key iv = DO_ST (NOT_NULL ctx Inr) ctx (\<lambda>c. DO_ST (NOT_NULL key Inr) ctx (\<lambda>k.
     DO_ST (NOT_NULL iv Inr) ctx (\<lambda>v. DO_ST (CHECK_PARAM (ba_len k = 32 \<and> ba_len v = 8) (Inr ())) ctx (\<lambda>_.
     let t = \<lparr>ctr_offset = 0, ctr_gamma = fresh M 24, ctr_feed = load_words (big_endian M) (fresh M 24)\<rparr>;
         c = c\<lparr>gost_mode := MODE_CTR t\<rparr>
     in DO_ST (ba_to_uint32 M key (Some (gost_key c)) 8) (Some c) (\<lambda>ks.
        let c = c\<lparr>gost_key := ks\<rparr>
        in DO_ST (uint8_to_uint32 (big_endian M) (ba_get_buf_const iv) 8 (Some (drop 4 (ctr_feed t))) 2) (Some c) (\<lambda>f.
        let f = take 4 (ctr_feed t) @ base_cycle8 f ks ENCRYPT_KEY_ORDER 32 (gost_sbox c);
            t = t\<lparr>ctr_feed := f, ctr_offset := 24\<rparr>
        in (Inr (), Some (c\<lparr>gost_mode := MODE_CTR t, gost_inited := True\<rparr>))))))))"

definition gost28147_init_cfb ::
    "mem \<Rightarrow> Gost28147Ctx option \<Rightarrow> ByteArray option \<Rightarrow> ByteArray option \<Rightarrow> unit res \<times> Gost28147Ctx option" where
  "gost28147_init_cfb M ctx key iv = DO_ST (NOT_NULL ctx Inr) ctx (\<lambda>c. DO_ST (NOT_NULL key Inr) ctx (\<lambda>k.
     DO_ST (NOT_NULL iv Inr) ctx (\<lambda>v. DO_ST (CHECK_PARAM (ba_len k = 32 \<and> ba_len v = 8) (Inr ())) ctx (\<lambda>_.
     let t = \<lparr>cfb_offset = 0, cfb_gamma = fresh M 8, cfb_feed = fresh M 8\<rparr>;
         c = c\<lparr>gost_mode := MODE_CFB t\<rparr>
     in DO_ST (ba_to_uint32 M key (Some (gost_key c)) 8) (Some c) (\<lambda>ks.
        let c = c\<lparr>gost_key := ks\<rparr>
        in DO_ST (ba_to_uint8 iv (Some (cfb_feed t)) 8) (Some c) (\<lambda>f.
        (Inr (), Some (c\<lparr>gost_mode := MODE_CFB (t\<lparr>cfb_feed := f, cfb_offset := 8\<rparr>), gost_inited := True\<rparr>))))))))"

definition gost28147_init_mac :: "mem \<Rightarrow> Gost28147Ctx option \<Rightarrow> ByteArray option \<Rightarrow> unit res \<times> Gost28147Ctx option" where
  "gost28147_init_mac M ctx key = DO_ST (NOT_NULL ctx Inr) ctx (\<lambda>c. DO_ST (NOT_NULL key Inr) ctx (\<lambda>k.
     DO_ST (CHECK_PARAM (ba_len k = 32) (Inr ())) ctx (\<lambda>_.
     let t = \<lparr>mac_offset = 0, mac_mac = fresh M 8\<rparr>; c = c\<lparr>gost_mode := MODE_MAC t\<rparr>
     in DO_ST (ba_to_uint32 M key (Some (gost_key c)) 8) (Some c) (\<lambda>ks.
        (Inr (), Some (c\<lparr>gost_key := ks, gost_mode := MODE_MAC (t\<lparr>mac_mac := replicate 8 0, mac_offset := 0\<rparr>),
           gost_inited := True\<rparr>))))))"

subsection \<open>Encryption and decryption\<close>

text \<open>\<open>gost_output\<close> hands the written buffer over to a new array.\<close>

definition gost_output :: "mem \<Rightarrow> nat \<Rightarrow> u8 list \<Rightarrow> Gost28147Ctx \<Rightarrow> ByteArray res \<times> Gost28147Ctx option" where
  "gost_output M len out_buf c =
     DO_ST (CHECK_NOT_NULL (ba_alloc M) Inr) (Some c) (\<lambda>a. (Inr (a\<lparr>ba_buf := Some out_buf, ba_len := len\<rparr>), Some c))"

text \<open>\<^verbatim>\<open>gost28147_encrypt\<close> and \<^verbatim>\<open>gost28147_decrypt\<close> have the same text but for the flag they pass on.\<close>

definition gost28147_crypt :: "bool \<Rightarrow> mem \<Rightarrow> Gost28147Ctx option \<Rightarrow> ByteArray option \<Rightarrow> ByteArray res \<times> Gost28147Ctx option" where
  "gost28147_crypt is_encrypt M ctx inp = DO_ST (NOT_NULL ctx Inr) ctx (\<lambda>c. DO_ST (NOT_NULL inp Inr) ctx (\<lambda>i.
     let len = ba_len i; be = big_endian M
     in if \<not> gost_inited c then (Inl RET_CONTEXT_NOT_READY, ctx)
        else case gost_mode c of
          MODE_ECB \<Rightarrow>
            DO_ST (CHECK_PARAM (len mod 8 = 0) (MALLOC_CHECKED M len (\<lambda>out_buf.
              gost28147_ecb_core be ctx (ba_get_buf_const inp) len is_encrypt (Some out_buf)))) ctx (\<lambda>out_buf.
            gost_output M len out_buf c)
        | MODE_CTR t \<Rightarrow>
            DO_ST (MALLOC_CHECKED M len (\<lambda>out_buf.
              gost28147_ctr_crypt be c t (ba_get_buf_const inp) (Some out_buf) len)) ctx (\<lambda>(out_buf, t).
            gost_output M len out_buf (c\<lparr>gost_mode := MODE_CTR t\<rparr>))
        | MODE_CFB t \<Rightarrow>
            DO_ST (MALLOC_CHECKED M len (\<lambda>out_buf.
              gost28147_cfb_core be c t (ba_get_buf_const inp) len is_encrypt (Some out_buf))) ctx (\<lambda>(out_buf, t).
            gost_output M len out_buf (c\<lparr>gost_mode := MODE_CFB t\<rparr>))
        | _ \<Rightarrow> (Inl RET_INVALID_CTX_MODE, ctx)))"

definition gost28147_encrypt :: "mem \<Rightarrow> Gost28147Ctx option \<Rightarrow> ByteArray option \<Rightarrow> ByteArray res \<times> Gost28147Ctx option" where
  "gost28147_encrypt = gost28147_crypt True"

definition gost28147_decrypt :: "mem \<Rightarrow> Gost28147Ctx option \<Rightarrow> ByteArray option \<Rightarrow> ByteArray res \<times> Gost28147Ctx option" where
  "gost28147_decrypt = gost28147_crypt False"

subsection \<open>The authentication code\<close>

definition mac_refill :: "bool \<Rightarrow> Gost28147Ctx \<Rightarrow> u8 list \<Rightarrow> u8 list res" where
  "mac_refill be c m = DO (uint8_to_uint32 be (Some m) 8 (Some [0, 0]) 2) (\<lambda>mac32.
     uint32_to_uint8 be (Some (base_cycle8 mac32 (gost_key c) MAC_KEY_ORDER 16 (gost_sbox c))) 2 (Some m) 8)"

definition mac_absorb :: "bool \<Rightarrow> Gost28147Ctx \<Rightarrow> Gost28147MacCtx \<Rightarrow> u8 list \<Rightarrow> Gost28147MacCtx res" where
  "mac_absorb be c t s =
     (let off = mac_offset t;
          o1 = (if off \<noteq> 0 then xor_gamma 8 (mac_mac t) off s else [])
      in DO (wr (mac_mac t) off o1) (\<lambda>m.
         let off = off + length o1
         in DO (if off = 8 then DO (mac_refill be c m) (\<lambda>m. Inr (m, 0)) else Inr (m, off)) (\<lambda>(m, off).
         DO (if length o1 < length s
             then DO (for_blocks 8 (\<lambda>m b. mac_refill be c (map2 (XOR) b m)) s (length o1) (length s) m) (\<lambda>(m, i).
                  let o2 = xor_gamma 8 m off (drop i s)
                  in DO (wr m off o2) (\<lambda>m. Inr (m, off + length o2)))
             else Inr (m, off)) (\<lambda>(m, off).
         Inr \<lparr>mac_offset = off, mac_mac = m\<rparr>))))"

definition gost28147_update_mac :: "mem \<Rightarrow> Gost28147Ctx option \<Rightarrow> ByteArray option \<Rightarrow> unit res \<times> Gost28147Ctx option" where
  "gost28147_update_mac M ctx inp = DO_ST (NOT_NULL ctx Inr) ctx (\<lambda>c. DO_ST (NOT_NULL inp Inr) ctx (\<lambda>i.
     case gost_mode c of
       MODE_MAC t \<Rightarrow>
         if \<not> gost_inited c then (Inl RET_CONTEXT_NOT_READY, ctx)
         else DO_ST (DO (rd (data i) 0 (ba_len i)) (mac_absorb (big_endian M) c t)) ctx (\<lambda>t.
              (Inr (), Some (c\<lparr>gost_mode := MODE_MAC t\<rparr>)))
     | _ \<Rightarrow> (Inl RET_INVALID_CTX_MODE, ctx)))"

text \<open>\<^verbatim>\<open>gost28147_final_mac\<close> and \<^verbatim>\<open>gost28147_final_mac8\<close> differ in how many bytes they return.\<close>

definition gost_final_mac :: "nat \<Rightarrow> mem \<Rightarrow> Gost28147Ctx option \<Rightarrow> ByteArray res \<times> Gost28147Ctx option" where
  "gost_final_mac n M ctx = DO_ST (NOT_NULL ctx Inr) ctx (\<lambda>c.
     case gost_mode c of
       MODE_MAC t \<Rightarrow>
         if \<not> gost_inited c then (Inl RET_CONTEXT_NOT_READY, ctx)
         else DO_ST (if mac_offset t \<noteq> 0
                     then DO (mac_refill (big_endian M) c (mac_mac t)) (\<lambda>m. Inr \<lparr>mac_offset = 0, mac_mac = m\<rparr>)
                     else Inr t) ctx (\<lambda>t.
              DO_ST (CHECK_NOT_NULL (ba_alloc_from_uint8 M (Some (mac_mac t)) n) Inr)
                    (Some (c\<lparr>gost_mode := MODE_MAC t\<rparr>)) (\<lambda>out.
              (Inr out, Some (c\<lparr>gost_mode := MODE_MAC (t\<lparr>mac_mac := replicate 8 0\<rparr>)\<rparr>))))
     | _ \<Rightarrow> (Inl RET_INVALID_CTX_MODE, ctx))"

definition gost28147_final_mac :: "mem \<Rightarrow> Gost28147Ctx option \<Rightarrow> ByteArray res \<times> Gost28147Ctx option" where
  "gost28147_final_mac = gost_final_mac 4"

definition gost28147_final_mac8 :: "mem \<Rightarrow> Gost28147Ctx option \<Rightarrow> ByteArray res \<times> Gost28147Ctx option" where
  "gost28147_final_mac8 = gost_final_mac 8"

end
