(* ===== verification/ByteStream.thy ===== *)
theory ByteStream
  imports BlockHash
begin

text \<open>
  The byte streams of the modes of operation: what a loop over the rest of a block, whole blocks and a
  partial block computes, whatever the block is. The locale \<open>block_stream\<close> is the contract of a mode.
\<close>

lemma foldl_simulation:
  assumes "\<And>s b. b \<in> set bs \<Longrightarrow> P s \<Longrightarrow> R (g s b) = h (R s) b \<and> P (g s b)" "P s"
  shows "R (foldl g s bs) = foldl h (R s) bs \<and> P (foldl g s bs)"
  using assms by (induction bs arbitrary: s) simp_all

subsection \<open>Streams of bytes with a block of state\<close>

text \<open>
  Counter mode, feedback mode and the authentication code take bytes one at a time and renew their
  block when it is used up. \<open>serial\<close> is this machine; the code runs it in three phases: the rest of the
  block, whole blocks, and what remains.
\<close>

definition serial_norm :: "nat \<Rightarrow> ('s \<Rightarrow> nat) \<Rightarrow> ('s \<Rightarrow> 's) \<Rightarrow> 's \<Rightarrow> 's" where
  "serial_norm k off refill s = (if off s = k then refill s else s)"

definition serial :: "nat \<Rightarrow> ('s \<Rightarrow> nat) \<Rightarrow> ('s \<Rightarrow> 's) \<Rightarrow> ('s \<Rightarrow> u8 \<Rightarrow> 's) \<Rightarrow> 's \<Rightarrow> u8 list \<Rightarrow> 's" where
  "serial k off refill put s xs = foldl (\<lambda>s x. serial_norm k off refill (put s x)) (serial_norm k off refill s) xs"

locale block_stream =
  fixes k :: nat and off :: "'s \<Rightarrow> nat" and refill :: "'s \<Rightarrow> 's" and put :: "'s \<Rightarrow> u8 \<Rightarrow> 's"
  assumes k_pos: "0 < k"
    and off_put: "off (put s x) = Suc (off s)"
    and off_refill: "off (refill s) = 0"
begin

lemma off_puts: "off (foldl put s xs) = off s + length xs"
  by (induction xs arbitrary: s) (simp_all add: off_put)

lemma off_norm: "off s \<le> k \<Longrightarrow> off (serial_norm k off refill s) < k"
  using k_pos by (simp add: serial_norm_def off_refill)

lemma off_serial: "off s \<le> k \<Longrightarrow> off (serial k off refill put s xs) < k"
proof (induction xs arbitrary: s)
  case Nil
  then show ?case by (simp add: serial_def off_norm)
next
  case (Cons x xs)
  from off_norm[OF Cons.prems] have "off (put (serial_norm k off refill s) x) \<le> k" by (simp add: off_put)
  from Cons.IH[OF this] show ?case by (simp add: serial_def)
qed

lemma norm_id: "off s < k \<Longrightarrow> serial_norm k off refill s = s"
  by (simp add: serial_norm_def)

lemma serial_append:
  assumes "off s \<le> k"
  shows "serial k off refill put s (xs @ ys) = serial k off refill put (serial k off refill put s xs) ys"
  using norm_id[OF off_serial[OF assms, of xs]] by (simp add: serial_def)

lemma serial_puts: "off s + length xs < k \<Longrightarrow> serial k off refill put s xs = foldl put s xs"
proof (induction xs arbitrary: s)
  case Nil
  then show ?case by (simp add: serial_def norm_id)
next
  case (Cons x xs)
  then have "off (put s x) + length xs < k" by (simp add: off_put)
  with Cons.IH[OF this] Cons.prems show ?case by (simp add: serial_def norm_id off_put)
qed

lemma serial_full:
  assumes "off s + length xs = k" "xs \<noteq> []"
  shows "serial k off refill put s xs = refill (foldl put s xs)"
proof -
  obtain ys y where xs: "xs = ys @ [y]" using assms(2) by (meson rev_exhaust)
  have "off s + length ys < k" using assms(1) xs by simp
  then have "serial k off refill put s ys = foldl put s ys" by (rule serial_puts)
  moreover have "off (put (foldl put s ys) y) = k" using assms(1) xs by (simp add: off_put off_puts)
  ultimately show ?thesis by (simp add: xs serial_def serial_norm_def)
qed

text \<open>Whole blocks and the rest.\<close>

lemma serial_blocks:
  assumes "off s = 0"
  shows "foldl put (foldl (\<lambda>s b. refill (foldl put s b)) s (chunks k xs)) (tail_of k xs) = serial k off refill put s xs"
    and "off (foldl (\<lambda>s b. refill (foldl put s b)) s (chunks k xs)) = 0"
proof -
  have blocks: "off (foldl (\<lambda>s b. refill (foldl put s b)) s bs) = 0
      \<and> serial k off refill put s (concat bs) = foldl (\<lambda>s b. refill (foldl put s b)) s bs"
    if "\<And>b. b \<in> set bs \<Longrightarrow> length b = k" "off s = 0" for bs s
    using that
  proof (induction bs arbitrary: s)
    case Nil
    then show ?case using k_pos by (simp add: serial_def norm_id)
  next
    case (Cons b bs)
    have "length b = k" using Cons.prems by simp
    then have "serial k off refill put s b = refill (foldl put s b)" using Cons.prems k_pos by (intro serial_full) auto
    then show ?case using Cons.IH[of "refill (foldl put s b)"] Cons.prems k_pos by (simp add: serial_append off_refill)
  qed
  let ?s = "foldl (\<lambda>s b. refill (foldl put s b)) s (chunks k xs)"
  from blocks[of "chunks k xs" s] assms have b: "off ?s = 0" "serial k off refill put s (concat (chunks k xs)) = ?s"
    by (simp_all add: length_in_chunks)
  then show "off ?s = 0" by simp
  have "serial k off refill put ?s (tail_of k xs) = foldl put ?s (tail_of k xs)"
    using b(1) k_pos by (intro serial_puts) simp
  then show "foldl put ?s (tail_of k xs) = serial k off refill put s xs"
    using b(2) assms serial_append[of s "concat (chunks k xs)" "tail_of k xs"] by (simp add: chunks_tail_of[OF k_pos])
qed

text \<open>The phases of the code, with \<open>n\<close> bytes in the first.\<close>

lemma serial_phases:
  assumes "off s \<le> k" and n: "n = (if off s = 0 then 0 else min (k - off s) (length xs))"
  defines "s1 \<equiv> serial_norm k off refill (foldl put s (take n xs))"
  shows "n < length xs \<Longrightarrow> off s1 = 0"
    and "n < length xs \<Longrightarrow> foldl put (foldl (\<lambda>s b. refill (foldl put s b)) s1 (chunks k (drop n xs))) (tail_of k (drop n xs))
      = serial k off refill put s xs"
    and "\<not> n < length xs \<Longrightarrow> s1 = serial k off refill put s xs"
proof -
  have first: "s1 = serial k off refill put s (take n xs)"
  proof (cases "off s + length (take n xs) < k")
    case True
    then show ?thesis by (simp add: s1_def serial_puts norm_id off_puts)
  next
    case False
    show ?thesis
    proof (cases "take n xs = []")
      case True
      then show ?thesis unfolding s1_def True serial_def by simp
    next
      case ne: False
      have e: "off s + length (take n xs) = k" using False assms(1) n ne by (auto split: if_splits)
      show ?thesis using serial_full[OF e ne] e by (simp add: s1_def serial_norm_def off_puts)
    qed
  qed
  show zero: "off s1 = 0" if "n < length xs"
  proof (cases "off s = 0")
    case True
    then show ?thesis using n k_pos by (simp add: s1_def serial_norm_def)
  next
    case False
    then have "off s + length (take n xs) = k" using that assms(1) n by (auto split: if_splits)
    then show ?thesis by (simp add: s1_def serial_norm_def off_puts off_refill)
  qed
  show "foldl put (foldl (\<lambda>s b. refill (foldl put s b)) s1 (chunks k (drop n xs))) (tail_of k (drop n xs))
      = serial k off refill put s xs" if "n < length xs"
    using serial_blocks(1)[OF zero[OF that]] serial_append[OF assms(1), of "take n xs" "drop n xs"] first by simp
  show "s1 = serial k off refill put s xs" if "\<not> n < length xs"
    using first that by simp
qed

text \<open>The loop over whole blocks, for a program state that \<open>view\<close> relates to the machine.\<close>

lemma for_blocks_stream:
  assumes f: "\<And>u b. length b = k \<Longrightarrow> P u \<Longrightarrow> f u b = Inr (g u b) \<and> P (g u b) \<and> view (g u b) = refill (foldl put (view u) b)"
    and u: "P u" and n: "n \<le> length xs"
  obtains u' where "for_blocks k f xs n (length xs) u = Inr (u', n + k * ((length xs - n) div k))" "P u'"
    "view u' = foldl (\<lambda>s b. refill (foldl put s b)) (view u) (chunks k (drop n xs))"
    "drop (n + k * ((length xs - n) div k)) xs = tail_of k (drop n xs)"
proof -
  have "for_blocks k f xs n (length xs) u = Inr (foldl g u (chunks k (drop n (take (length xs) xs))), n + k * ((length xs - n) div k))"
    using k_pos n u f by (intro for_blocks_eq[where P = P]) simp_all
  then have "for_blocks k f xs n (length xs) u = Inr (foldl g u (chunks k (drop n xs)), n + k * ((length xs - n) div k))" by simp
  moreover have "view (foldl g u (chunks k (drop n xs))) = foldl (\<lambda>s b. refill (foldl put s b)) (view u) (chunks k (drop n xs))
      \<and> P (foldl g u (chunks k (drop n xs)))"
    using f u by (intro foldl_simulation) (auto dest: length_in_chunks)
  moreover have "drop (n + k * ((length xs - n) div k)) xs = tail_of k (drop n xs)"
    by (simp add: tail_of_def add.commute)
  ultimately show thesis by (elim conjE) (rule that)
qed

end


lemma map2_xor_short: "length ys \<le> n \<or> length xs \<le> n \<Longrightarrow> map2 (XOR) (take n xs) ys = map2 (XOR) xs (ys :: u8 list)"
  by (rule nth_equalityI) auto

end
