(* ===== verification/GostModes.thy ===== *)
theory GostModes
  imports Gost28147 ByteStream
begin

text \<open>
  What the modes of GOST 28147-89 compute: the cycles are a Feistel network whose round function is the
  standard's, decryption undoes encryption, and the streaming modes do not depend on how the data is cut.
\<close>

subsection \<open>The Feistel network\<close>

text \<open>The round of the standard exchanges the halves; \<open>f i\<close> is the round function with key word \<open>i\<close>.\<close>

fun feistel :: "('k \<Rightarrow> 'a::len word \<Rightarrow> 'a word) \<Rightarrow> 'k list \<Rightarrow> 'a word \<times> 'a word \<Rightarrow> 'a word \<times> 'a word" where
  "feistel f [] s = s"
| "feistel f (i # is) (a, b) = feistel f is (b XOR f i a, a)"

lemma feistel_append: "feistel f (is @ js) s = feistel f js (feistel f is s)"
  by (induction f "is" s rule: feistel.induct) simp_all

lemma feistel_inverse: "feistel f (rev is) (prod.swap (feistel f is s)) = prod.swap s"
proof (induction f "is" s rule: feistel.induct)
  case (2 f i "is" a b)
  then show ?case by (simp add: feistel_append xor.assoc)
qed simp

definition gost_F :: "u32 list \<Rightarrow> u32 list \<Rightarrow> nat \<Rightarrow> u32 \<Rightarrow> u32" where
  "gost_F sbox key i x = SBOX_TRANSFORM sbox (x + key ! i)"

lemma cycle8_feistel:
  "4 dvd length order \<Longrightarrow> cycle8_rounds sbox key order s = feistel (gost_F sbox key) order s"
proof (induction sbox key order s rule: cycle8_rounds.induct)
  case (1 sbox key i j k l order a b)
  from 1(2) have "4 dvd length order" by simp presburger
  with 1(1) show ?case by (simp add: Let_def gost_F_def)
qed (simp_all, presburger+)

lemma xor_swap_eq [simp]: "xor_swap s = prod.swap s"
proof -
  have "a XOR b XOR (b XOR (a XOR b)) = b" "b XOR (a XOR b) = a" for a b :: u32
    by (simp_all add: xor.assoc) (simp add: xor.commute xor.left_commute)
  then show ?thesis by (cases s) (simp add: xor_swap_def Let_def)
qed

text \<open>A full cycle on a block of two words, and on a list of blocks.\<close>

definition gost_pair :: "u32 list \<Rightarrow> u32 list \<Rightarrow> nat list \<Rightarrow> u32 \<times> u32 \<Rightarrow> u32 \<times> u32" where
  "gost_pair sbox key order s = prod.swap (feistel (gost_F sbox key) order s)"

fun on_pairs :: "('a \<times> 'a \<Rightarrow> 'a \<times> 'a) \<Rightarrow> 'a list \<Rightarrow> 'a list" where
  "on_pairs f (a # b # ws) = fst (f (a, b)) # snd (f (a, b)) # on_pairs f ws"
| "on_pairs f ws = ws"

lemma length_on_pairs [simp]: "length (on_pairs f ws) = length ws"
  by (induction f ws rule: on_pairs.induct) simp_all

lemma on_pairs_append: "even (length ws) \<Longrightarrow> on_pairs f (ws @ vs) = on_pairs f ws @ on_pairs f vs"
  by (induction f ws rule: on_pairs.induct) simp_all

lemma on_pairs_inverse: "(\<And>s. g (f s) = s) \<Longrightarrow> on_pairs g (on_pairs f ws) = ws"
  by (induction f ws rule: on_pairs.induct) simp_all

lemma xor_swaps_eq: "xor_swaps ws = on_pairs prod.swap ws"
  by (induction ws rule: xor_swaps.induct) simp_all

lemma on_pairs_swap_feistel: "on_pairs prod.swap (on_pairs (feistel (gost_F sbox key) order) ws) = on_pairs (gost_pair sbox key order) ws"
  by (induction ws rule: xor_swaps.induct) (simp_all add: gost_pair_def)

lemma cycle24_feistel:
  "even (length order) \<Longrightarrow> length d = 6 \<Longrightarrow> cycle24_rounds sbox key order d = on_pairs (feistel (gost_F sbox key) order) d"
proof (induction order arbitrary: d rule: induct_list012)
  case 1
  then obtain a b c e f g where "d = [a, b, c, e, f, g]" by (auto simp: numeral_eq_Suc length_Suc_conv)
  then show ?case by simp
next
  case (3 p q order)
  then obtain a b c e f g where "d = [a, b, c, e, f, g]" by (auto simp: numeral_eq_Suc length_Suc_conv)
  then show ?case using 3 by (simp add: Let_def gost_F_def)
qed simp

lemma cycle32_feistel:
  "even (length order) \<Longrightarrow> cycle32_rounds sbox k order [s0, s1, s2, s3, s4, s5, s6, s7]
   = (let r = \<lambda>m. feistel (\<lambda>i x. SBOX_TRANSFORM sbox (x + k ! (m + i))) order
      in [fst (r 0 (s0, s1)), snd (r 0 (s0, s1)), fst (r 8 (s2, s3)), snd (r 8 (s2, s3)),
          fst (r 16 (s4, s5)), snd (r 16 (s4, s5)), fst (r 24 (s6, s7)), snd (r 24 (s6, s7))])"
  by (induction order arbitrary: s0 s1 s2 s3 s4 s5 s6 s7 rule: induct_list012) (simp_all add: Let_def)

lemma base_cycle24_eq:
  "even (length order) \<Longrightarrow> length d = 6 \<Longrightarrow> base_cycle24 d key order sbox = on_pairs (gost_pair sbox key order) d"
  by (simp add: base_cycle24_def cycle24_feistel xor_swaps_eq on_pairs_swap_feistel)

lemma length_orders [simp]: "length ENCRYPT_KEY_ORDER = 32" "length DECRYPT_KEY_ORDER = 32" "length MAC_KEY_ORDER = 16"
  by (simp_all add: ENCRYPT_KEY_ORDER_def DECRYPT_KEY_ORDER_def MAC_KEY_ORDER_def)

lemma base_cycle8_eq:
  assumes "length order = 32"
  shows "base_cycle8 [a, b] key order 32 sbox = on_pairs (gost_pair sbox key order) [a, b]"
  using assms by (simp add: base_cycle8_def cycle8_feistel gost_pair_def Let_def)

lemma rev_key_order: "DECRYPT_KEY_ORDER = rev ENCRYPT_KEY_ORDER"
  by (simp add: ENCRYPT_KEY_ORDER_def DECRYPT_KEY_ORDER_def)

abbreviation gost_enc :: "u32 list \<Rightarrow> u32 list \<Rightarrow> u32 \<times> u32 \<Rightarrow> u32 \<times> u32" where
  "gost_enc sbox key \<equiv> gost_pair sbox key ENCRYPT_KEY_ORDER"

abbreviation gost_dec :: "u32 list \<Rightarrow> u32 list \<Rightarrow> u32 \<times> u32 \<Rightarrow> u32 \<times> u32" where
  "gost_dec sbox key \<equiv> gost_pair sbox key DECRYPT_KEY_ORDER"

lemma gost_dec_enc: "gost_dec sbox key (gost_enc sbox key s) = s"
  by (simp add: gost_pair_def rev_key_order feistel_inverse)

lemma gost_enc_dec: "gost_enc sbox key (gost_dec sbox key s) = s"
  using feistel_inverse[of "gost_F sbox key" "rev ENCRYPT_KEY_ORDER" s] by (simp add: gost_pair_def rev_key_order)


subsection \<open>Blocks of bytes\<close>

text \<open>\<open>on_bytes E m\<close> applies \<open>E\<close> to the blocks of eight bytes of \<open>m\<close>.\<close>

definition on_bytes :: "(u32 \<times> u32 \<Rightarrow> u32 \<times> u32) \<Rightarrow> u8 list \<Rightarrow> u8 list" where
  "on_bytes E m = store_words False (on_pairs E (load_words False m))"

lemma length_on_bytes [simp]: "4 dvd length m \<Longrightarrow> length (on_bytes E m) = length m"
  by (simp add: on_bytes_def length_store_words)

lemma load_words_append32: "4 dvd length m \<Longrightarrow> (load_words False (m @ m') :: u32 list) = load_words False m @ load_words False m'"
  by (simp add: load_words_def chunks_append)

lemma on_bytes_append: "8 dvd length m \<Longrightarrow> on_bytes E (m @ m') = on_bytes E m @ on_bytes E m'"
proof -
  assume *: "8 dvd length m"
  then have "4 dvd length m" by (auto elim: dvd_trans[rotated])
  moreover have "even (length (load_words False m :: u32 list))" using * by simp presburger
  ultimately show ?thesis by (simp add: on_bytes_def load_words_append32 on_pairs_append store_words_append)
qed

lemma on_bytes_Nil [simp]: "on_bytes E [] = []"
  by (simp add: on_bytes_def load_words_def store_words_def)

lemma on_bytes_inverse: "(\<And>s. g (f s) = s) \<Longrightarrow> 4 dvd length m \<Longrightarrow> on_bytes g (on_bytes f m) = m"
  by (simp add: on_bytes_def on_pairs_inverse)

lemma on_bytes_zeros:
  assumes "8 dvd length m"
  shows "on_bytes E m = store_words False (take (length m div 4) (on_pairs E (load_words False m @ ws)))"
proof -
  have "even (length (load_words False m :: u32 list))" using assms by simp presburger
  moreover have "length (on_pairs E (load_words False m)) = length m div 4" by simp
  ultimately show ?thesis unfolding on_bytes_def by (simp add: on_pairs_append)
qed

subsection \<open>Simple substitution\<close>

abbreviation ecb_cipher :: "Gost28147Ctx \<Rightarrow> bool \<Rightarrow> u8 list \<Rightarrow> u8 list" where
  "ecb_cipher c e \<equiv> on_bytes (gost_pair (gost_sbox c) (gost_key c) (if e then ENCRYPT_KEY_ORDER else DECRYPT_KEY_ORDER))"

lemma ecb_loop_ok:
  assumes "off + 24 * n \<le> length src" "length dst = length src" "length blk = 6"
  shows "\<exists>blk'. length blk' = 6 \<and> ecb_loop n be c e off src dst blk
     = Inr (take off dst @ ecb_cipher c e (take (24 * n) (drop off src)) @ drop (off + 24 * n) dst, blk')"
  using assms
proof (induction n arbitrary: off dst blk)
  case 0
  then show ?case by simp
next
  case (Suc n)
  define m where "m = take 24 (drop off src)"
  define p where "p = gost_pair (gost_sbox c) (gost_key c) (if e then ENCRYPT_KEY_ORDER else DECRYPT_KEY_ORDER)"
  define d where "d = on_bytes p m"
  define blk1 where "blk1 = on_pairs p (load_words False m)"
  have m: "length m = 24" using Suc.prems by (simp add: m_def)
  have l: "uint8_to_uint32 be (Some (drop off src)) 24 (Some blk) 6 = Inr (load_words False m)"
    using Suc.prems by (subst uint8_to_uint32_eq) (simp_all add: m_def)
  have b: "base_cycle24 (load_words False m) (gost_key c) (if e then ENCRYPT_KEY_ORDER else DECRYPT_KEY_ORDER) (gost_sbox c) = blk1"
    unfolding blk1_def p_def using m by (intro base_cycle24_eq) simp_all
  have b6: "length blk1 = 6" using m by (simp add: blk1_def)
  have s: "uint32_to_uint8 be (Some blk1) 6 (Some (drop off dst)) 24 = Inr (d @ drop (off + 24) dst)"
    using Suc.prems b6 by (subst uint32_to_uint8_eq) (simp_all add: d_def on_bytes_def blk1_def add.commute)
  have d: "length d = 24" using m by (simp add: d_def)
  let ?dst = "take off dst @ d @ drop (off + 24) dst"
  have e: "ecb_loop (Suc n) be c e off src dst blk = ecb_loop n be c e (off + 24) src ?dst blk1"
    using l b s by simp
  obtain blk' where "length blk' = 6" and r: "ecb_loop n be c e (off + 24) src ?dst blk1
      = Inr (take (off + 24) ?dst @ on_bytes p (take (24 * n) (drop (off + 24) src)) @ drop (off + 24 + 24 * n) ?dst, blk')"
    using Suc.IH[of "off + 24" ?dst blk1] Suc.prems d b6 unfolding p_def by auto
  moreover have "take (off + 24) ?dst = take off dst @ d" using Suc.prems d by simp
  moreover have "drop (off + 24 + 24 * n) ?dst = drop (off + 24 * Suc n) dst" using Suc.prems d by (simp add: ac_simps)
  moreover have "on_bytes p (take (24 * Suc n) (drop off src)) = d @ on_bytes p (take (24 * n) (drop (off + 24) src))"
  proof -
    have "take (24 * Suc n) (drop off src) = m @ take (24 * n) (drop (off + 24) src)"
      using take_add[of 24 "24 * n" "drop off src"] by (simp add: m_def add.commute)
    then show ?thesis using m by (simp add: on_bytes_append d_def)
  qed
  ultimately show ?case unfolding e p_def by auto
qed

lemma ecb_core_ok:
  assumes "8 dvd len" "length src = len" "length dst = len"
  shows "gost28147_ecb_core be (Some c) (Some src) len e (Some dst) = Inr (ecb_cipher c e src)"
proof -
  define K where "K = (if e then ENCRYPT_KEY_ORDER else DECRYPT_KEY_ORDER)"
  have K: "even (length K)" by (simp add: K_def)
  define p where "p = gost_pair (gost_sbox c) (gost_key c) K"
  define n r where "n = len div 24" and "r = len mod 24"
  have len: "len = 24 * n + r" by (simp add: n_def r_def)
  have r8: "8 dvd r" "r < 24" using assms(1) by (simp_all add: r_def dvd_mod)
  obtain blk where blk: "length blk = 6" and l: "ecb_loop n be c e 0 src dst (replicate 6 0)
      = Inr (on_bytes p (take (24 * n) src) @ drop (24 * n) dst, blk)"
    using ecb_loop_ok[of 0 n src dst "replicate 6 0" be c e] assms len unfolding p_def K_def by auto
  define d0 where "d0 = on_bytes p (take (24 * n) src)"
  have d0: "length d0 = 24 * n" using assms len by (simp add: d0_def)
  have src: "on_bytes p src = d0 @ on_bytes p (drop (24 * n) src)"
    using on_bytes_append[of "take (24 * n) src" p "drop (24 * n) src"] assms len by (simp add: d0_def)
  show ?thesis
  proof (cases "r = 0")
    case True
    then show ?thesis using l assms len src d0 unfolding gost28147_ecb_core_def K_def[symmetric] p_def[symmetric] n_def[symmetric]
      r_def[symmetric] d0_def[symmetric] by simp
  next
    case False
    define m where "m = drop (24 * n) src"
    have m: "length m = r" using assms len by (simp add: m_def)
    have r4: "4 * (r div 4) = r" "0 < r div 4" "r div 4 \<le> 6" using r8 False by presburger+
    define blk1 where "blk1 = load_words False m @ drop (r div 4) blk"
    have u: "uint8_to_uint32 be (Some m) r (Some blk) (r div 4) = Inr blk1"
      using False r4 blk m by (subst uint8_to_uint32_eq) (simp_all add: blk1_def)
    have b6: "length blk1 = 6" using blk m r4 by (simp add: blk1_def)
    have b: "base_cycle24 blk1 (gost_key c) K (gost_sbox c) = on_pairs p blk1"
      unfolding p_def using b6 K by (intro base_cycle24_eq)
    have s: "uint32_to_uint8 be (Some (on_pairs p blk1)) (r div 4) (Some (drop (24 * n) dst)) r = Inr (on_bytes p m)"
      using r4 b6 assms len m r8 by (subst uint32_to_uint8_eq) (simp_all add: on_bytes_zeros[where ws = "drop (r div 4) blk"] blk1_def)
    have t: "take (24 * n) (d0 @ drop (24 * n) dst) = d0" "drop (24 * n) (d0 @ drop (24 * n) dst) = drop (24 * n) dst"
      using d0 by simp_all
    show ?thesis
      using l False u b s t unfolding gost28147_ecb_core_def K_def[symmetric] p_def[symmetric] src n_def[symmetric]
        r_def[symmetric] d0_def[symmetric] m_def[symmetric] Let_def
      by (simp flip: m_def)
  qed
qed


lemma xor_gamma_eq: "length g = k \<Longrightarrow> off \<le> k \<Longrightarrow> xor_gamma k g off xs = map2 (XOR) xs (drop off g)"
proof (induction xs arbitrary: off)
  case (Cons x xs)
  show ?case
  proof (cases "off < k")
    case True
    then have "drop off g = g ! off # drop (Suc off) g" using Cons.prems by (simp add: Cons_nth_drop_Suc)
    then show ?thesis using True Cons.IH[of "Suc off"] Cons.prems by simp
  qed (use Cons.prems in simp)
qed simp

subsection \<open>Counter mode\<close>

definition ctr_put :: "Gost28147CtrCtx \<times> u8 list \<Rightarrow> u8 \<Rightarrow> Gost28147CtrCtx \<times> u8 list" where
  "ctr_put s x = ((fst s)\<lparr>ctr_offset := Suc (ctr_offset (fst s))\<rparr>, snd s @ [x XOR ctr_gamma (fst s) ! ctr_offset (fst s)])"

definition ctr_renew :: "Gost28147Ctx \<Rightarrow> Gost28147CtrCtx \<Rightarrow> Gost28147CtrCtx" where
  "ctr_renew c t = t\<lparr>ctr_feed := ctr_next_feed (ctr_feed t),
     ctr_gamma := store_words False (on_pairs (gost_enc (gost_sbox c) (gost_key c)) (ctr_next_feed (ctr_feed t)))\<rparr>"

definition ctr_turn :: "Gost28147Ctx \<Rightarrow> Gost28147CtrCtx \<times> u8 list \<Rightarrow> Gost28147CtrCtx \<times> u8 list" where
  "ctr_turn c s = ((ctr_renew c (fst s))\<lparr>ctr_offset := 0\<rparr>, snd s)"

abbreviation ctr_serial :: "Gost28147Ctx \<Rightarrow> Gost28147CtrCtx \<times> u8 list \<Rightarrow> u8 list \<Rightarrow> Gost28147CtrCtx \<times> u8 list" where
  "ctr_serial c \<equiv> serial 24 (\<lambda>s. ctr_offset (fst s)) (ctr_turn c) ctr_put"

interpretation ctr: block_stream 24 "\<lambda>s. ctr_offset (fst s)" "ctr_turn c" ctr_put for c
  by unfold_locales (simp_all add: ctr_put_def ctr_turn_def)

lemma length_ctr_next_feed [simp]: "length (ctr_next_feed f) = 6"
  by (simp add: ctr_next_feed_def Let_def)

lemma length_ctr_renew [simp]: "length (ctr_gamma (ctr_renew c t)) = 24"
  by (simp add: ctr_renew_def length_store_words)

lemma ctr_refill_ok: "length (ctr_gamma t) = 24 \<Longrightarrow> ctr_refill be c t = Inr (ctr_renew c t)"
  by (simp add: ctr_refill_def Let_def base_cycle24_eq uint32_to_uint8_eq ctr_renew_def)

lemma ctr_puts:
  "length (ctr_gamma t) = 24 \<Longrightarrow> ctr_offset t + length xs \<le> 24 \<Longrightarrow>
   foldl ctr_put (t, out) xs = (t\<lparr>ctr_offset := ctr_offset t + length xs\<rparr>, out @ map2 (XOR) xs (drop (ctr_offset t) (ctr_gamma t)))"
proof (induction xs arbitrary: t out)
  case (Cons x xs)
  then have "drop (ctr_offset t) (ctr_gamma t) = ctr_gamma t ! ctr_offset t # drop (Suc (ctr_offset t)) (ctr_gamma t)"
    by (simp add: Cons_nth_drop_Suc)
  then show ?case using Cons by (simp add: ctr_put_def)
qed simp

lemma length_ctr_serial:
  "length (snd (serial 24 (\<lambda>s. ctr_offset (fst s)) (ctr_turn c) ctr_put s xs)) = length (snd s) + length xs"
proof -
  have "length (snd (foldl (\<lambda>s x. serial_norm 24 (\<lambda>s. ctr_offset (fst s)) (ctr_turn c) (ctr_put s x)) s xs)) = length (snd s) + length xs" for s
    by (induction xs arbitrary: s) (simp_all add: serial_norm_def ctr_put_def ctr_turn_def)
  then show ?thesis by (simp add: serial_def serial_norm_def ctr_turn_def)
qed

lemma ctr_crypt_ok:
  fixes c t
  assumes "length (ctr_gamma t) = 24" "ctr_offset t \<le> 24" "length src = len" "length dst = len"
  defines "r \<equiv> ctr_serial c (t, []) src"
  shows "gost28147_ctr_crypt be c t (Some src) (Some dst) len = Inr (snd r, fst r)"
proof -
  define off where "off = ctr_offset t"
  define n where "n = (if off = 0 then 0 else min (24 - off) (length src))"
  define o1 where "o1 = (if off \<noteq> 0 then xor_gamma 24 (ctr_gamma t) off src else [])"
  have n: "length o1 = n" "off + n \<le> 24" "n \<le> len"
    using assms(1-3) by (auto simp: o1_def n_def off_def xor_gamma_eq min_def)
  have p: "foldl ctr_put (t, []) (take n src) = (t\<lparr>ctr_offset := off + n\<rparr>, o1)"
  proof -
    have "map2 (XOR) (take n src) (drop off (ctr_gamma t)) = o1"
    proof (cases "off = 0")
      case False
      have "map2 (XOR) (take n src) (drop off (ctr_gamma t)) = map2 (XOR) src (drop off (ctr_gamma t))"
        by (rule map2_xor_short) (use False assms(1) in \<open>auto simp: n_def\<close>)
      then show ?thesis using False assms(1,2) by (simp add: o1_def off_def xor_gamma_eq)
    qed (simp add: o1_def n_def)
    then show ?thesis using assms(1,3) n by (subst ctr_puts) (simp_all add: off_def)
  qed
  define t1 where "t1 = (if off + n = 24 then ctr_renew c t else t)"
  define off1 where "off1 = (if off + n = 24 then 0 else off + n)"
  have l1: "length (ctr_gamma t1) = 24" using assms(1) by (simp add: t1_def)
  have s1: "serial_norm 24 (\<lambda>s. ctr_offset (fst s)) (ctr_turn c) (foldl ctr_put (t, []) (take n src)) = (t1\<lparr>ctr_offset := off1\<rparr>, o1)"
    unfolding p by (simp add: serial_norm_def ctr_turn_def t1_def off1_def ctr_renew_def)
  have q: "(if off + n = 24 then DO (ctr_refill be c t) (\<lambda>t. Inr (t, 0)) else Inr (t, off + n)) = Inr (t1, off1)"
    using assms(1) by (simp add: t1_def off1_def ctr_refill_ok)
  have rs: "rd src 0 len = Inr src" using assms(3) by simp
  note e = gost28147_ctr_crypt_def[of be c t "Some src" "Some dst" len, unfolded NOT_NULL_simps rs DO_simps Let_def,
    folded off_def, folded o1_def, unfolded n(1) q DO_simps prod.case]
  have LE: "ctr_offset (fst (t, [] :: u8 list)) \<le> 24" using assms(2) by simp
  have N: "n = (if ctr_offset (fst (t, [] :: u8 list)) = 0 then 0 else min (24 - ctr_offset (fst (t, [] :: u8 list))) (length src))"
    by (simp add: n_def off_def)
  note ph = ctr.serial_phases[OF LE N, where c = c, unfolded s1 assms(3), folded r_def]
  show ?thesis
  proof (cases "n < len")
    case True
    have z: "off1 = 0" using ph(1) True by simp
    define f where "f = (\<lambda>(t, out) b. DO (ctr_refill be c t) (\<lambda>t'. Inr (t', out @ map2 (XOR) b (ctr_gamma t))))"
    define view where "view = (\<lambda>s :: Gost28147CtrCtx \<times> u8 list. ((fst s)\<lparr>ctr_offset := 0\<rparr>, snd s))"
    obtain s2 where b: "for_blocks 24 f src n len (t1, o1) = Inr (s2, n + 24 * ((len - n) div 24))"
        "length (ctr_gamma (fst s2)) = 24" and tl: "drop (n + 24 * ((len - n) div 24)) src = tail_of 24 (drop n src)"
        and sim: "view s2 = foldl (\<lambda>s b. ctr_turn c (foldl ctr_put s b)) (view (t1, o1)) (chunks 24 (drop n src))"
      by (rule ctr.for_blocks_stream[where u = "(t1, o1)" and P = "\<lambda>s. length (ctr_gamma (fst s)) = 24" and view = view and f = f and c = c
            and g = "\<lambda>s b. (ctr_renew c (fst s), snd s @ map2 (XOR) b (ctr_gamma (fst s)))", unfolded assms(3)])
        (use l1 n assms(3) in \<open>auto simp: f_def view_def ctr_refill_ok ctr_puts ctr_turn_def ctr_renew_def length_store_words\<close>)
    obtain t2 o2 where t2: "s2 = (t2, o2)" by fastforce
    have "r = foldl ctr_put (t2\<lparr>ctr_offset := 0\<rparr>, o2) (tail_of 24 (drop n src))"
      using ph(2) True sim unfolding t2 z view_def by simp
    also have "\<dots> = (t2\<lparr>ctr_offset := length (tail_of 24 (drop n src))\<rparr>, o2 @ xor_gamma 24 (ctr_gamma t2) 0 (tail_of 24 (drop n src)))"
      using b(2) by (subst ctr_puts) (simp_all add: t2 xor_gamma_eq)
    finally have r: "r = \<dots>" .
    have xl: "length (xor_gamma 24 (ctr_gamma t2) 0 (tail_of 24 (drop n src))) = length (tail_of 24 (drop n src))"
      using b(2) by (simp add: t2 xor_gamma_eq)
    have "length (snd r) = len" using assms(3) by (simp add: r_def length_ctr_serial)
    moreover note b(1)[unfolded f_def t2]
    ultimately show ?thesis using True assms(4) z tl r xl unfolding e by simp
  next
    case False
    have r: "r = (t1\<lparr>ctr_offset := off1\<rparr>, o1)" using ph(3) False by simp
    have "length (snd r) = len" using assms(3) by (simp add: r_def length_ctr_serial)
    then show ?thesis using False assms(4) r unfolding e by simp
  qed
qed


text \<open>
  The counters of the standard: both halves of the counter move by a constant, the upper half modulo
  \<open>2 ^ 32 - 1\<close>; the key stream is what encrypting them gives.
\<close>

definition gost_count :: "u32 \<times> u32 \<Rightarrow> u32 \<times> u32" where
  "gost_count = (\<lambda>(a, b). (a + 0x01010101, let b' = b + 0x01010104 in if b' < 0x01010104 then b' + 1 else b'))"

definition gost_key_block :: "Gost28147Ctx \<Rightarrow> u32 \<times> u32 \<Rightarrow> nat \<Rightarrow> u8 list" where
  "gost_key_block c s j = (let e = gost_enc (gost_sbox c) (gost_key c) ((gost_count ^^ Suc j) s)
     in store_words False [fst e, snd e])"

definition gost_key_stream :: "Gost28147Ctx \<Rightarrow> u32 \<times> u32 \<Rightarrow> nat \<Rightarrow> u8" where
  "gost_key_stream c s n = gost_key_block c s (n div 8) ! (n mod 8)"

lemma length_gost_key_block [simp]: "length (gost_key_block c s j) = 8"
  by (simp add: gost_key_block_def Let_def length_store_words)

lemma ctr_next_feed_counts:
  assumes "(f ! 4, f ! 5) = (gost_count ^^ j) s"
  shows "ctr_next_feed f = [fst ((gost_count ^^ Suc j) s), snd ((gost_count ^^ Suc j) s),
     fst ((gost_count ^^ Suc (Suc j)) s), snd ((gost_count ^^ Suc (Suc j)) s),
     fst ((gost_count ^^ Suc (Suc (Suc j))) s), snd ((gost_count ^^ Suc (Suc (Suc j))) s)]"
  using assms[symmetric] by (simp add: ctr_next_feed_def gost_count_def C1_def C2_def Let_def)

text \<open>The context after \<open>n\<close> bytes of the stream from the counter \<open>s\<close>.\<close>

definition ctr_at :: "Gost28147Ctx \<Rightarrow> u32 \<times> u32 \<Rightarrow> nat \<Rightarrow> Gost28147CtrCtx \<Rightarrow> bool" where
  "ctr_at c s n t \<longleftrightarrow> ctr_offset t \<le> 24 \<and> length (ctr_gamma t) = 24 \<and>
     (\<exists>r. n + 24 = 24 * r + ctr_offset t \<and> (ctr_feed t ! 4, ctr_feed t ! 5) = (gost_count ^^ (3 * r)) s
        \<and> (ctr_offset t < 24 \<longrightarrow> ctr_gamma t = concat (map (gost_key_block c s) [3 * r - 3, 3 * r - 2, 3 * r - 1])))"

lemma ctr_at_norm:
  assumes "ctr_at c s n t"
  shows "ctr_at c s n (fst (serial_norm 24 (\<lambda>s. ctr_offset (fst s)) (ctr_turn c) (t, out)))"
proof (cases "ctr_offset t = 24")
  case True
  from assms obtain r where r: "n + 24 = 24 * r + ctr_offset t" "(ctr_feed t ! 4, ctr_feed t ! 5) = (gost_count ^^ (3 * r)) s"
    unfolding ctr_at_def by blast
  have "ctr_gamma (ctr_renew c t) = concat (map (gost_key_block c s) [3 * Suc r - 3, 3 * Suc r - 2, 3 * Suc r - 1])"
    by (simp add: ctr_renew_def ctr_next_feed_counts[OF r(2)] gost_key_block_def Let_def store_words_def numeral_eq_Suc)
  moreover have "(ctr_feed (ctr_renew c t) ! 4, ctr_feed (ctr_renew c t) ! 5) = (gost_count ^^ (3 * Suc r)) s"
    by (simp add: ctr_renew_def ctr_next_feed_counts[OF r(2)] numeral_eq_Suc)
  ultimately show ?thesis using True r(1) unfolding ctr_at_def serial_norm_def ctr_turn_def
    by (intro conjI exI[of _ "Suc r"]) simp_all
qed (use assms in \<open>simp add: serial_norm_def\<close>)

lemma ctr_at_put:
  assumes "ctr_at c s n t" "ctr_offset t < 24"
  shows "ctr_at c s (Suc n) (fst (ctr_put (t, out) x)) \<and> snd (ctr_put (t, out) x) = out @ [x XOR gost_key_stream c s n]"
proof -
  from assms obtain r where r: "n + 24 = 24 * r + ctr_offset t" "(ctr_feed t ! 4, ctr_feed t ! 5) = (gost_count ^^ (3 * r)) s"
      "ctr_gamma t = concat (map (gost_key_block c s) [3 * r - 3, 3 * r - 2, 3 * r - 1])"
    unfolding ctr_at_def by auto
  define i where "i = ctr_offset t"
  have i: "i < 24" "n + 24 = 24 * r + i" using assms r by (simp_all add: i_def)
  have r1: "1 \<le> r" using i by linarith
  then obtain q where q: "r = Suc q" by (metis Suc_le_D One_nat_def)
  have n: "n = 8 * (3 * q) + i" using i q by simp
  have "ctr_gamma t ! i = gost_key_stream c s n"
  proof -
    consider "i < 8" | "8 \<le> i" "i < 16" | "16 \<le> i" "i < 24" using i by linarith
    then show ?thesis
    proof cases
      case 1
      have "n = 8 * (3 * q) + i" using n by simp
      then have "n div 8 = 3 * q" "n mod 8 = i" using 1 by (simp_all only: div_mult_self4 mod_mult_self4) simp_all
      then show ?thesis using 1 unfolding r(3) q gost_key_stream_def by (simp add: nth_append)
    next
      case 2
      have "n = 8 * (3 * q + 1) + (i - 8)" using n 2 by simp
      then have "n div 8 = 3 * q + 1" "n mod 8 = i - 8" using 2 by (simp_all only: div_mult_self4 mod_mult_self4) simp_all
      moreover have "i - 8 < 8" using 2 by simp
      ultimately show ?thesis using 2 unfolding r(3) q gost_key_stream_def by (simp add: nth_append)
    next
      case 3
      have "n = 8 * (3 * q + 2) + (i - 16)" using n 3 by simp
      then have "n div 8 = 3 * q + 2" "n mod 8 = i - 16" using 3 by (simp_all only: div_mult_self4 mod_mult_self4) simp_all
      moreover have "i - 16 < 8" "\<not> i - 8 < 8" using 3 by simp_all
      ultimately show ?thesis using 3 unfolding r(3) q gost_key_stream_def by (simp add: nth_append)
    qed
  qed
  moreover have "ctr_at c s (Suc n) (fst (ctr_put (t, out) x))"
    using assms r i unfolding ctr_at_def ctr_put_def i_def by (auto intro!: exI[of _ r])
  ultimately show ?thesis by (simp add: ctr_put_def i_def)
qed

lemma ctr_serial_stream:
  assumes "ctr_at c s n t"
  shows "ctr_at c s (n + length xs) (fst (ctr_serial c (t, out) xs)) \<and> snd (ctr_serial c (t, out) xs) = out @ map2 (XOR) xs (map (gost_key_stream c s) [n..<n + length xs])"
  using assms
proof (induction xs arbitrary: n t out)
  case Nil
  then show ?case using ctr_at_norm[OF Nil, of out] by (auto simp: serial_def serial_norm_def ctr_turn_def)
next
  case (Cons x xs)
  define t1 where "t1 = fst (serial_norm 24 (\<lambda>s. ctr_offset (fst s)) (ctr_turn c) (t, out))"
  have t1: "serial_norm 24 (\<lambda>s. ctr_offset (fst s)) (ctr_turn c) (t, out) = (t1, out)"
    by (simp add: t1_def serial_norm_def ctr_turn_def)
  have a: "ctr_at c s n t1" using ctr_at_norm[OF Cons.prems, of out] by (simp add: t1)
  have lt: "ctr_offset t1 < 24" using ctr.off_norm[of "(t, out)" c] Cons.prems by (simp add: t1 ctr_at_def)
  define t2 where "t2 = fst (ctr_put (t1, out) x)"
  have p: "ctr_put (t1, out) x = (t2, out @ [x XOR gost_key_stream c s n])" "ctr_at c s (Suc n) t2"
    using ctr_at_put[OF a lt, of out x] by (simp_all add: t2_def prod_eq_iff)
  have "ctr_serial c (t, out) (x # xs)
      = ctr_serial c (t2, out @ [x XOR gost_key_stream c s n]) xs"
    by (simp add: serial_def t1 p)
  moreover have "[n..<n + length (x # xs)] = n # [Suc n..<Suc n + length xs]" by (simp add: upt_conv_Cons del: upt_Suc)
  ultimately show ?case using Cons.IH[OF p(2), of "out @ [x XOR gost_key_stream c s n]"] by (simp del: upt_Suc)
qed

end
