(* ===== verification/GostFeedback.thy ===== *)
theory GostFeedback
  imports GostModes
begin

text \<open>
  The modes of GOST 28147-89 that feed the cipher text back, feedback encryption and the authentication
  code, as machines that take one byte at a time.
\<close>

subsection \<open>Feedback mode\<close>

definition cfb_put :: "bool \<Rightarrow> Gost28147CfbCtx \<times> u8 list \<Rightarrow> u8 \<Rightarrow> Gost28147CfbCtx \<times> u8 list" where
  "cfb_put e s x = (let t = fst s; y = x XOR cfb_gamma t ! cfb_offset t
     in (t\<lparr>cfb_feed := (cfb_feed t)[cfb_offset t := if e then y else x], cfb_offset := Suc (cfb_offset t)\<rparr>, snd s @ [y]))"

definition cfb_renew :: "Gost28147Ctx \<Rightarrow> Gost28147CfbCtx \<Rightarrow> Gost28147CfbCtx" where
  "cfb_renew c t = t\<lparr>cfb_gamma := on_bytes (gost_enc (gost_sbox c) (gost_key c)) (cfb_feed t)\<rparr>"

definition cfb_turn :: "Gost28147Ctx \<Rightarrow> Gost28147CfbCtx \<times> u8 list \<Rightarrow> Gost28147CfbCtx \<times> u8 list" where
  "cfb_turn c s = ((cfb_renew c (fst s))\<lparr>cfb_offset := 0\<rparr>, snd s)"

abbreviation cfb_serial :: "bool \<Rightarrow> Gost28147Ctx \<Rightarrow> Gost28147CfbCtx \<times> u8 list \<Rightarrow> u8 list \<Rightarrow> Gost28147CfbCtx \<times> u8 list" where
  "cfb_serial e c \<equiv> serial 8 (\<lambda>s. cfb_offset (fst s)) (cfb_turn c) (cfb_put e)"

interpretation cfb: block_stream 8 "\<lambda>s. cfb_offset (fst s)" "cfb_turn c" "cfb_put e" for c e
  by unfold_locales (simp_all add: cfb_put_def cfb_turn_def Let_def)

definition wf_cfb :: "Gost28147CfbCtx \<Rightarrow> bool" where
  "wf_cfb t \<longleftrightarrow> length (cfb_gamma t) = 8 \<and> length (cfb_feed t) = 8 \<and> cfb_offset t \<le> 8"

lemma load_two:
  assumes "length (b :: u8 list) = 8"
  obtains x y :: u32 where "load_words False b = [x, y]"
proof -
  have "length (load_words False b :: u32 list) = 2" using assms by simp
  moreover have "\<exists>x y. ws = [x, y]" if "length ws = 2" for ws :: "u32 list"
    using that by (cases ws; cases "tl ws") simp_all
  ultimately obtain x y :: u32 where "load_words False b = [x, y]" by blast
  then show thesis by (rule that)
qed

lemma cycle8_bytes:
  assumes "length b = 8" "length m = 8" and o: "length order = 32"
  shows "DO (uint8_to_uint32 be (Some b) 8 (Some [0, 0]) 2) (\<lambda>w.
      DO (uint32_to_uint8 be (Some (base_cycle8 w key order 32 sbox)) 2 (Some m) 8) k) = k (on_bytes (gost_pair sbox key order) b)"
proof -
  obtain x y :: u32 where xy: "load_words False b = [x, y]" using load_two[OF assms(1)] .
  have u: "uint8_to_uint32 be (Some b) 8 (Some [0, 0]) 2 = Inr [x, y]" using assms xy by (subst uint8_to_uint32_eq) simp_all
  have w: "uint32_to_uint8 be (Some (base_cycle8 [x, y] key order 32 sbox)) 2 (Some m) 8 = Inr (on_bytes (gost_pair sbox key order) b)"
    unfolding base_cycle8_eq[OF o] using assms by (subst uint32_to_uint8_eq) (simp_all add: on_bytes_def xy del: on_pairs.simps)
  show ?thesis unfolding u DO_simps w ..
qed

lemma cfb_refill_ok: "wf_cfb t \<Longrightarrow> cfb_refill be c t = Inr (cfb_renew c t)"
  by (simp add: cfb_refill_def cfb_renew_def wf_cfb_def cycle8_bytes)

lemma wf_cfb_renew [simp]: "wf_cfb t \<Longrightarrow> wf_cfb (cfb_renew c t)"
  by (simp add: wf_cfb_def cfb_renew_def)

lemma wf_cfb_offset [simp]: "wf_cfb t \<Longrightarrow> i \<le> 8 \<Longrightarrow> wf_cfb (t\<lparr>cfb_offset := i\<rparr>)"
  by (simp add: wf_cfb_def)

lemma cfb_puts:
  "wf_cfb t \<Longrightarrow> cfb_offset t + length xs \<le> 8 \<Longrightarrow>
   foldl (cfb_put e) (t, out) xs = (let ys = map2 (XOR) xs (drop (cfb_offset t) (cfb_gamma t))
     in (t\<lparr>cfb_feed := take (cfb_offset t) (cfb_feed t) @ (if e then ys else xs) @ drop (cfb_offset t + length xs) (cfb_feed t),
           cfb_offset := cfb_offset t + length xs\<rparr>, out @ ys))"
proof (induction xs arbitrary: t out)
  case Nil
  then show ?case by (simp add: wf_cfb_def)
next
  case (Cons x xs)
  let ?o = "cfb_offset t"
  have o: "?o < 8" using Cons.prems by simp
  then have d: "drop ?o (cfb_gamma t) = cfb_gamma t ! ?o # drop (Suc ?o) (cfb_gamma t)"
    using Cons.prems by (simp add: Cons_nth_drop_Suc wf_cfb_def)
  define z where "z = (if e then x XOR cfb_gamma t ! ?o else x)"
  have f: "take (Suc ?o) ((cfb_feed t)[?o := z]) = take ?o (cfb_feed t) @ [z]"
    using o Cons.prems by (simp add: take_Suc_conv_app_nth wf_cfb_def)
  define t' where "t' = t\<lparr>cfb_feed := (cfb_feed t)[?o := z], cfb_offset := Suc ?o\<rparr>"
  have p: "cfb_put e (t, out) x = (t', out @ [x XOR cfb_gamma t ! ?o])"
    by (simp add: cfb_put_def t'_def z_def Let_def)
  have "wf_cfb t'" using Cons.prems o by (simp add: wf_cfb_def t'_def)
  then show ?case using Cons.IH[of t' "out @ [x XOR cfb_gamma t ! ?o]"] Cons.prems f o unfolding foldl_Cons p d
    by (simp add: t'_def Let_def z_def)
qed

lemma length_cfb_serial: "length (snd (cfb_serial e c s xs)) = length (snd s) + length xs"
proof -
  have "length (snd (foldl (\<lambda>s x. serial_norm 8 (\<lambda>s. cfb_offset (fst s)) (cfb_turn c) (cfb_put e s x)) s xs)) = length (snd s) + length xs" for s
    by (induction xs arbitrary: s) (simp_all add: serial_norm_def cfb_put_def cfb_turn_def Let_def)
  then show ?thesis by (simp add: serial_def serial_norm_def cfb_turn_def)
qed

lemma cfb_crypt_ok:
  fixes c e
  assumes wf: "wf_cfb t" and len: "length src = len" "length dst = len"
  defines "r \<equiv> cfb_serial e c (t, []) src"
  shows "gost28147_cfb_core be c t (Some src) len e (Some dst) = Inr (snd r, fst r)"
proof -
  define off where "off = cfb_offset t"
  define n where "n = (if off = 0 then 0 else min (8 - off) (length src))"
  define o1 where "o1 = (if off \<noteq> 0 then xor_gamma 8 (cfb_gamma t) off src else [])"
  have n: "length o1 = n" "off + n \<le> 8" "n \<le> len"
    using wf len by (auto simp: o1_def n_def off_def xor_gamma_eq min_def wf_cfb_def)
  have o1: "map2 (XOR) (take n src) (drop off (cfb_gamma t)) = o1"
  proof (cases "off = 0")
    case False
    have "map2 (XOR) (take n src) (drop off (cfb_gamma t)) = map2 (XOR) src (drop off (cfb_gamma t))"
      by (rule map2_xor_short) (use False wf in \<open>auto simp: n_def wf_cfb_def\<close>)
    then show ?thesis using False wf by (simp add: o1_def off_def xor_gamma_eq wf_cfb_def)
  qed (simp add: o1_def n_def)
  define t0 where "t0 = t\<lparr>cfb_feed := take off (cfb_feed t) @ (if e then o1 else take n src) @ drop (off + n) (cfb_feed t)\<rparr>"
  have st: "cfb_store e t off (take n src) o1 = Inr t0"
    using n wf len by (simp add: cfb_store_def t0_def wf_cfb_def)
  have p: "foldl (cfb_put e) (t, []) (take n src) = (t0\<lparr>cfb_offset := off + n\<rparr>, o1)"
    using n len wf o1 by (subst cfb_puts) (simp_all add: off_def t0_def Let_def)
  have w0: "wf_cfb t0" using wf n len by (simp add: wf_cfb_def t0_def off_def)
  define t1 where "t1 = (if off + n = 8 then cfb_renew c t0 else t0)"
  define off1 where "off1 = (if off + n = 8 then 0 else off + n)"
  have w1: "wf_cfb t1" using w0 by (simp add: t1_def)
  have s1: "serial_norm 8 (\<lambda>s. cfb_offset (fst s)) (cfb_turn c) (foldl (cfb_put e) (t, []) (take n src)) = (t1\<lparr>cfb_offset := off1\<rparr>, o1)"
    unfolding p by (simp add: serial_norm_def cfb_turn_def t1_def off1_def cfb_renew_def)
  have q: "(if off + n = 8 then DO (cfb_refill be c t0) (\<lambda>t. Inr (t, 0)) else Inr (t0, off + n)) = Inr (t1, off1)"
    using w0 by (simp add: t1_def off1_def cfb_refill_ok)
  have rs: "rd src 0 len = Inr src" using len by simp
  note d = gost28147_cfb_core_def[of be c t "Some src" len e "Some dst", unfolded NOT_NULL_simps rs DO_simps Let_def,
    folded off_def, folded o1_def, unfolded n(1) st DO_simps q DO_simps prod.case]
  have LE: "cfb_offset (fst (t, [] :: u8 list)) \<le> 8" using wf by (simp add: wf_cfb_def)
  have N: "n = (if cfb_offset (fst (t, [] :: u8 list)) = 0 then 0 else min (8 - cfb_offset (fst (t, [] :: u8 list))) (length src))"
    by (simp add: n_def off_def)
  note ph = cfb.serial_phases[OF LE N, where c = c and e = e, unfolded s1 len(1), folded r_def]
  show ?thesis
  proof (cases "n < len")
    case True
    have z: "off1 = 0" using ph(1) True by simp
    define f where "f = (\<lambda>(t, out) b. let o1 = map2 (XOR) b (cfb_gamma t)
        in DO (cfb_store e t 0 b o1) (\<lambda>t. DO (cfb_refill be c t) (\<lambda>t. Inr (t, out @ o1))))"
    define view where "view = (\<lambda>s :: Gost28147CfbCtx \<times> u8 list. ((fst s)\<lparr>cfb_offset := 0\<rparr>, snd s))"
    define g where "g = (\<lambda>s b. let o1 = map2 (XOR) b (cfb_gamma (fst s))
        in (cfb_renew c ((fst s)\<lparr>cfb_feed := if e then o1 else b\<rparr>), snd s @ o1))"
    have g: "f s b = Inr (g s b) \<and> wf_cfb (fst (g s b)) \<and> view (g s b) = cfb_turn c (foldl (cfb_put e) (view s) b)"
      if "length b = 8" "wf_cfb (fst s)" for s b
    proof -
      have m: "length (map2 (XOR) b (cfb_gamma (fst s))) = 8" using that by (simp add: wf_cfb_def)
      have a: "cfb_store e (fst s) 0 b (map2 (XOR) b (cfb_gamma (fst s)))
          = Inr ((fst s)\<lparr>cfb_feed := if e then map2 (XOR) b (cfb_gamma (fst s)) else b\<rparr>)"
        using that m by (simp add: cfb_store_def wf_cfb_def)
      have w: "wf_cfb ((fst s)\<lparr>cfb_feed := if e then map2 (XOR) b (cfb_gamma (fst s)) else b\<rparr>)"
        using that m by (simp add: wf_cfb_def)
      have v: "foldl (cfb_put e) (view s) b = ((fst s)\<lparr>cfb_feed := if e then map2 (XOR) b (cfb_gamma (fst s)) else b, cfb_offset := 8\<rparr>,
           snd s @ map2 (XOR) b (cfb_gamma (fst s)))"
        using that m unfolding view_def by (subst cfb_puts) (simp_all add: Let_def wf_cfb_def)
      define w' where "w' = (fst s)\<lparr>cfb_feed := if e then map2 (XOR) b (cfb_gamma (fst s)) else b\<rparr>"
      have "f s b = Inr (cfb_renew c w', snd s @ map2 (XOR) b (cfb_gamma (fst s)))"
        using a w by (simp add: f_def case_prod_beta Let_def cfb_refill_ok w'_def del: if_split_asm)
      moreover have "g s b = (cfb_renew c w', snd s @ map2 (XOR) b (cfb_gamma (fst s)))"
        by (simp add: g_def Let_def w'_def)
      ultimately show ?thesis using w unfolding v by (simp add: view_def cfb_turn_def cfb_renew_def w'_def wf_cfb_def)
    qed
    obtain s2 where b: "for_blocks 8 f src n len (t1, o1) = Inr (s2, n + 8 * ((len - n) div 8))"
        "wf_cfb (fst s2)" and tl: "drop (n + 8 * ((len - n) div 8)) src = tail_of 8 (drop n src)"
        and sim: "view s2 = foldl (\<lambda>s b. cfb_turn c (foldl (cfb_put e) s b)) (view (t1, o1)) (chunks 8 (drop n src))"
      by (rule cfb.for_blocks_stream[where u = "(t1, o1)" and P = "\<lambda>s. wf_cfb (fst s)" and view = view and f = f and c = c and e = e
            and g = g, unfolded len(1)]) (use g w1 n len in auto)
    obtain t2 o2 where t2: "s2 = (t2, o2)" by fastforce
    define xs where "xs = tail_of 8 (drop n src)"
    have xs: "length xs < 8" by (simp add: xs_def)
    define o3 where "o3 = xor_gamma 8 (cfb_gamma t2) 0 xs"
    have o3: "o3 = map2 (XOR) xs (cfb_gamma t2)" "length o3 = length xs"
      using b(2) xs by (simp_all add: o3_def xor_gamma_eq t2 wf_cfb_def)
    have st2: "cfb_store e t2 0 xs o3 = Inr (t2\<lparr>cfb_feed := (if e then o3 else xs) @ drop (length xs) (cfb_feed t2)\<rparr>)"
      using b(2) xs o3 by (simp add: cfb_store_def t2 wf_cfb_def)
    have "r = foldl (cfb_put e) (t2\<lparr>cfb_offset := 0\<rparr>, o2) xs"
      using ph(2) True sim unfolding t2 z view_def xs_def by simp
    also have "\<dots> = (t2\<lparr>cfb_feed := (if e then o3 else xs) @ drop (length xs) (cfb_feed t2), cfb_offset := length xs\<rparr>, o2 @ o3)"
      using b(2) xs o3 by (subst cfb_puts) (simp_all add: t2 Let_def)
    finally have r: "r = \<dots>" .
    have "length (snd r) = len" using len by (simp add: r_def length_cfb_serial)
    moreover note b(1)[unfolded f_def t2 Let_def]
    ultimately show ?thesis using True len(2) z tl r st2 o3(2) unfolding d by (simp flip: xs_def o3_def)
  next
    case False
    have r: "r = (t1\<lparr>cfb_offset := off1\<rparr>, o1)" using ph(3) False by simp
    have "length (snd r) = len" using len by (simp add: r_def length_cfb_serial)
    then show ?thesis using False len(2) r unfolding d by simp
  qed
qed


text \<open>Decryption runs through the states of encryption.\<close>

lemma cfb_serial_roundtrip:
  "\<exists>t' ys. length ys = length xs \<and> (\<forall>a. cfb_serial True c (t, a) xs = (t', a @ ys))
     \<and> (\<forall>a. cfb_serial False c (t, a) ys = (t', a @ xs))"
proof (induction xs arbitrary: t)
  case Nil
  then show ?case by (auto simp: serial_def serial_norm_def cfb_turn_def)
next
  case (Cons x xs)
  define t0 where "t0 = fst (serial_norm 8 (\<lambda>s. cfb_offset (fst s)) (cfb_turn c) (t, [] :: u8 list))"
  have t0: "serial_norm 8 (\<lambda>s. cfb_offset (fst s)) (cfb_turn c) (t, a) = (t0, a)" for a :: "u8 list"
    by (simp add: t0_def serial_norm_def cfb_turn_def)
  define y where "y = x XOR cfb_gamma t0 ! cfb_offset t0"
  define t1 where "t1 = t0\<lparr>cfb_feed := (cfb_feed t0)[cfb_offset t0 := y], cfb_offset := Suc (cfb_offset t0)\<rparr>"
  have e: "cfb_put True (t0, a) x = (t1, a @ [y])" for a by (simp add: cfb_put_def t1_def y_def Let_def)
  have d: "cfb_put False (t0, a) y = (t1, a @ [x])" for a by (simp add: cfb_put_def t1_def y_def Let_def xor.assoc)
  obtain t' ys where IH: "length ys = length xs" "\<And>a. cfb_serial True c (t1, a) xs = (t', a @ ys)"
      "\<And>a. cfb_serial False c (t1, a) ys = (t', a @ xs)" using Cons.IH[of t1] by blast
  have "cfb_serial True c (t, a) (x # xs) = (t', a @ y # ys)" for a
    using IH(2)[of "a @ [y]"] by (simp add: serial_def t0 e)
  moreover have "cfb_serial False c (t, a) (y # ys) = (t', a @ x # xs)" for a
    using IH(3)[of "a @ [x]"] by (simp add: serial_def t0 d)
  ultimately show ?case using IH(1) by (intro exI[of _ t'] exI[of _ "y # ys"]) simp
qed

subsection \<open>Authentication code\<close>

definition mac_cycle :: "Gost28147Ctx \<Rightarrow> u8 list \<Rightarrow> u8 list" where
  "mac_cycle c = on_bytes (feistel (gost_F (gost_sbox c) (gost_key c)) MAC_KEY_ORDER)"

definition mac_put :: "Gost28147MacCtx \<Rightarrow> u8 \<Rightarrow> Gost28147MacCtx" where
  "mac_put t x = t\<lparr>mac_mac := (mac_mac t)[mac_offset t := x XOR mac_mac t ! mac_offset t], mac_offset := Suc (mac_offset t)\<rparr>"

definition mac_turn :: "Gost28147Ctx \<Rightarrow> Gost28147MacCtx \<Rightarrow> Gost28147MacCtx" where
  "mac_turn c t = t\<lparr>mac_mac := mac_cycle c (mac_mac t), mac_offset := 0\<rparr>"

abbreviation mac_serial :: "Gost28147Ctx \<Rightarrow> Gost28147MacCtx \<Rightarrow> u8 list \<Rightarrow> Gost28147MacCtx" where
  "mac_serial c \<equiv> serial 8 mac_offset (mac_turn c) mac_put"

interpretation mac: block_stream 8 mac_offset "mac_turn c" mac_put for c
  by unfold_locales (simp_all add: mac_put_def mac_turn_def)

lemma length_mac_cycle [simp]: "length m = 8 \<Longrightarrow> length (mac_cycle c m) = 8"
  by (simp add: mac_cycle_def)

lemma mac_refill_ok:
  assumes "length m = 8"
  shows "mac_refill be c m = Inr (mac_cycle c m)"
proof -
  obtain x y :: u32 where xy: "load_words False m = [x, y]" using load_two[OF assms] .
  have u: "uint8_to_uint32 be (Some m) 8 (Some [0, 0]) 2 = Inr [x, y]" using assms xy by (subst uint8_to_uint32_eq) simp_all
  have "base_cycle8 [x, y] (gost_key c) MAC_KEY_ORDER 16 (gost_sbox c)
      = on_pairs (feistel (gost_F (gost_sbox c) (gost_key c)) MAC_KEY_ORDER) [x, y]"
    by (simp add: base_cycle8_def cycle8_feistel Let_def)
  then show ?thesis
    using assms by (simp add: mac_refill_def u uint32_to_uint8_eq mac_cycle_def on_bytes_def xy del: on_pairs.simps)
qed

lemma mac_puts:
  "length (mac_mac t) = 8 \<Longrightarrow> mac_offset t + length xs \<le> 8 \<Longrightarrow> foldl mac_put t xs
   = t\<lparr>mac_mac := take (mac_offset t) (mac_mac t) @ map2 (XOR) xs (drop (mac_offset t) (mac_mac t)) @ drop (mac_offset t + length xs) (mac_mac t),
      mac_offset := mac_offset t + length xs\<rparr>"
proof (induction xs arbitrary: t)
  case (Cons x xs)
  let ?o = "mac_offset t"
  have o: "?o < 8" using Cons.prems by simp
  then have d: "drop ?o (mac_mac t) = mac_mac t ! ?o # drop (Suc ?o) (mac_mac t)"
    using Cons.prems by (simp add: Cons_nth_drop_Suc)
  have f: "take (Suc ?o) ((mac_mac t)[?o := z]) = take ?o (mac_mac t) @ [z]" for z
    using o Cons.prems by (simp add: take_Suc_conv_app_nth)
  show ?case using Cons.IH[of "mac_put t x"] Cons.prems f o unfolding foldl_Cons d by (simp add: mac_put_def[of t x])
qed simp

lemma mac_absorb_ok:
  assumes m: "length (mac_mac t) = 8" "mac_offset t \<le> 8"
  shows "mac_absorb be c t src = Inr (mac_serial c t src)"
proof -
  define len where "len = length src"
  define off where "off = mac_offset t"
  define n where "n = (if off = 0 then 0 else min (8 - off) (length src))"
  define o1 where "o1 = (if off \<noteq> 0 then xor_gamma 8 (mac_mac t) off src else [])"
  have n: "length o1 = n" "off + n \<le> 8" "n \<le> len"
    using m by (auto simp: o1_def n_def off_def xor_gamma_eq min_def len_def)
  have o1: "map2 (XOR) (take n src) (drop off (mac_mac t)) = o1"
  proof (cases "off = 0")
    case False
    have "map2 (XOR) (take n src) (drop off (mac_mac t)) = map2 (XOR) src (drop off (mac_mac t))"
      by (rule map2_xor_short) (use False m in \<open>auto simp: n_def\<close>)
    then show ?thesis using False m by (simp add: o1_def off_def xor_gamma_eq)
  qed (simp add: o1_def n_def)
  define m0 where "m0 = take off (mac_mac t) @ o1 @ drop (off + n) (mac_mac t)"
  have w: "wr (mac_mac t) off o1 = Inr m0" using n m by (simp add: m0_def)
  have l0: "length m0 = 8" using n m by (simp add: m0_def)
  have p: "foldl mac_put t (take n src) = \<lparr>mac_offset = off + n, mac_mac = m0\<rparr>"
    using n m o1 by (subst mac_puts) (simp_all add: off_def m0_def len_def)
  define m1 where "m1 = (if off + n = 8 then mac_cycle c m0 else m0)"
  define off1 where "off1 = (if off + n = 8 then 0 else off + n)"
  have l1: "length m1 = 8" using l0 by (simp add: m1_def)
  have s1: "serial_norm 8 mac_offset (mac_turn c) (foldl mac_put t (take n src)) = \<lparr>mac_offset = off1, mac_mac = m1\<rparr>"
    unfolding p by (simp add: serial_norm_def mac_turn_def m1_def off1_def)
  have q: "(if off + n = 8 then DO (mac_refill be c m0) (\<lambda>m. Inr (m, 0)) else Inr (m0, off + n)) = Inr (m1, off1)"
    using l0 by (simp add: m1_def off1_def mac_refill_ok)
  note d = mac_absorb_def[of be c t src, unfolded Let_def, folded off_def, folded o1_def, unfolded n(1) w DO_simps q prod.case,
    folded len_def]
  have N: "n = (if mac_offset t = 0 then 0 else min (8 - mac_offset t) (length src))" by (simp add: n_def off_def)
  note ph = mac.serial_phases[OF m(2) N, where c = c, unfolded s1, folded len_def]
  show ?thesis
  proof (cases "n < len")
    case True
    have z: "off1 = 0" using ph(1) True by simp
    obtain m2 where b: "for_blocks 8 (\<lambda>m b. mac_refill be c (map2 (XOR) b m)) src n len m1 = Inr (m2, n + 8 * ((len - n) div 8))"
        "length m2 = 8" and tl: "drop (n + 8 * ((len - n) div 8)) src = tail_of 8 (drop n src)"
        and sim: "\<lparr>mac_offset = 0, mac_mac = m2\<rparr> = foldl (\<lambda>s b. mac_turn c (foldl mac_put s b)) \<lparr>mac_offset = 0, mac_mac = m1\<rparr> (chunks 8 (drop n src))"
      by (rule mac.for_blocks_stream[where u = m1 and P = "\<lambda>m. length m = 8" and view = "\<lambda>m. \<lparr>mac_offset = 0, mac_mac = m\<rparr>"
            and f = "\<lambda>m b. mac_refill be c (map2 (XOR) b m)" and c = c and g = "\<lambda>m b. mac_cycle c (map2 (XOR) b m)" and xs = src and n = n,
            folded len_def]) (use l1 n in \<open>auto simp: mac_refill_ok mac_puts mac_turn_def\<close>)
    define xs where "xs = tail_of 8 (drop n src)"
    have xs: "length xs < 8" by (simp add: xs_def)
    have "mac_serial c t src = foldl mac_put \<lparr>mac_offset = 0, mac_mac = m2\<rparr> xs"
      using ph(2) True sim unfolding z xs_def by simp
    also have "\<dots> = \<lparr>mac_offset = length xs, mac_mac = map2 (XOR) xs m2 @ drop (length xs) m2\<rparr>"
      using b(2) xs by (subst mac_puts) simp_all
    finally have r: "mac_serial c t src = \<dots>" .
    have "xor_gamma 8 m2 0 xs = map2 (XOR) xs m2" using b(2) by (simp add: xor_gamma_eq)
    then show ?thesis using True z tl r b xs unfolding d by (simp flip: xs_def)
  next
    case False
    then show ?thesis using ph(3) unfolding d by simp
  qed
qed

text \<open>The authentication code of the standard: the message is completed by zeros to whole blocks.\<close>

definition gost_mac :: "Gost28147Ctx \<Rightarrow> u8 list \<Rightarrow> u8 list" where
  "gost_mac c m = foldl (\<lambda>s b. mac_cycle c (map2 (XOR) b s)) (replicate 8 0) (chunks 8 (m @ replicate ((8 - length m mod 8) mod 8) 0))"

definition mac_start :: Gost28147MacCtx where
  "mac_start = \<lparr>mac_offset = 0, mac_mac = replicate 8 0\<rparr>"

lemma mac_serial_message:
  defines "s \<equiv> \<lambda>c m. foldl (\<lambda>s b. mac_cycle c (map2 (XOR) b s)) (replicate 8 0) (chunks 8 m)"
  shows "mac_serial c mac_start m = \<lparr>mac_offset = length m mod 8,
      mac_mac = map2 (XOR) (tail_of 8 m) (s c m) @ drop (length m mod 8) (s c m)\<rparr> \<and> length (s c m) = 8"
proof -
  have "\<lparr>mac_offset = 0, mac_mac = s c m\<rparr> = foldl (\<lambda>s b. mac_turn c (foldl mac_put s b)) mac_start (chunks 8 m) \<and> length (s c m) = 8"
    using foldl_simulation[where R = "\<lambda>m. \<lparr>mac_offset = 0, mac_mac = m\<rparr>" and P = "\<lambda>m. length m = 8" and bs = "chunks 8 m"
        and g = "\<lambda>s b. mac_cycle c (map2 (XOR) b s)" and h = "\<lambda>s b. mac_turn c (foldl mac_put s b)" and s = "replicate 8 0"]
    by (simp add: s_def mac_puts mac_turn_def mac_start_def length_in_chunks)
  moreover have "foldl mac_put \<lparr>mac_offset = 0, mac_mac = s c m\<rparr> (tail_of 8 m)
      = \<lparr>mac_offset = length m mod 8, mac_mac = map2 (XOR) (tail_of 8 m) (s c m) @ drop (length m mod 8) (s c m)\<rparr>" if "length (s c m) = 8"
    using that by (subst mac_puts) simp_all
  ultimately show ?thesis using mac.serial_blocks(1)[of mac_start c m] by (simp add: mac_start_def)
qed

lemma gost_mac_final:
  assumes "t = mac_serial c mac_start m"
  shows "gost_mac c m = (if mac_offset t \<noteq> 0 then mac_cycle c (mac_mac t) else mac_mac t)"
proof -
  define s where "s = foldl (\<lambda>s b. mac_cycle c (map2 (XOR) b s)) (replicate 8 0) (chunks 8 m)"
  define r where "r = length m mod 8"
  have r: "r < 8" by (simp add: r_def)
  have t: "t = \<lparr>mac_offset = r, mac_mac = map2 (XOR) (tail_of 8 m) s @ drop r s\<rparr>" and l: "length s = 8"
    using mac_serial_message[of c m] by (simp_all add: assms s_def r_def)
  show ?thesis
  proof (cases "r = 0")
    case True
    then have "tail_of 8 m = []" by (simp add: r_def flip: length_0_conv)
    then show ?thesis using True by (simp add: t gost_mac_def s_def flip: r_def)
  next
    case False
    define b where "b = tail_of 8 m @ replicate (8 - r) 0"
    have z: "(8 - length m mod 8) mod 8 = 8 - r" using False r by (simp flip: r_def)
    have b8: "length b = 8" using r by (simp add: b_def r_def)
    have "chunks 8 (m @ replicate (8 - r) 0) = chunks 8 m @ [b]"
      using chunks_tail_append(1)[of 8 m "replicate (8 - r) 0"] chunks_block[of b 8 "[]"] b8 by (simp add: b_def)
    then have "gost_mac c m = mac_cycle c (map2 (XOR) b s)" by (simp only: gost_mac_def z foldl_append foldl_Cons foldl_Nil s_def)
    moreover have "map2 (XOR) b s = map2 (XOR) (tail_of 8 m) s @ drop r s"
      using l r by (intro nth_equalityI) (auto simp: b_def nth_append r_def)
    ultimately show ?thesis using False by (simp add: t)
  qed
qed

end
