(* ===== verification/GostApi.thy ===== *)
theory GostApi
  imports GostFeedback
begin

text \<open>
  The interface of \<^verbatim>\<open>gost28147.c\<close>: what the calls of a program compute, over any sequence of fragments,
  and that no sequence of calls leaves the invariant of the contexts or reads outside an object.
\<close>

subsection \<open>The substitution of the standard\<close>

text \<open>The eight nibbles of a word go through a row of the table each; the result is rotated by 11.\<close>

definition gost_substitute :: "u8 list \<Rightarrow> u32 \<Rightarrow> u32" where
  "gost_substitute s x = foldr (\<lambda>r w. push_bit (4 * r) (ucast (s ! (16 * r + unat (drop_bit (4 * r) x AND 0xf)))) OR w) [0..<8] 0"

definition sbox_rows :: "u8 list \<Rightarrow> u8 list list" where
  "sbox_rows s = map (\<lambda>r. take 16 (drop (16 * r) s)) [0..<8]"

text \<open>Every row is a permutation of the sixteen nibbles.\<close>

definition sbox_ok :: "u8 list \<Rightarrow> bool" where
  "sbox_ok s \<longleftrightarrow> length s = 128 \<and> list_all (\<lambda>r. distinct (map unat r) \<and> list_all (\<lambda>x. unat x < 16) r) (sbox_rows s)"

lemma upto_four: "[0..<4] = [0, 1, 2, 3 :: nat]"
  by (simp add: upt_rec)

lemma nth_expand_sbox:
  assumes "k < 4" "i < 256"
  shows "expand_sbox s ! (256 * k + i) = sbox_entry s k i"
proof -
  have "expand_sbox s = map (sbox_entry s 0) [0..<256] @ map (sbox_entry s 1) [0..<256] @ map (sbox_entry s 2) [0..<256]
      @ map (sbox_entry s 3) [0..<256]"
    unfolding expand_sbox_def upto_four by simp
  moreover have "k = 0 \<or> k = 1 \<or> k = 2 \<or> k = 3" using assms(1) by linarith
  ultimately show ?thesis using assms(2) by (elim disjE) (simp_all add: nth_append)
qed

lemma length_expand_sbox [simp]: "length (expand_sbox s) = 1024"
  unfolding expand_sbox_def upto_four by simp

text \<open>The nibbles of a byte of the argument.\<close>

lemma nibbles_of_byte:
  fixes x :: u32
  defines "b \<equiv> \<lambda>n. unat (drop_bit n x AND 0xff)"
  shows "b n < 256" and "b n div 16 = unat (drop_bit (n + 4) x AND 0xf)" and "b n mod 16 = unat (drop_bit n x AND 0xf)"
proof -
  have m: "w AND 0xff = take_bit 8 w" "w AND 0xf = take_bit 4 w" for w :: u32
    by (simp_all add: take_bit_eq_mask mask_eq_exp_minus_1)
  have b: "b n = unat (drop_bit n x) mod 256" unfolding b_def m unsigned_take_bit_eq by (simp add: take_bit_eq_mod)
  show "b n < 256" by (simp add: b)
  have d: "unat (drop_bit (n + 4) x) = unat (drop_bit n x) div 16"
    unfolding unat_drop_bit_eq unfolding drop_bit_eq_div by (simp add: power_add div_mult2_eq)
  show "b n div 16 = unat (drop_bit (n + 4) x AND 0xf)"
    using mod_mult2_eq[of "unat (drop_bit n x)" 16 16] unfolding b m unsigned_take_bit_eq d by (simp add: take_bit_eq_mod)
  show "b n mod 16 = unat (drop_bit n x AND 0xf)"
    unfolding b m unsigned_take_bit_eq by (simp add: take_bit_eq_mod mod_mod_cancel)
qed

lemma rotl_11: "push_bit 11 v OR drop_bit 21 v = word_rotl 11 (v :: u32)"
proof (rule bit_word_eqI)
  fix n assume "n < LENGTH(32)"
  then have n: "n < 32" by simp
  have i: "(n + 21) mod 32 = (if n < 11 then n + 21 else n - 11)"
  proof (cases "n < 11")
    case False
    then have "n + 21 = (n - 11) + 32" by simp
    then have "(n + 21) mod 32 = (n - 11 + 32) mod 32" by (rule arg_cong)
    then show ?thesis unfolding mod_add_self2 using n False by simp
  qed simp
  have "\<not> bit v (21 + n)" if "11 \<le> n" using that bit_imp_le_length[of v "21 + n"] by auto
  then show "bit (push_bit 11 v OR drop_bit 21 v) n = bit (word_rotl 11 v) n" using n i by (auto simp: bit_simps add.commute)
qed

lemma rotl_or: "word_rotl n (v OR w) = word_rotl n v OR word_rotl n (w :: u32)"
  by (rule bit_word_eqI) (auto simp: bit_simps)

lemma sbox_entry_eq: "sbox_entry s k i
   = word_rotl 11 (push_bit (8 * k + 4) (ucast (s ! (32 * k + 16 + i div 16))) OR push_bit (8 * k) (ucast (s ! (32 * k + i mod 16))))"
  by (simp add: sbox_entry_def rotl_11 push_bit_or add.commute)

lemma gost_round_word: "SBOX_TRANSFORM (expand_sbox s) x = word_rotl 11 (gost_substitute s x)"
proof -
  have e: "expand_sbox s ! (256 * k + unat (drop_bit (8 * k) x AND 0xff))
      = word_rotl 11 (push_bit (8 * k + 4) (ucast (s ! (32 * k + 16 + unat (drop_bit (8 * k + 4) x AND 0xf))))
          OR push_bit (8 * k) (ucast (s ! (32 * k + unat (drop_bit (8 * k) x AND 0xf)))))" if "k < 4" for k
    using nibbles_of_byte[of "8 * k" x] that by (simp add: nth_expand_sbox sbox_entry_eq)
  have "[0..<8] = [0, 1, 2, 3, 4, 5, 6, 7 :: nat]" by (simp add: upt_rec)
  then show ?thesis
    using e[of 0] e[of 1] e[of 2] e[of 3] unfolding SBOX_TRANSFORM_def gost_substitute_def
    by (simp add: rotl_or ac_simps)
qed


subsection \<open>The invariant of a context\<close>

definition wf_gost_mode :: "Gost28147Mode \<Rightarrow> bool" where
  "wf_gost_mode m = (case m of
       MODE_CTR t \<Rightarrow> ctr_offset t \<le> 24 \<and> length (ctr_gamma t) = 24 \<and> length (ctr_feed t) = 6
     | MODE_CFB t \<Rightarrow> wf_cfb t
     | MODE_MAC t \<Rightarrow> mac_offset t < 8 \<and> length (mac_mac t) = 8
     | _ \<Rightarrow> True)"

definition wf_gost :: "Gost28147Ctx \<Rightarrow> bool" where
  "wf_gost c \<longleftrightarrow> wf_gost_mode (gost_mode c) \<and> length (gost_sbox c) = 1024 \<and> length (gost_key c) = 8
     \<and> wf_ba (gost_sbox128 c) \<and> ba_len (gost_sbox128 c) = 128"

lemma wf_gost_simps [simp]:
  "wf_gost (c\<lparr>gost_mode := m\<rparr>) \<longleftrightarrow> wf_gost_mode m \<and> length (gost_sbox c) = 1024 \<and> length (gost_key c) = 8
     \<and> wf_ba (gost_sbox128 c) \<and> ba_len (gost_sbox128 c) = 128"
  by (simp add: wf_gost_def)

lemma ba_to_key_ok: "length k = 32 \<Longrightarrow> length old = 8 \<Longrightarrow> ba_to_uint32 M (Some (mk_ba k)) (Some old) 8 = Inr (load_words False k)"
  by (simp add: ba_to_uint32_def uint8_to_uint32_eq)

subsection \<open>What the calls compute\<close>

lemma init_ecb_ok:
  "wf_gost c \<Longrightarrow> length k = 32 \<Longrightarrow> gost28147_init_ecb M (Some c) (Some (mk_ba k))
   = (Inr (), Some (c\<lparr>gost_mode := MODE_ECB, gost_key := load_words False k, gost_inited := True\<rparr>))"
  by (simp add: gost28147_init_ecb_def Let_def ba_to_key_ok wf_gost_def ba_get_len_def)

lemma crypt_ecb_ok:
  assumes "mem_ok M" "gost_inited c" "gost_mode c = MODE_ECB" "8 dvd length m"
  shows "gost28147_crypt e M (Some c) (Some (mk_ba m)) = (Inr (mk_ba (ecb_cipher c e m)), Some c)"
proof -
  have "4 dvd length m" using assms(4) by (auto elim: dvd_trans[rotated])
  then show ?thesis using assms
    by (simp add: gost28147_crypt_def Let_def ba_get_buf_const_def ecb_core_ok gost_output_def ba_alloc_eq dvd_eq_mod_eq_0[symmetric])
qed

text \<open>The two halves of the initialisation vector, and the counter context it gives.\<close>

definition iv_pair :: "u8 list \<Rightarrow> u32 \<times> u32" where
  "iv_pair v = (load_words False v ! 0, load_words False v ! 1)"

lemma init_ctr_ok:
  assumes "wf_gost c" "length k = 32" "length v = 8"
  shows "\<exists>t. gost28147_init_ctr M (Some c) (Some (mk_ba k)) (Some (mk_ba v))
      = (Inr (), Some (c\<lparr>gost_mode := MODE_CTR t, gost_key := load_words False k, gost_inited := True\<rparr>))
    \<and> ctr_at d (gost_enc (gost_sbox c) (load_words False k) (iv_pair v)) 0 t \<and> length (ctr_feed t) = 6"
proof -
  obtain x y :: u32 where xy: "load_words False v = [x, y]" using load_two[OF assms(3)] .
  let ?f = "drop 4 (load_words (big_endian M) (fresh M 24)) :: u32 list"
  have l: "length ?f = 2" by simp
  have u: "uint8_to_uint32 (big_endian M) (Some v) 8 (Some ?f) 2 = Inr [x, y]"
    using assms xy by (subst uint8_to_uint32_eq) simp_all
  have b: "base_cycle8 [x, y] (load_words False k) ENCRYPT_KEY_ORDER 32 (gost_sbox c)
      = (let e = gost_enc (gost_sbox c) (load_words False k) (x, y) in [fst e, snd e])"
    by (simp add: base_cycle8_eq Let_def)
  let ?e = "gost_enc (gost_sbox c) (load_words False k) (x, y)"
  show ?thesis using assms u b
    by (intro exI[of _ "\<lparr>ctr_offset = 24, ctr_gamma = fresh M 24, ctr_feed = take 4 (load_words (big_endian M) (fresh M 24)) @ [fst ?e, snd ?e]\<rparr>"])
      (simp add: gost28147_init_ctr_def Let_def ba_to_key_ok wf_gost_def ba_get_buf_const_def ctr_at_def iv_pair_def xy nth_append)
qed

lemma init_cfb_ok:
  assumes "wf_gost c" "length k = 32" "length v = 8"
  shows "\<exists>t. gost28147_init_cfb M (Some c) (Some (mk_ba k)) (Some (mk_ba v))
      = (Inr (), Some (c\<lparr>gost_mode := MODE_CFB t, gost_key := load_words False k, gost_inited := True\<rparr>)) \<and> wf_cfb t"
  using assms by (intro exI[of _ "\<lparr>cfb_offset = 8, cfb_gamma = fresh M 8, cfb_feed = v\<rparr>"])
    (simp add: gost28147_init_cfb_def Let_def ba_to_key_ok wf_gost_def ba_to_uint8_eq wf_cfb_def)

lemma init_mac_ok:
  "wf_gost c \<Longrightarrow> length k = 32 \<Longrightarrow> gost28147_init_mac M (Some c) (Some (mk_ba k))
   = (Inr (), Some (c\<lparr>gost_mode := MODE_MAC mac_start, gost_key := load_words False k, gost_inited := True\<rparr>))"
  by (simp add: gost28147_init_mac_def Let_def ba_to_key_ok wf_gost_def mac_start_def)

lemma crypt_ctr_ok:
  assumes "mem_ok M" "gost_inited c" "gost_mode c = MODE_CTR t" "length (ctr_gamma t) = 24" "ctr_offset t \<le> 24"
  shows "gost28147_crypt e M (Some c) (Some (mk_ba m)) = (let r = ctr_serial c (t, []) m
     in (Inr (mk_ba (snd r)), Some (c\<lparr>gost_mode := MODE_CTR (fst r)\<rparr>)))"
  using assms by (simp add: gost28147_crypt_def Let_def ba_get_buf_const_def ctr_crypt_ok gost_output_def ba_alloc_eq length_ctr_serial)

lemma crypt_cfb_ok:
  assumes "mem_ok M" "gost_inited c" "gost_mode c = MODE_CFB t" "wf_cfb t"
  shows "gost28147_crypt e M (Some c) (Some (mk_ba m)) = (let r = cfb_serial e c (t, []) m
     in (Inr (mk_ba (snd r)), Some (c\<lparr>gost_mode := MODE_CFB (fst r)\<rparr>)))"
  using assms by (simp add: gost28147_crypt_def Let_def ba_get_buf_const_def cfb_crypt_ok gost_output_def ba_alloc_eq length_cfb_serial)


subsection \<open>Sequences of fragments\<close>

lemma wf_cfb_serial:
  assumes "wf_cfb (fst s)"
  shows "wf_cfb (fst (cfb_serial e c s xs))"
proof -
  have "wf_cfb (fst (cfb_serial e c s xs)) \<longleftrightarrow> length (cfb_gamma (fst (cfb_serial e c s xs))) = 8 \<and> length (cfb_feed (fst (cfb_serial e c s xs))) = 8"
    using cfb.off_serial[of s c e xs] assms by (auto simp: wf_cfb_def)
  moreover have "length (cfb_gamma (fst s)) = 8 \<and> length (cfb_feed (fst s)) = 8 \<Longrightarrow>
      length (cfb_gamma (fst (foldl (\<lambda>s x. serial_norm 8 (\<lambda>s. cfb_offset (fst s)) (cfb_turn c) (cfb_put e s x)) s xs))) = 8
    \<and> length (cfb_feed (fst (foldl (\<lambda>s x. serial_norm 8 (\<lambda>s. cfb_offset (fst s)) (cfb_turn c) (cfb_put e s x)) s xs))) = 8" for s
    by (induction xs arbitrary: s) (simp_all add: serial_norm_def cfb_put_def cfb_turn_def cfb_renew_def Let_def)
  ultimately show ?thesis using assms by (simp add: serial_def serial_norm_def cfb_turn_def cfb_renew_def wf_cfb_def)
qed

lemma cfb_serial_out: "snd (cfb_serial e c (t, out) xs) = out @ snd (cfb_serial e c (t, []) xs)"
proof -
  have *: "foldl (\<lambda>s x. serial_norm 8 (\<lambda>s. cfb_offset (fst s)) (cfb_turn c) (cfb_put e s x)) (t, out) xs
      = (\<lambda>r. (fst r, out @ snd r)) (foldl (\<lambda>s x. serial_norm 8 (\<lambda>s. cfb_offset (fst s)) (cfb_turn c) (cfb_put e s x)) (t, []) xs)" for t out
  proof (induction xs rule: rev_induct)
    case (snoc x xs)
    then show ?case by (simp add: serial_norm_def cfb_put_def cfb_turn_def Let_def)
  qed simp
  define t0 where "t0 = fst (serial_norm 8 (\<lambda>s. cfb_offset (fst s)) (cfb_turn c) (t, [] :: u8 list))"
  have "serial_norm 8 (\<lambda>s. cfb_offset (fst s)) (cfb_turn c) (t, a) = (t0, a)" for a :: "u8 list"
    by (simp add: t0_def serial_norm_def cfb_turn_def)
  then show ?thesis using *[of t0 out] by (simp add: serial_def)
qed

text \<open>A program encrypts fragments one after the other with one context.\<close>

primrec gost_stream :: "(Gost28147Ctx option \<Rightarrow> ByteArray option \<Rightarrow> ByteArray res \<times> Gost28147Ctx option)
    \<Rightarrow> Gost28147Ctx option \<Rightarrow> ByteArray list \<Rightarrow> ByteArray list res \<times> Gost28147Ctx option" where
  "gost_stream f ctx [] = (Inr [], ctx)"
| "gost_stream f ctx (a # as) = (let (r, ctx) = f ctx (Some a) in DO_ST r ctx (\<lambda>out.
     let (r, ctx) = gost_stream f ctx as in DO_ST r ctx (\<lambda>outs. (Inr (out # outs), ctx))))"

lemma gost_stream_ctr:
  assumes "mem_ok M" "ctr_at d s n t" "gost_inited c" "gost_mode c = MODE_CTR t" "gost_sbox c = gost_sbox d" "gost_key c = gost_key d"
  shows "\<exists>outs c'. gost_stream (gost28147_crypt e M) (Some c) (map mk_ba ms) = (Inr (map mk_ba outs), Some c')
    \<and> map length outs = map length ms
    \<and> concat outs = map2 (XOR) (concat ms) (map (gost_key_stream d s) [n..<n + length (concat ms)])"
  using assms(2-)
proof (induction ms arbitrary: c t n)
  case Nil
  then show ?case by simp
next
  case (Cons m ms)
  have turn: "ctr_turn c = ctr_turn d" using Cons.prems(4,5) by (intro ext) (simp add: ctr_turn_def ctr_renew_def)
  define r where "r = ctr_serial d (t, []) m"
  have c1: "gost28147_crypt e M (Some c) (Some (mk_ba m)) = (Inr (mk_ba (snd r)), Some (c\<lparr>gost_mode := MODE_CTR (fst r)\<rparr>))"
    using crypt_ctr_ok[OF assms(1) Cons.prems(2,3)] Cons.prems(1) by (simp add: ctr_at_def turn r_def Let_def)
  have r: "ctr_at d s (n + length m) (fst r)" "snd r = map2 (XOR) m (map (gost_key_stream d s) [n..<n + length m])"
    using ctr_serial_stream[OF Cons.prems(1), where out = "[]" and xs = m] by (simp_all add: r_def)
  obtain outs c' where IH: "gost_stream (gost28147_crypt e M) (Some (c\<lparr>gost_mode := MODE_CTR (fst r)\<rparr>)) (map mk_ba ms) = (Inr (map mk_ba outs), Some c')"
      "map length outs = map length ms"
      "concat outs = map2 (XOR) (concat ms) (map (gost_key_stream d s) [n + length m..<n + length m + length (concat ms)])"
    using Cons.IH[OF r(1), of "c\<lparr>gost_mode := MODE_CTR (fst r)\<rparr>"] Cons.prems by auto
  have "[n..<n + length (concat (m # ms))] = [n..<n + length m] @ [n + length m..<n + length m + length (concat ms)]"
    using upt_add_eq_append[of n "n + length m" "length (concat ms)"] by (simp add: add.assoc)
  then have "concat (snd r # outs) = map2 (XOR) (concat (m # ms)) (map (gost_key_stream d s) [n..<n + length (concat (m # ms))])"
    using IH(3) r(2) by simp
  moreover have "length (snd r) = length m" by (simp add: r_def length_ctr_serial)
  ultimately show ?case using c1 IH(1,2) by (intro exI[of _ "snd r # outs"] exI[of _ c']) simp
qed

lemma gost_stream_cfb:
  assumes "mem_ok M" "gost_inited c" "gost_mode c = MODE_CFB t" "wf_cfb t"
  shows "\<exists>outs c'. gost_stream (gost28147_crypt e M) (Some c) (map mk_ba ms) = (Inr (map mk_ba outs), Some c')
    \<and> map length outs = map length ms \<and> concat outs = snd (cfb_serial e c (t, []) (concat ms))"
  using assms(2-)
proof (induction ms arbitrary: c t)
  case Nil
  then show ?case by (simp add: serial_def serial_norm_def cfb_turn_def)
next
  case (Cons m ms)
  define r where "r = cfb_serial e c (t, []) m"
  let ?c = "c\<lparr>gost_mode := MODE_CFB (fst r)\<rparr>"
  have c1: "gost28147_crypt e M (Some c) (Some (mk_ba m)) = (Inr (mk_ba (snd r)), Some ?c)"
    using crypt_cfb_ok[OF assms(1) Cons.prems] by (simp add: r_def Let_def)
  have w: "wf_cfb (fst r)" unfolding r_def by (rule wf_cfb_serial) (use Cons.prems in simp)
  have turn: "cfb_turn ?c = cfb_turn c" by (intro ext) (simp add: cfb_turn_def cfb_renew_def)
  obtain outs c' where IH: "gost_stream (gost28147_crypt e M) (Some ?c) (map mk_ba ms) = (Inr (map mk_ba outs), Some c')"
      "map length outs = map length ms" "concat outs = snd (cfb_serial e c (fst r, []) (concat ms))"
    using Cons.IH[of ?c "fst r"] Cons.prems w turn by auto
  have "snd (cfb_serial e c (t, []) (concat (m # ms))) = snd r @ snd (cfb_serial e c (fst r, []) (concat ms))"
    using cfb.serial_append[where s = "(t, [])" and c = c and e = e and xs = m and ys = "concat ms"] cfb_serial_out[where e = e and c = c and t = "fst r" and out = "snd r" and xs = "concat ms"] Cons.prems
    by (simp add: r_def wf_cfb_def)
  moreover have "length (snd r) = length m" by (simp add: r_def length_cfb_serial)
  ultimately show ?case using c1 IH by (intro exI[of _ "snd r # outs"] exI[of _ c']) simp
qed


primrec gost_mac_feed :: "mem \<Rightarrow> Gost28147Ctx option \<Rightarrow> ByteArray list \<Rightarrow> unit res \<times> Gost28147Ctx option" where
  "gost_mac_feed M ctx [] = (Inr (), ctx)"
| "gost_mac_feed M ctx (a # as) = (let (r, ctx) = gost28147_update_mac M ctx (Some a) in DO_ST r ctx (\<lambda>_. gost_mac_feed M ctx as))"

lemma length_mac_serial: "length (mac_mac t) = 8 \<Longrightarrow> length (mac_mac (mac_serial c t xs)) = 8"
proof -
  have "length (mac_mac t) = 8 \<Longrightarrow> length (mac_mac (foldl (\<lambda>s x. serial_norm 8 mac_offset (mac_turn c) (mac_put s x)) t xs)) = 8" for t
    by (induction xs arbitrary: t) (simp_all add: serial_norm_def mac_put_def mac_turn_def)
  then show "length (mac_mac t) = 8 \<Longrightarrow> length (mac_mac (mac_serial c t xs)) = 8"
    by (simp add: serial_def serial_norm_def mac_turn_def)
qed

lemma update_mac_ok:
  assumes "gost_inited c" "gost_mode c = MODE_MAC t" "length (mac_mac t) = 8" "mac_offset t \<le> 8" "wf_ba a"
  shows "gost28147_update_mac M (Some c) (Some a) = (Inr (), Some (c\<lparr>gost_mode := MODE_MAC (mac_serial c t (data a))\<rparr>))"
  using assms by (simp add: gost28147_update_mac_def mac_absorb_ok)

lemma gost_mac_feed_ok:
  assumes "gost_inited c" "gost_mode c = MODE_MAC t" "length (mac_mac t) = 8" "mac_offset t \<le> 8" "\<forall>a \<in> set as. wf_ba a"
  shows "gost_mac_feed M (Some c) as = (Inr (), Some (c\<lparr>gost_mode := MODE_MAC (foldl (mac_serial c) t (map data as))\<rparr>))"
  using assms
proof (induction as arbitrary: c t)
  case Nil
  then show ?case by simp
next
  case (Cons a as)
  let ?t = "mac_serial c t (data a)" and ?c = "c\<lparr>gost_mode := MODE_MAC (mac_serial c t (data a))\<rparr>"
  have u: "gost28147_update_mac M (Some c) (Some a) = (Inr (), Some ?c)" using Cons.prems by (intro update_mac_ok) simp_all
  have turn: "mac_turn ?c = mac_turn c" by (intro ext) (simp add: mac_turn_def mac_cycle_def)
  have l: "length (mac_mac ?t) = 8" using Cons.prems by (simp add: length_mac_serial)
  have o: "mac_offset ?t \<le> 8" using mac.off_serial[of t c "data a"] Cons.prems by simp
  show ?case using u Cons.IH[of ?c ?t] Cons.prems l o turn by simp
qed

lemma foldl_mac_serial:
  "mac_offset t \<le> 8 \<Longrightarrow> mac_offset t \<noteq> 8 \<Longrightarrow> foldl (mac_serial c) t xss = mac_serial c t (concat xss)"
proof (induction xss arbitrary: t)
  case Nil
  then show ?case by (simp add: serial_def serial_norm_def)
next
  case (Cons xs xss)
  have "mac_offset (mac_serial c t xs) < 8" using mac.off_serial Cons.prems by blast
  then show ?case using Cons.IH[of "mac_serial c t xs"] Cons.prems mac.serial_append[of t c xs "concat xss"] by simp
qed

lemma gost_final_mac_ok:
  assumes "mem_ok M" "gost_inited c" "gost_mode c = MODE_MAC (mac_serial c mac_start m)" "0 < n" "n \<le> 8"
  shows "gost_final_mac n M (Some c) = (Inr (mk_ba (take n (gost_mac c m))), Some (c\<lparr>gost_mode := MODE_MAC mac_start\<rparr>))"
proof -
  define t where "t = mac_serial c mac_start m"
  have l: "length (mac_mac t) = 8" by (simp add: t_def length_mac_serial mac_start_def)
  show ?thesis
  proof (cases "mac_offset t = 0")
    case True
    then have g: "gost_mac c m = mac_mac t" using gost_mac_final[OF t_def] by simp
    have "t\<lparr>mac_mac := replicate 8 0\<rparr> = mac_start" using True by (simp add: mac_start_def)
    then show ?thesis using assms l True by (simp add: gost_final_mac_def ba_alloc_from_uint8_eq g flip: t_def)
  next
    case False
    then have g: "gost_mac c m = mac_cycle c (mac_mac t)" using gost_mac_final[OF t_def] by simp
    moreover have "gost_mode c = MODE_MAC t" using assms(3) by (simp add: t_def)
    ultimately show ?thesis using assms(1,2,4,5) l False
      by (simp add: gost_final_mac_def mac_refill_ok ba_alloc_from_uint8_eq mac_start_def)
  qed
qed

subsection \<open>Every sequence of calls\<close>

definition wf_arg :: "ByteArray option \<Rightarrow> bool" where
  "wf_arg a \<longleftrightarrow> (\<forall>x. a = Some x \<longrightarrow> wf_ba x)"

text \<open>What a program can do to a context, on any host, with arguments that are \<^verbatim>\<open>NULL\<close> or well formed.\<close>

inductive gost_step :: "Gost28147Ctx \<Rightarrow> Gost28147Ctx \<Rightarrow> bool" where
  ecb: "wf_arg key \<Longrightarrow> gost28147_init_ecb M (Some c) key = (r, Some c') \<Longrightarrow> gost_step c c'"
| ctr: "wf_arg key \<Longrightarrow> wf_arg iv \<Longrightarrow> gost28147_init_ctr M (Some c) key iv = (r, Some c') \<Longrightarrow> gost_step c c'"
| cfb: "wf_arg key \<Longrightarrow> wf_arg iv \<Longrightarrow> gost28147_init_cfb M (Some c) key iv = (r, Some c') \<Longrightarrow> gost_step c c'"
| mac: "wf_arg key \<Longrightarrow> gost28147_init_mac M (Some c) key = (r, Some c') \<Longrightarrow> gost_step c c'"
| crypt: "wf_arg a \<Longrightarrow> gost28147_crypt e M (Some c) a = (out, Some c') \<Longrightarrow> gost_step c c'"
| update: "wf_arg a \<Longrightarrow> gost28147_update_mac M (Some c) a = (r, Some c') \<Longrightarrow> gost_step c c'"
| final: "gost28147_final_mac M (Some c) = (out, Some c') \<Longrightarrow> gost_step c c'"
| final8: "gost28147_final_mac8 M (Some c) = (out, Some c') \<Longrightarrow> gost_step c c'"
| copy: "gost28147_copy_with_alloc M (Some c) = Inr (Some c') \<Longrightarrow> gost_step c c'"

inductive gost_reach :: "Gost28147Ctx \<Rightarrow> bool" where
  alloc: "gost28147_alloc M sbox_id = Inr (Some c) \<Longrightarrow> gost_reach c"
| user_sbox: "wf_arg sbox \<Longrightarrow> gost28147_alloc_user_sbox M sbox = Inr (Some c) \<Longrightarrow> gost_reach c"
| step: "gost_reach c \<Longrightarrow> gost_step c c' \<Longrightarrow> gost_reach c'"

inductive_cases gost_stepE: "gost_step c c'"

text \<open>A call is safe when C defines it and the context it leaves is well formed.\<close>

definition gost_safe :: "'a res \<times> Gost28147Ctx option \<Rightarrow> bool" where
  "gost_safe p \<longleftrightarrow> defined (fst p) \<and> (\<exists>c'. snd p = Some c' \<and> wf_gost c')"

lemma gost_safe_pair [simp]: "gost_safe (r, Some c) \<longleftrightarrow> defined r \<and> wf_gost c"
  by (simp add: gost_safe_def)

lemma gost_safe_DO_ST:
  assumes "defined r" "s = Some c \<and> wf_gost c" "\<And>x. r = Inr x \<Longrightarrow> gost_safe (k x)"
  shows "gost_safe (DO_ST r s k)"
  using assms by (cases r) simp_all

lemma wf_arg_cases:
  assumes "wf_arg a"
  obtains (None) "a = None" | (null) "a = Some \<lparr>ba_buf = None, ba_len = 0\<rparr>" | (block) xs where "a = Some (mk_ba xs)"
  using assms by (cases a) (auto simp: wf_arg_def elim: wf_ba_cases)

lemma init_ecb_safe:
  assumes "wf_gost c" "wf_arg k"
  shows "gost_safe (gost28147_init_ecb M (Some c) k)"
proof (cases "\<exists>xs. k = Some (mk_ba xs) \<and> length xs = 32")
  case True
  then show ?thesis using assms(1) by (auto simp: init_ecb_ok) (auto simp: wf_gost_def wf_gost_mode_def)
next
  case False
  have "gost28147_init_ecb M (Some c) k = (Inl RET_INVALID_PARAM, Some c)"
    by (rule wf_arg_cases[OF assms(2)]) (use False in \<open>auto simp: gost28147_init_ecb_def CHECK_PARAM_def ba_get_len_def\<close>)
  then show ?thesis using assms by simp
qed

lemma init_mac_safe:
  assumes "wf_gost c" "wf_arg k"
  shows "gost_safe (gost28147_init_mac M (Some c) k)"
proof (cases "\<exists>xs. k = Some (mk_ba xs) \<and> length xs = 32")
  case True
  then show ?thesis using assms(1) by (auto simp: init_mac_ok) (auto simp: wf_gost_def wf_gost_mode_def mac_start_def)
next
  case False
  have "gost28147_init_mac M (Some c) k = (Inl RET_INVALID_PARAM, Some c)"
    by (rule wf_arg_cases[OF assms(2)]) (use False in \<open>auto simp: gost28147_init_mac_def CHECK_PARAM_def\<close>)
  then show ?thesis using assms by simp
qed

lemma init_ctr_safe:
  assumes "wf_gost c" "wf_arg k" "wf_arg v"
  shows "gost_safe (gost28147_init_ctr M (Some c) k v)"
proof (cases "\<exists>xs ys. k = Some (mk_ba xs) \<and> v = Some (mk_ba ys) \<and> length xs = 32 \<and> length ys = 8")
  case True
  then obtain xs ys where e: "k = Some (mk_ba xs)" "v = Some (mk_ba ys)" "length xs = 32" "length ys = 8" by blast
  obtain t where "gost28147_init_ctr M (Some c) k v = (Inr (), Some (c\<lparr>gost_mode := MODE_CTR t, gost_key := load_words False xs, gost_inited := True\<rparr>))"
      "ctr_at c (gost_enc (gost_sbox c) (load_words False xs) (iv_pair ys)) 0 t" "length (ctr_feed t) = 6"
    using init_ctr_ok[OF assms(1) e(3,4), of M c] unfolding e by blast
  then show ?thesis using assms(1) e by (simp add: wf_gost_def wf_gost_mode_def ctr_at_def)
next
  case False
  have "gost28147_init_ctr M (Some c) k v = (Inl RET_INVALID_PARAM, Some c)"
    by (rule wf_arg_cases[OF assms(2)]; rule wf_arg_cases[OF assms(3)]) (use False in \<open>auto simp: gost28147_init_ctr_def CHECK_PARAM_def\<close>)
  then show ?thesis using assms by simp
qed

lemma init_cfb_safe:
  assumes "wf_gost c" "wf_arg k" "wf_arg v"
  shows "gost_safe (gost28147_init_cfb M (Some c) k v)"
proof (cases "\<exists>xs ys. k = Some (mk_ba xs) \<and> v = Some (mk_ba ys) \<and> length xs = 32 \<and> length ys = 8")
  case True
  then obtain xs ys where e: "k = Some (mk_ba xs)" "v = Some (mk_ba ys)" "length xs = 32" "length ys = 8" by blast
  show ?thesis using init_cfb_ok[OF assms(1) e(3,4), of M] assms(1) e by (auto simp: wf_gost_def wf_gost_mode_def)
next
  case False
  have "gost28147_init_cfb M (Some c) k v = (Inl RET_INVALID_PARAM, Some c)"
    by (rule wf_arg_cases[OF assms(2)]; rule wf_arg_cases[OF assms(3)]) (use False in \<open>auto simp: gost28147_init_cfb_def CHECK_PARAM_def\<close>)
  then show ?thesis using assms by simp
qed


lemma gost_output_safe: "wf_gost c \<Longrightarrow> gost_safe (gost_output M len b c)"
  by (simp add: gost_output_def ba_alloc_def MALLOC_CHECKED_def)

lemma wf_ctr_serial:
  assumes "ctr_offset t \<le> 24" "length (ctr_gamma t) = 24" "length (ctr_feed t) = 6"
  shows "wf_gost_mode (MODE_CTR (fst (ctr_serial c (t, out) xs)))"
proof -
  have "length (ctr_gamma (fst s)) = 24 \<and> length (ctr_feed (fst s)) = 6 \<Longrightarrow>
      length (ctr_gamma (fst (foldl (\<lambda>s x. serial_norm 24 (\<lambda>s. ctr_offset (fst s)) (ctr_turn c) (ctr_put s x)) s xs))) = 24
    \<and> length (ctr_feed (fst (foldl (\<lambda>s x. serial_norm 24 (\<lambda>s. ctr_offset (fst s)) (ctr_turn c) (ctr_put s x)) s xs))) = 6" for s
    by (induction xs arbitrary: s) (simp_all add: serial_norm_def ctr_put_def ctr_turn_def, simp add: ctr_renew_def length_store_words)
  moreover have "ctr_offset (fst (ctr_serial c (t, out) xs)) < 24" using ctr.off_serial[of "(t, out)" c xs] assms by simp
  ultimately show ?thesis using assms
    by (simp add: wf_gost_mode_def serial_def serial_norm_def ctr_turn_def, simp add: ctr_renew_def length_store_words)
qed

lemma crypt_safe:
  assumes "wf_gost c" "wf_arg a"
  shows "gost_safe (gost28147_crypt e M (Some c) a)"
proof (rule wf_arg_cases[OF assms(2)])
  assume "a = None"
  then show ?thesis using assms(1) by (simp add: gost28147_crypt_def)
next
  assume "a = Some \<lparr>ba_buf = None, ba_len = 0\<rparr>"
  then show ?thesis using assms(1)
    by (auto simp: gost28147_crypt_def Let_def MALLOC_CHECKED_def ba_get_buf_const_def gost28147_ecb_core_def gost28147_ctr_crypt_def
        gost28147_cfb_core_def split: Gost28147Mode.split)
next
  fix m assume a: "a = Some (mk_ba m)"
  have m4: "8 dvd length m \<Longrightarrow> 4 dvd length m" by (auto elim: dvd_trans[rotated])
  show ?thesis
  proof (cases "gost_inited c \<and> malloc_ok M (length m)")
    case False
    then show ?thesis using assms(1) unfolding a
      by (auto simp: gost28147_crypt_def Let_def MALLOC_CHECKED_def CHECK_PARAM_def split: Gost28147Mode.split)
  next
    case True
    show ?thesis
    proof (cases "gost_mode c")
      case MODE_ECB
      then show ?thesis using True assms(1) m4 unfolding a
        by (cases "8 dvd length m") (auto simp: gost28147_crypt_def Let_def MALLOC_CHECKED_def ba_get_buf_const_def ecb_core_ok
            CHECK_PARAM_def gost_output_safe)
    next
      case (MODE_CTR t)
      then have t: "ctr_offset t \<le> 24" "length (ctr_gamma t) = 24" "length (ctr_feed t) = 6"
        using assms(1) by (simp_all add: wf_gost_def wf_gost_mode_def)
      have "wf_gost (c\<lparr>gost_mode := MODE_CTR (fst (ctr_serial c (t, []) m))\<rparr>)"
        using assms(1) wf_ctr_serial[OF t] by (simp add: wf_gost_def)
      then show ?thesis using True MODE_CTR t unfolding a
        by (simp add: gost28147_crypt_def Let_def MALLOC_CHECKED_def ba_get_buf_const_def ctr_crypt_ok gost_output_safe del: wf_gost_simps)
    next
      case (MODE_CFB t)
      then have t: "wf_cfb t" using assms(1) by (simp add: wf_gost_def wf_gost_mode_def)
      have "wf_gost (c\<lparr>gost_mode := MODE_CFB (fst (cfb_serial e c (t, []) m))\<rparr>)"
        using assms(1) wf_cfb_serial[where s = "(t, [])" and e = e and c = c and xs = m] t by (simp add: wf_gost_def wf_gost_mode_def)
      then show ?thesis using True MODE_CFB t unfolding a
        by (simp add: gost28147_crypt_def Let_def MALLOC_CHECKED_def ba_get_buf_const_def cfb_crypt_ok gost_output_safe del: wf_gost_simps)
    qed (use True assms(1) in \<open>simp_all add: a gost28147_crypt_def Let_def\<close>)
  qed
qed

lemma update_mac_safe:
  assumes "wf_gost c" "wf_arg a"
  shows "gost_safe (gost28147_update_mac M (Some c) a)"
proof (cases "\<exists>t x. gost_inited c \<and> gost_mode c = MODE_MAC t \<and> a = Some x")
  case True
  then obtain t x where e: "gost_inited c" "gost_mode c = MODE_MAC t" "a = Some x" by blast
  have t: "mac_offset t < 8" "length (mac_mac t) = 8" using assms(1) e by (simp_all add: wf_gost_def wf_gost_mode_def)
  have "gost28147_update_mac M (Some c) a = (Inr (), Some (c\<lparr>gost_mode := MODE_MAC (mac_serial c t (data x))\<rparr>))"
    using e t assms(2) unfolding e(3) by (intro update_mac_ok) (simp_all add: wf_arg_def)
  then show ?thesis using assms(1) t mac.off_serial[of t c "data x"] length_mac_serial[of t c "data x"]
    by (simp add: wf_gost_def wf_gost_mode_def)
next
  case False
  then show ?thesis using assms(1)
    by (cases a) (auto simp: gost28147_update_mac_def split: Gost28147Mode.split)
qed

lemma final_mac_safe:
  assumes "wf_gost c" "n \<le> 8"
  shows "gost_safe (gost_final_mac n M (Some c))"
proof (cases "\<exists>t. gost_inited c \<and> gost_mode c = MODE_MAC t")
  case True
  then obtain t where e: "gost_inited c" "gost_mode c = MODE_MAC t" by blast
  have t: "mac_offset t < 8" "length (mac_mac t) = 8" using assms(1) e by (simp_all add: wf_gost_def wf_gost_mode_def)
  define t' where "t' = (if mac_offset t \<noteq> 0 then \<lparr>mac_offset = 0, mac_mac = mac_cycle c (mac_mac t)\<rparr> else t)"
  have t': "mac_offset t' < 8" "length (mac_mac t') = 8" using t by (simp_all add: t'_def)
  have d: "defined (ba_alloc_from_uint8 M (Some (mac_mac t')) n)" using assms(2) t' by (intro ba_alloc_from_uint8_defined) simp
  have "gost_final_mac n M (Some c) = DO_ST (CHECK_NOT_NULL (ba_alloc_from_uint8 M (Some (mac_mac t')) n) Inr)
      (Some (c\<lparr>gost_mode := MODE_MAC t'\<rparr>)) (\<lambda>out. (Inr out, Some (c\<lparr>gost_mode := MODE_MAC (t'\<lparr>mac_mac := replicate 8 0\<rparr>)\<rparr>)))"
    using e t by (simp add: gost_final_mac_def t'_def mac_refill_ok)
  also have "gost_safe \<dots>"
    by (rule gost_safe_DO_ST) (use assms(1) t' d in \<open>auto simp: CHECK_NOT_NULL_defined wf_gost_def wf_gost_mode_def\<close>)
  finally show ?thesis .
next
  case False
  then show ?thesis using assms(1) by (auto simp: gost_final_mac_def split: Gost28147Mode.split)
qed

lemma gost_copy_safe:
  assumes "wf_gost c"
  shows "defined (gost28147_copy_with_alloc M (Some c))"
    and "gost28147_copy_with_alloc M (Some c) = Inr (Some c') \<Longrightarrow> wf_gost c'"
proof -
  have l: "sz_add 0 0 = 0" "sz_sub 128 0 = 128" by (simp_all add: sz_add_def sz_sub_def SIZE_MOD_def)
  have b: "ba_copy_with_alloc M (Some (gost_sbox128 c)) 0 0 = (if malloc_ok M sizeof_ByteArray \<and> malloc_ok M 128
      then Inr (Some (mk_ba (data (gost_sbox128 c)))) else Inr None)"
    using assms l by (simp add: ba_copy_with_alloc_def MALLOC_CHECKED_def wf_gost_def)
  show "defined (gost28147_copy_with_alloc M (Some c))"
    by (simp add: gost28147_copy_with_alloc_def b CALLOC_CHECKED_def)
  show "wf_gost c'" if "gost28147_copy_with_alloc M (Some c) = Inr (Some c')"
    using that assms by (auto simp: gost28147_copy_with_alloc_def b CALLOC_CHECKED_def wf_gost_def split: if_splits)
qed


lemmas gost_sbox_defs = GOST28147_SBOX_1_def GOST28147_SBOX_2_def GOST28147_SBOX_3_def GOST28147_SBOX_4_def
  GOST28147_SBOX_5_def GOST28147_SBOX_6_def GOST28147_SBOX_7_def GOST28147_SBOX_8_def GOST28147_SBOX_9_def GOST28147_SBOX_10_def
  GOST28147_SBOX_11_def GOST28147_SBOX_12_def GOST28147_SBOX_13_def GOST28147_SBOX_14_def GOST28147_SBOX_15_def
  GOST28147_SBOX_16_def GOST28147_SBOX_17_def GOST28147_SBOX_18_def

lemma gost_alloc_core_wf:
  "length s = 128 \<Longrightarrow> gost28147_alloc_user_sbox_core M (Some s) 128 = Inr (Some c) \<Longrightarrow> wf_gost c"
  by (auto simp: gost28147_alloc_user_sbox_core_def ba_inversions CALLOC_CHECKED_def ba_alloc_from_uint8_def wf_gost_def
      wf_gost_mode_def split: if_splits)

lemma gost_sboxes_length: "s \<in> set gost_sboxes \<Longrightarrow> length s = 128"
  unfolding gost_sboxes_def
  by (auto simp: gost_sbox_defs)

lemma gost_safeD: "gost_safe p \<Longrightarrow> p = (r, Some c') \<Longrightarrow> wf_gost c'"
  by simp

lemmas gost_final_defs = gost28147_final_mac_def gost28147_final_mac8_def

lemma gost_step_wf: "gost_step c c' \<Longrightarrow> wf_gost c \<Longrightarrow> wf_gost c'"
  by (erule gost_stepE)
    (auto simp: gost_final_defs dest: gost_safeD[OF init_ecb_safe] gost_safeD[OF init_ctr_safe] gost_safeD[OF init_cfb_safe]
      gost_safeD[OF init_mac_safe] gost_safeD[OF crypt_safe] gost_safeD[OF update_mac_safe] gost_safeD[OF final_mac_safe[where n = 4, simplified]]
      gost_safeD[OF final_mac_safe[where n = 8, simplified]]
      gost_copy_safe(2))

lemma gost_reach_inv: "gost_reach c \<Longrightarrow> wf_gost c"
proof (induction rule: gost_reach.induct)
  case (alloc M sbox_id c)
  then show ?case
    by (auto simp: gost28147_alloc_def ba_inversions split: if_splits intro!: gost_alloc_core_wf gost_sboxes_length)
next
  case (user_sbox sbox M c)
  then obtain b where "length b = 128" "gost28147_alloc_user_sbox_core M (Some b) 128 = Inr (Some c)"
    by (auto simp: gost28147_alloc_user_sbox_def ba_inversions ba_to_uint8_def dest: wr_length)
  then show ?case by (rule gost_alloc_core_wf)
next
  case (step c c')
  then show ?case by (blast intro: gost_step_wf)
qed


lemma sbox_rows_eval: "sbox_rows s = [take 16 s, take 16 (drop 16 s), take 16 (drop 32 s), take 16 (drop 48 s),
   take 16 (drop 64 s), take 16 (drop 80 s), take 16 (drop 96 s), take 16 (drop 112 s)]"
proof -
  have "[0..<8] = [0, 1, 2, 3, 4, 5, 6, 7 :: nat]" by (simp add: upt_rec)
  then show ?thesis by (simp add: sbox_rows_def)
qed

lemma gost_sboxes_ok: "list_all sbox_ok gost_sboxes"
  unfolding gost_sboxes_def by (simp add: sbox_ok_def sbox_rows_eval gost_sbox_defs)


lemma gost_alloc_example: "\<exists>c. gost28147_alloc ideal_mem 1 = Inr (Some c)"
  by (simp add: gost28147_alloc_def gost_sboxes_def gost28147_alloc_user_sbox_core_def ba_alloc_from_uint8_eq gost_sbox_defs)

lemma gost_reach_example: obtains c where "gost_reach c"
  using gost_alloc_example gost_reach.alloc by blast

subsection \<open>Properties\<close>

text \<open>(C21) The lookup tables that \<^verbatim>\<open>gost28147_alloc_user_sbox_core\<close> expands give the round function of the
  standard, substitution of nibbles and rotation by 11, for any table; and each row of the eighteen tables of the library
  is a permutation of the nibbles.\<close>

theorem gost_round_standard:
  "SBOX_TRANSFORM (expand_sbox s) x = word_rotl 11 (gost_substitute s x) \<and> list_all sbox_ok gost_sboxes"
  using gost_round_word gost_sboxes_ok by simp

text \<open>(C22) Simple substitution: decryption undoes encryption for every context a program can reach, every key and
  all data of whole blocks.\<close>

theorem gost_ecb_roundtrip:
  assumes "mem_ok M" "gost_reach c" "length k = 32" "8 dvd length m"
  shows "\<exists>c' out. gost28147_init_ecb M (Some c) (Some (mk_ba k)) = (Inr (), Some c') \<and> length out = length m
     \<and> gost28147_encrypt M (Some c') (Some (mk_ba m)) = (Inr (mk_ba out), Some c')
     \<and> gost28147_decrypt M (Some c') (Some (mk_ba out)) = (Inr (mk_ba m), Some c')"
proof -
  have m4: "4 dvd length m" using assms(4) by (auto elim: dvd_trans[rotated])
  let ?c = "c\<lparr>gost_mode := MODE_ECB, gost_key := load_words False k, gost_inited := True\<rparr>"
  have "ecb_cipher ?c False (ecb_cipher ?c True m) = m"
    using m4 by (simp add: on_bytes_inverse gost_dec_enc)
  then show ?thesis using assms init_ecb_ok[OF gost_reach_inv[OF assms(2)] assms(3)] m4
    by (intro exI[of _ ?c] exI[of _ "ecb_cipher ?c True m"]) (simp add: gost28147_encrypt_def gost28147_decrypt_def crypt_ecb_ok)
qed

lemma gost_ecb_roundtrip_witness:
  "\<exists>c out. gost28147_decrypt ideal_mem (Some c) (Some (mk_ba out)) = (Inr (mk_ba (replicate 8 1)), Some c)"
proof -
  obtain c where c: "gost_reach c" by (rule gost_reach_example)
  show ?thesis using gost_ecb_roundtrip[OF mem_ok_ideal c, of "replicate 32 0" "replicate 8 1"] by auto
qed

text \<open>(C23) Counter mode: whatever fragments the data comes in, the outputs are its sum modulo 2 with the key stream of the
  standard, the encrypted counters from the encrypted initialisation vector on; decryption is the same.\<close>

theorem gost_ctr_stream:
  assumes "mem_ok M" "gost_reach c" "length k = 32" "length v = 8" "f = gost28147_encrypt M \<or> f = gost28147_decrypt M"
  shows "\<exists>d outs d'. gost28147_init_ctr M (Some c) (Some (mk_ba k)) (Some (mk_ba v)) = (Inr (), Some d)
     \<and> gost_sbox d = gost_sbox c \<and> gost_key d = load_words False k
     \<and> gost_stream f (Some d) (map mk_ba ms) = (Inr (map mk_ba outs), Some d') \<and> map length outs = map length ms
     \<and> concat outs = map2 (XOR) (concat ms)
          (map (gost_key_stream d (gost_enc (gost_sbox d) (gost_key d) (iv_pair v))) [0..<length (concat ms)])"
proof -
  have w: "wf_gost c" using assms(2) by (rule gost_reach_inv)
  define s where "s = gost_enc (gost_sbox c) (load_words False k) (iv_pair v)"
  obtain d t where i: "gost28147_init_ctr M (Some c) (Some (mk_ba k)) (Some (mk_ba v)) = (Inr (), Some d)"
      and d: "d = c\<lparr>gost_mode := MODE_CTR t, gost_key := load_words False k, gost_inited := True\<rparr>"
      and t: "ctr_at (c\<lparr>gost_key := load_words False k\<rparr>) s 0 t"
    using init_ctr_ok[OF w assms(3,4), of M "c\<lparr>gost_key := load_words False k\<rparr>"] unfolding s_def by blast
  have t': "ctr_at d s 0 t" using t by (simp add: d ctr_at_def gost_key_block_def)
  obtain e where f: "f = gost28147_crypt e M" using assms(5) unfolding gost28147_encrypt_def gost28147_decrypt_def by blast
  obtain outs d' where "gost_stream f (Some d) (map mk_ba ms) = (Inr (map mk_ba outs), Some d')" "map length outs = map length ms"
      "concat outs = map2 (XOR) (concat ms) (map (gost_key_stream d s) [0..<0 + length (concat ms)])"
    using gost_stream_ctr[OF assms(1) t', of d e ms] unfolding f by (auto simp: d)
  then show ?thesis using i by (intro exI[of _ d] exI[of _ outs] exI[of _ d']) (simp add: d s_def)
qed

lemma gost_ctr_stream_witness:
  "\<exists>d outs d'. gost_stream (gost28147_encrypt ideal_mem) (Some d) (map mk_ba [[1], [2, 3]]) = (Inr (map mk_ba outs), Some d')
     \<and> map length outs = map length [[1], [2, 3 :: u8]]"
proof -
  obtain c where c: "gost_reach c" by (rule gost_reach_example)
  show ?thesis using gost_ctr_stream[OF mem_ok_ideal c length_replicate length_replicate disjI1[OF refl], where ms = "[[1], [2, 3]]"]
    by blast
qed

text \<open>(C24) Feedback mode: data encrypted in fragments is recovered by decrypting the cipher text in any other fragments.\<close>

theorem gost_cfb_roundtrip:
  assumes "mem_ok M" "gost_reach c" "length k = 32" "length v = 8"
  shows "\<exists>d outs d'. gost28147_init_cfb M (Some c) (Some (mk_ba k)) (Some (mk_ba v)) = (Inr (), Some d)
     \<and> gost_stream (gost28147_encrypt M) (Some d) (map mk_ba ms) = (Inr (map mk_ba outs), Some d') \<and> map length outs = map length ms
     \<and> (\<forall>ns. concat ns = concat outs \<longrightarrow> (\<exists>ps d''. gost_stream (gost28147_decrypt M) (Some d) (map mk_ba ns) = (Inr (map mk_ba ps), Some d'')
            \<and> map length ps = map length ns \<and> concat ps = concat ms))"
proof -
  obtain d t where i: "gost28147_init_cfb M (Some c) (Some (mk_ba k)) (Some (mk_ba v)) = (Inr (), Some d)"
      and d: "gost_mode d = MODE_CFB t" "gost_inited d" "wf_cfb t"
    using init_cfb_ok[OF gost_reach_inv[OF assms(2)] assms(3,4), of M] by auto
  obtain ys t' where r: "length ys = length (concat ms)" "cfb_serial True d (t, []) (concat ms) = (t', ys)" "cfb_serial False d (t, []) ys = (t', concat ms)"
    using cfb_serial_roundtrip[of "concat ms" d t] by (metis append_Nil)
  obtain outs d' where e: "gost_stream (gost28147_encrypt M) (Some d) (map mk_ba ms) = (Inr (map mk_ba outs), Some d')"
      "map length outs = map length ms" "concat outs = ys"
    using gost_stream_cfb[OF assms(1) d(2,1,3), of True ms] r(2) unfolding gost28147_encrypt_def by auto
  have "\<exists>ps d''. gost_stream (gost28147_decrypt M) (Some d) (map mk_ba ns) = (Inr (map mk_ba ps), Some d'')
            \<and> map length ps = map length ns \<and> concat ps = concat ms" if "concat ns = concat outs" for ns
    using gost_stream_cfb[OF assms(1) d(2,1,3), of False ns] r(3) that e(3) unfolding gost28147_decrypt_def by auto
  then show ?thesis using i e(1,2) by blast
qed

lemma gost_cfb_roundtrip_witness:
  "\<exists>d outs ps d''. concat outs = concat [[1], [2, 3 :: u8]] \<and> gost_stream (gost28147_decrypt ideal_mem) d (map mk_ba ps) = (Inr (map mk_ba outs), Some d'')"
proof -
  obtain c where c: "gost_reach c" by (rule gost_reach_example)
  show ?thesis using gost_cfb_roundtrip[OF mem_ok_ideal c length_replicate length_replicate, where ms = "[[1], [2, 3]]"] by blast
qed

text \<open>(C25) The authentication code depends only on the concatenation of the fragments: it is the standard's chain over the
  message completed by zeros, cut to four or eight bytes, and the context is ready for the next message.\<close>

theorem gost_mac_fragments:
  assumes "mem_ok M" "gost_reach c" "length k = 32" "\<forall>a \<in> set as. wf_ba a"
  shows "\<exists>d d'. gost28147_init_mac M (Some c) (Some (mk_ba k)) = (Inr (), Some d) \<and> gost_mac_feed M (Some d) as = (Inr (), Some d')
     \<and> gost28147_final_mac M (Some d') = (Inr (mk_ba (take 4 (gost_mac d (concat (map data as))))), Some d)
     \<and> gost28147_final_mac8 M (Some d') = (Inr (mk_ba (take 8 (gost_mac d (concat (map data as))))), Some d)"
proof -
  define d where "d = c\<lparr>gost_mode := MODE_MAC mac_start, gost_key := load_words False k, gost_inited := True\<rparr>"
  have d: "gost_inited d" "gost_mode d = MODE_MAC mac_start" "mac_offset mac_start = 0" "length (mac_mac mac_start) = 8"
    by (simp_all add: d_def mac_start_def)
  define t where "t = mac_serial d mac_start (concat (map data as))"
  have f: "gost_mac_feed M (Some d) as = (Inr (), Some (d\<lparr>gost_mode := MODE_MAC t\<rparr>))"
    using gost_mac_feed_ok[OF d(1,2,4) _ assms(4), of M] d(3) by (simp add: foldl_mac_serial t_def)
  have turn: "mac_turn (d\<lparr>gost_mode := m\<rparr>) = mac_turn d" "gost_mac (d\<lparr>gost_mode := m\<rparr>) = gost_mac d" for m
    by (intro ext, simp add: mac_turn_def mac_cycle_def gost_mac_def)+
  have r: "d\<lparr>gost_mode := MODE_MAC mac_start\<rparr> = d" by (simp add: d_def)
  have "gost_final_mac n M (Some (d\<lparr>gost_mode := MODE_MAC t\<rparr>)) = (Inr (mk_ba (take n (gost_mac d (concat (map data as))))), Some d)"
    if "0 < n" "n \<le> 8" for n
    using gost_final_mac_ok[OF assms(1), of "d\<lparr>gost_mode := MODE_MAC t\<rparr>" "concat (map data as)" n] that d(1) turn r by (simp add: t_def)
  then show ?thesis using f init_mac_ok[OF gost_reach_inv[OF assms(2)] assms(3), of M]
    by (intro exI[of _ d] exI[of _ "d\<lparr>gost_mode := MODE_MAC t\<rparr>"]) (simp add: d_def gost_final_defs)
qed

lemma gost_mac_fragments_witness:
  "\<exists>d d'. gost28147_final_mac ideal_mem (Some d') = (Inr (mk_ba (take 4 (gost_mac d [1, 2, 3]))), Some d)"
proof -
  obtain c where c: "gost_reach c" by (rule gost_reach_example)
  show ?thesis using gost_mac_fragments[OF mem_ok_ideal c, of "replicate 32 0" "[mk_ba [1], mk_ba [2, 3]]"] by auto
qed

text \<open>(C26) Every context a program can reach, on a host where allocations fail as they like, has tables, key and mode state of
  the right sizes, and every call on it with \<^verbatim>\<open>NULL\<close> or well-formed arguments is defined.\<close>

theorem gost_reach_safe:
  assumes "gost_reach c" "wf_arg a" "wf_arg b"
  shows "wf_gost c \<and> gost_safe (gost28147_init_ecb M (Some c) a) \<and> gost_safe (gost28147_init_ctr M (Some c) a b)
     \<and> gost_safe (gost28147_init_cfb M (Some c) a b) \<and> gost_safe (gost28147_init_mac M (Some c) a)
     \<and> gost_safe (gost28147_encrypt M (Some c) a) \<and> gost_safe (gost28147_decrypt M (Some c) a)
     \<and> gost_safe (gost28147_update_mac M (Some c) a) \<and> gost_safe (gost28147_final_mac M (Some c))
     \<and> gost_safe (gost28147_final_mac8 M (Some c)) \<and> defined (gost28147_copy_with_alloc M (Some c))
     \<and> defined (gost28147_get_ext_sbox M (Some c)) \<and> defined (gost28147_get_compress_sbox M (Some c))"
proof -
  have w: "wf_gost c" using assms(1) by (rule gost_reach_inv)
  have l: "length (foldl (\<lambda>b n. b[n div 2 := f b n]) b ns) = length b" for f :: "u8 list \<Rightarrow> nat \<Rightarrow> u8" and b ns
    by (induction ns arbitrary: b) simp_all
  have "defined (gost28147_get_ext_sbox M (Some c))"
    using w by (auto simp: gost28147_get_ext_sbox_def wf_gost_def CHECK_NOT_NULL_defined data_def wf_ba_def
        intro!: ba_alloc_from_uint8_defined split: option.splits)
  moreover have "defined (gost28147_get_compress_sbox M (Some c))"
    using w by (auto simp: gost28147_get_compress_sbox_def wf_gost_def def_simps compress_sbox_def l intro!: ba_alloc_from_uint8_defined)
  ultimately show ?thesis
    using w assms by (simp add: init_ecb_safe init_ctr_safe init_cfb_safe init_mac_safe crypt_safe update_mac_safe final_mac_safe
        gost_final_defs gost28147_encrypt_def gost28147_decrypt_def gost_copy_safe(1))
qed

lemma gost_reach_safe_witness: "\<exists>c. gost_safe (gost28147_encrypt ideal_mem (Some c) (Some (mk_ba [1])))"
proof -
  obtain c where c: "gost_reach c" by (rule gost_reach_example)
  show ?thesis using gost_reach_safe[OF c, of "Some (mk_ba [1])" None ideal_mem] by (auto simp: wf_arg_def)
qed

end
