(* ===== verification/Gost34311.thy ===== *)
theory Gost34311
  imports GostApi
begin

text \<open>
  The hash function GOST 34.311-95 (\<^verbatim>\<open>gost34311.c\<close>), which stands on the block cipher GOST 28147-89.
\<close>

subsection \<open>The context\<close>

record Gost34311Ctx =
  g311_gost :: Gost28147Ctx
  g311_m32 :: "u8 list"
  g311_m32_ind :: nat
  g311_m_bit_len :: "u32 list"
  g311_sync :: "u8 list"
  g311_sigma :: "u32 list"
  g311_H :: "u8 list"

definition sizeof_Gost34311Ctx :: nat where "sizeof_Gost34311Ctx = 176"

definition gost34311_reset :: "Gost34311Ctx \<Rightarrow> Gost34311Ctx" where
  "gost34311_reset c = c\<lparr>g311_sigma := replicate 8 0, g311_m_bit_len := replicate 8 0, g311_m32 := replicate 32 0,
     g311_H := g311_sync c, g311_m32_ind := 0\<rparr>"

subsection \<open>The step\<close>

definition copy_keys :: "u32 \<Rightarrow> u32 \<Rightarrow> u32 \<Rightarrow> u32 \<Rightarrow> u32 list" where
  "copy_keys x1 x2 x3 x4 =
     [(x1 AND 0xff) XOR push_bit 8 (x2 AND 0xff) XOR push_bit 16 (x3 AND 0xff) XOR push_bit 24 (x4 AND 0xff),
      drop_bit 8 (x1 AND 0xff00) XOR (x2 AND 0xff00) XOR push_bit 8 (x3 AND 0xff00) XOR push_bit 16 (x4 AND 0xff00),
      drop_bit 16 (x1 AND 0xff0000) XOR drop_bit 8 (x2 AND 0xff0000) XOR (x3 AND 0xff0000) XOR push_bit 8 (x4 AND 0xff0000),
      drop_bit 24 (x1 AND 0xff000000) XOR drop_bit 16 (x2 AND 0xff000000) XOR drop_bit 8 (x3 AND 0xff000000) XOR (x4 AND 0xff000000)]"

definition generate_keys :: "u32 list \<Rightarrow> u32 list \<Rightarrow> u32 list" where
  "generate_keys h m =
     (let h0 = h ! 0; h1 = h ! 1; h2 = h ! 2; h3 = h ! 3; h4 = h ! 4; h5 = h ! 5; h6 = h ! 6; h7 = h ! 7;
          m0 = m ! 0; m1 = m ! 1; m2 = m ! 2; m3 = m ! 3; m4 = m ! 4; m5 = m ! 5; m6 = m ! 6; m7 = m ! 7;
          k0 = h0 XOR m0; k1 = h2 XOR m2; k2 = h4 XOR m4; k3 = h6 XOR m6; y0 = copy_keys k0 k1 k2 k3;
          k0 = h1 XOR m1; k1 = h3 XOR m3; k2 = h5 XOR m5; k3 = h7 XOR m7; y1 = copy_keys k0 k1 k2 k3;
          k0 = h2 XOR m4; k1 = h4 XOR m6; k2 = h6 XOR m0 XOR m2; k3 = h0 XOR m2 XOR k0; y2 = copy_keys k0 k1 k2 k3;
          k0 = h3 XOR m5; k1 = h5 XOR m7; k2 = h7 XOR m1 XOR m3; k3 = h1 XOR m3 XOR k0; y3 = copy_keys k0 k1 k2 k3;
          k0 = h4 XOR m0 XOR m2; k1 = h2 XOR m6; k2 = k1 XOR h0 XOR m4 XOR 0x00ffff00; k3 = k0 XOR k1 XOR 0x000000ff; k0 = k0 XOR 0xff00ff00; k1 = h6 XOR m2 XOR m4 XOR 0x00ff00ff; y4 = copy_keys k0 k1 k2 k3;
          k0 = h5 XOR m1 XOR m3; k1 = h3 XOR m7; k2 = k1 XOR h1 XOR m5 XOR 0xff0000ff; k3 = k0 XOR k1 XOR 0xff00ffff; k0 = k0 XOR 0xff00ff00; k1 = h7 XOR m3 XOR m5 XOR 0x00ff00ff; y5 = copy_keys k0 k1 k2 k3;
          k0 = h6 XOR m6; k3 = k0 XOR h4 XOR m2 XOR 0xffffffff; k0 = k0 XOR (m4 XOR 0x00ff00ff); k1 = h2 XOR m0; k2 = k1 XOR h4 XOR m4 XOR 0x000000ff; k1 = k1 XOR (h0 XOR m2 XOR m6 XOR 0x00ffff00); y6 = copy_keys k0 k1 k2 k3;
          k0 = h7 XOR m7; k3 = k0 XOR h5 XOR m3 XOR 0xffffffff; k0 = k0 XOR (m5 XOR 0x00ff00ff); k1 = h3 XOR m1; k2 = k1 XOR h5 XOR m5 XOR 0xff00ffff; k1 = k1 XOR (h1 XOR m3 XOR m7 XOR 0xff0000ff); y7 = copy_keys k0 k1 k2 k3
      in concat [y0, y1, y2, y3, y4, y5, y6, y7])"

text \<open>
  \<^verbatim>\<open>mix_transform\<close> reads its buffers as words of 16 bits in the byte order of the host. \<open>mix_words\<close> is its
  body; it has the type of the words as a parameter, so that it can be run on symbolic sums as well.
\<close>

definition mix_words :: "'a::semiring_bit_operations list \<Rightarrow> 'a list \<Rightarrow> 'a list \<Rightarrow> 'a list" where
  "mix_words a b c =
     (let a0 = a ! 0; a1 = a ! 1; a2 = a ! 2; a3 = a ! 3; a4 = a ! 4; a5 = a ! 5; a6 = a ! 6; a7 = a ! 7;
          a8 = a ! 8; a9 = a ! 9; a10 = a ! 10; a11 = a ! 11; a12 = a ! 12; a13 = a ! 13; a14 = a ! 14; a15 = a ! 15;
          b0 = b ! 0; b1 = b ! 1; b2 = b ! 2; b3 = b ! 3; b4 = b ! 4; b5 = b ! 5; b6 = b ! 6; b7 = b ! 7;
          b8 = b ! 8; b9 = b ! 9; b10 = b ! 10; b11 = b ! 11; b12 = b ! 12; b13 = b ! 13; b14 = b ! 14; b15 = b ! 15;
          c0 = c ! 0; c1 = c ! 1; c2 = c ! 2; c3 = c ! 3; c4 = c ! 4; c5 = c ! 5; c6 = c ! 6; c7 = c ! 7;
          c8 = c ! 8; c9 = c ! 9; c10 = c ! 10; c11 = c ! 11; c12 = c ! 12; c13 = c ! 13; c14 = c ! 14; c15 = c ! 15;
          p1 = a1 XOR a4 XOR b1 XOR b5;
          p2 = a3 XOR a5 XOR a6 XOR a12 XOR b4 XOR b6 XOR b7 XOR b13;
          p3 = a6 XOR a13 XOR b3 XOR b7 XOR b14;
          p4 = a0 XOR a4 XOR a8 XOR a13 XOR a14 XOR b1 XOR b5 XOR b9 XOR b14 XOR b15 XOR c2 XOR c3 XOR c7 XOR c10 XOR c12 XOR c15;
          p5 = a1 XOR a7 XOR a10 XOR a13 XOR a14 XOR b8 XOR b11 XOR b14 XOR c5 XOR c13;
          p6 = p1 XOR a8 XOR a11 XOR a14 XOR b9 XOR c6 XOR c7 XOR c10 XOR c13 XOR c14;
          p7 = p5 XOR a3 XOR a11 XOR b1 XOR b4 XOR c1 XOR c6 XOR c9 XOR c12 XOR c14;
          p8 = p3 XOR a1 XOR a5 XOR a10 XOR b6 XOR b11 XOR b12 XOR c0 XOR c10;
          p1 = p1 XOR (a5 XOR a9 XOR a15 XOR b0 XOR b6 XOR b10 XOR b12 XOR c1 XOR c2 XOR c4 XOR c8 XOR c11 XOR c15);
          p3 = p3 XOR (a3 XOR a7 XOR a12 XOR a15 XOR b0 XOR b2 XOR b4 XOR b8 XOR b13 XOR c2 XOR c14);
          p5 = p5 XOR (a5 XOR a9 XOR a12 XOR a15 XOR b0 XOR b6 XOR b10 XOR b13)
      in [p7 XOR a15 XOR b0 XOR b3 XOR c7 XOR c10 XOR c11 XOR c15,
          p6 XOR a0 XOR a3 XOR b2 XOR b4 XOR b12 XOR b15 XOR c0 XOR c1 XOR c3 XOR c8 XOR c11,
          p1 XOR a2 XOR a12 XOR b13 XOR b15 XOR c7 XOR c9 XOR c12 XOR c14,
          p8 XOR a0 XOR a12 XOR a15 XOR b0 XOR b13 XOR b15 XOR c1 XOR c5 XOR c8 XOR c9 XOR c13,
          p3 XOR a0 XOR a11 XOR a14 XOR c1 XOR c6 XOR c9 XOR c10 XOR c11,
          p4 XOR a2 XOR a3 XOR a7 XOR b3 XOR b4 XOR b8 XOR c11,
          p1 XOR a3 XOR a8 XOR a14 XOR b3 XOR b4 XOR b9 XOR c0 XOR c13,
          p2 XOR a0 XOR a1 XOR a4 XOR a9 XOR a10 XOR b1 XOR b2 XOR b5 XOR b10 XOR b11 XOR c0 XOR c5 XOR c9 XOR c14 XOR c15,
          p8 XOR a2 XOR a4 XOR a7 XOR a11 XOR b2 XOR b5 XOR b8 XOR c2 XOR c3 XOR c6 XOR c12,
          p2 XOR a2 XOR a7 XOR a8 XOR a11 XOR a14 XOR b3 XOR b8 XOR b9 XOR b12 XOR b15 XOR c1 XOR c3 XOR c4 XOR c7 XOR c11 XOR c13,
          p3 XOR a4 XOR a8 XOR a9 XOR b1 XOR b5 XOR b9 XOR b10 XOR b12 XOR b15 XOR c4 XOR c5 XOR c8 XOR c12,
          p5 XOR a0 XOR a2 XOR a3 XOR a4 XOR a8 XOR b4 XOR b5 XOR b9 XOR b12 XOR c3 XOR c6 XOR c9 XOR c15,
          p4 XOR a5 XOR a6 XOR a9 XOR a10 XOR a11 XOR a12 XOR b6 XOR b7 XOR b10 XOR b11 XOR b12 XOR b13 XOR c0 XOR c1 XOR c4 XOR c6 XOR c14,
          p5 XOR a6 XOR a11 XOR b1 XOR b3 XOR b7 XOR c0 XOR c4 XOR c7 XOR c8 XOR c11 XOR c12,
          p7 XOR a0 XOR a6 XOR a8 XOR b2 XOR b7 XOR b9 XOR b12 XOR b15 XOR c8,
          p6 XOR a2 XOR a7 XOR a9 XOR a12 XOR a15 XOR b0 XOR b8 XOR b10 XOR b13 XOR c2 XOR c9 XOR c15])"

definition mix_transform :: "bool \<Rightarrow> u8 list \<Rightarrow> u8 list \<Rightarrow> u8 list \<Rightarrow> u8 list" where
  "mix_transform be a b c = store_words be (mix_words (load_words be a :: u16 list) (load_words be b) (load_words be c))"

text \<open>A failure inside a step is impossible; were there one, the context would be as it was.\<close>

definition hash_step :: "bool \<Rightarrow> Gost34311Ctx \<Rightarrow> u8 list \<Rightarrow> Gost34311Ctx res" where
  "hash_step be c m =
     DO (uint8_to_uint32 be (Some (g311_H c)) 32 (Some (replicate 8 0)) 8) (\<lambda>hash32.
     DO (uint8_to_uint32 be (Some m) 32 (Some (replicate 8 0)) 8) (\<lambda>m32.
     let keys = generate_keys hash32 m32;
         hash32 = base_cycle32 (g311_gost c) hash32 keys
     in DO (uint32_to_uint8 be (Some hash32) 8 (Some (replicate 32 0)) 32) (\<lambda>s.
        Inr (c\<lparr>g311_H := mix_transform be (g311_H c) m s\<rparr>))))"

subsection \<open>Absorbing\<close>

text \<open>\<^verbatim>\<open>add\<close> keeps the sum of two words and the carry in 64 bits.\<close>

fun add256 :: "u64 \<Rightarrow> u32 list \<Rightarrow> u32 list \<Rightarrow> u32 list" where
  "add256 s (a # as) (b # bs) = (let s = ucast a + ucast b + drop_bit 32 s in ucast s # add256 s as bs)"
| "add256 s as _ = as"

text \<open>The counter of bits: the carry runs through the words above the first.\<close>

fun carry_loop :: "u32 list \<Rightarrow> u32 list" where
  "carry_loop (w # ws) = (let w = w + 1 in if w = 0 then w # carry_loop ws else w # ws)"
| "carry_loop [] = []"

definition count_bits :: "u32 list \<Rightarrow> u32 \<Rightarrow> u32 list" where
  "count_bits l n = (let l0 = hd l + n in if l0 < n then l0 # carry_loop (tl l) else l0 # tl l)"

definition gost34311_block :: "bool \<Rightarrow> Gost34311Ctx \<Rightarrow> Gost34311Ctx res" where
  "gost34311_block be c =
     DO (hash_step be c (g311_m32 c)) (\<lambda>c.
     let c = c\<lparr>g311_m_bit_len := count_bits (g311_m_bit_len c) 256\<rparr>
     in DO (uint8_to_uint32 be (Some (g311_m32 c)) 32 (Some (replicate 8 0)) 8) (\<lambda>m32.
        Inr (c\<lparr>g311_sigma := add256 0 (g311_sigma c) m32\<rparr>)))"

text \<open>A full buffer is hashed only when more data comes.\<close>

function gost34311_loop :: "bool \<Rightarrow> Gost34311Ctx \<Rightarrow> u8 list \<Rightarrow> Gost34311Ctx res" where
  "gost34311_loop be c buf =
     (let len = length buf; size = (if sz_sub 32 (g311_m32_ind c) > len then len else sz_sub 32 (g311_m32_ind c))
      in DO (wr (g311_m32 c) (g311_m32_ind c) (take size buf)) (\<lambda>m32.
         let c = c\<lparr>g311_m32 := m32, g311_m32_ind := g311_m32_ind c + size\<rparr>
         in if len - size = 0 then Inr c
            else DO (gost34311_block be c) (\<lambda>c. gost34311_loop be (c\<lparr>g311_m32_ind := 0\<rparr>) (drop size buf))))"
  by pat_completeness auto
termination
  by (relation "measure (\<lambda>(be, c, buf). length buf + (if g311_m32_ind c = 0 then 0 else 1))") (auto split: if_splits)

declare gost34311_loop.simps [simp del]

definition gost34311_update :: "bool \<Rightarrow> Gost34311Ctx option \<Rightarrow> ByteArray option \<Rightarrow> Gost34311Ctx res" where
  "gost34311_update be ctx inp = NOT_NULL ctx (\<lambda>c. NOT_NULL inp (\<lambda>i. DO (rd (data i) 0 (ba_len i)) (gost34311_loop be c)))"

definition gost34311_final :: "bool \<Rightarrow> mem \<Rightarrow> Gost34311Ctx option \<Rightarrow> ByteArray res \<times> Gost34311Ctx option" where
  "gost34311_final be M ctx = DO_ST (NOT_NULL ctx Inr) ctx (\<lambda>c.
     let c = c\<lparr>g311_m_bit_len := count_bits (g311_m_bit_len c) (of_nat (8 * g311_m32_ind c))\<rparr>
     in DO_ST (wr (g311_m32 c) (g311_m32_ind c) (replicate (sz_sub 32 (g311_m32_ind c)) 0)) (Some c) (\<lambda>b.
        let c = c\<lparr>g311_m32 := b\<rparr>
        in DO_ST (uint8_to_uint32 be (Some (g311_m32 c)) 32 (Some (replicate 8 0)) 8) (Some c) (\<lambda>m32.
        let c = c\<lparr>g311_sigma := add256 0 (g311_sigma c) m32\<rparr>
        in DO_ST (hash_step be c (g311_m32 c)) (Some c) (\<lambda>c.
        DO_ST (uint32_to_uint8 be (Some (g311_m_bit_len c)) 8 (Some (fresh M 32)) 32) (Some c) (\<lambda>m_bit_len.
        DO_ST (hash_step be c m_bit_len) (Some c) (\<lambda>c.
        DO_ST (uint32_to_uint8 be (Some (g311_sigma c)) 8 (Some (fresh M 32)) 32) (Some c) (\<lambda>sigma8.
        DO_ST (hash_step be c sigma8) (Some c) (\<lambda>c.
        DO_ST (CHECK_NOT_NULL (ba_alloc_from_uint8 M (Some (g311_H c)) 32) Inr) (Some c) (\<lambda>out.
        (Inr out, Some (gost34311_reset c)))))))))))"

definition gost34311_alloc :: "mem \<Rightarrow> nat \<Rightarrow> ByteArray option \<Rightarrow> Gost34311Ctx option res" where
  "gost34311_alloc M sbox_id sync = to_ptr (CALLOC_CHECKED M sizeof_Gost34311Ctx (
     CHECK_NOT_NULL (gost28147_alloc M sbox_id) (\<lambda>g.
     DO (case sync of
           Some s \<Rightarrow> CHECK_PARAM (ba_len s = 32) (ba_to_uint8 sync (Some (replicate 32 0)) 32)
         | None \<Rightarrow> Inr (replicate 32 0)) (\<lambda>s.
     Inr (gost34311_reset \<lparr>g311_gost = g, g311_m32 = replicate 32 0, g311_m32_ind = 0, g311_m_bit_len = replicate 8 0,
        g311_sync = s, g311_sigma = replicate 8 0, g311_H = replicate 32 0\<rparr>)))))"

definition gost34311_alloc_user_sbox :: "mem \<Rightarrow> ByteArray option \<Rightarrow> ByteArray option \<Rightarrow> Gost34311Ctx option res" where
  "gost34311_alloc_user_sbox M sbox sync = to_ptr (NOT_NULL sync (\<lambda>s. CHECK_PARAM (ba_len s = 32) (
     CALLOC_CHECKED M sizeof_Gost34311Ctx (
     CHECK_NOT_NULL (gost28147_alloc_user_sbox M sbox) (\<lambda>g.
     DO (ba_to_uint8 sync (Some (replicate 32 0)) 32) (\<lambda>s.
     Inr (gost34311_reset \<lparr>g311_gost = g, g311_m32 = replicate 32 0, g311_m32_ind = 0, g311_m_bit_len = replicate 8 0,
        g311_sync = s, g311_sigma = replicate 8 0, g311_H = replicate 32 0\<rparr>)))))))"

definition gost34311_copy_with_alloc :: "mem \<Rightarrow> Gost34311Ctx \<Rightarrow> Gost34311Ctx option res" where
  "gost34311_copy_with_alloc M c = to_ptr (CALLOC_CHECKED M sizeof_Gost34311Ctx (
     CHECK_NOT_NULL (gost28147_copy_with_alloc M (Some (g311_gost c))) (\<lambda>g. Inr (c\<lparr>g311_gost := g\<rparr>))))"

definition gost34311_get_block_size :: "Gost34311Ctx option \<Rightarrow> nat" where
  "gost34311_get_block_size c = 32"


end
