(* ===== verification/GostStep.thy ===== *)
theory GostStep
  imports Gost34311
begin

text \<open>
  The step function of GOST 34.311-95 as the standard writes it, and the proof that the code, which has
  the 74 rounds of the shift register and the key schedule multiplied out, computes it.
\<close>

subsection \<open>The shift register\<close>

definition psi :: "'a::semiring_bit_operations list \<Rightarrow> 'a list" where
  "psi g = tl g @ [g ! 0 XOR g ! 1 XOR g ! 2 XOR g ! 3 XOR g ! 12 XOR g ! 15]"

definition xor_list :: "'a::semiring_bit_operations list \<Rightarrow> 'a list \<Rightarrow> 'a list" where
  "xor_list = map2 (XOR)"

definition chi :: "'a::semiring_bit_operations list \<Rightarrow> 'a list \<Rightarrow> 'a list \<Rightarrow> 'a list" where
  "chi h m s = (psi ^^ 61) (xor_list h (psi (xor_list m ((psi ^^ 12) s))))"

lemma length_psi [simp]: "0 < length g \<Longrightarrow> length (psi g) = length g"
  by (simp add: psi_def)

lemma length_psi_pow [simp]: "length g = 16 \<Longrightarrow> length ((psi ^^ n) g) = 16"
  by (induction n) simp_all

lemma psi_hom:
  assumes "\<And>x y. f (x XOR y) = f x XOR f y" "length g = 16"
  shows "psi (map f g) = map f (psi g)"
  using assms by (simp add: psi_def map_tl)

lemma psi_pow_hom:
  assumes "\<And>x y. f (x XOR y) = f x XOR f y" "length g = 16"
  shows "(psi ^^ n) (map f g) = map f ((psi ^^ n) g)"
  by (induction n) (simp_all add: assms psi_hom[of f])

lemma xor_list_hom:
  assumes "\<And>x y. f (x XOR y) = f x XOR f y"
  shows "xor_list (map f a) (map f b) = map f (xor_list a b)"
  by (simp add: xor_list_def zip_map_map comp_def split_def assms)

lemma length_xor_list [simp]: "length (xor_list a b) = min (length a) (length b)"
  by (simp add: xor_list_def)

text \<open>Both sides commute with every map that preserves sums modulo 2, so it is enough to compare them on unit vectors.\<close>

lemma chi_hom:
  assumes "\<And>x y. f (x XOR y) = f x XOR f y" "length a = 16" "length b = 16" "length c = 16"
  shows "chi (map f a) (map f b) (map f c) = map f (chi a b c)"
  by (simp add: chi_def assms psi_pow_hom[of f] psi_hom[of f] xor_list_hom[of f])

lemma mix_words_hom:
  assumes "\<And>x y. f (x XOR y) = f x XOR f y" "length a = 16" "length b = 16" "length c = 16"
  shows "mix_words (map f a) (map f b) (map f c) = map f (mix_words a b c)"
  unfolding mix_words_def Let_def by (simp add: assms)

definition units :: "int list list" where
  "units =
    [[1, 2, 4, 8, 16, 32, 64, 128, 256, 512, 1024, 2048, 4096, 8192, 16384, 32768],
     [65536, 131072, 262144, 524288, 1048576, 2097152, 4194304, 8388608, 16777216, 33554432, 67108864, 134217728, 268435456, 536870912, 1073741824, 2147483648],
     [4294967296, 8589934592, 17179869184, 34359738368, 68719476736, 137438953472, 274877906944, 549755813888, 1099511627776, 2199023255552, 4398046511104, 8796093022208, 17592186044416, 35184372088832, 70368744177664, 140737488355328]]"

lemma psi_pow_numeral: "(psi ^^ numeral k) g = (psi ^^ pred_numeral k) (psi g)"
  by (simp add: numeral_eq_Suc funpow_Suc_right del: funpow.simps)

lemma psi_pow_1: "(psi ^^ Suc 0) g = psi g"
  by simp

lemma psi_16: "psi [a0, a1, a2, a3, a4, a5, a6, a7, a8, a9, a10, a11, a12, a13, a14, a15] =
     [a1, a2, a3, a4, a5, a6, a7, a8, a9, a10, a11, a12, a13, a14, a15, a0 XOR a1 XOR a2 XOR a3 XOR a12 XOR a15]"
  by (simp add: psi_def)

lemma mix_units: "mix_words (units ! 0) (units ! 1) (units ! 2) = chi (units ! 0) (units ! 1) (units ! 2)"
proof -
  have "chi (units ! 0) (units ! 1) (units ! 2) = mix_words (units ! 0) (units ! 1) (units ! 2)"
    unfolding mix_words_def Let_def units_def
    by (simp add: chi_def psi_16 psi_pow_numeral psi_pow_1 xor_list_def del: funpow.simps)
  then show ?thesis by simp
qed

text \<open>The terms of a sum modulo 2 of the words \<open>v\<close>, as the bits of a number.\<close>

definition xor_of :: "'a::semiring_bit_operations list \<Rightarrow> int \<Rightarrow> 'a" where
  "xor_of v m = foldr (\<lambda>i s. (if bit m i then v ! i else 0) XOR s) [0..<length v] 0"

lemma xor_of_hom: "xor_of (v :: 'a::len word list) (m XOR n) = xor_of v m XOR xor_of v n"
proof -
  have "foldr (\<lambda>i s. (if bit (m XOR n) i then v ! i else 0) XOR s) is 0
     = foldr (\<lambda>i s. (if bit m i then v ! i else 0) XOR s) is 0 XOR foldr (\<lambda>i s. (if bit n i then v ! i else 0) XOR s) is 0" for "is"
    by (induction "is") (auto simp: bit_xor_iff ac_simps xor.left_commute)
  then show ?thesis by (simp add: xor_of_def)
qed

lemma xor_of_unit:
  assumes "i < length v"
  shows "xor_of (v :: 'a::len word list) (2 ^ i) = v ! i"
proof -
  have "foldr (\<lambda>j s. (if bit (2 ^ i :: int) j then v ! j else 0) XOR s) js 0 = (if i \<in> set js then v ! i else 0)" if "distinct js" for js
    using that by (induction js) (auto simp: bit_exp_iff)
  then show ?thesis using assms by (simp add: xor_of_def)
qed

lemma units_nth: "i < 3 \<Longrightarrow> j < 16 \<Longrightarrow> units ! i ! j = 2 ^ (16 * i + j)"
  by (auto simp: units_def less_Suc_eq numeral_eq_Suc)

lemma map_units:
  assumes "length v = 48" "i < 3"
  shows "map (xor_of (v :: 'a::len word list)) (units ! i) = take 16 (drop (16 * i) v)"
proof (rule nth_equalityI)
  have l: "length (units ! i) = 16" using assms(2) by (auto simp: units_def less_Suc_eq numeral_eq_Suc)
  then show "length (map (xor_of v) (units ! i)) = length (take 16 (drop (16 * i) v))" using assms by simp
  fix j assume "j < length (map (xor_of v) (units ! i))"
  then have "j < 16" using l by simp
  then show "map (xor_of v) (units ! i) ! j = take 16 (drop (16 * i) v) ! j"
    using assms by (simp add: l units_nth xor_of_unit)
qed

theorem mix_words_chi:
  assumes "length a = 16" "length b = 16" "length c = 16"
  shows "mix_words a b (c :: 'a::len word list) = chi a b c"
proof -
  define f where "f = xor_of (a @ b @ c)"
  have l: "length (units ! i) = 16" if "i < 3" for i using that by (auto simp: units_def less_Suc_eq numeral_eq_Suc)
  have f: "f (x XOR y) = f x XOR f y" for x y by (simp add: f_def xor_of_hom)
  have "map f (units ! 0) = a" "map f (units ! 1) = b" "map f (units ! 2) = c"
    using map_units[of "a @ b @ c" 0] map_units[of "a @ b @ c" 1] map_units[of "a @ b @ c" 2] assms by (simp_all add: f_def)
  moreover have "mix_words (map f (units ! 0)) (map f (units ! 1)) (map f (units ! 2))
     = chi (map f (units ! 0)) (map f (units ! 1)) (map f (units ! 2))"
    by (simp add: mix_words_hom[of f, OF f] chi_hom[of f, OF f] l mix_units[unfolded One_nat_def])
  ultimately show ?thesis by simp
qed

text \<open>The exchange of the bytes of a word commutes with sums, so the byte order of the host does not matter.\<close>

definition swap16 :: "u16 \<Rightarrow> u16" where
  "swap16 w = push_bit 8 w OR drop_bit 8 w"

lemma swap16_hom: "swap16 (x XOR y) = swap16 x XOR swap16 y"
  by (rule bit_word_eqI) (auto simp: swap16_def bit_simps dest: bit_imp_le_length)

lemma swap16_swap16 [simp]: "swap16 (swap16 w) = w"
  by (rule bit_word_eqI) (auto simp: swap16_def bit_simps dest: bit_imp_le_length)

lemma word_of_bytes_16: "word_of_bytes False [a, b] = (ucast a OR push_bit 8 (ucast b) :: u16)"
proof -
  have "word_of_bytes False [a, b] = (ucast a + push_bit 8 (ucast b) :: u16)"
    by (simp add: word_of_bytes_def push_bit_eq_mult mult.commute)
  also have "\<dots> = ucast a OR push_bit 8 (ucast b)"
    by (rule disjunctive_add) (auto simp: bit_simps dest: bit_imp_le_length)
  finally show ?thesis .
qed

lemma swap16_bytes: "(word_of_bytes True [a, b] :: u16) = swap16 (word_of_bytes False [a, b])"
  unfolding word_of_bytes_True rev.simps append.simps word_of_bytes_16 swap16_def
  by (rule bit_word_eqI) (auto simp: bit_simps dest: bit_imp_le_length)

lemma load_swap16:
  assumes "even (length bs)"
  shows "(load_words True bs :: u16 list) = map swap16 (load_words False bs)"
proof -
  have "(word_of_bytes True c :: u16) = swap16 (word_of_bytes False c)" if "c \<in> set (chunks 2 bs)" for c
  proof -
    have "length c = 2" using that by (simp add: length_in_chunks)
    then obtain a b where "c = [a, b]" by (auto simp: numeral_2_eq_2 length_Suc_conv)
    then show ?thesis by (simp add: swap16_bytes)
  qed
  then show ?thesis by (simp add: load_words_def)
qed

lemma store_swap16: "store_words True (map swap16 ws) = store_words False ws"
proof -
  define bs where "bs = store_words False ws"
  have "ws = load_words False bs" by (simp add: bs_def)
  moreover have "even (length bs)" by (simp add: bs_def length_store_words)
  ultimately have "map swap16 ws = load_words True bs" by (simp add: load_swap16)
  then show ?thesis using \<open>even (length bs)\<close> by (simp flip: bs_def)
qed

lemma mix_transform_eq:
  assumes "length a = 32" "length b = 32" "length c = 32"
  shows "mix_transform be a b c
     = store_words False (chi (load_words False a) (load_words False b) (load_words False c :: u16 list))"
  using assms
  by (cases be) (simp_all add: mix_transform_def load_swap16 mix_words_hom[of swap16, OF swap16_hom] chi_hom[of swap16, OF swap16_hom] store_swap16 mix_words_chi)

subsection \<open>The keys\<close>

text \<open>The standard's transformation \<open>A\<close> of four words of 64 bits, written as eight words of 32 bits.\<close>

definition std_A :: "'a::semiring_bit_operations list \<Rightarrow> 'a list" where
  "std_A y = drop 2 y @ [y ! 0 XOR y ! 2, y ! 1 XOR y ! 3]"

definition std_C3 :: "u32 list" where
  "std_C3 = [0xff00ff00, 0xff00ff00, 0x00ff00ff, 0x00ff00ff, 0x00ffff00, 0xff0000ff, 0x000000ff, 0xff00ffff]"

definition std_U :: "u32 list \<Rightarrow> nat \<Rightarrow> u32 list" where
  "std_U h = rec_nat h (\<lambda>j u. if j = 1 then xor_list (std_A u) std_C3 else std_A u)"

definition std_V :: "u32 list \<Rightarrow> nat \<Rightarrow> u32 list" where
  "std_V m j = ((\<lambda>v. std_A (std_A v)) ^^ j) m"

text \<open>The permutation \<open>P\<close> of the bytes.\<close>

definition std_P :: "u8 list \<Rightarrow> u8 list" where
  "std_P b = map (\<lambda>k. b ! (8 * (k mod 4) + k div 4)) [0..<32]"

definition std_K :: "u32 list \<Rightarrow> u32 list \<Rightarrow> nat \<Rightarrow> u8 list" where
  "std_K h m j = std_P (store_words False (xor_list (std_U h j) (std_V m j)))"


lemma upt_32: "[0..<32] = [0, 1, 2, 3, 4, 5, 6, 7, 8, 9, 10, 11, 12, 13, 14, 15, 16, 17, 18, 19, 20, 21, 22, 23, 24, 25, 26, 27, 28, 29, 30, 31]"
  by code_simp

lemma bytes_of_u32: "bytes_of_word False (w :: u32) = put_le32 w"
proof -
  have "word_of_bytes False (put_le32 w) = w"
    unfolding put_le32_def word_of_bytes_le32 by (rule bit_u32_eqI) (simp add: upt_32 bit_simps)
  then show ?thesis using bytes_of_word_of_bytes[of "put_le32 w" False, where 'a=32] by simp
qed

text \<open>A word of \<^verbatim>\<open>copy_keys\<close> gathers byte \<open>q\<close> of each of its four arguments.\<close>

definition gather :: "nat \<Rightarrow> u32 \<Rightarrow> u32 \<Rightarrow> u32 \<Rightarrow> u32 \<Rightarrow> u32" where
  "gather n x1 x2 x3 x4 = word_of_bytes False [ucast (drop_bit n x1), ucast (drop_bit n x2), ucast (drop_bit n x3), ucast (drop_bit n x4)]"

lemma copy_keys_gather: "copy_keys x1 x2 x3 x4 = [gather 0 x1 x2 x3 x4, gather 8 x1 x2 x3 x4, gather 16 x1 x2 x3 x4, gather 24 x1 x2 x3 x4]"
proof -
  have "(x1 AND 0xff) XOR push_bit 8 (x2 AND 0xff) XOR push_bit 16 (x3 AND 0xff) XOR push_bit 24 (x4 AND 0xff) = gather 0 x1 x2 x3 x4"
    unfolding gather_def word_of_bytes_le32
    by (rule bit_u32_eqI) (simp add: upt_32 bit_simps)
  moreover have "drop_bit 8 (x1 AND 0xff00) XOR (x2 AND 0xff00) XOR push_bit 8 (x3 AND 0xff00) XOR push_bit 16 (x4 AND 0xff00) = gather 8 x1 x2 x3 x4"
    unfolding gather_def word_of_bytes_le32
    by (rule bit_u32_eqI) (simp add: upt_32 bit_simps)
  moreover have "drop_bit 16 (x1 AND 0xff0000) XOR drop_bit 8 (x2 AND 0xff0000) XOR (x3 AND 0xff0000) XOR push_bit 8 (x4 AND 0xff0000) = gather 16 x1 x2 x3 x4"
    unfolding gather_def word_of_bytes_le32
    by (rule bit_u32_eqI) (simp add: upt_32 bit_simps)
  moreover have "drop_bit 24 (x1 AND 0xff000000) XOR drop_bit 16 (x2 AND 0xff000000) XOR drop_bit 8 (x3 AND 0xff000000) XOR (x4 AND 0xff000000) = gather 24 x1 x2 x3 x4"
    unfolding gather_def word_of_bytes_le32
    by (rule bit_u32_eqI) (simp add: upt_32 bit_simps)
  ultimately show ?thesis by (simp only: copy_keys_def)
qed

lemma std_P_words: "load_words False (std_P (store_words False [w0, w1, w2, w3, w4, w5, w6, w7 :: u32]))
   = copy_keys w0 w2 w4 w6 @ copy_keys w1 w3 w5 w7"
proof -
  have l: "load_words False (a # b # c # d # xs) = (word_of_bytes False [a, b, c, d] :: u32) # load_words False xs" for a b c d xs
    using load_words_block[of "[a, b, c, d]" False xs, where 'a=32] by simp
  have e: "load_words False [] = ([] :: u32 list)" by (simp add: load_words_def)
  show ?thesis unfolding std_P_def upt_32 copy_keys_gather gather_def
    by (simp add: store_words_def bytes_of_u32 put_le32_def l e)
qed

lemma generate_keys_std:
  assumes "length h = 8" "length m = 8"
  shows "generate_keys h m = concat (map (\<lambda>j. load_words False (std_K h m j)) [0..<4])"
proof -
  obtain h0 h1 h2 h3 h4 h5 h6 h7 where h: "h = [h0, h1, h2, h3, h4, h5, h6, h7]"
    using assms(1) by (auto simp: numeral_eq_Suc length_Suc_conv)
  obtain m0 m1 m2 m3 m4 m5 m6 m7 where m: "m = [m0, m1, m2, m3, m4, m5, m6, m7]"
    using assms(2) by (auto simp: numeral_eq_Suc length_Suc_conv)
  have j: "[0..<4] = [0, 1, 2, 3]" by (simp add: upt_rec)
  have n: "(2::nat) = Suc (Suc 0)" "(3::nat) = Suc (Suc (Suc 0))" by simp_all
  have x: "xor_list [] [] = ([] :: u32 list)" "xor_list (a # as) (b # bs) = (a XOR b) # xor_list as (bs :: u32 list)" for a b as bs
    by (simp_all add: xor_list_def)
  have A: "std_A [y0, y1, y2, y3, y4, y5, y6, y7] = [y2, y3, y4, y5, y6, y7, y0 XOR y2, y1 XOR y3]" for y0 y1 y2 y3 y4 y5 y6 y7 :: u32
    by (simp add: std_A_def)
  have U: "std_U h 0 = h" "std_U h (Suc 0) = std_A h" "std_U h 2 = xor_list (std_A (std_A h)) std_C3"
    "std_U h 3 = std_A (xor_list (std_A (std_A h)) std_C3)"
    by (simp_all add: std_U_def n)
  have V: "std_V m 0 = m" "std_V m (Suc 0) = std_A (std_A m)" "std_V m 2 = std_A (std_A (std_A (std_A m)))"
    "std_V m 3 = std_A (std_A (std_A (std_A (std_A (std_A m)))))"
    by (simp_all add: std_V_def n)
  show ?thesis
    unfolding j std_K_def list.map One_nat_def U V unfolding h m A x std_C3_def std_P_words
    by (simp add: generate_keys_def ac_simps)
qed

subsection \<open>The step\<close>

lemma feistel_cong: "(\<And>i. i \<in> set is \<Longrightarrow> f i = g i) \<Longrightarrow> feistel f is s = feistel g is s"
  by (induction f "is" s rule: feistel.induct) simp_all

lemma key_order_32: "map (\<lambda>i. i mod 8) [0..<24] @ rev [0..<8] = ENCRYPT_KEY_ORDER"
  by code_simp

lemma feistel_key:
  assumes "length pre = p" "length k = 8"
  shows "feistel (\<lambda>i x. SBOX_TRANSFORM sbox (x + (pre @ k @ post) ! (p + i))) ENCRYPT_KEY_ORDER s
    = feistel (gost_F sbox k) ENCRYPT_KEY_ORDER s"
proof (rule feistel_cong)
  fix i assume "i \<in> set ENCRYPT_KEY_ORDER"
  then have "i < 8" by (auto simp: ENCRYPT_KEY_ORDER_def)
  then show "(\<lambda>x. SBOX_TRANSFORM sbox (x + (pre @ k @ post) ! (p + i))) = gost_F sbox k i"
    using assms by (auto simp: gost_F_def nth_append)
qed

lemma base_cycle32_eq:
  assumes "length k0 = 8" "length k1 = 8" "length k2 = 8" "length k3 = 8"
  shows "base_cycle32 c [s0, s1, s2, s3, s4, s5, s6, s7] (k0 @ k1 @ k2 @ k3) =
     (let e = \<lambda>k s. [fst (gost_enc (gost_sbox c) k s), snd (gost_enc (gost_sbox c) k s)]
      in e k0 (s0, s1) @ e k1 (s2, s3) @ e k2 (s4, s5) @ e k3 (s6, s7))"
proof -
  note f = feistel_key[of "[]" 0 k0 _ "k1 @ k2 @ k3"] feistel_key[of k0 8 k1 _ "k2 @ k3"]
    feistel_key[of "k0 @ k1" 16 k2 _ k3] feistel_key[of "k0 @ k1 @ k2" 24 k3 _ "[]"]
  have e: "even (length ENCRYPT_KEY_ORDER)" by simp
  show ?thesis
    unfolding base_cycle32_def key_order_32 cycle32_feistel[OF e] xor_swaps_eq gost_pair_def
    using f assms by (simp add: Let_def)
qed

text \<open>\<open>h\<close> is the chaining value, \<open>m\<close> the block; part \<open>j\<close> of \<open>h\<close> is encrypted with the key \<open>j\<close>.\<close>

definition std_S :: "u32 list \<Rightarrow> u8 list \<Rightarrow> u8 list \<Rightarrow> u8 list" where
  "std_S sbox h m = concat (map (\<lambda>j. on_bytes (gost_enc sbox (load_words False (std_K (load_words False h) (load_words False m) j)))
     (take 8 (drop (8 * j) h))) [0..<4])"

definition std_step :: "u32 list \<Rightarrow> u8 list \<Rightarrow> u8 list \<Rightarrow> u8 list" where
  "std_step sbox h m = store_words False (chi (load_words False h) (load_words False m) (load_words False (std_S sbox h m) :: u16 list))"

lemma length_std_P [simp]: "length (std_P b) = 32"
  by (simp add: std_P_def)

lemma length_std_K [simp]: "length (std_K h m j) = 32"
  by (simp add: std_K_def)

lemma std_S_eq:
  assumes "length h = 32" "length m = 32"
  shows "store_words False (base_cycle32 c (load_words False h) (generate_keys (load_words False h) (load_words False m)))
     = std_S (gost_sbox c) h m" and "length (std_S sbox h m) = 32"
proof -
  define k where "k j = (load_words False (std_K (load_words False h) (load_words False m) j) :: u32 list)" for j
  have k: "length (k j) = 8" for j by (simp add: k_def)
  have j: "[0..<4] = [0, 1, 2, 3]" by (simp add: upt_rec)
  obtain s0 s1 s2 s3 s4 s5 s6 s7 where s: "(load_words False h :: u32 list) = [s0, s1, s2, s3, s4, s5, s6, s7]"
  proof -
    obtain L where L: "L = (load_words False h :: u32 list)" by simp
    then have "length L = 8" using assms by simp
    then show ?thesis using that unfolding L[symmetric] by (auto simp: numeral_eq_Suc length_Suc_conv)
  qed
  have h: "h = store_words False [s0, s1, s2, s3, s4, s5, s6, s7]" using assms(1) by (simp flip: s)
  have t: "take 8 (drop (8 * j) h) = store_words False (take 2 (drop (2 * j) [s0, s1, s2, s3, s4, s5, s6, s7]))" if "j < 4" for j
    using that unfolding h by (auto simp: store_words_def bytes_of_u32 put_le32_def less_Suc_eq numeral_eq_Suc)
  have g: "generate_keys (load_words False h) (load_words False m) = k 0 @ k 1 @ k 2 @ k 3"
    using assms by (simp add: generate_keys_std j k_def)
  have S: "std_S sbox h m = concat (map (\<lambda>j. on_bytes (gost_enc sbox (k j)) (store_words False (take 2 (drop (2 * j) [s0, s1, s2, s3, s4, s5, s6, s7])))) [0, 1, 2, 3])" for sbox
    unfolding std_S_def j k_def using t[of 0] t[of 1] t[of 2] t[of 3] by simp
  show "store_words False (base_cycle32 c (load_words False h) (generate_keys (load_words False h) (load_words False m)))
     = std_S (gost_sbox c) h m"
    unfolding g unfolding s base_cycle32_eq[OF k k k k] S by (simp add: on_bytes_def Let_def) (simp add: store_words_def)
  show "length (std_S sbox h m) = 32" unfolding S by (simp add: length_store_words)
qed

theorem hash_step_eq:
  assumes "length (g311_H c) = 32" "length m = 32"
  shows "hash_step be c m = Inr (c\<lparr>g311_H := std_step (gost_sbox (g311_gost c)) (g311_H c) m\<rparr>)"
proof -
  define B where "B = base_cycle32 (g311_gost c) (load_words False (g311_H c))
     (generate_keys (load_words False (g311_H c)) (load_words False m))"
  have S: "store_words False B = std_S (gost_sbox (g311_gost c)) (g311_H c) m" using std_S_eq(1)[OF assms] by (simp add: B_def)
  have "length (store_words False B) = 32" unfolding S using std_S_eq(2)[OF assms] .
  then have l: "length B = 8" by (simp add: length_store_words)
  show ?thesis using assms l S std_S_eq(2)[OF assms]
    by (simp add: hash_step_def uint8_to_uint32_eq uint32_to_uint8_eq mix_transform_eq std_step_def Let_def flip: B_def)
qed

end
