(* ===== verification/GostHash.thy ===== *)
theory GostHash
  imports GostStep
begin

text \<open>
  The hash function GOST 34.311-95 over a message: absorbing fragments, the counter of bits and the
  control sum, and the interpretation of the hash interface.
\<close>

subsection \<open>The control sum and the counter\<close>

text \<open>\<open>num_bytes n v\<close> are the lowest \<open>n\<close> bytes of \<open>v\<close>, least significant first.\<close>

definition num_bytes :: "nat \<Rightarrow> nat \<Rightarrow> u8 list" where
  "num_bytes n v = map of_nat (digits_le 256 n v)"

lemma digits_le_mod: "0 < b \<Longrightarrow> digits_le b n (v mod b ^ n) = digits_le b n v"
  using digits_nat_le[of "digits_le b n v" b] digits_le_less[of b _ n v] by (simp add: nat_le_digits)

lemma num_bytes_val: "length bs = n \<Longrightarrow> num_bytes n (word_val bs) = bs"
  unfolding num_bytes_def word_val_def
  using digits_nat_le[of "map unat bs" 256] unsigned_less[where 'b=8] by (force simp: comp_def)

lemma store_words_num:
  assumes "length ws = 8" "word_val (ws :: u32 list) = v mod 2 ^ 256"
  shows "store_words False ws = num_bytes 32 v"
proof -
  have "(2 :: nat) ^ 256 = 256 ^ 32" by simp
  then have "num_bytes 32 (v mod 2 ^ 256) = num_bytes 32 v" unfolding num_bytes_def by (simp only: digits_le_mod)
  moreover have "num_bytes 32 (word_val (store_words False ws)) = store_words False ws"
    by (rule num_bytes_val) (simp add: length_store_words assms)
  moreover have "word_val (store_words False ws) = v mod 2 ^ 256" using assms(2) word_val_store_words[of ws] by simp
  ultimately show ?thesis by metis
qed

lemma low_digit_mod: "r < b \<Longrightarrow> r + b * (q mod c) = (r + b * q) mod (b * c :: nat)"
  by (simp add: mod_mult2_eq)

lemma add256_val:
  assumes "length xs = length ys" "unat s div 2 ^ 32 \<le> 1"
  shows "length (add256 s xs ys) = length xs
    \<and> word_val (add256 s xs ys) = (word_val xs + word_val ys + unat s div 2 ^ 32) mod 2 ^ (32 * length xs)"
  using assms
proof (induction s xs ys rule: add256.induct)
  case (1 s x xs y ys)
  define t :: u64 where "t = ucast x + ucast y + drop_bit 32 s"
  have b: "unat x < 2 ^ 32" "unat y < 2 ^ 32" using unsigned_less[of x] unsigned_less[of y] by simp_all
  have d: "unat (drop_bit 32 s) = unat s div 2 ^ 32" unfolding unat_drop_bit_eq unfolding drop_bit_eq_div ..
  have u: "unat (ucast x :: u64) = unat x" "unat (ucast y :: u64) = unat y" using b by (simp_all add: unsigned_ucast_eq take_bit_eq_mod)
  have t: "unat t = unat x + unat y + unat s div 2 ^ 32"
    unfolding t_def using b 1(3) by (simp add: unat_word_ariths u d)
  then have c: "unat t div 2 ^ 32 \<le> 1" using b 1(3) by simp
  have e: "unat (ucast t :: u32) = unat t mod 2 ^ 32" by (simp add: unsigned_ucast_eq take_bit_eq_mod)
  note IH = 1(1)[OF t_def _ c]
  have l: "length (add256 t xs ys) = length xs"
    and v: "word_val (add256 t xs ys) = (word_val xs + word_val ys + unat t div 2 ^ 32) mod 2 ^ (32 * length xs)"
    using IH 1(2) by simp_all
  have "word_val (add256 s (x # xs) (y # ys)) = unat t mod 2 ^ 32 + 2 ^ 32 * ((word_val xs + word_val ys + unat t div 2 ^ 32) mod 2 ^ (32 * length xs))"
    by (simp add: Let_def e v flip: t_def)
  also have "\<dots> = (unat t mod 2 ^ 32 + 2 ^ 32 * (word_val xs + word_val ys + unat t div 2 ^ 32)) mod (2 ^ 32 * 2 ^ (32 * length xs))"
    by (rule low_digit_mod) simp
  also have "unat t mod 2 ^ 32 + 2 ^ 32 * (word_val xs + word_val ys + unat t div 2 ^ 32) = unat t + 2 ^ 32 * (word_val xs + word_val ys)"
    by (simp add: distrib_left)
  also have "\<dots> = word_val (x # xs) + word_val (y # ys) + unat s div 2 ^ 32" by (simp add: t distrib_left)
  finally show ?case using l by (simp add: Let_def power_add flip: t_def)
qed simp_all

lemma sum_split:
  fixes w n :: u32
  shows "2 ^ 32 \<le> unat w + unat n \<Longrightarrow> unat (w + n) = unat w + unat n - 2 ^ 32 \<and> w + n < n"
    and "unat w + unat n < 2 ^ 32 \<Longrightarrow> unat (w + n) = unat w + unat n \<and> \<not> w + n < n"
proof -
  have b: "unat w < 2 ^ 32" "unat n < 2 ^ 32" using unsigned_less[of w] unsigned_less[of n] by simp_all
  have s: "unat (w + n) = (unat w + unat n) mod 2 ^ 32" by (simp add: unat_word_ariths)
  show "2 ^ 32 \<le> unat w + unat n \<Longrightarrow> unat (w + n) = unat w + unat n - 2 ^ 32 \<and> w + n < n"
    unfolding word_less_nat_alt s using b by (simp add: le_mod_geq)
  show "unat w + unat n < 2 ^ 32 \<Longrightarrow> unat (w + n) = unat w + unat n \<and> \<not> w + n < n"
    unfolding word_less_nat_alt s by simp
qed

lemma carry_loop_val: "length (carry_loop ws) = length ws \<and> word_val (carry_loop ws) = (word_val ws + 1) mod 2 ^ (32 * length ws)"
proof (induction ws)
  case (Cons w ws)
  have b: "unat w < 2 ^ 32" using unsigned_less[of w] by simp
  have v: "word_val (w # ws) < 2 ^ 32 * 2 ^ (32 * length ws)" using word_val_bound[of "w # ws"] by (simp add: power_add)
  show ?case
  proof (cases "w + 1 = 0")
    case True
    then have "unat (w + 1) = 0" by simp
    then have w: "unat w = 2 ^ 32 - 1" using sum_split[of w 1] b by (cases "2 ^ 32 \<le> unat w + unat (1 :: u32)") auto
    have "word_val (carry_loop (w # ws)) = 2 ^ 32 * ((word_val ws + 1) mod 2 ^ (32 * length ws))"
      using True Cons by (simp add: Let_def)
    also have "\<dots> = (word_val (w # ws) + 1) mod (2 ^ 32 * 2 ^ (32 * length ws))"
      by (simp only: mult_mod_right) (simp add: w distrib_left)
    finally show ?thesis using True Cons by (simp add: Let_def power_add)
  next
    case False
    have "unat w + 1 < 2 ^ 32"
    proof (rule ccontr)
      assume "\<not> ?thesis"
      then have "unat (w + 1) = 0" using sum_split(1)[of w 1] b by simp
      then show False using False by (simp add: unat_eq_zero)
    qed
    then have u: "unat (w + 1) = unat w + 1" using sum_split(2)[of w 1] by simp
    have "word_val ((w + 1) # ws) < 2 ^ 32 * 2 ^ (32 * length ws)" using word_val_bound[of "(w + 1) # ws"] by (simp add: power_add)
    then show ?thesis using False by (simp add: Let_def power_add u)
  qed
qed simp

lemma count_bits_val:
  assumes "length l = 8"
  shows "length (count_bits l n) = 8 \<and> word_val (count_bits l n) = (word_val l + unat n) mod 2 ^ 256"
proof -
  obtain w ws where l: "l = w # ws" "length ws = 7" using assms by (auto simp: numeral_eq_Suc length_Suc_conv)
  have b: "unat w < 2 ^ 32" "unat n < 2 ^ 32" using unsigned_less[of w] unsigned_less[of n] by simp_all
  have p: "(2 :: nat) ^ 256 = 2 ^ 32 * 2 ^ (32 * length ws)" by (simp add: l flip: power_add)
  show ?thesis
  proof (cases "2 ^ 32 \<le> unat w + unat n")
    case True
    have "word_val (count_bits l n) = unat w + unat n - 2 ^ 32 + 2 ^ 32 * ((word_val ws + 1) mod 2 ^ (32 * length ws))"
      using sum_split(1)[OF True] carry_loop_val[of ws] by (simp add: count_bits_def l Let_def)
    also have "\<dots> = (unat w + unat n - 2 ^ 32 + 2 ^ 32 * (word_val ws + 1)) mod (2 ^ 32 * 2 ^ (32 * length ws))"
      by (rule low_digit_mod) (use b in simp)
    also have "unat w + unat n - 2 ^ 32 + 2 ^ 32 * (word_val ws + 1) = word_val l + unat n"
      using True by (simp add: l)
    finally show ?thesis using sum_split(1)[OF True] carry_loop_val[of ws] p by (simp add: count_bits_def l Let_def)
  next
    case False
    then have u: "unat (w + n) = unat w + unat n" "\<not> w + n < n" using sum_split(2)[of w n] by simp_all
    have "word_val ((w + n) # ws) < 2 ^ 256" using word_val_bound[of "(w + n) # ws"] by (simp add: l)
    then show ?thesis using u by (simp add: count_bits_def l Let_def)
  qed
qed

subsection \<open>The digest\<close>

text \<open>
  The message is completed with zeros to whole blocks, at least one; then come the length in bits and
  the sum of the blocks, as numbers of 256 bits.
\<close>

definition zero_pad :: "u8 list \<Rightarrow> u8 list" where
  "zero_pad m = m @ replicate (if m = [] then 32 else (32 - length m mod 32) mod 32) 0"

definition gost34311 :: "u32 list \<Rightarrow> u8 list \<Rightarrow> u8 list \<Rightarrow> u8 list" where
  "gost34311 sbox sync m =
     (let bs = chunks 32 (zero_pad m)
      in std_step sbox (std_step sbox (foldl (std_step sbox) sync bs) (num_bytes 32 (8 * length m)))
           (num_bytes 32 (sum_list (map word_val bs))))"

lemma length_std_step [simp]: "length h = 32 \<Longrightarrow> length m = 32 \<Longrightarrow> length (std_step sbox h m) = 32"
  by (simp add: std_step_def length_store_words chi_def std_S_eq)

lemma length_foldl_step [simp]: "length h = 32 \<Longrightarrow> length (foldl (std_step sbox) h (chunks 32 d)) = 32"
proof -
  have "length (foldl (std_step sbox) h bs) = 32" if "length h = 32" "\<forall>b \<in> set bs. length b = 32" for h bs
    using that by (induction bs arbitrary: h) simp_all
  then show "length h = 32 \<Longrightarrow> length (foldl (std_step sbox) h (chunks 32 d)) = 32" by (simp add: length_in_chunks)
qed

text \<open>A context that has hashed the blocks of \<open>d\<close> and holds the rest \<open>r\<close>.\<close>

definition g311_part :: "Gost28147Ctx \<Rightarrow> u8 list \<Rightarrow> u8 list \<Rightarrow> u8 list \<Rightarrow> Gost34311Ctx \<Rightarrow> bool" where
  "g311_part g sync d r c \<longleftrightarrow> 32 dvd length d \<and> length r \<le> 32 \<and> length sync = 32 \<and> g311_gost c = g \<and> g311_sync c = sync
     \<and> length (g311_m32 c) = 32 \<and> g311_m32_ind c = length r \<and> take (length r) (g311_m32 c) = r
     \<and> g311_H c = foldl (std_step (gost_sbox g)) sync (chunks 32 d)
     \<and> length (g311_sigma c) = 8 \<and> word_val (g311_sigma c) = sum_list (map word_val (chunks 32 d)) mod 2 ^ 256
     \<and> length (g311_m_bit_len c) = 8 \<and> word_val (g311_m_bit_len c) = 8 * length d mod 2 ^ 256"

definition g311_holds :: "Gost28147Ctx \<Rightarrow> u8 list \<Rightarrow> Gost34311Ctx \<Rightarrow> u8 list \<Rightarrow> bool" where
  "g311_holds g sync c m \<longleftrightarrow> (\<exists>d r. m = d @ r \<and> g311_part g sync d r c \<and> (r = [] \<longrightarrow> d = []))"

lemma chunks_32_snoc: "32 dvd length d \<Longrightarrow> length b = 32 \<Longrightarrow> chunks 32 (d @ b) = chunks 32 d @ [b]"
  using chunks_block[of b 32 "[]"] by (simp add: chunks_append)

lemma gost34311_block_part:
  assumes "g311_part g sync d r c" "length r = 32"
  shows "\<exists>c'. gost34311_block be c = Inr c' \<and> g311_part g sync (d @ r) [] (c'\<lparr>g311_m32_ind := 0\<rparr>)"
proof -
  note a = assms(1)[unfolded g311_part_def]
  have m: "g311_m32 c = r" using a assms(2) take_all[of "g311_m32 c" 32] by simp
  have l: "length (count_bits (g311_m_bit_len c) 256) = 8"
      "word_val (count_bits (g311_m_bit_len c) 256) = 8 * length (d @ r) mod 2 ^ 256"
    using count_bits_val[of "g311_m_bit_len c" 256] a assms(2) by (simp_all add: mod_simps)
  have s: "length (add256 0 (g311_sigma c) (load_words False r)) = 8"
      "word_val (add256 0 (g311_sigma c) (load_words False r)) = (sum_list (map word_val (chunks 32 d)) + word_val r) mod 2 ^ 256"
    using add256_val[of "g311_sigma c" "load_words False r" 0] a assms(2) word_val_load_words[of r, where 'a=32]
    by (simp_all add: mod_simps)
  show ?thesis
    using a assms(2) l s
    by (simp add: gost34311_block_def m hash_step_eq uint8_to_uint32_eq Let_def g311_part_def chunks_32_snoc)
qed

lemma gost34311_loop_part:
  assumes "g311_part g sync d r c" "r @ buf = [] \<Longrightarrow> d = []"
  shows "\<exists>c' d' r'. gost34311_loop be c buf = Inr c' \<and> d' @ r' = d @ r @ buf \<and> g311_part g sync d' r' c' \<and> (r' = [] \<longrightarrow> d' = [])"
  using assms
proof (induction "length buf + (if r = [] then 0 else 1)" arbitrary: d r c buf rule: less_induct)
  case less
  note a = less.prems(1)[unfolded g311_part_def]
  have i: "g311_m32_ind c = length r" "length r \<le> 32" "length (g311_m32 c) = 32" "take (length r) (g311_m32 c) = r" using a by simp_all
  have z: "sz_sub 32 (length r) = 32 - length r" using i by (simp add: sz_sub_def)
  define size where "size = min (length buf) (32 - length r)"
  have sz: "(if 32 - length r > length buf then length buf else 32 - length r) = size" by (simp add: size_def)
  define m32 where "m32 = r @ take size buf @ drop (length r + size) (g311_m32 c)"
  have w: "wr (g311_m32 c) (length r) (take size buf) = Inr m32"
    using i by (auto simp: wr_def m32_def size_def)
  have m: "length m32 = 32" using i by (simp add: m32_def size_def)
  define c1 where "c1 = c\<lparr>g311_m32 := m32, g311_m32_ind := length r + size\<rparr>"
  have p1: "g311_part g sync d (r @ take size buf) c1"
    using a m by (simp add: g311_part_def c1_def) (simp add: m32_def size_def)
  have e0: "gost34311_loop be c buf = (if length buf - size = 0 then Inr c1
      else DO (gost34311_block be c1) (\<lambda>c. gost34311_loop be (c\<lparr>g311_m32_ind := 0\<rparr>) (drop size buf)))"
    by (subst gost34311_loop.simps) (simp only: Let_def i(1) z sz w DO_simps c1_def)
  show ?case
  proof (cases "length buf \<le> 32 - length r")
    case True
    then have "size = length buf" by (simp add: size_def)
    then have "gost34311_loop be c buf = Inr c1" "g311_part g sync d (r @ buf) c1"
      using p1 by (simp_all add: e0)
    then show ?thesis using less.prems(2) by auto
  next
    case False
    then have s: "size = 32 - length r" "size < length buf" using i by (auto simp: size_def)
    define b where "b = r @ take size buf"
    have b: "length b = 32" using s i by (simp add: b_def)
    obtain c2 where c2: "gost34311_block be c1 = Inr c2" "g311_part g sync (d @ b) [] (c2\<lparr>g311_m32_ind := 0\<rparr>)"
      using gost34311_block_part[OF p1[folded b_def] b] by blast
    have e: "gost34311_loop be c buf = gost34311_loop be (c2\<lparr>g311_m32_ind := 0\<rparr>) (drop size buf)"
      using c2 s by (simp add: e0)
    have "r = [] \<Longrightarrow> 0 < size" using s by simp
    then have "length (drop size buf) + (if [] = ([] :: u8 list) then 0 else 1) < length buf + (if r = [] then 0 else 1)"
      using s by auto
    from less.hyps[OF this c2(2)] s obtain c' d' r' where
      "gost34311_loop be (c2\<lparr>g311_m32_ind := 0\<rparr>) (drop size buf) = Inr c'" "d' @ r' = (d @ b) @ drop size buf"
      "g311_part g sync d' r' c'" "r' = [] \<longrightarrow> d' = []" by auto
    then show ?thesis unfolding e by (intro exI[of _ c'] exI[of _ d'] exI[of _ r']) (simp add: b_def)
  qed
qed

lemma gost34311_update_holds:
  assumes "g311_holds g sync c m" "wf_ba a"
  shows "\<exists>c'. gost34311_update be (Some c) (Some a) = Inr c' \<and> g311_holds g sync c' (m @ data a)"
proof -
  obtain d r where d: "m = d @ r" "g311_part g sync d r c" "r = [] \<longrightarrow> d = []"
    using assms(1) by (auto simp: g311_holds_def)
  have "gost34311_update be (Some c) (Some a) = gost34311_loop be c (data a)"
    using assms(2) by (simp add: gost34311_update_def wf_ba_def)
  moreover obtain c' d' r' where "gost34311_loop be c (data a) = Inr c'" "d' @ r' = d @ r @ data a"
      "g311_part g sync d' r' c'" "r' = [] \<longrightarrow> d' = []"
    using gost34311_loop_part[OF d(2), of "data a" be] d(3) by auto
  ultimately show ?thesis unfolding g311_holds_def d(1) by (metis append_assoc)
qed

lemma zero_pad_last:
  assumes "32 dvd length d" "length r \<le> 32" "r = [] \<longrightarrow> d = []"
  shows "zero_pad (d @ r) = d @ r @ replicate (32 - length r) 0"
proof -
  obtain q where q: "length d = 32 * q" using assms(1) by blast
  have "(32 - length r mod 32) mod 32 = 32 - length r" if "0 < length r"
    using that assms(2) by (cases "length r = 32") simp_all
  then show ?thesis using assms(3) by (auto simp: zero_pad_def q)
qed

lemma gost34311_final_holds:
  assumes "g311_holds g sync c m" "mem_ok M"
  shows "\<exists>c'. gost34311_final be M (Some c) = (Inr (mk_ba (gost34311 (gost_sbox g) sync m)), Some c') \<and> g311_holds g sync c' []"
proof -
  obtain d r where d: "m = d @ r" "g311_part g sync d r c" "r = [] \<longrightarrow> d = []"
    using assms(1) by (auto simp: g311_holds_def)
  note a = d(2)[unfolded g311_part_def]
  define b where "b = r @ replicate (32 - length r) 0"
  have b: "length b = 32" using a by (simp add: b_def)
  define L where "L = count_bits (g311_m_bit_len c) (of_nat (8 * length r))"
  have L: "length L = 8" "word_val L = 8 * length m mod 2 ^ 256"
  proof -
    have "unat (of_nat (8 * length r) :: u32) = 8 * length r" using a by (simp add: unat_of_nat del: of_nat_mult)
    then show "length L = 8" "word_val L = 8 * length m mod 2 ^ 256"
      using count_bits_val[of "g311_m_bit_len c" "of_nat (8 * length r)"] a by (simp_all add: L_def d(1) mod_simps del: of_nat_mult)
  qed
  define S where "S = add256 0 (g311_sigma c) (load_words False b)"
  have S: "length S = 8" "word_val S = sum_list (map word_val (chunks 32 (zero_pad m))) mod 2 ^ 256"
    using add256_val[of "g311_sigma c" "load_words False b" 0] a b word_val_load_words[of b, where 'a=32]
    by (simp_all add: S_def d zero_pad_last chunks_32_snoc mod_simps flip: b_def)
  have H: "foldl (std_step (gost_sbox g)) sync (chunks 32 (zero_pad m)) = std_step (gost_sbox g) (g311_H c) b"
    using a b by (simp add: d zero_pad_last chunks_32_snoc flip: b_def)
  have w: "wr (g311_m32 c) (length r) (replicate (32 - length r) 0) = Inr b"
    using a by (simp add: wr_def b_def)
  have z: "sz_sub 32 (length r) = 32 - length r" using a by (simp add: sz_sub_def)
  have n: "length (num_bytes k v) = k" for k v by (simp add: num_bytes_def)
  define c' where "c' = gost34311_reset (c\<lparr>g311_m_bit_len := L, g311_m32 := b, g311_sigma := S,
     g311_H := gost34311 (gost_sbox g) sync m\<rparr>)"
  have "gost34311_final be M (Some c) = (Inr (mk_ba (gost34311 (gost_sbox g) sync m)), Some c')"
    using a b L S H assms(2)
    by (simp add: gost34311_final_def Let_def z w uint8_to_uint32_eq uint32_to_uint8_eq hash_step_eq
        store_words_num[OF L] store_words_num[OF S] gost34311_def n ba_alloc_from_uint8_eq c'_def gost34311_reset_def
        del: of_nat_mult flip: L_def S_def)
  moreover have "g311_part g sync [] [] c'" using a b by (simp add: g311_part_def c'_def gost34311_reset_def)
  ultimately show ?thesis by (auto simp: g311_holds_def)
qed

subsection \<open>The hash interface\<close>

definition g311_start :: "Gost28147Ctx \<Rightarrow> u8 list \<Rightarrow> Gost34311Ctx" where
  "g311_start g sync = \<lparr>g311_gost = g, g311_m32 = replicate 32 0, g311_m32_ind = 0, g311_m_bit_len = replicate 8 0,
     g311_sync = sync, g311_sigma = replicate 8 0, g311_H = sync\<rparr>"

lemma g311_start_holds: "length sync = 32 \<Longrightarrow> g311_holds g sync (g311_start g sync) []"
  by (auto simp: g311_holds_def g311_part_def g311_start_def)

text \<open>A vector of another length stands for none, so that the interface has no hypothesis.\<close>

definition g311_iv :: "u8 list option \<Rightarrow> u8 list" where
  "g311_iv v = (case v of Some s \<Rightarrow> if length s = 32 then s else replicate 32 0 | None \<Rightarrow> replicate 32 0)"

lemma length_g311_iv [simp]: "length (g311_iv v) = 32"
  by (simp add: g311_iv_def split: option.split)

interpretation g311: hash_alg "g311_start g (g311_iv v)" "\<lambda>c a. gost34311_update be (Some c) (Some a)"
    "\<lambda>M c. map_prod id the (gost34311_final be M (Some c))" "g311_holds g (g311_iv v)" "gost34311 (gost_sbox g) (g311_iv v)" "SIZE_MOD"
  for be g v
proof unfold_locales
  show "g311_holds g (g311_iv v) (g311_start g (g311_iv v)) []" by (simp add: g311_start_holds)
  show "\<exists>c'. gost34311_update be (Some c) (Some a) = Inr c' \<and> g311_holds g (g311_iv v) c' (m @ data a)"
    if "g311_holds g (g311_iv v) c m" "wf_ba a" for c m a
    using that by (rule gost34311_update_holds)
  show "\<exists>c'. map_prod id the (gost34311_final be M (Some c)) = (Inr (mk_ba (gost34311 (gost_sbox g) (g311_iv v) m)), c')
       \<and> g311_holds g (g311_iv v) c' []"
    if "g311_holds g (g311_iv v) c m" "mem_ok M" for c m M
    using gost34311_final_holds[OF that, of be] by auto
qed

lemma gost28147_alloc_some: "sbox_id < 19 \<Longrightarrow> mem_ok M \<Longrightarrow> \<exists>g. gost28147_alloc M sbox_id = Inr (Some g) \<and> gost_sbox g = expand_sbox (gost_sboxes ! sbox_id)"
proof -
  assume a: "sbox_id < 19" "mem_ok M"
  have n: "length gost_sboxes = 19" by (simp add: gost_sboxes_def)
  then have l: "length (gost_sboxes ! sbox_id) = 128" using a by (intro gost_sboxes_length nth_mem) simp
  show ?thesis using a l
    by (simp add: gost28147_alloc_def n gost28147_alloc_user_sbox_core_def ba_alloc_from_uint8_eq)
qed

lemma gost34311_alloc_some:
  assumes "sbox_id < 19" "mem_ok M" "\<forall>s. v = Some s \<longrightarrow> length s = 32"
  shows "\<exists>g. gost34311_alloc M sbox_id (map_option mk_ba v) = Inr (Some (g311_start g (g311_iv v)))
     \<and> gost_sbox g = expand_sbox (gost_sboxes ! sbox_id)"
proof -
  obtain g where g: "gost28147_alloc M sbox_id = Inr (Some g)" "gost_sbox g = expand_sbox (gost_sboxes ! sbox_id)"
    using gost28147_alloc_some[OF assms(1,2)] by blast
  show ?thesis using assms(2,3) g
    by (cases v) (simp_all add: gost34311_alloc_def gost34311_reset_def g311_start_def g311_iv_def ba_to_uint8_eq)
qed

text \<open>(C27) The step of the hash: the sums that the code has multiplied out, on words in the byte order of the
  host, are 74 shifts of the standard's register, and the keys are those of the standard's schedule.\<close>

theorem gost34311_step_standard:
  assumes "length (g311_H c) = 32" "length m = 32"
  shows "hash_step be c m = Inr (c\<lparr>g311_H := std_step (gost_sbox (g311_gost c)) (g311_H c) m\<rparr>)"
  using assms by (rule hash_step_eq)

lemma gost34311_step_standard_witness:
  "\<exists>c. hash_step True c (replicate 32 1) = Inr (c\<lparr>g311_H := std_step (gost_sbox (g311_gost c)) (g311_H c) (replicate 32 1)\<rparr>)"
  by (intro exI[of _ "g311_start g (replicate 32 0)" for g] gost34311_step_standard) (simp_all add: g311_start_def)

text \<open>(C28) GOST 34.311 in fragments: whatever fragments a message comes in, the code returns the standard's digest
  of their concatenation, for every table and starting vector, and a context that holds the empty message.\<close>

theorem gost34311_fragments:
  assumes "sbox_id < 19" "mem_ok M" "\<forall>s. v = Some s \<longrightarrow> length s = 32" "\<forall>a \<in> set frs. wf_ba a \<and> ba_len a \<le> SIZE_MOD"
  shows "\<exists>ctx c c'. gost34311_alloc M sbox_id (map_option mk_ba v) = Inr (Some ctx)
     \<and> feed (\<lambda>c a. gost34311_update be (Some c) (Some a)) ctx frs = Inr c
     \<and> gost34311_final be M (Some c)
         = (Inr (mk_ba (gost34311 (expand_sbox (gost_sboxes ! sbox_id)) (g311_iv v) (concat (map data frs)))), Some c')
     \<and> (\<exists>g. g311_holds g (g311_iv v) c' [])"
proof -
  obtain g where g: "gost34311_alloc M sbox_id (map_option mk_ba v) = Inr (Some (g311_start g (g311_iv v)))"
      "gost_sbox g = expand_sbox (gost_sboxes ! sbox_id)"
    using gost34311_alloc_some[OF assms(1-3)] by blast
  obtain c where c: "feed (\<lambda>c a. gost34311_update be (Some c) (Some a)) (g311_start g (g311_iv v)) frs = Inr c"
      "g311_holds g (g311_iv v) c (concat (map data frs))"
    using g311.feed_holds[where be = be, OF g311.holds_start[where g = g and v = v] assms(4)] by auto
  with gost34311_final_holds[OF c(2) assms(2), of be] g show ?thesis by auto
qed

lemma gost34311_fragments_witness:
  "\<exists>ctx c. gost34311_alloc ideal_mem 11 None = Inr (Some ctx)
     \<and> feed (\<lambda>c a. gost34311_update True (Some c) (Some a)) ctx [mk_ba (ascii ''a''), mk_ba (ascii ''bc'')] = Inr c
     \<and> fst (gost34311_final True ideal_mem (Some c))
         = Inr (mk_ba (gost34311 (expand_sbox GOST28147_SBOX_11) (replicate 32 0) (ascii ''abc'')))"
  using gost34311_fragments[of 11 ideal_mem None "[mk_ba (ascii ''a''), mk_ba (ascii ''bc'')]" True]
  by (auto simp: ascii_def SIZE_MOD_def g311_iv_def gost_sboxes_def)

end
