(* ===== verification/Sha3.thy ===== *)
theory Sha3
  imports BlockHash
begin

text \<open>
  SHA-3 and SHAKE (\<^verbatim>\<open>sha3.c\<close>): the permutation, the sponge that takes its message byte by byte and word by word, and
  the context. The permutation equals that of FIPS 202, with its rotation offsets and round constants computed
  by the standard's rules instead of read from tables.
\<close>

subsection \<open>The permutation\<close>

definition ROL64 :: "u64 \<Rightarrow> nat \<Rightarrow> u64" where
  "ROL64 x y = push_bit (y mod 64) x OR drop_bit ((64 - y mod 64) mod 64) x"

definition STORE64L :: "u64 \<Rightarrow> u8 list" where
  "STORE64L x = [ucast x, ucast (drop_bit 8 x), ucast (drop_bit 16 x), ucast (drop_bit 24 x),
     ucast (drop_bit 32 x), ucast (drop_bit 40 x), ucast (drop_bit 48 x), ucast (drop_bit 56 x)]"

definition LOAD64L :: "u8 list \<Rightarrow> u64" where
  "LOAD64L y = push_bit 56 (ucast (y ! 7)) OR push_bit 48 (ucast (y ! 6)) OR push_bit 40 (ucast (y ! 5))
     OR push_bit 32 (ucast (y ! 4)) OR push_bit 24 (ucast (y ! 3)) OR push_bit 16 (ucast (y ! 2))
     OR push_bit 8 (ucast (y ! 1)) OR ucast (y ! 0)"

definition s_keccakf_rndc :: "u64 list" where
  "s_keccakf_rndc = [
     0x0000000000000001, 0x0000000000008082, 0x800000000000808a, 0x8000000080008000,
     0x000000000000808b, 0x0000000080000001, 0x8000000080008081, 0x8000000000008009,
     0x000000000000008a, 0x0000000000000088, 0x0000000080008009, 0x000000008000000a,
     0x000000008000808b, 0x800000000000008b, 0x8000000000008089, 0x8000000000008003,
     0x8000000000008002, 0x8000000000000080, 0x000000000000800a, 0x800000008000000a,
     0x8000000080008081, 0x8000000000008080, 0x0000000080000001, 0x8000000080008008]"

definition s_keccakf_rotc :: "nat list" where
  "s_keccakf_rotc = [1, 3, 6, 10, 15, 21, 28, 36, 45, 55, 2, 14, 27, 41, 56, 8, 25, 43, 62, 18, 39, 61, 20, 44]"

definition s_keccakf_piln :: "nat list" where
  "s_keccakf_piln = [10, 7, 11, 17, 18, 3, 5, 16, 8, 21, 24, 4, 15, 23, 19, 13, 12, 2, 20, 14, 22, 9, 6, 1]"

text \<open>The loops of \<^verbatim>\<open>s_keccakf\<close>; \<open>j\<close> runs through the multiples of five.\<close>

definition keccak_theta :: "u64 list \<Rightarrow> u64 list" where
  "keccak_theta s =
     (let bc = map (\<lambda>i. s ! i XOR s ! (i + 5) XOR s ! (i + 10) XOR s ! (i + 15) XOR s ! (i + 20)) [0..<5]
      in foldl (\<lambda>s i. let t = bc ! ((i + 4) mod 5) XOR ROL64 (bc ! ((i + 1) mod 5)) 1
                      in foldl (\<lambda>s j. s[j + i := s ! (j + i) XOR t]) s [0, 5, 10, 15, 20]) s [0..<5])"

definition keccak_rho_pi :: "u64 list \<Rightarrow> u64 list" where
  "keccak_rho_pi s =
     fst (foldl (\<lambda>(s, t) i. let j = s_keccakf_piln ! i; b = s ! j in (s[j := ROL64 t (s_keccakf_rotc ! i)], b))
            (s, s ! 1) [0..<24])"

definition keccak_chi :: "u64 list \<Rightarrow> u64 list" where
  "keccak_chi s =
     foldl (\<lambda>s j. let bc = map (\<lambda>i. s ! (j + i)) [0..<5]
                  in foldl (\<lambda>s i. s[j + i := s ! (j + i) XOR (NOT (bc ! ((i + 1) mod 5)) AND bc ! ((i + 2) mod 5))]) s [0..<5])
       s [0, 5, 10, 15, 20]"

definition s_keccakf :: "u64 list \<Rightarrow> u64 list" where
  "s_keccakf s =
     foldl (\<lambda>s round. let s = keccak_chi (keccak_rho_pi (keccak_theta s)) in s[0 := s ! 0 XOR s_keccakf_rndc ! round])
       s [0..<24]"

subsection \<open>The context\<close>

record Sha3Ctx =
  sha3_s :: "u64 list"
  sha3_sb :: "u8 list"
  sha3_saved :: u64
  sha3_byte_index :: nat
  sha3_word_index :: nat
  sha3_capacity_words :: nat
  sha3_xof_flag :: bool
  sha3_variant :: nat

definition sizeof_Sha3Ctx :: nat where "sizeof_Sha3Ctx = 448"

definition sha3_zero :: Sha3Ctx where
  "sha3_zero = \<lparr>sha3_s = replicate 25 0, sha3_sb = replicate 200 0, sha3_saved = 0, sha3_byte_index = 0,
     sha3_word_index = 0, sha3_capacity_words = 0, sha3_xof_flag = False, sha3_variant = 0\<rparr>"

text \<open>The variants are numbered as in the enumeration: 0 to 3 are SHA3-224 to SHA3-512, 4 and 5 SHAKE128 and SHAKE256.\<close>

definition sha3_alloc :: "mem \<Rightarrow> nat \<Rightarrow> Sha3Ctx option res" where
  "sha3_alloc M variant = to_ptr (CALLOC_CHECKED M sizeof_Sha3Ctx (
     let bits = [224, 256, 384, 512, 128, 256]
     in if variant < length bits
        then Inr (sha3_zero\<lparr>sha3_capacity_words := 2 * bits ! variant div (8 * 8), sha3_variant := variant\<rparr>)
        else SET_ERROR RET_INVALID_PARAM))"

definition sha3_copy_with_alloc :: "mem \<Rightarrow> Sha3Ctx \<Rightarrow> Sha3Ctx option res" where
  "sha3_copy_with_alloc M c = to_ptr (CALLOC_CHECKED M sizeof_Sha3Ctx (Inr c))"

definition sha3_get_block_size :: "Sha3Ctx option \<Rightarrow> nat" where
  "sha3_get_block_size ctx = (case ctx of
     Some c \<Rightarrow> (let sizes = [144, 136, 104, 72] in if sha3_variant c < length sizes then sizes ! sha3_variant c else 0)
   | None \<Rightarrow> 0)"

subsection \<open>Absorbing\<close>

text \<open>A shift by 64 bits or more is not defined.\<close>

primrec sha3_save :: "Sha3Ctx \<Rightarrow> u8 list \<Rightarrow> Sha3Ctx res" where
  "sha3_save c [] = Inr c"
| "sha3_save c (x # xs) =
     (if sha3_byte_index c < 8
      then sha3_save (c\<lparr>sha3_saved := sha3_saved c OR push_bit (8 * sha3_byte_index c) (ucast x),
                        sha3_byte_index := sha3_byte_index c + 1\<rparr>) xs
      else Inl UNDEFINED)"

definition sha3_word :: "Sha3Ctx \<Rightarrow> u64 \<Rightarrow> Sha3Ctx" where
  "sha3_word c t =
     (let c = c\<lparr>sha3_s := (sha3_s c)[sha3_word_index c := sha3_s c ! sha3_word_index c XOR t],
                sha3_word_index := sha3_word_index c + 1\<rparr>
      in if sha3_word_index c = 25 - sha3_capacity_words c
         then c\<lparr>sha3_s := s_keccakf (sha3_s c), sha3_word_index := 0\<rparr> else c)"

definition sha3_update :: "Sha3Ctx option \<Rightarrow> ByteArray option \<Rightarrow> Sha3Ctx res" where
  "sha3_update ctx msg = NOT_NULL ctx (\<lambda>c. NOT_NULL msg (\<lambda>a.
     if ba_len a = 0 then Inr c
     else DO (rd (data a) 0 (ba_len a)) (\<lambda>inp.
       let inlen = ba_len a; old_tail = sz_sub 8 (sha3_byte_index c) mod 8
       in if inlen < old_tail then sha3_save c inp
          else DO (if old_tail \<noteq> 0
                   then DO (sha3_save c (take old_tail inp)) (\<lambda>c.
                        Inr (sha3_word (c\<lparr>sha3_byte_index := 0, sha3_saved := 0\<rparr>) (sha3_saved c)))
                   else Inr c) (\<lambda>c.
               DO (for_blocks 8 (\<lambda>c b. Inr (sha3_word c (LOAD64L b))) inp old_tail inlen c) (\<lambda>(c, i).
               sha3_save c (drop i inp))))))"

subsection \<open>Squeezing\<close>

definition ss_done :: "Sha3Ctx \<Rightarrow> u64 \<Rightarrow> Sha3Ctx \<times> u8 list" where
  "ss_done c pad =
     (let s = (sha3_s c)[sha3_word_index c := sha3_s c ! sha3_word_index c XOR (sha3_saved c XOR push_bit (8 * sha3_byte_index c) pad)];
          last = 25 - sha3_capacity_words c - 1;
          s = s_keccakf (s[last := s ! last XOR 0x8000000000000000]);
          sb = concat (map STORE64L s)
      in (c\<lparr>sha3_s := s, sha3_sb := sb\<rparr>, take (sha3_capacity_words c * 4) sb))"

definition sha3_final :: "mem \<Rightarrow> Sha3Ctx option \<Rightarrow> ByteArray res \<times> Sha3Ctx option" where
  "sha3_final M ctx = DO_ST (NOT_NULL ctx Inr) ctx (\<lambda>c.
     DO_ST (CHECK_NOT_NULL (ba_alloc_by_len M (sha3_capacity_words c * 4)) Inr) ctx (\<lambda>out.
     let (c', H) = ss_done c 0x06
     in DO_ST (wr (data out) 0 H) (Some c') (\<lambda>d.
        (Inr (out\<lparr>ba_buf := Some d\<rparr>),
         Some (sha3_zero\<lparr>sha3_capacity_words := sha3_capacity_words c, sha3_variant := sha3_variant c\<rparr>)))))"

text \<open>\<open>shake_bytes\<close> is the loop of \<^verbatim>\<open>sha3_shake_final\<close> over the bytes of the output.\<close>

primrec shake_bytes :: "nat \<Rightarrow> Sha3Ctx \<Rightarrow> Sha3Ctx \<times> u8 list" where
  "shake_bytes 0 c = (c, [])"
| "shake_bytes (Suc n) c =
     (let c = (if sha3_byte_index c \<ge> (25 - sha3_capacity_words c) * 8
               then let s = s_keccakf (sha3_s c)
                    in c\<lparr>sha3_s := s, sha3_sb := concat (map STORE64L s), sha3_byte_index := 0\<rparr>
               else c);
          b = sha3_sb c ! sha3_byte_index c;
          (c, bs) = shake_bytes n (c\<lparr>sha3_byte_index := sha3_byte_index c + 1\<rparr>)
      in (c, b # bs))"

definition sha3_shake_final :: "Sha3Ctx option \<Rightarrow> ByteArray option \<Rightarrow> ByteArray res \<times> Sha3Ctx option" where
  "sha3_shake_final ctx out = DO_ST (NOT_NULL ctx Inr) ctx (\<lambda>c. DO_ST (NOT_NULL out Inr) ctx (\<lambda>a.
     if ba_len a = 0 then (Inr a, ctx)
     else let c = (if \<not> sha3_xof_flag c then (fst (ss_done c 0x1F))\<lparr>sha3_byte_index := 0, sha3_xof_flag := True\<rparr> else c);
              (c, bs) = shake_bytes (ba_len a) c
          in DO_ST (wr (data a) 0 bs) (Some c) (\<lambda>d. (Inr (a\<lparr>ba_buf := Some d\<rparr>), Some c))))"

subsection \<open>Rotations\<close>

lemma rotl_or_shift:
  assumes "0 < n" "n < LENGTH('a)"
  shows "word_rotl n (w :: 'a::len word) = push_bit n w OR drop_bit (LENGTH('a) - n) w"
proof (rule bit_word_eqI)
  fix i assume i: "i < LENGTH('a)"
  show "bit (word_rotl n w) i = bit (push_bit n w OR drop_bit (LENGTH('a) - n) w) i"
  proof (cases "i < n")
    case True
    then have "(i + (LENGTH('a) - n)) mod LENGTH('a) = i + (LENGTH('a) - n)" using assms by simp
    then show ?thesis using True i assms by (simp add: bit_word_rotl_iff bit_or_iff bit_push_bit_iff bit_drop_bit_eq add.commute)
  next
    case False
    then have "(i + (LENGTH('a) - n)) mod LENGTH('a) = i - n" using assms i
      by (simp add: le_mod_geq)
    then show ?thesis using False i assms by (simp add: bit_word_rotl_iff bit_or_iff bit_push_bit_iff bit_drop_bit_eq)
      (auto dest: bit_imp_le_length)
  qed
qed

lemma ROL64_rotl: "0 < n \<Longrightarrow> n < 64 \<Longrightarrow> ROL64 x n = word_rotl n x"
  using rotl_or_shift[of n x] by (simp add: ROL64_def)

subsection \<open>FIPS 202\<close>

abbreviation lane :: "u64 list \<Rightarrow> nat \<Rightarrow> nat \<Rightarrow> u64" where
  "lane A x y \<equiv> A ! (x mod 5 + 5 * (y mod 5))"

definition of_lanes :: "(nat \<Rightarrow> nat \<Rightarrow> u64) \<Rightarrow> u64 list" where
  "of_lanes f = map (\<lambda>k. f (k mod 5) (k div 5)) [0..<25]"

definition fips_theta :: "u64 list \<Rightarrow> u64 list" where
  "fips_theta A = (let C = \<lambda>x. lane A x 0 XOR lane A x 1 XOR lane A x 2 XOR lane A x 3 XOR lane A x 4;
      D = \<lambda>x. C (x + 4) XOR word_rotl 1 (C (x + 1)) in of_lanes (\<lambda>x y. lane A x y XOR D x))"

primrec rho_walk :: "nat \<Rightarrow> nat \<times> nat" where
  "rho_walk 0 = (1, 0)"
| "rho_walk (Suc t) = (case rho_walk t of (x, y) \<Rightarrow> (y, (2 * x + 3 * y) mod 5))"

definition fips_rho :: "u64 list \<Rightarrow> u64 list" where
  "fips_rho A = foldl (\<lambda>B t. case rho_walk t of (x, y) \<Rightarrow> B[x + 5 * y := word_rotl ((t + 1) * (t + 2) div 2 mod 64) (lane A x y)]) A [0..<24]"

definition fips_pi :: "u64 list \<Rightarrow> u64 list" where
  "fips_pi A = of_lanes (\<lambda>x y. lane A (x + 3 * y) x)"

definition fips_chi :: "u64 list \<Rightarrow> u64 list" where
  "fips_chi A = of_lanes (\<lambda>x y. lane A x y XOR (NOT (lane A (x + 1) y) AND lane A (x + 2) y))"

primrec lfsr :: "nat \<Rightarrow> bool list" where
  "lfsr 0 = [True, False, False, False, False, False, False, False]"
| "lfsr (Suc t) = (let r = lfsr t; c = r ! 7
     in [c, r ! 0, r ! 1, r ! 2, r ! 3 \<noteq> c, r ! 4 \<noteq> c, r ! 5 \<noteq> c, r ! 6])"

definition fips_RC :: "nat \<Rightarrow> u64" where
  "fips_RC i = foldl (\<lambda>w j. if lfsr (j + 7 * i) ! 0 then w OR 2 ^ (2 ^ j - 1) else w) 0 [0..<7]"

definition fips_round :: "u64 list \<Rightarrow> nat \<Rightarrow> u64 list" where
  "fips_round A i = (let A = fips_chi (fips_pi (fips_rho (fips_theta A))) in A[0 := A ! 0 XOR fips_RC i])"

definition keccak_f :: "u64 list \<Rightarrow> u64 list" where
  "keccak_f A = foldl fips_round A [0..<24]"

lemma rndc_eq: "map fips_RC [0..<24] = s_keccakf_rndc"
  by code_simp

lemma upt_5: "[0..<5] = [0, 1, 2, 3, 4]" and upt_25: "[0..<25] = [0, 1, 2, 3, 4, 5, 6, 7, 8, 9, 10, 11, 12, 13, 14, 15, 16, 17, 18, 19, 20, 21, 22, 23, 24]"
  and upt_24: "[0..<24] = [0, 1, 2, 3, 4, 5, 6, 7, 8, 9, 10, 11, 12, 13, 14, 15, 16, 17, 18, 19, 20, 21, 22, 23]"
  by code_simp+

lemma list_25:
  assumes "length (s :: 'a list) = 25"
  obtains s0 s1 s2 s3 s4 s5 s6 s7 s8 s9 s10 s11 s12 s13 s14 s15 s16 s17 s18 s19 s20 s21 s22 s23 s24 where
    "s = [s0, s1, s2, s3, s4, s5, s6, s7, s8, s9, s10, s11, s12, s13, s14, s15, s16, s17, s18, s19, s20, s21, s22, s23, s24]"
  using assms by (auto simp: numeral_eq_Suc length_Suc_conv)

lemma theta_eq:
  assumes "length s = 25" shows "keccak_theta s = fips_theta s"
  using assms
  by (rule list_25) (simp add: keccak_theta_def fips_theta_def of_lanes_def upt_5 upt_25 Let_def ROL64_rotl list_update_numeral)

lemma rho_walk_eq: "map rho_walk [0..<24] = [(1, 0), (0, 2), (2, 1), (1, 2), (2, 3), (3, 3), (3, 0), (0, 1), (1, 3), (3, 1), (1, 4), (4, 4), (4, 0), (0, 3), (3, 4), (4, 3), (3, 2), (2, 2), (2, 0), (0, 4), (4, 2), (2, 4), (4, 1), (1, 1)]"
  by code_simp

lemma chi_eq:
  assumes "length s = 25" shows "keccak_chi s = fips_chi s"
  using assms
  by (rule list_25) (simp add: keccak_chi_def fips_chi_def of_lanes_def upt_5 upt_25 Let_def list_update_numeral)

lemma rho_pi_eq:
  assumes "length s = 25" shows "keccak_rho_pi s = fips_pi (fips_rho s)"
  using assms
  by (rule list_25) (simp add: keccak_rho_pi_def s_keccakf_piln_def s_keccakf_rotc_def fips_pi_def fips_rho_def of_lanes_def upt_24 upt_25 Let_def ROL64_rotl list_update_numeral rho_walk_eq[unfolded upt_24, simplified])


lemma length_of_lanes [simp]: "length (of_lanes f) = 25"
  by (simp add: of_lanes_def)

lemma length_keccak_f [simp]: "length s = 25 \<Longrightarrow> length (keccak_f s) = 25"
proof -
  have "length (foldl fips_round s is) = 25" if "length s = 25" for s "is"
    using that by (induction "is" arbitrary: s) (simp_all add: fips_round_def fips_chi_def Let_def)
  then show "length s = 25 \<Longrightarrow> length (keccak_f s) = 25" by (simp add: keccak_f_def)
qed

lemma keccakf_fips:
  assumes "length s = 25"
  shows "s_keccakf s = keccak_f s"
proof -
  let ?f = "\<lambda>s r. let s = keccak_chi (keccak_rho_pi (keccak_theta s)) in s[0 := s ! 0 XOR s_keccakf_rndc ! r]"
  have r: "s_keccakf_rndc ! r = fips_RC r" if "r < 24" for r
    using that by (simp flip: rndc_eq)
  have "length s = 25 \<Longrightarrow> (\<forall>r \<in> set rs. r < 24) \<Longrightarrow> foldl ?f s rs = foldl fips_round s rs" for rs
  proof (induction rs arbitrary: s)
    case (Cons r rs)
    have "keccak_chi (keccak_rho_pi (keccak_theta s)) = fips_chi (fips_pi (fips_rho (fips_theta s)))"
      using Cons.prems(1) by (simp add: theta_eq rho_pi_eq chi_eq fips_theta_def fips_pi_def Let_def)
    then have "?f s r = fips_round s r" using Cons.prems(2) by (simp add: fips_round_def r)
    moreover have "length (fips_round s r) = 25" by (simp add: fips_round_def fips_chi_def Let_def)
    ultimately show ?case using Cons by (simp only: foldl_Cons) simp
  qed simp
  then show ?thesis using assms unfolding s_keccakf_def keccak_f_def by simp
qed

subsection \<open>Bytes and words\<close>

lemma upt_64: "[0..<64] = [0, 1, 2, 3, 4, 5, 6, 7, 8, 9, 10, 11, 12, 13, 14, 15, 16, 17, 18, 19, 20, 21, 22, 23, 24, 25, 26, 27, 28, 29, 30, 31, 32, 33, 34, 35, 36, 37, 38, 39, 40, 41, 42, 43, 44, 45, 46, 47, 48, 49, 50, 51, 52, 53, 54, 55, 56, 57, 58, 59, 60, 61, 62, 63]"
  by code_simp

lemma bit_u64_eqI:
  assumes "list_all (\<lambda>n. bit x n = bit y n) [0..<64]"
  shows "x = (y :: u64)"
  using assms by (intro bit_word_eqI) (simp add: list_all_iff)

lemma word_of_bytes_high:
  assumes "length bs < 8" "8 * length bs \<le> i"
  shows "\<not> bit (word_of_bytes False bs :: u64) i"
proof -
  let ?w = "word_of_bytes False bs :: u64"
  have b: "nat_le 256 (map unat bs) < 256 ^ length bs"
    using nat_le_bound[of "map unat bs" 256] unsigned_less[where 'b=8] by force
  have p: "(256 :: nat) ^ length bs = 2 ^ (8 * length bs)" by (simp add: power_mult)
  have "(2 :: nat) ^ (8 * length bs) < 2 ^ 64" using assms by (intro power_strict_increasing) simp_all
  then have u: "unat ?w = nat_le 256 (map unat bs)" using b p by (simp add: word_of_bytes_def unat_of_nat)
  have "(2 :: nat) ^ (8 * length bs) \<le> 2 ^ i" using assms(2) by (rule power_increasing) simp
  then have "unat ?w < 2 ^ i" using u b p by linarith
  then have "\<not> bit (unat ?w) i" by (simp add: bit_iff_odd)
  then show ?thesis using bit_imp_le_length[of ?w i] by (auto simp: bit_unsigned_iff)
qed

lemma word_of_bytes_snoc:
  assumes "length bs < 8"
  shows "word_of_bytes False (bs @ [x]) = (word_of_bytes False bs OR push_bit (8 * length bs) (ucast x) :: u64)"
    and "word_of_bytes False (bs @ [x]) = (word_of_bytes False bs XOR push_bit (8 * length bs) (ucast x) :: u64)"
proof -
  let ?w = "word_of_bytes False bs :: u64"
  have p: "(256 :: nat) ^ length bs = 2 ^ (8 * length bs)" by (simp add: power_mult)
  have "word_of_bytes False (bs @ [x]) = ?w + push_bit (8 * length bs) (ucast x)"
    by (simp add: word_of_bytes_def nat_le_append p push_bit_eq_mult mult.commute)
  also have "\<dots> = ?w OR push_bit (8 * length bs) (ucast x)"
    by (rule disjunctive_add) (use word_of_bytes_high[OF assms] in \<open>auto simp: bit_simps\<close>)
  finally show "word_of_bytes False (bs @ [x]) = ?w OR push_bit (8 * length bs) (ucast x)" .
  also have "\<dots> = ?w XOR push_bit (8 * length bs) (ucast x)"
    by (rule bit_word_eqI) (use word_of_bytes_high[OF assms] in \<open>auto simp: bit_simps\<close>)
  finally show "word_of_bytes False (bs @ [x]) = ?w XOR push_bit (8 * length bs) (ucast x)" .
qed

lemma LOAD64L_eq:
  assumes "length b = 8"
  shows "LOAD64L b = word_of_bytes False b"
proof -
  obtain b0 b1 b2 b3 b4 b5 b6 b7 where b: "b = [b0, b1, b2, b3, b4, b5, b6, b7]"
    using assms by (auto simp: numeral_eq_Suc length_Suc_conv)
  have e: "word_of_bytes False [] = (0 :: u64)" by (simp add: word_of_bytes_def)
  show ?thesis unfolding b
    using word_of_bytes_snoc(1)[of "[]" b0] word_of_bytes_snoc(1)[of "[b0]" b1] word_of_bytes_snoc(1)[of "[b0, b1]" b2]
      word_of_bytes_snoc(1)[of "[b0, b1, b2]" b3] word_of_bytes_snoc(1)[of "[b0, b1, b2, b3]" b4]
      word_of_bytes_snoc(1)[of "[b0, b1, b2, b3, b4]" b5] word_of_bytes_snoc(1)[of "[b0, b1, b2, b3, b4, b5]" b6]
      word_of_bytes_snoc(1)[of "[b0, b1, b2, b3, b4, b5, b6]" b7]
    by (simp add: LOAD64L_def e ac_simps)
qed

lemma STORE64L_eq: "STORE64L w = bytes_of_word False w"
proof -
  have "length (STORE64L w) = 8" by (simp add: STORE64L_def)
  then have "word_of_bytes False (STORE64L w) = LOAD64L (STORE64L w)" by (simp add: LOAD64L_eq)
  also have "\<dots> = w" unfolding LOAD64L_def STORE64L_def
    by (rule bit_u64_eqI) (simp add: upt_64 bit_simps)
  finally have "word_of_bytes False (STORE64L w) = w" .
  then show ?thesis using bytes_of_word_of_bytes[of "STORE64L w" False, where 'a=64] by (simp add: STORE64L_def)
qed

lemma word_of_bytes_zeros: "word_of_bytes False (bs @ replicate n 0) = (word_of_bytes False bs :: u64)"
  by (simp add: word_of_bytes_def nat_le_append)

subsection \<open>The sponge\<close>

definition sha3_step :: "nat \<Rightarrow> u64 list \<times> nat \<Rightarrow> u64 \<Rightarrow> u64 list \<times> nat" where
  "sha3_step r = (\<lambda>(s, i) w. let s = s[i := s ! i XOR w] in if i + 1 = r then (keccak_f s, 0) else (s, i + 1))"

definition sponge_block :: "nat \<Rightarrow> u64 list \<Rightarrow> u8 list \<Rightarrow> u64 list" where
  "sponge_block r s b = keccak_f (map2 (XOR) s (load_words False b @ replicate (25 - r) 0))"

definition pad_10_1 :: "nat \<Rightarrow> u8 \<Rightarrow> nat \<Rightarrow> u8 list" where
  "pad_10_1 k d n = (let q = k - n mod k in if q = 1 then [d XOR 0x80] else d # replicate (q - 2) 0 @ [0x80])"

definition sponge :: "nat \<Rightarrow> u8 list \<Rightarrow> u64 list" where
  "sponge r m = foldl (sponge_block r) (replicate 25 0) (chunks (8 * r) m)"

definition sha3_cap :: "nat \<Rightarrow> nat" where
  "sha3_cap v = [7, 8, 12, 16, 4, 8] ! v"

definition sha3 :: "nat \<Rightarrow> u8 list \<Rightarrow> u8 list" where
  "sha3 v m = (let r = 25 - sha3_cap v
     in take (4 * sha3_cap v) (store_words False (sponge r (m @ pad_10_1 (8 * r) 0x06 (length m)))))"

definition xor_at :: "u64 list \<Rightarrow> nat \<Rightarrow> u64 list \<Rightarrow> u64 list" where
  "xor_at s i ws = map2 (XOR) s (replicate i 0 @ ws @ replicate (25 - i - length ws) 0)"

lemma length_xor_at [simp]: "length s = 25 \<Longrightarrow> i + length ws \<le> 25 \<Longrightarrow> length (xor_at s i ws) = 25"
  by (simp add: xor_at_def)

lemma xor_at_Cons:
  assumes "length s = 25" "i + length ws < 25"
  shows "xor_at (s[i := s ! i XOR w]) (Suc i) ws = xor_at s i (w # ws)"
  using assms by (intro nth_equalityI) (auto simp: xor_at_def nth_append nth_list_update nth_Cons' xor.assoc)

lemma xor_at_Nil: "length s = 25 \<Longrightarrow> xor_at s i [] = s" if "i \<le> 25"
  using that by (intro nth_equalityI) (auto simp: xor_at_def nth_append)

lemma steps_partial:
  assumes "length s = 25" "r \<le> 25" "i + length ws < r"
  shows "foldl (sha3_step r) (s, i) ws = (xor_at s i ws, i + length ws)"
  using assms
proof (induction ws arbitrary: s i)
  case (Cons w ws)
  then show ?case using Cons.IH[of "s[i := s ! i XOR w]" "Suc i"] by (simp add: sha3_step_def Let_def xor_at_Cons)
qed (simp add: xor_at_Nil)

lemma steps_full:
  assumes "length s = 25" "r \<le> 25" "i + length ws = r" "ws \<noteq> []"
  shows "foldl (sha3_step r) (s, i) ws = (keccak_f (xor_at s i ws), 0)"
proof -
  obtain vs w where ws: "ws = vs @ [w]" using assms(4) by (cases ws rule: rev_cases) auto
  have "foldl (sha3_step r) (s, i) vs = (xor_at s i vs, i + length vs)"
    using assms ws by (intro steps_partial) simp_all
  moreover have "(xor_at s i vs)[i + length vs := xor_at s i vs ! (i + length vs) XOR w] = xor_at s i (vs @ [w])"
    using assms(1-3) ws by (intro nth_equalityI) (auto simp: xor_at_def nth_append nth_list_update nth_Cons')
  ultimately show ?thesis using assms(3) ws by (simp add: sha3_step_def Let_def)
qed

lemma steps_blocks:
  assumes "length s = 25" "r \<le> 25" "0 < r" "\<forall>b \<in> set bs. length b = 8 * r"
  shows "foldl (sha3_step r) (s, 0) (load_words False (concat bs)) = (foldl (sponge_block r) s bs, 0)"
    and "length (foldl (sponge_block r) s bs) = 25"
  using assms
proof (induction bs arbitrary: s)
  case Nil
  { case 1 show ?case by (simp add: load_words_def) next case 2 then show ?case by simp }
next
  case (Cons b bs)
  have a: "(load_words False (b @ xs) :: u64 list) = load_words False b @ load_words False xs" if "8 dvd length b" for b xs
    using that by (simp add: load_words_def chunks_append)
  { case 1
    then have "(load_words False b :: u64 list) \<noteq> []" by (simp flip: length_greater_0_conv)
    then have "foldl (sha3_step r) (s, 0) (load_words False b) = (sponge_block r s b, 0)"
      using 1 by (subst steps_full) (simp_all add: sponge_block_def xor_at_def)
    then show ?case using 1 Cons.IH(1)[of "sponge_block r s b"] by (simp add: a sponge_block_def)
  next case 2 then show ?case using Cons.IH(2)[of "sponge_block r s b"] by (simp add: sponge_block_def) }
qed

subsection \<open>Absorbing\<close>

definition sha3_at :: "nat \<Rightarrow> Sha3Ctx \<Rightarrow> u64 list \<times> nat \<Rightarrow> u8 list \<Rightarrow> bool" where
  "sha3_at v c st t \<longleftrightarrow> v \<le> 3 \<and> sha3_variant c = v \<and> sha3_capacity_words c = sha3_cap v \<and> (sha3_s c, sha3_word_index c) = st
     \<and> length (fst st) = 25 \<and> snd st < 25 - sha3_cap v \<and> sha3_byte_index c = length t \<and> sha3_saved c = word_of_bytes False t"

lemma sha3_save_at:
  assumes "sha3_at v c st t" "length t + length xs \<le> 8"
  shows "\<exists>c'. sha3_save c xs = Inr c' \<and> sha3_at v c' st (t @ xs)"
  using assms
proof (induction xs arbitrary: c t)
  case (Cons x xs)
  then have "sha3_at v (c\<lparr>sha3_saved := sha3_saved c OR push_bit (8 * sha3_byte_index c) (ucast x), sha3_byte_index := sha3_byte_index c + 1\<rparr>) st (t @ [x])"
    by (auto simp: sha3_at_def word_of_bytes_snoc(1))
  moreover have "sha3_byte_index c < 8" using Cons.prems by (simp add: sha3_at_def)
  ultimately show ?case using Cons.IH[of _ "t @ [x]"] Cons.prems(2) by simp
qed simp

lemma sha3_word_at:
  assumes "sha3_at v c st t"
  shows "sha3_at v (sha3_word c w) (sha3_step (25 - sha3_cap v) st w) t"
  using assms by (cases st) (auto simp: sha3_at_def sha3_word_def sha3_step_def Let_def keccakf_fips)

lemma sha3_words_at:
  assumes "sha3_at v c st t" "\<forall>b \<in> set bs. length b = 8"
  shows "sha3_at v (foldl (\<lambda>c b. sha3_word c (LOAD64L b)) c bs) (foldl (sha3_step (25 - sha3_cap v)) st (map (word_of_bytes False) bs)) t"
  using assms by (induction bs arbitrary: c st) (simp_all add: sha3_word_at LOAD64L_eq)

definition sha3_holds :: "nat \<Rightarrow> Sha3Ctx \<Rightarrow> u8 list \<Rightarrow> bool" where
  "sha3_holds v c m \<longleftrightarrow> sha3_at v c (foldl (sha3_step (25 - sha3_cap v)) (replicate 25 0, 0) (load_words False m)) (tail_of 8 m)"

definition sha3_start :: "nat \<Rightarrow> Sha3Ctx" where
  "sha3_start v = sha3_zero\<lparr>sha3_capacity_words := sha3_cap v, sha3_variant := v\<rparr>"

lemma sha3_cap_less: "v \<le> 3 \<Longrightarrow> sha3_cap v \<in> {7, 8, 12, 16}"
  by (auto simp: sha3_cap_def le_Suc_eq numeral_eq_Suc)

lemma sha3_start_holds: "v \<le> 3 \<Longrightarrow> sha3_holds v (sha3_start v) []"
  using sha3_cap_less[of v] by (auto simp: sha3_holds_def sha3_at_def sha3_start_def sha3_zero_def load_words_def word_of_bytes_def)

lemma sha3_update_holds:
  assumes "sha3_holds v c m" "wf_ba a"
  shows "\<exists>c'. sha3_update (Some c) (Some a) = Inr c' \<and> sha3_holds v c' (m @ data a)"
proof -
  define r where "r = 25 - sha3_cap v"
  define st where "st = foldl (sha3_step r) (replicate 25 0, 0) (load_words False m)"
  have c: "sha3_at v c st (tail_of 8 m)" using assms(1) by (simp add: sha3_holds_def st_def r_def)
  define d where "d = data a"
  have len: "ba_len a = length d" and rd: "rd (data a) 0 (ba_len a) = Inr d" using assms(2) by (auto simp: wf_ba_def d_def)
  define b where "b = length m mod 8"
  define ot where "ot = (8 - b) mod 8"
  have bi: "sha3_byte_index c = b" "b < 8" using c by (simp_all add: sha3_at_def b_def)
  have z: "sz_sub 8 b = 8 - b" using bi by (simp add: sz_sub_def)
  have holds: "sha3_holds v c' (m @ d) \<longleftrightarrow> sha3_at v c' (foldl (sha3_step r) (replicate 25 0, 0) (load_words False (m @ d))) (tail_of 8 (m @ d))" for c'
    by (simp add: sha3_holds_def r_def)
  note e = sha3_update_def[of "Some c" "Some a", unfolded NOT_NULL_simps rd DO_simps Let_def bi z, folded ot_def]
  show ?thesis
  proof (cases "length d < ot \<or> d = []")
    case True
    show ?thesis
    proof (cases "d = []")
      case True
      then show ?thesis using assms(1) len by (simp add: sha3_update_def flip: d_def)
    next
      case False
      then have l: "length d < ot" using \<open>length d < ot \<or> d = []\<close> by simp
      then have s: "length m mod 8 + length d < 8" using bi by (auto simp: ot_def b_def split: if_splits) 
      obtain c' where "sha3_save c d = Inr c'" "sha3_at v c' st (tail_of 8 m @ d)"
        using sha3_save_at[OF c, of d] s by auto
      moreover have "tail_of 8 (m @ d) = tail_of 8 m @ d" "(load_words False (m @ d) :: u64 list) = load_words False m"
        using blocks_short[OF s] by (simp_all add: load_words_def)
      ultimately show ?thesis using False l e by (simp add: holds len st_def flip: d_def)
    qed
  next
    case False
    then have l: "\<not> length d < ot" "d \<noteq> []" by simp_all
    obtain c1 st1 where c1: "(if ot \<noteq> 0 then DO (sha3_save c (take ot d)) (\<lambda>c. Inr (sha3_word (c\<lparr>sha3_byte_index := 0, sha3_saved := 0\<rparr>) (sha3_saved c))) else Inr c) = Inr c1"
        "sha3_at v c1 st1 []"
        and st1: "foldl (sha3_step r) st1 (load_words False (drop ot d)) = foldl (sha3_step r) (replicate 25 0, 0) (load_words False (m @ d))"
        "tail_of 8 (m @ d) = tail_of 8 (drop ot d)"
    proof (cases "ot = 0")
      case True
      then have b0: "b = 0" using bi by (cases "b = 0") (simp_all add: ot_def)
      then have t0: "tail_of 8 m = []" by (simp add: mod_0_tail_of b_def mod_eq_0_iff_dvd)
      have "foldl (sha3_step r) st (load_words False d) = foldl (sha3_step r) (replicate 25 0, 0) (load_words False (m @ d))"
        using chunks_tail_append(1)[of 8 m d] by (simp add: st_def load_words_def t0)
      moreover have "tail_of 8 (m @ d) = tail_of 8 d" using chunks_tail_append(2)[of 8 m d] by (simp add: t0)
      ultimately show ?thesis using that[of c st] True c t0 by simp
    next
      case False
      then have ob: "ot = 8 - b" "0 < b" by (cases "b = 0"; simp add: ot_def)+
      then have ge: "8 \<le> length m mod 8 + length d" using l bi by (simp add: b_def)
      note full = blocks_full[of 8, OF _ ge, folded b_def, folded ob(1)]
      define w where "w = tail_of 8 m @ take ot d"
      have w: "length w = 8" using ob l bi by (simp add: w_def flip: b_def)
      obtain c0 where c0: "sha3_save c (take ot d) = Inr c0" "sha3_at v c0 st w"
        using sha3_save_at[OF c, of "take ot d"] w by (auto simp: w_def)
      have "sha3_at v (c0\<lparr>sha3_byte_index := 0, sha3_saved := 0\<rparr>) st []"
        using c0(2) by (simp add: sha3_at_def word_of_bytes_def)
      from sha3_word_at[OF this, of "sha3_saved c0"]
      have "sha3_at v (sha3_word (c0\<lparr>sha3_byte_index := 0, sha3_saved := 0\<rparr>) (sha3_saved c0)) (sha3_step r st (word_of_bytes False w)) []"
        using c0(2) by (simp add: sha3_at_def r_def)
      then show ?thesis using that[of "sha3_word (c0\<lparr>sha3_byte_index := 0, sha3_saved := 0\<rparr>) (sha3_saved c0)" "sha3_step r st (word_of_bytes False w)"]
          False c0(1) full by (simp add: st_def load_words_def w_def)
    qed
    define i where "i = ot + 8 * ((length d - ot) div 8)"
    define c2 where "c2 = foldl (\<lambda>c b. sha3_word c (LOAD64L b)) c1 (chunks 8 (drop ot d))"
    have f: "for_blocks 8 (\<lambda>c b. Inr (sha3_word c (LOAD64L b))) d ot (length d) c1 = Inr (c2, i)"
      using l for_blocks_eq[of 8 ot "length d" d "\<lambda>_. True" "\<lambda>c b. Inr (sha3_word c (LOAD64L b))" "\<lambda>c b. sha3_word c (LOAD64L b)" c1]
      by (simp add: c2_def i_def)
    have c2: "sha3_at v c2 (foldl (sha3_step r) (replicate 25 0, 0) (load_words False (m @ d))) []"
      using sha3_words_at[OF c1(2), of "chunks 8 (drop ot d)"] st1(1)
      by (simp add: c2_def r_def load_words_def length_in_chunks)
    have t: "drop i d = tail_of 8 (m @ d)" unfolding st1(2) by (simp add: tail_of_def i_def add.commute)
    obtain c3 where "sha3_save c2 (drop i d) = Inr c3"
        "sha3_at v c3 (foldl (sha3_step r) (replicate 25 0, 0) (load_words False (m @ d))) (tail_of 8 (m @ d))"
      using sha3_save_at[OF c2, of "drop i d"] unfolding t by auto
    then show ?thesis using e l c1(1) f by (simp add: holds len flip: d_def)
  qed
qed

subsection \<open>The last block\<close>

lemma word_of_bytes_xor:
  assumes "length a = length b" "length a \<le> 8"
  shows "word_of_bytes False (map2 (XOR) a b) = (word_of_bytes False a XOR word_of_bytes False b :: u64)"
  using assms
proof (induction a b rule: rev_induct2)
  case (4 x xs y ys)
  then show ?case
    by (simp add: word_of_bytes_snoc(2) unsigned_xor_eq push_bit_xor ac_simps)
qed (simp_all add: word_of_bytes_def)

lemma load_words_xor:
  assumes "length a = length b" "8 dvd length a"
  shows "(load_words False (map2 (XOR) a b) :: u64 list) = map2 (XOR) (load_words False a) (load_words False b)"
proof (rule nth_equalityI)
  fix i assume "i < length (load_words False (map2 (XOR) a b) :: u64 list)"
  then have i: "i < length a div 8" using assms by simp
  then have le: "8 * i + 8 \<le> length a" using assms(2) by auto
  have n: "(load_words False c :: u64 list) ! i = word_of_bytes False (take 8 (drop (8 * i) c))" if "length c = length a" for c
    using that i le by (simp add: load_words_def nth_chunks)
  have "take 8 (drop (8 * i) (map2 (XOR) a b)) = map2 (XOR) (take 8 (drop (8 * i) a)) (take 8 (drop (8 * i) b))"
    by (simp add: take_map drop_map take_zip drop_zip)
  then show "(load_words False (map2 (XOR) a b) :: u64 list) ! i = map2 (XOR) (load_words False a) (load_words False b) ! i"
    using assms i le by (simp add: n word_of_bytes_xor)
qed (use assms in simp)

lemma xor_zeros: "length xs = n \<Longrightarrow> map2 (XOR) xs (replicate n 0) = (xs :: u8 list)"
  by (induction xs arbitrary: n) auto

lemma pad_split:
  assumes "length t < k"
  shows "t @ (let q = k - length t in if q = 1 then [d XOR 0x80] else d # replicate (q - 2) 0 @ [0x80])
    = map2 (XOR) (t @ d # replicate (k - length t - 1) 0) (replicate (k - 1) 0 @ [0x80 :: u8])"
proof -
  obtain p where k: "k = length t + Suc p" using assms less_iff_Suc_add by auto
  show ?thesis
  proof (cases p)
    case 0
    then show ?thesis by (simp add: k xor_zeros)
  next
    case (Suc p')
    have "replicate (k - 1) 0 @ [0x80] = replicate (length t) 0 @ 0 # replicate p' 0 @ [0x80 :: u8]"
      by (simp add: k Suc replicate_add replicate_append_same)
    moreover have "t @ d # replicate (k - length t - 1) 0 = t @ d # replicate p' 0 @ [0]"
      by (simp add: k Suc replicate_append_same)
    ultimately show ?thesis by (simp only:) (simp add: k Suc xor_zeros)
  qed
qed

lemma load_words_zeros8: "(load_words False (replicate (8 * n) 0) :: u64 list) = replicate n 0"
proof (induction n)
  case (Suc n)
  have "replicate (8 * Suc n) 0 = replicate 8 0 @ replicate (8 * n) (0 :: u8)" by (simp flip: replicate_add)
  then show ?case using Suc load_words_block[of "replicate 8 0" False "replicate (8 * n) 0", where 'a=64] word_of_bytes_zeros[of "[]" 8]
    by (simp add: word_of_bytes_def)
qed (simp add: load_words_def)

lemma load_words_append64: "8 dvd length a \<Longrightarrow> (load_words False (a @ b) :: u64 list) = load_words False a @ load_words False b"
  by (simp add: load_words_def chunks_append)

text \<open>The words of the last block: what is left of the message, the bits of the padding, and the last bit.\<close>

lemma last_block_words:
  fixes d :: u8
  assumes "length t < 8 * r" "0 < r"
  defines "w \<equiv> word_of_bytes False (tail_of 8 t) XOR push_bit (8 * (length t mod 8)) (ucast d) :: u64"
  shows "load_words False (t @ d # replicate (8 * r - length t - 1) 0)
      = load_words False t @ w # replicate (r - length t div 8 - 1) 0"
    and "load_words False (replicate (8 * r - 1) 0 @ [0x80]) = replicate (r - 1) 0 @ [0x8000000000000000 :: u64]"
proof -
  define c where "c = concat (chunks 8 t)"
  define u where "u = tail_of 8 t"
  have t: "t = c @ u" by (simp add: c_def u_def chunks_tail_of)
  have c: "8 dvd length c" by (simp add: c_def length_concat_blocks length_in_chunks)
  have u: "length u = length t mod 8" by (simp add: u_def)
  have b: "length u < 8" by (simp add: u)
  define n where "n = r - length t div 8 - 1"
  have n: "8 * r - length t - 1 = (7 - length u) + 8 * n" 
  proof -
    define q where "q = length t div 8"
    have q: "length t = 8 * q + length u" "q < r" using u assms(1) by (simp_all add: q_def)
    then obtain k where "r = q + Suc k" using less_iff_Suc_add by auto
    then show ?thesis using q(1) b by (simp add: n_def flip: q_def)
  qed
  have "t @ d # replicate (8 * r - length t - 1) 0 = c @ ((u @ [d]) @ replicate (7 - length u) 0) @ replicate (8 * n) 0"
    unfolding n replicate_add by (simp add: t)
  moreover have "load_words False (((u @ [d]) @ replicate (7 - length u) 0) @ xs)
      = (word_of_bytes False ((u @ [d]) @ replicate (7 - length u) 0) :: u64) # load_words False xs" for xs
    using b by (intro load_words_block) simp_all
  moreover have "(load_words False t :: u64 list) = load_words False c"
    using c b by (simp add: t load_words_append64) (simp add: load_words_def chunks_short)
  ultimately show "load_words False (t @ d # replicate (8 * r - length t - 1) 0)
      = load_words False t @ w # replicate (r - length t div 8 - 1) 0"
    using c u b by (simp add: load_words_append64 load_words_zeros8 word_of_bytes_zeros[of "u @ [d]", simplified] word_of_bytes_snoc(2) w_def n_def flip: u_def)
  have "replicate (8 * r - 1) 0 @ [0x80] = replicate (8 * (r - 1)) 0 @ replicate 7 0 @ [0x80 :: u8]"
    using assms(2) by (simp flip: append_assoc replicate_add)
  moreover have "load_words False (replicate 7 0 @ [0x80]) = [0x8000000000000000 :: u64]"
    using load_words_block[of "replicate 7 0 @ [0x80]" False "[]", where 'a=64] word_of_bytes_snoc(1)[of "replicate 7 0" "0x80"]
      word_of_bytes_zeros[of "[]" 7] by (simp add: load_words_def word_of_bytes_def push_bit_eq_mult)
  ultimately show "load_words False (replicate (8 * r - 1) 0 @ [0x80]) = replicate (r - 1) 0 @ [0x8000000000000000 :: u64]"
    by (simp add: load_words_append64 load_words_zeros8)
qed

lemma sha3_final_holds:
  assumes "sha3_holds v c m" "mem_ok M"
  shows "\<exists>c'. sha3_final M (Some c) = (Inr (mk_ba (sha3 v m)), Some c') \<and> sha3_holds v c' []"
proof -
  define r where "r = 25 - sha3_cap v"
  define k where "k = 8 * r"
  define z where "z = replicate 25 (0 :: u64)"
  define st where "st = foldl (sha3_step r) (z, 0) (load_words False m)"
  have c: "sha3_at v c st (tail_of 8 m)" using assms(1) by (simp add: sha3_holds_def st_def r_def z_def)
  have v: "v \<le> 3" using c by (simp add: sha3_at_def)
  have r: "0 < r" "r \<le> 25" "sha3_cap v \<le> 25" "sha3_cap v * 4 \<le> 200" "0 < sha3_cap v" using sha3_cap_less[OF v] by (auto simp: r_def)
  define t where "t = tail_of k m"
  define S where "S = foldl (sponge_block r) z (chunks k m)"
  have t: "length t < k" "length t = length m mod k" using r by (simp_all add: t_def k_def)
  have S: "length S = 25" unfolding S_def z_def k_def using r by (intro steps_blocks(2)) (simp_all add: length_in_chunks)
  have m: "m = concat (chunks k m) @ t" using r by (simp add: t_def chunks_tail_of k_def)
  have d8: "8 dvd length (concat (chunks k m))"
    using length_concat_blocks[of "chunks k m" k] by (simp add: length_in_chunks k_def)
  have st: "st = (xor_at S 0 (load_words False t), length t div 8)"
  proof -
    have "st = foldl (sha3_step r) (foldl (sha3_step r) (z, 0) (load_words False (concat (chunks k m)))) (load_words False t)"
      unfolding st_def by (subst (1) m) (simp add: load_words_append64 d8)
    also have "foldl (sha3_step r) (z, 0) (load_words False (concat (chunks k m))) = (S, 0)"
      unfolding S_def using r by (intro steps_blocks(1)) (simp_all add: z_def length_in_chunks k_def)
    finally have st1: "st = foldl (sha3_step r) (S, 0) (load_words False t)" .
    have "length t div 8 < r" using t(1) by (simp add: k_def less_mult_imp_div_less mult.commute)
    then have "foldl (sha3_step r) (S, 0) (load_words False t) = (xor_at S 0 (load_words False t), 0 + length (load_words False t :: u64 list))"
      using S r by (intro steps_partial) simp_all
    then show ?thesis by (simp add: st1)
  qed
  have tl: "tail_of 8 m = tail_of 8 t" "length m mod 8 = length t mod 8"
  proof -
    have "chunks 8 (concat (chunks k m)) = chunks 8 (concat (chunks k m))" ..
    have "tail_of 8 (concat (chunks k m) @ t) = tail_of 8 (tail_of 8 (concat (chunks k m)) @ t)" by (rule chunks_tail_append(2)) simp
    also have "tail_of 8 (concat (chunks k m)) = []" using d8 by (rule mod_0_tail_of)
    finally show "tail_of 8 m = tail_of 8 t" using m by simp
    then show "length m mod 8 = length t mod 8" by (metis length_tail_of)
  qed
  define w :: u64 where "w = word_of_bytes False (tail_of 8 t) XOR push_bit (8 * (length t mod 8)) (ucast (0x06 :: u8))"
  define T :: "u64 list" where "T = load_words False t"
  define n where "n = length t div 8"
  have n: "n < r" "length T = n" using t by (auto simp: n_def T_def k_def)
  define s1 where "s1 = (xor_at S 0 T)[n := xor_at S 0 T ! n XOR w]"
  define s2 where "s2 = s1[r - 1 := s1 ! (r - 1) XOR 0x8000000000000000]"
  define B where "B = t @ pad_10_1 k 0x06 (length m)"
  have B: "length B = k" using t by (auto simp: B_def pad_10_1_def Let_def)
  have "B = map2 (XOR) (t @ 0x06 # replicate (k - length t - 1) 0) (replicate (k - 1) 0 @ [0x80])"
    using pad_split[OF t(1), of "0x06"] t(2) by (simp add: B_def pad_10_1_def)
  then have "(load_words False B :: u64 list) = map2 (XOR) (load_words False (t @ 0x06 # replicate (k - length t - 1) 0)) (load_words False (replicate (k - 1) 0 @ [0x80]))"
    using t by (simp add: load_words_xor k_def)
  also have "\<dots> = map2 (XOR) (T @ w # replicate (r - n - 1) 0) (replicate (r - 1) 0 @ [0x8000000000000000])"
    using last_block_words(1)[of t r "0x06"] last_block_words(2)[of t r] t r unfolding k_def T_def n_def w_def by simp
  finally have LB: "(load_words False B :: u64 list) = map2 (XOR) (T @ w # replicate (r - n - 1) 0) (replicate (r - 1) 0 @ [0x8000000000000000])" .
  have s2: "s2 = map2 (XOR) S (load_words False B @ replicate (25 - r) 0)"
    unfolding LB using S n r
    by (intro nth_equalityI) (auto simp: s2_def s1_def xor_at_def nth_append nth_list_update nth_Cons' xor.assoc)
  have P: "sponge r (m @ pad_10_1 k 0x06 (length m)) = keccak_f s2"
  proof -
    have "m @ pad_10_1 k 0x06 (length m) = concat (chunks k m) @ B" unfolding B_def by (subst (1) m) simp
    moreover have "chunks k (concat (chunks k m) @ B) = chunks k m @ [B]"
      using r B by (subst chunks_append) (simp_all add: length_concat_blocks length_in_chunks chunks_concat k_def chunks_block[of B k "[]", unfolded k_def, simplified])
    ultimately show ?thesis unfolding sponge_def k_def[symmetric] by (simp add: sponge_block_def s2 S_def z_def)
  qed
  have cc: "sha3_capacity_words c = sha3_cap v" "sha3_variant c = v" "sha3_s c = xor_at S 0 T" "sha3_word_index c = n"
      "sha3_byte_index c = length t mod 8" "sha3_saved c = word_of_bytes False (tail_of 8 t)"
    using c by (simp_all add: sha3_at_def st tl T_def n_def)
  have l2: "length s2 = 25" using S n r by (simp add: s2_def s1_def)
  have sh: "sha3 v m = take (sha3_cap v * 4) (store_words False (keccak_f s2))"
    using P by (simp add: sha3_def Let_def mult.commute[of _ "sha3_cap v"] flip: r_def k_def)
  have sf: "STORE64L = bytes_of_word False" by (rule ext) (rule STORE64L_eq)
  have "ss_done c 0x06 = (c\<lparr>sha3_s := s_keccakf s2, sha3_sb := concat (map STORE64L (s_keccakf s2))\<rparr>,
      take (sha3_cap v * 4) (concat (map STORE64L (s_keccakf s2))))"
    by (simp add: ss_done_def cc Let_def s2_def s1_def w_def r_def)
  then have D: "ss_done c 0x06 = (c\<lparr>sha3_s := keccak_f s2, sha3_sb := store_words False (keccak_f s2)\<rparr>, sha3 v m)"
    by (simp add: keccakf_fips l2 sf sh store_words_def)
  have l: "length (sha3 v m) = sha3_cap v * 4" using r l2 by (simp add: sh length_store_words)
  have "sha3_final M (Some c) = (Inr (mk_ba (sha3 v m)), Some (sha3_start v))"
    using assms(2) r l by (simp add: sha3_final_def D cc ba_alloc_by_len_eq sha3_start_def)
  then show ?thesis using sha3_start_holds[OF v] by blast
qed

subsection \<open>The hash interface\<close>

lemma sha3_hash_alg:
  assumes "v \<le> 3"
  shows "hash_alg (sha3_start v) (\<lambda>c a. sha3_update (Some c) (Some a)) (\<lambda>M c. map_prod id the (sha3_final M (Some c)))
     (sha3_holds v) (sha3 v) SIZE_MOD"
proof
  show "sha3_holds v (sha3_start v) []" using assms by (rule sha3_start_holds)
  show "\<exists>c'. sha3_update (Some c) (Some a) = Inr c' \<and> sha3_holds v c' (m @ data a)"
    if "sha3_holds v c m" "wf_ba a" for c m a
    using that by (rule sha3_update_holds)
  show "\<exists>c'. map_prod id the (sha3_final M (Some c)) = (Inr (mk_ba (sha3 v m)), c') \<and> sha3_holds v c' []"
    if "sha3_holds v c m" "mem_ok M" for c m M
    using sha3_final_holds[OF that] by auto
qed

interpretation sha3_224: hash_alg "sha3_start 0" "\<lambda>c a. sha3_update (Some c) (Some a)"
    "\<lambda>M c. map_prod id the (sha3_final M (Some c))" "sha3_holds 0" "sha3 0" SIZE_MOD
  by (rule sha3_hash_alg) simp

interpretation sha3_256: hash_alg "sha3_start 1" "\<lambda>c a. sha3_update (Some c) (Some a)"
    "\<lambda>M c. map_prod id the (sha3_final M (Some c))" "sha3_holds 1" "sha3 1" SIZE_MOD
  by (rule sha3_hash_alg) simp

interpretation sha3_384: hash_alg "sha3_start 2" "\<lambda>c a. sha3_update (Some c) (Some a)"
    "\<lambda>M c. map_prod id the (sha3_final M (Some c))" "sha3_holds 2" "sha3 2" SIZE_MOD
  by (rule sha3_hash_alg) simp

interpretation sha3_512: hash_alg "sha3_start 3" "\<lambda>c a. sha3_update (Some c) (Some a)"
    "\<lambda>M c. map_prod id the (sha3_final M (Some c))" "sha3_holds 3" "sha3 3" SIZE_MOD
  by (rule sha3_hash_alg) simp

lemma sha3_alloc_eq: "v \<le> 3 \<Longrightarrow> mem_ok M \<Longrightarrow> sha3_alloc M v = Inr (Some (sha3_start v))"
proof -
  assume "v \<le> 3" and M: "mem_ok M"
  then have "v = 0 \<or> v = 1 \<or> v = 2 \<or> v = 3" by arith
  then show ?thesis using M by (elim disjE) (simp_all add: sha3_alloc_def sha3_start_def sha3_cap_def Let_def)
qed

subsection \<open>Properties\<close>

text \<open>(C29) The permutation of SHA-3: the code's loops, which work in place and read rotations, positions and constants
  from tables, compute the permutation of FIPS 202, whose rotations and constants come from the
  standard's rules.\<close>

theorem keccakf_standard: "length s = 25 \<Longrightarrow> s_keccakf s = keccak_f s"
  by (rule keccakf_fips)

lemma keccakf_standard_witness: "s_keccakf (replicate 25 0) = keccak_f (replicate 25 0)"
  by (rule keccakf_standard) simp

text \<open>SHA-3 in fragments: whatever fragments a message comes in, across the borders of words and blocks,
  the code returns the digest of FIPS 202 of their concatenation and a context that holds the empty message.\<close>

theorem sha3_fragments:
  assumes "v \<le> 3" "\<forall>a \<in> set frs. wf_ba a \<and> ba_len a \<le> SIZE_MOD" "mem_ok M"
  shows "\<exists>ctx c c'. sha3_alloc M v = Inr (Some ctx)
     \<and> feed (\<lambda>c a. sha3_update (Some c) (Some a)) ctx frs = Inr c
     \<and> sha3_final M (Some c) = (Inr (mk_ba (sha3 v (concat (map data frs)))), Some c')
     \<and> sha3_holds v c' []"
proof -
  from hash_alg.feed_holds[OF sha3_hash_alg[OF assms(1)] sha3_start_holds[OF assms(1)] assms(2)]
  obtain c where "feed (\<lambda>c a. sha3_update (Some c) (Some a)) (sha3_start v) frs = Inr c"
      "sha3_holds v c (concat (map data frs))" by auto
  with sha3_final_holds[OF _ assms(3)] sha3_alloc_eq[OF assms(1,3)] show ?thesis by blast
qed

end
