(* ===== verification/GfTables.thy ===== *)
theory GfTables
  imports BlockHash
begin

text \<open>
  What the algorithms with tables of words share: the bytes of a word, which sums and rotations respect, and
  the multiplication of bytes in a field of 256 elements.
\<close>

definition wbyte :: "'a::len word \<Rightarrow> nat \<Rightarrow> int" where
  "wbyte w n = take_bit 8 (drop_bit (8 * n) (uint w))"

lemma bit_wbyte: "bit (wbyte w n) i \<longleftrightarrow> i < 8 \<and> bit w (8 * n + i)"
proof -
  have "bit (uint w) j = bit w j" for j using bit_imp_le_length[of w j] by (auto simp: bit_unsigned_iff)
  then show ?thesis by (simp add: wbyte_def bit_take_bit_iff bit_drop_bit_eq)
qed

lemma wbyte_eqI: "(\<And>i. i < 8 \<Longrightarrow> bit v (8 * m + i) = bit w (8 * n + i)) \<Longrightarrow> wbyte v m = wbyte w n"
  by (rule bit_eqI) (simp add: bit_wbyte cong: conj_cong)

lemma wbyte_xor: "wbyte (v XOR w) n = wbyte v n XOR wbyte w n"
  by (rule bit_eqI) (auto simp: bit_wbyte bit_xor_iff)

lemma wbyte_0 [simp]: "wbyte 0 n = 0"
  by (simp add: wbyte_def)

lemma wbyte_range [simp]: "0 \<le> wbyte w n" "wbyte w n < 256"
  by (simp_all add: wbyte_def take_bit_eq_mod)

lemma wbyte_words_eqI:
  assumes "\<And>n. n < LENGTH('a) div 8 \<Longrightarrow> wbyte v n = wbyte w n" and "8 dvd LENGTH('a)"
  shows "v = (w :: 'a::len word)"
proof (rule bit_word_eqI)
  fix i assume i: "i < LENGTH('a)"
  have "i div 8 < LENGTH('a) div 8" using i assms(2) by (metis dvd_div_mult_self less_mult_imp_div_less)
  then have "wbyte v (i div 8) = wbyte w (i div 8)" by (rule assms(1))
  then have "bit (wbyte v (i div 8)) (i mod 8) = bit (wbyte w (i div 8)) (i mod 8)" by simp
  then show "bit v i = bit w i" by (simp add: bit_wbyte)
qed

text \<open>The macros that read a byte of a word as an index.\<close>

lemma byte_and: "drop_bit n w AND 255 = take_bit 8 (drop_bit n (w :: u64))"
  by (simp add: take_bit_eq_mask mask_eq_exp_minus_1)

lemma unat_byte: "unat (drop_bit (8 * j) (w :: u64) AND 255) = nat (wbyte w j)"
proof -
  have "int (unat (drop_bit (8 * j) w AND 255)) = uint (take_bit 8 (drop_bit (8 * j) w))"
    unfolding byte_and by (simp only: uint_nat)
  also have "\<dots> = wbyte w j"
  proof -
    have "take_bit 64 (uint w) = uint w" using uint_lt2p[of w] by (intro take_bit_int_eq_self) simp_all
    then show ?thesis by (simp add: wbyte_def unsigned_drop_bit_eq unsigned_take_bit_eq)
  qed
  finally show ?thesis by linarith
qed

lemma nat_wbyte_less [simp]: "nat (wbyte w n) < 256"
  using wbyte_range[of w n] by linarith

text \<open>\<open>row_val bs\<close> is the number with the bytes \<open>bs\<close>, the most significant first.\<close>

definition row_val :: "int list \<Rightarrow> int" where
  "row_val bs = foldl (\<lambda>v b. 256 * v + b) 0 bs"

lemma row_val_snoc: "row_val (bs @ [b]) = 256 * row_val bs + b"
  by (simp add: row_val_def)

lemma row_val_byte:
  assumes "\<forall>b \<in> set bs. 0 \<le> b \<and> b < 256" "n < length bs"
  shows "row_val bs div 256 ^ n mod 256 = bs ! (length bs - 1 - n)"
  using assms
proof (induction bs arbitrary: n rule: rev_induct)
  case (snoc b bs)
  show ?case
  proof (cases n)
    case 0
    then show ?thesis using snoc.prems by (simp add: row_val_snoc mod_pos_pos_trivial)
  next
    case (Suc m)
    have "row_val (bs @ [b]) div 256 = row_val bs"
      using snoc.prems(1) by (simp add: row_val_snoc div_pos_pos_trivial)
    then have "row_val (bs @ [b]) div 256 ^ n = row_val bs div 256 ^ m" by (simp add: Suc zdiv_zmult2_eq)
    moreover have "(bs @ [b]) ! (length (bs @ [b]) - 1 - n) = bs ! (length bs - 1 - m)"
      using snoc.prems(2) Suc diff_less[of "Suc m" "length bs"] by (auto simp: nth_append)
    ultimately show ?thesis using snoc Suc by simp
  qed
qed simp

lemma wbyte_row:
  assumes "uint w = row_val bs" "\<forall>b \<in> set bs. 0 \<le> b \<and> b < 256" "n < length bs"
  shows "wbyte w n = bs ! (length bs - 1 - n)"
  using row_val_byte[OF assms(2,3)] assms(1)
  by (simp add: wbyte_def take_bit_eq_mod drop_bit_eq_div power_mult)

lemma uint_of_row:
  assumes "\<forall>b \<in> set bs. 0 \<le> b \<and> b < 256" "length bs = 8"
  shows "uint (of_int (row_val bs) :: u64) = row_val bs"
proof -
  have "0 \<le> row_val bs \<and> row_val bs < 256 ^ length bs" using assms(1)
  proof (induction bs rule: rev_induct)
    case (snoc b bs)
    then show ?case by (simp add: row_val_snoc)
  qed (simp add: row_val_def)
  then show ?thesis using assms(2) by (simp add: unsigned_of_int take_bit_int_eq_self)
qed

text \<open>Multiplication by \<open>x\<close> modulo the polynomial \<open>p\<close>, and by a small constant given by its bits.\<close>

definition gf_dbl :: "int \<Rightarrow> int \<Rightarrow> int" where
  "gf_dbl p a = (if a < 128 then 2 * a else 2 * a XOR p)"

fun gf_mul :: "int \<Rightarrow> nat \<Rightarrow> int \<Rightarrow> int" where
  "gf_mul p n a = (if n = 0 then 0 else (if odd n then a else 0) XOR gf_mul p (n div 2) (gf_dbl p a))"

declare gf_mul.simps [simp del]

lemma xor_byte: "0 \<le> a \<Longrightarrow> a < 256 \<Longrightarrow> 0 \<le> b \<Longrightarrow> b < 256 \<Longrightarrow> 0 \<le> a XOR b \<and> a XOR b < (256 :: int)"
  using XOR_upper[of a 8 b] by simp

lemma bit_8: "0 \<le> x \<Longrightarrow> x < 512 \<Longrightarrow> bit x 8 \<longleftrightarrow> 256 \<le> (x :: int)"
proof (cases "256 \<le> x")
  case True
  assume "x < 512"
  then have "x div 256 = 1" using True int_div_pos_eq[of x 256 1 "x - 256"] by simp
  then show ?thesis using True by (simp add: bit_iff_odd)
qed (simp add: bit_iff_odd)

lemma gf_dbl_range:
  assumes "0 \<le> a" "a < 256" "256 \<le> p" "p < 512"
  shows "0 \<le> gf_dbl p a \<and> gf_dbl p a < 256"
proof (cases "a < 128")
  case False
  define c where "c = 2 * a XOR p"
  have r: "c < 512" "0 \<le> c" using XOR_upper[of "2 * a" 9 p] assms by (simp_all add: c_def)
  have "bit (2 * a) 8" "bit p 8" using False assms by (simp_all add: bit_8)
  then have "\<not> bit c 8" by (simp add: c_def bit_xor_iff)
  then have "c < 256" using r by (simp add: bit_8)
  then show ?thesis using False r by (simp add: gf_dbl_def flip: c_def)
qed (use assms in \<open>simp add: gf_dbl_def\<close>)

lemma gf_mul_range:
  assumes "0 \<le> a" "a < 256" "256 \<le> p" "p < 512"
  shows "0 \<le> gf_mul p n a \<and> gf_mul p n a < 256"
  using assms
proof (induction p n a rule: gf_mul.induct)
  case (1 p n a)
  show ?case
  proof (cases "n = 0")
    case True
    then show ?thesis by (simp add: gf_mul.simps)
  next
    case False
    define c where "c = gf_mul p (n div 2) (gf_dbl p a)"
    have "0 \<le> c \<and> c < 256" unfolding c_def using 1(1)[OF False] gf_dbl_range[OF 1(2-5)] 1(4,5) by blast
    moreover have "gf_mul p n a = (if odd n then a else 0) XOR c" unfolding c_def using False by (subst gf_mul.simps) simp
    ultimately show ?thesis using xor_byte[of a c] xor_byte[of 0 c] 1(2,3) by (cases "odd n") simp_all
  qed
qed

lemma gf_mul_eval:
  "gf_mul p 0 a = 0" "gf_mul p (Suc 0) a = a" "gf_mul p 2 a = gf_dbl p a" "gf_mul p 3 a = a XOR gf_dbl p a"
  "gf_mul p 4 a = gf_dbl p (gf_dbl p a)" "gf_mul p 5 a = a XOR gf_dbl p (gf_dbl p a)"
  "gf_mul p 6 a = gf_dbl p a XOR gf_dbl p (gf_dbl p a)" "gf_mul p 7 a = a XOR gf_dbl p a XOR gf_dbl p (gf_dbl p a)"
  "gf_mul p 8 a = gf_dbl p (gf_dbl p (gf_dbl p a))" "gf_mul p 9 a = a XOR gf_dbl p (gf_dbl p (gf_dbl p a))"
  "gf_mul p 11 a = a XOR gf_dbl p a XOR gf_dbl p (gf_dbl p (gf_dbl p a))"
  "gf_mul p 13 a = a XOR gf_dbl p (gf_dbl p a) XOR gf_dbl p (gf_dbl p (gf_dbl p a))"
  "gf_mul p 14 a = gf_dbl p a XOR gf_dbl p (gf_dbl p a) XOR gf_dbl p (gf_dbl p (gf_dbl p a))"
  by (simp_all add: gf_mul.simps xor.assoc)

text \<open>\<open>sums rows\<close> lists the sums of the sets of rows; set number \<open>p\<close> is given by the bits of \<open>p\<close>.\<close>

primrec sums :: "int list \<Rightarrow> int list" where
  "sums [] = [0]"
| "sums (r # rs) = (let s = sums rs in s @ map (\<lambda>x. r XOR x) s)"

text \<open>\<open>lin A p\<close> is the product of the bits of \<open>p\<close> with the matrix \<open>A\<close>, its last row for the lowest bit.\<close>

primrec lin :: "int list \<Rightarrow> int \<Rightarrow> int" where
  "lin [] p = 0"
| "lin (r # rs) p = (if bit p (length rs) then r else 0) XOR lin rs p"

lemma lin_low: "m \<ge> length rs \<Longrightarrow> lin rs (take_bit m p) = lin rs p"
  by (induction rs) (auto simp: bit_take_bit_iff)

lemma sums_nth:
  "p < 2 ^ length rs \<Longrightarrow> length (sums rs) = 2 ^ length rs \<and> sums rs ! p = lin rs (int p)"
proof (induction rs arbitrary: p)
  case (Cons r rs)
  have l: "length (sums rs) = 2 ^ length rs" using Cons.IH[of 0] by simp
  have e: "int p div 2 ^ length rs = int (p div 2 ^ length rs)" by (simp add: zdiv_int)
  have b: "bit (int p) (length rs) \<longleftrightarrow> 2 ^ length rs \<le> p"
  proof (cases "2 ^ length rs \<le> p")
    case True
    then have "p div 2 ^ length rs = 1" using Cons.prems by (intro div_nat_eqI) simp_all
    then show ?thesis using True by (simp add: bit_iff_odd e)
  qed (simp add: bit_iff_odd e)
  show ?case
  proof (cases "2 ^ length rs \<le> p")
    case True
    define q where "q = p - 2 ^ length rs"
    have q: "q < 2 ^ length rs" using Cons.prems True by (simp add: q_def)
    have "p mod 2 ^ length rs = q" using q True by (simp add: le_mod_geq q_def)
    then have "take_bit (length rs) (int p) = int q" by (simp add: take_bit_eq_mod zmod_int flip: \<open>p mod _ = q\<close>)
    then have "lin rs (int p) = lin rs (int q)" using lin_low[of rs "length rs" "int p"] by simp
    moreover have "sums (r # rs) ! p = map ((XOR) r) (sums rs) ! q" using True l by (simp add: Let_def nth_append q_def)
    moreover have "map ((XOR) r) (sums rs) ! q = r XOR sums rs ! q" using q l by simp
    ultimately show ?thesis using Cons.IH[OF q] True b l by (simp add: Let_def)
  next
    case False
    then show ?thesis using Cons.IH[of p] b l by (simp add: Let_def nth_append)
  qed
qed simp

lemma lin_append: "lin (xs @ ys) p = lin xs (drop_bit (length ys) p) XOR lin ys p"
  by (induction xs) (simp_all add: bit_drop_bit_eq xor.assoc add.commute)

lemma lin_xor: "lin rs (p XOR q) = lin rs p XOR lin rs q"
  by (induction rs) (auto simp: bit_xor_iff ac_simps)

lemma lin_0 [simp]: "lin rs 0 = 0"
  by (induction rs) simp_all

lemma lin_push: "length rs \<le> m \<Longrightarrow> lin rs (push_bit m p) = 0"
  by (induction rs) (simp_all add: bit_push_bit_iff)

end
