(* ===== verification/Whirlpool.thy ===== *)
theory Whirlpool
  imports GfTables
begin

text \<open>
  The hash function Whirlpool of ISO/IEC 10118-3 (\<^verbatim>\<open>whirlpool.c\<close>).
\<close>

subsection \<open>Tables\<close>

definition wp_sbox0 :: "u64 list" where
  "wp_sbox0 = [
     0x18186018c07830d8, 0x23238c2305af4626, 0xc6c63fc67ef991b8, 0xe8e887e8136fcdfb, 0x878726874ca113cb, 0xb8b8dab8a9626d11,
     0x0101040108050209, 0x4f4f214f426e9e0d, 0x3636d836adee6c9b, 0xa6a6a2a6590451ff, 0xd2d26fd2debdb90c, 0xf5f5f3f5fb06f70e,
     0x7979f979ef80f296, 0x6f6fa16f5fcede30, 0x91917e91fcef3f6d, 0x52525552aa07a4f8, 0x60609d6027fdc047, 0xbcbccabc89766535,
     0x9b9b569baccd2b37, 0x8e8e028e048c018a, 0xa3a3b6a371155bd2, 0x0c0c300c603c186c, 0x7b7bf17bff8af684, 0x3535d435b5e16a80,
     0x1d1d741de8693af5, 0xe0e0a7e05347ddb3, 0xd7d77bd7f6acb321, 0xc2c22fc25eed999c, 0x2e2eb82e6d965c43, 0x4b4b314b627a9629,
     0xfefedffea321e15d, 0x575741578216aed5, 0x15155415a8412abd, 0x7777c1779fb6eee8, 0x3737dc37a5eb6e92, 0xe5e5b3e57b56d79e,
     0x9f9f469f8cd92313, 0xf0f0e7f0d317fd23, 0x4a4a354a6a7f9420, 0xdada4fda9e95a944, 0x58587d58fa25b0a2, 0xc9c903c906ca8fcf,
     0x2929a429558d527c, 0x0a0a280a5022145a, 0xb1b1feb1e14f7f50, 0xa0a0baa0691a5dc9, 0x6b6bb16b7fdad614, 0x85852e855cab17d9,
     0xbdbdcebd8173673c, 0x5d5d695dd234ba8f, 0x1010401080502090, 0xf4f4f7f4f303f507, 0xcbcb0bcb16c08bdd, 0x3e3ef83eedc67cd3,
     0x0505140528110a2d, 0x676781671fe6ce78, 0xe4e4b7e47353d597, 0x27279c2725bb4e02, 0x4141194132588273, 0x8b8b168b2c9d0ba7,
     0xa7a7a6a7510153f6, 0x7d7de97dcf94fab2, 0x95956e95dcfb3749, 0xd8d847d88e9fad56, 0xfbfbcbfb8b30eb70, 0xeeee9fee2371c1cd,
     0x7c7ced7cc791f8bb, 0x6666856617e3cc71, 0xdddd53dda68ea77b, 0x17175c17b84b2eaf, 0x4747014702468e45, 0x9e9e429e84dc211a,
     0xcaca0fca1ec589d4, 0x2d2db42d75995a58, 0xbfbfc6bf9179632e, 0x07071c07381b0e3f, 0xadad8ead012347ac, 0x5a5a755aea2fb4b0,
     0x838336836cb51bef, 0x3333cc3385ff66b6, 0x636391633ff2c65c, 0x02020802100a0412, 0xaaaa92aa39384993, 0x7171d971afa8e2de,
     0xc8c807c80ecf8dc6, 0x19196419c87d32d1, 0x494939497270923b, 0xd9d943d9869aaf5f, 0xf2f2eff2c31df931, 0xe3e3abe34b48dba8,
     0x5b5b715be22ab6b9, 0x88881a8834920dbc, 0x9a9a529aa4c8293e, 0x262698262dbe4c0b, 0x3232c8328dfa64bf, 0xb0b0fab0e94a7d59,
     0xe9e983e91b6acff2, 0x0f0f3c0f78331e77, 0xd5d573d5e6a6b733, 0x80803a8074ba1df4, 0xbebec2be997c6127, 0xcdcd13cd26de87eb,
     0x3434d034bde46889, 0x48483d487a759032, 0xffffdbffab24e354, 0x7a7af57af78ff48d, 0x90907a90f4ea3d64, 0x5f5f615fc23ebe9d,
     0x202080201da0403d, 0x6868bd6867d5d00f, 0x1a1a681ad07234ca, 0xaeae82ae192c41b7, 0xb4b4eab4c95e757d, 0x54544d549a19a8ce,
     0x93937693ece53b7f, 0x222288220daa442f, 0x64648d6407e9c863, 0xf1f1e3f1db12ff2a, 0x7373d173bfa2e6cc, 0x12124812905a2482,
     0x40401d403a5d807a, 0x0808200840281048, 0xc3c32bc356e89b95, 0xecec97ec337bc5df, 0xdbdb4bdb9690ab4d, 0xa1a1bea1611f5fc0,
     0x8d8d0e8d1c830791, 0x3d3df43df5c97ac8, 0x97976697ccf1335b, 0x0000000000000000, 0xcfcf1bcf36d483f9, 0x2b2bac2b4587566e,
     0x7676c57697b3ece1, 0x8282328264b019e6, 0xd6d67fd6fea9b128, 0x1b1b6c1bd87736c3, 0xb5b5eeb5c15b7774, 0xafaf86af112943be,
     0x6a6ab56a77dfd41d, 0x50505d50ba0da0ea, 0x45450945124c8a57, 0xf3f3ebf3cb18fb38, 0x3030c0309df060ad, 0xefef9bef2b74c3c4,
     0x3f3ffc3fe5c37eda, 0x55554955921caac7, 0xa2a2b2a2791059db, 0xeaea8fea0365c9e9, 0x656589650fecca6a, 0xbabad2bab9686903,
     0x2f2fbc2f65935e4a, 0xc0c027c04ee79d8e, 0xdede5fdebe81a160, 0x1c1c701ce06c38fc, 0xfdfdd3fdbb2ee746, 0x4d4d294d52649a1f,
     0x92927292e4e03976, 0x7575c9758fbceafa, 0x06061806301e0c36, 0x8a8a128a249809ae, 0xb2b2f2b2f940794b, 0xe6e6bfe66359d185,
     0x0e0e380e70361c7e, 0x1f1f7c1ff8633ee7, 0x6262956237f7c455, 0xd4d477d4eea3b53a, 0xa8a89aa829324d81, 0x96966296c4f43152,
     0xf9f9c3f99b3aef62, 0xc5c533c566f697a3, 0x2525942535b14a10, 0x59597959f220b2ab, 0x84842a8454ae15d0, 0x7272d572b7a7e4c5,
     0x3939e439d5dd72ec, 0x4c4c2d4c5a619816, 0x5e5e655eca3bbc94, 0x7878fd78e785f09f, 0x3838e038ddd870e5, 0x8c8c0a8c14860598,
     0xd1d163d1c6b2bf17, 0xa5a5aea5410b57e4, 0xe2e2afe2434dd9a1, 0x616199612ff8c24e, 0xb3b3f6b3f1457b42, 0x2121842115a54234,
     0x9c9c4a9c94d62508, 0x1e1e781ef0663cee, 0x4343114322528661, 0xc7c73bc776fc93b1, 0xfcfcd7fcb32be54f, 0x0404100420140824,
     0x51515951b208a2e3, 0x99995e99bcc72f25, 0x6d6da96d4fc4da22, 0x0d0d340d68391a65, 0xfafacffa8335e979, 0xdfdf5bdfb684a369,
     0x7e7ee57ed79bfca9, 0x242490243db44819, 0x3b3bec3bc5d776fe, 0xabab96ab313d4b9a, 0xcece1fce3ed181f0, 0x1111441188552299,
     0x8f8f068f0c890383, 0x4e4e254e4a6b9c04, 0xb7b7e6b7d1517366, 0xebeb8beb0b60cbe0, 0x3c3cf03cfdcc78c1, 0x81813e817cbf1ffd,
     0x94946a94d4fe3540, 0xf7f7fbf7eb0cf31c, 0xb9b9deb9a1676f18, 0x13134c13985f268b, 0x2c2cb02c7d9c5851, 0xd3d36bd3d6b8bb05,
     0xe7e7bbe76b5cd38c, 0x6e6ea56e57cbdc39, 0xc4c437c46ef395aa, 0x03030c03180f061b, 0x565645568a13acdc, 0x44440d441a49885e,
     0x7f7fe17fdf9efea0, 0xa9a99ea921374f88, 0x2a2aa82a4d825467, 0xbbbbd6bbb16d6b0a, 0xc1c123c146e29f87, 0x53535153a202a6f1,
     0xdcdc57dcae8ba572, 0x0b0b2c0b58271653, 0x9d9d4e9d9cd32701, 0x6c6cad6c47c1d82b, 0x3131c43195f562a4, 0x7474cd7487b9e8f3,
     0xf6f6fff6e309f115, 0x464605460a438c4c, 0xacac8aac092645a5, 0x89891e893c970fb5, 0x14145014a04428b4, 0xe1e1a3e15b42dfba,
     0x16165816b04e2ca6, 0x3a3ae83acdd274f7, 0x6969b9696fd0d206, 0x09092409482d1241, 0x7070dd70a7ade0d7, 0xb6b6e2b6d954716f,
     0xd0d067d0ceb7bd1e, 0xeded93ed3b7ec7d6, 0xcccc17cc2edb85e2, 0x424215422a578468, 0x98985a98b4c22d2c, 0xa4a4aaa4490e55ed,
     0x2828a0285d885075, 0x5c5c6d5cda31b886, 0xf8f8c7f8933fed6b, 0x8686228644a411c2]"

definition wp_cont :: "u64 list" where
  "wp_cont = [
     0x1823c6e887b8014f, 0x36a6d2f5796f9152, 0x60bc9b8ea30c7b35, 0x1de0d7c22e4bfe57, 0x157737e59ff04ada, 0x58c9290ab1a06b85,
     0xbd5d10f4cb3e0567, 0xe427418ba77d95d8, 0xfbee7c66dd17479e, 0xca2dbf07ad5a8333, 0x6302aa71c81949d9]"

subsection \<open>The compression function\<close>

definition ROR64c :: "u64 \<Rightarrow> nat \<Rightarrow> u64" where
  "ROR64c x y = drop_bit (y mod 64) x OR push_bit ((64 - y mod 64) mod 64) x"

text \<open>\<^verbatim>\<open>SB0\<close> to \<^verbatim>\<open>SB7\<close> are \<open>wp_SB 0\<close> to \<open>wp_SB 7\<close>; the index of \<^verbatim>\<open>GB\<close> is taken modulo 8.\<close>

definition wp_SB :: "nat \<Rightarrow> nat \<Rightarrow> u64" where
  "wp_SB k x = (if k = 0 then wp_sbox0 ! x else ROR64c (wp_sbox0 ! x) (8 * k))"

definition wp_GB :: "u64 list \<Rightarrow> nat \<Rightarrow> nat \<Rightarrow> nat" where
  "wp_GB a i j = unat (drop_bit (8 * j) (a ! (i mod 8)) AND 255)"

definition theta_pi_gamma :: "u64 list \<Rightarrow> nat \<Rightarrow> u64" where
  "theta_pi_gamma a i =
     wp_SB 0 (wp_GB a (i + 8 - 0) 7) XOR wp_SB 1 (wp_GB a (i + 8 - 1) 6) XOR wp_SB 2 (wp_GB a (i + 8 - 2) 5)
     XOR wp_SB 3 (wp_GB a (i + 8 - 3) 4) XOR wp_SB 4 (wp_GB a (i + 8 - 4) 3) XOR wp_SB 5 (wp_GB a (i + 8 - 5) 2)
     XOR wp_SB 6 (wp_GB a (i + 8 - 6) 1) XOR wp_SB 7 (wp_GB a (i + 8 - 7) 0)"

text \<open>A pass of the loop makes an odd and an even round.\<close>

definition wp_pass :: "u64 list \<times> u64 list \<Rightarrow> nat \<Rightarrow> u64 list \<times> u64 list" where
  "wp_pass p x =
     (let K0 = fst p; T0 = snd p;
         K1 = map (theta_pi_gamma K0) [0..<8];
         K1 = K1[0 := K1 ! 0 XOR wp_cont ! x];
         T1 = map (\<lambda>y. theta_pi_gamma T0 y XOR K1 ! y) [0..<8];
         K0 = map (theta_pi_gamma K1) [0..<8];
         K0 = K0[0 := K0 ! 0 XOR wp_cont ! (x + 1)];
         T0 = map (\<lambda>y. theta_pi_gamma T1 y XOR K0 ! y) [0..<8]
     in (K0, T0))"

definition wp_rounds :: "u64 list \<Rightarrow> u64 list \<Rightarrow> u64 list \<times> u64 list" where
  "wp_rounds K0 T0 = foldl wp_pass (K0, T0) [0, 2, 4, 6, 8]"

definition wp_comp :: "u64 list \<Rightarrow> u8 list \<Rightarrow> u64 list" where
  "wp_comp st buf =
     (let K0 = st; T2 = map (\<lambda>x. get_be64 buf (8 * x)) [0..<8]; T0 = map2 (XOR) T2 K0;
          (K0, T0) = wp_rounds K0 T0
      in map (\<lambda>x. st ! x XOR (T0 ! x XOR T2 ! x)) [0..<8])"

subsection \<open>The context\<close>

record WhirlpoolCtx =
  wp_length :: u64
  wp_state :: "u64 list"
  wp_buf :: "u8 list"
  wp_curlen :: nat

definition sizeof_WhirlpoolCtx :: nat where "sizeof_WhirlpoolCtx = 144"

definition wp_zero :: WhirlpoolCtx where
  "wp_zero = \<lparr>wp_length = 0, wp_state = replicate 8 0, wp_buf = replicate 64 0, wp_curlen = 0\<rparr>"

definition whirlpool_alloc :: "mem \<Rightarrow> WhirlpoolCtx option res" where
  "whirlpool_alloc M = to_ptr (CALLOC_CHECKED M sizeof_WhirlpoolCtx (Inr wp_zero))"

definition whirlpool_copy_with_alloc :: "mem \<Rightarrow> WhirlpoolCtx option \<Rightarrow> WhirlpoolCtx option res" where
  "whirlpool_copy_with_alloc M ctx = to_ptr (NOT_NULL ctx (\<lambda>c. CALLOC_CHECKED M sizeof_WhirlpoolCtx (Inr c)))"

definition whirlpool_get_block_size :: "WhirlpoolCtx option \<Rightarrow> nat" where
  "whirlpool_get_block_size ctx = 64"

definition whirlpool_compress :: "WhirlpoolCtx \<Rightarrow> WhirlpoolCtx" where
  "whirlpool_compress c = c\<lparr>wp_state := wp_comp (wp_state c) (wp_buf c)\<rparr>"

text \<open>
  The loop of \<^verbatim>\<open>whirlpool_update\<close>. A pass over a full buffer would copy nothing, for ever, which C
  lets a compiler take as impossible.
\<close>

function whirlpool_loop :: "WhirlpoolCtx \<Rightarrow> u8 list \<Rightarrow> WhirlpoolCtx res" where
  "whirlpool_loop c inp =
     (if inp = [] then Inr c
      else let n = length inp; n = (if n > sz_sub 64 (wp_curlen c) then sz_sub 64 (wp_curlen c) else n)
           in if n = 0 then Inl UNDEFINED
              else DO (wr (wp_buf c) (wp_curlen c) (take n inp)) (\<lambda>buf.
                let c = c\<lparr>wp_buf := buf, wp_curlen := wp_curlen c + n\<rparr>;
                    c = (if wp_curlen c = 64 then (whirlpool_compress c)\<lparr>wp_curlen := 0\<rparr> else c)
                in whirlpool_loop c (drop n inp)))"
  by pat_completeness auto
termination by (relation "measure (\<lambda>(c, inp). length inp)") auto

declare whirlpool_loop.simps [simp del]

definition whirlpool_update :: "WhirlpoolCtx option \<Rightarrow> ByteArray option \<Rightarrow> WhirlpoolCtx res" where
  "whirlpool_update ctx msg = NOT_NULL ctx (\<lambda>c. NOT_NULL msg (\<lambda>a.
     DO (rd (data a) 0 (ba_len a)) (whirlpool_loop (c\<lparr>wp_length := wp_length c + of_nat (ba_len a) * 8\<rparr>))))"

definition whirlpool_final :: "mem \<Rightarrow> WhirlpoolCtx option \<Rightarrow> ByteArray res \<times> WhirlpoolCtx option" where
  "whirlpool_final M ctx = DO_ST (NOT_NULL ctx Inr) ctx (\<lambda>c.
     DO_ST (CHECK_NOT_NULL (ba_alloc_by_len M 64) Inr) ctx (\<lambda>H.
     DO_ST (DO (wr (wp_buf c) (wp_curlen c) [0x80]) (\<lambda>b. Inr (c\<lparr>wp_buf := b, wp_curlen := wp_curlen c + 1\<rparr>))) ctx (\<lambda>c.
     DO_ST (if wp_curlen c > 32
            then DO (wr (wp_buf c) (wp_curlen c) (replicate (sz_sub 64 (wp_curlen c)) 0)) (\<lambda>b.
                 Inr ((whirlpool_compress (c\<lparr>wp_buf := b\<rparr>))\<lparr>wp_curlen := 0\<rparr>))
            else Inr c) (Some c) (\<lambda>c.
     DO_ST (DO (wr (wp_buf c) (wp_curlen c) (replicate (sz_sub 56 (wp_curlen c)) 0)) (\<lambda>b. wr b 56 (put_be64 (wp_length c)))) (Some c) (\<lambda>b.
     let c = whirlpool_compress (c\<lparr>wp_buf := b\<rparr>)
     in DO_ST (wr (data H) 0 (concat (map put_be64 (wp_state c)))) (Some c) (\<lambda>d.
        (Inr (set_data H d), Some wp_zero)))))))"

subsection \<open>The block cipher of the standard\<close>

text \<open>The S-box is built from a box of four bits, its inverse and a third box; \<open>std_cir\<close> is the circulant matrix.\<close>

definition std_E :: "int list" where
  "std_E = [1, 11, 9, 12, 13, 6, 15, 3, 14, 8, 7, 4, 10, 2, 5, 0]"

definition std_Einv :: "int list" where
  "std_Einv = map (\<lambda>y. int (the (List.find (\<lambda>x. std_E ! x = int y) [0..<16]))) [0..<16]"

definition std_R :: "int list" where
  "std_R = [7, 12, 11, 13, 14, 4, 9, 15, 6, 3, 8, 10, 2, 5, 1, 0]"

definition std_S_box :: "nat \<Rightarrow> nat \<Rightarrow> int" where
  "std_S_box h l = (let u = std_E ! h; v = std_Einv ! l; r = std_R ! nat (u XOR v)
     in 16 * std_E ! nat (u XOR r) + std_Einv ! nat (v XOR r))"

definition std_gamma :: "int \<Rightarrow> int" where
  "std_gamma b = std_S_box (nat b div 16) (nat b mod 16)"

definition std_cir :: "nat list" where
  "std_cir = [1, 1, 4, 1, 8, 5, 2, 9]"

text \<open>Byte \<open>j\<close> of row \<open>i\<close> after the substitution, the cyclic shift of column \<open>k\<close> by \<open>k\<close>, and the product with the matrix.\<close>

definition std_round_byte :: "u64 list \<Rightarrow> nat \<Rightarrow> nat \<Rightarrow> int" where
  "std_round_byte a i j =
     foldr (\<lambda>k s. gf_mul 0x11d (std_cir ! ((j + 8 - k) mod 8)) (std_gamma (wbyte (a ! ((i + 8 - k) mod 8)) (7 - k))) XOR s) [0..<8] 0"

definition std_round :: "u64 list \<Rightarrow> u64 list" where
  "std_round a = map (\<lambda>i. of_int (row_val (map (std_round_byte a i) [0..<8]))) [0..<8]"

definition std_rc :: "nat \<Rightarrow> u64 list" where
  "std_rc r = of_int (row_val (map (\<lambda>j. std_S_box (r div 2) (8 * (r mod 2) + j)) [0..<8])) # replicate 7 0"

definition std_W :: "u64 list \<Rightarrow> u64 list \<Rightarrow> u64 list" where
  "std_W K T = snd (foldl (\<lambda>(K, T) r. let K = map2 (XOR) (std_round K) (std_rc r) in (K, map2 (XOR) (std_round T) K))
     (K, map2 (XOR) T K) [0..<10])"

definition std_comp :: "u64 list \<Rightarrow> u8 list \<Rightarrow> u64 list" where
  "std_comp st b = (let m = map (\<lambda>x. get_be64 b (8 * x)) [0..<8] in map2 (XOR) st (map2 (XOR) (std_W st m) m))"

subsection \<open>The tables are those of the standard\<close>

definition std_table :: "int list" where
  "std_table = concat (map (\<lambda>h. map (\<lambda>l. row_val (map (\<lambda>c. gf_mul 0x11d c (std_S_box h l)) std_cir)) [0..<16]) [0..<16])"

lemma wp_table: "map uint wp_sbox0 = std_table"
  by code_simp

lemma wp_cont_std: "map (\<lambda>r. hd (std_rc r)) [0..<10] = take 10 wp_cont"
  by code_simp

lemma S_box_range: "list_all (\<lambda>h. list_all (\<lambda>l. 0 \<le> std_S_box h l \<and> std_S_box h l < 256) [0..<16]) [0..<16]"
  by code_simp

lemma S_box_range': "h < 16 \<Longrightarrow> l < 16 \<Longrightarrow> 0 \<le> std_S_box h l \<and> std_S_box h l < 256"
  using S_box_range by (simp add: list_all_iff)

lemma concat_map_nth:
  assumes "\<forall>h < m. length (f h) = k" "x < m * k"
  shows "concat (map f [0..<m]) ! x = f (x div k) ! (x mod k)"
  using assms
proof (induction m)
  case (Suc m)
  have l: "length (concat (map f [0..<m])) = m * k" using Suc.prems(1) by (induction m) simp_all
  show ?case
  proof (cases "x < m * k")
    case False
    then have d: "x div k = m" using Suc.prems(2) by (intro div_nat_eqI) (simp_all add: mult.commute)
    then have "x mod k = x - m * k" using minus_div_mult_eq_mod[of x k] by simp
    with d show ?thesis using False l by (simp add: nth_append)
  qed (use Suc l in \<open>simp add: nth_append\<close>)
qed simp

lemma length_std_cir: "length std_cir = 8"
  by (simp add: std_cir_def)

lemma wp_sbox0_byte:
  assumes "x < 256" "n < 8"
  shows "wbyte (wp_sbox0 ! x) n = gf_mul 0x11d (std_cir ! (7 - n)) (std_S_box (x div 16) (x mod 16))"
proof -
  let ?row = "\<lambda>h l. map (\<lambda>c. gf_mul 0x11d c (std_S_box h l)) std_cir"
  have "length wp_sbox0 = 256" by (simp add: wp_sbox0_def)
  then have "uint (wp_sbox0 ! x) = std_table ! x" using assms(1) by (simp flip: wp_table)
  also have "\<dots> = row_val (?row (x div 16) (x mod 16))"
    unfolding std_table_def using assms(1) by (subst concat_map_nth[where k = 16]) simp_all
  finally have u: "uint (wp_sbox0 ! x) = row_val (?row (x div 16) (x mod 16))" .
  have "x div 16 < 16" "x mod 16 < 16" using assms(1) by simp_all
  then have "\<forall>b \<in> set (?row (x div 16) (x mod 16)). 0 \<le> b \<and> b < 256"
    using S_box_range' by (auto simp: gf_mul_range)
  from wbyte_row[OF u this, of n] show ?thesis using assms(2) length_std_cir by simp
qed

lemma wbyte_rotr:
  assumes "n < 8" "0 < k" "k < 8"
  shows "wbyte (ROR64c w (8 * k)) n = wbyte w ((n + k) mod 8)"
proof (rule wbyte_eqI)
  fix i :: nat assume i: "i < 8"
  have h: "\<not> bit w j" if "64 \<le> j" for j using that bit_imp_le_length[of w j] by auto
  show "bit (ROR64c w (8 * k)) (8 * n + i) = bit w (8 * ((n + k) mod 8) + i)"
  proof (cases "n + k < 8")
    case True
    then have "8 * n + i < 64 - 8 * k" using i by linarith
    with True show ?thesis using assms i by (simp add: ROR64c_def bit_or_iff bit_drop_bit_eq bit_push_bit_iff algebra_simps)
  next
    case False
    then have "(n + k) mod 8 = n + k - 8" using assms by (simp add: le_mod_geq)
    moreover have "64 - 8 * k \<le> 8 * n + i" "8 * n + i - (64 - 8 * k) = 8 * (n + k - 8) + i" using False assms by linarith+
    ultimately show ?thesis using False assms i h[of "8 * n + i + 8 * k"]
      by (simp add: ROR64c_def bit_or_iff bit_drop_bit_eq bit_push_bit_iff algebra_simps)
  qed
qed

lemma wp_GB_wbyte: "wp_GB a i j = nat (wbyte (a ! (i mod 8)) j)"
  by (simp only: wp_GB_def unat_byte)

lemma wp_SB_byte:
  assumes "k < 8" "j < 8"
  shows "wbyte (wp_SB k (wp_GB a i (7 - k))) (7 - j)
    = gf_mul 0x11d (std_cir ! ((j + 8 - k) mod 8)) (std_gamma (wbyte (a ! (i mod 8)) (7 - k)))"
proof -
  define x where "x = nat (wbyte (a ! (i mod 8)) (7 - k))"
  have x: "x < 256" unfolding x_def using wbyte_range[of "a ! (i mod 8)" "7 - k"] by linarith
  have g: "wp_GB a i (7 - k) = x" by (simp add: wp_GB_wbyte x_def)
  have s: "std_gamma (wbyte (a ! (i mod 8)) (7 - k)) = std_S_box (x div 16) (x mod 16)" by (simp add: std_gamma_def x_def)
  show ?thesis
  proof (cases "k = 0")
    case True
    then show ?thesis using assms x unfolding g s by (simp add: wp_SB_def wp_sbox0_byte)
  next
    case False
    have "7 - (7 - j + k) mod 8 = (j + 8 - k) mod 8"
      using assms by (cases "k \<le> j") (simp_all add: le_mod_geq)
    then show ?thesis using False assms x unfolding g s by (simp add: wp_SB_def wbyte_rotr wp_sbox0_byte)
  qed
qed

lemma theta_pi_gamma_byte:
  assumes "i < 8" "j < 8"
  shows "wbyte (theta_pi_gamma a i) (7 - j) = std_round_byte a i j"
proof -
  have u: "[0..<8] = [0, 1, 2, 3, 4, 5, 6, 7]" by (simp add: upt_rec)
  note b = wp_SB_byte[OF _ assms(2), of 0 a "i + 8 - 0"] wp_SB_byte[OF _ assms(2), of 1 a "i + 8 - 1"]
    wp_SB_byte[OF _ assms(2), of 2 a "i + 8 - 2"] wp_SB_byte[OF _ assms(2), of 3 a "i + 8 - 3"]
    wp_SB_byte[OF _ assms(2), of 4 a "i + 8 - 4"] wp_SB_byte[OF _ assms(2), of 5 a "i + 8 - 5"]
    wp_SB_byte[OF _ assms(2), of 6 a "i + 8 - 6"] wp_SB_byte[OF _ assms(2), of 7 a "i + 8 - 7"]
  show ?thesis unfolding std_round_byte_def u theta_pi_gamma_def wbyte_xor foldr.simps o_def
    using b by (simp add: xor.assoc)
qed

lemma std_round_byte_range: "0 \<le> std_round_byte a i j \<and> std_round_byte a i j < 256"
proof -
  have g: "0 \<le> std_gamma (wbyte w n) \<and> std_gamma (wbyte w n) < 256" for w :: u64 and n
  proof -
    have "x div 16 < 16 \<and> x mod 16 < 16" if "x < 256" for x :: nat using that by simp
    from this[OF nat_wbyte_less] show ?thesis unfolding std_gamma_def by (intro S_box_range') simp_all
  qed
  have "0 \<le> foldr (\<lambda>k s. gf_mul 0x11d (c k) (std_gamma (wbyte (f k) (n k))) XOR s) ks 0
      \<and> foldr (\<lambda>k s. gf_mul 0x11d (c k) (std_gamma (wbyte (f k) (n k))) XOR s) ks 0 < 256" for c n ks and f :: "nat \<Rightarrow> u64"
    by (induction ks) (use g gf_mul_range xor_byte in \<open>simp_all add: xor_byte gf_mul_range\<close>)
  then show ?thesis unfolding std_round_byte_def .
qed

lemma theta_pi_gamma_std:
  assumes "i < 8"
  shows "theta_pi_gamma a i = std_round a ! i"
proof -
  define bs where "bs = map (std_round_byte a i) [0..<8]"
  have r: "\<forall>b \<in> set bs. 0 \<le> b \<and> b < 256" using std_round_byte_range by (auto simp: bs_def)
  have l: "length bs = 8" by (simp add: bs_def)
  have s: "std_round a ! i = of_int (row_val bs)" using assms by (simp add: std_round_def bs_def)
  have "wbyte (theta_pi_gamma a i) n = wbyte (std_round a ! i) n" if "n < 8" for n
    using wbyte_row[OF uint_of_row[OF r l] r, of n] theta_pi_gamma_byte[OF assms, of "7 - n" a] that l
    by (simp add: s bs_def)
  then show ?thesis by (intro wbyte_words_eqI) simp_all
qed

definition std_step :: "u64 list \<times> u64 list \<Rightarrow> nat \<Rightarrow> u64 list \<times> u64 list" where
  "std_step p r = (let K = map2 (XOR) (std_round (fst p)) (std_rc r) in (K, map2 (XOR) (std_round (snd p)) K))"

lemma std_step_length: "length (fst (std_step p r)) = 8" "length (snd (std_step p r)) = 8"
  by (simp_all add: std_step_def Let_def std_round_def std_rc_def)

lemma theta_pi_gamma_map: "map (theta_pi_gamma a) [0..<8] = std_round a"
  by (rule nth_equalityI) (simp_all add: theta_pi_gamma_std std_round_def)

lemma wp_key_step:
  assumes "r < 10"
  shows "(std_round K)[0 := std_round K ! 0 XOR wp_cont ! r] = map2 (XOR) (std_round K) (std_rc r)"
proof -
  have "map (\<lambda>r. hd (std_rc r)) [0..<10] ! r = take 10 wp_cont ! r" by (simp only: wp_cont_std)
  then have c: "hd (std_rc r) = wp_cont ! r" using assms by simp
  have l: "length (std_round K) = 8" by (simp add: std_round_def)
  show ?thesis
  proof (rule nth_equalityI)
    fix i assume "i < length ((std_round K)[0 := std_round K ! 0 XOR wp_cont ! r])"
    then have i: "i < 8" by (simp add: l)
    have n: "std_rc r ! i = (if i = 0 then wp_cont ! r else 0)"
      using i unfolding c[symmetric] by (cases i) (simp_all add: std_rc_def)
    have "length (std_rc r) = 8" by (simp add: std_rc_def)
    then show "(std_round K)[0 := std_round K ! 0 XOR wp_cont ! r] ! i = map2 (XOR) (std_round K) (std_rc r) ! i"
      using i l n by (simp add: nth_list_update)
  qed (simp add: l std_rc_def)
qed

lemma wp_text_step:
  assumes "length K = 8"
  shows "map (\<lambda>y. theta_pi_gamma T y XOR K ! y) [0..<8] = map2 (XOR) (std_round T) K"
proof (rule nth_equalityI)
  show "length (map (\<lambda>y. theta_pi_gamma T y XOR K ! y) [0..<8]) = length (map2 (XOR) (std_round T) K)"
    using assms by (simp add: std_round_def)
  fix i assume "i < length (map (\<lambda>y. theta_pi_gamma T y XOR K ! y) [0..<8])"
  then have "i < 8" by simp
  then show "map (\<lambda>y. theta_pi_gamma T y XOR K ! y) [0..<8] ! i = map2 (XOR) (std_round T) K ! i"
    using assms by (simp add: theta_pi_gamma_std std_round_def)
qed

lemma wp_pass_std:
  assumes "x + 1 < 10"
  shows "wp_pass p x = std_step (std_step p x) (x + 1)"
proof -
  have l: "length (map2 (XOR) (std_round K) (std_rc r)) = 8" for K r by (simp add: std_round_def std_rc_def)
  have x: "x < 10" using assms by simp
  show ?thesis
    unfolding wp_pass_def Let_def theta_pi_gamma_map wp_key_step[OF x] wp_key_step[OF assms] wp_text_step[OF l] std_step_def fst_conv snd_conv ..
qed

lemma std_W_step: "std_W K T = snd (foldl std_step (K, map2 (XOR) T K) [0..<10])"
  unfolding std_W_def std_step_def[abs_def] by (simp only: split_def Let_def)

lemma wp_rounds_std: "wp_rounds K T = foldl std_step (K, T) [0..<10]"
proof -
  have u: "[0..<10] = [0, 0 + 1, 2, 2 + 1, 4, 4 + 1, 6, 6 + 1, 8, 8 + 1 :: nat]" by (simp add: upt_rec)
  have p: "wp_pass q 0 = std_step (std_step q 0) (0 + 1)" "wp_pass q 2 = std_step (std_step q 2) (2 + 1)"
    "wp_pass q 4 = std_step (std_step q 4) (4 + 1)" "wp_pass q 6 = std_step (std_step q 6) (6 + 1)"
    "wp_pass q 8 = std_step (std_step q 8) (8 + 1)" for q by (rule wp_pass_std, simp)+
  show ?thesis unfolding wp_rounds_def u foldl.simps p ..
qed

lemma wp_comp_std:
  assumes "length st = 8"
  shows "wp_comp st b = std_comp st b"
proof -
  define m where "m = map (\<lambda>x. get_be64 b (8 * x)) [0..<8]"
  define P where "P = foldl std_step (st, map2 (XOR) m st) [0..<10]"
  have l: "length m = 8" by (simp add: m_def)
  have "[0..<10] = [0..<9] @ [9 :: nat]" by (simp add: upt_rec)
  then have lT: "length (snd P) = 8" by (simp add: P_def std_step_length)
  have "wp_comp st b = map (\<lambda>x. st ! x XOR (snd P ! x XOR m ! x)) [0..<8]"
    unfolding wp_comp_def Let_def m_def[symmetric] wp_rounds_std P_def[symmetric] by (simp only: split_def)
  also have "\<dots> = map2 (XOR) st (map2 (XOR) (snd P) m)" using assms l lT by (intro nth_equalityI) simp_all
  finally show ?thesis unfolding std_comp_def Let_def m_def[symmetric] std_W_step P_def .
qed

subsection \<open>Update appends\<close>

definition whirlpool :: "u8 list \<Rightarrow> u8 list" where
  "whirlpool m = concat (map put_be64 (foldl wp_comp (replicate 8 0)
     (chunks 64 (m @ md_pad 64 (length m) (replicate 24 0 @ put_be64 (of_nat (8 * length m)))))))"

definition wp_inv :: "WhirlpoolCtx \<Rightarrow> u8 list \<Rightarrow> bool" where
  "wp_inv c m \<longleftrightarrow> absorbed 64 wp_comp (replicate 8 0) (wp_state c) (wp_buf c) m \<and>
     length (wp_buf c) = 64 \<and> wp_curlen c = length m mod 64"

definition wp_holds :: "WhirlpoolCtx \<Rightarrow> u8 list \<Rightarrow> bool" where
  "wp_holds c m \<longleftrightarrow> wp_inv c m \<and> wp_length c = of_nat (8 * length m)"

lemma wp_holds_zero: "wp_holds wp_zero []"
  by (simp add: wp_holds_def wp_inv_def wp_zero_def absorbed_Nil)

lemma wp_loop_holds:
  assumes "wp_inv c m"
  shows "\<exists>c'. whirlpool_loop c inp = Inr c' \<and> wp_inv c' (m @ inp) \<and> wp_length c' = wp_length c"
  using assms
proof (induction "length inp" arbitrary: inp c m rule: less_induct)
  case less
  show ?case
  proof (cases "inp = []")
    case True
    with less.prems show ?thesis by (simp add: whirlpool_loop.simps)
  next
    case False
    define i where "i = wp_curlen c"
    define n where "n = min (length inp) (64 - i)"
    define d where "d = take n inp"
    define buf where "buf = take i (wp_buf c) @ d @ drop (i + n) (wp_buf c)"
    from less.prems have ab: "absorbed 64 wp_comp (replicate 8 0) (wp_state c) (wp_buf c) m"
      and lb: "length (wp_buf c) = 64" and i: "i = length m mod 64"
      by (simp_all add: wp_inv_def i_def)
    have i64: "i < 64" using i by simp
    with False have n: "0 < n" "i + n \<le> 64" "n \<le> length inp" "length d = n" by (auto simp: n_def d_def)
    define c1 where "c1 = c\<lparr>wp_buf := buf, wp_curlen := i + n\<rparr>"
    define c2 where "c2 = (if i + n = 64 then (whirlpool_compress c1)\<lparr>wp_curlen := 0\<rparr> else c1)"
    have w: "wr (wp_buf c) i (take n inp) = Inr buf" using n lb by (simp add: buf_def flip: d_def)
    have sub: "(if length inp > sz_sub 64 i then sz_sub 64 i else length inp) = n"
      using i64 by (simp add: n_def sz_sub_def)
    have loop: "whirlpool_loop c inp = whirlpool_loop c2 (drop n inp)"
      unfolding whirlpool_loop.simps[of c inp] Let_def i_def[symmetric] sub w
      using False n by (simp add: c2_def c1_def)
    have lb2: "length buf = 64" using n lb i64 by (simp add: buf_def)
    have "wp_inv c2 (m @ d)"
    proof (cases "i + n = 64")
      case True
      have "absorbed 64 wp_comp (replicate 8 0) (wp_comp (wp_state c) buf) buf (m @ d)"
        by (rule absorbed_full[OF ab i, where r = n]) (use True n lb2 lb in \<open>simp_all add: buf_def\<close>)
      moreover have "length (m @ d) mod 64 = 0"
      proof -
        have "n = 64 - length m mod 64" using True i by simp
        from mod_full[OF this order_refl] n show ?thesis by simp
      qed
      ultimately show ?thesis using True lb2 by (simp add: wp_inv_def c2_def c1_def whirlpool_compress_def)
    next
      case False
      then have lt: "i + length d < 64" using n by simp
      have "length (m @ d) mod 64 = i + n" using mod_short[of "length m" 64 n] lt i n by simp
      moreover have "absorbed 64 wp_comp (replicate 8 0) (wp_state c) buf (m @ d)"
        using absorbed_short[OF ab i lt] n by (simp add: buf_def)
      ultimately show ?thesis using False lb2 by (simp add: wp_inv_def c2_def c1_def)
    qed
    moreover have "length (drop n inp) < length inp" using n False by simp
    ultimately obtain c' where "whirlpool_loop c2 (drop n inp) = Inr c'" "wp_inv c' ((m @ d) @ drop n inp)"
        "wp_length c' = wp_length c2"
      using less.hyps by blast
    then show ?thesis using loop by (simp add: d_def c2_def c1_def whirlpool_compress_def)
  qed
qed

lemma whirlpool_update_holds:
  assumes "wp_holds c m" and "wf_ba a"
  shows "\<exists>c'. whirlpool_update (Some c) (Some a) = Inr c' \<and> wp_holds c' (m @ data a)"
proof -
  define c1 where "c1 = c\<lparr>wp_length := wp_length c + of_nat (ba_len a) * 8\<rparr>"
  have "wp_inv c1 m" using assms(1) by (simp add: wp_holds_def wp_inv_def c1_def)
  from wp_loop_holds[OF this, of "data a"] obtain c' where
    c': "whirlpool_loop c1 (data a) = Inr c'" "wp_inv c' (m @ data a)" "wp_length c' = wp_length c1" by blast
  have l: "length (data a) = ba_len a" using assms(2) by simp
  have "wp_length c1 = of_nat (8 * length (m @ data a))"
    using assms(1) l by (simp add: c1_def wp_holds_def algebra_simps)
  moreover have "rd (data a) 0 (ba_len a) = Inr (data a)" using l by simp
  ultimately show ?thesis using c' by (simp add: whirlpool_update_def wp_holds_def flip: c1_def)
qed

lemma length_wp_comp: "length (wp_comp st b) = 8"
  by (simp add: wp_comp_def split_def Let_def)

lemma length_concat_put64: "length (concat (map put_be64 ws)) = 8 * length ws"
  by (induction ws) simp_all

lemma whirlpool_final_holds:
  assumes "wp_holds c m" and M: "mem_ok M"
  shows "whirlpool_final M (Some c) = (Inr (mk_ba (whirlpool m)), Some wp_zero)"
proof -
  define i where "i = wp_curlen c"
  define st where "st = wp_state c"
  define B where "B = wp_buf c"
  define l where "l = wp_length c"
  define L where "L = put_be64 l"
  have c: "c = \<lparr>wp_length = l, wp_state = st, wp_buf = B, wp_curlen = i\<rparr>"
    by (simp add: l_def st_def B_def i_def)
  from assms(1) have ab: "absorbed 64 wp_comp (replicate 8 0) st B m"
    and lb: "length B = 64" and i: "i = length m mod 64" and L: "L = put_be64 (of_nat (8 * length m))"
    by (simp_all add: wp_holds_def wp_inv_def i_def L_def st_def B_def l_def)
  have i64: "i < 64" using i by simp
  have st: "st = foldl wp_comp (replicate 8 0) (chunks 64 m)" and hd: "take i B = tail_of 64 m"
    using ab i by (simp_all add: absorbed_def)
  have lL: "length L = 8" by (simp add: L_def)
  have lt: "length (tail_of 64 m) = i" using i by simp
  define b1 where "b1 = tail_of 64 m @ [0x80] @ drop (i + 1) B"
  have w1: "wr B i [0x80] = Inr b1" and lb1: "length b1 = 64"
    using i64 lb lt by (simp_all add: b1_def hd)
  define dg where "dg = whirlpool m"
  have ldg: "length dg = 64"
  proof -
    have "length (foldl wp_comp s bs) = 8" if "length s = 8" for s bs
      using that by (induction bs rule: rev_induct) (simp_all add: length_wp_comp)
    then show ?thesis by (simp add: dg_def whirlpool_def length_concat_put64)
  qed
  have dgL: "dg = concat (map put_be64 (foldl wp_comp (replicate 8 0) (chunks 64 (m @ md_pad 64 (length m) (replicate 24 0 @ L)))))"
    unfolding dg_def whirlpool_def L[symmetric] ..
  have dgw: "wr (data (mk_ba (fresh M 64))) 0 dg = Inr dg" using ldg by simp
  have sd: "set_data (mk_ba (fresh M 64)) dg = mk_ba dg" using ldg by (simp add: set_data_def mk_ba_def del: raw_ba)
  show ?thesis
  proof (cases "i + 1 > 32")
    case True
    define b2 where "b2 = tail_of 64 m @ 0x80 # replicate (64 - 1 - i) 0"
    have w2: "wr b1 (i + 1) (replicate (sz_sub 64 (i + 1)) 0) = Inr b2"
      using i64 lb1 lt by (simp add: b1_def b2_def sz_sub_def)
    have lb2: "length b2 = 64" using i64 lt by (simp add: b2_def)
    define b3 where "b3 = replicate 56 0 @ drop 56 b2"
    have w3: "wr b2 0 (replicate (sz_sub 56 0) 0) = Inr b3" using lb2 by (simp add: b3_def sz_sub_def)
    have w4: "wr b3 56 L = Inr (replicate 56 0 @ L)" using lb2 lL by (simp add: b3_def)
    have "replicate 56 (0 :: u8) = replicate 32 0 @ replicate 24 0" by (simp flip: replicate_add)
    moreover have "chunks 64 (m @ md_pad 64 (length m) (replicate 24 0 @ L))
        = chunks 64 m @ [b2, replicate 32 0 @ replicate 24 0 @ L]"
      using md_pad_two[of 64 m "replicate 24 0 @ L"] True i i64 lL by (simp add: b2_def)
    ultimately have "dg = concat (map put_be64 (wp_comp (wp_comp st b2) (replicate 56 0 @ L)))"
      by (simp add: dgL st)
    note dg = this[symmetric]
    show ?thesis
      unfolding whirlpool_final_def c whirlpool_compress_def
      by (simp only: NOT_NULL_simps CHECK_NOT_NULL_simps DO_ST_simps DO_simps Let_def ba_alloc_by_len_eq[OF M]
        WhirlpoolCtx.select_convs WhirlpoolCtx.update_convs w1 w2 w3 w4 True if_True if_False L_def[symmetric] dg dgw sd dg_def[symmetric])
  next
    case False
    define b2 where "b2 = tail_of 64 m @ 0x80 # replicate (55 - i) 0 @ drop 56 B"
    have w2: "wr b1 (i + 1) (replicate (sz_sub 56 (i + 1)) 0) = Inr b2"
      using i64 False lb1 lt by (simp add: drop_Cons' b1_def b2_def sz_sub_def)
    define b3 where "b3 = tail_of 64 m @ 0x80 # replicate (55 - i) 0 @ L"
    have w3: "wr b2 56 L = Inr b3" using lt lL lb False by (simp add: take_Cons' b2_def b3_def)
    have "replicate (55 - i) (0 :: u8) = replicate (31 - i) 0 @ replicate 24 0" using False by (simp flip: replicate_add)
    moreover have "chunks 64 (m @ md_pad 64 (length m) (replicate 24 0 @ L))
        = chunks 64 m @ [tail_of 64 m @ 0x80 # replicate (31 - i) 0 @ replicate 24 0 @ L]"
      using md_pad_one[of m 64 "replicate 24 0 @ L"] False i i64 lL by simp
    ultimately have "dg = concat (map put_be64 (wp_comp st b3))"
      by (simp add: dgL st b3_def)
    note dg = this[symmetric]
    show ?thesis
      unfolding whirlpool_final_def c whirlpool_compress_def
      by (simp only: NOT_NULL_simps CHECK_NOT_NULL_simps DO_ST_simps DO_simps Let_def ba_alloc_by_len_eq[OF M]
        WhirlpoolCtx.select_convs WhirlpoolCtx.update_convs w1 w2 w3 False if_True if_False L_def[symmetric] dg dgw sd dg_def[symmetric])
  qed
qed

interpretation whirlpool: hash_alg wp_zero "\<lambda>c a. whirlpool_update (Some c) (Some a)"
    "\<lambda>M c. map_prod id the (whirlpool_final M (Some c))" wp_holds whirlpool "2 ^ 64"
  by unfold_locales (use wp_holds_zero whirlpool_update_holds whirlpool_final_holds in \<open>auto\<close>)

text \<open>The digest of the standard, over the standard's compression function.\<close>

lemma whirlpool_std: "whirlpool m = concat (map put_be64 (foldl std_comp (replicate 8 0)
    (chunks 64 (m @ md_pad 64 (length m) (replicate 24 0 @ put_be64 (of_nat (8 * length m)))))))"
proof -
  have "foldl wp_comp st bs = foldl std_comp st bs" if "length st = 8" for st bs
    using that
  proof (induction bs arbitrary: st)
    case (Cons b bs)
    show ?case using Cons.IH[OF length_wp_comp] by (simp add: wp_comp_std[OF Cons.prems, symmetric])
  qed simp
  then show ?thesis by (simp add: whirlpool_def)
qed

subsection \<open>Properties\<close>

text \<open>(C30) The compression function of \<^verbatim>\<open>whirlpool.c\<close>, which works with one table of 256 words of
  64 bits and its rotations, is the one of ISO/IEC 10118-3: ten rounds of substitution with the S-box made of
  three boxes of four bits, cyclic shift of the columns, product with the circulant matrix over the field with
  polynomial \<open>0x11d\<close>, and addition of the key, in the mode of Miyaguchi and Preneel.\<close>

theorem whirlpool_standard:
  assumes "length st = 8"
  shows "wp_comp st b = std_comp st b"
  by (rule wp_comp_std[OF assms])

lemma whirlpool_standard_witness:
  "wp_comp (replicate 8 0) (replicate 64 0) = std_comp (replicate 8 0) (replicate 64 0)"
  by (rule whirlpool_standard) simp

end
