(* ===== verification/Gostr3411.thy ===== *)
theory Gostr3411
  imports StreebogTables Sha3
begin

text \<open>
  The hash function GOST R 34.11-2012 (\<^verbatim>\<open>gostr3411-2012.c\<close>): \<open>SPLX\<close>, which works with the
  tables, is the standard's substitution, transposition and linear map of the sum; the two counters of 512
  bits are numbers; fragments are absorbed.
\<close>

subsection \<open>The compression function\<close>

definition LE_READ_UINT64 :: "u8 list \<Rightarrow> nat \<Rightarrow> u64" where
  "LE_READ_UINT64 p j = push_bit 56 (ucast (p ! (j + 7))) OR push_bit 48 (ucast (p ! (j + 6))) OR push_bit 40 (ucast (p ! (j + 5)))
     OR push_bit 32 (ucast (p ! (j + 4))) OR push_bit 24 (ucast (p ! (j + 3))) OR push_bit 16 (ucast (p ! (j + 2)))
     OR push_bit 8 (ucast (p ! (j + 1))) OR ucast (p ! j)"

definition LE_WRITE_UINT64 :: "u64 \<Rightarrow> u8 list" where
  "LE_WRITE_UINT64 i = [ucast i, ucast (drop_bit 8 i), ucast (drop_bit 16 i), ucast (drop_bit 24 i),
     ucast (drop_bit 32 i), ucast (drop_bit 40 i), ucast (drop_bit 48 i), ucast (drop_bit 56 i)]"

definition splx_entry :: "nat \<Rightarrow> u64 list \<Rightarrow> nat \<Rightarrow> u64" where
  "splx_entry k tmp i = gostr3411_2012_ext_table ! k ! unat (drop_bit (i * 8) (tmp ! k) AND 0xFF)"

definition SPLX :: "u64 list \<Rightarrow> u64 list \<Rightarrow> u64 list" where
  "SPLX a b = (let tmp = map (\<lambda>i. a ! i XOR b ! i) [0..<8]
     in map (\<lambda>i. splx_entry 0 tmp i XOR splx_entry 1 tmp i XOR splx_entry 2 tmp i XOR splx_entry 3 tmp i
          XOR splx_entry 4 tmp i XOR splx_entry 5 tmp i XOR splx_entry 6 tmp i XOR splx_entry 7 tmp i) [0..<8])"

definition G512 :: "u64 list \<Rightarrow> u64 list \<Rightarrow> u64 list \<Rightarrow> u64 list" where
  "G512 h m N =
     (let K = SPLX h N;
          T = SPLX K m;
          K = SPLX K (C16 ! 0);
          (K, T) = foldl (\<lambda>(K, T) i. let T = SPLX K T in (SPLX K (C16 ! i), T)) (K, T) [1..<12]
      in map (\<lambda>i. h ! i XOR (T ! i XOR K ! i XOR m ! i)) [0..<8])"

text \<open>The counter of bits: the carry goes through the words until one of them is not zero.\<close>

primrec inc_words :: "u64 list \<Rightarrow> u64 list" where
  "inc_words [] = []"
| "inc_words (w # ws) = (if w + 1 \<noteq> 0 then (w + 1) # ws else (w + 1) # inc_words ws)"

fun add_length :: "u64 list \<Rightarrow> u64 \<Rightarrow> u64 list" where
  "add_length [] n = []"
| "add_length (w # ws) n = (if w + n < n then (w + n) # inc_words ws else (w + n) # ws)"

text \<open>The control sum; \<open>p\<close> and \<open>q\<close> are the words of the sum and of the block before the current ones.\<close>

fun sigma_loop :: "u64 \<Rightarrow> u64 \<Rightarrow> u64 \<Rightarrow> u64 list \<Rightarrow> u64 list \<Rightarrow> u64 list" where
  "sigma_loop cf p q (s # ss) (m # ms) =
     (let cf = (if p \<noteq> q then (if p < q then 1 else 0) else cf); s = s + (m + cf)
      in s # sigma_loop cf s m ss ms)"
| "sigma_loop cf p q ss ms = ss"

fun add_sigma :: "u64 list \<Rightarrow> u64 list \<Rightarrow> u64 list" where
  "add_sigma (s # ss) (m # ms) = (s + m) # sigma_loop 0 (s + m) m ss ms"
| "add_sigma ss ms = ss"

record GostR3411Ctx =
  gr_state :: "u64 list"
  gr_total_length :: "u64 list"
  gr_sigma :: "u64 list"
  gr_block :: "u8 list"
  gr_block_ind :: nat
  gr_variant :: nat

definition sizeof_GostR3411Ctx :: nat where "sizeof_GostR3411Ctx = 272"

definition gostr3411_compress :: "GostR3411Ctx \<Rightarrow> u8 list \<Rightarrow> u64 \<Rightarrow> GostR3411Ctx" where
  "gostr3411_compress c input bitlength =
     (let M = map (\<lambda>i. LE_READ_UINT64 input (i * 8)) [0..<8]
      in c\<lparr>gr_state := G512 (gr_state c) M (gr_total_length c),
           gr_total_length := add_length (gr_total_length c) bitlength,
           gr_sigma := add_sigma (gr_sigma c) M\<rparr>)"

subsection \<open>The context\<close>

abbreviation (input) GOSTR3411_2012_VARIANT_256 :: nat where "GOSTR3411_2012_VARIANT_256 \<equiv> 0"
abbreviation (input) GOSTR3411_2012_VARIANT_512 :: nat where "GOSTR3411_2012_VARIANT_512 \<equiv> 1"

definition gr_zero :: "nat \<Rightarrow> u64 list \<Rightarrow> GostR3411Ctx" where
  "gr_zero variant h = \<lparr>gr_state = h, gr_total_length = replicate 8 0, gr_sigma = replicate 8 0,
     gr_block = replicate 64 0, gr_block_ind = 0, gr_variant = variant\<rparr>"

definition gostr3411_alloc :: "mem \<Rightarrow> nat \<Rightarrow> GostR3411Ctx option res" where
  "gostr3411_alloc M variant = to_ptr (CALLOC_CHECKED M sizeof_GostR3411Ctx (
     if variant = GOSTR3411_2012_VARIANT_256 then Inr (gr_zero variant (replicate 8 0x0101010101010101))
     else if variant = GOSTR3411_2012_VARIANT_512 then Inr (gr_zero variant (replicate 8 0))
     else SET_ERROR RET_INVALID_PARAM))"

definition gostr3411_copy_with_alloc :: "mem \<Rightarrow> GostR3411Ctx option \<Rightarrow> GostR3411Ctx option res" where
  "gostr3411_copy_with_alloc M ctx = to_ptr (NOT_NULL ctx (\<lambda>c. CALLOC_CHECKED M sizeof_GostR3411Ctx (Inr c)))"

definition gostr3411_update :: "GostR3411Ctx option \<Rightarrow> ByteArray option \<Rightarrow> GostR3411Ctx res" where
  "gostr3411_update ctx msg = NOT_NULL ctx (\<lambda>c. NOT_NULL msg (\<lambda>a.
     let d = data a; n = ba_len a; r = sz_sub 64 (gr_block_ind c)
     in if gr_block_ind c \<noteq> 0 \<and> n < r
        then DO (rd d 0 n) (\<lambda>xs. DO (wr (gr_block c) (gr_block_ind c) xs) (\<lambda>b.
             Inr (c\<lparr>gr_block := b, gr_block_ind := gr_block_ind c + n\<rparr>)))
        else
          DO (if gr_block_ind c \<noteq> 0
              then DO (rd d 0 r) (\<lambda>xs. DO (wr (gr_block c) (gr_block_ind c) xs) (\<lambda>b.
                   Inr (gostr3411_compress (c\<lparr>gr_block := b\<rparr>) b (64 * 8), r)))
              else Inr (c, 0)) (\<lambda>(c, i).
          DO (for_blocks 64 (\<lambda>c b. Inr (gostr3411_compress c b (64 * 8))) d i n c) (\<lambda>(c, i).
          DO (rd d i (n - i)) (\<lambda>xs. DO (wr (gr_block c) 0 xs) (\<lambda>b.
          Inr (c\<lparr>gr_block := b, gr_block_ind := n - i\<rparr>)))))))"

definition gostr3411_final :: "mem \<Rightarrow> GostR3411Ctx option \<Rightarrow> ByteArray res \<times> GostR3411Ctx option" where
  "gostr3411_final M ctx = DO_ST (NOT_NULL ctx Inr) ctx (\<lambda>c.
     DO_ST (DO (wr (gr_block c) (gr_block_ind c) [1]) (\<lambda>b.
            wr b (gr_block_ind c + 1) (replicate (sz_sub (sz_sub 64 (gr_block_ind c)) 1) 0))) ctx (\<lambda>b.
     let c = gostr3411_compress (c\<lparr>gr_block := b\<rparr>) b (of_nat (gr_block_ind c) * 8);
         h = G512 (gr_state c) (gr_total_length c) (replicate 8 0);
         h = G512 h (gr_sigma c) (replicate 8 0);
         c = c\<lparr>gr_state := h\<rparr>
     in if gr_variant c = GOSTR3411_2012_VARIANT_256
        then DO_ST (CHECK_NOT_NULL (ba_alloc_by_len M 32) Inr) (Some c) (\<lambda>out.
             DO_ST (wr (data out) 0 (concat (map (\<lambda>i. LE_WRITE_UINT64 (h ! (4 + i))) [0..<4]))) (Some c) (\<lambda>xs.
             (Inr (set_data out xs), Some (gr_zero (gr_variant c) (replicate 8 0x0101010101010101)))))
        else DO_ST (CHECK_NOT_NULL (ba_alloc_by_len M 64) Inr) (Some c) (\<lambda>out.
             DO_ST (wr (data out) 0 (concat (map (\<lambda>i. LE_WRITE_UINT64 (h ! i)) [0..<8]))) (Some c) (\<lambda>xs.
             (Inr (set_data out xs), Some (gr_zero (gr_variant c) (replicate 8 0)))))))"

definition gostr3411_get_block_size :: "GostR3411Ctx option \<Rightarrow> nat" where
  "gostr3411_get_block_size ctx = 64"

subsection \<open>GOST R 34.11-2012\<close>

definition std_LPS :: "u64 list \<Rightarrow> u64 list" where
  "std_LPS a = map (\<lambda>i. of_int (lin std_A
     (foldr (\<lambda>k s. push_bit (8 * k) (int (std_pi ! nat (wbyte (a ! k) i))) XOR s) [0..<8] 0))) [0..<8]"

primrec std_key :: "u64 list \<Rightarrow> nat \<Rightarrow> u64 list" where
  "std_key K1 0 = K1"
| "std_key K1 (Suc i) = std_LPS (map2 (XOR) (std_key K1 i) (C16 ! i))"

definition std_E :: "u64 list \<Rightarrow> u64 list \<Rightarrow> u64 list" where
  "std_E K m = map2 (XOR) (std_key K 12) (foldl (\<lambda>T i. std_LPS (map2 (XOR) (std_key K i) T)) m [0..<12])"

definition std_g :: "u64 list \<Rightarrow> u64 list \<Rightarrow> u64 list \<Rightarrow> u64 list" where
  "std_g N h m = map2 (XOR) (map2 (XOR) (std_E (std_LPS (map2 (XOR) h N)) m) h) m"

text \<open>Numbers modulo \<open>2 ^ 512\<close> as eight words.\<close>

definition num_words :: "nat \<Rightarrow> u64 list" where
  "num_words v = map of_nat (digits_le WB 8 v)"

definition std_stage :: "u64 list \<times> nat \<Rightarrow> u8 list \<Rightarrow> u64 list \<times> nat" where
  "std_stage s b = (std_g (num_words (snd s)) (fst s) (load_words False b), snd s + 512)"

definition std_last :: "u8 list \<Rightarrow> u8 list" where
  "std_last m = tail_of 64 m @ 1 # replicate (63 - length m mod 64) 0"

definition block_sum :: "u8 list list \<Rightarrow> nat" where
  "block_sum bs = sum_list (map (\<lambda>b. nat_le 256 (map unat b)) bs)"

definition std_hash :: "u64 list \<Rightarrow> u8 list \<Rightarrow> u64 list" where
  "std_hash iv m =
     (let bs = chunks 64 m @ [std_last m];
          h = fst (foldl std_stage (iv, 0) bs);
          h = std_g (replicate 8 0) h (num_words (8 * length m))
      in std_g (replicate 8 0) h (num_words (block_sum bs)))"

definition std_iv :: "nat \<Rightarrow> u64 list" where
  "std_iv v = replicate 8 (if v = GOSTR3411_2012_VARIANT_256 then 0x0101010101010101 else 0)"

definition gostr3411 :: "nat \<Rightarrow> u8 list \<Rightarrow> u8 list" where
  "gostr3411 v m = drop (if v = GOSTR3411_2012_VARIANT_256 then 32 else 0) (store_words False (std_hash (std_iv v) m))"

subsection \<open>The tables\<close>

lemma lin_byte:
  assumes "k < 8" and "p < 256"
  shows "lin std_A (push_bit (8 * k) (int p)) = sums (rows_of k) ! p"
proof -
  have l: "length std_A = 64" by (simp add: std_A_def)
  define xs where "xs = take (56 - 8 * k) std_A"
  define ys where "ys = drop (64 - 8 * k) std_A"
  have lr: "length (rows_of k) = 8" and ly: "length ys = 8 * k" using assms(1) l by (simp_all add: rows_of_def ys_def)
  have "std_A = xs @ rows_of k @ ys"
  proof -
    have "64 - 8 * k = 8 + (56 - 8 * k)" using assms(1) by simp
    then have "ys = drop 8 (drop (56 - 8 * k) std_A)" by (simp only: ys_def drop_drop)
    then show ?thesis unfolding xs_def rows_of_def by (simp only: append_take_drop_id)
  qed
  then have "lin std_A (push_bit (8 * k) (int p)) = lin (xs @ rows_of k @ ys) (push_bit (8 * k) (int p))" by (simp only:)
  also have "\<dots> = lin xs (drop_bit (8 + 8 * k) (push_bit (8 * k) (int p))) XOR (lin (rows_of k) (drop_bit (8 * k) (push_bit (8 * k) (int p))) XOR lin ys (push_bit (8 * k) (int p)))"
    by (simp only: lin_append length_append lr ly)
  also have "drop_bit (8 + 8 * k) (push_bit (8 * k) (int p)) = 0"
    using assms(2) by (simp add: drop_bit_eq_div push_bit_eq_mult power_add div_pos_pos_trivial zdiv_zmult2_eq)
  also have "drop_bit (8 * k) (push_bit (8 * k) (int p)) = int p" by (simp add: drop_bit_eq_div push_bit_eq_mult)
  also have "lin ys (push_bit (8 * k) (int p)) = 0" by (simp add: lin_push ly)
  finally show ?thesis using sums_nth[of p "rows_of k"] assms(2) lr by simp
qed

lemma std_pi_range: "list_all (\<lambda>x. x < 256) std_pi"
  by code_simp

lemma ext_table_std:
  assumes "k < 8" and "x < 256"
  shows "uint (gostr3411_2012_ext_table ! k ! x) = lin std_A (push_bit (8 * k) (int (std_pi ! x)))"
proof -
  have l: "length std_pi = 256" by (simp add: std_pi_def)
  then have "std_pi ! x < 256" using std_pi_range assms(2) by (simp add: list_all_length)
  from lin_byte[OF assms(1) this] have r: "lin std_A (push_bit (8 * k) (int (std_pi ! x))) = std_column k ! x"
    using assms(2) l by (simp add: std_column_def Let_def)
  define T where "T = gostr3411_2012_ext_table ! k"
  have T: "map uint T = std_column k"
    using assms(1) ext_table0_std ext_table1_std ext_table2_std ext_table3_std ext_table4_std ext_table5_std ext_table6_std
      ext_table7_std
    by (auto simp: T_def gostr3411_2012_ext_table_def less_Suc_eq numeral_eq_Suc)
  have "length (map uint T) = 256" unfolding T std_column_def Let_def by (simp add: l)
  then have e: "uint (T ! x) = map uint T ! x" using assms(2) by simp
  show ?thesis unfolding r T_def[symmetric] e T ..
qed


lemma splx_entry_std:
  assumes "k < 8"
  shows "splx_entry k tmp i = of_int (lin std_A (push_bit (8 * k) (int (std_pi ! nat (wbyte (tmp ! k) i)))))"
proof -
  have x: "unat (drop_bit (i * 8) (tmp ! k) AND 0xFF) = nat (wbyte (tmp ! k) i)"
    by (simp only: mult.commute[of i 8] unat_byte)
  note t = ext_table_std[OF assms nat_wbyte_less]
  have "splx_entry k tmp i = of_int (uint (splx_entry k tmp i))" by simp
  also have "uint (splx_entry k tmp i) = uint (gostr3411_2012_ext_table ! k ! nat (wbyte (tmp ! k) i))"
    unfolding splx_entry_def x ..
  finally show ?thesis unfolding t .
qed

lemma SPLX_std:
  assumes "length a = 8" "length b = 8"
  shows "SPLX a b = std_LPS (map2 (XOR) a b)"
proof -
  have t: "map (\<lambda>i. a ! i XOR b ! i) [0..<8] = map2 (XOR) a b" using assms by (intro nth_equalityI) simp_all
  have u: "[0..<8] = [0, 1, 2, 3, 4, 5, 6, 7]" by (simp add: upt_rec)
  have "splx_entry 0 c i XOR splx_entry 1 c i XOR splx_entry 2 c i XOR splx_entry 3 c i XOR splx_entry 4 c i XOR splx_entry 5 c i
      XOR splx_entry 6 c i XOR splx_entry 7 c i
     = of_int (lin std_A (foldr (\<lambda>k s. push_bit (8 * k) (int (std_pi ! nat (wbyte (c ! k) i))) XOR s) [0..<8] 0))" for c i
    unfolding u foldr.simps o_def lin_xor of_int_xor_eq by (simp add: splx_entry_std xor.assoc)
  then show ?thesis unfolding SPLX_def Let_def t std_LPS_def by simp
qed

lemma length_std_LPS [simp]: "length (std_LPS a) = 8"
  by (simp add: std_LPS_def)

lemma length_std_key: "length K1 = 8 \<Longrightarrow> length (std_key K1 i) = 8"
  by (cases i) simp_all

lemma length_C16: "i < 12 \<Longrightarrow> length (C16 ! i) = 8"
  by (simp add: C16_def less_Suc_eq numeral_eq_Suc) auto

lemma xor_list_commute: "map2 (XOR) a b = map2 (XOR) b (a :: u64 list)"
  by (rule nth_equalityI) (simp_all add: xor.commute)

lemma G512_std:
  assumes "length h = 8" "length m = 8" "length N = 8"
  shows "G512 h m N = std_g N h m"
proof -
  define K1 where "K1 = std_LPS (map2 (XOR) h N)"
  define T where "T = (\<lambda>n. foldl (\<lambda>T i. std_LPS (map2 (XOR) (std_key K1 i) T)) m [0..<n])"
  have lK: "length (std_key K1 i) = 8" for i by (rule length_std_key) (simp add: K1_def)
  have lT: "length (T n) = 8" for n using assms(2) by (cases n) (simp_all add: T_def)
  have k1: "SPLX h N = std_key K1 0" using assms by (simp add: SPLX_std K1_def)
  have Ts: "SPLX (std_key K1 n) (T n) = T (Suc n)" for n using lK lT by (simp add: SPLX_std T_def)
  have Ks: "SPLX (std_key K1 n) (C16 ! n) = std_key K1 (Suc n)" if "n < 12" for n
    using lK length_C16[OF that] by (simp add: SPLX_std)
  have t0: "m = T 0" by (simp add: T_def)
  have lp: "foldl (\<lambda>(K, T) i. let T = SPLX K T in (SPLX K (C16 ! i), T)) (std_key K1 1, T 1) [1..<1 + n]
      = (std_key K1 (1 + n), T (1 + n))" if "n \<le> 11" for n
    using that
  proof (induction n)
    case (Suc n)
    have "[1..<1 + Suc n] = [1..<1 + n] @ [1 + n]" by simp
    then show ?case using Suc Ts[of "1 + n"] Ks[of "1 + n"] by (simp add: Let_def)
  qed simp
  have "G512 h m N = map (\<lambda>i. h ! i XOR (T 12 ! i XOR std_key K1 12 ! i XOR m ! i)) [0..<8]"
  proof -
    have a: "SPLX (std_key K1 0) m = T 1" using Ts[of 0] unfolding t0[symmetric] by simp
    have b: "SPLX (std_key K1 0) (C16 ! 0) = std_key K1 1" using Ks[of 0] by simp
    have "(1 + 11 :: nat) = 12" by simp
    note c = lp[OF order_refl, unfolded this Let_def]
    show ?thesis unfolding G512_def Let_def k1 a b c prod.case ..
  qed
  also have "\<dots> = map2 (XOR) (map2 (XOR) (map2 (XOR) (std_key K1 12) (T 12)) h) m"
    using assms lK lT by (intro nth_equalityI) (simp_all add: ac_simps)
  finally show ?thesis by (simp only: std_g_def std_E_def K1_def T_def)
qed

end
