(* ===== verification/StreebogHash.thy ===== *)
theory StreebogHash
  imports Gostr3411
begin

text \<open>
  GOST R 34.11-2012 over a message: the counter of bits and the control sum are numbers modulo
  \<open>2 ^ 512\<close>, fragments are absorbed, and the hash interface is interpreted.
\<close>

subsection \<open>Counters\<close>

lemma WB_sum:
  fixes w n :: word_t
  shows "WB \<le> unat w + unat n \<Longrightarrow> unat (w + n) = unat w + unat n - WB \<and> w + n < n"
    and "unat w + unat n < WB \<Longrightarrow> unat (w + n) = unat w + unat n \<and> \<not> w + n < n"
proof -
  have b: "unat w < WB" "unat n < WB" by simp_all
  have s: "unat (w + n) = (unat w + unat n) mod WB" by (simp add: unat_word_ariths WB_def)
  have "unat w + unat n - WB < WB" "WB \<le> unat w + unat n \<Longrightarrow> unat w + unat n - WB < unat n" using b by linarith+
  then show "WB \<le> unat w + unat n \<Longrightarrow> unat (w + n) = unat w + unat n - WB \<and> w + n < n"
    unfolding word_less_nat_alt s by (simp add: le_mod_geq)
  show "unat w + unat n < WB \<Longrightarrow> unat (w + n) = unat w + unat n \<and> \<not> w + n < n"
    unfolding word_less_nat_alt s by simp
qed

lemma WB_low: "r < WB \<Longrightarrow> r + WB * (q mod c) = (r + WB * q) mod (WB * c)"
  by (simp add: mod_mult2_eq)

lemma inc_words_val: "length (inc_words ws) = length ws \<and> wval (inc_words ws) = (wval ws + 1) mod WB ^ length ws"
proof (induction ws)
  case (Cons w ws)
  show ?case
  proof (cases "w + 1 = 0")
    case True
    then have u: "unat (w + 1) = 0" by simp
    have w: "unat w + 1 = WB"
    proof (cases "unat w + unat (1 :: word_t) < WB")
      case True
      then show ?thesis using WB_sum(2)[OF True] u by simp
    next
      case False
      moreover have "unat (1 :: word_t) = 1" by simp
      ultimately show ?thesis using unat_less_WB[of w] by linarith
    qed
    have "wval (inc_words (w # ws)) = WB * ((wval ws + 1) mod WB ^ length ws)" using True Cons by simp
    also have "\<dots> = WB * (wval ws + 1) mod (WB * WB ^ length ws)" by (simp only: mult_mod_right)
    also have "WB * (wval ws + 1) = wval (w # ws) + 1" using w by (simp add: distrib_left)
    finally show ?thesis using True Cons by simp
  next
    case False
    have "unat w + unat (1 :: word_t) < WB"
    proof (rule ccontr)
      assume n: "\<not> ?thesis"
      then have "unat (w + 1) = 0" using WB_sum(1)[of w 1] unat_less_WB[of w] by simp
      then show False using False by (simp add: unat_eq_zero)
    qed
    from WB_sum(2)[OF this] have u: "unat (w + 1) = unat w + 1" by simp
    have "wval ((w + 1) # ws) < WB ^ length ((w + 1) # ws)" by (rule wval_less)
    then show ?thesis using False u by simp
  qed
qed simp

lemma add_length_val:
  "length (add_length ws n) = length ws \<and> (ws \<noteq> [] \<longrightarrow> wval (add_length ws n) = (wval ws + unat n) mod WB ^ length ws)"
proof (cases ws)
  case (Cons w vs)
  show ?thesis
  proof (cases "WB \<le> unat w + unat n")
    case True
    note s = WB_sum(1)[OF True]
    have "unat w + unat n - WB < WB" using unat_less_WB[of w] unat_less_WB[of n] by linarith
    have "wval (add_length ws n) = unat w + unat n - WB + WB * ((wval vs + 1) mod WB ^ length vs)"
      using s inc_words_val[of vs] by (simp add: Cons)
    also have "\<dots> = (unat w + unat n - WB + WB * (wval vs + 1)) mod (WB * WB ^ length vs)" by (rule WB_low) fact
    also have "unat w + unat n - WB + WB * (wval vs + 1) = wval ws + unat n" using True by (simp add: Cons distrib_left)
    finally show ?thesis using s inc_words_val[of vs] by (simp add: Cons)
  next
    case False
    then have s: "unat (w + n) = unat w + unat n" "\<not> w + n < n" using WB_sum(2)[of w n] by simp_all
    have "wval ((w + n) # vs) < WB ^ length ((w + n) # vs)" by (rule wval_less)
    then show ?thesis using s by (simp add: Cons)
  qed
qed simp

text \<open>The carry out of a word, as the loop of the control sum finds it.\<close>

definition carry :: "u64 \<Rightarrow> u64 \<Rightarrow> u64 \<Rightarrow> u64" where
  "carry cf s m = (if s + (m + cf) \<noteq> m then (if s + (m + cf) < m then 1 else 0) else cf)"

lemma carry_val:
  assumes "unat cf \<le> 1"
  shows "unat (carry cf s m) \<le> 1 \<and> unat (s + (m + cf)) + WB * unat (carry cf s m) = unat s + unat m + unat cf"
proof -
  define t where "t = unat s + unat m + unat cf"
  have b: "unat s < WB" "unat m < WB" by simp_all
  have u: "unat (s + (m + cf)) = t mod WB" by (simp add: t_def unat_word_ariths WB_def mod_simps add.assoc)
  have eq: "s + (m + cf) = m \<longleftrightarrow> t mod WB = unat m" using u by (simp add: word_unat_eq_iff)
  show ?thesis
  proof (cases "t < WB")
    case True
    then have "t mod WB = t" by simp
    then show ?thesis using u eq assms True by (auto simp: carry_def word_less_nat_alt t_def)
  next
    case False
    moreover have "t - WB < WB" using b assms unfolding t_def by linarith
    ultimately have v: "unat (s + (m + cf)) = t - WB" using u by (simp add: le_mod_geq)
    have "carry cf s m = 1"
    proof (cases "s + (m + cf) = m")
      case True
      then have "unat m = t - WB" using v by (simp only:)
      then have "unat cf = 1" using b assms False unfolding t_def by linarith
      then have "cf = 1" by (simp add: word_unat_eq_iff)
      then show ?thesis using True by (simp add: carry_def)
    next
      case ne: False
      then have "t - WB \<noteq> unat m" using v word_unat_eq_iff[of "s + (m + cf)" m] by simp
      then have "t - WB < unat m" using b assms False unfolding t_def by linarith
      then show ?thesis using ne v by (simp add: carry_def word_less_nat_alt)
    qed
    then show ?thesis using v False by (simp add: t_def)
  qed
qed

lemma sigma_loop_val:
  assumes "length ss = length ms" "unat cf \<le> 1"
  shows "length (sigma_loop cf (s + (m + cf)) m ss ms) = length ss \<and>
    wval (sigma_loop cf (s + (m + cf)) m ss ms) = (wval ss + wval ms + unat (carry cf s m)) mod WB ^ length ss"
  using assms
proof (induction ss ms arbitrary: cf s m rule: list_induct2)
  case (Cons x ss y ms)
  define c where "c = carry cf s m"
  note v = carry_val[OF Cons.prems, of s m, folded c_def]
  then have c: "unat c \<le> 1" by simp
  note x = carry_val[OF c, of x y]
  note IH = Cons.IH[OF c, of x y]
  have e: "sigma_loop cf (s + (m + cf)) m (x # ss) (y # ms) = (x + (y + c)) # sigma_loop c (x + (y + c)) y ss ms"
    by (simp add: c_def carry_def Let_def)
  have "wval (sigma_loop cf (s + (m + cf)) m (x # ss) (y # ms))
      = unat (x + (y + c)) + WB * ((wval ss + wval ms + unat (carry c x y)) mod WB ^ length ss)"
    unfolding e wval_Cons conjunct2[OF IH] ..
  also have "\<dots> = (unat (x + (y + c)) + WB * (wval ss + wval ms + unat (carry c x y))) mod (WB * WB ^ length ss)"
    by (rule WB_low) simp
  also have "unat (x + (y + c)) + WB * (wval ss + wval ms + unat (carry c x y)) = wval (x # ss) + wval (y # ms) + unat c"
    using x by (simp add: distrib_left)
  finally show ?case unfolding c_def[symmetric] using IH by (simp only: e length_Cons power_Suc)
qed simp

lemma add_sigma_val:
  assumes "length ss = length ms"
  shows "length (add_sigma ss ms) = length ss \<and> wval (add_sigma ss ms) = (wval ss + wval ms) mod WB ^ length ss"
proof (cases ss)
  case (Cons x xs)
  then obtain y ys where ms: "ms = y # ys" "length xs = length ys" using assms by (cases ms) auto
  note l = sigma_loop_val[OF ms(2), of 0 x y, simplified]
  note v = carry_val[of 0 x y, simplified]
  have "wval (add_sigma ss ms) = unat (x + y) + WB * ((wval xs + wval ys + unat (carry 0 x y)) mod WB ^ length xs)"
    using l by (simp add: Cons ms)
  also have "\<dots> = (unat (x + y) + WB * (wval xs + wval ys + unat (carry 0 x y))) mod (WB * WB ^ length xs)"
    by (rule WB_low) simp
  also have "unat (x + y) + WB * (wval xs + wval ys + unat (carry 0 x y)) = wval ss + wval ms"
    using v by (simp add: Cons ms distrib_left)
  finally show ?thesis using l by (simp add: Cons ms)
qed (use assms in simp)

lemma length_num_words [simp]: "length (num_words v) = 8"
  by (simp add: num_words_def)

lemma wval_num_words: "wval (num_words v) = v mod 2 ^ 512"
proof -
  have p: "WB ^ 8 = 2 ^ 512" by (simp add: WB_def flip: power_mult)
  have "map unat (num_words v) = digits_le WB 8 v"
  proof -
    have "d < WB" if "d \<in> set (digits_le WB 8 v)" for d using that by (rule digits_le_less[rotated]) simp
    then show ?thesis by (auto simp: num_words_def unat_of_nat WB_def comp_def intro!: map_idI)
  qed
  then show ?thesis by (simp add: wval_def nat_le_digits p)
qed

lemma num_words_eq: "length ws = 8 \<Longrightarrow> wval ws = v mod 2 ^ 512 \<Longrightarrow> ws = num_words v"
  by (rule wval_inj) (simp_all add: wval_num_words)

subsection \<open>Absorbing\<close>

lemma LE_READ_eq:
  assumes "length b = 64"
  shows "map (\<lambda>i. LE_READ_UINT64 b (i * 8)) [0..<8] = load_words False b"
proof (rule nth_equalityI)
  show "length (map (\<lambda>i. LE_READ_UINT64 b (i * 8)) [0..<8]) = length (load_words False b :: u64 list)" using assms by simp
  fix i assume "i < length (map (\<lambda>i. LE_READ_UINT64 b (i * 8)) [0..<8])"
  then have i: "i < 8" by simp
  define c where "c = take 8 (drop (8 * i) b)"
  have c: "length c = 8" using i assms by (simp add: c_def)
  have "LE_READ_UINT64 b (i * 8) = LOAD64L c"
    using i assms by (simp add: LE_READ_UINT64_def LOAD64L_def c_def mult.commute)
  also have "\<dots> = word_of_bytes False c" using c by (rule LOAD64L_eq)
  also have "\<dots> = load_words False b ! i" using i assms by (simp add: load_words_def nth_chunks c_def)
  finally show "map (\<lambda>i. LE_READ_UINT64 b (i * 8)) [0..<8] ! i = load_words False b ! i" using i by simp
qed

lemma LE_WRITE_eq: "LE_WRITE_UINT64 w = bytes_of_word False w"
  using STORE64L_eq by (simp add: LE_WRITE_UINT64_def STORE64L_def)

text \<open>A context that has compressed the blocks \<open>bs\<close>, each counted with 512 bits.\<close>

definition gr_core :: "GostR3411Ctx \<Rightarrow> u8 list list \<Rightarrow> bool" where
  "gr_core c bs \<longleftrightarrow> length (gr_state c) = 8 \<and> foldl std_stage (std_iv (gr_variant c), 0) bs = (gr_state c, 512 * length bs)
     \<and> gr_total_length c = num_words (512 * length bs) \<and> gr_sigma c = num_words (block_sum bs)"

lemma length_std_rounds:
  "length m = 8 \<Longrightarrow> length (foldl (\<lambda>T i. std_LPS (map2 (XOR) (std_key K i) T)) m ks) = 8"
  by (induction ks rule: rev_induct) (simp_all add: length_map)

lemma length_std_g: "length h = 8 \<Longrightarrow> length m = 8 \<Longrightarrow> length (std_g N h m) = 8"
proof -
  assume "length h = 8" "length m = 8"
  then show "length (std_g N h m) = 8" by (simp add: std_g_def std_E_def length_std_key length_std_rounds)
qed

lemma compress_eq:
  assumes "gr_core c bs" "length b = 64"
  shows "gostr3411_compress c b n =
    c\<lparr>gr_state := std_g (num_words (512 * length bs)) (gr_state c) (load_words False b),
      gr_total_length := num_words (512 * length bs + unat n), gr_sigma := num_words (block_sum (bs @ [b]))\<rparr>"
proof -
  note a = assms(1)[unfolded gr_core_def]
  have p: "WB ^ 8 = 2 ^ 512" by (simp add: WB_def flip: power_mult)
  have lb: "length (load_words False b :: u64 list) = 8" using assms(2) by simp
  have "add_length (gr_total_length c) n = num_words (512 * length bs + unat n)"
  proof (rule num_words_eq)
    have ne: "num_words v \<noteq> []" for v using length_num_words[of v] by (metis list.size(3) zero_neq_numeral)
    show "length (add_length (gr_total_length c) n) = 8"
      "wval (add_length (gr_total_length c) n) = (512 * length bs + unat n) mod 2 ^ 512"
      using a add_length_val[of "gr_total_length c" n] ne by (simp_all add: p wval_num_words mod_simps)
  qed
  moreover have "add_sigma (gr_sigma c) (load_words False b) = num_words (block_sum (bs @ [b]))"
  proof (rule num_words_eq)
    show "length (add_sigma (gr_sigma c) (load_words False b)) = 8"
      "wval (add_sigma (gr_sigma c) (load_words False b)) = block_sum (bs @ [b]) mod 2 ^ 512"
      using a add_sigma_val[of "gr_sigma c" "load_words False b"] lb wval_load_words[of b] assms(2)
      by (simp_all add: p wval_num_words mod_simps block_sum_def)
  qed
  moreover have "G512 (gr_state c) (load_words False b) (gr_total_length c)
      = std_g (num_words (512 * length bs)) (gr_state c) (load_words False b)"
    using a lb by (simp add: G512_std)
  ultimately show ?thesis unfolding gostr3411_compress_def Let_def LE_READ_eq[OF assms(2)] by (simp only:)
qed

lemma compress_core:
  assumes "gr_core c bs" "length b = 64"
  shows "gr_core (gostr3411_compress c b (64 * 8)) (bs @ [b])"
proof -
  have "unat (64 * 8 :: u64) = 512" by simp
  then show ?thesis unfolding compress_eq[OF assms]
    using assms by (simp add: gr_core_def std_stage_def length_std_g add.commute)
qed

lemma compress_frame [simp]:
  "gr_block (gostr3411_compress c b n) = gr_block c" "gr_block_ind (gostr3411_compress c b n) = gr_block_ind c"
  "gr_variant (gostr3411_compress c b n) = gr_variant c"
  by (simp_all add: gostr3411_compress_def Let_def)

lemma compress_blocks:
  assumes "gr_core c bs" "\<forall>b \<in> set ds. length b = 64"
  defines "c' \<equiv> foldl (\<lambda>c b. gostr3411_compress c b (64 * 8)) c ds"
  shows "gr_core c' (bs @ ds) \<and> gr_block c' = gr_block c \<and> gr_block_ind c' = gr_block_ind c \<and> gr_variant c' = gr_variant c"
  using assms(1,2) unfolding c'_def
proof (induction ds arbitrary: c bs)
  case (Cons d ds)
  then show ?case using Cons.IH[OF compress_core, of c bs d] by simp
qed simp

definition gr_holds :: "nat \<Rightarrow> GostR3411Ctx \<Rightarrow> u8 list \<Rightarrow> bool" where
  "gr_holds v c m \<longleftrightarrow> gr_variant c = v \<and> gr_core c (chunks 64 m) \<and> length (gr_block c) = 64
     \<and> gr_block_ind c = length m mod 64 \<and> take (length m mod 64) (gr_block c) = tail_of 64 m"

lemma gr_zero_holds: "gr_holds v (gr_zero v (std_iv v)) []"
proof -
  have "replicate 8 0 = num_words 0" by (rule num_words_eq) simp_all
  then show ?thesis by (simp add: gr_holds_def gr_core_def gr_zero_def block_sum_def std_iv_def)
qed

lemma gostr3411_update_holds:
  assumes "gr_holds v c m" "wf_ba a"
  shows "\<exists>c'. gostr3411_update (Some c) (Some a) = Inr c' \<and> gr_holds v c' (m @ data a)"
proof -
  define d where "d = data a"
  define i where "i = length m mod 64"
  define r where "r = 64 - i"
  have n: "ba_len a = length d" using assms(2) by (simp add: d_def)
  from assms(1) have h: "gr_variant c = v" "gr_core c (chunks 64 m)" "length (gr_block c) = 64"
    "gr_block_ind c = i" "take i (gr_block c) = tail_of 64 m" by (simp_all add: gr_holds_def i_def)
  have i64: "i < 64" by (simp add: i_def)
  have lt: "length (tail_of 64 m) = i" by (simp add: i_def)
  have s: "sz_sub 64 i = r" using i64 by (simp add: r_def sz_sub_def)
  have fb: "for_blocks 64 (\<lambda>c b. Inr (gostr3411_compress c b (64 * 8))) d j (length d) c1
      = Inr (foldl (\<lambda>c b. gostr3411_compress c b (64 * 8)) c1 (chunks 64 (drop j d)), j + 64 * ((length d - j) div 64))"
    if "j \<le> length d" for j c1
    using for_blocks_eq[of 64 j "length d" d "\<lambda>_. True" "\<lambda>c b. Inr (gostr3411_compress c b (64 * 8))"
        "\<lambda>c b. gostr3411_compress c b (64 * 8)" c1] that by simp
  define tl where "tl = (\<lambda>(c1 :: GostR3411Ctx) j. DO (rd d (j + 64 * ((length d - j) div 64)) (length d - (j + 64 * ((length d - j) div 64)))) (\<lambda>xs.
      DO (wr (gr_block c1) 0 xs) (\<lambda>b. Inr (c1\<lparr>gr_block := b, gr_block_ind := length d - (j + 64 * ((length d - j) div 64))\<rparr>))))"
  have tail: "tl c1 j = Inr (c1\<lparr>gr_block := tail_of 64 (drop j d) @ drop (length (tail_of 64 (drop j d))) (gr_block c1),
      gr_block_ind := length (tail_of 64 (drop j d))\<rparr>)" if "j \<le> length d" "length (gr_block c1) = 64" for j c1
  proof -
    have l: "length (tail_of 64 (drop j d)) = length d - (j + 64 * ((length d - j) div 64))"
      by (simp add: minus_mult_div_eq_mod flip: diff_diff_left)
    have "length (tail_of 64 (drop j d)) \<le> 64" using mod_less_divisor[of 64 "length (drop j d)"] by simp
    then show ?thesis unfolding tl_def rd_rest[OF that(1)] using that(2) l by (simp add: wr_def)
  qed
  have upd: "gostr3411_update (Some c) (Some a) =
     (if i \<noteq> 0 \<and> length d < r
        then DO (rd d 0 (length d)) (\<lambda>xs. DO (wr (gr_block c) i xs) (\<lambda>b.
             Inr (c\<lparr>gr_block := b, gr_block_ind := i + length d\<rparr>)))
        else
          DO (if i \<noteq> 0
              then DO (rd d 0 r) (\<lambda>xs. DO (wr (gr_block c) i xs) (\<lambda>b.
                   Inr (gostr3411_compress (c\<lparr>gr_block := b\<rparr>) b (64 * 8), r)))
              else Inr (c, 0)) (\<lambda>(c, j).
          DO (for_blocks 64 (\<lambda>c b. Inr (gostr3411_compress c b (64 * 8))) d j (length d) c) (\<lambda>(c, i).
          DO (rd d i (length d - i)) (\<lambda>xs. DO (wr (gr_block c) 0 xs) (\<lambda>b.
          Inr (c\<lparr>gr_block := b, gr_block_ind := length d - i\<rparr>))))))"
    unfolding gostr3411_update_def NOT_NULL_simps Let_def n d_def[symmetric] h(4) s ..
  show ?thesis
  proof (cases "i \<noteq> 0 \<and> length d < r")
    case True
    then have lt': "length m mod 64 + length d < 64" unfolding r_def i_def by linarith
    note b = blocks_short[OF lt']
    have le: "i + length d \<le> 64" using lt' unfolding i_def by (rule less_imp_le)
    have "gostr3411_update (Some c) (Some a) = Inr (c\<lparr>gr_block := tail_of 64 m @ d @ drop (i + length d) (gr_block c),
        gr_block_ind := i + length d\<rparr>)"
      unfolding upd using True h lt le by (simp add: wr_def)
    moreover have "length (m @ d) mod 64 = i + length d" using mod_short[OF lt'] by (simp add: i_def)
    ultimately show ?thesis
      using h lt True b by (auto simp: gr_holds_def gr_core_def r_def simp flip: d_def)
  next
    case False
    obtain c1 j bs where c1: "(if i \<noteq> 0
              then DO (rd d 0 r) (\<lambda>xs. DO (wr (gr_block c) i xs) (\<lambda>b.
                   Inr (gostr3411_compress (c\<lparr>gr_block := b\<rparr>) b (64 * 8), r)))
              else Inr (c, 0)) = Inr (c1, j)" "j \<le> length d" "gr_core c1 bs" "length (gr_block c1) = 64" "gr_variant c1 = v"
        "chunks 64 (m @ d) = bs @ chunks 64 (drop j d)" "tail_of 64 (m @ d) = tail_of 64 (drop j d)"
    proof (cases "i = 0")
      case True
      then have "length (tail_of 64 m) = 0" using lt by (simp only:)
      then have "tail_of 64 m = []" by (simp only: length_0_conv)
      then show ?thesis using that[of c 0 "chunks 64 m"] True h chunks_tail_append[of 64 m d] by simp
    next
      case ne: False
      then have ge: "64 \<le> length m mod 64 + length d" using False by (simp add: r_def i_def)
      define b where "b = tail_of 64 m @ take r d"
      have rl: "r \<le> length d" "length b = 64" using False ne lt i64 by (simp_all add: b_def r_def)
      have w: "wr (gr_block c) i (take r d) = Inr b" using h lt rl i64 by (simp add: wr_def b_def r_def)
      have "gr_core (c\<lparr>gr_block := b\<rparr>) (chunks 64 m)" using h by (simp add: gr_core_def)
      then have "gr_core (gostr3411_compress (c\<lparr>gr_block := b\<rparr>) b (64 * 8)) (chunks 64 m @ [b])" by (rule compress_core) fact
      then show ?thesis
        using that[of "gostr3411_compress (c\<lparr>gr_block := b\<rparr>) b (64 * 8)" r "chunks 64 m @ [b]"] ne rl w h
          blocks_full[OF _ ge, folded i_def, folded r_def, folded b_def] by simp
    qed
    define c2 where "c2 = foldl (\<lambda>c b. gostr3411_compress c b (64 * 8)) c1 (chunks 64 (drop j d))"
    have c2: "gr_core c2 (chunks 64 (m @ d))" "length (gr_block c2) = 64" "gr_variant c2 = v"
      using compress_blocks[OF c1(3), of "chunks 64 (drop j d)"] c1 by (simp_all add: c2_def length_in_chunks)
    have l: "length (m @ d) mod 64 = length (tail_of 64 (drop j d))"
      unfolding c1(7)[symmetric] by (rule length_tail_of[symmetric])
    have "gostr3411_update (Some c) (Some a) = tl c2 j"
      unfolding upd if_not_P[OF False] c1(1) DO_simps prod.case fb[OF c1(2)] tl_def c2_def ..
    then have "gostr3411_update (Some c) (Some a) =
       Inr (c2\<lparr>gr_block := tail_of 64 (drop j d) @ drop (length (tail_of 64 (drop j d))) (gr_block c2),
          gr_block_ind := length (tail_of 64 (drop j d))\<rparr>)" unfolding tail[OF c1(2) c2(2)] .
    moreover have "length (tail_of 64 (drop j d)) \<le> 64" using mod_less_divisor[of 64 "length (drop j d)"] by simp
    ultimately show ?thesis unfolding d_def[symmetric] gr_holds_def l c1(7) using c2 by (auto simp: gr_core_def)
  qed
qed


lemma gostr3411_final_holds:
  assumes "gr_holds v c m" "mem_ok M"
  shows "gostr3411_final M (Some c) = (Inr (mk_ba (gostr3411 v m)), Some (gr_zero v (std_iv v)))"
proof -
  define i where "i = length m mod 64"
  from assms(1) have h: "gr_variant c = v" "gr_core c (chunks 64 m)" "length (gr_block c) = 64"
    "gr_block_ind c = i" "take i (gr_block c) = tail_of 64 m" by (simp_all add: gr_holds_def i_def)
  have i64: "i < 64" by (simp add: i_def)
  have lt: "length (tail_of 64 m) = i" by (simp add: i_def)
  define b where "b = std_last m"
  have b: "b = tail_of 64 m @ 1 # replicate (63 - i) 0" "length b = 64" using i64 lt by (simp_all add: b_def std_last_def i_def)
  have w: "DO (wr (gr_block c) (gr_block_ind c) [1]) (\<lambda>b.
            wr b (gr_block_ind c + 1) (replicate (sz_sub (sz_sub 64 (gr_block_ind c)) 1) 0)) = Inr b"
    using h i64 lt by (simp add: b wr_def sz_sub_def)
  define n :: u64 where "n = of_nat (gr_block_ind c) * 8"
  have n: "unat n = 8 * i" using i64 by (simp add: n_def h unat_word_ariths unat_of_nat)
  have len: "512 * length (chunks 64 m) + unat n = 8 * length m"
    using mult_div_mod_eq[of 64 "length m"] unfolding n i_def length_chunks by linarith
  define c1 where "c1 = c\<lparr>gr_block := b\<rparr>"
  have core: "gr_core c1 (chunks 64 m)" using h by (simp add: gr_core_def c1_def)
  define st where "st = std_g (num_words (512 * length (chunks 64 m))) (gr_state c) (load_words False b)"
  define S where "S = num_words (block_sum (chunks 64 m @ [b]))"
  define c2 where "c2 = c1\<lparr>gr_state := st, gr_total_length := num_words (8 * length m), gr_sigma := S\<rparr>"
  have c2: "gostr3411_compress (c\<lparr>gr_block := b\<rparr>) b n = c2"
  proof -
    have g: "gr_state c1 = gr_state c" by (simp add: c1_def)
    show ?thesis unfolding c1_def[symmetric] compress_eq[OF core b(2)] len g c2_def st_def S_def ..
  qed
  have lst: "length st = 8" unfolding st_def
  proof (rule length_std_g)
    show "length (gr_state c) = 8" using h(2) unfolding gr_core_def by blast
    show "length (load_words False b :: u64 list) = 8" using b(2) by simp
  qed
  define h1 where "h1 = G512 st (num_words (8 * length m)) (replicate 8 0)"
  define h2 where "h2 = G512 h1 S (replicate 8 0)"
  have h1: "h1 = std_g (replicate 8 0) st (num_words (8 * length m))" "length h1 = 8"
    using lst by (simp_all add: h1_def G512_std length_std_g)
  have h2: "h2 = std_g (replicate 8 0) h1 S" "length h2 = 8"
    using h1(2) by (simp_all add: h2_def S_def G512_std length_std_g)
  have "foldl std_stage (std_iv v, 0) (chunks 64 m @ [b]) = (st, 512 * length (chunks 64 m) + 512)"
    using h by (simp add: gr_core_def std_stage_def st_def)
  then have hash: "std_hash (std_iv v) m = h2"
    unfolding std_hash_def Let_def b_def[symmetric] by (simp add: h2 h1 S_def)
  have out: "concat (map (\<lambda>i. LE_WRITE_UINT64 (h2 ! (k + i))) [0..<8 - k]) = drop (8 * k) (store_words False h2)" if "k \<le> 8" for k
  proof -
    have "map (\<lambda>i. h2 ! (k + i)) [0..<8 - k] = drop k h2" using h2(2) that by (intro nth_equalityI) simp_all
    moreover have "concat (map (\<lambda>i. LE_WRITE_UINT64 (h2 ! (k + i))) [0..<8 - k])
        = store_words False (map (\<lambda>i. h2 ! (k + i)) [0..<8 - k])"
      by (simp only: store_words_def LE_WRITE_eq map_map comp_def)
    ultimately have "concat (map (\<lambda>i. LE_WRITE_UINT64 (h2 ! (k + i))) [0..<8 - k]) = store_words False (drop k h2)"
      by (simp only:)
    moreover have "store_words False h2 = store_words False (take k h2) @ store_words False (drop k h2)"
      by (simp flip: store_words_append)
    moreover have "length (store_words False (take k h2)) = 8 * k" using h2(2) that by (simp add: length_store_words)
    ultimately show ?thesis by simp
  qed
  have o4: "concat (map (\<lambda>i. LE_WRITE_UINT64 (h2 ! (4 + i))) [0..<4]) = drop 32 (store_words False h2)"
    using out[of 4] by simp
  have o8: "concat (map (\<lambda>i. LE_WRITE_UINT64 (h2 ! i)) [0..<8]) = store_words False h2"
    using out[of 0] by simp
  have dg: "gostr3411 v m = (if v = 0 then drop 32 (store_words False h2) else store_words False h2)"
    unfolding gostr3411_def hash by simp
  have l: "length (store_words False h2) = 64" using h2(2) by (simp add: length_store_words)
  have fin: "gostr3411_final M (Some c) =
     (if v = 0
        then DO_ST (CHECK_NOT_NULL (ba_alloc_by_len M 32) Inr) (Some (c2\<lparr>gr_state := h2\<rparr>)) (\<lambda>out.
             DO_ST (wr (data out) 0 (drop 32 (store_words False h2))) (Some (c2\<lparr>gr_state := h2\<rparr>)) (\<lambda>xs.
             (Inr (set_data out xs), Some (gr_zero v (replicate 8 0x0101010101010101)))))
        else DO_ST (CHECK_NOT_NULL (ba_alloc_by_len M 64) Inr) (Some (c2\<lparr>gr_state := h2\<rparr>)) (\<lambda>out.
             DO_ST (wr (data out) 0 (store_words False h2)) (Some (c2\<lparr>gr_state := h2\<rparr>)) (\<lambda>xs.
             (Inr (set_data out xs), Some (gr_zero v (replicate 8 0))))))"
  proof -
    have s: "gr_state c2 = st" "gr_total_length c2 = num_words (8 * length m)" "gr_sigma c2 = S" "gr_variant (c2\<lparr>gr_state := h2\<rparr>) = v"
      using h by (simp_all add: c2_def c1_def)
    show ?thesis
      unfolding gostr3411_final_def NOT_NULL_simps DO_ST_simps w n_def[symmetric] c2 Let_def s h1_def[symmetric] h2_def[symmetric] o4 o8 ..
  qed
  show ?thesis
  proof (cases "v = 0")
    case True
    have "set_data (mk_ba (fresh M 32)) (drop 32 (store_words False h2)) = mk_ba (drop 32 (store_words False h2))"
      using l by (simp add: set_data_def mk_ba_def del: raw_ba)
    then show ?thesis unfolding fin dg std_iv_def using True l
      by (simp add: ba_alloc_by_len_eq[OF assms(2)])
  next
    case False
    have "set_data (mk_ba (fresh M 64)) (store_words False h2) = mk_ba (store_words False h2)"
      using l by (simp add: set_data_def mk_ba_def del: raw_ba)
    then show ?thesis unfolding fin dg std_iv_def using False l
      by (simp add: ba_alloc_by_len_eq[OF assms(2)])
  qed
qed

interpretation gostr3411: hash_alg "gr_zero v (std_iv v)" "\<lambda>c a. gostr3411_update (Some c) (Some a)"
    "\<lambda>M c. map_prod id the (gostr3411_final M (Some c))" "gr_holds v" "gostr3411 v" SIZE_MOD for v
  by unfold_locales (use gr_zero_holds gostr3411_update_holds gostr3411_final_holds in \<open>auto\<close>)

subsection \<open>Properties\<close>

text \<open>(C31) The hash of GOST R 34.11-2012: the table-driven \<^verbatim>\<open>SPLX\<close> is the substitution, transposition and
  linear map of the standard; \<^verbatim>\<open>gostr3411_update\<close> takes any fragments and \<^verbatim>\<open>gostr3411_final\<close> returns the
  standard's digest of their concatenation, with length and control sum as numbers modulo \<open>2 ^ 512\<close>, and a
  context as new.\<close>

theorem gostr3411_fragments:
  assumes "v = GOSTR3411_2012_VARIANT_256 \<or> v = GOSTR3411_2012_VARIANT_512" and "mem_ok M"
    and "\<forall>a \<in> set frs. wf_ba a \<and> ba_len a \<le> SIZE_MOD"
  shows "\<exists>s c. gostr3411_alloc M v = Inr (Some s) \<and> feed (\<lambda>c a. gostr3411_update (Some c) (Some a)) s frs = Inr c
     \<and> gostr3411_final M (Some c) = (Inr (mk_ba (gostr3411 v (concat (map data frs)))), Some s)"
proof -
  have m: "malloc_ok M sizeof_GostR3411Ctx" using assms(2) by (simp add: mem_ok_def sizeof_GostR3411Ctx_def)
  have "gostr3411_alloc M v = Inr (Some (gr_zero v (std_iv v)))"
    using assms(1) m by (auto simp: gostr3411_alloc_def CALLOC_CHECKED_def std_iv_def)
  moreover obtain c where "feed (\<lambda>c a. gostr3411_update (Some c) (Some a)) (gr_zero v (std_iv v)) frs = Inr c"
      "gr_holds v c (concat (map data frs))"
    using gostr3411.feed_holds[OF gr_zero_holds assms(3), of v] by auto
  ultimately show ?thesis using gostr3411_final_holds[OF _ assms(2)] by blast
qed

lemma gostr3411_fragments_witness:
  "\<exists>s c. gostr3411_alloc ideal_mem 1 = Inr (Some s)
     \<and> feed (\<lambda>c a. gostr3411_update (Some c) (Some a)) s [mk_ba [0x30, 0x31], mk_ba [0x32]] = Inr c
     \<and> gostr3411_final ideal_mem (Some c) = (Inr (mk_ba (gostr3411 1 [0x30, 0x31, 0x32])), Some s)"
  using gostr3411_fragments[of 1 ideal_mem "[mk_ba [0x30, 0x31], mk_ba [0x32]]"] by (simp add: SIZE_MOD_def)

end
