(* ===== verification/Dstu7564.thy ===== *)
theory Dstu7564
  imports KalynaTables
begin

text \<open>
  The hash function of DSTU 7564 (Kupyna) and its authentication code (\<^verbatim>\<open>dstu7564.c\<close>), over the
  tables of the cipher DSTU 7624.
\<close>

subsection \<open>Round constants\<close>

definition p_pconst :: "u64 list list" where
  "p_pconst = [
     [0x00, 0x10, 0x20, 0x30, 0x40, 0x50, 0x60, 0x70, 0x80, 0x90, 0xa0, 0xb0, 0xc0, 0xd0, 0xe0, 0xf0],
     [0x01, 0x11, 0x21, 0x31, 0x41, 0x51, 0x61, 0x71, 0x81, 0x91, 0xa1, 0xb1, 0xc1, 0xd1, 0xe1, 0xf1],
     [0x02, 0x12, 0x22, 0x32, 0x42, 0x52, 0x62, 0x72, 0x82, 0x92, 0xa2, 0xb2, 0xc2, 0xd2, 0xe2, 0xf2],
     [0x03, 0x13, 0x23, 0x33, 0x43, 0x53, 0x63, 0x73, 0x83, 0x93, 0xa3, 0xb3, 0xc3, 0xd3, 0xe3, 0xf3],
     [0x04, 0x14, 0x24, 0x34, 0x44, 0x54, 0x64, 0x74, 0x84, 0x94, 0xa4, 0xb4, 0xc4, 0xd4, 0xe4, 0xf4],
     [0x05, 0x15, 0x25, 0x35, 0x45, 0x55, 0x65, 0x75, 0x85, 0x95, 0xa5, 0xb5, 0xc5, 0xd5, 0xe5, 0xf5],
     [0x06, 0x16, 0x26, 0x36, 0x46, 0x56, 0x66, 0x76, 0x86, 0x96, 0xa6, 0xb6, 0xc6, 0xd6, 0xe6, 0xf6],
     [0x07, 0x17, 0x27, 0x37, 0x47, 0x57, 0x67, 0x77, 0x87, 0x97, 0xa7, 0xb7, 0xc7, 0xd7, 0xe7, 0xf7],
     [0x08, 0x18, 0x28, 0x38, 0x48, 0x58, 0x68, 0x78, 0x88, 0x98, 0xa8, 0xb8, 0xc8, 0xd8, 0xe8, 0xf8],
     [0x09, 0x19, 0x29, 0x39, 0x49, 0x59, 0x69, 0x79, 0x89, 0x99, 0xa9, 0xb9, 0xc9, 0xd9, 0xe9, 0xf9],
     [0x0a, 0x1a, 0x2a, 0x3a, 0x4a, 0x5a, 0x6a, 0x7a, 0x8a, 0x9a, 0xaa, 0xba, 0xca, 0xda, 0xea, 0xfa],
     [0x0b, 0x1b, 0x2b, 0x3b, 0x4b, 0x5b, 0x6b, 0x7b, 0x8b, 0x9b, 0xab, 0xbb, 0xcb, 0xdb, 0xeb, 0xfb],
     [0x0c, 0x1c, 0x2c, 0x3c, 0x4c, 0x5c, 0x6c, 0x7c, 0x8c, 0x9c, 0xac, 0xbc, 0xcc, 0xdc, 0xec, 0xfc],
     [0x0d, 0x1d, 0x2d, 0x3d, 0x4d, 0x5d, 0x6d, 0x7d, 0x8d, 0x9d, 0xad, 0xbd, 0xcd, 0xdd, 0xed, 0xfd]]"

definition p_qconst_NB_512 :: "u64 list list" where
  "p_qconst_NB_512 = [
     [8138269444283625715, 6985347939676778739, 5832426435069931763, 4679504930463084787,
      3526583425856237811, 2373661921249390835, 1220740416642543859, 67818912035696883],
     [8210327038321553651, 7057405533714706675, 5904484029107859699, 4751562524501012723,
      3598641019894165747, 2445719515287318771, 1292798010680471795, 139876506073624819],
     [8282384632359481587, 7129463127752634611, 5976541623145787635, 4823620118538940659,
      3670698613932093683, 2517777109325246707, 1364855604718399731, 211934100111552755],
     [8354442226397409523, 7201520721790562547, 6048599217183715571, 4895677712576868595,
      3742756207970021619, 2589834703363174643, 1436913198756327667, 283991694149480691],
     [8426499820435337459, 7273578315828490483, 6120656811221643507, 4967735306614796531,
      3814813802007949555, 2661892297401102579, 1508970792794255603, 356049288187408627],
     [8498557414473265395, 7345635909866418419, 6192714405259571443, 5039792900652724467,
      3886871396045877491, 2733949891439030515, 1581028386832183539, 428106882225336563],
     [8570615008511193331, 7417693503904346355, 6264771999297499379, 5111850494690652403,
      3958928990083805427, 2806007485476958451, 1653085980870111475, 500164476263264499],
     [8642672602549121267, 7489751097942274291, 6336829593335427315, 5183908088728580339,
      4030986584121733363, 2878065079514886387, 1725143574908039411, 572222070301192435],
     [8714730196587049203, 7561808691980202227, 6408887187373355251, 5255965682766508275,
      4103044178159661299, 2950122673552814323, 1797201168945967347, 644279664339120371],
     [8786787790624977139, 7633866286018130163, 6480944781411283187, 5328023276804436211,
      4175101772197589235, 3022180267590742259, 1869258762983895283, 716337258377048307]]"

definition p_qconst_NB_1024 :: "u64 list list" where
  "p_qconst_NB_1024 = [
     [17361641481138401523, 16208719976531554547, 15055798471924707571, 13902876967317860595,
      12749955462711013619, 11597033958104166643, 10444112453497319667, 9291190948890472691,
      8138269444283625715, 6985347939676778739, 5832426435069931763, 4679504930463084787,
      3526583425856237811, 2373661921249390835, 1220740416642543859, 67818912035696883],
     [17433699075176329459, 16280777570569482483, 15127856065962635507, 13974934561355788531,
      12822013056748941555, 11669091552142094579, 10516170047535247603, 9363248542928400627,
      8210327038321553651, 7057405533714706675, 5904484029107859699, 4751562524501012723,
      3598641019894165747, 2445719515287318771, 1292798010680471795, 139876506073624819],
     [17505756669214257395, 16352835164607410419, 15199913660000563443, 14046992155393716467,
      12894070650786869491, 11741149146180022515, 10588227641573175539, 9435306136966328563,
      8282384632359481587, 7129463127752634611, 5976541623145787635, 4823620118538940659,
      3670698613932093683, 2517777109325246707, 1364855604718399731, 211934100111552755],
     [17577814263252185331, 16424892758645338355, 15271971254038491379, 14119049749431644403,
      12966128244824797427, 11813206740217950451, 10660285235611103475, 9507363731004256499,
      8354442226397409523, 7201520721790562547, 6048599217183715571, 4895677712576868595,
      3742756207970021619, 2589834703363174643, 1436913198756327667, 283991694149480691],
     [17649871857290113267, 16496950352683266291, 15344028848076419315, 14191107343469572339,
      13038185838862725363, 11885264334255878387, 10732342829649031411, 9579421325042184435,
      8426499820435337459, 7273578315828490483, 6120656811221643507, 4967735306614796531,
      3814813802007949555, 2661892297401102579, 1508970792794255603, 356049288187408627],
     [17721929451328041203, 16569007946721194227, 15416086442114347251, 14263164937507500275,
      13110243432900653299, 11957321928293806323, 10804400423686959347, 9651478919080112371,
      8498557414473265395, 7345635909866418419, 6192714405259571443, 5039792900652724467,
      3886871396045877491, 2733949891439030515, 1581028386832183539, 428106882225336563],
     [17793987045365969139, 16641065540759122163, 15488144036152275187, 14335222531545428211,
      13182301026938581235, 12029379522331734259, 10876458017724887283, 9723536513118040307,
      8570615008511193331, 7417693503904346355, 6264771999297499379, 5111850494690652403,
      3958928990083805427, 2806007485476958451, 1653085980870111475, 500164476263264499],
     [17866044639403897075, 16713123134797050099, 15560201630190203123, 14407280125583356147,
      13254358620976509171, 12101437116369662195, 10948515611762815219, 9795594107155968243,
      8642672602549121267, 7489751097942274291, 6336829593335427315, 5183908088728580339,
      4030986584121733363, 2878065079514886387, 1725143574908039411, 572222070301192435],
     [17938102233441825011, 16785180728834978035, 15632259224228131059, 14479337719621284083,
      13326416215014437107, 12173494710407590131, 11020573205800743155, 9867651701193896179,
      8714730196587049203, 7561808691980202227, 6408887187373355251, 5255965682766508275,
      4103044178159661299, 2950122673552814323, 1797201168945967347, 644279664339120371],
     [18010159827479752947, 16857238322872905971, 15704316818266058995, 14551395313659212019,
      13398473809052365043, 12245552304445518067, 11092630799838671091, 9939709295231824115,
      8786787790624977139, 7633866286018130163, 6480944781411283187, 5328023276804436211,
      4175101772197589235, 3022180267590742259, 1869258762983895283, 716337258377048307],
     [18082217421517680883, 16929295916910833907, 15776374412303986931, 14623452907697139955,
      13470531403090292979, 12317609898483446003, 11164688393876599027, 10011766889269752051,
      8858845384662905075, 7705923880056058099, 6553002375449211123, 5400080870842364147,
      4247159366235517171, 3094237861628670195, 1941316357021823219, 788394852414976243],
     [18154275015555608819, 17001353510948761843, 15848432006341914867, 14695510501735067891,
      13542588997128220915, 12389667492521373939, 11236745987914526963, 10083824483307679987,
      8930902978700833011, 7777981474093986035, 6625059969487139059, 5472138464880292083,
      4319216960273445107, 3166295455666598131, 2013373951059751155, 860452446452904179],
     [18226332609593536755, 17073411104986689779, 15920489600379842803, 14767568095772995827,
      13614646591166148851, 12461725086559301875, 11308803581952454899, 10155882077345607923,
      9002960572738760947, 7850039068131913971, 6697117563525066995, 5544196058918220019,
      4391274554311373043, 3238353049704526067, 2085431545097679091, 932510040490832115],
     [18298390203631464691, 17145468699024617715, 15992547194417770739, 14839625689810923763,
      13686704185204076787, 12533782680597229811, 11380861175990382835, 10227939671383535859,
      9075018166776688883, 7922096662169841907, 6769175157562994931, 5616253652956147955,
      4463332148349300979, 3310410643742454003, 2157489139135607027, 1004567634528760051]]"

subsection \<open>The permutations\<close>

text \<open>The arguments of \<^verbatim>\<open>table_G\<close> in the code, one list for every column.\<close>

definition kupyna_index :: "nat \<Rightarrow> nat list list" where
  "kupyna_index columns = (if columns = 8 then [
     [0, 7, 6, 5, 4, 3, 2, 1], [1, 0, 7, 6, 5, 4, 3, 2], [2, 1, 0, 7, 6, 5, 4, 3], [3, 2, 1, 0, 7, 6, 5, 4],
     [4, 3, 2, 1, 0, 7, 6, 5], [5, 4, 3, 2, 1, 0, 7, 6], [6, 5, 4, 3, 2, 1, 0, 7], [7, 6, 5, 4, 3, 2, 1, 0]]
   else [
     [0, 15, 14, 13, 12, 11, 10, 5], [1, 0, 15, 14, 13, 12, 11, 6], [2, 1, 0, 15, 14, 13, 12, 7], [3, 2, 1, 0, 15, 14, 13, 8],
     [4, 3, 2, 1, 0, 15, 14, 9], [5, 4, 3, 2, 1, 0, 15, 10], [6, 5, 4, 3, 2, 1, 0, 11], [7, 6, 5, 4, 3, 2, 1, 12],
     [8, 7, 6, 5, 4, 3, 2, 13], [9, 8, 7, 6, 5, 4, 3, 14], [10, 9, 8, 7, 6, 5, 4, 15], [11, 10, 9, 8, 7, 6, 5, 0],
     [12, 11, 10, 9, 8, 7, 6, 1], [13, 12, 11, 10, 9, 8, 7, 2], [14, 13, 12, 11, 10, 9, 8, 3], [15, 14, 13, 12, 11, 10, 9, 4]])"

definition table_entry :: "u64 list \<Rightarrow> nat \<Rightarrow> nat \<Rightarrow> u64" where
  "table_entry x k v = subrowcol_default ! k ! unat (drop_bit (8 * k) (x ! v) AND 0xFF)"

definition table_G :: "u64 list \<Rightarrow> nat list \<Rightarrow> u64" where
  "table_G x v = table_entry x 0 (v ! 0) XOR table_entry x 1 (v ! 1) XOR table_entry x 2 (v ! 2) XOR table_entry x 3 (v ! 3)
     XOR table_entry x 4 (v ! 4) XOR table_entry x 5 (v ! 5) XOR table_entry x 6 (v ! 6) XOR table_entry x 7 (v ! 7)"

definition kupyna_G_xor :: "nat \<Rightarrow> u64 list \<Rightarrow> nat \<Rightarrow> u64 list" where
  "kupyna_G_xor columns x i =
     (let n = (if columns = 8 then 8 else 16);
          x = map (\<lambda>j. x ! j XOR p_pconst ! i ! j) [0..<n]
      in map (table_G x) (kupyna_index columns))"

definition kupyna_G_add :: "nat \<Rightarrow> u64 list \<Rightarrow> nat \<Rightarrow> u64 list" where
  "kupyna_G_add columns x i =
     (if columns = 8 then
        let x = map (\<lambda>j. x ! j + p_qconst_NB_512 ! i ! j) [0..<8] in map (table_G x) (kupyna_index columns)
      else
        let x = map (\<lambda>j. x ! j + p_qconst_NB_1024 ! i ! j) [0..<16] in map (table_G x) (kupyna_index columns))"

text \<open>
  The local arrays hold as many words as the code uses; the ten or fourteen calls with the two arrays in turn
  are a fold.
\<close>

definition kupyna_P :: "bool \<Rightarrow> nat \<Rightarrow> u8 list \<Rightarrow> u8 list res" where
  "kupyna_P be columns state =
     DO (uint8_to_uint64 be (Some state) (columns * 8) (Some (replicate columns 0)) columns) (\<lambda>s.
     let s = foldl (kupyna_G_xor columns) s [0..<10];
         s = (if columns = 16 then foldl (kupyna_G_xor columns) s [10..<14] else s)
     in uint64_to_uint8 be (Some s) columns (Some state) (columns * 8))"

definition kupyna_Q :: "bool \<Rightarrow> nat \<Rightarrow> u8 list \<Rightarrow> u8 list res" where
  "kupyna_Q be columns state =
     DO (uint8_to_uint64 be (Some state) (columns * 8) (Some (replicate columns 0)) columns) (\<lambda>s.
     let s = foldl (kupyna_G_add columns) s [0..<10];
         s = (if columns = 16 then foldl (kupyna_G_add columns) s [10..<14] else s)
     in uint64_to_uint8 be (Some s) columns (Some state) (columns * 8))"

text \<open>\<^verbatim>\<open>dstu7564_xor\<close> adds words, which is the sum of the bytes on every host.\<close>

definition dstu7564_xor :: "u8 list \<Rightarrow> u8 list \<Rightarrow> u8 list \<Rightarrow> nat \<Rightarrow> u8 list res" where
  "dstu7564_xor a1 a2 out columns =
     (let n = (if columns = 16 then 128 else 64)
      in DO (rd a1 0 n) (\<lambda>x. DO (rd a2 0 n) (\<lambda>y. wr out 0 (map2 (XOR) x y))))"

subsection \<open>The contexts\<close>

record Dstu7564Hmac =
  km_key :: "u8 list"
  km_invert_key :: "u8 list"
  km_key_len :: nat

record Dstu7564Ctx =
  ku_last_block :: "u8 list"
  ku_last_block_el :: nat
  ku_msg_tot_len :: "u64 list"
  ku_state :: "u8 list"
  ku_nbytes :: nat
  ku_hash_nbytes :: nat
  ku_columns :: nat
  ku_is_inited :: bool
  ku_rounds :: nat
  ku_hmac :: "Dstu7564Hmac option"

definition sizeof_Dstu7564Ctx :: nat where "sizeof_Dstu7564Ctx = 464"
definition sizeof_Dstu7564Hmac :: nat where "sizeof_Dstu7564Hmac = 264"

definition ku_zero :: Dstu7564Ctx where
  "ku_zero = \<lparr>ku_last_block = replicate 256 0, ku_last_block_el = 0, ku_msg_tot_len = [0, 0], ku_state = replicate 128 0,
     ku_nbytes = 0, ku_hash_nbytes = 0, ku_columns = 0, ku_is_inited = False, ku_rounds = 0, ku_hmac = None\<rparr>"

definition km_zero :: Dstu7564Hmac where
  "km_zero = \<lparr>km_key = replicate 128 0, km_invert_key = replicate 128 0, km_key_len = 0\<rparr>"

definition padding :: "u8 list \<Rightarrow> nat \<Rightarrow> u64 list \<Rightarrow> nat \<Rightarrow> u8 list res" where
  "padding buf buf_len_out msg_tot_len nbytes =
     (if nbytes = 0 then Inl UNDEFINED else
      let msg_len_bit_lo = push_bit 3 (msg_tot_len ! 0);
          msg_len_bit_hi = push_bit 3 (msg_tot_len ! 1) OR drop_bit (64 - 3) (msg_tot_len ! 0);
          cur_pos = buf_len_out mod nbytes;
          zero_nbytes = unat (drop_bit 3 (NOT (msg_len_bit_lo + 97) mod push_bit 3 (of_nat nbytes)))
      in DO (wr buf cur_pos [0x80]) (\<lambda>buf.
         DO (wr buf (cur_pos + 1) (replicate zero_nbytes 0)) (\<lambda>buf.
         DO (wr buf (cur_pos + 1 + zero_nbytes) (map (\<lambda>i. ucast (drop_bit (8 * i) msg_len_bit_lo AND 0xFF)) [0..<8])) (\<lambda>buf.
         wr buf (cur_pos + 1 + zero_nbytes + 8) (map (\<lambda>i. ucast (drop_bit (8 * i) msg_len_bit_hi AND 0xFF)) [0..<4])))))"

definition dstu7564_digest :: "bool \<Rightarrow> Dstu7564Ctx \<Rightarrow> u8 list \<Rightarrow> Dstu7564Ctx res" where
  "dstu7564_digest be c inp =
     (let cols = ku_columns c
      in DO (DO (rd inp 0 (cols * 8)) (wr (replicate 128 0) 0)) (\<lambda>temp2.
         DO (dstu7564_xor (ku_state c) inp (replicate 128 0) cols) (\<lambda>temp1.
         DO (kupyna_P be cols temp1) (\<lambda>temp1.
         DO (kupyna_Q be cols temp2) (\<lambda>temp2.
         DO (dstu7564_xor temp1 temp2 temp2 cols) (\<lambda>temp2.
         DO (dstu7564_xor (ku_state c) temp2 (ku_state c) cols) (\<lambda>st. Inr (c\<lparr>ku_state := st\<rparr>))))))))"

definition dstu7564_alloc :: "mem \<Rightarrow> Dstu7564Ctx option res" where
  "dstu7564_alloc M = to_ptr (CALLOC_CHECKED M sizeof_Dstu7564Ctx (Inr ku_zero))"

definition dstu7564_copy_with_alloc :: "mem \<Rightarrow> Dstu7564Ctx option \<Rightarrow> Dstu7564Ctx option res" where
  "dstu7564_copy_with_alloc M ctx = to_ptr (NOT_NULL ctx (\<lambda>c. CALLOC_CHECKED M sizeof_Dstu7564Ctx (
     case ku_hmac c of None \<Rightarrow> Inr c
     | Some h \<Rightarrow> MALLOC_CHECKED M sizeof_Dstu7564Hmac (\<lambda>_. Inr c))))"

definition dstu7564_init :: "Dstu7564Ctx option \<Rightarrow> nat \<Rightarrow> Dstu7564Ctx res" where
  "dstu7564_init ctx hash_nbytes = NOT_NULL ctx (\<lambda>c.
     CHECK_PARAM (hash_nbytes > 0 \<and> hash_nbytes \<le> 64) (
     DO (if hash_nbytes \<le> 32
         then DO (wr (ku_state c) 0 (64 # replicate 63 0)) (\<lambda>st.
              Inr (c\<lparr>ku_rounds := 10, ku_columns := 8, ku_nbytes := 64, ku_state := st\<rparr>))
         else DO (wr (ku_state c) 0 (128 # replicate 127 0)) (\<lambda>st.
              Inr (c\<lparr>ku_rounds := 14, ku_columns := 16, ku_nbytes := 128, ku_state := st\<rparr>))) (\<lambda>c.
     let c = c\<lparr>ku_hash_nbytes := hash_nbytes, ku_last_block := replicate 256 0, ku_last_block_el := 0, ku_msg_tot_len := [0, 0]\<rparr>;
         c = (if \<not> ku_is_inited c then c\<lparr>ku_hmac := None\<rparr> else c)
     in Inr (c\<lparr>ku_is_inited := True\<rparr>))))"

text \<open>The result of \<^verbatim>\<open>dstu7564_init\<close> at the end is not looked at.\<close>

definition output_transformation :: "bool \<Rightarrow> mem \<Rightarrow> Dstu7564Ctx \<Rightarrow> ByteArray res \<times> Dstu7564Ctx" where
  "output_transformation be M c =
     DO_ST (kupyna_P be (ku_columns c) (ku_state c)) c (\<lambda>temp.
     DO_ST (dstu7564_xor (ku_state c) temp (ku_state c) (ku_columns c)) c (\<lambda>st.
     let c = c\<lparr>ku_state := st\<rparr>
     in DO_ST (DO (rd st (sz_sub (ku_nbytes c) (ku_hash_nbytes c)) (ku_hash_nbytes c)) (\<lambda>xs.
               CHECK_NOT_NULL (ba_alloc_from_uint8 M (Some xs) (ku_hash_nbytes c)) Inr)) c (\<lambda>h.
        (Inr h, case dstu7564_init (Some c) (ku_hash_nbytes c) of Inr c' \<Rightarrow> c' | Inl _ \<Rightarrow> c))))"

text \<open>The counter of bytes, in two words.\<close>

definition count_bytes :: "u64 list \<Rightarrow> u64 \<Rightarrow> u64 list" where
  "count_bytes l n = (let lo = l ! 0 + n in [lo, if lo < n then l ! 1 + 1 else l ! 1])"

definition dstu7564_update :: "bool \<Rightarrow> Dstu7564Ctx option \<Rightarrow> ByteArray option \<Rightarrow> Dstu7564Ctx res" where
  "dstu7564_update be ctx msg = NOT_NULL ctx (\<lambda>c. NOT_NULL msg (\<lambda>a.
     if \<not> ku_is_inited c then SET_ERROR RET_CONTEXT_NOT_READY else
     let d = data a; n = ba_len a; block_size = ku_nbytes c;
         c = c\<lparr>ku_msg_tot_len := count_bytes (ku_msg_tot_len c) (of_nat n)\<rparr>
     in if sz_add (ku_last_block_el c) n < block_size
        then DO (rd d 0 n) (\<lambda>xs. DO (wr (ku_last_block c) (ku_last_block_el c) xs) (\<lambda>b.
             Inr (c\<lparr>ku_last_block := b, ku_last_block_el := ku_last_block_el c + n\<rparr>)))
        else let r = sz_sub block_size (ku_last_block_el c)
             in DO (rd d 0 r) (\<lambda>xs. DO (wr (ku_last_block c) (ku_last_block_el c) xs) (\<lambda>b.
                DO (dstu7564_digest be (c\<lparr>ku_last_block := b\<rparr>) b) (\<lambda>c.
                DO (wr b 0 (replicate 64 0)) (\<lambda>b.
                DO (for_blocks block_size (dstu7564_digest be) d r n c) (\<lambda>(c, i).
                let el = n - i
                in if el \<noteq> 0
                   then DO (rd d i el) (\<lambda>xs. DO (wr b 0 xs) (\<lambda>b. Inr (c\<lparr>ku_last_block := b, ku_last_block_el := el\<rparr>)))
                   else Inr (c\<lparr>ku_last_block := b, ku_last_block_el := el\<rparr>))))))))"

text \<open>The padded block, and the second one when the padding did not fit.\<close>

definition pad_digest :: "bool \<Rightarrow> Dstu7564Ctx \<Rightarrow> Dstu7564Ctx res" where
  "pad_digest be c =
     DO (padding (ku_last_block c) (ku_last_block_el c) (ku_msg_tot_len c) (ku_nbytes c)) (\<lambda>b.
     DO (dstu7564_digest be (c\<lparr>ku_last_block := b\<rparr>) b) (\<lambda>c.
     if ku_last_block_el c > sz_sub (ku_nbytes c) 13 then dstu7564_digest be c (drop (ku_nbytes c) b) else Inr c))"

definition dstu7564_final :: "bool \<Rightarrow> mem \<Rightarrow> Dstu7564Ctx option \<Rightarrow> ByteArray res \<times> Dstu7564Ctx option" where
  "dstu7564_final be M ctx = DO_ST (NOT_NULL ctx Inr) ctx (\<lambda>c.
     if \<not> ku_is_inited c then (SET_ERROR RET_CONTEXT_NOT_READY, ctx) else
     DO_ST (pad_digest be c) ctx (\<lambda>c. map_prod id Some (output_transformation be M c)))"

definition dstu7564_get_block_size :: "Dstu7564Ctx option \<Rightarrow> nat" where
  "dstu7564_get_block_size ctx = (case ctx of Some c \<Rightarrow> ku_nbytes c | None \<Rightarrow> 0)"

subsection \<open>The authentication code\<close>

definition dstu7564_init_kmac ::
    "bool \<Rightarrow> mem \<Rightarrow> Dstu7564Ctx option \<Rightarrow> ByteArray option \<Rightarrow> nat \<Rightarrow> unit res \<times> Dstu7564Ctx option" where
  "dstu7564_init_kmac be M ctx key mac_len =
     DO_ST (NOT_NULL ctx Inr) ctx (\<lambda>c. DO_ST (NOT_NULL key Inr) ctx (\<lambda>k.
     DO_ST (CHECK_PARAM (mac_len = 32 \<or> mac_len = 48 \<or> mac_len = 64) (CHECK_PARAM (ba_len k = mac_len) (Inr ()))) ctx (\<lambda>_.
     DO_ST (dstu7564_init ctx mac_len) ctx (\<lambda>c.
     let c = c\<lparr>ku_hmac := None\<rparr>
     in DO_ST (CALLOC_CHECKED M sizeof_Dstu7564Hmac (Inr km_zero)) (Some c) (\<lambda>h.
        DO_ST (DO (ba_to_uint8 (Some k) (Some (km_key h)) (ba_len k)) (\<lambda>kb. Inr (h\<lparr>km_key := kb, km_key_len := ba_len k\<rparr>)))
              (Some (c\<lparr>ku_hmac := Some h\<rparr>)) (\<lambda>h.
        DO_ST (DO (wr (ku_last_block c) 0 (replicate (ku_nbytes c) 0)) (\<lambda>b.
               DO (DO (rd (km_key h) 0 (ba_len k)) (\<lambda>xs. wr (replicate (ku_nbytes c) 0 @ drop (ku_nbytes c) (km_invert_key h)) 0 (map NOT xs))) (\<lambda>ik.
               DO (padding (km_key h) (ba_len k) (of_nat (ba_len k) # tl (ku_msg_tot_len c)) (ku_nbytes c)) (\<lambda>kb.
               DO (dstu7564_digest be (c\<lparr>ku_last_block := b, ku_msg_tot_len := 0 # tl (ku_msg_tot_len c),
                     ku_hmac := Some (h\<lparr>km_invert_key := ik, km_key := kb\<rparr>)\<rparr>) kb) (\<lambda>c.
               Inr (c\<lparr>ku_hash_nbytes := mac_len\<rparr>))))))
              (Some (c\<lparr>ku_hmac := Some h\<rparr>)) (\<lambda>c. (Inr (), Some c))))))))"

text \<open>\<^verbatim>\<open>dstu7564_update_kmac\<close> reads the context before anything checks it.\<close>

definition dstu7564_update_kmac :: "bool \<Rightarrow> Dstu7564Ctx option \<Rightarrow> ByteArray option \<Rightarrow> Dstu7564Ctx res" where
  "dstu7564_update_kmac be ctx msg = (case ctx of None \<Rightarrow> Inl UNDEFINED
     | Some c \<Rightarrow> if \<not> ku_is_inited c then SET_ERROR RET_CONTEXT_NOT_READY else dstu7564_update be ctx msg)"

definition dstu7564_final_kmac :: "bool \<Rightarrow> mem \<Rightarrow> Dstu7564Ctx option \<Rightarrow> ByteArray res \<times> Dstu7564Ctx option" where
  "dstu7564_final_kmac be M ctx = DO_ST (NOT_NULL ctx Inr) ctx (\<lambda>c.
     if \<not> ku_is_inited c then (SET_ERROR RET_CONTEXT_NOT_READY, ctx) else
     DO_ST (
       DO (padding (ku_last_block c) (ku_last_block_el c) (ku_msg_tot_len c) (ku_nbytes c)) (\<lambda>b.
       DO (dstu7564_digest be (c\<lparr>ku_last_block := b\<rparr>) b) (\<lambda>c.
       let n = of_nat (ku_nbytes c); l = count_bytes (ku_msg_tot_len c) (n - of_nat (ku_last_block_el c))
       in DO (if ku_last_block_el c > sz_sub (ku_nbytes c) 13
              then DO (dstu7564_digest be c (drop (ku_nbytes c) b)) (\<lambda>c. Inr (c, count_bytes l n)) else Inr (c, l)) (\<lambda>(c, l).
          DO (wr b 0 (replicate (ku_nbytes c) 0)) (\<lambda>b.
          case ku_hmac c of None \<Rightarrow> Inl UNDEFINED
          | Some h \<Rightarrow>
              let l = count_bytes l (n + of_nat (km_key_len h))
              in DO (DO (rd (km_invert_key h) 0 (km_key_len h)) (wr b 0)) (\<lambda>b.
                 DO (padding b (km_key_len h) l (ku_nbytes c)) (\<lambda>b.
                 DO (dstu7564_digest be (c\<lparr>ku_last_block := b, ku_last_block_el := 0, ku_msg_tot_len := l\<rparr>) b) (\<lambda>c.
                 Inr (c, h)))))))))
       ctx (\<lambda>(c, h).
     case output_transformation be M c of (r, c) \<Rightarrow>
       DO_ST r (Some c) (\<lambda>mac. DO_ST (dstu7564_digest be c (km_key h)) (Some c) (\<lambda>c. (Inr mac, Some c)))))"

end
