(* ===== verification/KupynaHash.thy ===== *)
theory KupynaHash
  imports Dstu7564 GostHash Sha3
begin

text \<open>
  DSTU 7564: the rounds are those of the standard, fragments are absorbed, and the authentication code is the
  hash of the padded key, the padded message and the complemented key.
\<close>

subsection \<open>The rounds of the standard\<close>

text \<open>Row \<open>k\<close> of the state is shifted by \<open>k\<close> columns, the last row of the large state by 11.\<close>

definition std_shift :: "nat \<Rightarrow> nat \<Rightarrow> nat" where
  "std_shift cols k = (if cols = 16 \<and> k = 7 then 11 else k)"

definition std_sbox :: "nat \<Rightarrow> nat \<Rightarrow> u8" where
  "std_sbox k x = s_blocks_default ! (k mod 4 * 256 + x)"

definition std_cell :: "nat \<Rightarrow> u64 list \<Rightarrow> nat \<Rightarrow> nat \<Rightarrow> int" where
  "std_cell cols x c n = foldr (\<lambda>k s.
     uint (multiply_galua (mds_matrix ! (n * 8 + k)) (std_sbox k (nat (wbyte (x ! ((c + cols - std_shift cols k) mod cols)) k)))) XOR s)
     [0..<8] 0"

definition std_add_xor :: "nat \<Rightarrow> nat \<Rightarrow> u64 list \<Rightarrow> u64 list" where
  "std_add_xor cols r x = map (\<lambda>j. x ! j XOR (of_nat (16 * j) XOR of_nat r)) [0..<cols]"

definition std_add_mod :: "nat \<Rightarrow> nat \<Rightarrow> u64 list \<Rightarrow> u64 list" where
  "std_add_mod cols r x = map (\<lambda>j. x ! j + (0x00F0F0F0F0F0F0F3 + push_bit 56 (of_nat (16 * (cols - 1 - j) + r)))) [0..<cols]"

lemma kupyna_consts:
  "map (\<lambda>r. map (\<lambda>j. of_nat (16 * j) XOR of_nat r) [0..<16]) [0..<14] = p_pconst"
  "map (\<lambda>r. map (\<lambda>j. 0x00F0F0F0F0F0F0F3 + push_bit 56 (of_nat (16 * (8 - 1 - j) + r))) [0..<8]) [0..<10] = p_qconst_NB_512"
  "map (\<lambda>r. map (\<lambda>j. 0x00F0F0F0F0F0F0F3 + push_bit 56 (of_nat (16 * (16 - 1 - j) + r))) [0..<16]) [0..<14] = p_qconst_NB_1024"
  by (simp_all add: upt_rec p_pconst_def p_qconst_NB_512_def p_qconst_NB_1024_def push_bit_eq_mult)

lemma subrowcol_nth:
  "k < 8 \<Longrightarrow> x < 256 \<Longrightarrow> n < 8 \<Longrightarrow>
     wbyte (subrowcol_default ! k ! x) n = uint (multiply_galua (mds_matrix ! (n * 8 + k)) (std_sbox k x))"
  unfolding generated_default(1)[symmetric] std_sbox_def by (rule wbyte_sub_row_col)

lemma table_entry_byte:
  assumes "k < 8" "n < 8"
  shows "wbyte (table_entry x k v) n = uint (multiply_galua (mds_matrix ! (n * 8 + k)) (std_sbox k (nat (wbyte (x ! v) k))))"
  unfolding table_entry_def unat_byte by (rule subrowcol_nth[OF assms(1) nat_wbyte_less assms(2)])

lemma kupyna_index_nth:
  assumes "cols = 8 \<or> cols = 16"
  shows "kupyna_index cols = map (\<lambda>c. map (\<lambda>k. (c + cols - std_shift cols k) mod cols) [0..<8]) [0..<cols]"
  using assms by (auto simp: kupyna_index_def std_shift_def upt_rec)

lemma table_G_std:
  assumes "cols = 8 \<or> cols = 16" "c < cols" "n < 8"
  shows "wbyte (table_G x (kupyna_index cols ! c)) n = std_cell cols x c n"
proof -
  have u: "[0..<8] = [0, 1, 2, 3, 4, 5, 6, 7]" by (simp add: upt_rec)
  define v where "v = kupyna_index cols ! c"
  have v: "v ! k = (c + cols - std_shift cols k) mod cols" if "k < 8" for k
    using assms(2) that unfolding v_def kupyna_index_nth[OF assms(1)] by simp
  show ?thesis unfolding v_def[symmetric] table_G_def std_cell_def u wbyte_xor foldr.simps o_def
    using assms(3) by (simp add: table_entry_byte v xor.assoc)
qed

text \<open>A round of the standard, byte by byte.\<close>

definition std_ku_round :: "nat \<Rightarrow> u64 list \<Rightarrow> u64 list \<Rightarrow> bool" where
  "std_ku_round cols x y \<longleftrightarrow> length y = cols \<and> (\<forall>c < cols. \<forall>n < 8. wbyte (y ! c) n = std_cell cols x c n)"

lemma length_kupyna_index: "length (kupyna_index cols) = (if cols = 8 then 8 else 16)"
  by (simp add: kupyna_index_def)

lemma G_xor_std:
  assumes "cols = 8 \<or> cols = 16" "r < 14"
  shows "std_ku_round cols (std_add_xor cols r x) (kupyna_G_xor cols x r)"
proof -
  have "p_pconst ! r = map (\<lambda>j. of_nat (16 * j) XOR of_nat r) [0..<16]"
    using assms(2) unfolding kupyna_consts(1)[symmetric] by simp
  then have "map (\<lambda>j. x ! j XOR p_pconst ! r ! j) [0..<(if cols = 8 then 8 else 16)] = std_add_xor cols r x"
    using assms(1) unfolding std_add_xor_def by (intro map_cong) auto
  then have g: "kupyna_G_xor cols x r = map (table_G (std_add_xor cols r x)) (kupyna_index cols)"
    unfolding kupyna_G_xor_def Let_def by (simp only:)
  show ?thesis unfolding std_ku_round_def g using assms(1) table_G_std[OF assms(1)]
    by (simp add: length_kupyna_index) (metis length_kupyna_index nth_map)
qed

lemma G_add_std:
  assumes "cols = 8 \<and> r < 10 \<or> cols = 16 \<and> r < 14"
  shows "std_ku_round cols (std_add_mod cols r x) (kupyna_G_add cols x r)"
proof -
  have c: "cols = 8 \<or> cols = 16" using assms by blast
  have g: "kupyna_G_add cols x r = map (table_G (std_add_mod cols r x)) (kupyna_index cols)"
    using assms
  proof
    assume a: "cols = 8 \<and> r < 10"
    then have "p_qconst_NB_512 ! r = map (\<lambda>j. 0x00F0F0F0F0F0F0F3 + push_bit 56 (of_nat (16 * (8 - 1 - j) + r))) [0..<8]"
      unfolding kupyna_consts(2)[symmetric] by simp
    then have "map (\<lambda>j. x ! j + p_qconst_NB_512 ! r ! j) [0..<8] = std_add_mod cols r x"
      using a unfolding std_add_mod_def by (intro map_cong) auto
    then show ?thesis using a by (simp add: kupyna_G_add_def)
  next
    assume a: "cols = 16 \<and> r < 14"
    then have "p_qconst_NB_1024 ! r = map (\<lambda>j. 0x00F0F0F0F0F0F0F3 + push_bit 56 (of_nat (16 * (16 - 1 - j) + r))) [0..<16]"
      unfolding kupyna_consts(3)[symmetric] by simp
    then have "map (\<lambda>j. x ! j + p_qconst_NB_1024 ! r ! j) [0..<16] = std_add_mod cols r x"
      using a unfolding std_add_mod_def by (intro map_cong) auto
    then show ?thesis using a by (simp add: kupyna_G_add_def)
  qed
  show ?thesis unfolding std_ku_round_def g using c table_G_std[OF c]
    by (simp add: length_kupyna_index) (metis length_kupyna_index nth_map)
qed

subsection \<open>The compression on bytes\<close>

definition ku_T :: "(u64 list \<Rightarrow> nat \<Rightarrow> u64 list) \<Rightarrow> nat \<Rightarrow> u8 list \<Rightarrow> u8 list" where
  "ku_T f cols bs = store_words False (foldl f (load_words False bs) [0..<if cols = 16 then 14 else 10])"

definition ku_step :: "nat \<Rightarrow> u8 list \<Rightarrow> u8 list \<Rightarrow> u8 list" where
  "ku_step cols h b = map2 (XOR) h (map2 (XOR) (ku_T (kupyna_G_xor cols) cols (map2 (XOR) h b)) (ku_T (kupyna_G_add cols) cols b))"

lemma length_G: "length (kupyna_G_xor cols x i) = (if cols = 8 then 8 else 16)" "length (kupyna_G_add cols x i) = (if cols = 8 then 8 else 16)"
  by (simp_all add: kupyna_G_xor_def kupyna_G_add_def Let_def length_kupyna_index)

lemma foldl_rounds:
  "(let s = foldl f s [0..<10] in if cols = 16 then foldl f s [10..<14] else s) = foldl f s [0..<if cols = (16 :: nat) then 14 else 10]"
proof -
  have "[0..<14] = [0..<10] @ [10..<14 :: nat]" by (simp add: upt_rec)
  then show ?thesis by simp
qed

lemma length_foldl_G:
  assumes "cols = 8 \<or> cols = 16" "length s = cols"
  shows "length (foldl (kupyna_G_xor cols) s is) = cols" "length (foldl (kupyna_G_add cols) s is) = cols"
  using assms by (induction "is" rule: rev_induct) (auto simp: length_G)

lemma length_ku_T [simp]:
  assumes "cols = 8 \<or> cols = 16" "length bs = 8 * cols"
  shows "length (ku_T (kupyna_G_xor cols) cols bs) = 8 * cols" "length (ku_T (kupyna_G_add cols) cols bs) = 8 * cols"
  using assms by (simp_all add: ku_T_def length_store_words length_foldl_G)

lemma kupyna_PQ_eq:
  assumes "cols = 8 \<or> cols = 16" "8 * cols \<le> length st"
  shows "kupyna_P be cols st = Inr (ku_T (kupyna_G_xor cols) cols (take (8 * cols) st) @ drop (8 * cols) st)"
    and "kupyna_Q be cols st = Inr (ku_T (kupyna_G_add cols) cols (take (8 * cols) st) @ drop (8 * cols) st)"
proof -
  define s :: "u64 list" where "s = load_words False (take (8 * cols) st)"
  have ls: "length s = cols" using assms by (simp add: s_def)
  have l: "uint8_to_uint64 be (Some st) (cols * 8) (Some (replicate cols 0)) cols = Inr s"
    using assms by (subst uint8_to_uint64_eq) (auto simp: s_def mult.commute)
  have w: "uint64_to_uint8 be (Some t) cols (Some st) (cols * 8) = Inr (store_words False t @ drop (8 * cols) st)" if "length t = cols" for t
    using assms that by (subst uint64_to_uint8_eq) (auto simp: mult.commute)
  show "kupyna_P be cols st = Inr (ku_T (kupyna_G_xor cols) cols (take (8 * cols) st) @ drop (8 * cols) st)"
    unfolding kupyna_P_def l DO_simps ku_T_def s_def[symmetric] foldl_rounds[unfolded Let_def] Let_def
    by (rule w[OF length_foldl_G(1)[OF assms(1) ls]])
  show "kupyna_Q be cols st = Inr (ku_T (kupyna_G_add cols) cols (take (8 * cols) st) @ drop (8 * cols) st)"
    unfolding kupyna_Q_def l DO_simps ku_T_def s_def[symmetric] foldl_rounds[unfolded Let_def] Let_def
    by (rule w[OF length_foldl_G(2)[OF assms(1) ls]])
qed

lemma dstu7564_xor_eq:
  assumes "cols = 8 \<or> cols = 16" "8 * cols \<le> length a" "8 * cols \<le> length b" "8 * cols \<le> length out"
  shows "dstu7564_xor a b out cols = Inr (map2 (XOR) (take (8 * cols) a) (take (8 * cols) b) @ drop (8 * cols) out)"
proof -
  have n: "(if cols = 16 then 128 else 64) = 8 * cols" using assms(1) by auto
  show ?thesis using assms(2-4) unfolding dstu7564_xor_def Let_def n by simp
qed

definition ku_upd :: "Dstu7564Ctx \<Rightarrow> u8 list \<Rightarrow> Dstu7564Ctx" where
  "ku_upd c b = c\<lparr>ku_state := ku_step (ku_columns c) (take (8 * ku_columns c) (ku_state c)) (take (8 * ku_columns c) b)
     @ drop (8 * ku_columns c) (ku_state c)\<rparr>"

lemma digest_eq:
  assumes "ku_columns c = 8 \<or> ku_columns c = 16" "length (ku_state c) = 128" "8 * ku_columns c \<le> length b"
  shows "dstu7564_digest be c b = Inr (ku_upd c b)"
proof -
  define cols where "cols = ku_columns c"
  define st where "st = ku_state c"
  have c: "cols = 8 \<or> cols = 16" and l: "length st = 128" "8 * cols \<le> length b" using assms by (simp_all add: cols_def st_def)
  have n: "8 * cols \<le> 128" using c by auto
  define h where "h = take (8 * cols) st"
  define d where "d = take (8 * cols) b"
  have lh: "length h = 8 * cols" "length d = 8 * cols" using l n by (simp_all add: h_def d_def)
  have t2: "DO (rd b 0 (cols * 8)) (wr (replicate 128 0) 0) = Inr (d @ replicate (128 - 8 * cols) 0)"
    using l n by (simp add: d_def mult.commute)
  have t1: "dstu7564_xor st b (replicate 128 0) cols = Inr (map2 (XOR) h d @ replicate (128 - 8 * cols) 0)"
    using l n by (subst dstu7564_xor_eq[OF c]) (simp_all add: h_def d_def)
  define p where "p = ku_T (kupyna_G_xor cols) cols (map2 (XOR) h d)"
  define q where "q = ku_T (kupyna_G_add cols) cols d"
  have lp: "length p = 8 * cols" "length q = 8 * cols" using c lh by (simp_all add: p_def q_def)
  have p: "kupyna_P be cols (map2 (XOR) h d @ replicate (128 - 8 * cols) 0) = Inr (p @ replicate (128 - 8 * cols) 0)"
    using lh by (subst kupyna_PQ_eq(1)[OF c]) (simp_all add: p_def)
  have q: "kupyna_Q be cols (d @ replicate (128 - 8 * cols) 0) = Inr (q @ replicate (128 - 8 * cols) 0)"
    using lh by (subst kupyna_PQ_eq(2)[OF c]) (simp_all add: q_def)
  have x: "dstu7564_xor (p @ replicate (128 - 8 * cols) 0) (q @ replicate (128 - 8 * cols) 0) (q @ replicate (128 - 8 * cols) 0) cols
      = Inr (map2 (XOR) p q @ replicate (128 - 8 * cols) 0)"
    using lp by (subst dstu7564_xor_eq[OF c]) simp_all
  have y: "dstu7564_xor st (map2 (XOR) p q @ replicate (128 - 8 * cols) 0) st cols
      = Inr (map2 (XOR) h (map2 (XOR) p q) @ drop (8 * cols) st)"
    using lp l n by (subst dstu7564_xor_eq[OF c]) (simp_all add: h_def)
  show ?thesis
    unfolding dstu7564_digest_def Let_def cols_def[symmetric] st_def[symmetric] t2 t1 DO_simps p q x y
    by (simp add: ku_upd_def ku_step_def p_def q_def h_def d_def flip: cols_def st_def)
qed

lemma length_ku_step [simp]: "cols = 8 \<or> cols = 16 \<Longrightarrow> length h = 8 * cols \<Longrightarrow> length b = 8 * cols \<Longrightarrow> length (ku_step cols h b) = 8 * cols"
  by (simp add: ku_step_def)

subsection \<open>Padding\<close>

definition ku_len :: "nat \<Rightarrow> u8 list" where
  "ku_len n = num_bytes 12 (8 * n)"

lemma length_ku_len [simp]: "length (ku_len n) = 12"
  by (simp add: ku_len_def num_bytes_def)

definition ku_counter :: "nat \<Rightarrow> u64 list" where
  "ku_counter n = [of_nat n, of_nat (n div 2 ^ 64)]"

lemma ucast_and_FF: "ucast (w AND 0xFF :: u64) = (ucast w :: u8)"
proof -
  have "w AND 0xFF = take_bit 8 w" by (simp add: take_bit_eq_mask mask_eq_exp_minus_1)
  then show ?thesis by (simp only:) (rule bit_word_eqI, auto simp: bit_simps)
qed

lemma low_bytes: "map (\<lambda>i. ucast (drop_bit (8 * i) w AND 0xFF)) [0..<8] = bytes_of_word False (w :: u64)"
proof -
  have u: "[0..<8] = [0, 1, 2, 3, 4, 5, 6, 7]" by (simp add: upt_rec)
  show ?thesis unfolding STORE64L_eq[symmetric] STORE64L_def u ucast_and_FF by simp
qed

lemma take_low_bytes: "map (\<lambda>i. ucast (drop_bit (8 * i) w AND 0xFF)) [0..<4] = take 4 (bytes_of_word False (w :: u64))"
proof -
  have "[0..<4] = take 4 [0..<8]" by simp
  then show ?thesis unfolding low_bytes[symmetric] by (simp only: take_map)
qed

lemma bytes_of_nat: "bytes_of_word False (of_nat v :: u64) = num_bytes 8 v"
proof -
  have "(2 :: nat) ^ 64 = 256 ^ 8" by simp
  then show ?thesis using digits_le_mod[of 256 8 v]
    by (simp add: bytes_of_word_def num_bytes_def unat_of_nat take_bit_eq_mod)
qed

lemma num_bytes_split: "num_bytes (m + n) v = num_bytes m v @ num_bytes n (v div 256 ^ m)"
  by (simp add: num_bytes_def digits_le_append)

lemma unat_shift: "unat (drop_bit k (w :: u64)) = unat w div 2 ^ k"
  unfolding unat_drop_bit_eq unfolding drop_bit_eq_div ..

lemma ku_len_eq:
  assumes "lo = push_bit 3 (of_nat n :: u64)" "hi = push_bit 3 (of_nat (n div 2 ^ 64) :: u64) OR drop_bit (64 - 3) (of_nat n)"
  shows "map (\<lambda>i. ucast (drop_bit (8 * i) lo AND 0xFF)) [0..<8] @ map (\<lambda>i. ucast (drop_bit (8 * i) hi AND 0xFF)) [0..<4] = ku_len n"
proof -
  have lo: "lo = of_nat (8 * n)" using assms(1) by (simp add: push_bit_eq_mult)
  have hi: "hi = of_nat (8 * n div 2 ^ 64)"
  proof -
    define d where "d = n mod 2 ^ 64 div 2 ^ 61"
    define r where "r = n mod 2 ^ 64 mod 2 ^ 61"
    define q where "q = n div 2 ^ 64"
    define t where "t = n mod 2 ^ 64"
    have "d < 2 ^ 3" by (simp add: d_def less_mult_imp_div_less)
    have n1: "t = d * 2 ^ 61 + r" unfolding d_def r_def t_def by (rule div_mult_mod_eq[symmetric])
    have n2: "n = q * 2 ^ 64 + t" unfolding q_def t_def by (rule div_mult_mod_eq[symmetric])
    have "8 * n = (8 * q + d) * 2 ^ 64 + 8 * r" unfolding n2 n1 by simp
    moreover have "r < 2 ^ 61" by (simp add: r_def)
    then have "8 * r < 2 ^ 64" by simp
    ultimately have e: "8 * n div 2 ^ 64 = 8 * (n div 2 ^ 64) + d"
      unfolding q_def[symmetric] by (intro div_nat_eqI) simp_all
    have dr: "drop_bit (64 - 3) (of_nat n :: u64) = of_nat d"
    proof (rule word_unat_eq_iff[THEN iffD2])
      have "d < 2 ^ 64" using \<open>d < 2 ^ 3\<close> by simp
      then show "unat (drop_bit (64 - 3) (of_nat n :: u64)) = unat (of_nat d :: u64)"
        unfolding unat_shift by (simp add: unat_of_nat d_def)
    qed
    have "push_bit 3 (of_nat (n div 2 ^ 64) :: u64) OR of_nat d = push_bit 3 (of_nat (n div 2 ^ 64)) + of_nat d"
    proof (rule disjunctive_add[symmetric])
      fix i show "\<not> bit (push_bit 3 (of_nat (n div 2 ^ 64) :: u64)) i \<or> \<not> bit (of_nat d :: u64) i"
      proof (cases "i < 3")
        case True then show ?thesis by (simp add: bit_push_bit_iff)
      next
        case False
        then have "(2 :: nat) ^ 3 \<le> 2 ^ i" by (intro power_increasing) simp_all
        then have "d div 2 ^ i = 0" using \<open>d < 2 ^ 3\<close> by simp
        then have "\<not> bit d i" by (simp add: bit_iff_odd)
        then show ?thesis by (simp add: bit_of_nat_iff)
      qed
    qed
    then show ?thesis unfolding assms(2) dr e by (simp add: push_bit_eq_mult mult.commute)
  qed
  have "take 4 (num_bytes 8 v) = num_bytes 4 v" for v using num_bytes_split[of 4 4 v] by (simp add: num_bytes_def)
  then show ?thesis unfolding low_bytes take_low_bytes unfolding lo hi bytes_of_nat ku_len_def
    using num_bytes_split[of 8 4 "8 * n"] by simp
qed

lemma ku_zeros:
  assumes "nb = 64 \<or> nb = 128"
  shows "unat (drop_bit 3 (NOT (push_bit 3 (of_nat n :: u64) + 97) mod push_bit 3 (of_nat nb))) = (2 * nb - 1 - 12 - n mod nb) mod nb"
proof -
  define el where "el = n mod nb"
  have el: "el < nb" using assms by (auto simp: el_def)
  define w where "w = push_bit 3 (of_nat n :: u64) + 97"
  have w: "w = of_nat (8 * n + 97)" by (simp add: w_def push_bit_eq_mult)
  have nw: "int (unat (NOT w)) = (- int (8 * n) - 98) mod 2 ^ 64"
  proof -
    have "NOT w = of_int (- int (8 * n) - 98)" unfolding w by (simp add: not_eq_complement)
    then show ?thesis unfolding uint_nat[symmetric] by (simp only: unsigned_of_int) (simp add: take_bit_eq_mod)
  qed
  have m: "unat (push_bit 3 (of_nat nb :: u64)) = 8 * nb" using assms by auto
  have "(2 :: int) ^ 64 = int (8 * nb) * (if nb = 64 then 2 ^ 55 else 2 ^ 54)" using assms by auto
  then have d: "int (8 * nb) dvd 2 ^ 64" by (rule dvdI)
  have "int (unat (NOT w mod push_bit 3 (of_nat nb))) = (- int (8 * n) - 98) mod int (8 * nb)"
    unfolding unat_mod m zmod_int nw using d by (rule mod_mod_cancel)
  also have "\<dots> = int ((8 * (2 * nb - 13 - el) + 6) mod (8 * nb))"
  proof -
    have "13 + el \<le> 2 * nb" using el assms by auto
    then have k: "int (8 * (2 * nb - 13 - el) + 6) = 16 * int nb - 98 - 8 * int el" by linarith
    have "n = nb * (n div nb) + el" by (simp add: el_def)
    then have e: "int n = int nb * int (n div nb) + int el" by (metis of_nat_add of_nat_mult)
    have "- int (8 * n) - 98 = (16 * int nb - 98 - 8 * int el) + int (8 * nb) * (- int (n div nb) - 2)"
      by (simp add: e algebra_simps)
    then show ?thesis unfolding zmod_int k by (simp only: mod_mult_self2)
  qed
  finally have "unat (NOT w mod push_bit 3 (of_nat nb)) = (8 * (2 * nb - 13 - el) + 6) mod (8 * nb)" by linarith
  also have "\<dots> = 8 * ((2 * nb - 13 - el) mod nb) + 6"
  proof -
    define q where "q = 2 * nb - 13 - el"
    have "q mod nb < nb" using assms by auto
    then have "8 * (q mod nb) + 6 < 8 * nb" by linarith
    moreover have "8 * q + 6 = 8 * (q mod nb) + 6 + 8 * nb * (q div nb)"
    proof -
      have "8 * (nb * k + r) + 6 = 8 * r + 6 + 8 * nb * k" for k r by (simp add: algebra_simps)
      from this[of "q div nb" "q mod nb"] show ?thesis by (simp only: mult_div_mod_eq)
    qed
    ultimately show ?thesis unfolding q_def[symmetric] by (metis mod_less mod_mult_self2)
  qed
  finally have "unat (drop_bit 3 (NOT w mod push_bit 3 (of_nat nb))) = (2 * nb - 13 - el) mod nb"
    unfolding unat_shift by simp
  moreover have "2 * nb - 1 - 12 - n mod nb = 2 * nb - 13 - el" by (simp add: el_def)
  ultimately show ?thesis by (simp add: w_def)
qed


lemma wr_at: "i = length xs \<Longrightarrow> length zs \<le> length ys \<Longrightarrow> wr (xs @ ys) i zs = Inr (xs @ zs @ drop (length zs) ys)"
  by (simp add: wr_def)

text \<open>The buffer after the padding: one block, or two when the length does not fit.\<close>

lemma padding_fits:
  fixes n nb :: nat
  assumes "nb = 64 \<or> nb = 128"
  shows "n mod nb + (2 * nb - 1 - 12 - n mod nb) mod nb + 13 = (if n mod nb + 13 \<le> nb then nb else 2 * nb)"
proof (cases "n mod nb + 13 \<le> nb")
  case True
  have "(2 * nb - 1 - 12 - n mod nb) mod nb = nb - 13 - n mod nb" using md_zeros_one[of n nb 12] True assms by auto
  then show ?thesis using True by auto
next
  case False
  have "n mod nb < nb" using assms by auto
  moreover have "(2 * nb - 1 - 12 - n mod nb) mod nb = 2 * nb - 13 - n mod nb" using md_zeros_two[of nb n 12] False assms by auto
  ultimately show ?thesis using False assms by auto
qed

lemma padding_eq:
  assumes "nb = 64 \<or> nb = 128" "(if n mod nb + 13 \<le> nb then nb else 2 * nb) \<le> length buf"
    "take (n mod nb) buf = t" "length t = n mod nb"
  defines "z \<equiv> (2 * nb - 1 - 12 - n mod nb) mod nb"
  shows "padding buf (n mod nb) (ku_counter n) nb
    = Inr (t @ 0x80 # replicate z 0 @ ku_len n @ drop (n mod nb + z + 13) buf)"
proof -
  define el where "el = n mod nb"
  have el: "el < nb" using assms(1) by (auto simp: el_def)
  have fit: "el + z + 13 \<le> length buf" using assms(2) unfolding el_def z_def padding_fits[OF assms(1)] .
  define lo :: u64 where "lo = push_bit 3 (of_nat n)"
  define hi :: u64 where "hi = push_bit 3 (of_nat (n div 2 ^ 64)) OR drop_bit (64 - 3) (of_nat n)"
  define A where "A = map (\<lambda>i. ucast (drop_bit (8 * i) lo AND 0xFF) :: u8) [0..<8]"
  define B where "B = map (\<lambda>i. ucast (drop_bit (8 * i) hi AND 0xFF) :: u8) [0..<4]"
  have AB: "A @ B = ku_len n" unfolding A_def B_def by (rule ku_len_eq[OF lo_def hi_def])
  have lA: "length A = 8" "length B = 4" by (simp_all add: A_def B_def)
  have zz: "unat (drop_bit 3 (NOT (lo + 97) mod push_bit 3 (of_nat nb))) = z"
    unfolding lo_def z_def by (rule ku_zeros[OF assms(1)])
  have tl: "take el buf = t" "length t = el" using assms by (simp_all add: el_def)
  have cp: "el mod nb = el" using el by simp
  have bf: "buf = t @ drop el buf" using tl by (metis append_take_drop_id)
  have w1: "wr buf el [0x80] = Inr (t @ [0x80] @ drop (el + 1) buf)"
    using wr_at[of el t "[0x80]" "drop el buf"] tl el fit assms(2) by (simp flip: bf)
  have w2: "wr (t @ [0x80] @ drop (el + 1) buf) (el + 1) (replicate z 0) = Inr ((t @ [0x80]) @ replicate z 0 @ drop (el + 1 + z) buf)"
    using wr_at[of "el + 1" "t @ [0x80]" "replicate z 0" "drop (el + 1) buf"] tl fit assms(2) by (simp add: add.commute)
  have w3: "wr ((t @ [0x80]) @ replicate z 0 @ drop (el + 1 + z) buf) (el + 1 + z) A
      = Inr ((t @ [0x80] @ replicate z 0) @ A @ drop (el + 1 + z + 8) buf)"
    using wr_at[of "el + 1 + z" "t @ [0x80] @ replicate z 0" A "drop (el + 1 + z) buf"] tl fit assms(2) lA by (simp add: add.commute)
  have w4: "wr ((t @ [0x80] @ replicate z 0) @ A @ drop (el + 1 + z + 8) buf) (el + 1 + z + 8) B
      = Inr ((t @ [0x80] @ replicate z 0 @ A) @ B @ drop (el + 1 + z + 12) buf)"
    using wr_at[of "el + 1 + z + 8" "t @ [0x80] @ replicate z 0 @ A" B "drop (el + 1 + z + 8) buf"] tl fit assms(2) lA
    by (simp add: add.commute)
  have nz: "nb \<noteq> 0" using assms(1) by auto
  have cnt: "ku_counter n ! 0 = of_nat n" "ku_counter n ! 1 = of_nat (n div 2 ^ 64)" by (simp_all add: ku_counter_def)
  have d: "el + 1 + z + 12 = el + z + 13" by simp
  show ?thesis
    unfolding padding_def if_not_P[OF nz] cnt Let_def el_def[symmetric] lo_def[symmetric] hi_def[symmetric] zz cp w1 w2 w3 w4 DO_simps
      A_def[symmetric] B_def[symmetric] d
    by (simp flip: AB)
qed


subsection \<open>Contexts that hold a message\<close>

definition ku_cols :: "nat \<Rightarrow> nat" where
  "ku_cols n = (if n \<le> 32 then 8 else 16)"

definition ku_iv :: "nat \<Rightarrow> u8 list" where
  "ku_iv cols = of_nat (8 * cols) # replicate (8 * cols - 1) 0"

definition kupyna_core :: "nat \<Rightarrow> u8 list \<Rightarrow> u8 list" where
  "kupyna_core n m = foldl (ku_step (ku_cols n)) (ku_iv (ku_cols n)) (chunks (8 * ku_cols n) m)"

definition ku_pad :: "nat \<Rightarrow> u8 list \<Rightarrow> u8 list" where
  "ku_pad n m = m @ md_pad (8 * ku_cols n) (length m) (ku_len (length m))"

definition ku_out :: "nat \<Rightarrow> u8 list \<Rightarrow> u8 list" where
  "ku_out n h = drop (8 * ku_cols n - n) (map2 (XOR) h (ku_T (kupyna_G_xor (ku_cols n)) (ku_cols n) h))"

definition kupyna :: "nat \<Rightarrow> u8 list \<Rightarrow> u8 list" where
  "kupyna n m = ku_out n (kupyna_core n (ku_pad n m))"

text \<open>A context ready for a code of \<open>n\<close> bytes that started from the state \<open>iv\<close> and has taken \<open>m\<close>.\<close>

definition ku_ready :: "nat \<Rightarrow> Dstu7564Hmac option \<Rightarrow> Dstu7564Ctx \<Rightarrow> bool" where
  "ku_ready n hm c \<longleftrightarrow> ku_is_inited c \<and> ku_columns c = ku_cols n \<and> ku_nbytes c = 8 * ku_cols n \<and> ku_hash_nbytes c = n
     \<and> ku_hmac c = hm \<and> length (ku_state c) = 128 \<and> length (ku_last_block c) = 256"

definition ku_abs :: "nat \<Rightarrow> u8 list \<Rightarrow> Dstu7564Hmac option \<Rightarrow> Dstu7564Ctx \<Rightarrow> u8 list \<Rightarrow> bool" where
  "ku_abs n iv hm c m \<longleftrightarrow> ku_ready n hm c \<and> length iv = 8 * ku_cols n
     \<and> ku_last_block_el c = length m mod (8 * ku_cols n) \<and> ku_msg_tot_len c = ku_counter (length m)
     \<and> absorbed (8 * ku_cols n) (ku_step (ku_cols n)) iv (take (8 * ku_cols n) (ku_state c)) (ku_last_block c) m"

lemma ku_cols_cases: "ku_cols n = 8 \<or> ku_cols n = 16" "0 < ku_cols n" "8 * ku_cols n = 64 \<or> 8 * ku_cols n = 128" "8 * ku_cols n \<le> 128"
  by (simp_all add: ku_cols_def)

lemma count_bytes_eq:
  assumes "k < 2 ^ 64"
  shows "count_bytes (ku_counter n) (of_nat k) = ku_counter (n + k)"
proof -
  have "k < 2 ^ LENGTH(64)" using assms by simp
  from carry_add[where 'a=64, OF this, of n] show ?thesis by (simp add: count_bytes_def ku_counter_def Let_def)
qed

lemma ku_upd_ready:
  assumes "ku_ready n hm c" "length b \<ge> 8 * ku_cols n"
  shows "dstu7564_digest be c b = Inr (ku_upd c b)" "ku_ready n hm (ku_upd c b)"
    "take (8 * ku_cols n) (ku_state (ku_upd c b)) = ku_step (ku_cols n) (take (8 * ku_cols n) (ku_state c)) (take (8 * ku_cols n) b)"
    "ku_last_block_el (ku_upd c b) = ku_last_block_el c" "ku_msg_tot_len (ku_upd c b) = ku_msg_tot_len c"
    "ku_last_block (ku_upd c b) = ku_last_block c"
proof -
  note r = assms(1)[unfolded ku_ready_def]
  have l: "length (ku_step (ku_cols n) (take (8 * ku_cols n) (ku_state c)) (take (8 * ku_cols n) b)) = 8 * ku_cols n"
    using r assms(2) ku_cols_cases by (intro length_ku_step) auto
  show "dstu7564_digest be c b = Inr (ku_upd c b)" using r assms(2) ku_cols_cases[of n] by (intro digest_eq) auto
  show "ku_ready n hm (ku_upd c b)" using r l ku_cols_cases[of n] by (auto simp: ku_ready_def ku_upd_def)
  show "take (8 * ku_cols n) (ku_state (ku_upd c b)) = ku_step (ku_cols n) (take (8 * ku_cols n) (ku_state c)) (take (8 * ku_cols n) b)"
    using r l by (simp add: ku_upd_def)
  show "ku_last_block_el (ku_upd c b) = ku_last_block_el c" "ku_msg_tot_len (ku_upd c b) = ku_msg_tot_len c"
    "ku_last_block (ku_upd c b) = ku_last_block c" by (simp_all add: ku_upd_def)
qed

lemma ku_foldl:
  assumes "ku_ready n hm c" "\<forall>b \<in> set bs. length b = 8 * ku_cols n"
  shows "ku_ready n hm (foldl ku_upd c bs)
    \<and> take (8 * ku_cols n) (ku_state (foldl ku_upd c bs)) = foldl (ku_step (ku_cols n)) (take (8 * ku_cols n) (ku_state c)) bs
    \<and> ku_last_block_el (foldl ku_upd c bs) = ku_last_block_el c \<and> ku_msg_tot_len (foldl ku_upd c bs) = ku_msg_tot_len c
    \<and> ku_last_block (foldl ku_upd c bs) = ku_last_block c"
  using assms
proof (induction bs arbitrary: c)
  case (Cons b bs)
  then have b: "length b = 8 * ku_cols n" by simp
  note u = ku_upd_ready[OF Cons.prems(1), of b]
  show ?case using Cons.IH[of "ku_upd c b"] Cons.prems(2) u b by simp
qed simp

lemma dstu7564_update_abs:
  assumes a: "ku_abs n iv hm c m" and w: "wf_ba x" and small: "ba_len x < 2 ^ 63"
  shows "\<exists>c'. dstu7564_update be (Some c) (Some x) = Inr c' \<and> ku_abs n iv hm c' (m @ data x)"
proof -
  define nb where "nb = 8 * ku_cols n"
  define d where "d = data x"
  define el where "el = length m mod nb"
  define l where "l = ku_counter (length (m @ d))"
  have nb: "nb = 64 \<or> nb = 128" "0 < nb" "nb \<le> 128" using ku_cols_cases[of n] by (auto simp: nb_def)
  have ld: "ba_len x = length d" using w by (simp add: d_def)
  note r = a[unfolded ku_abs_def, folded nb_def]
  have rdy: "ku_ready n hm c" and ab: "absorbed nb (ku_step (ku_cols n)) iv (take nb (ku_state c)) (ku_last_block c) m"
    and tot: "ku_msg_tot_len c = ku_counter (length m)" and iv: "length iv = nb" and cel: "ku_last_block_el c = el"
    using r by (simp_all add: el_def)
  note rd = rdy[unfolded ku_ready_def, folded nb_def]
  have cnt: "count_bytes (ku_msg_tot_len c) (of_nat (length d)) = l"
    unfolding tot l_def using small ld by (subst count_bytes_eq) simp_all
  have el: "el < nb" using nb by (simp add: el_def)
  define c1 where "c1 = c\<lparr>ku_msg_tot_len := l\<rparr>"
  have c1: "ku_ready n hm c1" "ku_last_block_el c1 = el" "ku_nbytes c1 = nb" "ku_last_block c1 = ku_last_block c" "ku_state c1 = ku_state c"
    using rdy cel rd by (simp_all add: c1_def ku_ready_def)
  define s where "s = nb - el"
  have sub: "sz_sub nb el = s" using el by (simp add: sz_sub_def s_def)
  have add: "sz_add el (length d) = el + length d"
    using el nb small ld by (simp add: sz_add_def SIZE_MOD_def)
  have lb: "length (ku_last_block c) = 256" using rd by simp
  have upd: "dstu7564_update be (Some c) (Some x) =
      (if el + length d < nb
        then DO (rd d 0 (length d)) (\<lambda>xs. DO (wr (ku_last_block c) el xs) (\<lambda>b.
             Inr (c1\<lparr>ku_last_block := b, ku_last_block_el := el + length d\<rparr>)))
        else DO (rd d 0 s) (\<lambda>xs. DO (wr (ku_last_block c) el xs) (\<lambda>b.
                DO (dstu7564_digest be (c1\<lparr>ku_last_block := b\<rparr>) b) (\<lambda>c.
                DO (wr b 0 (replicate 64 0)) (\<lambda>b.
                DO (for_blocks nb (dstu7564_digest be) d s (length d) c) (\<lambda>(c, i).
                let el = length d - i
                in if el \<noteq> 0
                   then DO (rd d i el) (\<lambda>xs. DO (wr b 0 xs) (\<lambda>b. Inr (c\<lparr>ku_last_block := b, ku_last_block_el := el\<rparr>)))
                   else Inr (c\<lparr>ku_last_block := b, ku_last_block_el := el\<rparr>)))))))"
  proof -
    have i: "(\<not> ku_is_inited c) = False" using rd by simp
    have nbc: "ku_nbytes c = nb" using rd by simp
    show ?thesis
      unfolding dstu7564_update_def NOT_NULL_simps Let_def i if_False ld d_def[symmetric] nbc cnt c1_def[symmetric] c1(2,4) add sub ..
  qed
  show ?thesis
  proof (cases "el + length d < nb")
    case True
    define b where "b = take el (ku_last_block c) @ d @ drop (el + length d) (ku_last_block c)"
    have "dstu7564_update be (Some c) (Some x) = Inr (c1\<lparr>ku_last_block := b, ku_last_block_el := el + length d\<rparr>)"
      unfolding upd using True lb nb by (simp add: b_def)
    moreover have "absorbed nb (ku_step (ku_cols n)) iv (take nb (ku_state c)) b (m @ d)"
      unfolding b_def by (rule absorbed_short[OF ab el_def True])
    moreover have "length (m @ d) mod nb = el + length d"
      using mod_short[of "length m" nb "length d"] True by (simp add: el_def)
    moreover have "length b = 256" using lb True nb by (simp add: b_def)
    ultimately show ?thesis using c1 rd iv
      by (auto simp: ku_abs_def ku_ready_def l_def c1_def simp flip: nb_def d_def)
  next
    case False
    define b where "b = take el (ku_last_block c) @ take s d @ drop nb (ku_last_block c)"
    have sl: "s \<le> length d" "el + s = nb" using False el by (simp_all add: s_def)
    have w1: "wr (ku_last_block c) el (take s d) = Inr b" using lb nb sl by (simp add: b_def)
    have lb1: "length b = 256" "take nb b = take el (ku_last_block c) @ take s d" using lb nb sl el by (simp_all add: b_def flip: s_def)
    have rb: "ku_ready n hm (c1\<lparr>ku_last_block := b\<rparr>)" using c1(1) lb1 by (simp add: ku_ready_def)
    have nbb: "8 * ku_cols n \<le> length b" using nb lb1 by (simp flip: nb_def)
    define c2 where "c2 = ku_upd (c1\<lparr>ku_last_block := b\<rparr>) b"
    note c2 = ku_upd_ready[OF rb nbb, folded c2_def nb_def]
    define b2 where "b2 = replicate 64 0 @ drop 64 b"
    have w2: "wr b 0 (replicate 64 0) = Inr b2" and lb2: "length b2 = 256" using lb1 by (simp_all add: b2_def)
    define c3 where "c3 = foldl ku_upd c2 (chunks nb (drop s d))"
    have c3: "ku_ready n hm c3" "take nb (ku_state c3) = foldl (ku_step (ku_cols n)) (take nb (ku_state c2)) (chunks nb (drop s d))"
      "ku_msg_tot_len c3 = ku_msg_tot_len c2"
      using ku_foldl[OF c2(2), of "chunks nb (drop s d)"] by (simp_all add: c3_def length_in_chunks flip: nb_def)
    define i where "i = s + nb * ((length d - s) div nb)"
    have fb: "for_blocks nb (dstu7564_digest be) d s (length d) c2 = Inr (c3, i)"
    proof -
      have p: "dstu7564_digest be c b = Inr (ku_upd c b) \<and> ku_ready n hm (ku_upd c b)"
        if "length b = nb" "ku_ready n hm c" for b c
        using ku_upd_ready(1)[OF that(2), of b be] ku_upd_ready(2)[OF that(2), of b] that(1) by (simp flip: nb_def)
      show ?thesis using for_blocks_eq[of nb s "length d" d "ku_ready n hm" "dstu7564_digest be" ku_upd c2, OF nb(2) sl(1) order_refl p c2(2)]
        by (simp add: c3_def i_def)
    qed
    define t where "t = tail_of nb (drop s d)"
    have t: "rd d i (length d - i) = Inr t" "length t = length d - i"
      using rd_rest[OF sl(1), of nb] by (simp_all add: t_def i_def minus_mult_div_eq_mod flip: diff_diff_left)
    have lt: "length t < nb" using nb by (simp add: t_def)
    define b3 where "b3 = t @ drop (length t) b2"
    have b3: "length b3 = 256" "take (length t) b3 = t" using lt nb lb2 by (simp_all add: b3_def)
    have tail: "(if length d - i \<noteq> 0
         then DO (rd d i (length d - i)) (\<lambda>xs. DO (wr b2 0 xs) (\<lambda>b. Inr (c3\<lparr>ku_last_block := b, ku_last_block_el := length d - i\<rparr>)))
         else Inr (c3\<lparr>ku_last_block := b2, ku_last_block_el := length d - i\<rparr>)) = Inr (c3\<lparr>ku_last_block := b3, ku_last_block_el := length t\<rparr>)"
    proof (cases "length t = 0")
      case True then show ?thesis using t by (simp add: b3_def)
    next
      case False
      have "wr b2 0 t = Inr b3" using lt nb lb2 by (simp add: b3_def)
      then show ?thesis using t False by simp
    qed
    have r0: "rd d 0 s = Inr (take s d)" using sl by simp
    have "dstu7564_update be (Some c) (Some x) = Inr (c3\<lparr>ku_last_block := b3, ku_last_block_el := length t\<rparr>)"
      unfolding upd if_not_P[OF False] r0 w1 c2(1) w2 fb DO_simps prod.case Let_def by (rule tail)
    moreover have "absorbed nb (ku_step (ku_cols n)) iv (take nb (ku_state c3)) b3 (m @ d)"
      by (rule absorbed_full[OF ab el_def _ nb(2) s_def])
        (use False c3(2) c2(3) lb1 b3 nb c1(5) in \<open>simp_all add: t_def\<close>)
    moreover have "length (m @ d) mod nb = length t"
    proof -
      have "nb \<le> length m mod nb + length d" using False by (simp add: el_def)
      from blocks_full(2)[OF nb(2) this] have "tail_of nb (m @ d) = t" by (simp add: t_def s_def el_def)
      then show ?thesis by (metis length_tail_of)
    qed
    moreover have "ku_msg_tot_len c3 = l" using c3(3) c2(5) by (simp add: c1_def)
    ultimately show ?thesis using c3 iv b3
      by (auto simp: ku_abs_def ku_ready_def l_def simp flip: nb_def d_def)
  qed
qed


subsection \<open>The end of a message\<close>

text \<open>The block or the two blocks that padding makes of the rest of the message, as they lie in the buffer.\<close>

lemma ku_pad_blocks:
  assumes a: "ku_abs n iv hm c m"
  defines "nb \<equiv> 8 * ku_cols n"
  shows "\<exists>b. padding (ku_last_block c) (ku_last_block_el c) (ku_msg_tot_len c) (ku_nbytes c) = Inr b \<and> length b = 256
     \<and> chunks nb (ku_pad n m) = chunks nb m @ take nb b # (if length m mod nb > nb - 13 then [take nb (drop nb b)] else [])"
proof -
  have nb: "nb = 64 \<or> nb = 128" "0 < nb" "nb \<le> 128" using ku_cols_cases[of n] by (auto simp: nb_def)
  note r = a[unfolded ku_abs_def ku_ready_def, folded nb_def]
  define el where "el = length m mod nb"
  define t where "t = tail_of nb m"
  define z where "z = (2 * nb - 1 - 12 - el) mod nb"
  have el: "el < nb" using nb by (simp add: el_def)
  have t: "take el (ku_last_block c) = t" "length t = el" using r by (simp_all add: absorbed_def el_def t_def)
  define b where "b = t @ 0x80 # replicate z 0 @ ku_len (length m) @ drop (el + z + 13) (ku_last_block c)"
  have p: "padding (ku_last_block c) (ku_last_block_el c) (ku_msg_tot_len c) (ku_nbytes c) = Inr b"
    using padding_eq[OF nb(1), of "length m" "ku_last_block c" t] r t nb by (simp add: b_def z_def el_def)
  have lb: "length b = 256"
  proof -
    have "el + z + 13 \<le> 256" using el nb by (auto simp: z_def)
    then show ?thesis using r t by (simp add: b_def)
  qed
  show ?thesis
  proof (cases "el + 13 \<le> nb")
    case True
    have z: "z = nb - 13 - el" using md_zeros_one[of "length m" nb 12] True nb by (simp add: z_def el_def)
    have "chunks nb (ku_pad n m) = chunks nb m @ [t @ 0x80 # replicate (nb - 1 - 12 - el) 0 @ ku_len (length m)]"
      unfolding ku_pad_def nb_def[symmetric] t_def el_def
      using md_pad_one[of m nb "ku_len (length m)"] True by (simp add: el_def)
    moreover have "take nb b = t @ 0x80 # replicate (nb - 1 - 12 - el) 0 @ ku_len (length m)"
      using t True by (simp add: b_def z take_Cons')
    ultimately show ?thesis using p lb True by (auto simp flip: el_def)
  next
    case False
    have z: "z = (nb - 1 - el) + (nb - 12)" using md_zeros_two[of nb "length m" 12] False nb el by (auto simp: z_def el_def)
    have c: "chunks nb (ku_pad n m) = chunks nb m @ [t @ 0x80 # replicate (nb - 1 - el) 0, replicate (nb - 12) 0 @ ku_len (length m)]"
      unfolding ku_pad_def nb_def[symmetric] t_def el_def
      using md_pad_two[of nb m "ku_len (length m)"] False nb by (auto simp: el_def)
    have e: "b = (t @ 0x80 # replicate (nb - 1 - el) 0) @ (replicate (nb - 12) 0 @ ku_len (length m)) @ drop (el + z + 13) (ku_last_block c)"
      by (simp add: b_def z replicate_add)
    have l: "length (t @ 0x80 # replicate (nb - 1 - el) 0) = nb" "length (replicate (nb - 12) 0 @ ku_len (length m)) = nb"
      using t el nb by auto
    have "take nb (A @ B @ R) = A \<and> take nb (drop nb (A @ B @ R)) = B" if "length A = nb" "length B = nb" for A B R :: "u8 list"
      using that by simp
    from this[OF l] have "take nb b = t @ 0x80 # replicate (nb - 1 - el) 0" "take nb (drop nb b) = replicate (nb - 12) 0 @ ku_len (length m)"
      unfolding e by blast+
    moreover have "el > nb - 13" using False nb by linarith
    ultimately show ?thesis using p lb c by (simp flip: el_def)
  qed
qed

lemma pad_digest_eq:
  assumes a: "ku_abs n iv hm c m"
  defines "nb \<equiv> 8 * ku_cols n"
  shows "\<exists>c'. pad_digest be c = Inr c' \<and> ku_ready n hm c' \<and> ku_msg_tot_len c' = ku_msg_tot_len c
    \<and> take nb (ku_state c') = foldl (ku_step (ku_cols n)) iv (chunks nb (ku_pad n m))"
proof -
  obtain b where p: "padding (ku_last_block c) (ku_last_block_el c) (ku_msg_tot_len c) (ku_nbytes c) = Inr b" "length b = 256"
    "chunks nb (ku_pad n m) = chunks nb m @ take nb b # (if length m mod nb > nb - 13 then [take nb (drop nb b)] else [])"
    using ku_pad_blocks[OF a] by (auto simp: nb_def)
  have nb: "nb \<le> 128" "13 \<le> nb" using ku_cols_cases[of n] by (auto simp: nb_def)
  note r = a[unfolded ku_abs_def, folded nb_def]
  have rb: "ku_ready n hm (c\<lparr>ku_last_block := b\<rparr>)" using r p(2) by (simp add: ku_ready_def)
  have l: "8 * ku_cols n \<le> length b" "8 * ku_cols n \<le> length (drop nb b)" using nb p(2) by (simp_all add: nb_def)
  define c1 where "c1 = ku_upd (c\<lparr>ku_last_block := b\<rparr>) b"
  note u = ku_upd_ready[OF rb l(1), folded c1_def nb_def]
  note v = ku_upd_ready[OF u(2) l(2), folded nb_def]
  have st: "take nb (ku_state c) = foldl (ku_step (ku_cols n)) iv (chunks nb m)" using r by (simp add: absorbed_def)
  have el: "ku_last_block_el c1 = length m mod nb" using u(4) r by simp
  have nbc: "ku_nbytes c1 = nb" using u(2) by (simp add: ku_ready_def nb_def)
  have sub: "sz_sub nb 13 = nb - 13" using nb by (simp add: sz_sub_def)
  have e: "pad_digest be c = (if length m mod nb > nb - 13 then dstu7564_digest be c1 (drop nb b) else Inr c1)"
    unfolding pad_digest_def p(1) DO_simps u(1) el nbc sub ..
  show ?thesis
  proof (cases "length m mod nb > nb - 13")
    case True
    then have "pad_digest be c = Inr (ku_upd c1 (drop nb b))" unfolding e using v(1) by simp
    then show ?thesis using True v u(3,5) p(3) st by simp
  next
    case False
    then have "pad_digest be c = Inr c1" unfolding e by simp
    then show ?thesis using False u p(3) st by simp
  qed
qed

definition ku_fresh :: "nat \<Rightarrow> Dstu7564Hmac option \<Rightarrow> u8 list \<Rightarrow> Dstu7564Ctx \<Rightarrow> bool" where
  "ku_fresh n hm iv c \<longleftrightarrow> ku_abs n iv hm c []"

lemma dstu7564_init_abs:
  assumes "0 < n" "n \<le> 64" "length (ku_state c) = 128"
  shows "\<exists>c'. dstu7564_init (Some c) n = Inr c' \<and> ku_abs n (ku_iv (ku_cols n)) (if ku_is_inited c then ku_hmac c else None) c' []"
proof -
  have z: "ku_counter 0 = [0, 0]" by (simp add: ku_counter_def)
  have r64: "(64 :: u8) # replicate 63 0 = ku_iv 8" "(128 :: u8) # replicate 127 0 = ku_iv 16" by (simp_all add: ku_iv_def)
  have l: "length (ku_iv 8) = 64" "length (ku_iv 16) = 128" by (simp_all add: ku_iv_def)
  show ?thesis
  proof (cases "n \<le> 32")
    case True
    then show ?thesis using assms l
      by (auto simp: dstu7564_init_def ku_abs_def ku_ready_def ku_cols_def z Let_def absorbed_Nil r64)
  next
    case False
    then show ?thesis using assms l
      by (auto simp: dstu7564_init_def ku_abs_def ku_ready_def ku_cols_def z Let_def absorbed_Nil r64)
  qed
qed

lemma output_transformation_eq:
  assumes r: "ku_ready n hm c" and n: "0 < n" "n \<le> 64" and M: "mem_ok M"
  defines "h \<equiv> take (8 * ku_cols n) (ku_state c)"
  shows "\<exists>c'. output_transformation be M c = (Inr (mk_ba (ku_out n h)), c') \<and> ku_abs n (ku_iv (ku_cols n)) hm c' []"
proof -
  define nb where "nb = 8 * ku_cols n"
  define cols where "cols = ku_cols n"
  note rd = r[unfolded ku_ready_def, folded nb_def cols_def]
  have c: "cols = 8 \<or> cols = 16" "nb = 8 * cols" "nb \<le> 128" "n \<le> nb" using ku_cols_cases[of n] n by (auto simp: cols_def nb_def ku_cols_def)
  have lh: "length h = nb" using rd c by (simp add: h_def cols_def[symmetric])
  define p where "p = ku_T (kupyna_G_xor cols) cols h"
  have lp: "length p = nb" using c lh by (simp add: p_def)
  have P: "kupyna_P be cols (ku_state c) = Inr (p @ drop nb (ku_state c))"
    using kupyna_PQ_eq(1)[OF c(1), of "ku_state c" be] rd c by (simp add: p_def h_def cols_def)
  define st where "st = map2 (XOR) h p @ drop nb (ku_state c)"
  have X: "dstu7564_xor (ku_state c) (p @ drop nb (ku_state c)) (ku_state c) cols = Inr st"
    using dstu7564_xor_eq[OF c(1), of "ku_state c" "p @ drop nb (ku_state c)" "ku_state c"] rd c lp
    by (simp add: st_def h_def cols_def)
  have sub: "sz_sub nb n = nb - n" using c by (simp add: sz_sub_def)
  have lst: "length st = 128" using rd lh lp c by (simp add: st_def)
  have R: "rd st (nb - n) n = Inr (ku_out n h)"
    using lh lp c lst by (simp add: st_def ku_out_def p_def cols_def nb_def)
  have lo: "length (ku_out n h) = n" using lh lp c by (simp add: ku_out_def p_def cols_def nb_def)
  have A: "ba_alloc_from_uint8 M (Some (ku_out n h)) n = Inr (Some (mk_ba (ku_out n h)))"
    using ba_alloc_from_uint8_eq[OF M n(1), of "ku_out n h"] lo by simp
  define c1 where "c1 = c\<lparr>ku_state := st\<rparr>"
  have f: "ku_hash_nbytes c1 = n" "ku_nbytes c1 = nb" "ku_is_inited c1" "ku_hmac c1 = hm" "length (ku_state c1) = 128"
    using rd lst by (simp_all add: c1_def)
  obtain c' where c': "dstu7564_init (Some c1) n = Inr c'" "ku_abs n (ku_iv (ku_cols n)) hm c' []"
    using dstu7564_init_abs[OF n f(5)] f by auto
  have cc: "ku_columns c = cols" using rd by simp
  have "output_transformation be M c = (Inr (mk_ba (ku_out n h)), c')"
    unfolding output_transformation_def cc P X DO_ST_simps Let_def c1_def[symmetric] f(1,2) sub R DO_simps A CHECK_NOT_NULL_simps c'(1) sum.case ..
  then show ?thesis using c'(2) by blast
qed

lemma dstu7564_final_abs:
  assumes a: "ku_abs n (ku_iv (ku_cols n)) hm c m" and n: "0 < n" "n \<le> 64" and M: "mem_ok M"
  shows "\<exists>c'. dstu7564_final be M (Some c) = (Inr (mk_ba (kupyna n m)), Some c') \<and> ku_abs n (ku_iv (ku_cols n)) hm c' []"
proof -
  obtain c1 where c1: "pad_digest be c = Inr c1" "ku_ready n hm c1"
    "take (8 * ku_cols n) (ku_state c1) = foldl (ku_step (ku_cols n)) (ku_iv (ku_cols n)) (chunks (8 * ku_cols n) (ku_pad n m))"
    using pad_digest_eq[OF a] by blast
  obtain c' where c': "output_transformation be M c1 = (Inr (mk_ba (ku_out n (take (8 * ku_cols n) (ku_state c1)))), c')"
    "ku_abs n (ku_iv (ku_cols n)) hm c' []" using output_transformation_eq[OF c1(2) n M] by blast
  have "ku_is_inited c" using a by (simp add: ku_abs_def ku_ready_def)
  then have "dstu7564_final be M (Some c) = (Inr (mk_ba (kupyna n m)), Some c')"
    by (simp add: dstu7564_final_def c1(1) c'(1) kupyna_def kupyna_core_def flip: c1(3))
  then show ?thesis using c'(2) by blast
qed

end
