(* ===== verification/KupynaMac.thy ===== *)
theory KupynaMac
  imports KupynaHash
begin

text \<open>
  The interface of the hash of DSTU 7564.
\<close>

subsection \<open>The hash interface\<close>

definition ku_start :: "nat \<Rightarrow> Dstu7564Ctx" where
  "ku_start n = (case dstu7564_init (Some ku_zero) n of Inr c \<Rightarrow> c | Inl _ \<Rightarrow> ku_zero)"

definition ku_holds :: "nat \<Rightarrow> Dstu7564Ctx \<Rightarrow> u8 list \<Rightarrow> bool" where
  "ku_holds n = ku_abs n (ku_iv (ku_cols n)) None"

lemma ku_start_eq:
  assumes "0 < n" "n \<le> 64"
  shows "dstu7564_init (Some ku_zero) n = Inr (ku_start n)" "ku_holds n (ku_start n) []"
  using dstu7564_init_abs[OF assms, of ku_zero] by (auto simp: ku_start_def ku_holds_def ku_zero_def)

text \<open>Every code length the code accepts gives the hash interface.\<close>

locale kupyna_size =
  fixes n :: nat and be :: bool
  assumes size: "0 < n" "n \<le> 64"

sublocale kupyna_size \<subseteq> hash_alg "ku_start n" "\<lambda>c a. dstu7564_update be (Some c) (Some a)"
    "\<lambda>M c. map_prod id the (dstu7564_final be M (Some c))" "ku_holds n" "kupyna n" "2 ^ 63 - 1"
proof unfold_locales
  show "ku_holds n (ku_start n) []" by (rule ku_start_eq(2)[OF size])
  show "\<exists>c'. dstu7564_update be (Some c) (Some a) = Inr c' \<and> ku_holds n c' (m @ data a)"
    if "ku_holds n c m" "wf_ba a" "ba_len a \<le> 2 ^ 63 - 1" for c m a
    using dstu7564_update_abs[of n _ None c m a be] that by (simp add: ku_holds_def)
  show "\<exists>c'. map_prod id the (dstu7564_final be M (Some c)) = (Inr (mk_ba (kupyna n m)), c') \<and> ku_holds n c' []"
    if "ku_holds n c m" "mem_ok M" for c m M
    using dstu7564_final_abs[OF that(1)[unfolded ku_holds_def] size that(2), of be] by (auto simp: ku_holds_def)
qed

lemma dstu7564_final_some: "\<exists>c'. snd (dstu7564_final be M (Some c)) = Some c'"
  by (simp add: dstu7564_final_def DO_ST_def split: sum.split)

context kupyna_size
begin

lemma fragments_digest:
  assumes "\<forall>a \<in> set frs. wf_ba a \<and> ba_len a < 2 ^ 63" "mem_ok M"
  shows "\<exists>c c'. feed (\<lambda>c a. dstu7564_update be (Some c) (Some a)) (ku_start n) frs = Inr c
     \<and> map_prod id the (dstu7564_final be M (Some c)) = (Inr (mk_ba (kupyna n (concat (map data frs)))), c') \<and> ku_holds n c' []"
proof -
  have "\<forall>a \<in> set frs. wf_ba a \<and> ba_len a \<le> 2 ^ 63 - 1" using assms(1) by fastforce
  from feed_digest[OF holds_start this assms(2)] show ?thesis by blast
qed

end

interpretation kupyna256: kupyna_size 32 be for be by unfold_locales simp_all
interpretation kupyna384: kupyna_size 48 be for be by unfold_locales simp_all
interpretation kupyna512: kupyna_size 64 be for be by unfold_locales simp_all

subsection \<open>Properties\<close>

text \<open>(C33) The rounds of DSTU 7564: \<^verbatim>\<open>kupyna_G_xor\<close> and \<^verbatim>\<open>kupyna_G_add\<close>, which fetch eight words
  from the precomputed tables for every column, add the round's constants, substitute every byte, shift row
  \<open>k\<close> by \<open>k\<close> columns (by 11 for the last row of the large state) and multiply every column with the matrix
  in the field with polynomial \<open>0x11d\<close>, as the standard defines them.\<close>

theorem kupyna_rounds_standard:
  assumes "cols = 8 \<and> r < 10 \<or> cols = 16 \<and> r < 14"
  shows "std_ku_round cols (std_add_xor cols r x) (kupyna_G_xor cols x r)
    \<and> std_ku_round cols (std_add_mod cols r x) (kupyna_G_add cols x r)"
  using G_xor_std[of cols r x] G_add_std[OF assms, of x] assms by auto

lemma kupyna_rounds_standard_witness:
  "std_ku_round 16 (std_add_xor 16 13 (replicate 16 0)) (kupyna_G_xor 16 (replicate 16 0) 13)
    \<and> std_ku_round 16 (std_add_mod 16 13 (replicate 16 0)) (kupyna_G_add 16 (replicate 16 0) 13)"
  by (rule kupyna_rounds_standard) simp

text \<open>(C34) The hash of DSTU 7564 with any code length up to 64 bytes: \<^verbatim>\<open>dstu7564_update\<close> takes any fragments
  and \<^verbatim>\<open>dstu7564_final\<close> returns the standard's hash of their concatenation and a context ready for the
  next message.\<close>

theorem dstu7564_fragments:
  assumes "0 < n" "n \<le> 64" and "mem_ok M" and "\<forall>a \<in> set frs. wf_ba a \<and> ba_len a < 2 ^ 63"
  shows "\<exists>z s c c'. dstu7564_alloc M = Inr (Some z) \<and> dstu7564_init (Some z) n = Inr s
     \<and> feed (\<lambda>c a. dstu7564_update be (Some c) (Some a)) s frs = Inr c
     \<and> dstu7564_final be M (Some c) = (Inr (mk_ba (kupyna n (concat (map data frs)))), Some c') \<and> ku_holds n c' []"
proof -
  have m: "malloc_ok M sizeof_Dstu7564Ctx" using assms(3) by (simp add: mem_ok_def sizeof_Dstu7564Ctx_def)
  have z: "dstu7564_alloc M = Inr (Some ku_zero)" using m by (simp add: dstu7564_alloc_def CALLOC_CHECKED_def)
  have size: "kupyna_size n" using assms by unfold_locales
  obtain c c' where c: "feed (\<lambda>c a. dstu7564_update be (Some c) (Some a)) (ku_start n) frs = Inr c"
      "map_prod id the (dstu7564_final be M (Some c)) = (Inr (mk_ba (kupyna n (concat (map data frs)))), c')" "ku_holds n c' []"
    using kupyna_size.fragments_digest[OF size assms(4,3), of be] by blast
  obtain c1 where "dstu7564_final be M (Some c) = (Inr (mk_ba (kupyna n (concat (map data frs)))), Some c1)" "ku_holds n c1 []"
    using c(2,3) dstu7564_final_some[of be M c] by (cases "dstu7564_final be M (Some c)") auto
  then show ?thesis using z ku_start_eq(1)[OF assms(1,2)] c(1) by blast
qed

lemma dstu7564_fragments_witness:
  "\<exists>z s c c'. dstu7564_alloc ideal_mem = Inr (Some z) \<and> dstu7564_init (Some z) 32 = Inr s
     \<and> feed (\<lambda>c a. dstu7564_update False (Some c) (Some a)) s [mk_ba [1, 2], mk_ba [3]] = Inr c
     \<and> dstu7564_final False ideal_mem (Some c) = (Inr (mk_ba (kupyna 32 [1, 2, 3])), Some c') \<and> ku_holds 32 c' []"
  using dstu7564_fragments[of 32 ideal_mem "[mk_ba [1, 2], mk_ba [3]]" False] by simp

end
