(* ===== verification/MacAlg.thy ===== *)
theory MacAlg
  imports BlockHash
begin

text \<open>
  The interface of the authentication codes: what absorbs fragments, and what a code under a key adds to that.
\<close>

locale absorber =
  fixes upd :: "'c \<Rightarrow> ByteArray \<Rightarrow> 'c res"
    and holds :: "'c \<Rightarrow> u8 list \<Rightarrow> bool"
    and max_frag :: nat
  assumes absorbs: "holds c m \<Longrightarrow> wf_ba a \<Longrightarrow> ba_len a \<le> max_frag \<Longrightarrow> \<exists>c'. upd c a = Inr c' \<and> holds c' (m @ data a)"
begin

lemma absorbs_all:
  assumes "holds c m" and "\<forall>a \<in> set as. wf_ba a \<and> ba_len a \<le> max_frag"
  shows "\<exists>c'. feed upd c as = Inr c' \<and> holds c' (m @ concat (map data as))"
  using assms
proof (induction as arbitrary: c m)
  case (Cons a as)
  obtain c1 where c1: "upd c a = Inr c1" "holds c1 (m @ data a)"
    using absorbs[OF Cons.prems(1), of a] Cons.prems(2) by auto
  show ?case using Cons.IH[OF c1(2)] Cons.prems(2) c1(1) by simp
qed simp

end

sublocale hash_alg \<subseteq> absorber upd holds max_frag
  by unfold_locales (rule upd_holds)

text \<open>
  \<open>keyed\<close> contexts have returned a code and keep the key; \<open>reset\<close> prepares them for the next message.
\<close>

locale mac_alg = absorber upd holds max_frag
  for upd :: "'c \<Rightarrow> ByteArray \<Rightarrow> 'c res" and holds :: "'c \<Rightarrow> u8 list \<Rightarrow> bool" and max_frag :: nat +
  fixes fin :: "mem \<Rightarrow> 'c \<Rightarrow> ByteArray res \<times> 'c"
    and reset :: "'c \<Rightarrow> 'c res"
    and keyed :: "'c \<Rightarrow> bool"
    and mac :: "u8 list \<Rightarrow> u8 list"
  assumes fin_keyed: "holds c m \<Longrightarrow> mem_ok M \<Longrightarrow> \<exists>c'. fin M c = (Inr (mk_ba (mac m)), c') \<and> keyed c'"
    and reset_holds: "keyed c \<Longrightarrow> \<exists>c'. reset c = Inr c' \<and> holds c' []"
begin

text \<open>A message, its code, and the context as it was before.\<close>

lemma message_mac:
  assumes "holds c []" and "\<forall>a \<in> set as. wf_ba a \<and> ba_len a \<le> max_frag" and "mem_ok M"
  shows "\<exists>c1 c2 c3. feed upd c as = Inr c1 \<and> fin M c1 = (Inr (mk_ba (mac (concat (map data as)))), c2) \<and> keyed c2
    \<and> reset c2 = Inr c3 \<and> holds c3 []"
proof -
  obtain c1 where c1: "feed upd c as = Inr c1" "holds c1 (concat (map data as))"
    using absorbs_all[OF assms(1,2)] by auto
  obtain c2 where c2: "fin M c1 = (Inr (mk_ba (mac (concat (map data as)))), c2)" "keyed c2"
    using fin_keyed[OF c1(2) assms(3)] by blast
  show ?thesis using c1(1) c2 reset_holds[OF c2(2)] by blast
qed

end

end
