(* ===== verification/KupynaKmac.thy ===== *)
theory KupynaKmac
  imports KupynaMac MacAlg
begin

text \<open>
  The authentication code of DSTU 7564: the hash of the padded key, the padded message and the complemented
  key, computed by counting the bytes of the parts.
\<close>

subsection \<open>The authentication code\<close>

definition kupyna_kmac :: "nat \<Rightarrow> u8 list \<Rightarrow> u8 list \<Rightarrow> u8 list" where
  "kupyna_kmac n k m = kupyna n (ku_pad n k @ ku_pad n m @ map NOT k)"

lemma length_ku_pad:
  "length (ku_pad n m) = length m - length m mod (8 * ku_cols n)
     + (if length m mod (8 * ku_cols n) > 8 * ku_cols n - 13 then 2 else 1) * (8 * ku_cols n)"
  "8 * ku_cols n dvd length (ku_pad n m)"
proof -
  define nb where "nb = 8 * ku_cols n"
  define el where "el = length m mod nb"
  have nb: "nb = 64 \<or> nb = 128" using ku_cols_cases[of n] by (simp add: nb_def)
  have el: "el < nb" "el \<le> length m" using nb by (auto simp: el_def)
  have l: "length (ku_pad n m) = length m + 1 + (2 * nb - 1 - 12 - el) mod nb + 12"
    by (simp add: ku_pad_def md_pad_def nb_def el_def)
  have e: "length (ku_pad n m) = length m - el + (if el > nb - 13 then 2 else 1) * nb"
  proof (cases "el + 13 \<le> nb")
    case True
    have "(2 * nb - 1 - 12 - el) mod nb = nb - 13 - el" using md_zeros_one[of "length m" nb 12] True nb by (simp add: el_def)
    then show ?thesis using l True el by auto
  next
    case False
    have "(2 * nb - 1 - 12 - el) mod nb = 2 * nb - 13 - el" using md_zeros_two[of nb "length m" 12] False nb by (auto simp: el_def)
    moreover have "el > nb - 13" using False nb by linarith
    ultimately show ?thesis using l False el nb by auto
  qed
  then show "length (ku_pad n m) = length m - length m mod (8 * ku_cols n)
     + (if length m mod (8 * ku_cols n) > 8 * ku_cols n - 13 then 2 else 1) * (8 * ku_cols n)"
    by (simp only: nb_def el_def)
  have "nb dvd length m - el" unfolding el_def by (rule dvd_minus_mod)
  then show "8 * ku_cols n dvd length (ku_pad n m)" unfolding e nb_def[symmetric] by simp
qed

text \<open>The key always fills one block.\<close>

lemma ku_pad_key:
  assumes "length k = n" "n = 32 \<or> n = 48 \<or> n = 64"
  shows "length (ku_pad n k) = 8 * ku_cols n" "ku_pad n k = k @ 0x80 # replicate (8 * ku_cols n - 13 - n) 0 @ ku_len n"
proof -
  have m: "n mod (8 * ku_cols n) = n" "n + 13 \<le> 8 * ku_cols n" using assms(2) by (auto simp: ku_cols_def)
  show "length (ku_pad n k) = 8 * ku_cols n" unfolding length_ku_pad(1) assms(1) using m by auto
  have "(2 * (8 * ku_cols n) - 1 - 12 - n mod (8 * ku_cols n)) mod (8 * ku_cols n) = 8 * ku_cols n - 1 - 12 - n mod (8 * ku_cols n)"
    using m by (intro md_zeros_one) auto
  then show "ku_pad n k = k @ 0x80 # replicate (8 * ku_cols n - 13 - n) 0 @ ku_len n"
    using m by (simp add: ku_pad_def md_pad_def assms(1))
qed

definition km_iv :: "nat \<Rightarrow> u8 list \<Rightarrow> u8 list" where
  "km_iv n k = ku_step (ku_cols n) (ku_iv (ku_cols n)) (ku_pad n k)"

definition km_key_ok :: "nat \<Rightarrow> u8 list \<Rightarrow> Dstu7564Hmac \<Rightarrow> bool" where
  "km_key_ok n k h \<longleftrightarrow> km_key_len h = n \<and> take (8 * ku_cols n) (km_key h) = ku_pad n k \<and> length (km_key h) = 128
     \<and> take n (km_invert_key h) = map NOT k \<and> length (km_invert_key h) = 128"

definition km_abs :: "nat \<Rightarrow> u8 list \<Rightarrow> Dstu7564Ctx \<Rightarrow> u8 list \<Rightarrow> bool" where
  "km_abs n k c m \<longleftrightarrow> (\<exists>h. ku_abs n (km_iv n k) (Some h) c m \<and> km_key_ok n k h)"

text \<open>Taking the padded key turns a fresh context into one that holds the empty message.\<close>

lemma km_start:
  assumes a: "ku_abs n (ku_iv (ku_cols n)) (Some h) c []" and k: "km_key_ok n k h"
  shows "dstu7564_digest be c (km_key h) = Inr (ku_upd c (km_key h))" "km_abs n k (ku_upd c (km_key h)) []"
proof -
  note r = a[unfolded ku_abs_def]
  have l: "8 * ku_cols n \<le> length (km_key h)" using k ku_cols_cases(4)[of n] by (simp add: km_key_ok_def)
  note u = ku_upd_ready[OF conjunct1[OF r] l]
  show "dstu7564_digest be c (km_key h) = Inr (ku_upd c (km_key h))" by (rule u(1))
  have "take (8 * ku_cols n) (ku_state c) = ku_iv (ku_cols n)" using r by (simp add: absorbed_def)
  then have st: "take (8 * ku_cols n) (ku_state (ku_upd c (km_key h))) = km_iv n k"
    using u(3) k by (simp add: km_iv_def km_key_ok_def)
  have "length (ku_state (ku_upd c (km_key h))) = 128" using u(2) by (simp add: ku_ready_def)
  then have "length (km_iv n k) = 8 * ku_cols n" unfolding st[symmetric] using ku_cols_cases(4)[of n] by simp
  moreover have "8 * ku_cols n \<le> length (ku_last_block c)" using r ku_cols_cases(4)[of n] by (simp add: absorbed_def)
  ultimately have "ku_abs n (km_iv n k) (Some h) (ku_upd c (km_key h)) []"
    using r u st by (simp add: ku_abs_def absorbed_Nil)
  then show "km_abs n k (ku_upd c (km_key h)) []" using k by (auto simp: km_abs_def)
qed

lemma dstu7564_init_block:
  assumes "dstu7564_init (Some c) n = Inr c'"
  shows "ku_last_block c' = replicate 256 0" "ku_msg_tot_len c' = [0, 0]"
  using assms
  by (auto simp: dstu7564_init_def Let_def DO_def CHECK_PARAM_def wr_def SET_ERROR_def split: if_splits sum.splits)

lemma init_kmac_abs:
  assumes n: "n = 32 \<or> n = 48 \<or> n = 64" and key: "wf_ba key" "ba_len key = n" and M: "mem_ok M"
    and c0: "length (ku_state c0) = 128"
  shows "\<exists>c. dstu7564_init_kmac be M (Some c0) (Some key) n = (Inr (), Some c) \<and> km_abs n (data key) c []"
proof -
  define k where "k = data key"
  have lk: "length k = n" using key by (simp add: k_def)
  have n64: "0 < n" "n \<le> 64" using n by auto
  obtain c1 where c1: "dstu7564_init (Some c0) n = Inr c1" "ku_abs n (ku_iv (ku_cols n)) (if ku_is_inited c0 then ku_hmac c0 else None) c1 []"
    using dstu7564_init_abs[OF n64 c0] by blast
  note r = c1(2)[unfolded ku_abs_def ku_ready_def]
  define nb where "nb = 8 * ku_cols n"
  have nb: "nb = 64 \<or> nb = 128" "nb \<le> 128" using ku_cols_cases[of n] by (auto simp: nb_def)
  have fit: "n mod nb = n" "n + 13 \<le> nb" using n by (auto simp: nb_def ku_cols_def)
  define kb where "kb = k @ replicate (128 - n) 0"
  have kb: "ba_to_uint8 (Some key) (Some (km_key km_zero)) (ba_len key) = Inr kb"
    using lk key n by (auto simp: ba_to_uint8_def km_zero_def kb_def k_def wr_def)
  define ik where "ik = map NOT k @ replicate (128 - n) (0 :: u8)"
  have i0: "replicate nb 0 @ drop nb (km_invert_key km_zero) = replicate 128 (0 :: u8)"
    using nb by (auto simp: km_zero_def simp flip: replicate_add)
  have ik: "DO (rd kb 0 (ba_len key)) (\<lambda>xs. wr (replicate nb 0 @ drop nb (km_invert_key km_zero)) 0 (map NOT xs)) = Inr ik"
    unfolding i0 using lk n key by (auto simp: kb_def ik_def)
  have lkb: "length kb = 128" using lk n by (auto simp: kb_def)
  have cnt: "of_nat (ba_len key) # tl (ku_msg_tot_len c1) = ku_counter n"
    using r key n by (auto simp: ku_counter_def)
  define pk where "pk = ku_pad n k @ drop nb kb"
  have z: "(2 * nb - 1 - 12 - n mod nb) mod nb = nb - 13 - n"
    using md_zeros_one[of n nb 12] fit nb by auto
  have pd: "padding kb (ba_len key) (ku_counter n) nb = Inr pk"
  proof -
    have "take (n mod nb) kb = k" "length k = n mod nb" "(if n mod nb + 13 \<le> nb then nb else 2 * nb) \<le> length kb"
      using lk lkb fit nb(2) by (simp_all add: kb_def)
    from padding_eq[OF nb(1) this(3,1,2), unfolded z, unfolded fit(1)]
    have "padding kb n (ku_counter n) nb = Inr (k @ 0x80 # replicate (nb - 13 - n) 0 @ ku_len n @ drop (n + (nb - 13 - n) + 13) kb)" .
    moreover have "n + (nb - 13 - n) + 13 = nb" using fit by simp
    ultimately show ?thesis unfolding pk_def ku_pad_key(2)[OF lk n] nb_def[symmetric] key(2) by (simp only: append_assoc append_Cons)
  qed
  define h where "h = \<lparr>km_key = pk, km_invert_key = ik, km_key_len = n\<rparr>"
  have lpk: "length (ku_pad n k) = nb" using ku_pad_key(1)[OF lk n] by (simp add: nb_def)
  have kh: "km_key_ok n k h"
    using lk lkb lpk nb n by (auto simp: km_key_ok_def h_def pk_def ik_def nb_def[symmetric])
  define c2 where "c2 = c1\<lparr>ku_hmac := Some h\<rparr>"
  have a2: "ku_abs n (ku_iv (ku_cols n)) (Some h) c2 []"
    using c1(2) by (simp add: c2_def ku_abs_def ku_ready_def)
  have lb: "ku_last_block c1 = replicate 256 0" "ku_msg_tot_len c1 = [0, 0]" "ku_nbytes c1 = nb" "ku_hash_nbytes c1 = n"
    using dstu7564_init_block[OF c1(1)] r by (simp_all add: nb_def)
  have w0: "wr (ku_last_block c1) 0 (replicate (ku_nbytes c1) 0) = Inr (ku_last_block c1)"
    unfolding lb using nb by (auto simp flip: replicate_add)
  have c2: "c1\<lparr>ku_msg_tot_len := 0 # tl (ku_msg_tot_len c1),
      ku_hmac := Some (km_zero\<lparr>km_key_len := n, km_invert_key := ik, km_key := pk\<rparr>)\<rparr> = c2"
    using lb by (cases c1) (simp add: c2_def h_def km_zero_def)
  have dg: "dstu7564_digest be c2 pk = Inr (ku_upd c2 pk)" "km_abs n k (ku_upd c2 pk) []"
    using km_start(1)[OF a2 kh, of be] km_start(2)[OF a2 kh] by (simp_all add: h_def)
  have hn: "ku_upd c2 pk\<lparr>ku_hash_nbytes := n\<rparr> = ku_upd c2 pk"
    using lb(4) by (cases c1) (simp add: c2_def ku_upd_def)
  have m: "malloc_ok M sizeof_Dstu7564Hmac" using M by (simp add: mem_ok_def sizeof_Dstu7564Hmac_def)
  have "dstu7564_init_kmac be M (Some c0) (Some key) n = (Inr (), Some (ku_upd c2 pk))"
  proof -
    have chk: "CHECK_PARAM (n = 32 \<or> n = 48 \<or> n = 64) (CHECK_PARAM (ba_len key = n) (Inr ())) = Inr ()"
      using n key(2) by auto
    have cal: "CALLOC_CHECKED M sizeof_Dstu7564Hmac (Inr km_zero) = Inr km_zero" using m by (simp add: CALLOC_CHECKED_def)
    note f = kb[unfolded key(2)] ik[unfolded key(2)] cnt[unfolded key(2)] pd[unfolded key(2)]
      w0[unfolded lb(3)] lb(3) key(2) c2 dg(1) hn
    show ?thesis
      unfolding dstu7564_init_kmac_def NOT_NULL_simps DO_ST_simps chk c1(1) Let_def cal
      by (simp add: f)
  qed
  then show ?thesis using dg(2) unfolding k_def by blast
qed

lemma update_kmac_abs:
  assumes "km_abs n k c m" "wf_ba x" "ba_len x < 2 ^ 63"
  shows "\<exists>c'. dstu7564_update_kmac be (Some c) (Some x) = Inr c' \<and> km_abs n k c' (m @ data x)"
proof -
  obtain h where h: "ku_abs n (km_iv n k) (Some h) c m" "km_key_ok n k h" using assms(1) by (auto simp: km_abs_def)
  then have "ku_is_inited c" by (simp add: ku_abs_def ku_ready_def)
  then show ?thesis using dstu7564_update_abs[OF h(1) assms(2,3), of be] h(2)
    by (auto simp: dstu7564_update_kmac_def km_abs_def)
qed

text \<open>The blocks of padded key, padded message and complemented key.\<close>

lemma kmac_blocks:
  fixes m :: "u8 list"
  assumes k: "length k = n" and n: "n = 32 \<or> n = 48 \<or> n = 64"
  defines "nb \<equiv> 8 * ku_cols n" and "x \<equiv> ku_pad n k @ ku_pad n m @ map NOT k"
  shows "length x mod nb = n"
    "chunks nb (ku_pad n x) = ku_pad n k # chunks nb (ku_pad n m)
       @ [map NOT k @ 0x80 # replicate (nb - 13 - n) 0 @ ku_len (length x)]"
proof -
  have fit: "n < nb" "n + 13 \<le> nb" "0 < nb" using n by (auto simp: nb_def ku_cols_def)
  have lk: "length (ku_pad n k) = nb" using ku_pad_key(1)[OF k n] by (simp add: nb_def)
  have dm: "nb dvd length (ku_pad n m)" unfolding nb_def by (rule length_ku_pad(2))
  then show lx: "length x mod nb = n" using lk fit k by (auto simp: x_def elim!: dvdE)
  have c: "chunks nb (ku_pad n k @ ku_pad n m @ r) = ku_pad n k # chunks nb (ku_pad n m) @ chunks nb r" for r
    using chunks_block[OF lk fit(3)] chunks_append[OF dm fit(3)] by simp
  have t: "tail_of nb x = map NOT k"
  proof -
    have "tail_of nb (ku_pad n k @ ku_pad n m @ map NOT k) = tail_of nb (map NOT k)"
      using chunks_tail_append(2)[OF fit(3), of "ku_pad n k" "ku_pad n m @ map NOT k"]
        chunks_tail_append(2)[OF fit(3), of "ku_pad n m" "map NOT k"] mod_0_tail_of[OF dm] mod_0_tail_of[of nb "ku_pad n k"] lk
      by simp
    then show ?thesis unfolding x_def using tail_of_short[of "map NOT k" nb] fit k by simp
  qed
  have "chunks nb x = ku_pad n k # chunks nb (ku_pad n m)"
    unfolding x_def c using chunks_short[of "map NOT k" nb] fit k by simp
  then show "chunks nb (ku_pad n x) = ku_pad n k # chunks nb (ku_pad n m)
       @ [map NOT k @ 0x80 # replicate (nb - 13 - n) 0 @ ku_len (length x)]"
    unfolding ku_pad_def[of n x] nb_def[symmetric]
    using md_pad_one[of x nb "ku_len (length x)"] lx t fit by simp
qed

text \<open>The padded message, and the length counted so far.\<close>

lemma kmac_message:
  assumes a: "ku_abs n iv hm c m"
  defines "nb \<equiv> 8 * ku_cols n"
  obtains b c1 c2 where "padding (ku_last_block c) (ku_last_block_el c) (ku_msg_tot_len c) (ku_nbytes c) = Inr b" "length b = 256"
    "dstu7564_digest be (c\<lparr>ku_last_block := b\<rparr>) b = Inr c1" "ku_nbytes c1 = nb"
    "(let n = of_nat (ku_nbytes c1); l = count_bytes (ku_msg_tot_len c1) (n - of_nat (ku_last_block_el c1))
      in if ku_last_block_el c1 > sz_sub (ku_nbytes c1) 13
         then DO (dstu7564_digest be c1 (drop (ku_nbytes c1) b)) (\<lambda>c. Inr (c, count_bytes l n)) else Inr (c1, l))
       = Inr (c2, ku_counter (length (ku_pad n m)))"
    "ku_ready n hm c2" "take nb (ku_state c2) = foldl (ku_step (ku_cols n)) iv (chunks nb (ku_pad n m))"
proof -
  obtain b where p: "padding (ku_last_block c) (ku_last_block_el c) (ku_msg_tot_len c) (ku_nbytes c) = Inr b" "length b = 256"
    "chunks nb (ku_pad n m) = chunks nb m @ take nb b # (if length m mod nb > nb - 13 then [take nb (drop nb b)] else [])"
    using ku_pad_blocks[OF a] by (auto simp: nb_def)
  have nb: "nb \<le> 128" "13 \<le> nb" "0 < nb" using ku_cols_cases[of n] by (auto simp: nb_def)
  note r = a[unfolded ku_abs_def, folded nb_def]
  have rb: "ku_ready n hm (c\<lparr>ku_last_block := b\<rparr>)" using r p(2) by (simp add: ku_ready_def)
  have l: "8 * ku_cols n \<le> length b" "8 * ku_cols n \<le> length (drop nb b)" using nb p(2) by (simp_all add: nb_def)
  define c1 where "c1 = ku_upd (c\<lparr>ku_last_block := b\<rparr>) b"
  note u = ku_upd_ready[OF rb l(1), folded c1_def nb_def]
  note v = ku_upd_ready[OF u(2) l(2), folded nb_def]
  have st: "take nb (ku_state c) = foldl (ku_step (ku_cols n)) iv (chunks nb m)" using r by (simp add: absorbed_def)
  define el where "el = length m mod nb"
  have el: "ku_last_block_el c1 = el" "el < nb" "el \<le> length m" using u(4) r nb by (simp_all add: el_def)
  have nbc: "ku_nbytes c1 = nb" using u(2) by (simp add: ku_ready_def nb_def)
  have sub: "sz_sub nb 13 = nb - 13" using nb by (simp add: sz_sub_def)
  have df: "of_nat nb - of_nat el = (of_nat (nb - el) :: u64)" using el by (simp add: of_nat_diff)
  have t1: "count_bytes (ku_msg_tot_len c1) (of_nat nb - of_nat el) = ku_counter (length m + (nb - el))"
    unfolding df u(5) using r nb by (simp add: count_bytes_eq)
  have t2: "count_bytes (ku_counter (length m + (nb - el))) (of_nat nb) = ku_counter (length m + (nb - el) + nb)"
    using nb by (intro count_bytes_eq) simp
  have len: "length (ku_pad n m) = length m - el + (if el > nb - 13 then 2 else 1) * nb"
    using length_ku_pad(1)[of n m] by (simp add: nb_def el_def)
  show ?thesis
  proof (cases "el > nb - 13")
    case True
    have "length m + (nb - el) + nb = length (ku_pad n m)" using True el len by simp
    then show ?thesis using True v(1-3) u(3) p(3) st t1 t2
      by (intro that[OF p(1,2) u(1) nbc, of "ku_upd c1 (drop nb b)"]) (simp_all add: nbc el(1) sub Let_def flip: el_def)
  next
    case False
    have "length m + (nb - el) = length (ku_pad n m)" using False el len by simp
    then show ?thesis using False u(2,3) p(3) st t1
      by (intro that[OF p(1,2) u(1) nbc, of c1]) (simp_all add: nbc el(1) sub Let_def flip: el_def)
  qed
qed

lemma final_kmac_abs:
  assumes a: "km_abs n k c m" and k: "length k = n" and n: "n = 32 \<or> n = 48 \<or> n = 64" and M: "mem_ok M"
  shows "\<exists>c'. dstu7564_final_kmac be M (Some c) = (Inr (mk_ba (kupyna_kmac n k m)), Some c') \<and> km_abs n k c' []"
proof -
  define nb where "nb = 8 * ku_cols n"
  have nb: "nb = 64 \<or> nb = 128" "nb \<le> 128" using ku_cols_cases[of n] by (auto simp: nb_def)
  have fit: "n + 13 \<le> nb" "0 < n" "n \<le> 64" using n by (auto simp: nb_def ku_cols_def)
  obtain h where h: "ku_abs n (km_iv n k) (Some h) c m" "km_key_ok n k h" using a by (auto simp: km_abs_def)
  note hk = h(2)[unfolded km_key_ok_def]
  define x where "x = ku_pad n k @ ku_pad n m @ map NOT k"
  obtain b c1 c2 where p: "padding (ku_last_block c) (ku_last_block_el c) (ku_msg_tot_len c) (ku_nbytes c) = Inr b" "length b = 256"
    and d1: "dstu7564_digest be (c\<lparr>ku_last_block := b\<rparr>) b = Inr c1" "ku_nbytes c1 = nb"
    and e: "(let n = of_nat (ku_nbytes c1); l = count_bytes (ku_msg_tot_len c1) (n - of_nat (ku_last_block_el c1))
      in if ku_last_block_el c1 > sz_sub (ku_nbytes c1) 13
         then DO (dstu7564_digest be c1 (drop (ku_nbytes c1) b)) (\<lambda>c. Inr (c, count_bytes l n)) else Inr (c1, l))
       = Inr (c2, ku_counter (length (ku_pad n m)))"
    and r2: "ku_ready n (Some h) c2" "take nb (ku_state c2) = foldl (ku_step (ku_cols n)) (km_iv n k) (chunks nb (ku_pad n m))"
    by (rule kmac_message[OF h(1), of be, folded nb_def])
  define b1 where "b1 = map NOT k @ drop n (replicate nb 0 @ drop nb b)"
  have w: "wr b 0 (replicate nb 0) = Inr (replicate nb 0 @ drop nb b)" using p(2) nb by simp
  have w1: "DO (rd (km_invert_key h) 0 (km_key_len h)) (wr (replicate nb 0 @ drop nb b) 0) = Inr b1"
    using hk p(2) nb fit k by (simp add: b1_def)
  have len: "length (ku_pad n m) + (nb + n) = length x"
    using ku_pad_key(1)[OF k n] k by (simp add: x_def nb_def)
  have cnt: "count_bytes (ku_counter (length (ku_pad n m))) (of_nat nb + of_nat (km_key_len h)) = ku_counter (length x)"
    unfolding len[symmetric] using hk fit nb count_bytes_eq[of "nb + n" "length (ku_pad n m)"] by simp
  define last where "last = map NOT k @ 0x80 # replicate (nb - 13 - n) 0 @ ku_len (length x)"
  have lx: "length x mod nb = n" using kmac_blocks(1)[OF k n, of m] by (simp add: x_def nb_def)
  have z: "(2 * nb - 1 - 12 - length x mod nb) mod nb = nb - 13 - n"
    using md_zeros_one[of "length x" nb 12] lx fit nb by auto
  obtain rest where pd: "padding b1 (km_key_len h) (ku_counter (length x)) nb = Inr (last @ rest)" "length (last @ rest) = 256"
  proof -
    have "take (length x mod nb) b1 = map NOT k" "length (map NOT k) = length x mod nb"
      "(if length x mod nb + 13 \<le> nb then nb else 2 * nb) \<le> length b1"
      using lx k fit nb p(2) by (simp_all add: b1_def)
    from padding_eq[OF nb(1) this(3,1,2), unfolded z, unfolded lx]
    have "padding b1 n (ku_counter (length x)) nb = Inr (last @ drop (n + (nb - 13 - n) + 13) b1)" unfolding last_def by simp
    moreover have "length (last @ drop (n + (nb - 13 - n) + 13) b1) = 256"
      using k fit nb p(2) by (simp add: last_def b1_def)
    ultimately show ?thesis using hk that by auto
  qed
  have ll: "length last = nb" using k fit by (simp add: last_def)
  define c3 where "c3 = c2\<lparr>ku_last_block := last @ rest, ku_last_block_el := 0, ku_msg_tot_len := ku_counter (length x)\<rparr>"
  have r3: "ku_ready n (Some h) c3" "ku_state c3 = ku_state c2" using r2(1) pd(2) by (simp_all add: c3_def ku_ready_def)
  have l3: "8 * ku_cols n \<le> length (last @ rest)" using ll by (simp add: nb_def)
  note u = ku_upd_ready[OF r3(1) l3, folded nb_def]
  define c4 where "c4 = ku_upd c3 (last @ rest)"
  have core: "take nb (ku_state c4) = kupyna_core n (ku_pad n x)"
    using u(3) r2(2) r3(2) ll
    unfolding c4_def kupyna_core_def kmac_blocks(2)[OF k n, of m, folded x_def, folded nb_def, folded last_def] nb_def[symmetric]
    by (simp add: km_iv_def)
  obtain c5 where c5: "output_transformation be M c4 = (Inr (mk_ba (ku_out n (take nb (ku_state c4)))), c5)"
    "ku_abs n (ku_iv (ku_cols n)) (Some h) c5 []"
    using output_transformation_eq[OF u(2)[folded c4_def] fit(2,3) M, of be] unfolding nb_def by blast
  have out: "ku_out n (take nb (ku_state c4)) = kupyna_kmac n k m" by (simp add: core kupyna_kmac_def kupyna_def x_def)
  have f: "ku_is_inited c" "ku_nbytes c2 = nb" "ku_hmac c2 = Some h"
    using h(1) r2(1) by (simp_all add: ku_abs_def ku_ready_def nb_def)
  have "dstu7564_final_kmac be M (Some c) = (Inr (mk_ba (kupyna_kmac n k m)), Some (ku_upd c5 (km_key h)))"
    unfolding dstu7564_final_kmac_def NOT_NULL_simps DO_ST_simps if_False p(1) DO_simps d1 Let_def not_True_eq_False
      e[unfolded Let_def d1(2)] prod.case w f(2,3) option.case w1 cnt pd(1) c3_def[symmetric] u(1)[folded c4_def] c5(1) out km_start(1)[OF c5(2) h(2)]
    by (simp add: f(1))
  then show ?thesis using km_start(2)[OF c5(2) h(2)] by blast
qed

text \<open>The interface of authentication codes: the next message needs no reset.\<close>

definition kmac_holds :: "nat \<Rightarrow> u8 list \<Rightarrow> Dstu7564Ctx \<Rightarrow> u8 list \<Rightarrow> bool" where
  "kmac_holds n k c m \<longleftrightarrow> km_abs n k c m \<and> length k = n \<and> (n = 32 \<or> n = 48 \<or> n = 64)"

interpretation kmac: mac_alg "\<lambda>c a. dstu7564_update_kmac be (Some c) (Some a)" "kmac_holds n k" "2 ^ 63 - 1"
    "\<lambda>M c. map_prod id the (dstu7564_final_kmac be M (Some c))" Inr "\<lambda>c. kmac_holds n k c []" "kupyna_kmac n k"
  for be n k
proof unfold_locales
  show "\<exists>c'. dstu7564_update_kmac be (Some c) (Some a) = Inr c' \<and> kmac_holds n k c' (m @ data a)"
    if "kmac_holds n k c m" "wf_ba a" "ba_len a \<le> 2 ^ 63 - 1" for c m a
    using update_kmac_abs[of n k c m a be] that by (auto simp: kmac_holds_def)
  show "\<exists>c'. map_prod id the (dstu7564_final_kmac be M (Some c)) = (Inr (mk_ba (kupyna_kmac n k m)), c') \<and> kmac_holds n k c' []"
    if "kmac_holds n k c m" "mem_ok M" for c m M
    using final_kmac_abs[of n k c m M be] that by (auto simp: kmac_holds_def)
qed simp

subsection \<open>Properties\<close>

text \<open>(C35) The authentication code of DSTU 7564 with a key as long as the code: after \<^verbatim>\<open>dstu7564_init_kmac\<close> and
  any fragments \<^verbatim>\<open>dstu7564_final_kmac\<close> returns the hash of the padded key, the padded message and the
  complemented key, although it pads and counts piece by piece, and leaves the context ready for the next
  message under the same key, for which the same holds.\<close>

theorem dstu7564_kmac:
  fixes be :: bool
  assumes "n = 32 \<or> n = 48 \<or> n = 64" and "mem_ok M" and "wf_ba key" "ba_len key = n"
    and "\<forall>a \<in> set frs \<union> set frs'. wf_ba a \<and> ba_len a < 2 ^ 63"
  defines "upd \<equiv> \<lambda>c a. dstu7564_update_kmac be (Some c) (Some a)"
  shows "\<exists>z s c s' c' s''. dstu7564_alloc M = Inr (Some z) \<and> dstu7564_init_kmac be M (Some z) (Some key) n = (Inr (), Some s)
     \<and> feed upd s frs = Inr c
     \<and> dstu7564_final_kmac be M (Some c) = (Inr (mk_ba (kupyna_kmac n (data key) (concat (map data frs)))), Some s')
     \<and> feed upd s' frs' = Inr c'
     \<and> dstu7564_final_kmac be M (Some c') = (Inr (mk_ba (kupyna_kmac n (data key) (concat (map data frs')))), Some s'')"
proof -
  have m: "malloc_ok M sizeof_Dstu7564Ctx" using assms(2) by (simp add: mem_ok_def sizeof_Dstu7564Ctx_def)
  have z: "dstu7564_alloc M = Inr (Some ku_zero)" using m by (simp add: dstu7564_alloc_def CALLOC_CHECKED_def)
  have k: "length (data key) = n" using assms(3,4) by simp
  have one: "\<exists>c s'. feed upd s fs = Inr c \<and> km_abs n (data key) s' []
      \<and> dstu7564_final_kmac be M (Some c) = (Inr (mk_ba (kupyna_kmac n (data key) (concat (map data fs)))), Some s')"
    if "km_abs n (data key) s []" "\<forall>a \<in> set fs. wf_ba a \<and> ba_len a < 2 ^ 63" for s fs
  proof -
    have "\<forall>a \<in> set fs. wf_ba a \<and> ba_len a \<le> 2 ^ 63 - 1" using that(2) by fastforce
    moreover have "kmac_holds n (data key) s []" using that(1) k assms(1) by (simp add: kmac_holds_def)
    ultimately obtain c where "feed upd s fs = Inr c" "km_abs n (data key) c (concat (map data fs))"
      using kmac.absorbs_all[of n "data key" s "[]" fs be] by (auto simp: upd_def kmac_holds_def)
    then show ?thesis using final_kmac_abs[OF _ k assms(1,2), of c _ be] by blast
  qed
  obtain s where s: "dstu7564_init_kmac be M (Some ku_zero) (Some key) n = (Inr (), Some s)" "km_abs n (data key) s []"
    using init_kmac_abs[OF assms(1,3,4,2), of ku_zero be] by (auto simp: ku_zero_def)
  obtain c s' where c: "feed upd s frs = Inr c" "km_abs n (data key) s' []"
      "dstu7564_final_kmac be M (Some c) = (Inr (mk_ba (kupyna_kmac n (data key) (concat (map data frs)))), Some s')"
    using one[OF s(2), of frs] assms(5) by auto
  obtain c' s'' where "feed upd s' frs' = Inr c'"
      "dstu7564_final_kmac be M (Some c') = (Inr (mk_ba (kupyna_kmac n (data key) (concat (map data frs')))), Some s'')"
    using one[OF c(2), of frs'] assms(5) by auto
  then show ?thesis using z s(1) c by blast
qed

lemma dstu7564_kmac_witness:
  "\<exists>z s c s' c' s''. dstu7564_alloc ideal_mem = Inr (Some z)
     \<and> dstu7564_init_kmac False ideal_mem (Some z) (Some (mk_ba (replicate 32 7))) 32 = (Inr (), Some s)
     \<and> feed (\<lambda>c a. dstu7564_update_kmac False (Some c) (Some a)) s [mk_ba [1, 2], mk_ba [3]] = Inr c
     \<and> dstu7564_final_kmac False ideal_mem (Some c) = (Inr (mk_ba (kupyna_kmac 32 (replicate 32 7) [1, 2, 3])), Some s')
     \<and> feed (\<lambda>c a. dstu7564_update_kmac False (Some c) (Some a)) s' [mk_ba [4]] = Inr c'
     \<and> dstu7564_final_kmac False ideal_mem (Some c') = (Inr (mk_ba (kupyna_kmac 32 (replicate 32 7) [4])), Some s'')"
  using dstu7564_kmac[of 32 ideal_mem "mk_ba (replicate 32 7)" "[mk_ba [1, 2], mk_ba [3]]" "[mk_ba [4]]" False] by simp

end
