(* ===== verification/HashApi.thy ===== *)
theory HashApi
  imports Md5 Sha1 Sha2 Sm3 Ripemd GostHash Sha3 Whirlpool StreebogHash KupynaMac
begin

text \<open>
  \<^verbatim>\<open>hash.c\<close>: one interface for all hash functions. The pointer to the context of a hash function together with
  the pointers to its operations is a value of a sum type.
\<close>

subsection \<open>The contexts\<close>

datatype HashAlg =
    HASH_ALG_UNDEFINED
  | HASH_ALG_DSTU7564_256 | HASH_ALG_DSTU7564_384 | HASH_ALG_DSTU7564_512
  | HASH_ALG_GOST34311
  | HASH_ALG_SHA1 | HASH_ALG_SHA224 | HASH_ALG_SHA256 | HASH_ALG_SHA384 | HASH_ALG_SHA512
  | HASH_ALG_SHA3_224 | HASH_ALG_SHA3_256 | HASH_ALG_SHA3_384 | HASH_ALG_SHA3_512
  | HASH_ALG_WHIRLPOOL | HASH_ALG_SM3
  | HASH_ALG_GOSTR3411_2012_256 | HASH_ALG_GOSTR3411_2012_512
  | HASH_ALG_RIPEMD128 | HASH_ALG_RIPEMD160 | HASH_ALG_MD5

datatype HashState =
    Dstu7564State Dstu7564Ctx | Gost34311State Gost34311Ctx | Sha1State Sha1Ctx | Sha2State Sha2Ctx
  | Sha3State Sha3Ctx | WhirlpoolState WhirlpoolCtx | Sm3State Sm3Ctx | GostR3411State GostR3411Ctx
  | RipemdState RipemdCtx | Md5State Md5Ctx

record HashCtx =
  hc_ctx :: HashState
  hc_alg :: HashAlg

definition sizeof_HashCtx :: nat where "sizeof_HashCtx = 56"

text \<open>The operations behind the function pointers.\<close>

definition state_update :: "bool \<Rightarrow> HashState \<Rightarrow> ByteArray option \<Rightarrow> HashState res" where
  "state_update be s msg = (case s of
     Dstu7564State c \<Rightarrow> map_sum id Dstu7564State (dstu7564_update be (Some c) msg)
   | Gost34311State c \<Rightarrow> map_sum id Gost34311State (gost34311_update be (Some c) msg)
   | Sha1State c \<Rightarrow> map_sum id Sha1State (sha1_update be (Some c) msg)
   | Sha2State c \<Rightarrow> map_sum id Sha2State (sha2_update (Some c) msg)
   | Sha3State c \<Rightarrow> map_sum id Sha3State (sha3_update (Some c) msg)
   | WhirlpoolState c \<Rightarrow> map_sum id WhirlpoolState (whirlpool_update (Some c) msg)
   | Sm3State c \<Rightarrow> map_sum id Sm3State (sm3_update (Some c) msg)
   | GostR3411State c \<Rightarrow> map_sum id GostR3411State (gostr3411_update (Some c) msg)
   | RipemdState c \<Rightarrow> map_sum id RipemdState (ripemd_update be (Some c) msg)
   | Md5State c \<Rightarrow> map_sum id Md5State (md5_update (Some c) msg))"

definition after :: "HashState \<Rightarrow> ('c \<Rightarrow> HashState) \<Rightarrow> ByteArray res \<times> 'c option \<Rightarrow> ByteArray res \<times> HashState" where
  "after s f = map_prod id (case_option s f)"

definition state_final :: "bool \<Rightarrow> mem \<Rightarrow> HashState \<Rightarrow> ByteArray res \<times> HashState" where
  "state_final be M s = (case s of
     Dstu7564State c \<Rightarrow> after s Dstu7564State (dstu7564_final be M (Some c))
   | Gost34311State c \<Rightarrow> after s Gost34311State (gost34311_final be M (Some c))
   | Sha1State c \<Rightarrow> after s Sha1State (sha1_final be M (Some c))
   | Sha2State c \<Rightarrow> after s Sha2State (sha2_final M (Some c))
   | Sha3State c \<Rightarrow> after s Sha3State (sha3_final M (Some c))
   | WhirlpoolState c \<Rightarrow> after s WhirlpoolState (whirlpool_final M (Some c))
   | Sm3State c \<Rightarrow> after s Sm3State (sm3_final M (Some c))
   | GostR3411State c \<Rightarrow> after s GostR3411State (gostr3411_final M (Some c))
   | RipemdState c \<Rightarrow> after s RipemdState (ripemd_final M (Some c))
   | Md5State c \<Rightarrow> after s Md5State (md5_final M (Some c)))"

definition state_block_size :: "HashState \<Rightarrow> nat" where
  "state_block_size s = (case s of
     Dstu7564State c \<Rightarrow> dstu7564_get_block_size (Some c)
   | Gost34311State c \<Rightarrow> gost34311_get_block_size (Some c)
   | Sha1State c \<Rightarrow> sha1_get_block_size (Some c)
   | Sha2State c \<Rightarrow> sha2_get_block_size (Some c)
   | Sha3State c \<Rightarrow> sha3_get_block_size (Some c)
   | WhirlpoolState c \<Rightarrow> whirlpool_get_block_size (Some c)
   | Sm3State c \<Rightarrow> sm3_get_block_size (Some c)
   | GostR3411State c \<Rightarrow> gostr3411_get_block_size (Some c)
   | RipemdState c \<Rightarrow> ripemd_get_block_size (Some c)
   | Md5State c \<Rightarrow> md5_get_block_size (Some c))"

text \<open>The allocation of the context of one hash function.\<close>

definition alloc_state :: "mem \<Rightarrow> HashAlg \<Rightarrow> HashState res" where
  "alloc_state M alg = (case alg of
     HASH_ALG_UNDEFINED \<Rightarrow> SET_ERROR RET_UNSUPPORTED
   | HASH_ALG_DSTU7564_256 \<Rightarrow> CHECK_NOT_NULL (dstu7564_alloc M) (\<lambda>c. map_sum id Dstu7564State (dstu7564_init (Some c) 32))
   | HASH_ALG_DSTU7564_384 \<Rightarrow> CHECK_NOT_NULL (dstu7564_alloc M) (\<lambda>c. map_sum id Dstu7564State (dstu7564_init (Some c) 48))
   | HASH_ALG_DSTU7564_512 \<Rightarrow> CHECK_NOT_NULL (dstu7564_alloc M) (\<lambda>c. map_sum id Dstu7564State (dstu7564_init (Some c) 64))
   | HASH_ALG_GOST34311 \<Rightarrow> CHECK_NOT_NULL (gost34311_alloc M 1 None) (\<lambda>c. Inr (Gost34311State c))
   | HASH_ALG_SHA1 \<Rightarrow> CHECK_NOT_NULL (sha1_alloc M) (\<lambda>c. Inr (Sha1State c))
   | HASH_ALG_SHA224 \<Rightarrow> CHECK_NOT_NULL (sha2_alloc M SHA2_VARIANT_224) (\<lambda>c. Inr (Sha2State c))
   | HASH_ALG_SHA256 \<Rightarrow> CHECK_NOT_NULL (sha2_alloc M SHA2_VARIANT_256) (\<lambda>c. Inr (Sha2State c))
   | HASH_ALG_SHA384 \<Rightarrow> CHECK_NOT_NULL (sha2_alloc M SHA2_VARIANT_384) (\<lambda>c. Inr (Sha2State c))
   | HASH_ALG_SHA512 \<Rightarrow> CHECK_NOT_NULL (sha2_alloc M SHA2_VARIANT_512) (\<lambda>c. Inr (Sha2State c))
   | HASH_ALG_SHA3_224 \<Rightarrow> CHECK_NOT_NULL (sha3_alloc M 0) (\<lambda>c. Inr (Sha3State c))
   | HASH_ALG_SHA3_256 \<Rightarrow> CHECK_NOT_NULL (sha3_alloc M 1) (\<lambda>c. Inr (Sha3State c))
   | HASH_ALG_SHA3_384 \<Rightarrow> CHECK_NOT_NULL (sha3_alloc M 2) (\<lambda>c. Inr (Sha3State c))
   | HASH_ALG_SHA3_512 \<Rightarrow> CHECK_NOT_NULL (sha3_alloc M 3) (\<lambda>c. Inr (Sha3State c))
   | HASH_ALG_WHIRLPOOL \<Rightarrow> CHECK_NOT_NULL (whirlpool_alloc M) (\<lambda>c. Inr (WhirlpoolState c))
   | HASH_ALG_SM3 \<Rightarrow> CHECK_NOT_NULL (sm3_alloc M) (\<lambda>c. Inr (Sm3State c))
   | HASH_ALG_GOSTR3411_2012_256 \<Rightarrow> CHECK_NOT_NULL (gostr3411_alloc M GOSTR3411_2012_VARIANT_256) (\<lambda>c. Inr (GostR3411State c))
   | HASH_ALG_GOSTR3411_2012_512 \<Rightarrow> CHECK_NOT_NULL (gostr3411_alloc M GOSTR3411_2012_VARIANT_512) (\<lambda>c. Inr (GostR3411State c))
   | HASH_ALG_RIPEMD128 \<Rightarrow> CHECK_NOT_NULL (ripemd_alloc M RIPEMD_VARIANT_128) (\<lambda>c. Inr (RipemdState c))
   | HASH_ALG_RIPEMD160 \<Rightarrow> CHECK_NOT_NULL (ripemd_alloc M RIPEMD_VARIANT_160) (\<lambda>c. Inr (RipemdState c))
   | HASH_ALG_MD5 \<Rightarrow> CHECK_NOT_NULL (md5_alloc M) (\<lambda>c. Inr (Md5State c)))"

definition hash_alloc :: "mem \<Rightarrow> HashAlg \<Rightarrow> HashCtx option res" where
  "hash_alloc M alg = to_ptr (MALLOC_CHECKED M sizeof_HashCtx (\<lambda>_.
     DO (alloc_state M alg) (\<lambda>s. Inr \<lparr>hc_ctx = s, hc_alg = alg\<rparr>)))"

definition hash_alloc_gost34311_with_sbox_id :: "mem \<Rightarrow> nat \<Rightarrow> HashCtx option res" where
  "hash_alloc_gost34311_with_sbox_id M sbox_id = to_ptr (MALLOC_CHECKED M sizeof_HashCtx (\<lambda>_.
     CHECK_NOT_NULL (gost34311_alloc M sbox_id None) (\<lambda>c.
     Inr \<lparr>hc_ctx = Gost34311State c, hc_alg = HASH_ALG_GOST34311\<rparr>)))"

definition hash_alloc_gost34311_with_sbox :: "mem \<Rightarrow> ByteArray option \<Rightarrow> HashCtx option res" where
  "hash_alloc_gost34311_with_sbox M sbox = to_ptr (MALLOC_CHECKED M sizeof_HashCtx (\<lambda>_.
     CHECK_NOT_NULL (gost34311_alloc_user_sbox M sbox None) (\<lambda>c.
     Inr \<lparr>hc_ctx = Gost34311State c, hc_alg = HASH_ALG_GOST34311\<rparr>)))"

definition hash_update :: "bool \<Rightarrow> HashCtx option \<Rightarrow> ByteArray option \<Rightarrow> HashCtx res" where
  "hash_update be ctx msg = NOT_NULL ctx (\<lambda>c. DO (state_update be (hc_ctx c) msg) (\<lambda>s. Inr (c\<lparr>hc_ctx := s\<rparr>)))"

definition hash_final :: "bool \<Rightarrow> mem \<Rightarrow> HashCtx option \<Rightarrow> ByteArray res \<times> HashCtx option" where
  "hash_final be M ctx = DO_ST (NOT_NULL ctx Inr) ctx (\<lambda>c.
     map_prod id (\<lambda>s. Some (c\<lparr>hc_ctx := s\<rparr>)) (state_final be M (hc_ctx c)))"

definition hash_get_block_size :: "HashCtx option \<Rightarrow> nat" where
  "hash_get_block_size ctx = (case ctx of Some c \<Rightarrow> state_block_size (hc_ctx c) | None \<Rightarrow> 0)"

definition hash :: "bool \<Rightarrow> mem \<Rightarrow> HashAlg \<Rightarrow> ByteArray option \<Rightarrow> ByteArray res" where
  "hash be M alg msg = NOT_NULL msg (\<lambda>a. CHECK_NOT_NULL (hash_alloc M alg) (\<lambda>c.
     DO (state_update be (hc_ctx c) (Some a)) (\<lambda>s. fst (state_final be M s))))"

definition hash_get_size :: "HashAlg \<Rightarrow> nat" where
  "hash_get_size alg = (case alg of
     HASH_ALG_DSTU7564_256 \<Rightarrow> 32 | HASH_ALG_GOST34311 \<Rightarrow> 32 | HASH_ALG_SHA256 \<Rightarrow> 32 | HASH_ALG_SHA3_256 \<Rightarrow> 32
   | HASH_ALG_SM3 \<Rightarrow> 32 | HASH_ALG_GOSTR3411_2012_256 \<Rightarrow> 32
   | HASH_ALG_DSTU7564_384 \<Rightarrow> 48 | HASH_ALG_SHA384 \<Rightarrow> 48 | HASH_ALG_SHA3_384 \<Rightarrow> 48
   | HASH_ALG_DSTU7564_512 \<Rightarrow> 64 | HASH_ALG_SHA512 \<Rightarrow> 64 | HASH_ALG_SHA3_512 \<Rightarrow> 64 | HASH_ALG_WHIRLPOOL \<Rightarrow> 64
   | HASH_ALG_GOSTR3411_2012_512 \<Rightarrow> 64
   | HASH_ALG_SHA1 \<Rightarrow> 20 | HASH_ALG_RIPEMD160 \<Rightarrow> 20
   | HASH_ALG_SHA224 \<Rightarrow> 28 | HASH_ALG_SHA3_224 \<Rightarrow> 28
   | HASH_ALG_RIPEMD128 \<Rightarrow> 16 | HASH_ALG_MD5 \<Rightarrow> 16
   | HASH_ALG_UNDEFINED \<Rightarrow> 0)"

subsection \<open>What a context holds\<close>

definition hash_digest :: "HashAlg \<Rightarrow> u8 list \<Rightarrow> u8 list" where
  "hash_digest alg = (case alg of
     HASH_ALG_DSTU7564_256 \<Rightarrow> kupyna 32 | HASH_ALG_DSTU7564_384 \<Rightarrow> kupyna 48 | HASH_ALG_DSTU7564_512 \<Rightarrow> kupyna 64
   | HASH_ALG_GOST34311 \<Rightarrow> gost34311 (expand_sbox (gost_sboxes ! 1)) (replicate 32 0)
   | HASH_ALG_SHA1 \<Rightarrow> sha1 | HASH_ALG_SHA224 \<Rightarrow> sha2 0 | HASH_ALG_SHA256 \<Rightarrow> sha2 1 | HASH_ALG_SHA384 \<Rightarrow> sha2 2
   | HASH_ALG_SHA512 \<Rightarrow> sha2 3 | HASH_ALG_SHA3_224 \<Rightarrow> sha3 0 | HASH_ALG_SHA3_256 \<Rightarrow> sha3 1 | HASH_ALG_SHA3_384 \<Rightarrow> sha3 2
   | HASH_ALG_SHA3_512 \<Rightarrow> sha3 3 | HASH_ALG_WHIRLPOOL \<Rightarrow> whirlpool | HASH_ALG_SM3 \<Rightarrow> sm3
   | HASH_ALG_GOSTR3411_2012_256 \<Rightarrow> gostr3411 0 | HASH_ALG_GOSTR3411_2012_512 \<Rightarrow> gostr3411 1
   | HASH_ALG_RIPEMD128 \<Rightarrow> ripemd Compress128 | HASH_ALG_RIPEMD160 \<Rightarrow> ripemd Compress160 | HASH_ALG_MD5 \<Rightarrow> md5
   | HASH_ALG_UNDEFINED \<Rightarrow> (\<lambda>_. []))"

definition state_holds :: "HashAlg \<Rightarrow> HashState \<Rightarrow> u8 list \<Rightarrow> bool" where
  "state_holds alg s m = (case alg of
     HASH_ALG_UNDEFINED \<Rightarrow> False
   | HASH_ALG_DSTU7564_256 \<Rightarrow> (\<exists>c. s = Dstu7564State c \<and> ku_holds 32 c m)
   | HASH_ALG_DSTU7564_384 \<Rightarrow> (\<exists>c. s = Dstu7564State c \<and> ku_holds 48 c m)
   | HASH_ALG_DSTU7564_512 \<Rightarrow> (\<exists>c. s = Dstu7564State c \<and> ku_holds 64 c m)
   | HASH_ALG_GOST34311 \<Rightarrow> (\<exists>c g. s = Gost34311State c \<and> gost_sbox g = expand_sbox (gost_sboxes ! 1)
        \<and> g311_holds g (replicate 32 0) c m)
   | HASH_ALG_SHA1 \<Rightarrow> (\<exists>c. s = Sha1State c \<and> sha1_holds c m)
   | HASH_ALG_SHA224 \<Rightarrow> (\<exists>c. s = Sha2State c \<and> sha2_holds 0 c m)
   | HASH_ALG_SHA256 \<Rightarrow> (\<exists>c. s = Sha2State c \<and> sha2_holds 1 c m)
   | HASH_ALG_SHA384 \<Rightarrow> (\<exists>c. s = Sha2State c \<and> sha2_holds 2 c m)
   | HASH_ALG_SHA512 \<Rightarrow> (\<exists>c. s = Sha2State c \<and> sha2_holds 3 c m)
   | HASH_ALG_SHA3_224 \<Rightarrow> (\<exists>c. s = Sha3State c \<and> sha3_holds 0 c m)
   | HASH_ALG_SHA3_256 \<Rightarrow> (\<exists>c. s = Sha3State c \<and> sha3_holds 1 c m)
   | HASH_ALG_SHA3_384 \<Rightarrow> (\<exists>c. s = Sha3State c \<and> sha3_holds 2 c m)
   | HASH_ALG_SHA3_512 \<Rightarrow> (\<exists>c. s = Sha3State c \<and> sha3_holds 3 c m)
   | HASH_ALG_WHIRLPOOL \<Rightarrow> (\<exists>c. s = WhirlpoolState c \<and> wp_holds c m)
   | HASH_ALG_SM3 \<Rightarrow> (\<exists>c. s = Sm3State c \<and> sm3_holds c m)
   | HASH_ALG_GOSTR3411_2012_256 \<Rightarrow> (\<exists>c. s = GostR3411State c \<and> gr_holds 0 c m)
   | HASH_ALG_GOSTR3411_2012_512 \<Rightarrow> (\<exists>c. s = GostR3411State c \<and> gr_holds 1 c m)
   | HASH_ALG_RIPEMD128 \<Rightarrow> (\<exists>c. s = RipemdState c \<and> ripemd_holds Compress128 c m)
   | HASH_ALG_RIPEMD160 \<Rightarrow> (\<exists>c. s = RipemdState c \<and> ripemd_holds Compress160 c m)
   | HASH_ALG_MD5 \<Rightarrow> (\<exists>c. s = Md5State c \<and> md5_holds c m))"

definition hash_holds :: "HashAlg \<Rightarrow> HashCtx \<Rightarrow> u8 list \<Rightarrow> bool" where
  "hash_holds alg c m \<longleftrightarrow> hc_alg c = alg \<and> state_holds alg (hc_ctx c) m"

text \<open>The longest single fragment for which the counters of the hash function are right.\<close>

definition hash_max_frag :: "HashAlg \<Rightarrow> nat" where
  "hash_max_frag alg = (case alg of HASH_ALG_MD5 \<Rightarrow> 0x1FFFFFFF | HASH_ALG_SM3 \<Rightarrow> 2 ^ 32 - 1 | _ \<Rightarrow> 2 ^ 63 - 1)"

subsection \<open>The interface\<close>

lemma alloc_state_holds:
  assumes "alg \<noteq> HASH_ALG_UNDEFINED" "mem_ok M"
  shows "\<exists>s. alloc_state M alg = Inr s \<and> state_holds alg s []"
proof -
  have ku: "\<exists>c. dstu7564_alloc M = Inr (Some ku_zero) \<and> dstu7564_init (Some ku_zero) n = Inr c \<and> ku_holds n c []"
    if "0 < n" "n \<le> 64" for n
    using ku_start_eq[OF that] assms(2) by (auto simp: dstu7564_alloc_def)
  have gost: "\<exists>c g. gost34311_alloc M 1 None = Inr (Some c) \<and> gost_sbox g = expand_sbox (gost_sboxes ! 1)
      \<and> g311_holds g (replicate 32 0) c []"
    using gost34311_alloc_some[of 1 M None] assms(2) g311_start_holds[of "g311_iv None"] by (auto simp: g311_iv_def)
  have gr: "gostr3411_alloc M 0 = Inr (Some (gr_zero 0 (std_iv 0)))" "gostr3411_alloc M 1 = Inr (Some (gr_zero 1 (std_iv 1)))"
    using assms(2) by (simp_all add: gostr3411_alloc_def std_iv_def)
  have wp: "whirlpool_alloc M = Inr (Some wp_zero)" using assms(2) by (simp add: whirlpool_alloc_def)
  show ?thesis
    using assms ku[of 32] ku[of 48] ku[of 64] gost gr_zero_holds wp_holds_zero
    by (cases alg) (auto simp: alloc_state_def state_holds_def gr gr(2)[simplified] wp sha1_alloc_eq
      SHA2_VARIANT_224_def SHA2_VARIANT_256_def SHA2_VARIANT_384_def SHA2_VARIANT_512_def sha1_start_holds sha2_alloc_eq sha2_start_holds
      sha3_alloc_eq sha3_start_holds sm3_alloc_eq sm3_init_holds ripemd_alloc_eq ripemd_start_holds md5_alloc_eq md5_start_holds)
qed

lemma state_update_holds:
  assumes "state_holds alg s m" "wf_ba a" "ba_len a \<le> hash_max_frag alg"
  shows "\<exists>s'. state_update be s (Some a) = Inr s' \<and> state_holds alg s' (m @ data a)"
proof -
  have l: "ba_len a < 2 ^ 63" "ba_len a < SIZE_MOD - 128" "alg = HASH_ALG_SM3 \<Longrightarrow> ba_len a < 2 ^ 32" "alg = HASH_ALG_MD5 \<Longrightarrow> ba_len a \<le> 0x1FFFFFFF"
    using assms(3) by (auto simp: hash_max_frag_def SIZE_MOD_def split: HashAlg.splits)
  have r: "\<exists>s'. map_sum id C r = Inr s' \<and> (\<exists>c'. s' = C c' \<and> P c')" if "\<exists>c'. r = Inr c' \<and> P c'"
    for C :: "'c \<Rightarrow> HashState" and r :: "'c res" and P
    using that by auto
  note u = r[OF dstu7564_update_abs[OF _ assms(2) l(1)]] r[OF sha1_update_holds[OF _ assms(2)]]
    r[OF sha2_update_holds[OF _ assms(2) l(2)]] r[OF sha3_update_holds[OF _ assms(2)]] r[OF whirlpool_update_holds[OF _ assms(2)]]
    r[OF sm3_update_holds[OF _ assms(2) l(3)]] r[OF gostr3411_update_holds[OF _ assms(2)]] r[OF ripemd_update_holds[OF _ assms(2)]]
    r[OF md5_update_holds[OF _ assms(2) l(4)]]
  show ?thesis
  proof (cases "alg = HASH_ALG_GOST34311")
    case True
    obtain c g where c: "s = Gost34311State c" "gost_sbox g = expand_sbox (gost_sboxes ! 1)" "g311_holds g (replicate 32 0) c m"
      using assms(1) True by (auto simp: state_holds_def)
    then show ?thesis using gost34311_update_holds[OF c(3) assms(2), of be] True
      by (auto simp: state_update_def state_holds_def)
  next
    case False
    then show ?thesis using assms(1)
      by (cases alg) (auto simp: state_update_def state_holds_def ku_holds_def intro!: u)
  qed
qed

lemma state_final_holds:
  assumes "state_holds alg s m" "mem_ok M"
  shows "\<exists>s'. state_final be M s = (Inr (mk_ba (hash_digest alg m)), s') \<and> state_holds alg s' []"
proof -
  have ku: "\<exists>c'. dstu7564_final be M (Some c) = (Inr (mk_ba (kupyna n m)), Some c') \<and> ku_holds n c' []"
    if "ku_holds n c m" "0 < n" "n \<le> 64" for n c
    using dstu7564_final_abs[OF that(1)[unfolded ku_holds_def] that(2,3) assms(2), of be] by (auto simp: ku_holds_def)
  have r: "\<exists>s'. after s C r = (Inr x, s') \<and> (\<exists>c'. s' = C c' \<and> P c')" if "\<exists>c'. r = (Inr x, Some c') \<and> P c'"
    for C :: "'c \<Rightarrow> HashState" and r :: "ByteArray res \<times> 'c option" and x P s
    using that by (auto simp: after_def)
  have q: "wp_holds c m \<Longrightarrow> \<exists>c'. whirlpool_final M (Some c) = (Inr (mk_ba (whirlpool m)), Some c') \<and> wp_holds c' []"
    "sm3_holds d m \<Longrightarrow> \<exists>d'. sm3_final M (Some d) = (Inr (mk_ba (sm3 m)), Some d') \<and> sm3_holds d' []"
    "gr_holds v e m \<Longrightarrow> \<exists>e'. gostr3411_final M (Some e) = (Inr (mk_ba (gostr3411 v m)), Some e') \<and> gr_holds v e' []"
    "md5_holds k m \<Longrightarrow> \<exists>k'. md5_final M (Some k) = (Inr (mk_ba (md5 m)), Some k') \<and> md5_holds k' []" for c d v e k
    using whirlpool_final_holds[OF _ assms(2)] wp_holds_zero sm3_final_holds[OF _ assms(2)] sm3_init_holds
      gostr3411_final_holds[OF _ assms(2)] gr_zero_holds md5_final_holds[OF _ assms(2)] md5_start_holds by auto
  note f = r[OF ku] r[OF sha1_final_holds[OF _ assms(2)]] r[OF sha2_final_holds[OF _ assms(2)]]
    r[OF sha3_final_holds[OF _ assms(2)]] r[OF ripemd_final_holds[OF _ assms(2)]]
    r[OF q(1)] r[OF q(2)] r[OF q(3)] r[OF q(4)]
  show ?thesis
  proof (cases "alg = HASH_ALG_GOST34311")
    case True
    obtain c g where c: "s = Gost34311State c" "gost_sbox g = expand_sbox (gost_sboxes ! 1)" "g311_holds g (replicate 32 0) c m"
      using assms(1) True by (auto simp: state_holds_def)
    then show ?thesis using gost34311_final_holds[OF c(3) assms(2), of be] True
      by (auto simp: state_final_def state_holds_def hash_digest_def after_def)
  next
    case False
    then show ?thesis using assms(1)
      by (cases alg) (auto simp: state_final_def state_holds_def hash_digest_def intro!: f)
  qed
qed

subsection \<open>The lengths of the digests\<close>

lemma length_foldl_inv:
  assumes "P s" "\<And>s b. P s \<Longrightarrow> b \<in> set bs \<Longrightarrow> P (f s b)"
  shows "P (foldl f s bs)"
  using assms by (induction bs arbitrary: s) simp_all

lemma length_concat_map: "(\<And>x. length (g x) = k) \<Longrightarrow> length (concat (map g xs)) = k * length xs"
  by (induction xs) simp_all

lemma length_num_bytes [simp]: "length (num_bytes n v) = n"
  by (simp add: num_bytes_def)

lemma length_md5 [simp]: "length (md5 m) = 16"
  by (simp add: md5_def length_concat_map md5_state_length)

lemma length_sha1 [simp]: "length (sha1 m) = 20"
proof -
  have "length (foldl sha1_block sha1_iv bs) = 5" for bs
    by (rule length_foldl_inv) (simp_all add: sha1_iv_def sha1_block_def split: prod.split)
  then show ?thesis by (simp add: sha1_def length_concat_map)
qed

lemma length_sha2 [simp]: "v \<le> 3 \<Longrightarrow> length (sha2 v m) = [28, 32, 48, 64] ! v"
  by (auto simp: sha2_eq sha256_digest_def sha512_digest_def length_concat_map length_foldl_comp le_Suc_eq numeral_eq_Suc
    SHA2_VARIANT_224_def SHA2_VARIANT_256_def SHA2_VARIANT_384_def sha224_h0_def sha256_h0_def sha384_h0_def sha512_h0_def)

lemma length_sm3 [simp]: "length (sm3 m) = 32"
proof -
  have "length (foldl sm3_CF sm3_iv bs) = 8" for bs
    by (rule length_foldl_inv) (simp_all add: sm3_iv_def sm3_process_CF[symmetric] length_sm3_process)
  then show ?thesis by (simp add: sm3_def length_concat_map)
qed

lemma length_ripemd [simp]: "length (ripemd fn m) = 4 * ripemd_words fn"
  by (cases fn) (simp_all add: ripemd_def length_concat_map length_foldl_block ripemd_words_def)

lemma length_whirlpool [simp]: "length (whirlpool m) = 64"
proof -
  have "length (foldl wp_comp (replicate 8 0) bs) = 8" for bs
    by (rule length_foldl_inv) (simp_all add: length_wp_comp)
  then show ?thesis by (simp add: whirlpool_def length_concat_map)
qed

lemma length_gost34311 [simp]: "length sync = 32 \<Longrightarrow> length (gost34311 sbox sync m) = 32"
  by (simp add: gost34311_def Let_def)

lemma length_gostr3411 [simp]: "length (gostr3411 v m) = (if v = 0 then 32 else 64)"
proof -
  have n: "length (num_words x) = 8" for x by (simp add: num_words_def)
  have "length (fst (foldl std_stage (std_iv v, 0) bs)) = 8" if "\<forall>b \<in> set bs. length b = 64" for bs
    by (rule length_foldl_inv) (simp_all add: std_stage_def std_iv_def length_std_g n that)
  from this[of "chunks 64 m @ [std_last m]"] have "length (std_hash (std_iv v) m) = 8"
    by (auto simp: std_hash_def Let_def length_std_g n length_in_chunks std_last_def Suc_diff_le)
  then show ?thesis by (simp add: gostr3411_def length_store_words)
qed

lemma length_sha3 [simp]: "v \<le> 3 \<Longrightarrow> length (sha3 v m) = [28, 32, 48, 64] ! v"
proof -
  assume v: "v \<le> 3"
  define r where "r = 25 - sha3_cap v"
  have "v = 0 \<or> v = 1 \<or> v = 2 \<or> v = 3" using v by linarith
  then have r: "r \<le> 25" "0 < r" "4 * sha3_cap v = [28, 32, 48, 64] ! v" "4 * sha3_cap v \<le> 200"
    by (auto simp: r_def sha3_cap_def)
  have "length (sponge r x) = 25" for x
    unfolding sponge_def by (rule length_foldl_inv) (use r in \<open>auto simp: sponge_block_def length_in_chunks\<close>)
  then show ?thesis using r by (simp add: sha3_def Let_def length_store_words flip: r_def)
qed

lemma length_kupyna [simp]: "0 < n \<Longrightarrow> n \<le> 64 \<Longrightarrow> length (kupyna n m) = n"
proof -
  assume n: "0 < n" "n \<le> 64"
  have c: "ku_cols n = 8 \<or> ku_cols n = 16" "n \<le> 8 * ku_cols n" using n by (auto simp: ku_cols_def)
  have "length (kupyna_core n x) = 8 * ku_cols n" for x
    unfolding kupyna_core_def by (rule length_foldl_inv) (use c in \<open>auto simp: ku_iv_def length_in_chunks\<close>)
  then show ?thesis using c by (simp add: kupyna_def ku_out_def)
qed

lemma length_hash_digest: "alg \<noteq> HASH_ALG_UNDEFINED \<Longrightarrow> length (hash_digest alg m) = hash_get_size alg"
  by (cases alg) (simp_all add: hash_digest_def hash_get_size_def ripemd_words_def)

subsection \<open>One interface for all\<close>

lemma hash_alloc_holds:
  assumes "alg \<noteq> HASH_ALG_UNDEFINED" "mem_ok M"
  shows "\<exists>c. hash_alloc M alg = Inr (Some c) \<and> hash_holds alg c []"
  using alloc_state_holds[OF assms] assms(2) by (auto simp: hash_alloc_def hash_holds_def)

definition hash_start :: "HashAlg \<Rightarrow> HashCtx" where
  "hash_start alg = (case hash_alloc ideal_mem alg of Inr (Some c) \<Rightarrow> c
     | _ \<Rightarrow> \<lparr>hc_ctx = Md5State md5_start, hc_alg = alg\<rparr>)"

lemma hash_update_holds:
  assumes "hash_holds alg c m" "wf_ba a" "ba_len a \<le> hash_max_frag alg"
  shows "\<exists>c'. hash_update be (Some c) (Some a) = Inr c' \<and> hash_holds alg c' (m @ data a)"
  using state_update_holds[OF _ assms(2,3), of "hc_ctx c" m be] assms(1) by (auto simp: hash_update_def hash_holds_def)

lemma hash_final_holds:
  assumes "hash_holds alg c m" "mem_ok M"
  shows "\<exists>c'. hash_final be M (Some c) = (Inr (mk_ba (hash_digest alg m)), Some c') \<and> hash_holds alg c' []"
  using state_final_holds[OF _ assms(2), of alg "hc_ctx c" m be] assms(1) by (auto simp: hash_final_def hash_holds_def)

locale known_hash =
  fixes alg :: HashAlg and be :: bool
  assumes known: "alg \<noteq> HASH_ALG_UNDEFINED"

sublocale known_hash \<subseteq> hash_alg "hash_start alg" "\<lambda>c a. hash_update be (Some c) (Some a)"
    "\<lambda>M c. map_prod id the (hash_final be M (Some c))" "hash_holds alg" "hash_digest alg" "hash_max_frag alg"
proof unfold_locales
  show "hash_holds alg (hash_start alg) []"
    using hash_alloc_holds[OF known mem_ok_ideal] by (auto simp: hash_start_def)
  show "\<exists>c'. hash_update be (Some c) (Some a) = Inr c' \<and> hash_holds alg c' (m @ data a)"
    if "hash_holds alg c m" "wf_ba a" "ba_len a \<le> hash_max_frag alg" for c m a
    using that by (rule hash_update_holds)
  show "\<exists>c'. map_prod id the (hash_final be M (Some c)) = (Inr (mk_ba (hash_digest alg m)), c') \<and> hash_holds alg c' []"
    if "hash_holds alg c m" "mem_ok M" for c m M
    using hash_final_holds[OF that, of be] by auto
qed

context known_hash
begin

lemma fragments:
  assumes "hash_holds alg c m" "\<forall>a \<in> set frs. wf_ba a \<and> ba_len a \<le> hash_max_frag alg" "mem_ok M"
  shows "\<exists>c1 c2. feed (\<lambda>c a. hash_update be (Some c) (Some a)) c frs = Inr c1
     \<and> hash_final be M (Some c1) = (Inr (mk_ba (hash_digest alg (m @ concat (map data frs)))), Some c2) \<and> hash_holds alg c2 []"
proof -
  obtain c1 where c1: "feed (\<lambda>c a. hash_update be (Some c) (Some a)) c frs = Inr c1" "hash_holds alg c1 (m @ concat (map data frs))"
    using feed_holds[OF assms(1,2)] by blast
  then show ?thesis using hash_final_holds[OF c1(2) assms(3), of be] by blast
qed

end

interpretation hash_gost34311: known_hash HASH_ALG_GOST34311 be for be by unfold_locales simp
interpretation hash_dstu7564_256: known_hash HASH_ALG_DSTU7564_256 be for be by unfold_locales simp
interpretation hash_dstu7564_512: known_hash HASH_ALG_DSTU7564_512 be for be by unfold_locales simp
interpretation hash_sha1: known_hash HASH_ALG_SHA1 be for be by unfold_locales simp
interpretation hash_sha256: known_hash HASH_ALG_SHA256 be for be by unfold_locales simp
interpretation hash_sha512: known_hash HASH_ALG_SHA512 be for be by unfold_locales simp
interpretation hash_sha3_256: known_hash HASH_ALG_SHA3_256 be for be by unfold_locales simp

subsection \<open>Properties\<close>

text \<open>(C36) The common interface of the hash functions: for every known algorithm \<^verbatim>\<open>hash_alloc\<close> gives a context,
  \<^verbatim>\<open>hash_update\<close> takes any number of fragments of at most \<open>hash_max_frag\<close> bytes each (\<open>2\<^sup>2\<^sup>9 - 1\<close> for MD5, which
  refuses longer ones, \<open>2\<^sup>3\<^sup>2 - 1\<close> for SM3, which miscounts longer ones, and \<open>2\<^sup>6\<^sup>3 - 1\<close> for all others), \<^verbatim>\<open>hash_final\<close>
  returns the digest of their concatenation, which has the length \<^verbatim>\<open>hash_get_size\<close> announces, and the context can be
  used for the next message.\<close>

theorem hash_api_fragments:
  assumes "alg \<noteq> HASH_ALG_UNDEFINED" "mem_ok M" "\<forall>a \<in> set frs. wf_ba a \<and> ba_len a \<le> hash_max_frag alg"
  shows "\<exists>s c c'. hash_alloc M alg = Inr (Some s) \<and> feed (\<lambda>c a. hash_update be (Some c) (Some a)) s frs = Inr c
     \<and> hash_final be M (Some c) = (Inr (mk_ba (hash_digest alg (concat (map data frs)))), Some c') \<and> hash_holds alg c' []
     \<and> length (hash_digest alg (concat (map data frs))) = hash_get_size alg"
proof -
  obtain s where "hash_alloc M alg = Inr (Some s)" "hash_holds alg s []" using hash_alloc_holds[OF assms(1,2)] by blast
  then show ?thesis
    using known_hash.fragments[OF known_hash.intro[OF assms(1)] _ assms(3,2), of s "[]" be] length_hash_digest[OF assms(1)] by auto
qed

lemma hash_api_fragments_witness:
  "\<exists>s c c'. hash_alloc ideal_mem HASH_ALG_SHA3_256 = Inr (Some s)
     \<and> feed (\<lambda>c a. hash_update False (Some c) (Some a)) s [mk_ba [1, 2], mk_ba [3]] = Inr c
     \<and> hash_final False ideal_mem (Some c) = (Inr (mk_ba (sha3 1 [1, 2, 3])), Some c') \<and> length (sha3 1 [1, 2, 3]) = 32"
  using hash_api_fragments[of HASH_ALG_SHA3_256 ideal_mem "[mk_ba [1, 2], mk_ba [3]]" False]
  by (auto simp: hash_max_frag_def hash_digest_def hash_get_size_def)

text \<open>(C37) \<^verbatim>\<open>hash\<close> in one call gives the digest of the data for every known algorithm and an error for the
  undefined one, for data of at most \<open>hash_max_frag\<close> bytes: \<open>2\<^sup>2\<^sup>9 - 1\<close> for MD5, \<open>2\<^sup>3\<^sup>2 - 1\<close> for SM3 and \<open>2\<^sup>6\<^sup>3 - 1\<close> for all
  others.\<close>

theorem hash_one_shot:
  assumes "mem_ok M" "wf_ba a" "ba_len a \<le> hash_max_frag alg"
  shows "hash be M alg (Some a) = (if alg = HASH_ALG_UNDEFINED then Inl RET_INVALID_PARAM else Inr (mk_ba (hash_digest alg (data a))))"
proof (cases "alg = HASH_ALG_UNDEFINED")
  case True
  then show ?thesis using assms(1) by (simp add: hash_def hash_alloc_def alloc_state_def SET_ERROR_def)
next
  case False
  obtain c where c: "hash_alloc M alg = Inr (Some c)" "state_holds alg (hc_ctx c) []"
    using hash_alloc_holds[OF False assms(1)] by (auto simp: hash_holds_def)
  obtain s where s: "state_update be (hc_ctx c) (Some a) = Inr s" "state_holds alg s (data a)"
    using state_update_holds[OF c(2) assms(2,3), of be] by auto
  show ?thesis using state_final_holds[OF s(2) assms(1), of be] c(1) s(1) False by (auto simp: hash_def)
qed

lemma hash_one_shot_witness:
  "hash True ideal_mem HASH_ALG_RIPEMD160 (Some (mk_ba (ascii ''abc''))) = Inr (mk_ba (ripemd Compress160 (ascii ''abc'')))"
  using hash_one_shot[of ideal_mem "mk_ba (ascii ''abc'')" HASH_ALG_RIPEMD160 True]
  by (simp add: hash_max_frag_def hash_digest_def ascii_def)

text \<open>(C38) The hash GOST 34.311 with a chosen table: with the number of a table the digest is that of the standard
  with this table; with a table of the user's own \<^verbatim>\<open>hash_alloc_gost34311_with_sbox\<close> always fails, because it
  passes no starting vector to a function that demands one.\<close>

theorem hash_gost34311_tables:
  assumes "mem_ok M" "sbox_id < 19" "wf_ba a"
  shows "hash_alloc_gost34311_with_sbox M sbox = Inr None
    \<and> (\<exists>c c' c''. hash_alloc_gost34311_with_sbox_id M sbox_id = Inr (Some c) \<and> hash_update be (Some c) (Some a) = Inr c'
      \<and> hash_final be M (Some c') = (Inr (mk_ba (gost34311 (expand_sbox (gost_sboxes ! sbox_id)) (replicate 32 0) (data a))), Some c''))"
proof -
  obtain g where g: "gost34311_alloc M sbox_id None = Inr (Some (g311_start g (replicate 32 0)))" "gost_sbox g = expand_sbox (gost_sboxes ! sbox_id)"
    using gost34311_alloc_some[OF assms(2,1), of None] by (auto simp: g311_iv_def)
  have h: "g311_holds g (replicate 32 0) (g311_start g (replicate 32 0)) []" by (rule g311_start_holds) simp
  obtain c where c: "gost34311_update be (Some (g311_start g (replicate 32 0))) (Some a) = Inr c" "g311_holds g (replicate 32 0) c (data a)"
    using gost34311_update_holds[OF h assms(3), of be] by auto
  show ?thesis using gost34311_final_holds[OF c(2) assms(1), of be] g c(1) assms(1)
    by (auto simp: hash_alloc_gost34311_with_sbox_def gost34311_alloc_user_sbox_def hash_alloc_gost34311_with_sbox_id_def
      hash_update_def state_update_def hash_final_def state_final_def after_def)
qed

lemma hash_gost34311_tables_witness:
  "hash_alloc_gost34311_with_sbox ideal_mem (Some (mk_ba (replicate 128 0))) = Inr None
    \<and> (\<exists>c. hash_alloc_gost34311_with_sbox_id ideal_mem 11 = Inr (Some c))"
  using hash_gost34311_tables[of ideal_mem 11 "mk_ba [1]" "Some (mk_ba (replicate 128 0))" False] by auto

end
