(* ===== verification/Hmac.thy ===== *)
theory Hmac
  imports HashApi MacAlg
begin

text \<open>
  \<^verbatim>\<open>hmac.c\<close>: message authentication over any hash function with the common interface. The contexts hold the
  message under the key, and the code is the one of RFC 2104.
\<close>

subsection \<open>The code\<close>

record HmacCtx =
  hm_k_ipad :: ByteArray
  hm_k_opad :: ByteArray
  hm_block_len :: nat
  hm_hctx :: HashCtx

definition sizeof_HmacCtx :: nat where "sizeof_HmacCtx = 32"

text \<open>The three functions that allocate a context differ in the hash context they make.\<close>

definition hmac_alloc_over :: "mem \<Rightarrow> HashCtx option res \<Rightarrow> HmacCtx option res" where
  "hmac_alloc_over M hash_ctx = to_ptr (CALLOC_CHECKED M sizeof_HmacCtx (
     CHECK_NOT_NULL hash_ctx (\<lambda>h.
     let block_len = hash_get_block_size (Some h)
     in CHECK_NOT_NULL (ba_alloc_by_len M block_len) (\<lambda>ipad.
        CHECK_NOT_NULL (ba_alloc_by_len M block_len) (\<lambda>opad.
        Inr \<lparr>hm_k_ipad = ipad, hm_k_opad = opad, hm_block_len = block_len, hm_hctx = h\<rparr>)))))"

definition hmac_alloc :: "mem \<Rightarrow> HashAlg \<Rightarrow> HmacCtx option res" where
  "hmac_alloc M alg = hmac_alloc_over M (hash_alloc M alg)"

definition hmac_alloc_gost34311_with_sbox_id :: "mem \<Rightarrow> nat \<Rightarrow> HmacCtx option res" where
  "hmac_alloc_gost34311_with_sbox_id M sbox_id = hmac_alloc_over M (hash_alloc_gost34311_with_sbox_id M sbox_id)"

definition hmac_alloc_gost34311_with_sbox :: "mem \<Rightarrow> ByteArray option \<Rightarrow> HmacCtx option res" where
  "hmac_alloc_gost34311_with_sbox M sbox = hmac_alloc_over M (hash_alloc_gost34311_with_sbox M sbox)"

text \<open>\<^verbatim>\<open>hash_final\<close> on the context of the structure.\<close>

definition final_in :: "bool \<Rightarrow> mem \<Rightarrow> HashCtx \<Rightarrow> ByteArray res \<times> HashCtx" where
  "final_in be M h = map_prod id (case_option h (\<lambda>h. h)) (hash_final be M (Some h))"

text \<open>The key, or the hash of a key that is longer than a block.\<close>

definition hmac_key :: "bool \<Rightarrow> mem \<Rightarrow> HmacCtx \<Rightarrow> ByteArray \<Rightarrow> ByteArray res \<times> HashCtx" where
  "hmac_key be M c key =
     (if ba_len key > hm_block_len c
      then DO_ST (hash_update be (Some (hm_hctx c)) (Some key)) (hm_hctx c) (final_in be M)
      else (CHECK_NOT_NULL (ba_copy_with_alloc M (Some key) 0 0) Inr, hm_hctx c))"

definition xor_bytes :: "u8 list \<Rightarrow> nat \<Rightarrow> u8 \<Rightarrow> u8 list res" where
  "xor_bytes buf n v = DO (rd buf 0 n) (\<lambda>xs. wr buf 0 (map (\<lambda>x. x XOR v) xs))"

definition hmac_pads :: "HmacCtx \<Rightarrow> ByteArray \<Rightarrow> (ByteArray \<times> ByteArray) res" where
  "hmac_pads c key_tmp =
     DO (wr (data (hm_k_ipad c)) 0 (replicate (hm_block_len c) 0)) (\<lambda>ipad.
     DO (wr (data (hm_k_opad c)) 0 (replicate (hm_block_len c) 0)) (\<lambda>opad.
     DO (ba_to_uint8 (Some key_tmp) (Some ipad) (ba_len key_tmp)) (\<lambda>ipad.
     DO (ba_to_uint8 (Some key_tmp) (Some opad) (ba_len key_tmp)) (\<lambda>opad.
     DO (xor_bytes ipad (hm_block_len c) 0x36) (\<lambda>ipad.
     DO (xor_bytes opad (hm_block_len c) 0x5c) (\<lambda>opad.
     Inr (set_data (hm_k_ipad c) ipad, set_data (hm_k_opad c) opad)))))))"

definition hmac_init :: "bool \<Rightarrow> mem \<Rightarrow> HmacCtx option \<Rightarrow> ByteArray option \<Rightarrow> unit res \<times> HmacCtx option" where
  "hmac_init be M ctx key = DO_ST (NOT_NULL ctx Inr) ctx (\<lambda>c. DO_ST (NOT_NULL key Inr) ctx (\<lambda>k.
     case hmac_key be M c k of (r, h) \<Rightarrow>
       let c = c\<lparr>hm_hctx := h\<rparr>
       in DO_ST r (Some c) (\<lambda>key_tmp.
          DO_ST (hmac_pads c key_tmp) (Some c) (\<lambda>(ipad, opad).
          let c = c\<lparr>hm_k_ipad := ipad, hm_k_opad := opad\<rparr>
          in DO_ST (hash_update be (Some h) (Some ipad)) (Some c) (\<lambda>h. (Inr (), Some (c\<lparr>hm_hctx := h\<rparr>)))))))"

definition hmac_update :: "bool \<Rightarrow> HmacCtx option \<Rightarrow> ByteArray option \<Rightarrow> HmacCtx res" where
  "hmac_update be ctx msg = NOT_NULL ctx (\<lambda>c. NOT_NULL msg (\<lambda>a.
     DO (hash_update be (Some (hm_hctx c)) (Some a)) (\<lambda>h. Inr (c\<lparr>hm_hctx := h\<rparr>))))"

definition hmac_final :: "bool \<Rightarrow> mem \<Rightarrow> HmacCtx option \<Rightarrow> ByteArray res \<times> HmacCtx option" where
  "hmac_final be M ctx = DO_ST (NOT_NULL ctx Inr) ctx (\<lambda>c.
     case final_in be M (hm_hctx c) of (r, h) \<Rightarrow> DO_ST r (Some (c\<lparr>hm_hctx := h\<rparr>)) (\<lambda>upd_hmac.
     DO_ST (hash_update be (Some h) (Some (hm_k_opad c))) (Some (c\<lparr>hm_hctx := h\<rparr>)) (\<lambda>h.
     DO_ST (hash_update be (Some h) (Some upd_hmac)) (Some (c\<lparr>hm_hctx := h\<rparr>)) (\<lambda>h.
     map_prod id (\<lambda>h. Some (c\<lparr>hm_hctx := h\<rparr>)) (final_in be M h)))))"

definition hmac_reset :: "bool \<Rightarrow> HmacCtx option \<Rightarrow> HmacCtx res" where
  "hmac_reset be ctx = NOT_NULL ctx (\<lambda>c.
     DO (hash_update be (Some (hm_hctx c)) (Some (hm_k_ipad c))) (\<lambda>h. Inr (c\<lparr>hm_hctx := h\<rparr>)))"

subsection \<open>RFC 2104\<close>

definition hash_block :: "HashAlg \<Rightarrow> nat" where
  "hash_block alg = (case alg of
     HASH_ALG_DSTU7564_384 \<Rightarrow> 128 | HASH_ALG_DSTU7564_512 \<Rightarrow> 128 | HASH_ALG_GOST34311 \<Rightarrow> 32
   | HASH_ALG_SHA384 \<Rightarrow> 128 | HASH_ALG_SHA512 \<Rightarrow> 128 | HASH_ALG_SHA3_224 \<Rightarrow> 144 | HASH_ALG_SHA3_256 \<Rightarrow> 136
   | HASH_ALG_SHA3_384 \<Rightarrow> 104 | HASH_ALG_SHA3_512 \<Rightarrow> 72 | _ \<Rightarrow> 64)"

definition rfc_key :: "HashAlg \<Rightarrow> u8 list \<Rightarrow> u8 list" where
  "rfc_key alg K = (let k = (if length K > hash_block alg then hash_digest alg K else K)
     in k @ replicate (hash_block alg - length k) 0)"

definition rfc_hmac :: "HashAlg \<Rightarrow> u8 list \<Rightarrow> u8 list \<Rightarrow> u8 list" where
  "rfc_hmac alg K m = hash_digest alg (map (\<lambda>x. x XOR 0x5c) (rfc_key alg K)
     @ hash_digest alg (map (\<lambda>x. x XOR 0x36) (rfc_key alg K) @ m))"

subsection \<open>A context holds a message under a key\<close>

text \<open>\<open>hmac_keyed\<close> has the key in place and an empty hash context; \<open>hmac_holds\<close> has taken a message.\<close>

definition hmac_with :: "HashAlg \<Rightarrow> u8 list \<Rightarrow> HmacCtx \<Rightarrow> u8 list \<Rightarrow> bool" where
  "hmac_with alg K c m \<longleftrightarrow> hash_holds alg (hm_hctx c) m \<and> hm_block_len c = hash_block alg
     \<and> hm_k_ipad c = mk_ba (map (\<lambda>x. x XOR 0x36) (rfc_key alg K)) \<and> hm_k_opad c = mk_ba (map (\<lambda>x. x XOR 0x5c) (rfc_key alg K))"

definition hmac_keyed :: "HashAlg \<Rightarrow> u8 list \<Rightarrow> HmacCtx \<Rightarrow> bool" where
  "hmac_keyed alg K c \<longleftrightarrow> hmac_with alg K c []"

definition hmac_holds :: "HashAlg \<Rightarrow> u8 list \<Rightarrow> HmacCtx \<Rightarrow> u8 list \<Rightarrow> bool" where
  "hmac_holds alg K c m \<longleftrightarrow> hmac_with alg K c (map (\<lambda>x. x XOR 0x36) (rfc_key alg K) @ m)"

lemma hash_block_bounds: "hash_block alg \<le> 144" "32 \<le> hash_block alg" "hash_get_size alg \<le> hash_block alg" "hash_block alg \<le> hash_max_frag alg"
    "hash_get_size alg \<le> hash_max_frag alg"
  by (cases alg; simp add: hash_block_def hash_get_size_def hash_max_frag_def)+

lemma length_rfc_key [simp]: "alg \<noteq> HASH_ALG_UNDEFINED \<Longrightarrow> length (rfc_key alg K) = hash_block alg"
  using length_hash_digest[of alg K] hash_block_bounds(3)[of alg] by (auto simp: rfc_key_def Let_def)

lemma hash_holds_block: "hash_holds alg c m \<Longrightarrow> hash_get_block_size (Some c) = hash_block alg"
  by (cases alg) (auto simp: hash_holds_def state_holds_def hash_get_block_size_def state_block_size_def hash_block_def
    ku_holds_def ku_abs_def ku_ready_def ku_cols_def dstu7564_get_block_size_def gost34311_get_block_size_def sha1_get_block_size_def
    sha2_holds.simps sha2_get_block_size_def sha3_holds_def sha3_at_def sha3_get_block_size_def whirlpool_get_block_size_def
    sm3_get_block_size_def gostr3411_get_block_size_def ripemd_get_block_size_def md5_get_block_size_def Let_def
    SHA2_VARIANT_224_def SHA2_VARIANT_256_def SHA2_VARIANT_384_def SHA2_VARIANT_512_def)

lemma hash_holds_known: "hash_holds alg c m \<Longrightarrow> alg \<noteq> HASH_ALG_UNDEFINED"
  by (auto simp: hash_holds_def state_holds_def)

lemma final_in_holds:
  assumes "hash_holds alg h m" "mem_ok M"
  shows "\<exists>h'. final_in be M h = (Inr (mk_ba (hash_digest alg m)), h') \<and> hash_holds alg h' []"
  using hash_final_holds[OF assms, of be] by (auto simp: final_in_def)

subsection \<open>The operations\<close>

definition hmac_new :: "HashAlg \<Rightarrow> HmacCtx \<Rightarrow> bool" where
  "hmac_new alg c \<longleftrightarrow> hash_holds alg (hm_hctx c) [] \<and> hm_block_len c = hash_block alg
     \<and> (\<exists>x y. hm_k_ipad c = mk_ba x \<and> hm_k_opad c = mk_ba y \<and> length x = hash_block alg \<and> length y = hash_block alg)"

lemma hmac_alloc_over_new:
  assumes "hash_holds alg h []" "mem_ok M"
  shows "\<exists>c. hmac_alloc_over M (Inr (Some h)) = Inr (Some c) \<and> hmac_new alg c"
  using assms by (auto simp: hmac_alloc_over_def Let_def hash_holds_block ba_alloc_by_len_eq hmac_new_def)

lemma hmac_alloc_new:
  assumes "alg \<noteq> HASH_ALG_UNDEFINED" "mem_ok M"
  shows "\<exists>c. hmac_alloc M alg = Inr (Some c) \<and> hmac_new alg c"
  using hash_alloc_holds[OF assms] hmac_alloc_over_new[OF _ assms(2)] by (auto simp: hmac_alloc_def)

text \<open>A context between two messages can be given a new key.\<close>

lemma hmac_keyed_new: "hmac_keyed alg K c \<Longrightarrow> hmac_new alg c"
  using length_rfc_key[of alg K] by (auto simp: hmac_keyed_def hmac_with_def hmac_new_def dest: hash_holds_known)

lemma hmac_key_eq:
  assumes c: "hmac_new alg c" and key: "wf_ba key" "ba_len key \<le> hash_max_frag alg" and M: "mem_ok M"
  defines "k \<equiv> (if length (data key) > hash_block alg then hash_digest alg (data key) else data key)"
  shows "\<exists>h. hmac_key be M c key = (Inr (mk_ba k), h) \<and> hash_holds alg h []"
proof -
  note r = c[unfolded hmac_new_def]
  have l: "length (data key) = ba_len key" using key(1) by simp
  show ?thesis
  proof (cases "ba_len key > hash_block alg")
    case True
    obtain h where h: "hash_update be (Some (hm_hctx c)) (Some key) = Inr h" "hash_holds alg h (data key)"
      using hash_update_holds[OF conjunct1[OF r] key, of be] by auto
    show ?thesis using final_in_holds[OF h(2) M, of be] h(1) r True l by (auto simp: hmac_key_def k_def)
  next
    case False
    have "ba_len key < SIZE_MOD" using False hash_block_bounds(1)[of alg] by (simp add: SIZE_MOD_def)
    then show ?thesis using False r l key(1) M by (simp add: hmac_key_def k_def ba_copy_with_alloc_eq)
  qed
qed

lemma hmac_pads_eq:
  assumes c: "hmac_new alg c" and k: "length k \<le> hash_block alg"
  shows "hmac_pads c (mk_ba k) = Inr (mk_ba (map (\<lambda>x. x XOR 0x36) (k @ replicate (hash_block alg - length k) 0)),
    mk_ba (map (\<lambda>x. x XOR 0x5c) (k @ replicate (hash_block alg - length k) 0)))"
proof -
  obtain x y where r: "hm_block_len c = hash_block alg" "hm_k_ipad c = mk_ba x" "hm_k_opad c = mk_ba y"
    "length x = hash_block alg" "length y = hash_block alg" using c by (auto simp: hmac_new_def)
  have kb: "ba_to_uint8 (Some (mk_ba k)) (Some (replicate (hash_block alg) 0)) (length k) = Inr (k @ replicate (hash_block alg - length k) 0)"
    using k by (simp add: ba_to_uint8_def)
  show ?thesis using k r(4,5)
    unfolding hmac_pads_def r(1-3) by (simp add: kb xor_bytes_def)
qed

lemma hmac_init_keyed:
  assumes c: "hmac_new alg c" and key: "wf_ba key" "ba_len key \<le> hash_max_frag alg" and M: "mem_ok M"
  shows "\<exists>c'. hmac_init be M (Some c) (Some key) = (Inr (), Some c') \<and> hmac_holds alg (data key) c' []"
proof -
  define k where "k = (if length (data key) > hash_block alg then hash_digest alg (data key) else data key)"
  obtain h where h: "hmac_key be M c key = (Inr (mk_ba k), h)" "hash_holds alg h []"
    using hmac_key_eq[OF assms, of be] unfolding k_def by blast
  note known = hash_holds_known[OF h(2)]
  have lk: "length k \<le> hash_block alg" using length_hash_digest[OF known] hash_block_bounds(3)[of alg] by (simp add: k_def)
  have rk: "rfc_key alg (data key) = k @ replicate (hash_block alg - length k) 0" by (simp add: rfc_key_def k_def Let_def)
  define ip where "ip = map (\<lambda>x. x XOR 0x36) (rfc_key alg (data key))"
  define op where "op = map (\<lambda>x. x XOR 0x5c) (rfc_key alg (data key))"
  have c1: "hmac_new alg (c\<lparr>hm_hctx := h\<rparr>)" using c h(2) by (simp add: hmac_new_def)
  have p: "hmac_pads (c\<lparr>hm_hctx := h\<rparr>) (mk_ba k) = Inr (mk_ba ip, mk_ba op)"
    unfolding hmac_pads_eq[OF c1 lk] ip_def op_def rk ..
  have lip: "length ip = hash_block alg" using known by (simp add: ip_def)
  obtain h' where h': "hash_update be (Some h) (Some (mk_ba ip)) = Inr h'" "hash_holds alg h' ip"
    using hash_update_holds[OF h(2), of "mk_ba ip" be] lip hash_block_bounds(4)[of alg] by auto
  have "hmac_init be M (Some c) (Some key)
      = (Inr (), Some (c\<lparr>hm_hctx := h, hm_k_ipad := mk_ba ip, hm_k_opad := mk_ba op, hm_hctx := h'\<rparr>))"
    unfolding hmac_init_def NOT_NULL_simps DO_ST_simps h(1) prod.case Let_def p h'(1) ..
  then show ?thesis using h'(2) c by (auto simp: hmac_holds_def hmac_with_def hmac_new_def ip_def op_def)
qed

lemma hmac_update_holds:
  assumes "hmac_holds alg K c m" "wf_ba a" "ba_len a \<le> hash_max_frag alg"
  shows "\<exists>c'. hmac_update be (Some c) (Some a) = Inr c' \<and> hmac_holds alg K c' (m @ data a)"
  using hash_update_holds[OF _ assms(2,3), of "hm_hctx c" _ be] assms(1)
  by (fastforce simp: hmac_holds_def hmac_with_def hmac_update_def)

lemma hmac_final_keyed:
  assumes c: "hmac_holds alg K c m" and M: "mem_ok M"
  shows "\<exists>c'. hmac_final be M (Some c) = (Inr (mk_ba (rfc_hmac alg K m)), Some c') \<and> hmac_keyed alg K c'"
proof -
  define ip where "ip = map (\<lambda>x. x XOR 0x36) (rfc_key alg K)"
  define op where "op = map (\<lambda>x. x XOR 0x5c) (rfc_key alg K)"
  note r = c[unfolded hmac_holds_def hmac_with_def, folded ip_def op_def]
  note known = hash_holds_known[OF conjunct1[OF r]]
  obtain h1 where h1: "final_in be M (hm_hctx c) = (Inr (mk_ba (hash_digest alg (ip @ m))), h1)" "hash_holds alg h1 []"
    using final_in_holds[OF conjunct1[OF r] M, of be] by blast
  have l: "ba_len (hm_k_opad c) \<le> hash_max_frag alg" "wf_ba (hm_k_opad c)" "data (hm_k_opad c) = op"
    using r known hash_block_bounds(4)[of alg] by (simp_all add: op_def)
  obtain h2 where h2: "hash_update be (Some h1) (Some (hm_k_opad c)) = Inr h2" "hash_holds alg h2 op"
    using hash_update_holds[OF h1(2) l(2,1), of be] l(3) by auto
  have ld: "ba_len (mk_ba (hash_digest alg (ip @ m))) \<le> hash_max_frag alg"
    using length_hash_digest[OF known] hash_block_bounds(5)[of alg] by simp
  obtain h3 where h3: "hash_update be (Some h2) (Some (mk_ba (hash_digest alg (ip @ m)))) = Inr h3"
      "hash_holds alg h3 (op @ hash_digest alg (ip @ m))"
    using hash_update_holds[OF h2(2) _ ld, of be] by auto
  obtain h4 where h4: "final_in be M h3 = (Inr (mk_ba (rfc_hmac alg K m)), h4)" "hash_holds alg h4 []"
    using final_in_holds[OF h3(2) M, of be] unfolding rfc_hmac_def ip_def op_def by blast
  have "hmac_final be M (Some c) = (Inr (mk_ba (rfc_hmac alg K m)), Some (c\<lparr>hm_hctx := h4\<rparr>))"
    unfolding hmac_final_def NOT_NULL_simps DO_ST_simps h1(1) prod.case h2(1) h3(1) h4(1) by simp
  then show ?thesis using h4(2) r by (auto simp: hmac_keyed_def hmac_with_def ip_def op_def)
qed

lemma hmac_reset_holds:
  assumes "hmac_keyed alg K c"
  shows "\<exists>c'. hmac_reset be (Some c) = Inr c' \<and> hmac_holds alg K c' []"
proof -
  note r = assms[unfolded hmac_keyed_def hmac_with_def]
  note known = hash_holds_known[OF conjunct1[OF r]]
  have "ba_len (hm_k_ipad c) \<le> hash_max_frag alg" "wf_ba (hm_k_ipad c)"
    using r known hash_block_bounds(4)[of alg] by simp_all
  from hash_update_holds[OF conjunct1[OF r] this(2,1), of be] r
  show ?thesis by (auto simp: hmac_reset_def hmac_holds_def hmac_with_def)
qed

interpretation hmac: mac_alg "\<lambda>c a. hmac_update be (Some c) (Some a)" "hmac_holds alg K" "hash_max_frag alg"
    "\<lambda>M c. map_prod id the (hmac_final be M (Some c))" "\<lambda>c. hmac_reset be (Some c)" "hmac_keyed alg K" "rfc_hmac alg K"
  for be alg K
proof unfold_locales
  show "\<exists>c'. hmac_update be (Some c) (Some a) = Inr c' \<and> hmac_holds alg K c' (m @ data a)"
    if "hmac_holds alg K c m" "wf_ba a" "ba_len a \<le> hash_max_frag alg" for c m a
    using that by (rule hmac_update_holds)
  show "\<exists>c'. map_prod id the (hmac_final be M (Some c)) = (Inr (mk_ba (rfc_hmac alg K m)), c') \<and> hmac_keyed alg K c'"
    if "hmac_holds alg K c m" "mem_ok M" for c m M
    using hmac_final_keyed[OF that, of be] by auto
  show "\<exists>c'. hmac_reset be (Some c) = Inr c' \<and> hmac_holds alg K c' []" if "hmac_keyed alg K c" for c
    using that by (rule hmac_reset_holds)
qed

lemma length_rfc_hmac: "alg \<noteq> HASH_ALG_UNDEFINED \<Longrightarrow> length (rfc_hmac alg K m) = hash_get_size alg"
  by (simp add: rfc_hmac_def length_hash_digest)

text \<open>What a caller sees of a whole message.\<close>

lemma hmac_message:
  assumes "hmac_holds alg K c []" "\<forall>a \<in> set frs. wf_ba a \<and> ba_len a \<le> hash_max_frag alg" "mem_ok M"
  shows "\<exists>c1 c2 c3. feed (\<lambda>c a. hmac_update be (Some c) (Some a)) c frs = Inr c1
     \<and> hmac_final be M (Some c1) = (Inr (mk_ba (rfc_hmac alg K (concat (map data frs)))), Some c2) \<and> hmac_keyed alg K c2
     \<and> hmac_reset be (Some c2) = Inr c3 \<and> hmac_holds alg K c3 []"
proof -
  obtain c1 where c1: "feed (\<lambda>c a. hmac_update be (Some c) (Some a)) c frs = Inr c1" "hmac_holds alg K c1 (concat (map data frs))"
    using hmac.absorbs_all[OF assms(1,2), of be] by auto
  obtain c2 where c2: "hmac_final be M (Some c1) = (Inr (mk_ba (rfc_hmac alg K (concat (map data frs)))), Some c2)" "hmac_keyed alg K c2"
    using hmac_final_keyed[OF c1(2) assms(3), of be] by blast
  show ?thesis using c1(1) c2 hmac.reset_holds[OF c2(2), of be] by blast
qed

subsection \<open>Properties\<close>

text \<open>(C39) Message authentication after RFC 2104 for every hash function: with keys and fragments of at most
  \<open>hash_max_frag\<close> bytes each (\<open>2\<^sup>2\<^sup>9 - 1\<close> for MD5, \<open>2\<^sup>3\<^sup>2 - 1\<close> for SM3, \<open>2\<^sup>6\<^sup>3 - 1\<close> for all others), \<^verbatim>\<open>hmac_init\<close>,
  \<^verbatim>\<open>hmac_update\<close> on any number of fragments and \<^verbatim>\<open>hmac_final\<close> give the code of the message, as long as a digest; after \<^verbatim>\<open>hmac_reset\<close> the context authenticates the next message
  under the same key, and without it takes a new key.\<close>

theorem hmac_rfc2104:
  assumes "alg \<noteq> HASH_ALG_UNDEFINED" "mem_ok M" "\<forall>a \<in> {key, key'} \<union> set frs \<union> set frs'. wf_ba a \<and> ba_len a \<le> hash_max_frag alg"
  shows "\<exists>c s c1 c2 c3 c4 c5 c6. hmac_alloc M alg = Inr (Some c) \<and> hmac_init be M (Some c) (Some key) = (Inr (), Some s)
     \<and> feed (\<lambda>c a. hmac_update be (Some c) (Some a)) s frs = Inr c1
     \<and> hmac_final be M (Some c1) = (Inr (mk_ba (rfc_hmac alg (data key) (concat (map data frs)))), Some c2)
     \<and> hmac_reset be (Some c2) = Inr c3 \<and> feed (\<lambda>c a. hmac_update be (Some c) (Some a)) c3 frs' = Inr c4
     \<and> hmac_final be M (Some c4) = (Inr (mk_ba (rfc_hmac alg (data key) (concat (map data frs')))), Some c5)
     \<and> hmac_init be M (Some c5) (Some key') = (Inr (), Some c6) \<and> hmac_holds alg (data key') c6 []
     \<and> length (rfc_hmac alg (data key) (concat (map data frs))) = hash_get_size alg"
proof -
  obtain c where c: "hmac_alloc M alg = Inr (Some c)" "hmac_new alg c" using hmac_alloc_new[OF assms(1,2)] by blast
  obtain s where s: "hmac_init be M (Some c) (Some key) = (Inr (), Some s)" "hmac_holds alg (data key) s []"
    using hmac_init_keyed[OF c(2) _ _ assms(2), of key be] assms(3) by auto
  have f: "\<forall>a \<in> set frs. wf_ba a \<and> ba_len a \<le> hash_max_frag alg" "\<forall>a \<in> set frs'. wf_ba a \<and> ba_len a \<le> hash_max_frag alg"
    using assms(3) by auto
  obtain c1 c2 c3 where m: "feed (\<lambda>c a. hmac_update be (Some c) (Some a)) s frs = Inr c1"
      "hmac_final be M (Some c1) = (Inr (mk_ba (rfc_hmac alg (data key) (concat (map data frs)))), Some c2)"
      "hmac_reset be (Some c2) = Inr c3" "hmac_holds alg (data key) c3 []"
    using hmac_message[OF s(2) f(1) assms(2), of be] by blast
  obtain c4 c5 where m': "feed (\<lambda>c a. hmac_update be (Some c) (Some a)) c3 frs' = Inr c4"
      "hmac_final be M (Some c4) = (Inr (mk_ba (rfc_hmac alg (data key) (concat (map data frs')))), Some c5)" "hmac_keyed alg (data key) c5"
    using hmac_message[OF m(4) f(2) assms(2), of be] by blast
  obtain c6 where "hmac_init be M (Some c5) (Some key') = (Inr (), Some c6)" "hmac_holds alg (data key') c6 []"
    using hmac_init_keyed[OF hmac_keyed_new[OF m'(3)] _ _ assms(2), of key' be] assms(3) by auto
  then show ?thesis using c(1) s(1) m m' length_rfc_hmac[OF assms(1)] by blast
qed

lemma hmac_rfc2104_witness:
  "\<exists>c s c1 c2. hmac_alloc ideal_mem HASH_ALG_SHA256 = Inr (Some c)
     \<and> hmac_init True ideal_mem (Some c) (Some (mk_ba (ascii ''key''))) = (Inr (), Some s)
     \<and> feed (\<lambda>c a. hmac_update True (Some c) (Some a)) s [mk_ba [1, 2], mk_ba [3]] = Inr c1
     \<and> hmac_final True ideal_mem (Some c1) = (Inr (mk_ba (rfc_hmac HASH_ALG_SHA256 (ascii ''key'') [1, 2, 3])), Some c2)"
  using hmac_rfc2104[of HASH_ALG_SHA256 ideal_mem "mk_ba (ascii ''key'')" "mk_ba []" "[mk_ba [1, 2], mk_ba [3]]" "[]" True]
  by (auto simp: hash_max_frag_def ascii_def)

end
