(* ===== verification/Pbkdf2.thy ===== *)
theory Pbkdf2
  imports Hmac
begin

text \<open>
  \<^verbatim>\<open>pbkdf2\<close> (\<^verbatim>\<open>pbkdf.c\<close>): the derivation of keys from passwords of RFC 8018 over HMAC with any hash function.
  The loop over the blocks is a partial function: a hash length of zero would make it run for ever.
\<close>

subsection \<open>The code\<close>

text \<open>A result that the code does not look at; undefined behaviour is not a result.\<close>

definition ignored :: "'a \<Rightarrow> 'a res \<Rightarrow> 'a res" where
  "ignored x r = (case r of Inr y \<Rightarrow> Inr y | Inl e \<Rightarrow> if e = UNDEFINED then Inl UNDEFINED else Inr x)"

definition final_reset :: "bool \<Rightarrow> mem \<Rightarrow> HmacCtx \<Rightarrow> (HmacCtx \<Rightarrow> ByteArray \<Rightarrow> 'b res) \<Rightarrow> 'b res" where
  "final_reset be M c k = (case hmac_final be M (Some c) of (r, c) \<Rightarrow>
     DO r (\<lambda>u. DO (hmac_reset be c) (\<lambda>c. k c u)))"

text \<open>The inner loop, with the number of passes left.\<close>

primrec pbkdf2_rounds :: "bool \<Rightarrow> mem \<Rightarrow> nat \<Rightarrow> HmacCtx \<Rightarrow> ByteArray \<Rightarrow> ByteArray \<Rightarrow> (HmacCtx \<times> ByteArray) res" where
  "pbkdf2_rounds be M 0 c u key = Inr (c, key)"
| "pbkdf2_rounds be M (Suc n) c u key =
     DO (hmac_update be (Some c) (Some u)) (\<lambda>c.
     final_reset be M c (\<lambda>c u.
     DO (ba_xor (Some key) (Some u)) (\<lambda>key. pbkdf2_rounds be M n c u key)))"

definition pbkdf2_block ::
    "bool \<Rightarrow> mem \<Rightarrow> ByteArray \<Rightarrow> ByteArray \<Rightarrow> nat \<Rightarrow> u32 \<Rightarrow> nat \<Rightarrow> HmacCtx \<Rightarrow> (HmacCtx \<times> ByteArray) res" where
  "pbkdf2_block be M pass_ba salt iterations count cplen c =
     CHECK_NOT_NULL (ba_alloc_from_uint8 M (Some
         [ucast (drop_bit 24 count AND 0xff), ucast (drop_bit 16 count AND 0xff), ucast (drop_bit 8 count AND 0xff), ucast (count AND 0xff)]) 4)
       (\<lambda>count_ba.
     DO (if count = 1
         then (case hmac_init be M (Some c) (Some pass_ba) of (r, c) \<Rightarrow> DO r (\<lambda>_. NOT_NULL c Inr))
         else Inr c) (\<lambda>c.
     DO (hmac_update be (Some c) (Some salt)) (\<lambda>c.
     DO (hmac_update be (Some c) (Some count_ba)) (\<lambda>c.
     final_reset be M c (\<lambda>c u.
     CHECK_NOT_NULL (ba_copy_with_alloc M (Some u) 0 cplen) (\<lambda>key.
     pbkdf2_rounds be M (iterations - 1) c u key))))))"

partial_function (option) pbkdf2_loop ::
    "bool \<Rightarrow> mem \<Rightarrow> ByteArray \<Rightarrow> ByteArray \<Rightarrow> nat \<Rightarrow> nat \<Rightarrow> nat \<Rightarrow> u32 \<Rightarrow> HmacCtx \<Rightarrow> ByteArray \<Rightarrow> ByteArray res option" where
  "pbkdf2_loop be M pass_ba salt iterations hash_len key_len count c out =
     (if key_len = 0 then Some (Inr out) else
      let cplen = (if key_len > hash_len then hash_len else key_len)
      in case DO (pbkdf2_block be M pass_ba salt iterations count cplen c) (\<lambda>(c, key).
              DO (ignored out (ba_append M (Some key) 0 cplen (Some out))) (\<lambda>out. Inr (c, out))) of
           Inl e \<Rightarrow> Some (Inl e)
         | Inr (c, out) \<Rightarrow> pbkdf2_loop be M pass_ba salt iterations hash_len (key_len - cplen) (count + 1) c out)"

definition pbkdf2 ::
    "bool \<Rightarrow> mem \<Rightarrow> u8 list option \<Rightarrow> ByteArray option \<Rightarrow> nat \<Rightarrow> nat \<Rightarrow> HashAlg \<Rightarrow> ByteArray res option" where
  "pbkdf2 be M pass salt iterations key_len alg =
     (case NOT_NULL pass (\<lambda>p. NOT_NULL salt (\<lambda>s.
           CHECK_NOT_NULL (ba_alloc M) (\<lambda>out.
           CHECK_NOT_NULL (ba_alloc_from_str M (Some p)) (\<lambda>pass_ba.
           CHECK_NOT_NULL (hmac_alloc M alg) (\<lambda>c. Inr (s, out, pass_ba, c)))))) of
        Inl e \<Rightarrow> Some (Inl e)
      | Inr (s, out, pass_ba, c) \<Rightarrow>
          pbkdf2_loop be M pass_ba s iterations (hash_get_size alg) key_len 1 c out)"

subsection \<open>RFC 8018\<close>

primrec rfc_U :: "HashAlg \<Rightarrow> u8 list \<Rightarrow> u8 list \<Rightarrow> nat \<Rightarrow> u8 list" where
  "rfc_U alg P x 0 = rfc_hmac alg P x"
| "rfc_U alg P x (Suc j) = rfc_hmac alg P (rfc_U alg P x j)"

definition rfc_F :: "HashAlg \<Rightarrow> u8 list \<Rightarrow> u8 list \<Rightarrow> nat \<Rightarrow> nat \<Rightarrow> u8 list" where
  "rfc_F alg P S c i = (let x = S @ put_be32 (of_nat i)
     in foldl (\<lambda>t j. map2 (XOR) t (rfc_U alg P x j)) (rfc_U alg P x 0) [1..<c])"

definition rfc_pbkdf2 :: "HashAlg \<Rightarrow> u8 list \<Rightarrow> u8 list \<Rightarrow> nat \<Rightarrow> nat \<Rightarrow> u8 list" where
  "rfc_pbkdf2 alg P S c dkLen =
     take dkLen (concat (map (rfc_F alg P S c) [1..<Suc (dkLen div hash_get_size alg + 1)]))"

subsection \<open>One block\<close>

lemma length_rfc_U [simp]: "alg \<noteq> HASH_ALG_UNDEFINED \<Longrightarrow> length (rfc_U alg P x j) = hash_get_size alg"
  by (cases j) (simp_all add: length_rfc_hmac)

lemma length_foldl_xor: "alg \<noteq> HASH_ALG_UNDEFINED \<Longrightarrow> length t = hash_get_size alg \<Longrightarrow>
    length (foldl (\<lambda>t j. map2 (XOR) t (rfc_U alg P x j)) t js) = hash_get_size alg"
  by (induction js arbitrary: t) simp_all

lemma length_rfc_F [simp]: "alg \<noteq> HASH_ALG_UNDEFINED \<Longrightarrow> length (rfc_F alg P S c i) = hash_get_size alg"
  unfolding rfc_F_def Let_def by (rule length_foldl_xor) (simp_all add: length_rfc_hmac)

lemma hmac_holds_known: "hmac_holds alg K c m \<Longrightarrow> alg \<noteq> HASH_ALG_UNDEFINED"
  by (auto simp: hmac_holds_def hmac_with_def dest: hash_holds_known)

lemma final_reset_eq:
  assumes "hmac_holds alg K c m" "mem_ok M"
  shows "\<exists>c'. hmac_holds alg K c' [] \<and> (\<forall>k :: HmacCtx \<Rightarrow> ByteArray \<Rightarrow> 'b res. final_reset be M c k = k c' (mk_ba (rfc_hmac alg K m)))"
proof -
  obtain c1 where c1: "hmac_final be M (Some c) = (Inr (mk_ba (rfc_hmac alg K m)), Some c1)" "hmac_keyed alg K c1"
    using hmac_final_keyed[OF assms, of be] by blast
  obtain c2 where "hmac_reset be (Some c1) = Inr c2" "hmac_holds alg K c2 []" using hmac_reset_holds[OF c1(2), of be] by blast
  then show ?thesis using c1(1) by (auto simp: final_reset_def)
qed

lemma pbkdf2_rounds_eq:
  assumes "hmac_holds alg P c []" "mem_ok M" "n \<le> hash_get_size alg" "length t = hash_get_size alg"
  shows "\<exists>c'. pbkdf2_rounds be M k c (mk_ba (rfc_U alg P x j)) (mk_ba (take n t))
      = Inr (c', mk_ba (take n (foldl (\<lambda>t j. map2 (XOR) t (rfc_U alg P x j)) t [Suc j..<Suc j + k])))
    \<and> hmac_holds alg P c' []"
  using assms
proof (induction k arbitrary: c j t)
  case 0
  then show ?case by simp
next
  case (Suc k)
  note known = hmac_holds_known[OF Suc.prems(1)]
  have l: "ba_len (mk_ba (rfc_U alg P x j)) \<le> hash_max_frag alg" using known hash_block_bounds(5)[of alg] by simp
  obtain c1 where c1: "hmac_update be (Some c) (Some (mk_ba (rfc_U alg P x j))) = Inr c1" "hmac_holds alg P c1 (rfc_U alg P x j)"
    using hmac_update_holds[OF Suc.prems(1) _ l, of be] by auto
  obtain c2 where c2: "hmac_holds alg P c2 []"
    "\<forall>k :: HmacCtx \<Rightarrow> ByteArray \<Rightarrow> (HmacCtx \<times> ByteArray) res. final_reset be M c1 k = k c2 (mk_ba (rfc_U alg P x (Suc j)))"
    using final_reset_eq[OF c1(2) Suc.prems(2), of be] by auto
  define t1 where "t1 = map2 (XOR) t (rfc_U alg P x (Suc j))"
  have lt: "length t1 = hash_get_size alg" using Suc.prems(4) known by (simp add: t1_def length_rfc_hmac)
  have lu: "length (rfc_U alg P x (Suc j)) = hash_get_size alg" by (rule length_rfc_U[OF known])
  have x: "ba_xor (Some (mk_ba (take n t))) (Some (mk_ba (rfc_U alg P x (Suc j)))) = Inr (mk_ba (take n t1))"
  proof -
    have "map2 (XOR) (take n t) (rfc_U alg P x (Suc j)) = take n t1"
      using Suc.prems(3,4) lu map2_take[of n "take n t" "(XOR)" "rfc_U alg P x (Suc j)"] unfolding t1_def
      by (simp only: take_map take_zip length_take min_absorb2)
    then show ?thesis
      using Suc.prems(3,4) lu lt by (subst ba_xor_eq) (simp_all del: rfc_U.simps)
  qed
  have u: "[Suc j..<Suc j + Suc k] = Suc j # [Suc (Suc j)..<Suc (Suc j) + k]" by (simp add: upt_rec)
  show ?case
    using Suc.IH[OF c2(1) Suc.prems(2,3) lt, of "Suc j"] unfolding pbkdf2_rounds.simps c1(1) DO_simps c2(2)[rule_format] x u foldl_Cons t1_def .
qed

lemma count_bytes_be:
  "[ucast (drop_bit 24 w AND 0xff), ucast (drop_bit 16 w AND 0xff), ucast (drop_bit 8 w AND 0xff), ucast (w AND 0xff)] = put_be32 w"
proof -
  have "ucast (v AND 0xff :: u32) = (ucast v :: u8)" for v
  proof -
    have "v AND 0xff = take_bit 8 v" by (simp add: take_bit_eq_mask mask_eq_exp_minus_1)
    then show ?thesis by (simp only:) (rule bit_word_eqI, auto simp: bit_simps)
  qed
  then show ?thesis by (simp add: put_be32_def)
qed

lemma pbkdf2_block_eq:
  assumes c: "i = 1 \<and> hmac_new alg c \<or> 1 < i \<and> hmac_holds alg P c []" and i: "i < 2 ^ 32" and M: "mem_ok M"
    and pass: "wf_ba pass_ba" "data pass_ba = P" "ba_len pass_ba \<le> hash_max_frag alg"
    and salt: "wf_ba salt" "ba_len salt \<le> hash_max_frag alg" and n: "0 < n" "n \<le> hash_get_size alg"
  shows "\<exists>c'. pbkdf2_block be M pass_ba salt iters (of_nat i) n c = Inr (c', mk_ba (take n (rfc_F alg P (data salt) iters i)))
    \<and> hmac_holds alg P c' []"
proof -
  define x where "x = data salt @ put_be32 (of_nat i)"
  have one: "of_nat i = (1 :: u32) \<longleftrightarrow> i = 1"
  proof
    assume "of_nat i = (1 :: u32)"
    then have "unat (of_nat i :: u32) = 1" by simp
    then show "i = 1" using i by (simp add: unat_of_nat take_bit_eq_mod)
  qed simp
  obtain c1 where c1: "(if of_nat i = (1 :: u32) then (case hmac_init be M (Some c) (Some pass_ba) of (r, c) \<Rightarrow> DO r (\<lambda>_. NOT_NULL c Inr)) else Inr c) = Inr c1"
      "hmac_holds alg P c1 []"
    using c hmac_init_keyed[of alg c pass_ba M be] pass M unfolding one by auto
  note known = hmac_holds_known[OF c1(2)]
  obtain c2 where c2: "hmac_update be (Some c1) (Some salt) = Inr c2" "hmac_holds alg P c2 (data salt)"
    using hmac_update_holds[OF c1(2) salt, of be] by auto
  have "ba_len (mk_ba (put_be32 (of_nat i))) \<le> hash_max_frag alg" using hash_block_bounds(2,4)[of alg] by simp
  from hmac_update_holds[OF c2(2) _ this, of be]
  obtain c3 where c3: "hmac_update be (Some c2) (Some (mk_ba (put_be32 (of_nat i)))) = Inr c3" "hmac_holds alg P c3 x"
    by (auto simp: x_def)
  obtain c4 where c4: "hmac_holds alg P c4 []"
      "\<forall>k :: HmacCtx \<Rightarrow> ByteArray \<Rightarrow> (HmacCtx \<times> ByteArray) res. final_reset be M c3 k = k c4 (mk_ba (rfc_U alg P x 0))"
    using final_reset_eq[OF c3(2) M, of be] by auto
  have lu: "length (rfc_U alg P x 0) = hash_get_size alg" by (rule length_rfc_U[OF known])
  have s: "hash_get_size alg < SIZE_MOD" using hash_block_bounds(1,3)[of alg] by (simp add: SIZE_MOD_def)
  have cp: "ba_copy_with_alloc M (Some (mk_ba (rfc_U alg P x 0))) 0 n = Inr (Some (mk_ba (take n (rfc_U alg P x 0))))"
    using n lu s by (subst ba_copy_with_alloc_eq[OF M]) (simp_all del: rfc_U.simps)
  have ca: "ba_alloc_from_uint8 M (Some (put_be32 (of_nat i))) 4 = Inr (Some (mk_ba (put_be32 (of_nat i))))"
    using M by (simp add: ba_alloc_from_uint8_eq)
  obtain c5 where c5: "pbkdf2_rounds be M (iters - 1) c4 (mk_ba (rfc_U alg P x 0)) (mk_ba (take n (rfc_U alg P x 0)))
      = Inr (c5, mk_ba (take n (foldl (\<lambda>t j. map2 (XOR) t (rfc_U alg P x j)) (rfc_U alg P x 0) [Suc 0..<Suc 0 + (iters - 1)])))"
      "hmac_holds alg P c5 []"
    using pbkdf2_rounds_eq[OF c4(1) M n(2) lu, of be "iters - 1" x 0] by blast
  have u: "[Suc 0..<Suc 0 + (iters - 1)] = [1..<iters]" by (cases iters) simp_all
  have "pbkdf2_block be M pass_ba salt iters (of_nat i) n c = Inr (c5, mk_ba (take n (rfc_F alg P (data salt) iters i)))"
    unfolding pbkdf2_block_def count_bytes_be ca CHECK_NOT_NULL_simps c1(1) DO_simps c2(1) c3(1) c4(2)[rule_format] cp c5(1) u
    unfolding rfc_F_def Let_def x_def ..
  then show ?thesis using c5(2) by blast
qed

subsection \<open>All blocks\<close>

lemma pbkdf2_loop_eq:
  assumes c: "i = 1 \<and> hmac_new alg c \<or> 1 < i \<and> hmac_holds alg P c []" and known: "alg \<noteq> HASH_ALG_UNDEFINED" and M: "mem_ok M"
    and pass: "wf_ba pass_ba" "data pass_ba = P" "ba_len pass_ba \<le> hash_max_frag alg"
    and salt: "wf_ba salt" "ba_len salt \<le> hash_max_frag alg"
    and size: "key_len + i * hash_get_size alg \<le> 2 ^ 32 * hash_get_size alg" "ba_len out + key_len < SIZE_MOD" "wf_ba out"
  shows "\<exists>o'. pbkdf2_loop be M pass_ba salt iters (hash_get_size alg) key_len (of_nat i) c out = Some (Inr o') \<and> wf_ba o'
    \<and> data o' = data out @ take key_len (concat (map (rfc_F alg P (data salt) iters) [i..<Suc (i + key_len div hash_get_size alg)]))"
  using c size
proof (induction key_len arbitrary: i c out rule: less_induct)
  case (less key_len)
  define h where "h = hash_get_size alg"
  define F where "F = rfc_F alg P (data salt) iters"
  have h0: "0 < h" using known by (cases alg) (simp_all add: h_def hash_get_size_def)
  have lF: "length (F j) = h" for j using known by (simp add: F_def h_def)
  show ?case
  proof (cases "key_len = 0")
    case True
    then show ?thesis using less.prems(4) by (subst pbkdf2_loop.simps) simp
  next
    case False
    define n where "n = (if key_len > h then h else key_len)"
    have n: "0 < n" "n \<le> h" "n \<le> key_len" using False h0 by (auto simp: n_def)
    have "i * h < 2 ^ 32 * h" using less.prems(2) False unfolding h_def[symmetric] by linarith
    then have i: "i < 2 ^ 32" by (rule mult_less_cancel2[THEN iffD1, THEN conjunct2])
    obtain c1 where c1: "pbkdf2_block be M pass_ba salt iters (of_nat i) n c = Inr (c1, mk_ba (take n (F i)))" "hmac_holds alg P c1 []"
      using pbkdf2_block_eq[OF less.prems(1) i M pass salt n(1) n(2)[unfolded h_def], of be iters] by (auto simp: F_def)
    have ap: "ba_append M (Some (mk_ba (take n (F i)))) 0 n (Some out) = Inr (mk_ba (data out @ take n (F i)))"
      using n lF[of i] less.prems(3,4) by (subst ba_append_eq[OF M]) simp_all
    define out1 where "out1 = mk_ba (data out @ take n (F i))"
    have loop: "pbkdf2_loop be M pass_ba salt iters h key_len (of_nat i) c out
        = pbkdf2_loop be M pass_ba salt iters h (key_len - n) (of_nat (Suc i)) c1 out1"
      using False c1(1) ap
      by (subst pbkdf2_loop.simps) (simp add: n_def[symmetric] Let_def ignored_def out1_def add.commute)
    have o1: "wf_ba out1" "data out1 = data out @ take n (F i)" "ba_len out1 = ba_len out + n"
      using n lF[of i] less.prems(4) by (simp_all add: out1_def)
    have c2: "Suc i = 1 \<and> hmac_new alg c1 \<or> 1 < Suc i \<and> hmac_holds alg P c1 []" using c1(2) less.prems(1) by auto
    have sz: "key_len - n + Suc i * h \<le> 2 ^ 32 * h \<or> key_len \<le> h" using less.prems(2) by (auto simp: n_def simp flip: h_def)
    show ?thesis
    proof (cases "key_len > h")
      case True
      then have nh: "n = h" by (simp add: n_def)
      have lt: "key_len - n < key_len" using n False by simp
      have "key_len - n + Suc i * hash_get_size alg \<le> 2 ^ 32 * hash_get_size alg" "ba_len out1 + (key_len - n) < SIZE_MOD"
        using sz True less.prems(3) o1(3) n by (auto simp flip: h_def)
      from less.IH[OF lt c2 this o1(1)]
      obtain o' where o': "pbkdf2_loop be M pass_ba salt iters h (key_len - n) (of_nat (Suc i)) c1 out1 = Some (Inr o')" "wf_ba o'"
        "data o' = data out1 @ take (key_len - n) (concat (map F [Suc i..<Suc (Suc i + (key_len - n) div h)]))"
        unfolding h_def F_def by blast
      have d: "Suc i + (key_len - n) div h = i + key_len div h" using True h0 nh by (simp add: le_div_geq)
      have "[i..<Suc (i + key_len div h)] = i # [Suc i..<Suc (i + key_len div h)]" by (simp add: upt_rec)
      then have "take key_len (concat (map F [i..<Suc (i + key_len div h)]))
          = F i @ take (key_len - n) (concat (map F [Suc i..<Suc (Suc i + (key_len - n) div h)]))"
        using lF[of i] True nh unfolding d by simp
      then show ?thesis using o' o1(2) loop lF[of i] nh unfolding h_def[symmetric] F_def[symmetric] by simp
    next
      case f: False
      then have nk: "n = key_len" by (simp add: n_def)
      have e: "pbkdf2_loop be M pass_ba salt iters h (key_len - n) (of_nat (Suc i)) c1 out1 = Some (Inr out1)"
        unfolding nk by (subst pbkdf2_loop.simps) simp
      have "[i..<Suc (i + key_len div h)] = i # [Suc i..<Suc (i + key_len div h)]" by (simp add: upt_rec)
      then have "take key_len (concat (map F [i..<Suc (i + key_len div h)])) = take n (F i)"
        using lF[of i] f nk by simp
      then show ?thesis using o1 loop e unfolding h_def[symmetric] F_def[symmetric] by simp
    qed
  qed
qed

subsection \<open>Properties\<close>

text \<open>(C40) \<^verbatim>\<open>pbkdf2\<close> returns, and it returns the key of RFC 8018 for HMAC with the chosen hash function: for every
  password and salt that the hash function takes in one piece, every number of iterations (zero counts as one)
  and every length up to what a counter of 32 bits allows.\<close>

theorem pbkdf2_rfc8018:
  assumes "alg \<noteq> HASH_ALG_UNDEFINED" "mem_ok M" "wf_ba salt" "ba_len salt \<le> hash_max_frag alg"
    and "strlen pass < length pass" "strlen pass \<le> hash_max_frag alg"
    and "key_len \<le> (2 ^ 32 - 1) * hash_get_size alg"
  shows "\<exists>dk. pbkdf2 be M (Some pass) (Some salt) iterations key_len alg = Some (Inr dk) \<and> wf_ba dk
    \<and> data dk = rfc_pbkdf2 alg (take (strlen pass) pass) (data salt) iterations key_len"
proof -
  define p where "p = take (strlen pass) pass"
  obtain pass_ba where pb: "ba_alloc_from_str M (Some pass) = Inr (Some pass_ba)" "wf_ba pass_ba" "data pass_ba = p" "ba_len pass_ba = strlen pass"
  proof (cases "strlen pass = 0")
    case True
    then have "ba_alloc_from_str M (Some pass) = Inr (Some \<lparr>ba_buf = None, ba_len = 0\<rparr>)"
      using assms(2) by (simp add: ba_alloc_from_str_def ba_alloc_from_uint8_def)
    then show ?thesis using True that by (simp add: p_def data_def)
  next
    case False
    then have "ba_alloc_from_str M (Some pass) = Inr (Some (mk_ba p))"
      using assms(2,5) by (simp add: ba_alloc_from_str_def ba_alloc_from_uint8_eq p_def)
    then show ?thesis using that assms(5) by (simp add: p_def)
  qed
  obtain c where c: "hmac_alloc M alg = Inr (Some c)" "hmac_new alg c" using hmac_alloc_new[OF assms(1,2)] by blast
  have o: "ba_alloc M = Inr (Some \<lparr>ba_buf = None, ba_len = 0\<rparr>)" using assms(2) by (simp add: ba_alloc_def)
  have h: "hash_get_size alg \<le> 144" using hash_block_bounds(1,3)[of alg] by simp
  have k: "key_len + 1 * hash_get_size alg \<le> 2 ^ 32 * hash_get_size alg" using assms(7) by (simp add: algebra_simps)
  have "(2 ^ 32 - 1) * hash_get_size alg \<le> (2 ^ 32 - 1) * 144" using h by (rule mult_le_mono2)
  then have s: "key_len < SIZE_MOD" using assms(7) by (simp add: SIZE_MOD_def)
  obtain dk where "pbkdf2_loop be M pass_ba salt iterations (hash_get_size alg) key_len (of_nat 1) c \<lparr>ba_buf = None, ba_len = 0\<rparr> = Some (Inr dk)"
      "wf_ba dk" "data dk = take key_len (concat (map (rfc_F alg p (data salt) iterations) [1..<Suc (1 + key_len div hash_get_size alg)]))"
    using pbkdf2_loop_eq[of 1 alg c p M pass_ba salt key_len "\<lparr>ba_buf = None, ba_len = 0\<rparr>" be iterations]
      c(2) assms pb k s by (auto simp: data_def)
  then show ?thesis using c(1) o pb(1) by (simp add: pbkdf2_def rfc_pbkdf2_def p_def)
qed

lemma pbkdf2_rfc8018_witness:
  "\<exists>dk. pbkdf2 False ideal_mem (Some (ascii ''password'' @ [0])) (Some (mk_ba (ascii ''salt''))) 2 20 HASH_ALG_SHA1 = Some (Inr dk)
    \<and> data dk = rfc_pbkdf2 HASH_ALG_SHA1 (ascii ''password'') (ascii ''salt'') 2 20"
  using pbkdf2_rfc8018[of HASH_ALG_SHA1 ideal_mem "mk_ba (ascii ''salt'')" "ascii ''password'' @ [0]" 20 False 2]
  by (auto simp: ascii_def strlen_def hash_max_frag_def hash_get_size_def)

end
