(* ===== verification/Spec2Isabelle.thy ===== *)
theory Spec2Isabelle
  imports Prelude ByteUtils ByteArray Encoding Md5 Sha1 Fips180 Sha2 Sm3 Ripemd Paddings MathSqrt GostHash Sha3 Whirlpool StreebogHash KupynaKmac HashApi Pbkdf2
begin

text \<open>
  A verification development for the cryptographic library of UAPKI, \<^verbatim>\<open>src/library/uapkic\<close>.
  File names below are relative to \<^verbatim>\<open>src/library/uapkic/src\<close>.

  \<^bold>\<open>The program.\<close> UAPKI is a library for electronic signatures. Its C core \<^verbatim>\<open>uapkic\<close> has, from the bottom
  up: byte arrays (\<^verbatim>\<open>byte-array.c\<close>) with the conversions between bytes and words
  (\<^verbatim>\<open>byte-utils-internal.c\<close>); hash functions with a common shape of interface (\<^verbatim>\<open>alloc\<close>,
  \<^verbatim>\<open>update\<close>, \<^verbatim>\<open>final\<close>); padding schemes; ciphers, key wrapping and message authentication; word
  arrays (\<^verbatim>\<open>word-internal.c\<close>) and the arithmetic of big integers on them
  (\<^verbatim>\<open>math-int-internal.c\<close>), on which fields, elliptic curves and the signature schemes stand. Above
  \<^verbatim>\<open>uapkic\<close> the repository has ASN.1 structures generated by a compiler (\<^verbatim>\<open>uapkif\<close>), a JSON service
  layer in C++ (\<^verbatim>\<open>uapki\<close>), key storages (\<^verbatim>\<open>cm-*\<close>) and bindings.

  \<^bold>\<open>How C is read.\<close> A function is a HOL function over explicit values. \<^verbatim>\<open>struct\<close>s are records; a
  pointer that the code compares with \<^verbatim>\<open>NULL\<close> is an option; a function that writes through a
  pointer returns the new object, and where a failure leaves the object changed it returns the code
  together with the object. Return codes are the type \<open>ret\<close>, results \<open>ret + 'a\<close>, and the macros
  \<^verbatim>\<open>DO\<close>, \<^verbatim>\<open>CHECK_PARAM\<close>, \<^verbatim>\<open>CHECK_NOT_NULL\<close>, \<^verbatim>\<open>MALLOC_CHECKED\<close> of \<^verbatim>\<open>macros-internal.h\<close> are combinators of
  the same names (theory \<open>Prelude\<close>). Every access to memory is bounds checked: outside its object it
  gives \<open>UNDEFINED\<close>, so a theorem that a result is \<open>Inr\<close> or \<open>defined\<close> includes memory safety. A loop
  that may run forever is a partial function, and a call that does not return is \<open>None\<close>.
  The host is a parameter \<open>mem\<close>: which allocations succeed, what uninitialised memory holds, and
  the byte order. \<open>mem_ok M\<close> says that allocation succeeds; it is a hypothesis where a theorem
  states a result, and failures of allocation are covered by the theorems on errors. \<^verbatim>\<open>size_t\<close> has 64 bits and
  wraps where a caller chooses the operands (the size of a block that exists does not); words are
  \<open>8 word\<close>, \<open>32 word\<close>, \<open>64 word\<close>. A reallocation to no bytes may free the block and fail: that failure is the
  code \<open>FREED\<close>. Output pointers to variables of the caller are taken to be valid.

  \<^bold>\<open>Theories.\<close>
  \<^item> \<open>Prelude\<close>: results, macros, the allocator, memory access, lists of blocks (\<open>chunks\<close>), digits to a base.
  \<^item> \<open>ByteUtils\<close>: \<^verbatim>\<open>byte-utils-internal.c\<close>, for hosts of both byte orders.
  \<^item> \<open>ByteArray\<close>: the type \<^verbatim>\<open>ByteArray\<close> and its operations (\<^verbatim>\<open>byte-array.c\<close>,
    \<^verbatim>\<open>byte-array-internal.c\<close>); what every operation computes, which accesses stay inside their
    arrays, where the length checks wrap, and what failed reallocations leave behind.
  \<^item> \<open>Encoding\<close>: hexadecimal and base64 (\<^verbatim>\<open>byte-array.c\<close>), with round trips; the arrays a client can build
    (\<open>ba_reach\<close>) and their invariant, that the length is the size of the block.
  \<^item> \<open>BlockHash\<close>: what the block hashes share: folding a compression function over blocks, the
    buffering invariant \<open>absorbed\<close>, the padding with a length, and the locale \<open>hash_alg\<close>, whose laws say
    that a context holds the message absorbed so far and that \<^verbatim>\<open>final\<close> gives its digest; its lemma
    \<open>feed_holds\<close> says that only the concatenation of the fragments matters.
  \<^item> \<open>BitEval\<close>: evaluation of words in the kernel, bit by bit, for the self-tests.
  \<^item> \<open>Fips180\<close>: SHA-224 to SHA-512 as FIPS 180-4 states them, with the constants from the roots of the primes;
    nothing in it comes from the code.
  \<^item> \<open>Md5\<close>, \<open>Sha1\<close>, \<open>Sha2\<close>, \<open>Sm3\<close>, \<open>Ripemd\<close>: the hash functions (\<^verbatim>\<open>md5.c\<close>, \<^verbatim>\<open>sha1.c\<close>, \<^verbatim>\<open>sha2.c\<close>,
    \<^verbatim>\<open>sm3.c\<close>, \<^verbatim>\<open>ripemd.c\<close>). Each interprets \<open>hash_alg\<close>, proves that feeding a message in fragments gives
    the digest of the standard's definition (fold over padded blocks), and that the compression or
    the self-test of the code agrees with the standard.
  \<^item> \<open>Paddings\<close>: \<^verbatim>\<open>paddings.c\<close>.
  \<^item> \<open>WordArr\<close>: \<^verbatim>\<open>WordArray\<close> (\<^verbatim>\<open>word-internal.c\<close>) for 64-bit words, its conversions and the number \<open>wval\<close> it holds.
  \<^item> \<open>MathDword\<close>, \<open>MathInt\<close>: double words, and addition, subtraction, multiplication, shifts and
    comparison of word arrays (\<^verbatim>\<open>math-int-internal.c\<close>) as exact operations on numbers.
  \<^item> \<open>MathDiv\<close>: the division of word arrays, Knuth's algorithm D with its fixed buffers, refines \<open>div\<close> and \<open>mod\<close>;
    division by zero does not return.
  \<^item> \<open>MathSqrt\<close>: \<^verbatim>\<open>int_sqrt\<close>, Newton's iteration, computes the integer square root and returns exactly for numbers from 2 on.
  \<^item> \<open>ByteStream\<close>: what stream modes share: a block of gamma, an offset into it, and the locale \<open>block_stream\<close>, in
    which the code's three loops (rest of a block, whole blocks, tail) are the byte by byte process, so that
    only the concatenation of the fragments matters.
  \<^item> \<open>Gost28147\<close>: the cipher of \<^verbatim>\<open>gost28147.c\<close>, its tables, cycles, modes and contexts. \<open>GostModes\<close>: the three cycles are
    the Feistel network of the standard; simple substitution and counter mode. \<open>GostFeedback\<close>: feedback mode
    and the authentication code. \<open>GostApi\<close>: the expanded tables are the standard's substitution and rotation, the
    contexts a program can reach, and what every operation on them does.
  \<^item> \<open>Gost34311\<close>: the hash of \<^verbatim>\<open>gost34311.c\<close> over that cipher. \<open>GostStep\<close>: its step, which the code has multiplied
    out, is the standard's shift register and key schedule. \<open>GostHash\<close>: counter, control sum, fragments.
  \<^item> \<open>Sha3\<close>: \<^verbatim>\<open>sha3.c\<close>; the permutation equals that of FIPS 202, and the byte and word buffering of the sponge
    gives the standard's digest.
  \<^item> \<open>GfTables\<close>: the bytes of words and multiplication in a field of 256 elements, for the algorithms with large tables.
  \<^item> \<open>Whirlpool\<close>: \<^verbatim>\<open>whirlpool.c\<close>; its one table, rotated for the other rows, holds the products of the standard's
    matrix and S-box, and the unrolled rounds are the standard's; a message is padded with a length of 256 bits.
  \<^item> \<open>StreebogTables\<close>, \<open>Gostr3411\<close>, \<open>StreebogHash\<close>: \<^verbatim>\<open>gostr3411-2012.c\<close>; the eight tables are the substitution and
    the linear map of GOST R 34.11-2012, the carries of length and control sum are those of numbers modulo \<open>2 ^ 512\<close>.
  \<^item> \<open>KalynaTables\<close>: the tables of \<^verbatim>\<open>dstu7624.c\<close> and the functions that generate tables from S-boxes; the stored
    tables are the generated ones.
  \<^item> \<open>Dstu7564\<close>: the hash and the authentication code of \<^verbatim>\<open>dstu7564.c\<close> over these tables. \<open>KupynaHash\<close>: its rounds
    are the standard's, fragments and padding. \<open>KupynaMac\<close>: the interface for every code length. \<open>KupynaKmac\<close>: the
    authentication code is the hash of padded key, padded message and complemented key.
  \<^item> \<open>HashApi\<close>: \<^verbatim>\<open>hash.c\<close>; the context of one of the hash functions with its operations is a value of a sum type,
    and all known algorithms share the interface \<open>hash_alg\<close>.
  \<^item> \<open>MacAlg\<close>: the interface of authentication codes; \<open>Hmac\<close>: \<^verbatim>\<open>hmac.c\<close> is RFC 2104 over every hash function;
    \<open>Pbkdf2\<close>: \<^verbatim>\<open>pbkdf2\<close> of \<^verbatim>\<open>pbkdf.c\<close> returns the key of RFC 8018.

  \<^bold>\<open>Kinds of statement.\<close> Invariants and definedness of the byte arrays; round trips of the encodings,
  paddings and conversions; refinement of the hash interfaces to functions on byte lists, and of word
  arrays to natural numbers; equivalence of the unrolled and scheduled loops with the standards;
  termination of the loops that have no bound of their own; behaviour on errors and on
  inputs the code does not check.

  \<^bold>\<open>Bounds.\<close> A fragment given to SM3 is shorter than \<open>2 ^ 32\<close> bytes (the code truncates its length), one given to
  MD5 has at most \<open>2 ^ 29 - 1\<close> (the code refuses longer ones), one given to SHA-2 is shorter than \<open>2 ^ 64 - 128\<close> (the sum with
  what is pending wraps), and behind the common interface all others have at most \<open>2 ^ 63 - 1\<close>; the left shift and the length
  of word arrays are stated for at most \<open>2 ^ 31\<close> words (the code counts with \<^verbatim>\<open>int\<close>);
  the counters of the other hashes are exact modulo their width, which is what the standards' length
  fields are modulo. No fuel is used: loops are structural in a counter or a list, or partial functions.

  \<^bold>\<open>Not modelled.\<close> Printing and releasing memory (\<^verbatim>\<open>ba_print\<close>, \<^verbatim>\<open>*_free\<close>) have no result. \<^verbatim>\<open>entropy.c\<close>,
  \<^verbatim>\<open>jitterentropy.c\<close>, \<^verbatim>\<open>pthread-impl.c\<close> and \<^verbatim>\<open>stacktrace.c\<close> talk to the operating system. The branches for
  32-bit words (\<^verbatim>\<open>ARCH32\<close>) are left out. \<^verbatim>\<open>uapkif\<close> is generated from ASN.1 modules, \<^verbatim>\<open>curl\<close>, \<^verbatim>\<open>parson\<close>
  and \<^verbatim>\<open>cryptoki\<close> are third-party interfaces, and \<^verbatim>\<open>uapki\<close>, \<^verbatim>\<open>cm-*\<close>, \<^verbatim>\<open>uapki-1c\<close>, \<^verbatim>\<open>hostapp\<close>,
  \<^verbatim>\<open>wasm\<close> and the integrations are C++ services and bindings. Not modelled, because it is not reached yet: the rounds and modes of DSTU 7624, DSTU 8845, AES, DES,
  key wrapping, the random generator, \<^verbatim>\<open>pbkdf1\<close>, prime and binary fields. Not modelled because it
  needs more than the libraries at hand have: elliptic curves and the signatures over them (the group law). The
  self-tests of the later hashes and the functions that only free memory are left out.
\<close>

end
